(* ===== verification/Prelude.thy ===== *)
theory Prelude
  imports Main "HOL-Library.AList" "HOL-Library.Multiset"
begin

text \<open>
  Shared vocabulary of the development: the collections of simplification facts, Python
  dictionaries as association lists in insertion order, the results of code that may
  raise, and generic facts about sums over a finite set of threads, about sorting and about
  filtering that the components use.
\<close>

named_theorems dict_simps \<open>facts about insertion-ordered dictionaries\<close>
named_theorems str_simps \<open>defining equations of the string operations\<close>
named_theorems conc_simps \<open>facts about the thread-indexed states\<close>

section \<open>Dictionaries\<close>

text \<open>
  A Python dict iterates in insertion order and an assignment to an existing key keeps that
  key's position. \<open>AList.update\<close> has exactly this behaviour, \<open>map_of\<close> is the lookup and
  \<open>AList.delete\<close> is \<open>del d[k]\<close>.
\<close>

type_synonym ('k, 'v) dict = "('k \<times> 'v) list"

abbreviation dget :: "('k, 'v) dict \<Rightarrow> 'k \<Rightarrow> 'v option" where
  "dget d k \<equiv> map_of d k"

abbreviation dset :: "'k \<Rightarrow> 'v \<Rightarrow> ('k, 'v) dict \<Rightarrow> ('k, 'v) dict" where
  "dset k v d \<equiv> AList.update k v d"

abbreviation ddel :: "'k \<Rightarrow> ('k, 'v) dict \<Rightarrow> ('k, 'v) dict" where
  "ddel k d \<equiv> AList.delete k d"

abbreviation dkeys :: "('k, 'v) dict \<Rightarrow> 'k list" where
  "dkeys d \<equiv> map fst d"

text \<open>\<open>d.update(e)\<close>: the entries of \<open>e\<close>, assigned one after the other.\<close>

definition dupdate :: "('k, 'v) dict \<Rightarrow> ('k, 'v) dict \<Rightarrow> ('k, 'v) dict" where
  "dupdate d e = fold (\<lambda>(k, v) acc. dset k v acc) e d"

definition dget_default :: "('k, 'v) dict \<Rightarrow> 'k \<Rightarrow> 'v \<Rightarrow> 'v" where
  "dget_default d k x = (case dget d k of None \<Rightarrow> x | Some v \<Rightarrow> v)"

lemma dget_dset [dict_simps]: "dget (dset k v d) = (dget d)(k \<mapsto> v)"
  by (rule update_conv')

lemma dget_ddel [dict_simps]: "dget (ddel k d) = (dget d)(k := None)"
  by (rule delete_conv')

lemma dkeys_dset_set [dict_simps]: "set (dkeys (dset k v d)) = insert k (set (dkeys d))"
  by (induction d) auto

lemma fst_image_dset [dict_simps]: "fst ` set (dset k v d) = insert k (fst ` set d)"
  by (induction d) auto

lemma distinct_dkeys_dset [dict_simps, intro]:
  "distinct (dkeys d) \<Longrightarrow> distinct (dkeys (dset k v d))"
  by (rule distinct_update)

lemma distinct_dkeys_ddel [intro]: "distinct (dkeys d) \<Longrightarrow> distinct (dkeys (ddel k d))"
  by (rule distinct_delete)

lemma dget_None_iff: "dget d k = None \<longleftrightarrow> k \<notin> set (dkeys d)"
  by (simp add: map_of_eq_None_iff)

lemma dget_default_dset [dict_simps]:
  "dget_default (dset k v d) k' x = (if k = k' then v else dget_default d k' x)"
  by (simp add: dget_default_def dget_dset)

lemma dget_default_Nil [simp]: "dget_default [] k x = x"
  by (simp add: dget_default_def)

lemma set_ddel: "set (ddel k d) \<subseteq> set d"
  by (induction d) auto

lemma set_dset_subset: "set (dset k v d) \<subseteq> insert (k, v) (set d)"
  by (induction d) auto

lemma dset_new: "k \<notin> set (dkeys d) \<Longrightarrow> dset k v d = d @ [(k, v)]"
  by (induction d) auto

lemma dset_old_keys: "k \<in> set (dkeys d) \<Longrightarrow> dkeys (dset k v d) = dkeys d"
  by (induction d) auto

lemma dget_fold_dset: "dget (fold (\<lambda>(k, v) acc. dset k v acc) e d) = dget d ++ map_of (rev e)"
  by (induction e arbitrary: d) (auto simp: dget_dset map_add_def fun_eq_iff split: option.splits)

lemma map_of_rev_distinct: "distinct (map fst e) \<Longrightarrow> map_of (rev e) = map_of e"
  by (induction e) (auto simp: fun_eq_iff map_add_def split: option.splits
    dest: map_of_SomeD intro: rev_image_eqI)

lemma dget_dupdate: "distinct (dkeys e) \<Longrightarrow> dget (dupdate d e) = dget d ++ dget e"
  by (simp add: dupdate_def dget_fold_dset map_of_rev_distinct)

text \<open>\<open>xs[a:b]\<close>: negative bounds count from the end, both are clipped to the list.\<close>

definition slice_bound :: "int \<Rightarrow> nat \<Rightarrow> nat" where
  "slice_bound a n = (if a < 0 then nat (a + int n) else min (nat a) n)"

definition py_slice :: "int \<Rightarrow> int \<Rightarrow> 'a list \<Rightarrow> 'a list" where
  "py_slice a b xs = (let i = slice_bound a (length xs) in
     take (slice_bound b (length xs) - i) (drop i xs))"

lemma py_slice_nonneg:
  assumes "0 \<le> a" "0 \<le> k"
  shows "py_slice a (a + k) xs = take (nat k) (drop (nat a) xs)"
proof (cases "nat a \<le> length xs")
  case True
  then show ?thesis using assms
    by (auto simp: py_slice_def slice_bound_def Let_def min_def nat_add_distrib)
next
  case False
  then show ?thesis using assms by (simp add: py_slice_def slice_bound_def Let_def)
qed

section \<open>Results of code that may raise\<close>

text \<open>\<open>Inl\<close> is the exception that escapes, \<open>Inr\<close> the value returned.\<close>

type_synonym ('e, 'a) result = "'e + 'a"

definition is_ok :: "('e, 'a) result \<Rightarrow> bool" where
  "is_ok r = (case r of Inl _ \<Rightarrow> False | Inr _ \<Rightarrow> True)"

lemma is_ok_simps [simp]: "is_ok (Inr x)" "\<not> is_ok (Inl e)"
  by (simp_all add: is_ok_def)

lemma is_ok_E: "is_ok r \<Longrightarrow> (\<And>x. r = Inr x \<Longrightarrow> P) \<Longrightarrow> P"
  by (cases r) auto

definition or_default :: "'a option \<Rightarrow> 'a \<Rightarrow> 'a" where
  "or_default x d = (case x of None \<Rightarrow> d | Some v \<Rightarrow> v)"

lemma or_default_simps [simp]: "or_default None d = d" "or_default (Some x) d = x"
  by (simp_all add: or_default_def)

section \<open>Sums over threads\<close>

text \<open>
  A shared state keeps the local state of every thread in a function. A step changes it at
  one thread; these lemmas move the change out of a sum over all threads.
\<close>

definition tsum :: "'p set \<Rightarrow> ('l \<Rightarrow> 'a::comm_monoid_add) \<Rightarrow> ('p \<Rightarrow> 'l) \<Rightarrow> 'a" where
  "tsum W f p = (\<Sum>w\<in>W. f (p w))"

lemma tsum_split: "finite W \<Longrightarrow> w \<in> W \<Longrightarrow> tsum W f p = f (p w) + tsum (W - {w}) f p"
  by (simp add: tsum_def sum.remove)

lemma tsum_upd [conc_simps]:
  assumes "finite W" "w \<in> W"
  shows "tsum W f (p(w := v)) = f v + tsum (W - {w}) f p"
proof -
  have "(\<Sum>x\<in>W - {w}. f ((p(w := v)) x)) = (\<Sum>x\<in>W - {w}. f (p x))"
    by (rule sum.cong) auto
  then show ?thesis using assms by (simp add: tsum_def sum.remove)
qed

lemma tsum_const0: "(\<And>w. w \<in> W \<Longrightarrow> f (p w) = 0) \<Longrightarrow> tsum W f p = 0"
  by (simp add: tsum_def)

lemma tsum_nat_0_D:
  fixes f :: "'l \<Rightarrow> nat"
  shows "finite W \<Longrightarrow> tsum W f p = 0 \<Longrightarrow> w \<in> W \<Longrightarrow> f (p w) = 0"
  by (simp add: tsum_def)

lemma fold_keeps:
  "P s \<Longrightarrow> (\<And>x s. x \<in> set xs \<Longrightarrow> P s \<Longrightarrow> P (f x s)) \<Longrightarrow> P (fold f xs s)"
  by (induction xs arbitrary: s) auto

text \<open>The last \<open>n\<close> elements, \<open>xs[-n:]\<close>.\<close>

definition last_n :: "nat \<Rightarrow> 'a list \<Rightarrow> 'a list" where
  "last_n n xs = drop (length xs - n) xs"

section \<open>Sorting and filtering\<close>

text \<open>
  \<open>list.sort(key=f)\<close> is stable, and so is \<open>sort_key f\<close>. With \<open>reverse=True\<close> Python keeps
  the order of equal elements, which is a stable sort of the reversed list, reversed.
\<close>

definition sort_key_desc :: "('a \<Rightarrow> 'b::linorder) \<Rightarrow> 'a list \<Rightarrow> 'a list" where
  "sort_key_desc f xs = rev (sort_key f (rev xs))"

lemma set_sort_key_desc [simp]: "set (sort_key_desc f xs) = set xs"
  by (simp add: sort_key_desc_def)

lemma mset_sort_key_desc [simp]: "mset (sort_key_desc f xs) = mset xs"
  by (simp add: sort_key_desc_def)

lemma mset_partition: "mset (filter P xs) + mset (filter (\<lambda>x. \<not> P x) xs) = mset xs"
  by (induction xs) simp_all

lemma length_sort_key_desc [simp]: "length (sort_key_desc f xs) = length xs"
  by (simp add: sort_key_desc_def)

lemma sorted_sort_key_desc: "sorted_wrt (\<lambda>x y. f y \<le> f x) (sort_key_desc f xs)"
proof -
  have "sorted_wrt (\<lambda>x y. f x \<le> f y) (sort_key f (rev xs))"
    using sorted_sort_key [of f "rev xs"] by (simp add: sorted_map)
  then show ?thesis by (simp add: sort_key_desc_def sorted_wrt_rev)
qed

lemma distinct_map_sort_key: "distinct (map g (sort_key f xs)) = distinct (map g xs)"
proof -
  have "mset (map g (sort_key f xs)) = mset (map g xs)" by simp
  then show ?thesis by (metis mset_eq_imp_distinct_iff)
qed

end
