(* ===== verification/PyFloat.thy ===== *)
theory PyFloat
  imports Prelude Complex_Main "HOL-Library.Log_Nat"
begin

text \<open>
  Python's float is an IEEE-754 binary64 number. A finite double is a rational, so the model
  keeps the exact rational value and rounds the exact result of every arithmetic operation
  with \<open>fl\<close>: round to nearest, ties to even, 53 significant bits, subnormals included. The
  infinities and the NaN are not values of the model: no operation modelled here gets near
  the largest double. \<open>py_round\<close> is the builtin \<open>round(x, n)\<close>, which rounds the exact binary
  value to \<open>n\<close> decimals, ties to even, and returns the nearest double.
\<close>

type_synonym pyfloat = rat

section \<open>Rounding to an integer\<close>

definition rhe :: "rat \<Rightarrow> int" where
  "rhe x = (let f = \<lfloor>x\<rfloor>; r = x - of_int f
     in if r < 1 / 2 then f else if 1 / 2 < r then f + 1 else if even f then f else f + 1)"

lemma rhe_of_int [simp]: "rhe (of_int n) = n"
  by (simp add: rhe_def Let_def)

lemma rhe_0 [simp]: "rhe 0 = 0"
  using rhe_of_int [of 0] by simp

lemma rhe_bounds: "\<lfloor>x\<rfloor> \<le> rhe x" "rhe x \<le> \<lfloor>x\<rfloor> + 1"
  by (auto simp: rhe_def Let_def)

lemma rhe_error: "\<bar>of_int (rhe x) - x\<bar> \<le> 1 / 2"
proof -
  have "of_int \<lfloor>x\<rfloor> \<le> x" and "x < of_int \<lfloor>x\<rfloor> + 1" by linarith+
  then show ?thesis by (simp add: rhe_def Let_def abs_if) linarith
qed

lemma rhe_mono: "x \<le> y \<Longrightarrow> rhe x \<le> rhe y"
proof (cases "\<lfloor>x\<rfloor> = \<lfloor>y\<rfloor>")
  case True
  assume "x \<le> y"
  with True show ?thesis by (auto simp: rhe_def Let_def)
next
  case False
  assume "x \<le> y"
  with False have "\<lfloor>x\<rfloor> + 1 \<le> \<lfloor>y\<rfloor>" using floor_mono [of x y] by linarith
  with rhe_bounds [of x] rhe_bounds [of y] show ?thesis by linarith
qed

lemma rhe_le_int: "x \<le> of_int n \<Longrightarrow> rhe x \<le> n"
  using rhe_mono [of x "of_int n"] by simp

lemma int_le_rhe: "of_int n \<le> x \<Longrightarrow> n \<le> rhe x"
  using rhe_mono [of "of_int n" x] by simp

section \<open>The binary exponent\<close>

lemma powi2_less_iff: "(2::rat) powi m < 2 powi n \<longleftrightarrow> m < n"
  using power_int_strict_increasing [of m n "2::rat"] power_int_increasing [of n m "2::rat"]
  by (cases "m < n") (auto simp: not_less)

lemma powi2_le_iff: "(2::rat) powi m \<le> 2 powi n \<longleftrightarrow> m \<le> n"
  using powi2_less_iff [of n m] by (simp add: not_less [symmetric])

definition flog2 :: "rat \<Rightarrow> int" where
  "flog2 x = (let (a, b) = quotient_of x; d = bitlen a - bitlen b
     in if 2 powi d \<le> x then d else d - 1)"

lemma bitlen_powi:
  assumes "0 < (a::int)"
  shows "2 powi (bitlen a - 1) \<le> (of_int a :: rat)" "(of_int a :: rat) < 2 powi bitlen a"
proof -
  have b: "0 < bitlen a"
    using assms by (metis bitlen_nonneg bitlen_eq_zero_iff less_le not_le)
  have le: "2 ^ nat (bitlen a - 1) \<le> a" and lt: "a < 2 ^ nat (bitlen a)"
    using bitlen_bounds [OF assms] by auto
  have "(of_int (2 ^ nat (bitlen a - 1)) :: rat) \<le> of_int a" using le by (simp only: of_int_le_iff)
  then show "2 powi (bitlen a - 1) \<le> (of_int a :: rat)"
    using b by (simp add: power_int_def)
  have "(of_int a :: rat) < of_int (2 ^ nat (bitlen a))" using lt by (simp only: of_int_less_iff)
  then show "(of_int a :: rat) < 2 powi bitlen a"
    using b by (simp add: power_int_def)
qed

lemma flog2_bounds:
  assumes "0 < x"
  shows "2 powi flog2 x \<le> x" "x < 2 powi (flog2 x + 1)"
proof -
  obtain a b where q: "quotient_of x = (a, b)" by fastforce
  have b: "0 < b" using q by (rule quotient_of_denom_pos)
  have x: "x = of_int a / of_int b" using q by (rule quotient_of_div)
  with assms b have a: "0 < a" by (simp add: zero_less_divide_iff)
  define d where "d = bitlen a - bitlen b"
  have "x * of_int b < 2 powi bitlen a"
    using x b bitlen_powi(2) [OF a] by simp
  moreover have "2 powi (d + 1) * 2 powi (bitlen b - 1) = (2::rat) powi bitlen a"
    by (simp add: d_def flip: power_int_add)
  moreover have "2 powi (d + 1) * 2 powi (bitlen b - 1) \<le> 2 powi (d + 1) * (of_int b :: rat)"
    using bitlen_powi(1) [OF b] by (intro mult_left_mono) auto
  ultimately have "x * of_int b < 2 powi (d + 1) * of_int b" by linarith
  then have hi: "x < 2 powi (d + 1)" using b by simp
  have "2 powi (bitlen a - 1) \<le> x * of_int b"
    using x b bitlen_powi(1) [OF a] by simp
  moreover have "2 powi (d - 1) * 2 powi bitlen b = (2::rat) powi (bitlen a - 1)"
    by (simp add: d_def flip: power_int_add)
  moreover have "2 powi (d - 1) * (of_int b :: rat) \<le> 2 powi (d - 1) * 2 powi bitlen b"
    using bitlen_powi(2) [OF b] by (intro mult_left_mono) auto
  ultimately have "2 powi (d - 1) * of_int b \<le> x * of_int b" by linarith
  then have lo: "2 powi (d - 1) \<le> x" using b by simp
  show "2 powi flog2 x \<le> x" "x < 2 powi (flog2 x + 1)"
    using hi lo by (auto simp: flog2_def q d_def [symmetric])
qed

lemma flog2_unique:
  assumes "2 powi e \<le> x" "x < 2 powi (e + 1)"
  shows "flog2 x = e"
proof -
  have "(0::rat) < 2 powi e" by simp
  with assms(1) have x: "0 < x" by linarith
  from flog2_bounds [OF x] assms have "(2::rat) powi flog2 x < 2 powi (e + 1)"
    and "(2::rat) powi e < 2 powi (flog2 x + 1)" by linarith+
  then have "flog2 x < e + 1" "e < flog2 x + 1" by (simp_all add: powi2_less_iff)
  then show ?thesis by simp
qed

lemma flog2_mono:
  assumes "0 < x" "x \<le> y"
  shows "flog2 x \<le> flog2 y"
proof -
  from flog2_bounds [OF assms(1)] flog2_bounds [of y] assms
  have "(2::rat) powi flog2 x < 2 powi (flog2 y + 1)" by linarith
  then have "flog2 x < flog2 y + 1" by (simp add: powi2_less_iff)
  then show ?thesis by simp
qed

section \<open>Rounding to a double\<close>

definition ulp_exp :: "rat \<Rightarrow> int" where
  "ulp_exp x = max (flog2 \<bar>x\<bar> - 52) (- 1074)"

definition fl :: "rat \<Rightarrow> pyfloat" where
  "fl x = (if x = 0 then 0
     else of_int (rhe (x / 2 powi ulp_exp x)) * 2 powi ulp_exp x)"

definition py_round :: "nat \<Rightarrow> pyfloat \<Rightarrow> pyfloat" where
  "py_round n x = fl (of_int (rhe (x * 10 ^ n)) / 10 ^ n)"

text \<open>The float operations of the source.\<close>

definition fadd :: "pyfloat \<Rightarrow> pyfloat \<Rightarrow> pyfloat" where "fadd x y = fl (x + y)"
definition fsub :: "pyfloat \<Rightarrow> pyfloat \<Rightarrow> pyfloat" where "fsub x y = fl (x - y)"
definition fmul :: "pyfloat \<Rightarrow> pyfloat \<Rightarrow> pyfloat" where "fmul x y = fl (x * y)"
definition fdiv :: "pyfloat \<Rightarrow> pyfloat \<Rightarrow> pyfloat" where "fdiv x y = fl (x / y)"

lemma fl_0 [simp]: "fl 0 = 0"
  by (simp add: fl_def)

lemma fl_nonneg: "0 \<le> x \<Longrightarrow> 0 \<le> fl x"
proof -
  assume "0 \<le> x"
  then have "0 \<le> rhe (x / 2 powi ulp_exp x)"
    using int_le_rhe [of 0 "x / 2 powi ulp_exp x"] by simp
  then show ?thesis by (simp add: fl_def)
qed

lemma fl_nonpos: "x \<le> 0 \<Longrightarrow> fl x \<le> 0"
proof -
  assume "x \<le> 0"
  then have "rhe (x / 2 powi ulp_exp x) \<le> 0"
    using rhe_le_int [of "x / 2 powi ulp_exp x" 0] by (simp add: divide_nonpos_pos)
  then show ?thesis by (simp add: fl_def mult_nonpos_nonneg)
qed

lemma fl_error: "\<bar>fl x - x\<bar> \<le> 2 powi (ulp_exp x - 1)"
proof (cases "x = 0")
  case False
  let ?u = "(2::rat) powi ulp_exp x"
  have u: "0 < ?u" by simp
  have "fl x - x = (of_int (rhe (x / ?u)) - x / ?u) * ?u"
    using False by (simp add: fl_def left_diff_distrib)
  then have "\<bar>fl x - x\<bar> = \<bar>of_int (rhe (x / ?u)) - x / ?u\<bar> * ?u"
    using u by (simp add: abs_mult)
  also have "\<dots> \<le> 1 / 2 * ?u" using rhe_error u by (intro mult_right_mono) auto
  also have "\<dots> = 2 powi (ulp_exp x - 1)" by (simp add: power_int_diff)
  finally show ?thesis .
qed simp

lemma fl_error_bound:
  assumes "\<bar>x\<bar> < 2 powi k" "-1021 \<le> k"
  shows "\<bar>fl x - x\<bar> \<le> 2 powi (k - 54)"
proof (cases "x = 0")
  case False
  then have "(2::rat) powi flog2 \<bar>x\<bar> < 2 powi k"
    using flog2_bounds(1) [of "\<bar>x\<bar>"] assms(1) by linarith
  then have "flog2 \<bar>x\<bar> < k" by (simp add: powi2_less_iff)
  with assms(2) have "ulp_exp x - 1 \<le> k - 54" by (simp add: ulp_exp_def)
  then have "(2::rat) powi (ulp_exp x - 1) \<le> 2 powi (k - 54)" by (simp add: powi2_le_iff)
  with fl_error [of x] show ?thesis by linarith
qed simp

section \<open>Doubles are fixed points, rounding is monotone\<close>

definition is_double :: "rat \<Rightarrow> bool" where
  "is_double x \<longleftrightarrow> (\<exists>m e. x = of_int m * 2 powi e \<and> \<bar>m\<bar> \<le> 2 ^ 53 \<and> -1074 \<le> e)"

lemma int_grid: "0 \<le> k \<Longrightarrow> of_int m * 2 powi k = (of_int (m * 2 ^ nat k) :: rat)"
  by (simp add: power_int_def)

lemma ulp_exp_grid:
  assumes x: "x = of_int m * 2 powi e" "x \<noteq> 0" and m: "\<bar>m\<bar> \<le> 2 ^ 53" and e: "-1074 \<le> e"
  shows "ulp_exp x \<le> e \<or> (\<bar>x\<bar> = 2 powi (e + 53) \<and> ulp_exp x = e + 1)"
proof -
  have ax: "\<bar>x\<bar> = of_int \<bar>m\<bar> * 2 powi e" using x by (simp add: abs_mult)
  have "(of_int \<bar>m\<bar> :: rat) \<le> of_int (2 ^ 53)" using m by (simp only: of_int_le_iff)
  then have "\<bar>x\<bar> \<le> of_int (2 ^ 53) * 2 powi e"
    unfolding ax by (intro mult_right_mono) auto
  then have le: "\<bar>x\<bar> \<le> 2 powi (e + 53)" by (simp add: power_int_add)
  show ?thesis
  proof (cases "\<bar>x\<bar> = 2 powi (e + 53)")
    case True
    then have "flog2 \<bar>x\<bar> = e + 53"
      by (intro flog2_unique) (auto simp: powi2_less_iff)
    with e True show ?thesis by (simp add: ulp_exp_def)
  next
    case False
    with le have "\<bar>x\<bar> < 2 powi (e + 53)" by simp
    moreover have "2 powi flog2 \<bar>x\<bar> \<le> \<bar>x\<bar>" using x(2) by (intro flog2_bounds) simp
    ultimately have "(2::rat) powi flog2 \<bar>x\<bar> < 2 powi (e + 53)" by linarith
    then have "flog2 \<bar>x\<bar> < e + 53" by (simp add: powi2_less_iff)
    with e show ?thesis by (simp add: ulp_exp_def)
  qed
qed

lemma fl_is_double_id:
  assumes "is_double x"
  shows "fl x = x"
proof (cases "x = 0")
  case False
  from assms obtain m e where
    x: "x = of_int m * 2 powi e" and m: "\<bar>m\<bar> \<le> 2 ^ 53" and e: "-1074 \<le> e"
    by (auto simp: is_double_def)
  let ?u = "ulp_exp x"
  have "\<exists>n. x / 2 powi ?u = of_int n"
  proof (cases "?u \<le> e")
    case True
    have "x / 2 powi ?u = of_int m * 2 powi (e - ?u)"
      by (simp add: x power_int_diff)
    also have "\<dots> = of_int (m * 2 ^ nat (e - ?u))"
      using True by (intro int_grid) simp
    finally show ?thesis by blast
  next
    case b: False
    with ulp_exp_grid [OF x False m e] have ax: "\<bar>x\<bar> = 2 powi (e + 53)" and u: "?u = e + 1"
      by auto
    from ax u have "\<bar>x\<bar> / 2 powi ?u = 2 powi 52" by (simp flip: power_int_diff)
    then have "\<bar>x\<bar> / 2 powi ?u = of_int (2 ^ 52)" by (simp add: power_int_def)
    then have "x / 2 powi ?u = of_int (2 ^ 52) \<or> x / 2 powi ?u = of_int (- (2 ^ 52))"
      by (cases "0 \<le> x") (auto simp: abs_if field_simps)
    then show ?thesis by blast
  qed
  then obtain n where n: "x / 2 powi ?u = of_int n" by blast
  then have "fl x = of_int n * 2 powi ?u" using False by (simp add: fl_def)
  also have "\<dots> = x" using n by (simp add: field_simps)
  finally show ?thesis .
qed simp

lemma is_double_of_int: "\<bar>n\<bar> \<le> 2 ^ 53 \<Longrightarrow> is_double (of_int n)"
  unfolding is_double_def by (intro exI [of _ n] exI [of _ 0]) simp

lemma fl_of_int [simp]: "\<bar>n\<bar> \<le> 2 ^ 53 \<Longrightarrow> fl (of_int n) = of_int n"
  by (rule fl_is_double_id [OF is_double_of_int])

lemma fl_numeral [simp]: "(numeral n :: int) \<le> 2 ^ 53 \<Longrightarrow> fl (numeral n) = numeral n"
  using fl_of_int [of "numeral n"] by simp

lemma fl_1 [simp]: "fl 1 = 1"
  using fl_of_int [of 1] by simp

lemma fl_le_powi:
  assumes "0 < x" "x \<le> 2 powi F" "ulp_exp x \<le> F"
  shows "fl x \<le> 2 powi F"
proof -
  let ?u = "ulp_exp x"
  have "x / 2 powi ?u \<le> 2 powi F / 2 powi ?u" using assms(2) by (intro divide_right_mono) auto
  also have "\<dots> = of_int (2 ^ nat (F - ?u))"
    using assms(3) int_grid [of "F - ?u" 1] by (simp flip: power_int_diff)
  finally have "rhe (x / 2 powi ?u) \<le> 2 ^ nat (F - ?u)" by (rule rhe_le_int)
  then have "of_int (rhe (x / 2 powi ?u)) \<le> (of_int (2 ^ nat (F - ?u)) :: rat)"
    by (simp only: of_int_le_iff)
  also have "(of_int (2 ^ nat (F - ?u)) :: rat) = 2 powi (F - ?u)"
    using assms(3) int_grid [of "F - ?u" 1] by simp
  finally have "of_int (rhe (x / 2 powi ?u)) * 2 powi ?u \<le> (2 powi (F - ?u)) * (2 powi ?u :: rat)"
    by (intro mult_right_mono) auto
  also have "\<dots> = 2 powi F" by (simp flip: power_int_add)
  finally show ?thesis using assms(1) by (simp add: fl_def)
qed

lemma powi_le_fl:
  assumes "2 powi F \<le> y" "ulp_exp y \<le> F"
  shows "2 powi F \<le> fl y"
proof -
  let ?u = "ulp_exp y"
  have "(0::rat) < 2 powi F" by simp
  with assms(1) have y: "0 < y" by linarith
  have "of_int (2 ^ nat (F - ?u)) = 2 powi F / (2 powi ?u :: rat)"
    using assms(2) int_grid [of "F - ?u" 1] by (simp flip: power_int_diff)
  also have "\<dots> \<le> y / 2 powi ?u" using assms(1) by (intro divide_right_mono) auto
  finally have "2 ^ nat (F - ?u) \<le> rhe (y / 2 powi ?u)" by (rule int_le_rhe)
  then have "(of_int (2 ^ nat (F - ?u)) :: rat) \<le> of_int (rhe (y / 2 powi ?u))"
    by (simp only: of_int_le_iff)
  moreover have "(of_int (2 ^ nat (F - ?u)) :: rat) = 2 powi (F - ?u)"
    using assms(2) int_grid [of "F - ?u" 1] by simp
  ultimately have "(2 powi (F - ?u) :: rat) \<le> of_int (rhe (y / 2 powi ?u))"
    by (simp only: )
  then have "(2 powi (F - ?u)) * (2 powi ?u :: rat) \<le> of_int (rhe (y / 2 powi ?u)) * 2 powi ?u"
    by (rule mult_right_mono) simp
  moreover have "(2 powi (F - ?u)) * (2 powi ?u :: rat) = 2 powi F" by (simp flip: power_int_add)
  ultimately show ?thesis using y by (simp add: fl_def)
qed

lemma fl_mono_pos:
  assumes "0 < x" "x \<le> y"
  shows "fl x \<le> fl y"
proof (cases "ulp_exp x = ulp_exp y")
  case True
  have "rhe (x / 2 powi ulp_exp y) \<le> rhe (y / 2 powi ulp_exp y)"
    using assms by (intro rhe_mono divide_right_mono) auto
  then have "of_int (rhe (x / 2 powi ulp_exp y)) \<le> (of_int (rhe (y / 2 powi ulp_exp y)) :: rat)"
    by (simp only: of_int_le_iff)
  with True assms show ?thesis by (simp add: fl_def mult_right_mono)
next
  case False
  let ?F = "flog2 y"
  have "flog2 x \<le> ?F" using assms by (rule flog2_mono)
  with False assms have xy: "flog2 x + 1 \<le> ?F" and uy: "ulp_exp y \<le> ?F" "ulp_exp x \<le> ?F"
    by (auto simp: ulp_exp_def max_def split: if_splits)
  have "x < 2 powi (flog2 x + 1)" using assms(1) by (rule flog2_bounds)
  also have "\<dots> \<le> 2 powi ?F" using xy by (simp add: powi2_le_iff)
  finally have "fl x \<le> 2 powi ?F" using assms(1) uy by (intro fl_le_powi) auto
  also have "\<dots> \<le> fl y" using assms uy flog2_bounds(1) [of y] by (intro powi_le_fl) auto
  finally show ?thesis .
qed

lemma rhe_minus [simp]: "rhe (- x) = - rhe x"
proof (cases "x = of_int \<lfloor>x\<rfloor>")
  case True
  then show ?thesis by (metis of_int_minus rhe_of_int)
next
  case False
  then have "\<lfloor>- x\<rfloor> = - \<lfloor>x\<rfloor> - 1" by linarith
  with False show ?thesis by (auto simp: rhe_def Let_def)
qed

lemma fl_minus [simp]: "fl (- x) = - fl x"
  by (simp add: fl_def ulp_exp_def)

lemma fl_mono: "x \<le> y \<Longrightarrow> fl x \<le> fl y"
proof -
  assume xy: "x \<le> y"
  consider "0 < x" | "x \<le> 0" "0 \<le> y" | "y < 0" by linarith
  then show ?thesis
  proof cases
    case 1 with xy show ?thesis by (intro fl_mono_pos)
  next
    case 2 with fl_nonpos [of x] fl_nonneg [of y] show ?thesis by linarith
  next
    case 3 with xy fl_mono_pos [of "- y" "- x"] show ?thesis by simp
  qed
qed

lemma fl_ge_double: "is_double d \<Longrightarrow> d \<le> x \<Longrightarrow> d \<le> fl x"
  using fl_mono [of d x] by (simp add: fl_is_double_id)

lemma fl_le_double: "is_double d \<Longrightarrow> x \<le> d \<Longrightarrow> fl x \<le> d"
  using fl_mono [of x d] by (simp add: fl_is_double_id)

lemma py_round_nonneg: "0 \<le> x \<Longrightarrow> 0 \<le> py_round n x"
proof -
  assume "0 \<le> x"
  then have "0 \<le> rhe (x * 10 ^ n)" using int_le_rhe [of 0 "x * 10 ^ n"] by simp
  then show ?thesis unfolding py_round_def by (intro fl_nonneg) simp
qed

lemma py_round_0 [simp]: "py_round n 0 = 0"
  by (simp add: py_round_def)

lemma py_round_of_int [simp]: "\<bar>k\<bar> \<le> 2 ^ 53 \<Longrightarrow> py_round n (of_int k) = of_int k"
proof -
  assume k: "\<bar>k\<bar> \<le> 2 ^ 53"
  have "(of_int k :: rat) * 10 ^ n = of_int (k * 10 ^ n)" by simp
  then have "rhe ((of_int k :: rat) * 10 ^ n) = k * 10 ^ n" by (metis rhe_of_int)
  with k show ?thesis by (simp add: py_round_def)
qed

text \<open>A rounded value is a double, so rounding it again changes nothing.\<close>

lemma is_double_fl: "is_double (fl x)"
proof (cases "x = 0")
  case True
  then show ?thesis using is_double_of_int [of 0] by simp
next
  case False
  let ?e = "ulp_exp x"
  have "\<bar>x\<bar> < 2 powi (flog2 \<bar>x\<bar> + 1)" using flog2_bounds(2) [of "\<bar>x\<bar>"] False by simp
  also have "\<dots> \<le> 2 powi (?e + 53)" by (simp only: powi2_le_iff) (simp add: ulp_exp_def)
  also have "\<dots> = 2 ^ 53 * 2 powi ?e" by (simp add: power_int_add)
  finally have "\<bar>x / 2 powi ?e\<bar> < 2 ^ 53" by (simp add: divide_less_eq)
  then have "x / 2 powi ?e \<le> of_int (2 ^ 53)" "of_int (- (2 ^ 53)) \<le> x / 2 powi ?e"
    by (simp_all only: abs_less_iff) (simp_all del: of_int_numeral)
  then have "rhe (x / 2 powi ?e) \<le> 2 ^ 53" "- (2 ^ 53) \<le> rhe (x / 2 powi ?e)"
    using rhe_le_int int_le_rhe by blast+
  moreover have "- 1074 \<le> ?e" by (simp add: ulp_exp_def)
  moreover have "fl x = of_int (rhe (x / 2 powi ?e)) * 2 powi ?e" using False by (simp add: fl_def)
  ultimately show ?thesis unfolding is_double_def by (intro exI [of _ "rhe (x / 2 powi ?e)"] exI [of _ ?e]) (simp add: abs_le_iff)
qed

lemma fl_idem [simp]: "fl (fl x) = fl x"
  by (rule fl_is_double_id [OF is_double_fl])

end
