(* ===== verification/PyStr.thy ===== *)
theory PyStr
  imports Prelude "HOL-Library.Sublist"
begin

text \<open>
  The string operations of Python that the code uses, on \<open>string\<close> where a character stands
  for the Unicode code point of the same number (so for Latin-1 text), and the test for a
  substring on any list, which also serves texts beyond Latin-1 given as lists of code points.
  Two of the 256 characters have an upper case outside Latin-1 (the micro sign and y with
  diaeresis); \<open>py_upper\<close> leaves them, everything else follows \<open>str\<close>.
\<close>

type_synonym ustr = "int list"

definition ustr_of :: "string \<Rightarrow> ustr" where
  "ustr_of s = map of_char s"

section \<open>Character classes\<close>

definition py_space :: "char \<Rightarrow> bool" where
  "py_space c = (let n = (of_char c :: nat) in
     (9 \<le> n \<and> n \<le> 13) \<or> (28 \<le> n \<and> n \<le> 32) \<or> n = 133 \<or> n = 160)"

text \<open>\<open>\d\<close> of the module \<open>re\<close>, and \<open>str.isdigit\<close>, which also takes the superscripts.\<close>

definition re_digit :: "char \<Rightarrow> bool" where
  "re_digit c = (let n = (of_char c :: nat) in 48 \<le> n \<and> n \<le> 57)"

definition digit_char :: "char \<Rightarrow> bool" where
  "digit_char c = (re_digit c \<or> (let n = (of_char c :: nat) in n = 178 \<or> n = 179 \<or> n = 185))"

definition re_upper :: "char \<Rightarrow> bool" where
  "re_upper c = (let n = (of_char c :: nat) in 65 \<le> n \<and> n \<le> 90)"

definition upper_char :: "char \<Rightarrow> string" where
  "upper_char c = (let n = (of_char c :: nat) in
     if (97 \<le> n \<and> n \<le> 122) \<or> (224 \<le> n \<and> n \<le> 246) \<or> (248 \<le> n \<and> n \<le> 254)
     then [char_of (n - 32)] else if n = 223 then ''SS'' else [c])"

definition lower_char :: "char \<Rightarrow> char" where
  "lower_char c = (let n = (of_char c :: nat) in
     if (65 \<le> n \<and> n \<le> 90) \<or> (192 \<le> n \<and> n \<le> 214) \<or> (216 \<le> n \<and> n \<le> 222)
     then char_of (n + 32) else c)"

section \<open>Methods of str\<close>

definition strip_by :: "('a \<Rightarrow> bool) \<Rightarrow> 'a list \<Rightarrow> 'a list" where
  "strip_by P s = rev (dropWhile P (rev (dropWhile P s)))"

definition py_strip :: "string \<Rightarrow> string" where
  "py_strip s = strip_by py_space s"

definition py_upper :: "string \<Rightarrow> string" where
  "py_upper s = concat (map upper_char s)"

definition py_lower :: "string \<Rightarrow> string" where
  "py_lower s = map lower_char s"

definition py_isdigit :: "string \<Rightarrow> bool" where
  "py_isdigit s = (s \<noteq> [] \<and> list_all digit_char s)"

definition startswith :: "'a list \<Rightarrow> 'a list \<Rightarrow> bool" where
  "startswith s p = (take (length p) s = p)"

definition endswith :: "'a list \<Rightarrow> 'a list \<Rightarrow> bool" where
  "endswith s p = startswith (rev s) (rev p)"

fun contains :: "'a list \<Rightarrow> 'a list \<Rightarrow> bool" where
  "contains p [] = (p = [])"
| "contains p (x # xs) = (startswith (x # xs) p \<or> contains p xs)"

definition py_zfill :: "nat \<Rightarrow> string \<Rightarrow> string" where
  "py_zfill w s = (if w \<le> length s then s
     else let pad = replicate (w - length s) (CHR ''0'') in
       (case s of [] \<Rightarrow> pad
        | c # cs \<Rightarrow> if c = CHR ''+'' \<or> c = CHR ''-'' then c # pad @ cs else pad @ s))"

text \<open>\<open>s.split(c)[0]\<close> and \<open>s.replace(c, d)\<close> for single characters.\<close>

definition before :: "'a \<Rightarrow> 'a list \<Rightarrow> 'a list" where
  "before c s = takeWhile (\<lambda>x. x \<noteq> c) s"

definition replace_char :: "char \<Rightarrow> char \<Rightarrow> string \<Rightarrow> string" where
  "replace_char c d s = map (\<lambda>x. if x = c then d else x) s"

lemmas str_defs [str_simps] = py_space_def re_digit_def digit_char_def re_upper_def
  upper_char_def lower_char_def py_strip_def py_upper_def py_lower_def py_isdigit_def
  startswith_def endswith_def py_zfill_def before_def replace_char_def

text \<open>
  On texts of code points: the white space of \<open>str.strip\<close> is the full set of Unicode, the
  lower case covers Latin-1 and leaves every other code point (right for text without letters
  of another script that has case, such as Chinese).
\<close>

definition u_space :: "int \<Rightarrow> bool" where
  "u_space n \<longleftrightarrow> (9 \<le> n \<and> n \<le> 13) \<or> (28 \<le> n \<and> n \<le> 32) \<or> n = 133 \<or> n = 160 \<or> n = 5760
     \<or> (8192 \<le> n \<and> n \<le> 8202) \<or> n = 8232 \<or> n = 8233 \<or> n = 8239 \<or> n = 8287 \<or> n = 12288"

definition u_strip :: "ustr \<Rightarrow> ustr" where
  "u_strip s = strip_by u_space s"

definition u_lower_char :: "int \<Rightarrow> int" where
  "u_lower_char n = (if (65 \<le> n \<and> n \<le> 90) \<or> (192 \<le> n \<and> n \<le> 214) \<or> (216 \<le> n \<and> n \<le> 222)
     then n + 32 else n)"

definition u_lower :: "ustr \<Rightarrow> ustr" where
  "u_lower s = map u_lower_char s"

text \<open>Decimal notation, \<open>str\<close> of an int.\<close>

definition digit_of :: "nat \<Rightarrow> char" where
  "digit_of d = char_of (48 + d)"

fun dec_nat :: "nat \<Rightarrow> string" where
  "dec_nat n = (if n < 10 then [digit_of n] else dec_nat (n div 10) @ [digit_of (n mod 10)])"

declare dec_nat.simps [simp del]

definition int_str :: "int \<Rightarrow> string" where
  "int_str i = (if i < 0 then CHR ''-'' # dec_nat (nat (- i)) else dec_nat (nat i))"

section \<open>Facts\<close>

lemma u_lower_char_idem [simp]: "u_lower_char (u_lower_char n) = u_lower_char n"
  by (auto simp: u_lower_char_def)

lemma u_lower_idem [simp]: "u_lower (u_lower s) = u_lower s"
  by (simp add: u_lower_def)

lemma u_space_lower [simp]: "u_space (u_lower_char n) = u_space n"
  by (auto simp: u_space_def u_lower_char_def)


lemma startswith_prefix: "startswith s p \<longleftrightarrow> prefix p s"
  by (auto simp: startswith_def prefix_def) (metis append_take_drop_id)

lemma endswith_suffix: "endswith s p \<longleftrightarrow> suffix p s"
  by (simp add: endswith_def startswith_prefix suffix_to_prefix)

lemma contains_sublist: "contains p s \<longleftrightarrow> sublist p s"
  by (induction p s rule: contains.induct)
     (auto simp: startswith_prefix sublist_Cons_right)

lemma set_dropWhile_subset: "set (dropWhile P xs) \<subseteq> set xs"
  by (metis set_append sup_ge2 takeWhile_dropWhile_id)

lemma set_strip_by: "set (strip_by P s) \<subseteq> set s"
proof -
  have "set (dropWhile P (rev (dropWhile P s))) \<subseteq> set (dropWhile P s)"
    using set_dropWhile_subset [of P "rev (dropWhile P s)"] by simp
  then show ?thesis using set_dropWhile_subset [of P s] by (auto simp: strip_by_def)
qed

lemma dropWhile_id: "xs = [] \<or> \<not> P (hd xs) \<Longrightarrow> dropWhile P xs = xs"
  by (cases xs) auto

lemma dropWhile_none: "list_all (\<lambda>c. \<not> P c) s \<Longrightarrow> dropWhile P s = s"
  by (cases s) auto

lemma strip_by_none: "list_all (\<lambda>c. \<not> P c) s \<Longrightarrow> strip_by P s = s"
  by (simp add: strip_by_def dropWhile_none)

lemma py_strip_id: "list_all (\<lambda>c. \<not> py_space c) s \<Longrightarrow> py_strip s = s"
  by (simp add: py_strip_def strip_by_none)

lemma strip_by_Nil [simp]: "strip_by P [] = []"
  by (simp add: strip_by_def)

lemma py_strip_Nil [simp]: "py_strip [] = []" "u_strip [] = []"
  by (simp_all add: py_strip_def u_strip_def)

lemma strip_by_ends:
  assumes "strip_by P s \<noteq> []"
  shows "\<not> P (hd (strip_by P s)) \<and> \<not> P (last (strip_by P s))"
proof -
  let ?a = "dropWhile P s" let ?b = "dropWhile P (rev ?a)"
  have b: "?b \<noteq> []" using assms by (simp add: strip_by_def)
  have l: "\<not> P (last (strip_by P s))"
    using hd_dropWhile [of P "rev ?a"] b unfolding strip_by_def
    by (metis dropWhile_eq_Nil_conv last_rev)
  have a: "?a \<noteq> []"
  proof
    assume e: "?a = []"
    have "?b = []" by (simp only: e rev.simps dropWhile.simps)
    with b show False by (rule notE)
  qed
  obtain us where us: "rev ?a = us @ ?b" by (metis takeWhile_dropWhile_id)
  then have "?a = rev ?b @ rev us" by (metis rev_append rev_rev_ident)
  with b have "hd (rev ?b) = hd ?a" by (metis hd_append rev_is_Nil_conv)
  moreover have "\<not> P (hd ?a)"
    using hd_dropWhile [of P s] a by (metis dropWhile_eq_Nil_conv)
  ultimately show ?thesis using l by (simp add: strip_by_def)
qed

lemma strip_by_fixed:
  assumes "s = [] \<or> \<not> P (hd s) \<and> \<not> P (last s)"
  shows "strip_by P s = s"
proof (cases "s = []")
  case False
  then have "dropWhile P s = s" "dropWhile P (rev s) = rev s"
    using assms by (auto intro!: dropWhile_id simp: hd_rev)
  then show ?thesis by (simp add: strip_by_def)
qed simp

lemma strip_by_idem: "strip_by P (strip_by P s) = strip_by P s"
  using strip_by_ends [of P s] by (intro strip_by_fixed) blast

lemma py_strip_idem: "py_strip (py_strip s) = py_strip s"
  by (simp add: py_strip_def strip_by_idem)

lemma strip_by_map:
  assumes "\<And>x. P (f x) = P x"
  shows "strip_by P (map f s) = map f (strip_by P s)"
  by (simp add: strip_by_def rev_map dropWhile_map comp_def assms)

lemma re_digit_not_space [simp]: "re_digit c \<Longrightarrow> \<not> py_space c"
  by (auto simp: re_digit_def py_space_def Let_def)

lemma re_digit_upper_char [simp]: "re_digit c \<Longrightarrow> upper_char c = [c]"
  by (auto simp: re_digit_def upper_char_def Let_def)

lemma re_upper_not_space [simp]: "re_upper c \<Longrightarrow> \<not> py_space c"
  by (auto simp: re_upper_def py_space_def Let_def)

lemma re_upper_upper_char [simp]: "re_upper c \<Longrightarrow> upper_char c = [c]"
  by (auto simp: re_upper_def upper_char_def Let_def)

lemma re_upper_not_digit: "re_upper c \<Longrightarrow> \<not> re_digit c"
  by (auto simp: re_upper_def re_digit_def Let_def)

lemma py_upper_id: "list_all (\<lambda>c. upper_char c = [c]) s \<Longrightarrow> py_upper s = s"
  by (induction s) (auto simp: py_upper_def)

lemma py_upper_append [simp]: "py_upper (s @ t) = py_upper s @ py_upper t"
  by (simp add: py_upper_def)

end
