(* ===== verification/Models.thy ===== *)
theory Models
  imports PyFloat PyStr
begin

text \<open>
  The data model of the pipeline: \<open>pipeline/models.py\<close> and the worker and dispatch settings
  of \<open>pipeline/config.py\<close>. A dataclass is a record with the source's fields in the source's
  order (prefixed, because record selectors are global). Codes are \<open>string\<close> (Latin-1 text), names are
  lists of Unicode code points (\<open>ustr\<close>). The Chinese
  strategy tags, which the code only stores and compares, are constructors of a data type.
\<close>

text \<open>
  The tags of a candidate: \<open>B1\<close>, \<open>B2\<close> strict, \<open>B2\<close> loose, the watch list and the high
  CZSC score.
\<close>

datatype tag = TagB1 | TagB2Strict | TagB2Loose | TagWatch | TagCzscHigh

text \<open>
  The keys of \<open>details\<close> are texts. The ones the code names: the total score of the extra
  conditions, close, change and amplitude, and the four CZSC entries.
\<close>

definition k_total_score :: ustr where
  "k_total_score = [26032, 22686, 26465, 20214, 24635, 20998]"
definition k_close :: ustr where "k_close = [25910, 30424, 20215]"
definition k_change_pct :: ustr where "k_change_pct = [28072, 24133]"
definition k_amplitude :: ustr where "k_amplitude = [25391, 24133]"
definition k_czsc_score :: ustr where "k_czsc_score = [32544, 35770, 35780, 20998]"
definition k_czsc_trend :: ustr where "k_czsc_trend = [32544, 35770, 36235, 21183]"
definition k_buy_signals :: ustr where "k_buy_signals = [20080, 20837, 20449, 21495]"
definition k_sell_signals :: ustr where "k_sell_signals = [21334, 20986, 20449, 21495]"

text \<open>A JSON value in \<open>details\<close>: null, a bool, an int, a float, a text or a list of texts.\<close>

datatype dval = VNone | VBool bool | VInt int | VFloat pyfloat | VStr ustr | VList "ustr list"

text \<open>The number a value is to the unary minus of Python (a bool is an int); the others raise.\<close>

fun dval_num :: "dval \<Rightarrow> rat option" where
  "dval_num (VBool b) = Some (if b then 1 else 0)"
| "dval_num (VInt i) = Some (of_int i)"
| "dval_num (VFloat x) = Some x"
| "dval_num _ = None"

record stock_filter_data =
  sf_code :: string
  sf_name :: ustr
  sf_exchange :: string
  sf_result :: bool
  sf_tags :: "tag list"
  sf_details :: "(ustr, dval) dict"

text \<open>The properties \<open>total_score\<close>, \<open>close\<close>, \<open>change_pct\<close> and \<open>amplitude\<close>.\<close>

definition total_score :: "stock_filter_data \<Rightarrow> dval" where
  "total_score s = dget_default (sf_details s) k_total_score (VInt 0)"

definition close_price :: "stock_filter_data \<Rightarrow> dval" where
  "close_price s = dget_default (sf_details s) k_close (VInt 0)"

definition change_pct :: "stock_filter_data \<Rightarrow> dval" where
  "change_pct s = dget_default (sf_details s) k_change_pct (VInt 0)"

definition amplitude :: "stock_filter_data \<Rightarrow> dval" where
  "amplitude s = dget_default (sf_details s) k_amplitude (VInt 0)"

record filter_results =
  fr_date :: int
  fr_total_scanned :: nat
  fr_stocks :: "stock_filter_data list"

definition total_passed :: "filter_results \<Rightarrow> nat" where
  "total_passed r = length (fr_stocks r)"

text \<open>
  Error messages. A literal without interpolation, or a text received from outside, is
  \<open>EText\<close>; every f-string of the code is a constructor applied to the interpolated values.
\<close>

datatype err_text = EText ustr | ESubmitPoll string | EWorkerDead err_text
  | EWorkerException string | EAnalysisTimeout int | EServiceUnavailable nat
  | EFetchHttp int | EParse string | EReport string

text \<open>The status strings of an analysis result and of a side outcome.\<close>

datatype ar_status_t = ArCompleted | ArFailed | ArTimeout | ArPending

datatype wo_status_t = WoCompleted | WoFailed | WoTimeout | WoDeadSkipped

record stock_analysis_result =
  ar_code :: string
  ar_status :: ar_status_t
  ar_recommendation :: ustr
  ar_confidence_score :: pyfloat
  ar_risk_score :: pyfloat
  ar_risk_level :: ustr
  ar_target_price :: pyfloat
  ar_summary :: ustr
  ar_analyst_reports :: "(ustr, ustr) dict"
  ar_execution_time :: pyfloat
  ar_error_message :: "err_text option"
  ar_czsc_signals :: "(ustr, dval) dict option"

text \<open>The defaults of the dataclass, for a given code.\<close>

definition new_analysis_result :: "string \<Rightarrow> stock_analysis_result" where
  "new_analysis_result c = \<lparr>ar_code = c, ar_status = ArPending, ar_recommendation = [],
     ar_confidence_score = 0, ar_risk_score = 0, ar_risk_level = [], ar_target_price = 0,
     ar_summary = [], ar_analyst_reports = [], ar_execution_time = 0,
     ar_error_message = None, ar_czsc_signals = None\<rparr>"

record worker_outcome =
  wo_code :: string
  wo_worker_name :: string
  wo_status :: wo_status_t
  wo_recommendation :: ustr
  wo_confidence_score :: pyfloat
  wo_risk_score :: pyfloat
  wo_summary :: ustr
  wo_error_message :: err_text
  wo_execution_time :: pyfloat
  wo_attempt :: nat

text \<open>The calls of the constructor give five fields and leave the others at their defaults.\<close>

definition new_outcome :: "string \<Rightarrow> string \<Rightarrow> wo_status_t \<Rightarrow> err_text \<Rightarrow> nat \<Rightarrow> worker_outcome" where
  "new_outcome c w st e a = \<lparr>wo_code = c, wo_worker_name = w, wo_status = st,
     wo_recommendation = [], wo_confidence_score = 0, wo_risk_score = 0, wo_summary = [],
     wo_error_message = e, wo_execution_time = 0, wo_attempt = a\<rparr>"

lemma new_outcome_simps [simp]:
  "wo_code (new_outcome c w st e a) = c" "wo_worker_name (new_outcome c w st e a) = w"
  "wo_status (new_outcome c w st e a) = st" "wo_error_message (new_outcome c w st e a) = e"
  "wo_attempt (new_outcome c w st e a) = a"
  by (simp_all add: new_outcome_def)

record pipeline_result =
  pr_date :: int
  pr_total_scanned :: nat
  pr_total_filtered :: nat
  pr_analysis_completed :: nat
  pr_analysis_failed :: nat
  pr_report_path :: string
  pr_success :: bool
  pr_error_message :: "err_text option"
  pr_primary_by :: "(string, string) dict"
  pr_extras :: "worker_outcome list"
  pr_dead_workers :: "string list"

record worker_spec =
  ws_name :: string
  ws_model_name :: string
  ws_timeout :: int

record dispatch_config =
  dc_max_retry :: nat
  dc_failure_threshold :: nat

definition default_dispatch :: dispatch_config where
  "default_dispatch = \<lparr>dc_max_retry = 1, dc_failure_threshold = 3\<rparr>"

definition default_worker_timeout :: int where
  "default_worker_timeout = 10800"

section \<open>Joining a second list of stocks\<close>

text \<open>
  The watch list and the CZSC channel join the filtered stocks in the same way: an entry whose
  code was among the filtered ones marks that stock, and another entry is appended. What the
  clients rely on is the effect on the codes.
\<close>

locale code_merge =
  fixes one :: "string set \<Rightarrow> 'a \<Rightarrow> stock_filter_data list \<Rightarrow> stock_filter_data list"
    and code :: "'a \<Rightarrow> string"
  assumes one_codes: "map sf_code (one ex x xs) = map sf_code xs @ (if code x \<in> ex then [] else [code x])"
begin

lemma codes: "map sf_code (fold (one ex) hs xs) = map sf_code xs @ filter (\<lambda>c. c \<notin> ex) (map code hs)"
  by (induction hs arbitrary: xs) (simp_all add: one_codes)

lemma codes_set:
  "sf_code ` set (fold (one (sf_code ` set xs)) hs xs) = sf_code ` set xs \<union> code ` set hs"
  by (subst set_map [symmetric], subst codes) auto

lemma codes_distinct:
  "distinct (map sf_code xs) \<Longrightarrow> distinct (map code hs)
   \<Longrightarrow> distinct (map sf_code (fold (one (set (map sf_code xs))) hs xs))"
  by (subst codes) auto

end

end
