(* ===== verification/Dispatch.thy ===== *)
theory Dispatch
  imports Models
begin

text \<open>
  The consumer-model dispatcher of \<open>pipeline/stock_dispatch.py\<close>: one FIFO queue of stocks, one
  thread per model worker, and the main thread that waits for the queue, drains it when every
  worker is dead, and stops the workers. A step of the model is one access to the shared state
  (a queue operation, a critical section under \<open>_lock\<close>, a callback), so every interleaving of
  the threads is a run of \<open>dispatch_step\<close>. The executor and the callback \<open>on_result\<close> are the
  environment: each may answer anything or raise. The callback \<open>on_extra\<close> appends to a list.
\<close>

section \<open>State\<close>

text \<open>What the submit and poll calls of one attempt gave: an exception or a result.\<close>

datatype exec_outcome = ExecRaised string | ExecResult stock_analysis_result

text \<open>
  Where a worker thread is: about to log in, at the loop test, at \<open>get\<close>, holding a stock, in
  the executor, in the delivery of a result, about to enter \<open>_on_failure\<close>, after its critical
  section (with \<open>dead_now\<close>), at \<open>task_done\<close> before the next round or before it returns, or
  returned.
\<close>

datatype wpc = WLogin | WLoop | WGet
  | WHold stock_filter_data nat
  | WRun stock_filter_data nat
  | WDeliver stock_filter_data nat stock_analysis_result
  | WFail stock_filter_data nat err_text
  | WTail stock_filter_data nat err_text bool
  | WFin | WFinExit | WExited

datatype mpc = MLoop | MDrain | MStop | MDone

record dispatch =
  dp_workers :: "worker_spec list"
  dp_cfg :: dispatch_config
  dp_deadline :: "int option"

text \<open>
  The fields of \<open>StockDispatchQueue\<close>, the queue's own counter, the threads' positions, the
  calls received by the two callbacks, and two history variables: the number of attempts
  started, and whether the main thread left its loop to drain the queue.
\<close>

record dstate =
  d_queue :: "(stock_filter_data \<times> nat) list"
  d_unfinished :: nat
  d_streak :: "string \<Rightarrow> nat"
  d_dead :: "string set"
  d_stop :: bool
  d_primary_by :: "(string, string) dict"
  d_results :: "(stock_filter_data \<times> stock_analysis_result \<times> string \<times> nat) list"
  d_extras :: "worker_outcome list"
  d_pcs :: "string \<Rightarrow> wpc"
  d_main :: mpc
  d_calls :: nat
  d_drained :: bool

section \<open>Operations\<close>

text \<open>\<open>_workers\<close> is a dict keyed by name, so workers of the same name collapse.\<close>

definition worker_names :: "dispatch \<Rightarrow> string set" where
  "worker_names p = set (map ws_name (dp_workers p))"

definition init_dispatch :: "dispatch \<Rightarrow> dstate" where
  "init_dispatch p = \<lparr>d_queue = [], d_unfinished = 0, d_streak = (\<lambda>_. 0), d_dead = {},
     d_stop = False, d_primary_by = [], d_results = [], d_extras = [],
     d_pcs = (\<lambda>_. WLogin), d_main = MLoop, d_calls = 0, d_drained = False\<rparr>"

text \<open>\<open>queue.Queue.put\<close> and \<open>task_done\<close>, with the counter \<open>unfinished_tasks\<close>.\<close>

definition q_put :: "stock_filter_data \<times> nat \<Rightarrow> dstate \<Rightarrow> dstate" where
  "q_put x s = s\<lparr>d_queue := d_queue s @ [x], d_unfinished := d_unfinished s + 1\<rparr>"

definition q_task_done :: "dstate \<Rightarrow> dstate" where
  "q_task_done s = s\<lparr>d_unfinished := d_unfinished s - 1\<rparr>"

fun submit_all :: "stock_filter_data list \<Rightarrow> dstate \<Rightarrow> dstate" where
  "submit_all [] s = s"
| "submit_all (x # xs) s = submit_all xs (q_put (x, 0) s)"

definition on_extra :: "worker_outcome \<Rightarrow> dstate \<Rightarrow> dstate" where
  "on_extra o1 s = s\<lparr>d_extras := d_extras s @ [o1]\<rparr>"

definition kill_worker :: "string \<Rightarrow> dstate \<Rightarrow> dstate" where
  "kill_worker w s = s\<lparr>d_dead := insert w (d_dead s)\<rparr>"

definition all_dead :: "dispatch \<Rightarrow> dstate \<Rightarrow> bool" where
  "all_dead p s \<longleftrightarrow> card (d_dead s) = card (worker_names p)"

text \<open>\<open>_process\<close>: the attempt succeeds when it returned a completed result.\<close>

definition process_ok :: "exec_outcome \<Rightarrow> bool" where
  "process_ok r = (case r of ExecRaised _ \<Rightarrow> False | ExecResult x \<Rightarrow> ar_status x = ArCompleted)"

definition process_error :: "exec_outcome \<Rightarrow> err_text" where
  "process_error r = (case r of
       ExecRaised e \<Rightarrow> ESubmitPoll e
     | ExecResult x \<Rightarrow> (case ar_error_message x of
           None \<Rightarrow> EText (ustr_of ''unknown'')
         | Some e \<Rightarrow> if e = EText [] then EText (ustr_of ''unknown'') else e))"

text \<open>The critical sections of \<open>_on_success\<close> and of \<open>_on_failure\<close>.\<close>

definition on_success_lock :: "string \<Rightarrow> stock_filter_data \<Rightarrow> dstate \<Rightarrow> dstate" where
  "on_success_lock w x s = s\<lparr>d_streak := (d_streak s)(w := 0),
     d_primary_by := dset (sf_code x) w (d_primary_by s)\<rparr>"

definition dead_now :: "dispatch \<Rightarrow> string \<Rightarrow> dstate \<Rightarrow> bool" where
  "dead_now p w s \<longleftrightarrow>
     dc_failure_threshold (dp_cfg p) \<le> d_streak s w + 1 \<and> w \<notin> d_dead s"

definition on_failure_lock :: "dispatch \<Rightarrow> string \<Rightarrow> dstate \<Rightarrow> dstate" where
  "on_failure_lock p w s = s\<lparr>d_streak := (d_streak s)(w := d_streak s w + 1),
     d_dead := (if dead_now p w s then insert w (d_dead s) else d_dead s)\<rparr>"

text \<open>What \<open>_on_failure\<close> does after its critical section.\<close>

definition on_failure_tail ::
  "dispatch \<Rightarrow> string \<Rightarrow> stock_filter_data \<Rightarrow> nat \<Rightarrow> err_text \<Rightarrow> bool \<Rightarrow> dstate \<Rightarrow> dstate" where
  "on_failure_tail p w x a err dn s =
     (if dn then on_extra (new_outcome (sf_code x) w WoDeadSkipped (EWorkerDead err) a) s
      else if dc_max_retry (dp_cfg p) \<le> a then
        on_extra (new_outcome (sf_code x) w WoFailed err a) s
      else q_put (x, a + 1) s)"

definition on_failure ::
  "dispatch \<Rightarrow> string \<Rightarrow> stock_filter_data \<Rightarrow> nat \<Rightarrow> err_text \<Rightarrow> dstate \<Rightarrow> dstate" where
  "on_failure p w x a err s =
     on_failure_tail p w x a err (dead_now p w s) (on_failure_lock p w s)"

abbreviation goto :: "string \<Rightarrow> wpc \<Rightarrow> dstate \<Rightarrow> dstate" where
  "goto w c s \<equiv> s\<lparr>d_pcs := (d_pcs s)(w := c)\<rparr>"

section \<open>Steps\<close>

text \<open>One step of the thread \<open>_worker_loop\<close> of worker \<open>w\<close>.\<close>

inductive worker_step :: "dispatch \<Rightarrow> string \<Rightarrow> dstate \<Rightarrow> dstate \<Rightarrow> bool"
  for p :: dispatch and w :: string where
  login_failed: "d_pcs s w = WLogin \<Longrightarrow> worker_step p w s (goto w WExited (kill_worker w s))"
| login_ok: "d_pcs s w = WLogin \<Longrightarrow> worker_step p w s (goto w WLoop s)"
| stopped: "d_pcs s w = WLoop \<Longrightarrow> d_stop s \<Longrightarrow> worker_step p w s (goto w WExited s)"
| next_round: "d_pcs s w = WLoop \<Longrightarrow> \<not> d_stop s \<Longrightarrow> worker_step p w s (goto w WGet s)"
| get_empty: "d_pcs s w = WGet \<Longrightarrow> d_queue s = [] \<Longrightarrow> worker_step p w s (goto w WLoop s)"
| get_item: "d_pcs s w = WGet \<Longrightarrow> d_queue s = (x, a) # q \<Longrightarrow>
     worker_step p w s (goto w (WHold x a) (s\<lparr>d_queue := q\<rparr>))"
| put_back: "d_pcs s w = WHold x a \<Longrightarrow> w \<in> d_dead s \<Longrightarrow>
     worker_step p w s (goto w WFinExit (q_put (x, a) s))"
| past_deadline: "d_pcs s w = WHold x a \<Longrightarrow> w \<notin> d_dead s \<Longrightarrow>
     dp_deadline p = Some dl \<Longrightarrow> dl \<le> now \<Longrightarrow>
     worker_step p w s (goto w WFin (on_extra (new_outcome (sf_code x) w WoTimeout (EText (ustr_of ''deadline passed'')) a) s))"
| start_attempt: "d_pcs s w = WHold x a \<Longrightarrow> w \<notin> d_dead s \<Longrightarrow>
     (case dp_deadline p of None \<Rightarrow> True | Some dl \<Rightarrow> now < dl) \<Longrightarrow>
     worker_step p w s (goto w (WRun x a) (s\<lparr>d_calls := d_calls s + 1\<rparr>))"
| attempt_ok: "d_pcs s w = WRun x a \<Longrightarrow> process_ok (ExecResult r) \<Longrightarrow>
     worker_step p w s (goto w (WDeliver x a r) (on_success_lock w x s))"
| attempt_failed: "d_pcs s w = WRun x a \<Longrightarrow> \<not> process_ok out \<Longrightarrow>
     worker_step p w s (goto w (WFail x a (process_error out)) s)"
| deliver_ok: "d_pcs s w = WDeliver x a r \<Longrightarrow>
     worker_step p w s (goto w WFin (s\<lparr>d_results := d_results s @ [(x, r, w, a)]\<rparr>))"
| deliver_raised: "d_pcs s w = WDeliver x a r \<Longrightarrow>
     worker_step p w s (goto w (WFail x a (EWorkerException e)) s)"
| failure_lock: "d_pcs s w = WFail x a err \<Longrightarrow>
     worker_step p w s (goto w (WTail x a err (dead_now p w s)) (on_failure_lock p w s))"
| failure_tail: "d_pcs s w = WTail x a err dn \<Longrightarrow>
     worker_step p w s (goto w WFin (on_failure_tail p w x a err dn s))"
| finish: "d_pcs s w = WFin \<Longrightarrow> worker_step p w s (goto w WLoop (q_task_done s))"
| finish_exit: "d_pcs s w = WFinExit \<Longrightarrow> worker_step p w s (goto w WExited (q_task_done s))"

text \<open>
  One step of \<open>run\<close> after the threads are started: the waiting loop, \<open>_drain_remaining\<close>, and
  the stop. The joins have a timeout, so the main thread does not wait for the workers.
\<close>

inductive main_step :: "dispatch \<Rightarrow> dstate \<Rightarrow> dstate \<Rightarrow> bool" for p :: dispatch where
  wait_over: "d_main s = MLoop \<Longrightarrow> d_unfinished s = 0 \<Longrightarrow> main_step p s (s\<lparr>d_main := MStop\<rparr>)"
| wait_more: "d_main s = MLoop \<Longrightarrow> 0 < d_unfinished s \<Longrightarrow> \<not> all_dead p s \<Longrightarrow> main_step p s s"
| start_drain: "d_main s = MLoop \<Longrightarrow> 0 < d_unfinished s \<Longrightarrow> all_dead p s \<Longrightarrow>
     main_step p s (s\<lparr>d_main := MDrain, d_drained := True\<rparr>)"
| drain_one: "d_main s = MDrain \<Longrightarrow> d_queue s = (x, a) # q \<Longrightarrow>
     main_step p s (q_task_done (on_extra (new_outcome (sf_code x) ''<all_dead>'' WoDeadSkipped (EText (ustr_of ''all workers dead'')) a)
       (s\<lparr>d_queue := q\<rparr>)))"
| drain_end: "d_main s = MDrain \<Longrightarrow> d_queue s = [] \<Longrightarrow> main_step p s (s\<lparr>d_main := MStop\<rparr>)"
| stop_all: "d_main s = MStop \<Longrightarrow> main_step p s (s\<lparr>d_main := MDone, d_stop := True\<rparr>)"

inductive dispatch_step :: "dispatch \<Rightarrow> dstate \<Rightarrow> dstate \<Rightarrow> bool" for p :: dispatch where
  worker: "w \<in> worker_names p \<Longrightarrow> worker_step p w s t \<Longrightarrow> dispatch_step p s t"
| main: "main_step p s t \<Longrightarrow> dispatch_step p s t"

inductive dispatch_reachable :: "dispatch \<Rightarrow> stock_filter_data list \<Rightarrow> dstate \<Rightarrow> bool"
  for p :: dispatch and stocks :: "stock_filter_data list" where
  start: "dispatch_reachable p stocks (submit_all stocks (init_dispatch p))"
| step: "dispatch_reachable p stocks s \<Longrightarrow> dispatch_step p s t \<Longrightarrow>
     dispatch_reachable p stocks t"

section \<open>An executable scheduler\<close>

text \<open>
  The same machine as a function: an event names the thread that moves and, where the step
  asks the environment, its answer. \<open>None\<close> means that the event does not fit the state.
\<close>

datatype wevent = EvTick | EvLogin bool | EvTime int | EvOutcome exec_outcome
  | EvCallback "string option"

datatype devent = EvWorker string wevent | EvMain

definition worker_exec :: "dispatch \<Rightarrow> string \<Rightarrow> wevent \<Rightarrow> dstate \<Rightarrow> dstate option" where
  "worker_exec p w e s = (case d_pcs s w of
       WLogin \<Rightarrow> (case e of
           EvLogin ok \<Rightarrow>
             Some (if ok then goto w WLoop s else goto w WExited (kill_worker w s))
         | _ \<Rightarrow> None)
     | WLoop \<Rightarrow> Some (goto w (if d_stop s then WExited else WGet) s)
     | WGet \<Rightarrow> (case d_queue s of
           [] \<Rightarrow> Some (goto w WLoop s)
         | t # q \<Rightarrow> Some (goto w (WHold (fst t) (snd t)) (s\<lparr>d_queue := q\<rparr>)))
     | WHold x a \<Rightarrow>
         if w \<in> d_dead s then Some (goto w WFinExit (q_put (x, a) s))
         else (case e of
           EvTime now \<Rightarrow>
             if (case dp_deadline p of None \<Rightarrow> True | Some dl \<Rightarrow> now < dl)
             then Some (goto w (WRun x a) (s\<lparr>d_calls := d_calls s + 1\<rparr>))
             else Some (goto w WFin (on_extra (new_outcome (sf_code x) w WoTimeout (EText (ustr_of ''deadline passed'')) a) s))
         | _ \<Rightarrow> None)
     | WRun x a \<Rightarrow> (case e of
           EvOutcome out \<Rightarrow> (case out of
               ExecResult r \<Rightarrow>
                 if process_ok out then Some (goto w (WDeliver x a r) (on_success_lock w x s))
                 else Some (goto w (WFail x a (process_error out)) s)
             | ExecRaised m \<Rightarrow> Some (goto w (WFail x a (process_error out)) s))
         | _ \<Rightarrow> None)
     | WDeliver x a r \<Rightarrow> (case e of
           EvCallback None \<Rightarrow>
             Some (goto w WFin (s\<lparr>d_results := d_results s @ [(x, r, w, a)]\<rparr>))
         | EvCallback (Some m) \<Rightarrow> Some (goto w (WFail x a (EWorkerException m)) s)
         | _ \<Rightarrow> None)
     | WFail x a err \<Rightarrow> Some (goto w (WTail x a err (dead_now p w s)) (on_failure_lock p w s))
     | WTail x a err dn \<Rightarrow> Some (goto w WFin (on_failure_tail p w x a err dn s))
     | WFin \<Rightarrow> Some (goto w WLoop (q_task_done s))
     | WFinExit \<Rightarrow> Some (goto w WExited (q_task_done s))
     | WExited \<Rightarrow> None)"

definition main_exec :: "dispatch \<Rightarrow> dstate \<Rightarrow> dstate option" where
  "main_exec p s = (case d_main s of
       MLoop \<Rightarrow>
         if d_unfinished s = 0 then Some (s\<lparr>d_main := MStop\<rparr>)
         else if all_dead p s then Some (s\<lparr>d_main := MDrain, d_drained := True\<rparr>)
         else Some s
     | MDrain \<Rightarrow> (case d_queue s of
           [] \<Rightarrow> Some (s\<lparr>d_main := MStop\<rparr>)
         | t # q \<Rightarrow> Some (q_task_done (on_extra (new_outcome (sf_code (fst t)) ''<all_dead>'' WoDeadSkipped (EText (ustr_of ''all workers dead'')) (snd t))
             (s\<lparr>d_queue := q\<rparr>))))
     | MStop \<Rightarrow> Some (s\<lparr>d_main := MDone, d_stop := True\<rparr>)
     | MDone \<Rightarrow> None)"

fun dispatch_exec :: "dispatch \<Rightarrow> devent \<Rightarrow> dstate \<Rightarrow> dstate option" where
  "dispatch_exec p (EvWorker w e) s =
     (if w \<in> worker_names p then worker_exec p w e s else None)"
| "dispatch_exec p EvMain s = main_exec p s"

fun dispatch_run :: "dispatch \<Rightarrow> devent list \<Rightarrow> dstate \<Rightarrow> dstate option" where
  "dispatch_run p [] s = Some s"
| "dispatch_run p (e # es) s = (case dispatch_exec p e s of
       None \<Rightarrow> None | Some t \<Rightarrow> dispatch_run p es t)"

end
