(* ===== verification/DispatchProofs.thy ===== *)
theory DispatchProofs
  imports Dispatch
begin

text \<open>
  The invariants of the dispatcher: no stock is lost or duplicated between the queue, the
  workers and the two callbacks; the queue's counter is what \<open>Queue\<close> computes; attempts are
  bounded; a worker is in the dead set exactly when its failures say so. Each is proved for
  one step of a worker and one step of the main thread, then for every reachable state.
\<close>

section \<open>What a thread holds\<close>

text \<open>The stock a worker is responsible for, its share of \<open>unfinished_tasks\<close>, its attempts left.\<close>

fun held :: "wpc \<Rightarrow> string multiset" where
  "held (WHold x a) = {#sf_code x#}"
| "held (WRun x a) = {#sf_code x#}"
| "held (WDeliver x a r) = {#sf_code x#}"
| "held (WFail x a e) = {#sf_code x#}"
| "held (WTail x a e d) = {#sf_code x#}"
| "held _ = {#}"

fun busy :: "wpc \<Rightarrow> nat" where
  "busy WLogin = 0"
| "busy WLoop = 0"
| "busy WGet = 0"
| "busy WExited = 0"
| "busy _ = 1"

lemma held_idle: "busy c = 0 \<Longrightarrow> held c = {#}"
  by (cases c) auto

fun budget :: "nat \<Rightarrow> wpc \<Rightarrow> nat" where
  "budget m (WHold x a) = m + 1 - a"
| "budget m (WRun x a) = m - a"
| "budget m (WDeliver x a r) = m - a"
| "budget m (WFail x a e) = m - a"
| "budget m (WTail x a e d) = m - a"
| "budget m _ = 0"

fun attempt_of :: "wpc \<Rightarrow> nat" where
  "attempt_of (WHold x a) = a"
| "attempt_of (WRun x a) = a"
| "attempt_of (WDeliver x a r) = a"
| "attempt_of (WFail x a e) = a"
| "attempt_of (WTail x a e d) = a"
| "attempt_of _ = 0"

fun doomed :: "wpc \<Rightarrow> bool" where
  "doomed (WTail x a e d) = d"
| "doomed _ = False"

abbreviation queue_codes :: "dstate \<Rightarrow> string multiset" where
  "queue_codes s \<equiv> mset (map (\<lambda>t. sf_code (fst t)) (d_queue s))"

abbreviation result_codes :: "dstate \<Rightarrow> string multiset" where
  "result_codes s \<equiv> mset (map (\<lambda>t. sf_code (fst t)) (d_results s))"

abbreviation extra_codes :: "dstate \<Rightarrow> string multiset" where
  "extra_codes s \<equiv> mset (map wo_code (d_extras s))"

definition in_hand :: "dispatch \<Rightarrow> dstate \<Rightarrow> string multiset" where
  "in_hand p s = tsum (worker_names p) held (d_pcs s)"

section \<open>The invariants\<close>

definition conserved :: "dispatch \<Rightarrow> string multiset \<Rightarrow> dstate \<Rightarrow> bool" where
  "conserved p M s \<longleftrightarrow>
     M = queue_codes s + in_hand p s + result_codes s + extra_codes s"

definition counted :: "dispatch \<Rightarrow> dstate \<Rightarrow> bool" where
  "counted p s \<longleftrightarrow> d_unfinished s = length (d_queue s) + tsum (worker_names p) busy (d_pcs s)"

definition attempts_ok :: "dispatch \<Rightarrow> dstate \<Rightarrow> bool" where
  "attempts_ok p s \<longleftrightarrow> (\<forall>(x, a) \<in> set (d_queue s). a \<le> dc_max_retry (dp_cfg p))
     \<and> (\<forall>w \<in> worker_names p. attempt_of (d_pcs s w) \<le> dc_max_retry (dp_cfg p))"

definition work_bounded :: "dispatch \<Rightarrow> nat \<Rightarrow> dstate \<Rightarrow> bool" where
  "work_bounded p n s \<longleftrightarrow>
     d_calls s + (\<Sum>(x, a)\<leftarrow>d_queue s. dc_max_retry (dp_cfg p) + 1 - a)
       + tsum (worker_names p) (budget (dc_max_retry (dp_cfg p))) (d_pcs s)
     \<le> n * (dc_max_retry (dp_cfg p) + 1)"

definition dead_ok :: "dispatch \<Rightarrow> dstate \<Rightarrow> bool" where
  "dead_ok p s \<longleftrightarrow> d_dead s \<subseteq> worker_names p
     \<and> (\<forall>w \<in> worker_names p. w \<notin> d_dead s \<longrightarrow>
          d_streak s w < max 1 (dc_failure_threshold (dp_cfg p)))
     \<and> (\<forall>w \<in> worker_names p. doomed (d_pcs s w) \<longrightarrow> w \<in> d_dead s)"

definition stop_ok :: "dstate \<Rightarrow> bool" where
  "stop_ok s \<longleftrightarrow> (d_main s = MDrain \<longrightarrow> d_drained s)
     \<and> (\<not> d_drained s \<and> d_main s \<in> {MStop, MDone} \<longrightarrow> d_unfinished s = 0)
     \<and> (d_stop s \<longrightarrow> d_main s = MDone)"

definition dispatch_inv :: "dispatch \<Rightarrow> stock_filter_data list \<Rightarrow> dstate \<Rightarrow> bool" where
  "dispatch_inv p stocks s \<longleftrightarrow> conserved p (mset (map sf_code stocks)) s \<and> counted p s
     \<and> attempts_ok p s \<and> work_bounded p (length stocks) s \<and> dead_ok p s \<and> stop_ok s"

lemmas dispatch_ops = q_put_def q_task_done_def on_extra_def kill_worker_def
  on_success_lock_def on_failure_lock_def on_failure_tail_def

lemma finite_worker_names [simp]: "finite (worker_names p)"
  by (simp add: worker_names_def)

section \<open>One step of a worker\<close>

lemma worker_conserved:
  assumes "worker_step p w s t" "w \<in> worker_names p" "conserved p M s"
  shows "conserved p M t"
proof -
  have T: "in_hand p s = held (d_pcs s w) + tsum (worker_names p - {w}) held (d_pcs s)"
    unfolding in_hand_def using assms(2) by (rule tsum_split [OF finite_worker_names])
  note U = tsum_upd [OF finite_worker_names assms(2)]
  from assms(3) have M: "M = queue_codes s + in_hand p s + result_codes s + extra_codes s"
    by (simp add: conserved_def)
  from assms(1) show ?thesis
    unfolding conserved_def M T
    by cases (auto simp: in_hand_def U dispatch_ops)
qed

lemma worker_counted:
  assumes "worker_step p w s t" "w \<in> worker_names p" "counted p s"
  shows "counted p t"
proof -
  have T: "tsum (worker_names p) busy (d_pcs s)
      = busy (d_pcs s w) + tsum (worker_names p - {w}) busy (d_pcs s)"
    using assms(2) by (rule tsum_split [OF finite_worker_names])
  note U = tsum_upd [OF finite_worker_names assms(2)]
  from assms(1,3) show ?thesis
    unfolding counted_def T
    by cases (auto simp: U dispatch_ops)
qed

lemma worker_attempts:
  assumes "worker_step p w s t" "w \<in> worker_names p" "attempts_ok p s"
  shows "attempts_ok p t"
proof -
  have A: "attempt_of (d_pcs s w) \<le> dc_max_retry (dp_cfg p)"
    using assms(2,3) by (simp add: attempts_ok_def)
  from assms(1,3) A show ?thesis
    unfolding attempts_ok_def by cases (auto simp: dispatch_ops)
qed

lemma worker_work_bounded:
  assumes "worker_step p w s t" "w \<in> worker_names p" "attempts_ok p s" "work_bounded p n s"
  shows "work_bounded p n t"
proof -
  let ?b = "budget (dc_max_retry (dp_cfg p))"
  have T: "tsum (worker_names p) ?b (d_pcs s)
      = ?b (d_pcs s w) + tsum (worker_names p - {w}) ?b (d_pcs s)"
    using assms(2) by (rule tsum_split [OF finite_worker_names])
  note U = tsum_upd [OF finite_worker_names assms(2)]
  have A: "attempt_of (d_pcs s w) \<le> dc_max_retry (dp_cfg p)"
    using assms(2,3) by (simp add: attempts_ok_def)
  from assms(1,4) A show ?thesis
    unfolding work_bounded_def T
    by cases (auto simp: U dispatch_ops)
qed

lemma worker_dead_ok:
  assumes "worker_step p w s t" "w \<in> worker_names p" "dead_ok p s"
  shows "dead_ok p t"
  using assms unfolding dead_ok_def
  by cases (auto simp: dispatch_ops dead_now_def)

lemma busy_not_idle:
  assumes "counted p s" "w \<in> worker_names p" "d_unfinished s = 0"
  shows "busy (d_pcs s w) = 0" "d_queue s = []"
proof -
  from assms(1,3) have "length (d_queue s) = 0" and "tsum (worker_names p) busy (d_pcs s) = 0"
    by (simp_all add: counted_def)
  then show "busy (d_pcs s w) = 0" "d_queue s = []"
    using assms(2) by (auto dest: tsum_nat_0_D [OF finite_worker_names])
qed

lemma worker_stop_ok:
  assumes "worker_step p w s t" "w \<in> worker_names p" "counted p s" "stop_ok s"
  shows "stop_ok t"
proof -
  have B: "d_unfinished s = 0 \<Longrightarrow> busy (d_pcs s w) = 0"
    using assms(2,3) by (simp add: busy_not_idle(1))
  from assms(1,4) B show ?thesis
    unfolding stop_ok_def by cases (auto simp: dispatch_ops)
qed

section \<open>One step of the main thread\<close>

lemma main_inv:
  assumes "main_step p s t" "dispatch_inv p stocks s"
  shows "dispatch_inv p stocks t"
proof -
  have c: "conserved p (mset (map sf_code stocks)) t" "counted p t" "attempts_ok p t"
    using assms unfolding dispatch_inv_def conserved_def counted_def attempts_ok_def in_hand_def
    by (cases; auto simp: dispatch_ops)+
  have d: "work_bounded p (length stocks) t" "dead_ok p t" "stop_ok t"
    using assms unfolding dispatch_inv_def work_bounded_def dead_ok_def stop_ok_def
    by (cases; auto simp: dispatch_ops)+
  from c d show ?thesis by (simp add: dispatch_inv_def)
qed

lemma worker_inv:
  assumes "worker_step p w s t" "w \<in> worker_names p" "dispatch_inv p stocks s"
  shows "dispatch_inv p stocks t"
  using assms(3)
  by (auto simp: dispatch_inv_def intro: worker_conserved [OF assms(1,2)]
      worker_counted [OF assms(1,2)] worker_attempts [OF assms(1,2)]
      worker_work_bounded [OF assms(1,2)] worker_dead_ok [OF assms(1,2)]
      worker_stop_ok [OF assms(1,2)])

section \<open>Every reachable state\<close>

lemma submit_all_simps:
  "d_queue (submit_all xs s) = d_queue s @ map (\<lambda>x. (x, 0)) xs"
  "d_unfinished (submit_all xs s) = d_unfinished s + length xs"
  "d_pcs (submit_all xs s) = d_pcs s" "d_results (submit_all xs s) = d_results s"
  "d_extras (submit_all xs s) = d_extras s" "d_calls (submit_all xs s) = d_calls s"
  "d_dead (submit_all xs s) = d_dead s" "d_streak (submit_all xs s) = d_streak s"
  "d_main (submit_all xs s) = d_main s" "d_drained (submit_all xs s) = d_drained s"
  "d_stop (submit_all xs s) = d_stop s"
  by (induction xs arbitrary: s) (auto simp: q_put_def)

lemma start_inv: "dispatch_inv p stocks (submit_all stocks (init_dispatch p))"
proof -
  have "(\<Sum>(x, a)\<leftarrow>map (\<lambda>x. (x, 0)) stocks. dc_max_retry (dp_cfg p) + 1 - a)
      = length stocks * (dc_max_retry (dp_cfg p) + 1)"
    by (induction stocks) auto
  then show ?thesis
    by (auto simp: dispatch_inv_def conserved_def counted_def attempts_ok_def work_bounded_def
        dead_ok_def stop_ok_def in_hand_def submit_all_simps init_dispatch_def tsum_const0 comp_def)
qed

lemma reachable_inv: "dispatch_reachable p stocks s \<Longrightarrow> dispatch_inv p stocks s"
proof (induction rule: dispatch_reachable.induct)
  case start
  show ?case by (rule start_inv)
next
  case (step s t)
  from step.hyps(2) show ?case
    by cases (use step.IH worker_inv main_inv in blast)+
qed

section \<open>The end of a run and the side outcomes\<close>

lemma finished_codes:
  assumes "dispatch_reachable p stocks s" and "d_main s = MStop \<or> d_main s = MDone"
    and "\<not> d_drained s"
  shows "d_queue s = [] \<and> (\<forall>w\<in>worker_names p. held (d_pcs s w) = {#})
    \<and> mset (map sf_code stocks) = mset (map (\<lambda>t. sf_code (fst t)) (d_results s))
      + mset (map wo_code (d_extras s))"
proof -
  have inv: "dispatch_inv p stocks s" using assms(1) by (rule reachable_inv)
  then have c: "counted p s" and u: "d_unfinished s = 0"
    using assms(2,3) by (auto simp: dispatch_inv_def stop_ok_def)
  from c u have q: "d_queue s = []" and "tsum (worker_names p) busy (d_pcs s) = 0"
    by (simp_all add: counted_def)
  then have "busy (d_pcs s w) = 0" if "w \<in> worker_names p" for w
    using that by (auto dest: tsum_nat_0_D [OF finite_worker_names])
  then have h: "held (d_pcs s w) = {#}" if "w \<in> worker_names p" for w
    using that by (simp add: held_idle)
  then have "in_hand p s = {#}" by (simp add: in_hand_def tsum_const0)
  then show ?thesis
    using inv q h by (auto simp: dispatch_inv_def conserved_def)
qed

lemma worker_extras_status:
  "worker_step p w s t \<Longrightarrow> \<forall>x \<in> set (d_extras s). wo_status x \<noteq> WoCompleted \<Longrightarrow>
   \<forall>x \<in> set (d_extras t). wo_status x \<noteq> WoCompleted"
  by (cases rule: worker_step.cases) (auto simp: dispatch_ops split: if_splits)

lemma main_extras_status:
  "main_step p s t \<Longrightarrow> \<forall>x \<in> set (d_extras s). wo_status x \<noteq> WoCompleted \<Longrightarrow>
   \<forall>x \<in> set (d_extras t). wo_status x \<noteq> WoCompleted"
  by (cases rule: main_step.cases) (auto simp: dispatch_ops)

text \<open>No side outcome has the status of a completed analysis.\<close>

lemma extras_status:
  "dispatch_reachable p stocks s \<Longrightarrow> \<forall>x \<in> set (d_extras s). wo_status x \<noteq> WoCompleted"
proof (induction rule: dispatch_reachable.induct)
  case (step s t)
  from step.hyps(2) show ?case
    by cases (use step.IH worker_extras_status main_extras_status in blast)+
qed (simp add: submit_all_simps init_dispatch_def)

section \<open>The executable scheduler is the step relation\<close>

lemma worker_exec_sound: "worker_exec p w e s = Some t \<Longrightarrow> worker_step p w s t"
  by (cases "d_pcs s w"; cases e)
     (auto intro: worker_step.intros worker_step.intros [simplified]
        simp: worker_exec_def process_ok_def
        split: list.splits if_splits exec_outcome.splits option.splits)

lemma worker_exec_complete:
  assumes "worker_step p w s t"
  shows "\<exists>e. worker_exec p w e s = Some t"
  using assms
proof cases
  case (past_deadline x a dl now)
  then show ?thesis by (auto simp: worker_exec_def intro!: exI [of _ "EvTime now"])
next
  case (start_attempt x a now)
  then show ?thesis by (auto simp: worker_exec_def intro!: exI [of _ "EvTime now"])
next
  case (attempt_ok x a r)
  then show ?thesis by (auto simp: worker_exec_def intro!: exI [of _ "EvOutcome (ExecResult r)"])
next
  case (attempt_failed x a out)
  then show ?thesis by (cases out) (auto simp: worker_exec_def intro!: exI [of _ "EvOutcome out"])
next
  case (deliver_raised x a r e)
  then show ?thesis by (auto simp: worker_exec_def intro!: exI [of _ "EvCallback (Some e)"])
next
  case login_failed
  then show ?thesis by (auto simp: worker_exec_def intro!: exI [of _ "EvLogin False"])
next
  case login_ok
  then show ?thesis by (auto simp: worker_exec_def intro!: exI [of _ "EvLogin True"])
next
  case (put_back x a)
  then show ?thesis by (auto simp: worker_exec_def intro!: exI [of _ "EvTime 0"])
next
  case (deliver_ok x a r)
  then show ?thesis by (auto simp: worker_exec_def intro!: exI [of _ "EvCallback None"])
qed (auto simp: worker_exec_def intro!: exI [of _ EvTick])

lemma main_exec_iff: "main_exec p s = Some t \<longleftrightarrow> main_step p s t"
proof
  show "main_exec p s = Some t \<Longrightarrow> main_step p s t"
    by (cases "d_main s") (auto simp: main_exec_def intro: main_step.intros split: if_splits list.splits)
  show "main_step p s t \<Longrightarrow> main_exec p s = Some t"
    by (cases rule: main_step.cases) (auto simp: main_exec_def)
qed

lemma step_event:
  assumes "dispatch_step p s t"
  shows "\<exists>e. dispatch_exec p e s = Some t"
  using assms
proof cases
  case (worker w)
  then obtain e where "worker_exec p w e s = Some t" using worker_exec_complete by blast
  with worker show ?thesis by (intro exI [of _ "EvWorker w e"]) simp
next
  case main
  then show ?thesis by (intro exI [of _ EvMain]) (simp add: main_exec_iff)
qed

lemma run_reachable:
  "dispatch_run p es s = Some t \<Longrightarrow> dispatch_reachable p stocks s \<Longrightarrow>
   dispatch_reachable p stocks t"
proof (induction p es s rule: dispatch_run.induct)
  case (2 p e es s)
  from "2.prems"(1) obtain u where u: "dispatch_exec p e s = Some u"
    and run: "dispatch_run p es u = Some t" by (auto split: option.splits)
  have "dispatch_step p s u"
    using u by (cases e) (auto intro: dispatch_step.intros worker_exec_sound
      simp: main_exec_iff split: if_splits)
  with "2.prems"(2) have "dispatch_reachable p stocks u" by (rule dispatch_reachable.step)
  with u run show ?case by (intro "2.IH") auto
qed simp

lemmas run_from_start = run_reachable [OF _ dispatch_reachable.start]

section \<open>A concrete run for the witnesses\<close>

definition ex_stock :: "string \<Rightarrow> stock_filter_data" where
  "ex_stock c = \<lparr>sf_code = c, sf_name = ustr_of c, sf_exchange = [], sf_result = True,
     sf_tags = [TagB1], sf_details = []\<rparr>"

definition ex_dispatch :: "nat \<Rightarrow> nat \<Rightarrow> dispatch" where
  "ex_dispatch retry threshold = \<lparr>dp_workers = [\<lparr>ws_name = ''local'', ws_model_name = ''m'',
     ws_timeout = 10800\<rparr>], dp_cfg = \<lparr>dc_max_retry = retry, dc_failure_threshold = threshold\<rparr>,
     dp_deadline = None\<rparr>"

abbreviation ex_tick :: devent where
  "ex_tick \<equiv> EvWorker ''local'' EvTick"

text \<open>The one stock is analysed at the first attempt, and the main thread leaves its loop.\<close>

definition ex_good_run :: "devent list" where
  "ex_good_run = [EvWorker ''local'' (EvLogin True), ex_tick, ex_tick,
     EvWorker ''local'' (EvTime 0),
     EvWorker ''local'' (EvOutcome (ExecResult ((new_analysis_result ''600000'')
        \<lparr>ar_status := ArCompleted\<rparr>))),
     EvWorker ''local'' (EvCallback None), ex_tick, EvMain]"

text \<open>
  Two stocks, one worker that dies at its first failure. It has just taken the second stock
  when the main thread finds every worker dead and drains an empty queue; then it puts the
  stock back.
\<close>

definition ex_lost_run :: "devent list" where
  "ex_lost_run = [EvWorker ''local'' (EvLogin True), ex_tick, ex_tick,
     EvWorker ''local'' (EvTime 0), EvWorker ''local'' (EvOutcome (ExecRaised ''e'')),
     ex_tick, ex_tick, ex_tick, ex_tick, ex_tick, EvMain, EvMain, EvMain,
     EvWorker ''local'' (EvTime 0), ex_tick]"

definition run_check :: "dispatch \<Rightarrow> stock_filter_data list \<Rightarrow> devent list \<Rightarrow> (dstate \<Rightarrow> bool) \<Rightarrow> bool" where
  "run_check p stocks es P =
     (case dispatch_run p es (submit_all stocks (init_dispatch p)) of
        None \<Rightarrow> False | Some t \<Rightarrow> P t)"

lemma run_check_reachable:
  "run_check p stocks es P \<Longrightarrow> \<exists>t. dispatch_reachable p stocks t \<and> P t"
  by (auto simp: run_check_def intro: run_from_start split: option.splits)

lemma ex_good_run_check:
  "run_check (ex_dispatch 1 3) [ex_stock ''600000''] ex_good_run
     (\<lambda>t. d_main t = MStop \<and> \<not> d_drained t \<and> map (sf_code \<circ> fst) (d_results t) = [''600000'']
        \<and> d_extras t = [])"
  by code_simp

text \<open>The same run up to the call of the callback, and up to \<open>task_done\<close>.\<close>

lemma ex_busy_run_check:
  "run_check (ex_dispatch 1 3) [ex_stock ''600000''] (take 6 ex_good_run)
     (\<lambda>t. d_pcs t ''local'' = WFin)"
  by code_simp

lemma ex_lost_run_check:
  "run_check (ex_dispatch 0 1) [ex_stock ''600000'', ex_stock ''600001''] ex_lost_run
     (\<lambda>t. d_main t = MDone \<and> d_pcs t ''local'' = WExited \<and> d_results t = []
        \<and> map wo_code (d_extras t) = [''600000'']
        \<and> map (sf_code \<circ> fst) (d_queue t) = [''600001''])"
  by code_simp

section \<open>Properties\<close>

text \<open>
  C1: no stock is lost or duplicated while the dispatcher runs. In every reachable state, for
  every interleaving of the worker threads and the main thread, every answer of the executor
  and every exception of the result callback, the codes of the submitted stocks are, with
  their multiplicity, those in the queue, those in the hands of a worker, those delivered to
  \<open>on_result\<close> and those reported to \<open>on_extra\<close>.
\<close>

theorem dispatch_conservation:
  assumes "dispatch_reachable p stocks s"
  shows "mset (map sf_code stocks) = mset (map (\<lambda>t. sf_code (fst t)) (d_queue s))
    + (\<Sum>w\<in>worker_names p. held (d_pcs s w))
    + mset (map (\<lambda>t. sf_code (fst t)) (d_results s)) + mset (map wo_code (d_extras s))"
  using reachable_inv [OF assms]
  by (simp add: dispatch_inv_def conserved_def in_hand_def tsum_def)

theorem dispatch_conservation_witness:
  "\<exists>s. dispatch_reachable (ex_dispatch 0 1) [ex_stock ''600000'', ex_stock ''600001''] s
     \<and> d_main s = MDone
     \<and> {#''600000'', ''600001''#} = mset (map (\<lambda>t. sf_code (fst t)) (d_queue s))
         + (\<Sum>w\<in>worker_names (ex_dispatch 0 1). held (d_pcs s w))
         + mset (map (\<lambda>t. sf_code (fst t)) (d_results s)) + mset (map wo_code (d_extras s))"
proof -
  obtain s where r: "dispatch_reachable (ex_dispatch 0 1)
      [ex_stock ''600000'', ex_stock ''600001''] s" and m: "d_main s = MDone"
    using run_check_reachable [OF ex_lost_run_check] by blast
  show ?thesis using r m dispatch_conservation [OF r] by (intro exI [of _ s]) (simp add: ex_stock_def)
qed

text \<open>
  C8: when the waiting loop of \<open>run\<close> ends because the queue's counter reached zero, every
  submitted stock has been delivered to \<open>on_result\<close> or reported to \<open>on_extra\<close>, each exactly as
  often as it was submitted, and nothing is left in the queue or in a worker's hands.
\<close>

theorem dispatch_complete:
  assumes "dispatch_reachable p stocks s" and "d_main s = MStop \<or> d_main s = MDone"
    and "\<not> d_drained s"
  shows "d_queue s = [] \<and> (\<forall>w\<in>worker_names p. held (d_pcs s w) = {#})
    \<and> mset (map sf_code stocks) = mset (map (\<lambda>t. sf_code (fst t)) (d_results s))
      + mset (map wo_code (d_extras s))"
  by (rule finished_codes [OF assms])

theorem dispatch_complete_witness:
  "\<exists>s. dispatch_reachable (ex_dispatch 1 3) [ex_stock ''600000''] s \<and> d_main s = MStop
     \<and> \<not> d_drained s \<and> d_queue s = []
     \<and> {#''600000''#} = mset (map (\<lambda>t. sf_code (fst t)) (d_results s))
         + mset (map wo_code (d_extras s))"
proof -
  obtain s where r: "dispatch_reachable (ex_dispatch 1 3) [ex_stock ''600000''] s"
    and m: "d_main s = MStop" "\<not> d_drained s"
    using run_check_reachable [OF ex_good_run_check] by blast
  show ?thesis using r m dispatch_complete [OF r _ m(2)]
    by (intro exI [of _ s]) (simp add: ex_stock_def)
qed

text \<open>
  C17: the dispatcher does a bounded amount of work: over a whole run the executor is called at
  most \<open>max_retry + 1\<close> times per submitted stock, whatever fails and however the threads
  interleave, and no queued stock has been retried more than \<open>max_retry\<close> times.
\<close>

theorem dispatch_bounded_attempts:
  assumes "dispatch_reachable p stocks s"
  shows "d_calls s \<le> length stocks * (dc_max_retry (dp_cfg p) + 1)
    \<and> (\<forall>(x, a) \<in> set (d_queue s). a \<le> dc_max_retry (dp_cfg p))"
  using reachable_inv [OF assms]
  by (auto simp: dispatch_inv_def work_bounded_def attempts_ok_def)

theorem dispatch_bounded_attempts_witness:
  "\<exists>s. dispatch_reachable (ex_dispatch 1 3) [ex_stock ''600000''] s \<and> d_main s = MStop
     \<and> d_calls s \<le> 2"
proof -
  obtain s where r: "dispatch_reachable (ex_dispatch 1 3) [ex_stock ''600000''] s"
    and m: "d_main s = MStop"
    using run_check_reachable [OF ex_good_run_check] by blast
  show ?thesis using r m dispatch_bounded_attempts [OF r]
    by (intro exI [of _ s]) (simp add: ex_dispatch_def)
qed

text \<open>
  The calls of \<open>task_done\<close> are balanced: whenever a worker is about to call it, and
  whenever the main thread takes a stock while draining, the queue's counter is positive, so
  \<open>task_done\<close> never raises \<open>ValueError\<close>.
\<close>

theorem task_done_balanced:
  assumes "dispatch_reachable p stocks s"
  shows "(\<forall>w\<in>worker_names p. d_pcs s w = WFin \<or> d_pcs s w = WFinExit \<longrightarrow> 0 < d_unfinished s)
    \<and> (d_queue s \<noteq> [] \<longrightarrow> 0 < d_unfinished s)"
proof -
  have c: "counted p s" using reachable_inv [OF assms] by (simp add: dispatch_inv_def)
  then have "d_queue s \<noteq> [] \<longrightarrow> 0 < d_unfinished s" by (simp add: counted_def)
  moreover have "0 < d_unfinished s"
    if "w \<in> worker_names p" "d_pcs s w = WFin \<or> d_pcs s w = WFinExit" for w
    using that busy_not_idle(1) [OF c, of w] by (cases "d_unfinished s") auto
  ultimately show ?thesis by blast
qed

theorem task_done_balanced_witness:
  "\<exists>s. dispatch_reachable (ex_dispatch 1 3) [ex_stock ''600000''] s
     \<and> d_pcs s ''local'' = WFin \<and> 0 < d_unfinished s"
proof -
  obtain s where r: "dispatch_reachable (ex_dispatch 1 3) [ex_stock ''600000''] s"
    and w: "d_pcs s ''local'' = WFin"
    using run_check_reachable [OF ex_busy_run_check] by blast
  have "''local'' \<in> worker_names (ex_dispatch 1 3)" by (simp add: ex_dispatch_def worker_names_def)
  with r w task_done_balanced [OF r] show ?thesis by blast
qed

text \<open>
  A worker that is not in the dead set has failed fewer than \<open>failure_threshold\<close> times
  in a row, only names of configured workers are in the dead set, and the test of
  \<open>_all_dead\<close>, which compares two sizes, holds exactly when every worker is dead.
\<close>

theorem dead_set_sound:
  assumes "dispatch_reachable p stocks s"
  shows "(\<forall>w\<in>worker_names p. w \<notin> d_dead s \<longrightarrow>
      d_streak s w < max 1 (dc_failure_threshold (dp_cfg p)))
    \<and> d_dead s \<subseteq> worker_names p
    \<and> (all_dead p s \<longleftrightarrow> d_dead s = worker_names p)"
proof -
  have d: "dead_ok p s" using reachable_inv [OF assms] by (simp add: dispatch_inv_def)
  then have sub: "d_dead s \<subseteq> worker_names p" by (simp add: dead_ok_def)
  then have "all_dead p s \<longleftrightarrow> d_dead s = worker_names p"
    unfolding all_dead_def using card_subset_eq [OF finite_worker_names sub] by auto
  with d show ?thesis by (auto simp: dead_ok_def)
qed

theorem dead_set_sound_witness:
  "\<exists>s. dispatch_reachable (ex_dispatch 0 1) [ex_stock ''600000'', ex_stock ''600001''] s
     \<and> d_main s = MDone \<and> (all_dead (ex_dispatch 0 1) s \<longleftrightarrow> d_dead s = {''local''})"
proof -
  obtain s where r: "dispatch_reachable (ex_dispatch 0 1)
      [ex_stock ''600000'', ex_stock ''600001''] s" and m: "d_main s = MDone"
    using run_check_reachable [OF ex_lost_run_check] by blast
  show ?thesis using r m dead_set_sound [OF r]
    by (intro exI [of _ s]) (simp add: ex_dispatch_def worker_names_def)
qed

text \<open>
  the drain can miss a stock. There is a run of one worker and two stocks that ends with
  the main thread done and the worker returned, where the second stock is back in the queue
  and was neither delivered to \<open>on_result\<close> nor reported to \<open>on_extra\<close>: a dead worker took
  it before the drain and put it back after.
\<close>

theorem drain_can_lose_a_stock:
  "\<exists>s. dispatch_reachable (ex_dispatch 0 1) [ex_stock ''600000'', ex_stock ''600001''] s
     \<and> d_main s = MDone \<and> d_pcs s ''local'' = WExited \<and> d_results s = []
     \<and> map wo_code (d_extras s) = [''600000'']
     \<and> map (sf_code \<circ> fst) (d_queue s) = [''600001'']"
  using run_check_reachable [OF ex_lost_run_check] by blast

text \<open>
  The three outcomes of \<open>_on_failure\<close>. A failure that kills the worker reports the stock
  as \<open>dead_skipped\<close> and does not queue it again, even when it has attempts left; otherwise a
  stock with no attempt left is reported as failed, and any other stock goes back to the end
  of the queue with its attempt number raised by one and nothing reported.
\<close>

theorem on_failure_outcomes:
  "(dead_now p w s \<longrightarrow>
      d_queue (on_failure p w x a err s) = d_queue s \<and>
      d_extras (on_failure p w x a err s) = d_extras s @ [(new_outcome (sf_code x) w WoDeadSkipped (EWorkerDead err) a)] \<and> w \<in> d_dead (on_failure p w x a err s))
   \<and> (\<not> dead_now p w s \<and> dc_max_retry (dp_cfg p) \<le> a \<longrightarrow>
      d_queue (on_failure p w x a err s) = d_queue s \<and>
      d_extras (on_failure p w x a err s) = d_extras s @ [(new_outcome (sf_code x) w WoFailed err a)])
   \<and> (\<not> dead_now p w s \<and> a < dc_max_retry (dp_cfg p) \<longrightarrow>
      d_queue (on_failure p w x a err s) = d_queue s @ [(x, a + 1)] \<and>
      d_extras (on_failure p w x a err s) = d_extras s)"
  by (simp add: on_failure_def dispatch_ops)

theorem on_failure_outcomes_witness:
  "d_queue (on_failure (ex_dispatch 1 1) ''local'' (ex_stock ''600000'') 0 (EText (ustr_of ''e''))
      (init_dispatch (ex_dispatch 1 1))) = []
   \<and> d_queue (on_failure (ex_dispatch 1 3) ''local'' (ex_stock ''600000'') 0 (EText (ustr_of ''e''))
      (init_dispatch (ex_dispatch 1 3))) = [(ex_stock ''600000'', 1)]"
proof -
  have d: "dead_now (ex_dispatch 1 1) ''local'' (init_dispatch (ex_dispatch 1 1))"
    and n: "\<not> dead_now (ex_dispatch 1 3) ''local'' (init_dispatch (ex_dispatch 1 3))"
    by (simp_all add: dead_now_def ex_dispatch_def init_dispatch_def)
  show ?thesis
    using d n on_failure_outcomes [of "ex_dispatch 1 1" "''local''" "init_dispatch (ex_dispatch 1 1)"
        "ex_stock ''600000''" 0 "EText (ustr_of ''e'')"]
      on_failure_outcomes [of "ex_dispatch 1 3" "''local''" "init_dispatch (ex_dispatch 1 3)"
        "ex_stock ''600000''" 0 "EText (ustr_of ''e'')"]
    by (simp add: ex_dispatch_def init_dispatch_def)
qed

text \<open>
  the executable scheduler is exactly the step relation: a step of the dispatcher is
  possible if and only if some event makes the scheduler compute it.
\<close>

theorem dispatch_exec_refines:
  "dispatch_step p s t \<longleftrightarrow> (\<exists>e. dispatch_exec p e s = Some t)"
proof
  show "dispatch_step p s t \<Longrightarrow> \<exists>e. dispatch_exec p e s = Some t" by (rule step_event)
next
  assume "\<exists>e. dispatch_exec p e s = Some t"
  then obtain e where "dispatch_exec p e s = Some t" ..
  then show "dispatch_step p s t"
    by (cases e) (auto intro: dispatch_step.intros worker_exec_sound
      simp: main_exec_iff split: if_splits)
qed

end
