(* ===== verification/DispatchLive.thy ===== *)
theory DispatchLive
  imports DispatchProofs
begin

text \<open>
  The dispatcher can always finish: from every reachable state some schedule of the threads and
  some answers of the environment bring the main thread and every worker to their end. A measure
  of the work left is given, and every state that is not the end has a step that lowers it.
\<close>

section \<open>Who is alive\<close>

text \<open>A worker that is not dead returns only after the stop, and the stop comes with the end.\<close>

definition alive_ok :: "dispatch \<Rightarrow> dstate \<Rightarrow> bool" where
  "alive_ok p s \<longleftrightarrow> (\<forall>w \<in> worker_names p. w \<notin> d_dead s \<longrightarrow>
      d_pcs s w \<noteq> WFinExit \<and> (d_pcs s w = WExited \<longrightarrow> d_stop s))
    \<and> (d_main s = MDone \<longrightarrow> d_stop s)"

lemma worker_frame:
  assumes "worker_step p w s t"
  shows "d_stop t = d_stop s \<and> d_main t = d_main s \<and> d_dead s \<subseteq> d_dead t \<and> (v \<noteq> w \<longrightarrow> d_pcs t v = d_pcs s v)"
  using assms by cases (simp_all add: dispatch_ops subset_insertI)

lemma worker_own:
  assumes "worker_step p w s t" "w \<notin> d_dead t" "d_pcs s w \<noteq> WFinExit"
  shows "d_pcs t w \<noteq> WFinExit \<and> (d_pcs t w = WExited \<longrightarrow> d_stop t)"
  using assms by cases (simp_all add: dispatch_ops)

lemma worker_alive_ok:
  assumes "worker_step p w s t" "alive_ok p s"
  shows "alive_ok p t"
proof -
  have "d_pcs t v \<noteq> WFinExit \<and> (d_pcs t v = WExited \<longrightarrow> d_stop t)"
    if "v \<in> worker_names p" "v \<notin> d_dead t" for v
  proof -
    have "d_pcs s v \<noteq> WFinExit \<and> (d_pcs s v = WExited \<longrightarrow> d_stop s)"
      using that assms(2) worker_frame [OF assms(1)] by (auto simp: alive_ok_def)
    then show ?thesis using that worker_own [OF assms(1)] worker_frame [OF assms(1), of v]
      by (cases "v = w") simp_all
  qed
  then show ?thesis using assms(2) worker_frame [OF assms(1)] by (simp add: alive_ok_def)
qed

lemma main_alive_ok:
  assumes "main_step p s t" "alive_ok p s"
  shows "alive_ok p t"
  using assms unfolding alive_ok_def by cases (simp_all add: dispatch_ops)

lemma reachable_alive_ok: "dispatch_reachable p stocks s \<Longrightarrow> alive_ok p s"
proof (induction rule: dispatch_reachable.induct)
  case (step s t)
  from step.hyps(2) show ?case
    by cases (use step.IH worker_alive_ok main_alive_ok in blast)+
qed (simp add: alive_ok_def submit_all_simps init_dispatch_def)

section \<open>The work left\<close>

text \<open>
  A queued stock weighs 20 for every attempt it has left. A thread weighs what it still does
  with the stock it holds, and a little for the steps around it.
\<close>

definition stock_weight :: "dispatch \<Rightarrow> nat \<Rightarrow> nat" where
  "stock_weight p a = 20 * (dc_max_retry (dp_cfg p) + 1 - a)"

fun wpc_weight :: "dispatch \<Rightarrow> bool \<Rightarrow> wpc \<Rightarrow> nat" where
  "wpc_weight p stop WLogin = 7"
| "wpc_weight p stop WLoop = (if stop then 2 else 6)"
| "wpc_weight p stop WGet = 5"
| "wpc_weight p stop (WHold x a) = stock_weight p a + 3"
| "wpc_weight p stop (WRun x a) = stock_weight p a - 8"
| "wpc_weight p stop (WDeliver x a r) = stock_weight p a - 9"
| "wpc_weight p stop (WFail x a e) = stock_weight p a - 10"
| "wpc_weight p stop (WTail x a e d) = stock_weight p a - 11"
| "wpc_weight p stop WFin = 8"
| "wpc_weight p stop WFinExit = 1"
| "wpc_weight p stop WExited = 0"

fun mpc_weight :: "mpc \<Rightarrow> nat" where
  "mpc_weight MLoop = 3" | "mpc_weight MDrain = 2" | "mpc_weight MStop = 1" | "mpc_weight MDone = 0"

definition work_left :: "dispatch \<Rightarrow> dstate \<Rightarrow> nat" where
  "work_left p s = (\<Sum>(x, a)\<leftarrow>d_queue s. stock_weight p a)
     + tsum (worker_names p) (wpc_weight p (d_stop s)) (d_pcs s) + mpc_weight (d_main s)"

definition finished :: "dispatch \<Rightarrow> dstate \<Rightarrow> bool" where
  "finished p s \<longleftrightarrow> d_main s = MDone \<and> (\<forall>w \<in> worker_names p. d_pcs s w = WExited)"

lemma stock_weight_ge: "a \<le> dc_max_retry (dp_cfg p) \<Longrightarrow> 20 \<le> stock_weight p a"
  by (simp add: stock_weight_def)

lemma stock_weight_next: "a < dc_max_retry (dp_cfg p) \<Longrightarrow> stock_weight p (a + 1) + 20 = stock_weight p a"
  by (simp add: stock_weight_def)

text \<open>A step of one worker that lowers its own weight and the queue's together.\<close>

lemma worker_lowers:
  assumes "w \<in> worker_names p" "d_stop t = d_stop s" "d_main t = d_main s"
    "\<forall>v. v \<noteq> w \<longrightarrow> d_pcs t v = d_pcs s v"
    "(\<Sum>(x, a)\<leftarrow>d_queue t. stock_weight p a) + wpc_weight p (d_stop s) (d_pcs t w)
      < (\<Sum>(x, a)\<leftarrow>d_queue s. stock_weight p a) + wpc_weight p (d_stop s) (d_pcs s w)"
  shows "work_left p t < work_left p s"
proof -
  let ?f = "wpc_weight p (d_stop s)"
  have "tsum (worker_names p) ?f f = ?f (f w) + tsum (worker_names p - {w}) ?f f" for f
    by (rule tsum_split [OF finite_worker_names assms(1)])
  moreover have "tsum (worker_names p - {w}) ?f (d_pcs t) = tsum (worker_names p - {w}) ?f (d_pcs s)"
    using assms(4) by (auto simp: tsum_def intro: sum.cong)
  ultimately show ?thesis using assms(2,3,5) by (simp add: work_left_def)
qed

section \<open>A step that lowers it\<close>

text \<open>A worker that holds a stock, or is about to call \<open>task_done\<close>, has such a step.\<close>

lemma busy_step:
  assumes "w \<in> worker_names p" "attempts_ok p s" "busy (d_pcs s w) \<noteq> 0"
  shows "\<exists>t. worker_step p w s t \<and> work_left p t < work_left p s"
proof -
  have a: "attempt_of (d_pcs s w) \<le> dc_max_retry (dp_cfg p)"
    using assms(1,2) by (simp add: attempts_ok_def)
  show ?thesis
  proof (cases "d_pcs s w")
    case (WHold x a)
    show ?thesis
    proof (cases "w \<in> d_dead s")
      case True
      have "work_left p (goto w WFinExit (q_put (x, a) s)) < work_left p s"
        by (rule worker_lowers [OF assms(1)]) (simp_all add: WHold q_put_def)
      then show ?thesis using put_back [OF WHold True] by blast
    next
      case False
      obtain now where "case dp_deadline p of None \<Rightarrow> True | Some dl \<Rightarrow> now < dl"
        by (cases "dp_deadline p") (auto intro: lt_ex [THEN exE])
      from start_attempt [OF WHold False this]
      have "worker_step p w s (goto w (WRun x a) (s\<lparr>d_calls := d_calls s + 1\<rparr>))" .
      moreover have "work_left p (goto w (WRun x a) (s\<lparr>d_calls := d_calls s + 1\<rparr>)) < work_left p s"
        by (rule worker_lowers [OF assms(1)]) (simp_all add: WHold)
      ultimately show ?thesis by blast
    qed
  next
    case (WRun x a)
    then have "a \<le> dc_max_retry (dp_cfg p)" using a by simp
    from stock_weight_ge [OF this] have "work_left p (goto w (WFail x a (process_error (ExecRaised []))) s) < work_left p s"
      by (intro worker_lowers [OF assms(1)]) (simp_all add: WRun)
    then show ?thesis using attempt_failed [OF WRun, of "ExecRaised []"] by (auto simp: process_ok_def)
  next
    case (WDeliver x a r)
    then have "a \<le> dc_max_retry (dp_cfg p)" using a by simp
    from stock_weight_ge [OF this]
    have "work_left p (goto w WFin (s\<lparr>d_results := d_results s @ [(x, r, w, a)]\<rparr>)) < work_left p s"
      by (intro worker_lowers [OF assms(1)]) (simp_all add: WDeliver)
    then show ?thesis using deliver_ok [OF WDeliver] by blast
  next
    case (WFail x a err)
    then have "a \<le> dc_max_retry (dp_cfg p)" using a by simp
    from stock_weight_ge [OF this]
    have "work_left p (goto w (WTail x a err (dead_now p w s)) (on_failure_lock p w s)) < work_left p s"
      by (intro worker_lowers [OF assms(1)]) (simp_all add: WFail on_failure_lock_def)
    then show ?thesis using failure_lock [OF WFail] by blast
  next
    case (WTail x a err dn)
    then have "a \<le> dc_max_retry (dp_cfg p)" using a by simp
    from stock_weight_ge [OF this] stock_weight_next [of a p]
    have "work_left p (goto w WFin (on_failure_tail p w x a err dn s)) < work_left p s"
      by (intro worker_lowers [OF assms(1)])
        (auto simp: WTail on_failure_tail_def on_extra_def q_put_def)
    then show ?thesis using failure_tail [OF WTail] by blast
  next
    case WFin
    have "work_left p (goto w WLoop (q_task_done s)) < work_left p s"
      by (rule worker_lowers [OF assms(1)]) (simp_all add: WFin q_task_done_def)
    then show ?thesis using finish [OF WFin] by blast
  next
    case WFinExit
    have "work_left p (goto w WExited (q_task_done s)) < work_left p s"
      by (rule worker_lowers [OF assms(1)]) (simp_all add: WFinExit q_task_done_def)
    then show ?thesis using finish_exit [OF WFinExit] by blast
  qed (use assms(3) in simp_all)
qed

text \<open>So has an idle worker when the queue is not empty, or after the stop.\<close>

lemma idle_step:
  assumes "w \<in> worker_names p" "busy (d_pcs s w) = 0" "d_pcs s w \<noteq> WExited" "d_stop s \<or> d_queue s \<noteq> []"
  shows "\<exists>t. worker_step p w s t \<and> work_left p t < work_left p s"
proof (cases "d_pcs s w")
  case WLogin
  have "work_left p (goto w WLoop s) < work_left p s"
    by (rule worker_lowers [OF assms(1)]) (simp_all add: WLogin)
  then show ?thesis using login_ok [OF WLogin] by blast
next
  case WLoop
  show ?thesis
  proof (cases "d_stop s")
    case True
    have "work_left p (goto w WExited s) < work_left p s"
      by (rule worker_lowers [OF assms(1)]) (simp_all add: WLoop)
    then show ?thesis using stopped [OF WLoop True] by blast
  next
    case False
    have "work_left p (goto w WGet s) < work_left p s"
      by (rule worker_lowers [OF assms(1)]) (simp_all add: WLoop False)
    then show ?thesis using next_round [OF WLoop False] by blast
  qed
next
  case WGet
  show ?thesis
  proof (cases "d_queue s")
    case Nil
    with assms(4) have "work_left p (goto w WLoop s) < work_left p s"
      by (intro worker_lowers [OF assms(1)]) (simp_all add: WGet)
    then show ?thesis using get_empty [OF WGet Nil] by blast
  next
    case (Cons t q)
    obtain x a where t: "t = (x, a)" by (cases t)
    have "work_left p (goto w (WHold x a) (s\<lparr>d_queue := q\<rparr>)) < work_left p s"
      by (rule worker_lowers [OF assms(1)]) (simp_all add: WGet Cons t)
    then show ?thesis using get_item [OF WGet, of x a q] Cons t by blast
  qed
qed (use assms(2,3) in simp_all)

lemma main_lowers:
  assumes "d_main s \<noteq> MDone" "d_main s = MLoop \<Longrightarrow> d_unfinished s = 0 \<or> all_dead p s" "attempts_ok p s"
  shows "\<exists>t. main_step p s t \<and> work_left p t < work_left p s"
proof (cases "d_main s")
  case MLoop
  show ?thesis
  proof (cases "d_unfinished s = 0")
    case True
    have "work_left p (s\<lparr>d_main := MStop\<rparr>) < work_left p s" by (simp add: work_left_def MLoop)
    then show ?thesis using wait_over [OF MLoop True] by blast
  next
    case False
    have "work_left p (s\<lparr>d_main := MDrain, d_drained := True\<rparr>) < work_left p s"
      by (simp add: work_left_def MLoop)
    moreover from False assms(2) [OF MLoop] have "0 < d_unfinished s" "all_dead p s" by simp_all
    ultimately show ?thesis using start_drain [OF MLoop] by blast
  qed
next
  case MDrain
  show ?thesis
  proof (cases "d_queue s")
    case Nil
    have "work_left p (s\<lparr>d_main := MStop\<rparr>) < work_left p s" by (simp add: work_left_def MDrain)
    then show ?thesis using drain_end [OF MDrain Nil] by blast
  next
    case (Cons t q)
    obtain x a where t: "t = (x, a)" by (cases t)
    have "20 \<le> stock_weight p a"
      using assms(3) by (intro stock_weight_ge) (simp add: attempts_ok_def Cons t)
    then show ?thesis using drain_one [OF MDrain, of x a q p] Cons t
      by (intro exI conjI) (assumption | simp add: work_left_def on_extra_def q_task_done_def)+
  qed
next
  case MStop
  have "tsum (worker_names p) (wpc_weight p True) (d_pcs s)
      \<le> tsum (worker_names p) (wpc_weight p (d_stop s)) (d_pcs s)"
    unfolding tsum_def
  proof (rule sum_mono)
    fix w show "wpc_weight p True (d_pcs s w) \<le> wpc_weight p (d_stop s) (d_pcs s w)"
      by (cases "d_pcs s w") simp_all
  qed
  then have "work_left p (s\<lparr>d_main := MDone, d_stop := True\<rparr>) < work_left p s"
    by (simp add: work_left_def MStop)
  then show ?thesis using stop_all [OF MStop] by blast
qed (use assms(1) in simp)

lemma lowering_step:
  assumes "dispatch_inv p stocks s" "alive_ok p s" "\<not> finished p s"
  shows "\<exists>t. dispatch_step p s t \<and> work_left p t < work_left p s"
proof -
  have inv: "attempts_ok p s" "counted p s" "dead_ok p s" "stop_ok s"
    using assms(1) by (simp_all add: dispatch_inv_def)
  show ?thesis
  proof (cases "\<exists>w \<in> worker_names p. busy (d_pcs s w) \<noteq> 0")
    case True
    then show ?thesis using busy_step [OF _ inv(1)] dispatch_step.worker by blast
  next
    case idle: False
    then have none: "tsum (worker_names p) busy (d_pcs s) = 0" by (simp add: tsum_def)
    show ?thesis
    proof (cases "d_main s = MDone")
      case True
      then have "d_stop s" using assms(2) by (simp add: alive_ok_def)
      moreover obtain w where "w \<in> worker_names p" "d_pcs s w \<noteq> WExited"
        using assms(3) True by (auto simp: finished_def)
      ultimately show ?thesis using idle_step [of w p s] idle dispatch_step.worker by blast
    next
      case False
      show ?thesis
      proof (cases "d_main s = MLoop \<longrightarrow> d_unfinished s = 0 \<or> all_dead p s")
        case True
        then show ?thesis using main_lowers [OF False _ inv(1)] dispatch_step.main by blast
      next
        case wait: False
        then have q: "d_queue s \<noteq> []" using inv(2) none by (auto simp: counted_def)
        have "d_dead s \<noteq> worker_names p" using wait by (auto simp: all_dead_def)
        then obtain w where w: "w \<in> worker_names p" "w \<notin> d_dead s" using inv(3) by (auto simp: dead_ok_def)
        have "\<not> d_stop s" using wait inv(4) by (auto simp: stop_ok_def)
        then have "d_pcs s w \<noteq> WExited" using assms(2) w by (auto simp: alive_ok_def)
        then show ?thesis using idle_step [OF w(1)] idle w(1) q dispatch_step.worker by blast
      qed
    qed
  qed
qed

section \<open>The dispatcher can always finish\<close>

text \<open>
  C6: From every reachable state of the dispatcher, whatever has failed so far, some schedule
  brings the main thread to its end and lets every worker return: no interleaving leads to a
  deadlock or to a state that can only wait.
\<close>

theorem dispatch_can_finish:
  assumes "dispatch_reachable p stocks s"
  shows "\<exists>es t. dispatch_run p es s = Some t \<and> dispatch_reachable p stocks t \<and> d_main t = MDone
    \<and> (\<forall>w \<in> worker_names p. d_pcs t w = WExited)"
  using assms
proof (induction "work_left p s" arbitrary: s rule: less_induct)
  case less
  show ?case
  proof (cases "finished p s")
    case True
    then show ?thesis using less.prems by (intro exI [of _ "[]"] exI [of _ s]) (simp add: finished_def)
  next
    case False
    from lowering_step [OF reachable_inv reachable_alive_ok False] less.prems
    obtain u where u: "dispatch_step p s u" "work_left p u < work_left p s" by blast
    then have "dispatch_reachable p stocks u" using less.prems dispatch_reachable.step by blast
    from less.hyps [OF u(2) this] obtain es t where t: "dispatch_run p es u = Some t"
      "dispatch_reachable p stocks t" "d_main t = MDone" "\<forall>w \<in> worker_names p. d_pcs t w = WExited" by blast
    obtain e where "dispatch_exec p e s = Some u" using step_event [OF u(1)] by blast
    then have "dispatch_run p (e # es) s = Some t" using t(1) by simp
    then show ?thesis using t(2-4) by blast
  qed
qed

theorem dispatch_can_finish_witness:
  "\<exists>es t. dispatch_run (ex_dispatch 1 3) es (submit_all [ex_stock ''600000''] (init_dispatch (ex_dispatch 1 3))) = Some t
    \<and> d_main t = MDone \<and> d_pcs t ''local'' = WExited"
proof -
  have "''local'' \<in> worker_names (ex_dispatch 1 3)" by (simp add: ex_dispatch_def worker_names_def)
  then show ?thesis
    using dispatch_can_finish [OF dispatch_reachable.start, of "ex_dispatch 1 3" "[ex_stock ''600000'']"] by blast
qed

end
