(* ===== verification/FilterRunner.thy ===== *)
theory FilterRunner
  imports Models "HOL-Library.Product_Lexorder" "HOL-Library.List_Lexorder"
begin

text \<open>
  The filter runner of \<open>pipeline/filter_runner.py\<close>: the B1 and the B2 screening give raw
  items, which are written as CSV tables, merged by stock code, sorted, and joined with the
  watch list. The two screening functions (they read market data) and the file system are
  parameters: a screening answers a list of items or raises, a CSV write succeeds or raises.
  Every raw item has a \<open>details\<close> dict of its own, so an update through one stock is seen by
  no other item.
\<close>

section \<open>Raw items\<close>

text \<open>A field that \<open>item.get\<close> may not find is an option.\<close>

record raw_stock =
  rs_code :: "string option"
  rs_name :: "ustr option"
  rs_exchange :: "string option"

definition empty_stock :: raw_stock where
  "empty_stock = \<lparr>rs_code = None, rs_name = None, rs_exchange = None\<rparr>"

record b1_item =
  b1_stock :: "raw_stock option"
  b1_status :: "string option"
  b1_result :: "bool option"
  b1_message :: "ustr option"
  b1_details :: "(ustr, dval) dict option"

record b2_item =
  b2_stock :: "raw_stock option"
  b2_status :: "string option"
  b2_strict :: "bool option"
  b2_loose :: "bool option"
  b2_details :: "(ustr, dval) dict option"

definition b1_code :: "b1_item \<Rightarrow> string" where
  "b1_code r = or_default (rs_code (or_default (b1_stock r) empty_stock)) []"

definition b2_code :: "b2_item \<Rightarrow> string" where
  "b2_code r = or_default (rs_code (or_default (b2_stock r) empty_stock)) []"

definition success :: "string option \<Rightarrow> bool" where
  "success st \<longleftrightarrow> st = Some ''success''"

definition b1_passes :: "b1_item \<Rightarrow> bool" where
  "b1_passes r \<longleftrightarrow> or_default (b1_result r) False \<and> success (b1_status r) \<and> b1_code r \<noteq> []"

definition strict :: "b2_item \<Rightarrow> bool" where
  "strict r \<longleftrightarrow> or_default (b2_strict r) False"

definition loose :: "b2_item \<Rightarrow> bool" where
  "loose r \<longleftrightarrow> or_default (b2_loose r) False"

definition b2_passes :: "b2_item \<Rightarrow> bool" where
  "b2_passes r \<longleftrightarrow> (strict r \<or> loose r) \<and> success (b2_status r) \<and> b2_code r \<noteq> []"

section \<open>Merging\<close>

definition raw_data :: "raw_stock \<Rightarrow> string \<Rightarrow> tag list \<Rightarrow> (ustr, dval) dict \<Rightarrow> stock_filter_data" where
  "raw_data st c ts ds = \<lparr>sf_code = c, sf_name = or_default (rs_name st) [],
     sf_exchange = or_default (rs_exchange st) [], sf_result = True, sf_tags = ts,
     sf_details = ds\<rparr>"

definition merge_b1_item :: "b1_item \<Rightarrow> (string, stock_filter_data) dict
    \<Rightarrow> (string, stock_filter_data) dict" where
  "merge_b1_item r d = (if \<not> b1_passes r then d else
     dset (b1_code r) (raw_data (or_default (b1_stock r) empty_stock) (b1_code r) [TagB1]
       (or_default (b1_details r) [])) d)"

definition b2_tags :: "b2_item \<Rightarrow> tag list" where
  "b2_tags r = (if strict r then [TagB2Strict] else []) @ (if loose r then [TagB2Loose] else [])"

definition merge_b2_item :: "b2_item \<Rightarrow> (string, stock_filter_data) dict
    \<Rightarrow> (string, stock_filter_data) dict" where
  "merge_b2_item r d = (if \<not> b2_passes r then d else
     (case dget d (b2_code r) of
        Some s \<Rightarrow> dset (b2_code r) (s\<lparr>sf_tags := sf_tags s @ b2_tags r,
            sf_details := dupdate (sf_details s) (or_default (b2_details r) [])\<rparr>) d
      | None \<Rightarrow> dset (b2_code r) (raw_data (or_default (b2_stock r) empty_stock) (b2_code r)
            (b2_tags r) (or_default (b2_details r) [])) d))"

definition priority :: "stock_filter_data \<Rightarrow> int" where
  "priority s = (let st = TagB2Strict \<in> set (sf_tags s); lo = TagB2Loose \<in> set (sf_tags s) in
     if st \<and> \<not> lo then 300 else if st \<and> lo then 200 else if lo then 100 else 0)"

text \<open>The score of the sort key; \<open>None\<close> when the unary minus raises a TypeError.\<close>

definition b1_score :: "stock_filter_data \<Rightarrow> rat option" where
  "b1_score s = (if TagB1 \<in> set (sf_tags s) then dval_num (total_score s) else Some 0)"

definition sort_key_of :: "stock_filter_data \<Rightarrow> int \<times> rat" where
  "sort_key_of s = (- priority s, - or_default (b1_score s) 0)"

definition merged_dict :: "b1_item list \<Rightarrow> b2_item list \<Rightarrow> (string, stock_filter_data) dict" where
  "merged_dict b1 b2 = fold merge_b2_item b2 (fold merge_b1_item b1 [])"

definition merge_results :: "b1_item list \<Rightarrow> b2_item list
    \<Rightarrow> (string, stock_filter_data list) result" where
  "merge_results b1 b2 = (let xs = map snd (merged_dict b1 b2) in
     if \<exists>s \<in> set xs. b1_score s = None then Inl ''TypeError''
     else Inr (sort_key sort_key_of xs))"

section \<open>The CSV tables\<close>

definition csv_code :: ustr where "csv_code = [32929, 31080, 20195, 30721]"
definition csv_name :: ustr where "csv_name = [32929, 31080, 21517, 31216]"
definition csv_exchange :: ustr where "csv_exchange = [20132, 26131, 25152]"
definition csv_status :: ustr where "csv_status = [29366, 24577]"
definition csv_result :: ustr where "csv_result = [32467, 26524]"
definition csv_message :: ustr where "csv_message = ustr_of ''message''"
definition csv_strict :: ustr where "csv_strict = [66, 50, 20005, 26684]"
definition csv_loose :: ustr where "csv_loose = [66, 50, 23485, 26494]"

definition txt_status :: "bool \<Rightarrow> dval" where
  "txt_status b = VStr (if b then [25104, 21151] else [38169, 35823])"

definition txt_match :: "bool \<Rightarrow> dval" where
  "txt_match b = VStr (if b then [31526, 21512] else [19981, 31526, 21512])"

text \<open>The columns of the B1 table: the base columns, then every new key in order of appearance.\<close>

definition add_field :: "ustr \<Rightarrow> ustr list \<Rightarrow> ustr list" where
  "add_field k fs = (if k \<in> set fs then fs else fs @ [k])"

definition b1_fields :: "b1_item list \<Rightarrow> ustr list" where
  "b1_fields rs = fold (\<lambda>r. fold add_field (dkeys (or_default (b1_details r) []))) rs
     [csv_code, csv_name, csv_exchange, csv_status, csv_result, csv_message]"

definition stock_cells :: "raw_stock \<Rightarrow> (ustr, dval) dict" where
  "stock_cells st = [(csv_code, VStr (ustr_of (or_default (rs_code st) []))),
     (csv_name, VStr (or_default (rs_name st) [])),
     (csv_exchange, VStr (ustr_of (or_default (rs_exchange st) [])))]"

definition b1_row :: "b1_item \<Rightarrow> (ustr, dval) dict" where
  "b1_row r = dupdate (stock_cells (or_default (b1_stock r) empty_stock)
     @ [(csv_status, txt_status (success (b1_status r))),
        (csv_result, txt_match (or_default (b1_result r) False)),
        (csv_message, VStr (or_default (b1_message r) []))])
     (or_default (b1_details r) [])"

text \<open>\<open>DictWriter\<close> with \<open>extrasaction='ignore'\<close>: one cell per column, missing ones empty.\<close>

definition csv_line :: "ustr list \<Rightarrow> (ustr, dval) dict \<Rightarrow> dval list" where
  "csv_line fs row = map (\<lambda>f. dget_default row f (VStr [])) fs"

definition save_csv :: "b1_item list \<Rightarrow> ustr list \<times> dval list list" where
  "save_csv rs = (b1_fields rs, map (\<lambda>r. csv_line (b1_fields rs) (b1_row r)) rs)"

text \<open>The B2 tables: the base columns and the sorted keys of the qualified items.\<close>

definition b2_qualified :: "b2_item list \<Rightarrow> b2_item list" where
  "b2_qualified rs = filter (\<lambda>r. strict r \<or> loose r) rs"

definition b2_fields :: "b2_item list \<Rightarrow> ustr list" where
  "b2_fields rs = [csv_code, csv_name, csv_exchange, csv_status, csv_strict, csv_loose]
     @ sort (remdups (concat (map (\<lambda>r. dkeys (or_default (b2_details r) [])) (b2_qualified rs))))"

definition b2_row :: "bool \<Rightarrow> b2_item \<Rightarrow> (ustr, dval) dict" where
  "b2_row ok r = dupdate (stock_cells (or_default (b2_stock r) empty_stock)
     @ [(csv_status, txt_status ok), (csv_strict, txt_match (strict r)),
        (csv_loose, txt_match (loose r))])
     (or_default (b2_details r) [])"

definition save_b2_csv :: "b2_item list
    \<Rightarrow> (ustr list \<times> dval list list) \<times> (ustr list \<times> dval list list)" where
  "save_b2_csv rs = (let fs = b2_fields rs in
     ((fs, map (\<lambda>r. csv_line fs (b2_row (success (b2_status r)) r)) (b2_qualified rs)),
      (fs, map (\<lambda>r. csv_line fs (b2_row True r)) (filter (\<lambda>r. success (b2_status r)) rs))))"

section \<open>The watch list and the run\<close>

text \<open>The file: absent, unreadable (an exception is caught), or the list of its key \<open>stocks\<close>.\<close>

datatype watch_file = WatchAbsent | WatchRaises | WatchData "string list option"

definition load_watchlist :: "watch_file \<Rightarrow> string list" where
  "load_watchlist f = (case f of WatchAbsent \<Rightarrow> [] | WatchRaises \<Rightarrow> []
     | WatchData codes \<Rightarrow> map py_strip (filter (\<lambda>c. py_strip c \<noteq> []) (or_default codes [])))"

definition watch_stock :: "string \<Rightarrow> stock_filter_data" where
  "watch_stock c = \<lparr>sf_code = c, sf_name = ustr_of c, sf_exchange = [], sf_result = True,
     sf_tags = [TagWatch], sf_details = []\<rparr>"

definition add_watch_tag :: "string \<Rightarrow> stock_filter_data \<Rightarrow> stock_filter_data" where
  "add_watch_tag c s = (if sf_code s = c \<and> TagWatch \<notin> set (sf_tags s)
     then s\<lparr>sf_tags := sf_tags s @ [TagWatch]\<rparr> else s)"

text \<open>\<open>existing_codes\<close> is computed once, before the loop.\<close>

definition watch_one :: "string set \<Rightarrow> string \<Rightarrow> stock_filter_data list \<Rightarrow> stock_filter_data list" where
  "watch_one ex c xs = (if c \<in> ex then map (add_watch_tag c) xs else xs @ [watch_stock c])"

definition watched :: "stock_filter_data \<Rightarrow> bool" where
  "watched s \<longleftrightarrow> TagWatch \<in> set (sf_tags s)"

definition inject_watchlist :: "string list \<Rightarrow> stock_filter_data list \<Rightarrow> stock_filter_data list" where
  "inject_watchlist codes xs =
     (let ys = fold (watch_one (set (map sf_code xs))) codes xs in
      if codes = [] then ys else sort_key (\<lambda>s. if watched s then 0 else (1 :: nat)) ys)"

text \<open>The environment of a run: today, the two screenings, the two CSV writes, the watch list.\<close>

record filter_env =
  fe_today :: int
  fe_b1 :: "bool \<Rightarrow> (string, b1_item list) result"
  fe_save_b1 :: "ustr list \<times> dval list list \<Rightarrow> string option"
  fe_b2 :: "raw_stock list \<Rightarrow> (string, b2_item list) result"
  fe_save_b2 :: "(ustr list \<times> dval list list) \<times> (ustr list \<times> dval list list) \<Rightarrow> string option"
  fe_watch :: watch_file

definition b2_pool :: "b1_item list \<Rightarrow> raw_stock list" where
  "b2_pool b1 = map (\<lambda>r. or_default (b1_stock r) empty_stock) (filter (\<lambda>r. success (b1_status r)) b1)"

definition execute :: "filter_env \<Rightarrow> bool \<Rightarrow> (string, filter_results) result" where
  "execute env debug = (case fe_b1 env debug of Inl e \<Rightarrow> Inl e | Inr b1 \<Rightarrow>
     (case fe_save_b1 env (save_csv b1) of Some e \<Rightarrow> Inl e | None \<Rightarrow>
     (case fe_b2 env (b2_pool b1) of Inl e \<Rightarrow> Inl e | Inr b2 \<Rightarrow>
     (case fe_save_b2 env (save_b2_csv b2) of Some e \<Rightarrow> Inl e | None \<Rightarrow>
     (case merge_results b1 b2 of Inl e \<Rightarrow> Inl e | Inr xs \<Rightarrow>
      Inr \<lparr>fr_date = fe_today env, fr_total_scanned = length b1,
           fr_stocks = inject_watchlist (load_watchlist (fe_watch env)) xs\<rparr>)))))"

end
