(* ===== verification/FilterProofs.thy ===== *)
theory FilterProofs
  imports FilterRunner
begin

text \<open>
  The merge of the two screenings gives every passing code once, with exactly the tags its
  items earn, sorted by priority and score; the watch list puts its codes in front. The
  invariant of the merged dict carries the proofs.
\<close>

section \<open>The merged dict\<close>

definition merged_wf :: "(string, stock_filter_data) dict \<Rightarrow> bool" where
  "merged_wf d \<longleftrightarrow> distinct (dkeys d) \<and> (\<forall>(k, s) \<in> set d. sf_code s = k)"

lemma merged_wf_dset:
  assumes "merged_wf d" "sf_code s = k"
  shows "merged_wf (dset k s d)"
proof -
  have "set (dset k s d) \<subseteq> insert (k, s) (set d)" by (induction d) auto
  with assms show ?thesis by (auto simp: merged_wf_def dict_simps)
qed

lemma merged_wf_get: "merged_wf d \<Longrightarrow> dget d k = Some s \<Longrightarrow> sf_code s = k"
  by (auto simp: merged_wf_def dest: map_of_SomeD)

lemma merged_wf_b1: "merged_wf d \<Longrightarrow> merged_wf (merge_b1_item r d)"
  by (simp add: merge_b1_item_def merged_wf_dset raw_data_def)

lemma merged_wf_b2: "merged_wf d \<Longrightarrow> merged_wf (merge_b2_item r d)"
  by (auto simp: merge_b2_item_def merged_wf_dset raw_data_def merged_wf_get
    intro!: merged_wf_dset split: option.splits)

lemma merged_wf_dict: "merged_wf (merged_dict b1 b2)"
  unfolding merged_dict_def
  by (intro fold_keeps [where P = merged_wf] merged_wf_b1 merged_wf_b2) (simp add: merged_wf_def)

lemma merged_b1_tags:
  "map_option sf_tags (dget (fold merge_b1_item rs d) c) =
     (if \<exists>r \<in> set rs. b1_passes r \<and> b1_code r = c then Some [TagB1]
      else map_option sf_tags (dget d c))"
  by (induction rs arbitrary: d) (auto simp: merge_b1_item_def dict_simps raw_data_def)

definition tags_or_none :: "stock_filter_data option \<Rightarrow> tag list" where
  "tags_or_none x = (case x of None \<Rightarrow> [] | Some s \<Rightarrow> sf_tags s)"

lemma merged_b2_tags:
  "map_option sf_tags (dget (fold merge_b2_item rs d) c) =
     (let fs = filter (\<lambda>r. b2_passes r \<and> b2_code r = c) rs in
      if fs = [] then map_option sf_tags (dget d c)
      else Some (tags_or_none (dget d c) @ concat (map b2_tags fs)))"
  by (induction rs arbitrary: d)
     (auto simp: merge_b2_item_def dict_simps raw_data_def tags_or_none_def Let_def
       split: option.splits)

definition passing_codes :: "b1_item list \<Rightarrow> b2_item list \<Rightarrow> string set" where
  "passing_codes b1 b2 = b1_code ` {r \<in> set b1. b1_passes r} \<union> b2_code ` {r \<in> set b2. b2_passes r}"

definition earned_tags :: "b1_item list \<Rightarrow> b2_item list \<Rightarrow> string \<Rightarrow> tag list" where
  "earned_tags b1 b2 c = (if \<exists>r \<in> set b1. b1_passes r \<and> b1_code r = c then [TagB1] else [])
     @ concat (map b2_tags (filter (\<lambda>r. b2_passes r \<and> b2_code r = c) b2))"

lemma merged_dict_tags:
  "map_option sf_tags (dget (merged_dict b1 b2) c) =
     (if c \<in> passing_codes b1 b2 then Some (earned_tags b1 b2 c) else None)"
proof -
  let ?p = "\<exists>r \<in> set b1. b1_passes r \<and> b1_code r = c"
  let ?fs = "filter (\<lambda>r. b2_passes r \<and> b2_code r = c) b2"
  let ?d = "fold merge_b1_item b1 []"
  have d: "map_option sf_tags (dget ?d c) = (if ?p then Some [TagB1] else None)"
    using merged_b1_tags [of b1 "[]" c] by simp
  then have t: "tags_or_none (dget ?d c) = (if ?p then [TagB1] else [])"
    by (cases "dget ?d c") (auto simp: tags_or_none_def split: if_splits)
  have m: "c \<in> passing_codes b1 b2 \<longleftrightarrow> ?p \<or> ?fs \<noteq> []"
    by (auto simp: passing_codes_def filter_empty_conv)
  show ?thesis
    unfolding merged_dict_def merged_b2_tags Let_def earned_tags_def d t m by simp
qed

lemma merged_value:
  assumes "s \<in> set (map snd (merged_dict b1 b2))"
  shows "dget (merged_dict b1 b2) (sf_code s) = Some s"
proof -
  from assms obtain k where k: "(k, s) \<in> set (merged_dict b1 b2)" by auto
  with merged_wf_dict [of b1 b2] show ?thesis by (auto simp: merged_wf_def intro: map_of_is_SomeI)
qed

lemma merged_codes: "map sf_code (map snd (merged_dict b1 b2)) = dkeys (merged_dict b1 b2)"
  using merged_wf_dict [of b1 b2] by (auto simp: merged_wf_def)

lemma merged_dkeys: "set (dkeys (merged_dict b1 b2)) = passing_codes b1 b2"
proof -
  have "c \<in> set (dkeys (merged_dict b1 b2)) \<longleftrightarrow> c \<in> passing_codes b1 b2" for c
    using merged_dict_tags [of b1 b2 c] dget_None_iff [of "merged_dict b1 b2" c]
    by (auto split: if_splits)
  then show ?thesis by blast
qed

lemma merge_results_Inr:
  assumes "merge_results b1 b2 = Inr xs"
  shows "xs = sort_key sort_key_of (map snd (merged_dict b1 b2))
    \<and> (\<forall>s \<in> set xs. b1_score s \<noteq> None)"
  using assms by (auto simp: merge_results_def Let_def split: if_splits)

section \<open>Properties of the merge\<close>

text \<open>
  C16: A merge that returns gives one stock per code that passed B1 or B2, no other, and the
  tags of each are B1 if a B1 item passed, followed by the strict and loose tags of its
  passing B2 items in their order.
\<close>

theorem merge_results_exact:
  assumes "merge_results b1 b2 = Inr xs"
  shows "distinct (map sf_code xs) \<and> set (map sf_code xs) = passing_codes b1 b2
    \<and> (\<forall>s \<in> set xs. sf_tags s = earned_tags b1 b2 (sf_code s))"
proof (intro conjI ballI)
  have xs: "xs = sort_key sort_key_of (map snd (merged_dict b1 b2))"
    using merge_results_Inr [OF assms] by simp
  then have "distinct (map sf_code xs) = distinct (map sf_code (map snd (merged_dict b1 b2)))"
    by (simp only: distinct_map_sort_key)
  also have "\<dots> = distinct (dkeys (merged_dict b1 b2))" by (simp only: merged_codes)
  finally show "distinct (map sf_code xs)" using merged_wf_dict by (simp add: merged_wf_def)
  have "set (map sf_code xs) = set (map sf_code (map snd (merged_dict b1 b2)))"
    by (simp only: xs set_map set_sort)
  then show "set (map sf_code xs) = passing_codes b1 b2"
    by (simp only: merged_codes merged_dkeys)
  fix s assume "s \<in> set xs"
  then have "dget (merged_dict b1 b2) (sf_code s) = Some s"
    by (intro merged_value) (simp add: xs)
  then show "sf_tags s = earned_tags b1 b2 (sf_code s)"
    using merged_dict_tags [of b1 b2 "sf_code s"] by (simp split: if_splits)
qed

text \<open>
  The merged stocks are sorted by descending priority (strict only, strict and loose,
  loose only, B1 only), and within a priority by descending B1 score.
\<close>

theorem merge_results_sorted:
  assumes "merge_results b1 b2 = Inr xs"
  shows "sorted_wrt (\<lambda>s t. priority t < priority s \<or> priority s = priority t
    \<and> or_default (b1_score t) 0 \<le> or_default (b1_score s) 0) xs"
proof -
  have "sorted_wrt (\<lambda>s t. sort_key_of s \<le> sort_key_of t) xs"
    using merge_results_Inr [OF assms] sorted_sort_key [of sort_key_of] by (simp add: sorted_map)
  then show ?thesis by (rule sorted_wrt_mono_rel [rotated]) (auto simp: sort_key_of_def)
qed

definition score_ok :: "(ustr, dval) dict option \<Rightarrow> bool" where
  "score_ok ds \<longleftrightarrow> distinct (dkeys (or_default ds []))
    \<and> dval_num (dget_default (or_default ds []) k_total_score (VInt 0)) \<noteq> None"

lemma dval_num_0 [simp]: "dval_num (VInt 0) = Some 0" by simp

definition all_scored :: "(string, stock_filter_data) dict \<Rightarrow> bool" where
  "all_scored d \<longleftrightarrow> (\<forall>s \<in> set (map snd d). dval_num (total_score s) \<noteq> None)"

lemma all_scored_dset:
  assumes "all_scored d" "dval_num (total_score s) \<noteq> None"
  shows "all_scored (dset k s d)"
proof -
  have "set (map snd (dset k s d)) \<subseteq> insert s (set (map snd d))" by (induction d) auto
  with assms show ?thesis unfolding all_scored_def by blast
qed

lemma all_scored_get:
  "all_scored d \<Longrightarrow> dget d k = Some s \<Longrightarrow> dval_num (total_score s) \<noteq> None"
  by (force simp: all_scored_def dest: map_of_SomeD)

lemma all_scored_b1: "all_scored d \<Longrightarrow> score_ok (b1_details r) \<Longrightarrow> all_scored (merge_b1_item r d)"
  by (auto simp: merge_b1_item_def score_ok_def total_score_def raw_data_def
    intro!: all_scored_dset)

lemma total_score_update:
  assumes "dval_num (dget_default ds k_total_score (VInt 0)) \<noteq> None" "score_ok e"
  shows "dval_num (dget_default (dupdate ds (or_default e [])) k_total_score (VInt 0)) \<noteq> None"
  using assms by (cases "dget (or_default e []) k_total_score")
    (simp_all add: score_ok_def dget_default_def dget_dupdate map_add_def)

lemma all_scored_b2: "all_scored d \<Longrightarrow> score_ok (b2_details r) \<Longrightarrow> all_scored (merge_b2_item r d)"
  using all_scored_get [of d "b2_code r"] total_score_update [of _ "b2_details r"]
  by (auto simp: merge_b2_item_def total_score_def raw_data_def score_ok_def
    intro!: all_scored_dset split: option.splits)

lemma all_scored_dict:
  assumes "\<forall>r \<in> set b1. score_ok (b1_details r)" "\<forall>r \<in> set b2. score_ok (b2_details r)"
  shows "all_scored (merged_dict b1 b2)"
  unfolding merged_dict_def using assms
  by (intro fold_keeps [where P = all_scored] all_scored_b1 all_scored_b2) (auto simp: all_scored_def)

lemma merge_results_total:
  assumes "\<forall>r \<in> set b1. score_ok (b1_details r)" "\<forall>r \<in> set b2. score_ok (b2_details r)"
  shows "is_ok (merge_results b1 b2)"
proof -
  have "b1_score s \<noteq> None" if "s \<in> set (map snd (merged_dict b1 b2))" for s
    using all_scored_dict [OF assms] that by (auto simp: all_scored_def b1_score_def)
  then show ?thesis by (fastforce simp: merge_results_def Let_def)
qed


section \<open>The watch list\<close>

lemma insort_partition:
  assumes "\<forall>a \<in> set as. P a" "\<forall>b \<in> set bs. \<not> P b"
  shows "insort_key (\<lambda>s. if P s then 0 else (1 :: nat)) x (as @ bs) =
    (if P x then x # as @ bs else as @ x # bs)"
proof (cases "P x")
  case True
  then show ?thesis using assms by (cases as; cases bs) simp_all
next
  case False
  have "insort_key (\<lambda>s. if P s then 0 else (1 :: nat)) x bs = x # bs"
    using False assms(2) by (cases bs) simp_all
  then show ?thesis using False assms(1) by (induction as) simp_all
qed

lemma sort_key_partition:
  "sort_key (\<lambda>s. if P s then 0 else (1 :: nat)) xs = filter P xs @ filter (\<lambda>s. \<not> P s) xs"
  by (induction xs) (simp_all add: insort_partition)

definition with_watch :: "string set \<Rightarrow> stock_filter_data \<Rightarrow> stock_filter_data" where
  "with_watch cs s = (if sf_code s \<in> cs \<and> \<not> watched s
     then s\<lparr>sf_tags := sf_tags s @ [TagWatch]\<rparr> else s)"

lemma with_watch_code [simp]: "sf_code (with_watch cs s) = sf_code s"
  by (simp add: with_watch_def)

lemma watched_with_watch [simp]: "watched (with_watch cs s) \<longleftrightarrow> watched s \<or> sf_code s \<in> cs"
  by (auto simp: with_watch_def watched_def)

lemma not_watched_with_watch: "\<not> watched s \<Longrightarrow> watched (with_watch cs s) \<longleftrightarrow> sf_code s \<in> cs"
  by simp

lemma with_watch_other: "sf_code s \<notin> cs \<Longrightarrow> with_watch cs s = s"
  by (simp add: with_watch_def)

lemma fold_add_watch_tag: "fold add_watch_tag cs s = with_watch (set cs) s"
  by (induction cs arbitrary: s) (auto simp: with_watch_def add_watch_tag_def watched_def)

lemma add_watch_tag_watch_stock [simp]: "add_watch_tag c (watch_stock c') = watch_stock c'"
  by (simp add: add_watch_tag_def watch_stock_def)

lemma fold_watch_one:
  "fold (watch_one ex) cs (xs @ map watch_stock ns) =
     map (fold add_watch_tag (filter (\<lambda>c. c \<in> ex) cs)) xs
     @ map watch_stock (ns @ filter (\<lambda>c. c \<notin> ex) cs)"
proof (induction cs arbitrary: xs ns)
  case (Cons c cs)
  show ?case
  proof (cases "c \<in> ex")
    case True
    then show ?thesis using Cons [of "map (add_watch_tag c) xs" ns]
      by (simp add: watch_one_def comp_def)
  next
    case False
    then show ?thesis using Cons [of xs "ns @ [c]"] by (simp add: watch_one_def)
  qed
qed simp

lemma inject_unsorted:
  "fold (watch_one (set (map sf_code xs))) cs xs =
     map (with_watch (set cs)) xs
     @ map watch_stock (filter (\<lambda>c. c \<notin> set (map sf_code xs)) cs)"
proof -
  have "with_watch {c \<in> set cs. c \<in> set (map sf_code xs)} s = with_watch (set cs) s"
    if "s \<in> set xs" for s
    using that by (auto simp: with_watch_def)
  then show ?thesis
    using fold_watch_one [of "set (map sf_code xs)" cs xs "[]"] by (simp add: fold_add_watch_tag)
qed

lemma watch_stock_simps [simp]: "sf_code (watch_stock c) = c" "watched (watch_stock c)"
  by (simp_all add: watch_stock_def watched_def)

lemma filter_not_watch_stock [simp]: "filter (\<lambda>s. \<not> watched s) (map watch_stock cs) = []"
  by (induction cs) simp_all

lemma mset_inject:
  "mset (inject_watchlist cs xs) = mset (map (with_watch (set cs)) xs)
     + mset (map watch_stock (filter (\<lambda>c. c \<notin> set (map sf_code xs)) cs))"
  unfolding inject_watchlist_def Let_def inject_unsorted by simp

interpretation watch: code_merge watch_one "\<lambda>c. c"
  by unfold_locales (simp add: watch_one_def add_watch_tag_def comp_def)

lemma codes_inject:
  "mset (map sf_code (inject_watchlist cs xs)) =
     mset (map sf_code xs) + mset (filter (\<lambda>c. c \<notin> set (map sf_code xs)) cs)"
proof -
  have "mset (map sf_code (inject_watchlist cs xs))
      = mset (map sf_code (fold (watch_one (set (map sf_code xs))) cs xs))"
    by (simp add: inject_watchlist_def Let_def)
  then show ?thesis by (simp only: watch.codes mset_append list.map_ident)
qed

lemma set_codes_inject:
  "set (map sf_code (inject_watchlist cs xs)) = set (map sf_code xs) \<union> set cs"
  using watch.codes_set [of xs cs] by (simp add: inject_watchlist_def Let_def)

text \<open>
  A watch list without duplicates: the result has every merged code and every watched
  code once, exactly the watched codes carry the tag, the watched stocks come first, and the
  others keep their order.
\<close>

theorem inject_watchlist_exact:
  assumes "distinct (map sf_code xs)" "distinct cs" "cs \<noteq> []" "\<forall>s \<in> set xs. \<not> watched s"
  shows "distinct (map sf_code (inject_watchlist cs xs))
    \<and> set (map sf_code (inject_watchlist cs xs)) = set (map sf_code xs) \<union> set cs
    \<and> (\<forall>s \<in> set (inject_watchlist cs xs). watched s \<longleftrightarrow> sf_code s \<in> set cs)
    \<and> (\<exists>ws. inject_watchlist cs xs = ws @ filter (\<lambda>s. sf_code s \<notin> set cs) xs
          \<and> (\<forall>s \<in> set ws. watched s))"
proof (intro conjI ballI)
  have "mset (map sf_code (inject_watchlist cs xs)) = mset (map sf_code (fold (watch_one (set (map sf_code xs))) cs xs))"
    by (simp add: inject_watchlist_def Let_def)
  then show "distinct (map sf_code (inject_watchlist cs xs))"
    using watch.codes_distinct [OF assms(1), of cs] assms(2) by (metis list.map_ident mset_eq_imp_distinct_iff)
  show "set (map sf_code (inject_watchlist cs xs)) = set (map sf_code xs) \<union> set cs"
    by (rule set_codes_inject)
  fix s assume "s \<in> set (inject_watchlist cs xs)"
  then have "s \<in># mset (map (with_watch (set cs)) xs) + mset (map watch_stock (filter (\<lambda>c. c \<notin> set (map sf_code xs)) cs))"
    by (simp only: flip: mset_inject) simp
  then show "watched s \<longleftrightarrow> sf_code s \<in> set cs" using assms(4) by auto
next
  let ?ys = "map (with_watch (set cs)) xs
    @ map watch_stock (filter (\<lambda>c. c \<notin> set (map sf_code xs)) cs)"
  have "filter (\<lambda>s. \<not> watched s) (map (with_watch (set cs)) xs) = filter (\<lambda>s. sf_code s \<notin> set cs) xs"
    using assms(4) by (induction xs) (simp_all add: not_watched_with_watch with_watch_other)
  then have "inject_watchlist cs xs = filter watched ?ys @ filter (\<lambda>s. sf_code s \<notin> set cs) xs"
    using assms(3) unfolding inject_watchlist_def Let_def
    by (simp only: inject_unsorted sort_key_partition filter_append if_False filter_not_watch_stock
        append_Nil2)
  then show "\<exists>ws. inject_watchlist cs xs = ws @ filter (\<lambda>s. sf_code s \<notin> set cs) xs
      \<and> (\<forall>s \<in> set ws. watched s)" by auto
qed

text \<open>
  The set of existing codes is not extended in the loop: a watched code that is not
  among the merged stocks appears in the result as often as in the watch list.
\<close>

theorem inject_watchlist_duplicates:
  assumes "c \<notin> set (map sf_code xs)"
  shows "count (mset (map sf_code (inject_watchlist cs xs))) c = count_list cs c"
proof -
  have "count (mset (map sf_code xs)) c = 0" using assms by (simp only: count_mset_0_iff not_False_eq_True)
  moreover have "count_list (filter (\<lambda>c. c \<notin> set (map sf_code xs)) cs) c = count_list cs c"
    using assms by (induction cs) auto
  ultimately show ?thesis by (simp only: codes_inject count_union count_mset add_0)
qed

text \<open>
  A run of the filter that returns: the scanned total is the number of B1 items, and the
  codes are those that passed a screening or are on the watch list.
\<close>

theorem execute_result:
  assumes "execute env debug = Inr r" "fe_b1 env debug = Inr b1" "fe_b2 env (b2_pool b1) = Inr b2"
  shows "fr_total_scanned r = length b1 \<and> fr_date r = fe_today env
    \<and> set (map sf_code (fr_stocks r)) = passing_codes b1 b2 \<union> set (load_watchlist (fe_watch env))"
proof -
  obtain xs where xs: "merge_results b1 b2 = Inr xs"
    and r: "r = \<lparr>fr_date = fe_today env, fr_total_scanned = length b1,
      fr_stocks = inject_watchlist (load_watchlist (fe_watch env)) xs\<rparr>"
    using assms by (auto simp: execute_def split: option.splits sum.splits)
  have "set (map sf_code xs) = set (map sf_code (map snd (merged_dict b1 b2)))"
    using merge_results_Inr [OF xs] by (simp add: image_image)
  then have "set (map sf_code xs) = passing_codes b1 b2" by (simp only: merged_codes merged_dkeys)
  then show ?thesis
    using set_codes_inject [of "load_watchlist (fe_watch env)" xs] by (simp only: r filter_results.simps)
qed


section \<open>The CSV table of B1\<close>

lemma set_fold_add_field: "set (fold add_field ks fs) = set fs \<union> set ks"
  by (induction ks arbitrary: fs) (auto simp: add_field_def)

lemma distinct_fold_add_field: "distinct fs \<Longrightarrow> distinct (fold add_field ks fs)"
  by (induction ks arbitrary: fs) (auto simp: add_field_def)

definition b1_base :: "ustr list" where
  "b1_base = [csv_code, csv_name, csv_exchange, csv_status, csv_result, csv_message]"

lemma distinct_b1_base: "distinct b1_base" by code_simp

lemma set_b1_fields:
  "set (b1_fields rs) = set b1_base \<union> (\<Union>r \<in> set rs. set (dkeys (or_default (b1_details r) [])))"
proof -
  have "set (fold (\<lambda>r. fold add_field (dkeys (or_default (b1_details r) []))) rs fs) =
    set fs \<union> (\<Union>r \<in> set rs. set (dkeys (or_default (b1_details r) [])))" for fs
    by (induction rs arbitrary: fs) (auto simp: set_fold_add_field simp del: set_map)
  from this [of b1_base] show ?thesis by (simp only: b1_fields_def b1_base_def)
qed

lemma distinct_b1_fields: "distinct (b1_fields rs)"
  unfolding b1_fields_def
  by (rule fold_keeps) (use distinct_b1_base in \<open>simp_all add: b1_base_def distinct_fold_add_field\<close>)

text \<open>
  The columns of the B1 table are distinct, every line has one cell per column, and every
  entry of every item's details is found in its line under its key, a detail of a base name
  included (it overrides the base cell).
\<close>

theorem save_csv_faithful:
  assumes "save_csv rs = (fs, lines)" "i < length rs"
    "distinct (dkeys (or_default (b1_details (rs ! i)) []))"
    "dget (or_default (b1_details (rs ! i)) []) k = Some v"
  shows "distinct fs \<and> length lines = length rs \<and> length (lines ! i) = length fs
    \<and> (\<exists>j < length fs. fs ! j = k \<and> lines ! i ! j = v)"
proof -
  have fs: "fs = b1_fields rs" and ls: "lines = map (\<lambda>r. csv_line fs (b1_row r)) rs"
    using assms(1) by (auto simp: save_csv_def)
  have "k \<in> set (dkeys (or_default (b1_details (rs ! i)) []))"
    using assms(4) by (metis dget_None_iff option.distinct(1))
  then have "k \<in> set fs" using assms(2) unfolding fs set_b1_fields by (blast intro: nth_mem)
  then obtain j where j: "j < length fs" "fs ! j = k" by (auto simp: in_set_conv_nth)
  have "dget (b1_row (rs ! i)) k = Some v"
    using assms(3,4) by (simp add: b1_row_def dget_dupdate)
  then have "lines ! i ! j = v"
    using j assms(2) by (simp add: ls csv_line_def dget_default_def)
  then show ?thesis using j assms(2) distinct_b1_fields by (auto simp: fs ls csv_line_def)
qed

section \<open>Witnesses\<close>

definition ex_raw :: "string \<Rightarrow> raw_stock" where
  "ex_raw c = \<lparr>rs_code = Some c, rs_name = Some (ustr_of c), rs_exchange = None\<rparr>"

definition ex_b1 :: "b1_item list" where
  "ex_b1 = [\<lparr>b1_stock = Some (ex_raw ''600001.SH''), b1_status = Some ''success'',
       b1_result = Some True, b1_message = None, b1_details = Some [(k_total_score, VInt 2)]\<rparr>,
     \<lparr>b1_stock = Some (ex_raw ''600002.SH''), b1_status = Some ''success'',
       b1_result = Some True, b1_message = None, b1_details = Some [(k_total_score, VFloat (7/2))]\<rparr>,
     \<lparr>b1_stock = Some (ex_raw ''600003.SH''), b1_status = Some ''success'',
       b1_result = Some False, b1_message = None, b1_details = None\<rparr>]"

definition ex_b2 :: "b2_item list" where
  "ex_b2 = [\<lparr>b2_stock = Some (ex_raw ''600001.SH''), b2_status = Some ''success'',
       b2_strict = Some True, b2_loose = Some True, b2_details = Some [(k_close, VFloat 12)]\<rparr>,
     \<lparr>b2_stock = Some (ex_raw ''600003.SH''), b2_status = Some ''success'',
       b2_strict = Some True, b2_loose = None, b2_details = None\<rparr>]"

lemma ex_merge: "case merge_results ex_b1 ex_b2 of Inl _ \<Rightarrow> False
  | Inr xs \<Rightarrow> map sf_code xs = [''600003.SH'', ''600001.SH'', ''600002.SH'']
      \<and> map sf_tags xs = [[TagB2Strict], [TagB1, TagB2Strict, TagB2Loose], [TagB1]]"
  by code_simp

lemma ex_merge_Inr:
  obtains xs where "merge_results ex_b1 ex_b2 = Inr xs"
    "map sf_code xs = [''600003.SH'', ''600001.SH'', ''600002.SH'']"
    "map sf_tags xs = [[TagB2Strict], [TagB1, TagB2Strict, TagB2Loose], [TagB1]]"
  using ex_merge by (cases "merge_results ex_b1 ex_b2") auto

theorem merge_results_exact_witness:
  "\<exists>xs. merge_results ex_b1 ex_b2 = Inr xs
     \<and> map sf_code xs = [''600003.SH'', ''600001.SH'', ''600002.SH'']
     \<and> set (map sf_code xs) = passing_codes ex_b1 ex_b2"
proof -
  obtain xs where xs: "merge_results ex_b1 ex_b2 = Inr xs"
    "map sf_code xs = [''600003.SH'', ''600001.SH'', ''600002.SH'']"
    by (rule ex_merge_Inr)
  then show ?thesis using merge_results_exact [OF xs(1)] by (intro exI [of _ xs]) simp
qed

theorem merge_results_sorted_witness:
  "\<exists>xs. merge_results ex_b1 ex_b2 = Inr xs \<and> length xs = 3
     \<and> sorted_wrt (\<lambda>s t. priority t < priority s \<or> priority s = priority t
         \<and> or_default (b1_score t) 0 \<le> or_default (b1_score s) 0) xs"
proof -
  obtain xs where xs: "merge_results ex_b1 ex_b2 = Inr xs"
    "map sf_code xs = [''600003.SH'', ''600001.SH'', ''600002.SH'']"
    by (rule ex_merge_Inr)
  from xs(2) have "length xs = 3" by (metis length_map length_Cons list.size(3) numeral_3_eq_3)
  with xs(1) merge_results_sorted [OF xs(1)] show ?thesis by blast
qed

lemma ex_inject:
  "map sf_code (inject_watchlist [''600005'', ''600002''] [watch_stock ''600001''\<lparr>sf_tags := [TagB1]\<rparr>,
       watch_stock ''600002''\<lparr>sf_tags := [TagB1]\<rparr>]) = [''600002'', ''600005'', ''600001'']"
  by code_simp

theorem inject_watchlist_exact_witness:
  "map sf_code (inject_watchlist [''600005'', ''600002''] [watch_stock ''600001''\<lparr>sf_tags := [TagB1]\<rparr>,
       watch_stock ''600002''\<lparr>sf_tags := [TagB1]\<rparr>]) = [''600002'', ''600005'', ''600001'']
   \<and> distinct (map sf_code (inject_watchlist [''600005'', ''600002'']
       [watch_stock ''600001''\<lparr>sf_tags := [TagB1]\<rparr>, watch_stock ''600002''\<lparr>sf_tags := [TagB1]\<rparr>]))"
  using inject_watchlist_exact [of "[watch_stock ''600001''\<lparr>sf_tags := [TagB1]\<rparr>,
      watch_stock ''600002''\<lparr>sf_tags := [TagB1]\<rparr>]" "[''600005'', ''600002'']"]
  using ex_inject by (simp add: watched_def watch_stock_def)

theorem inject_watchlist_duplicates_witness:
  "count (mset (map sf_code (inject_watchlist [''600005'', ''600005''] []))) ''600005'' = 2"
  using inject_watchlist_duplicates [of "''600005''" "[]" "[''600005'', ''600005'']"] by simp

definition ex_env :: filter_env where
  "ex_env = \<lparr>fe_today = 739000, fe_b1 = (\<lambda>_. Inr ex_b1), fe_save_b1 = (\<lambda>_. None),
     fe_b2 = (\<lambda>_. Inr ex_b2), fe_save_b2 = (\<lambda>_. None),
     fe_watch = WatchData (Some ['' 600009.SH '', ''  ''])\<rparr>"

theorem execute_result_witness:
  "\<exists>r. execute ex_env False = Inr r \<and> fr_total_scanned r = 3
     \<and> set (map sf_code (fr_stocks r)) = passing_codes ex_b1 ex_b2 \<union> {''600009.SH''}"
proof -
  have "is_ok (execute ex_env False)" by code_simp
  then obtain r where r: "execute ex_env False = Inr r" by (rule is_ok_E)
  have w: "load_watchlist (fe_watch ex_env) = [''600009.SH'']" by code_simp
  have "fr_total_scanned r = length ex_b1 \<and> fr_date r = fe_today ex_env
    \<and> set (map sf_code (fr_stocks r)) = passing_codes ex_b1 ex_b2 \<union> set (load_watchlist (fe_watch ex_env))"
    using execute_result [OF r, of ex_b1 ex_b2] by (simp add: ex_env_def)
  with r w show ?thesis by (auto simp: ex_b1_def)
qed

theorem save_csv_faithful_witness:
  "\<exists>fs lines. save_csv ex_b1 = (fs, lines) \<and> distinct fs
     \<and> (\<exists>j < length fs. fs ! j = k_total_score \<and> lines ! 1 ! j = VFloat (7/2))"
proof -
  obtain fs lines where e: "save_csv ex_b1 = (fs, lines)" by (cases "save_csv ex_b1")
  from save_csv_faithful [OF e, of 1 k_total_score "VFloat (7/2)"] e
  show ?thesis by (auto simp: ex_b1_def)
qed

end
