(* ===== verification/Czsc.thy ===== *)
theory Czsc
  imports Models
begin

text \<open>
  The scanner of \<open>pipeline/czsc_scanner.py\<close>: the stock pool without the boards and the
  stocks under special treatment, the daily bars of a stock, and the list of the stocks whose
  trend score reaches the threshold. The CZSC analysis itself (a package and the analyst's
  signal extraction) is a parameter, the files are values.
\<close>

section \<open>The pool\<close>

record pool_stock =
  ps_code :: string
  ps_name :: ustr
  ps_exchange :: "string option"

definition is_excluded :: "string \<Rightarrow> ustr \<Rightarrow> bool" where
  "is_excluded code name =
     (let c = before (CHR ''.'') code in
      if list_ex (startswith c) [''300'', ''301'', ''302'', ''688''] then True
      else if startswith name (ustr_of ''ST'') \<or> startswith name (ustr_of ''*ST'') then True
      else if contains [36864, 24066] name then True
      else False)"

text \<open>The stock list file: absent, unreadable (the exception escapes), or its list.\<close>

datatype pool_file = PoolAbsent | PoolRaises string | PoolData "pool_stock list"

definition load_stock_pool :: "pool_file \<Rightarrow> (string, pool_stock list) result" where
  "load_stock_pool f = (case f of PoolAbsent \<Rightarrow> Inr [] | PoolRaises e \<Rightarrow> Inl e
     | PoolData xs \<Rightarrow> Inr (filter (\<lambda>s. \<not> is_excluded (ps_code s) (ps_name s)) xs))"

section \<open>Bars and scores\<close>

text \<open>A bar of the file; a number that is missing or that \<open>float\<close> rejects is \<open>None\<close>.\<close>

record file_bar =
  kb_t :: string
  kb_o :: "pyfloat option"
  kb_c :: "pyfloat option"
  kb_h :: "pyfloat option"
  kb_l :: "pyfloat option"
  kb_v :: "pyfloat option"
  kb_a :: "pyfloat option"

record bar =
  br_dt :: string
  br_symbol :: string
  br_open :: pyfloat
  br_close :: pyfloat
  br_high :: pyfloat
  br_low :: pyfloat
  br_vol :: pyfloat
  br_amount :: pyfloat

definition bar_of :: "string \<Rightarrow> file_bar \<Rightarrow> bar option" where
  "bar_of code6 x = (case (kb_o x, kb_c x, kb_h x, kb_l x, kb_v x) of
     (Some op, Some cl, Some hi, Some lo, Some vo) \<Rightarrow>
        Some \<lparr>br_dt = kb_t x, br_symbol = code6, br_open = op, br_close = cl, br_high = hi,
              br_low = lo, br_vol = vo, br_amount = or_default (kb_a x) 0\<rparr>
     | _ \<Rightarrow> None)"

fun all_some :: "'a option list \<Rightarrow> 'a list option" where
  "all_some [] = Some []"
| "all_some (x # xs) = (case x of None \<Rightarrow> None
     | Some v \<Rightarrow> (case all_some xs of None \<Rightarrow> None | Some vs \<Rightarrow> Some (v # vs)))"

datatype bars_result = BarsRaise | BarsNone | Bars "bar list"

definition load_bars :: "string \<Rightarrow> file_bar list option \<Rightarrow> bars_result" where
  "load_bars code file = (case file of None \<Rightarrow> BarsNone
     | Some data \<Rightarrow> if length data < 120 then BarsNone
         else (case all_some (map (bar_of (before (CHR ''.'') code)) (last_n 250 data)) of
                 None \<Rightarrow> BarsRaise | Some bs \<Rightarrow> Bars bs))"

record czsc_signals =
  cz_trend_score :: int
  cz_trend :: ustr
  cz_buy :: "ustr list"
  cz_sell :: "ustr list"

text \<open>\<open>analyse\<close> stands for the package and the signal extraction; \<open>None\<close> is an exception.\<close>

definition compute_trend_score ::
  "(bar list \<Rightarrow> czsc_signals option) \<Rightarrow> (string \<Rightarrow> file_bar list option) \<Rightarrow> string
    \<Rightarrow> czsc_signals option" where
  "compute_trend_score analyse files code = (case load_bars code (files code) of
     BarsRaise \<Rightarrow> None | BarsNone \<Rightarrow> None | Bars bs \<Rightarrow> analyse bs)"

definition default_threshold :: int where
  "default_threshold = 8"

definition high_stock :: "pool_stock \<Rightarrow> czsc_signals \<Rightarrow> stock_filter_data" where
  "high_stock s g = \<lparr>sf_code = ps_code s, sf_name = ps_name s,
     sf_exchange = or_default (ps_exchange s) [], sf_result = True, sf_tags = [TagCzscHigh],
     sf_details = [(k_czsc_score, VInt (cz_trend_score g)), (k_czsc_trend, VStr (cz_trend g)),
       (k_buy_signals, VList (cz_buy g)), (k_sell_signals, VList (cz_sell g))]\<rparr>"

fun scan_loop :: "int \<Rightarrow> (string \<Rightarrow> czsc_signals option) \<Rightarrow> pool_stock list
    \<Rightarrow> stock_filter_data list \<Rightarrow> stock_filter_data list" where
  "scan_loop th score [] acc = acc"
| "scan_loop th score (s # ss) acc = (case score (ps_code s) of
      None \<Rightarrow> scan_loop th score ss acc
    | Some g \<Rightarrow> scan_loop th score ss
        (if th \<le> cz_trend_score g then acc @ [high_stock s g] else acc))"

definition scan_high_score :: "int \<Rightarrow> pool_file \<Rightarrow> (string \<Rightarrow> czsc_signals option)
    \<Rightarrow> (string, stock_filter_data list \<times> nat) result" where
  "scan_high_score th f score = (case load_stock_pool f of Inl e \<Rightarrow> Inl e
     | Inr pool \<Rightarrow> Inr (scan_loop th score pool [], length pool))"

section \<open>Facts\<close>

lemma scan_loop_acc: "scan_loop th score ss acc = acc @ scan_loop th score ss []"
proof (induction ss arbitrary: acc)
  case (Cons s ss)
  show ?case
    by (simp split: option.split)
      (metis Cons append.assoc append_Nil)
qed simp

lemma scan_loop_eq:
  "scan_loop th score ss [] = List.map_filter (\<lambda>s. case score (ps_code s) of None \<Rightarrow> None
     | Some g \<Rightarrow> if th \<le> cz_trend_score g then Some (high_stock s g) else None) ss"
proof (induction ss)
  case (Cons s ss)
  then show ?case
    using scan_loop_acc [of th score ss "[high_stock s _]"]
    by (auto simp: map_filter_simps split: option.splits)
qed (simp add: map_filter_simps)

lemma set_scan_loop:
  "x \<in> set (scan_loop th score ss []) \<longleftrightarrow>
     (\<exists>s g. s \<in> set ss \<and> score (ps_code s) = Some g \<and> th \<le> cz_trend_score g \<and> x = high_stock s g)"
  unfolding scan_loop_eq by (force simp: map_filter_def split: option.splits if_splits)

text \<open>
  The scan reports exactly the stocks of the list that are not excluded and whose score
  reaches the threshold, and the number of the stocks that are not excluded; no reported code
  is of an excluded board.
\<close>

theorem scan_high_score_exact:
  "\<exists>xs. scan_high_score th (PoolData pool) score =
      Inr (xs, length (filter (\<lambda>s. \<not> is_excluded (ps_code s) (ps_name s)) pool))
    \<and> (\<forall>x. x \<in> set xs = (\<exists>s g. s \<in> set pool \<and> \<not> is_excluded (ps_code s) (ps_name s)
          \<and> score (ps_code s) = Some g \<and> th \<le> cz_trend_score g \<and> x = high_stock s g))"
  by (auto simp: scan_high_score_def load_stock_pool_def set_scan_loop)

end
