(* ===== verification/PyTime.thy ===== *)
theory PyTime
  imports Prelude
begin

text \<open>
  Dates and datetimes of Python. A \<open>date\<close> is its proleptic Gregorian ordinal
  (\<open>date.toordinal\<close>, 1 is Monday 0001-01-01), a time of day is a number of microseconds since
  midnight, a naive datetime is a pair of both, ordered as Python orders datetimes. The
  calendar text of a date is never computed with, so the ordinal stands for it.
\<close>

type_synonym date = int

datatype pydatetime = DateTime (dt_date: date) (dt_time: int)

instantiation pydatetime :: linorder
begin

definition less_eq_pydatetime :: "pydatetime \<Rightarrow> pydatetime \<Rightarrow> bool" where
  "less_eq_pydatetime a b \<longleftrightarrow>
     dt_date a < dt_date b \<or> dt_date a = dt_date b \<and> dt_time a \<le> dt_time b"

definition less_pydatetime :: "pydatetime \<Rightarrow> pydatetime \<Rightarrow> bool" where
  "less_pydatetime a b \<longleftrightarrow>
     dt_date a < dt_date b \<or> dt_date a = dt_date b \<and> dt_time a < dt_time b"

instance
  by standard (auto simp: less_eq_pydatetime_def less_pydatetime_def intro: pydatetime.expand)

end

text \<open>\<open>date.weekday()\<close>: Monday is 0.\<close>

definition weekday :: "date \<Rightarrow> int" where
  "weekday d = (d + 6) mod 7"

definition hms :: "int \<Rightarrow> int \<Rightarrow> int \<Rightarrow> int" where
  "hms h m s = ((h * 60 + m) * 60 + s) * 1000000"

text \<open>A time of day is at least zero and less than 24 hours.\<close>

definition time_ok :: "pydatetime \<Rightarrow> bool" where
  "time_ok t \<longleftrightarrow> 0 \<le> dt_time t \<and> dt_time t < hms 24 0 0"

text \<open>The microseconds from ordinal 0, for adding and subtracting time spans.\<close>

definition dt_micros :: "pydatetime \<Rightarrow> int" where
  "dt_micros t = dt_date t * hms 24 0 0 + dt_time t"

definition dt_of_micros :: "int \<Rightarrow> pydatetime" where
  "dt_of_micros n = DateTime (n div hms 24 0 0) (n mod hms 24 0 0)"

definition dt_add :: "pydatetime \<Rightarrow> int \<Rightarrow> pydatetime" where
  "dt_add t us = dt_of_micros (dt_micros t + us)"

lemma weekday_range: "0 \<le> weekday d \<and> weekday d < 7"
  by (simp add: weekday_def)

lemma dt_micros_of_micros [simp]: "dt_micros (dt_of_micros n) = n"
  by (simp add: dt_micros_def dt_of_micros_def)

lemma dt_micros_add [simp]: "dt_micros (dt_add t us) = dt_micros t + us"
  by (simp add: dt_add_def)

lemma dt_of_micros_ok [simp]: "time_ok (dt_of_micros n)"
  by (simp add: time_ok_def dt_of_micros_def hms_def)

lemma dt_of_micros_micros: "time_ok t \<Longrightarrow> dt_of_micros (dt_micros t) = t"
  by (cases t) (simp add: time_ok_def dt_of_micros_def dt_micros_def hms_def)

lemma dt_less_micros:
  assumes "time_ok a" "time_ok b"
  shows "a < b \<longleftrightarrow> dt_micros a < dt_micros b"
  using assms by (auto simp: time_ok_def less_pydatetime_def dt_micros_def hms_def)

lemma dt_le_micros:
  assumes "time_ok a" "time_ok b"
  shows "a \<le> b \<longleftrightarrow> dt_micros a \<le> dt_micros b"
  using dt_less_micros [OF assms(2,1)] by (simp add: not_less [symmetric])

end
