(* ===== verification/Orchestrator.thy ===== *)
theory Orchestrator
  imports Czsc PyTime DispatchProofs FilterRunner "HOL-Library.Char_ord"
begin

text \<open>
  The orchestrator of \<open>pipeline/orchestrator.py\<close>: trading days, the run of the whole pipeline
  (filter, CZSC scan, initial report, dispatch, final report) and the two scheduled jobs. The
  answers of the report generator, of the health check and of the calendar package are
  parameters; the dispatch is the state in which \<open>StockDispatchQueue.run\<close> returned.
\<close>

section \<open>Trading days\<close>

text \<open>\<open>chinese_calendar\<close>: not installed, raising (a year it does not know), or its answer.\<close>

datatype calendar_answer = CalAbsent | CalRaises string | CalHoliday bool

definition is_date_trading_day :: "(date \<Rightarrow> calendar_answer) \<Rightarrow> date \<Rightarrow> (string, bool) result" where
  "is_date_trading_day cal d = (if 5 \<le> weekday d then Inr False
     else (case cal d of CalAbsent \<Rightarrow> Inr True | CalRaises e \<Rightarrow> Inl e | CalHoliday h \<Rightarrow> Inr (\<not> h)))"

fun trading_day_loop :: "(date \<Rightarrow> calendar_answer) \<Rightarrow> nat \<Rightarrow> date \<Rightarrow> (string, date) result" where
  "trading_day_loop cal 0 c = Inr c"
| "trading_day_loop cal (Suc n) c = (case is_date_trading_day cal c of Inl e \<Rightarrow> Inl e
     | Inr ok \<Rightarrow> if ok then Inr c else trading_day_loop cal n (c + 1))"

definition market_open :: "date \<Rightarrow> pydatetime" where
  "market_open d = DateTime d (hms 9 30 0)"

definition first_candidate :: "pydatetime \<Rightarrow> date" where
  "first_candidate now = (if now < market_open (dt_date now) then dt_date now else dt_date now + 1)"

definition next_trading_day :: "(date \<Rightarrow> calendar_answer) \<Rightarrow> pydatetime \<Rightarrow> (string, date) result" where
  "next_trading_day cal now = trading_day_loop cal 10 (first_candidate now)"

section \<open>The environment of a run\<close>

text \<open>
  How the dispatch ended: an exception before or in \<open>run\<close> with the state at that point, or the
  state at its return. The generators answer the path of the report or raise; the answer for
  the final report includes \<open>generate_index\<close>.
\<close>

record run_env =
  re_calendar :: "date \<Rightarrow> calendar_answer"
  re_now :: pydatetime
  re_filter :: "bool \<Rightarrow> (string, filter_results) result"
  re_czsc :: "(string, stock_filter_data list \<times> nat) result"
  re_empty_report :: "int \<Rightarrow> (string, string) result"
  re_available :: bool
  re_dispatch :: "dispatch \<Rightarrow> stock_filter_data list \<Rightarrow> bool \<times> dstate"
  re_final_report :: "filter_results \<Rightarrow> (string, stock_analysis_result) dict \<Rightarrow> (string, string) result"

datatype run_error = RunFilterFailed string | RunFilterEmpty | RunRaises string

section \<open>The CZSC channel\<close>

definition czsc_tag :: "stock_filter_data \<Rightarrow> stock_filter_data \<Rightarrow> stock_filter_data" where
  "czsc_tag cs s = (if sf_code s = sf_code cs
     then s\<lparr>sf_tags := (if TagCzscHigh \<in> set (sf_tags s) then sf_tags s
                        else sf_tags s @ [TagCzscHigh]),
            sf_details := dupdate (sf_details s) (sf_details cs)\<rparr>
     else s)"

definition czsc_one :: "string set \<Rightarrow> stock_filter_data \<Rightarrow> stock_filter_data list
    \<Rightarrow> stock_filter_data list" where
  "czsc_one ex cs xs = (if sf_code cs \<in> ex then map (czsc_tag cs) xs else xs @ [cs])"

definition czsc_merge :: "(string, stock_filter_data list \<times> nat) result \<Rightarrow> filter_results
    \<Rightarrow> filter_results" where
  "czsc_merge answer r = (case answer of Inl _ \<Rightarrow> r
     | Inr (highs, pool_size) \<Rightarrow>
         r\<lparr>fr_stocks := fold (czsc_one (set (map sf_code (fr_stocks r)))) highs (fr_stocks r),
           fr_total_scanned := max (fr_total_scanned r) pool_size\<rparr>)"

section \<open>The run\<close>

text \<open>The report date: the target, or the next trading day from now.\<close>

definition report_date :: "run_env \<Rightarrow> date option \<Rightarrow> (run_error, date) result" where
  "report_date env target = (case target of Some d \<Rightarrow> Inr d
     | None \<Rightarrow> (case next_trading_day (re_calendar env) (re_now env) of
                 Inl e \<Rightarrow> Inl (RunRaises e) | Inr d \<Rightarrow> Inr d))"

definition screen :: "run_env \<Rightarrow> bool \<Rightarrow> date \<Rightarrow> (run_error, filter_results) result" where
  "screen env debug d = (case re_filter env debug of
       Inl e \<Rightarrow> Inl (RunFilterFailed e)
     | Inr r0 \<Rightarrow> let r = r0\<lparr>fr_date := d\<rparr> in
         if fr_total_scanned r = 0 \<and> fr_stocks r = [] then Inl RunFilterEmpty
         else Inr (czsc_merge (re_czsc env) r))"

text \<open>The dictionaries that the callback \<open>on_result\<close> fills, one call after the other.\<close>

definition analysis_results :: "dstate \<Rightarrow> (string, stock_analysis_result) dict" where
  "analysis_results s = fold (\<lambda>(x, r, w, a) d. dset (sf_code x) r d) (d_results s) []"

definition result_workers :: "dstate \<Rightarrow> (string, string) dict" where
  "result_workers s = fold (\<lambda>(x, r, w, a) d. dset (sf_code x) w d) (d_results s) []"

definition no_dispatch :: dstate where
  "no_dispatch = init_dispatch \<lparr>dp_workers = [], dp_cfg = default_dispatch, dp_deadline = None\<rparr>"

text \<open>
  The AI analysis: skipped when the service is unavailable. An exception keeps what the
  callbacks have collected, but \<open>on_all_done\<close> is then not called and the list of dead workers
  stays empty.
\<close>

definition analyse :: "run_env \<Rightarrow> dispatch \<Rightarrow> filter_results \<Rightarrow> dstate \<times> string list" where
  "analyse env p r = (if \<not> re_available env then (no_dispatch, [])
     else (case re_dispatch env p (fr_stocks r) of
             (raised, s) \<Rightarrow> (s, if raised then [] else sorted_list_of_set (d_dead s))))"

definition failed_outcome :: "worker_outcome \<Rightarrow> bool" where
  "failed_outcome x \<longleftrightarrow> wo_status x = WoFailed \<or> wo_status x = WoTimeout \<or> wo_status x = WoDeadSkipped"

definition final_result :: "run_env \<Rightarrow> filter_results \<Rightarrow> dstate \<Rightarrow> string list \<Rightarrow> pipeline_result" where
  "final_result env r s dead = (let res = analysis_results s;
       base = \<lparr>pr_date = fr_date r, pr_total_scanned = fr_total_scanned r,
         pr_total_filtered = total_passed r, pr_analysis_completed = length res,
         pr_analysis_failed = length (filter failed_outcome (d_extras s)), pr_report_path = [],
         pr_success = False, pr_error_message = None, pr_primary_by = result_workers s,
         pr_extras = d_extras s, pr_dead_workers = dead\<rparr> in
     (case re_final_report env r res of
        Inl e \<Rightarrow> base\<lparr>pr_error_message := Some (EReport e)\<rparr>
      | Inr path \<Rightarrow> base\<lparr>pr_report_path := path, pr_success := True\<rparr>))"

definition empty_result :: "filter_results \<Rightarrow> string \<Rightarrow> pipeline_result" where
  "empty_result r path = \<lparr>pr_date = fr_date r, pr_total_scanned = fr_total_scanned r,
     pr_total_filtered = 0, pr_analysis_completed = 0, pr_analysis_failed = 0,
     pr_report_path = path, pr_success = True, pr_error_message = None, pr_primary_by = [],
     pr_extras = [], pr_dead_workers = []\<rparr>"

definition run :: "run_env \<Rightarrow> worker_spec list \<Rightarrow> dispatch_config \<Rightarrow> date option
    \<Rightarrow> pydatetime option \<Rightarrow> bool \<Rightarrow> (run_error, pipeline_result) result" where
  "run env workers cfg target deadline debug =
     (case report_date env target of Inl e \<Rightarrow> Inl e | Inr d \<Rightarrow>
     (case screen env debug d of Inl e \<Rightarrow> Inl e | Inr r \<Rightarrow>
      if total_passed r = 0 then
        (case re_empty_report env (fr_date r) of
           Inl e \<Rightarrow> Inl (RunRaises e) | Inr path \<Rightarrow> Inr (empty_result r path))
      else
        (case analyse env \<lparr>dp_workers = workers, dp_cfg = cfg,
             dp_deadline = map_option dt_micros deadline\<rparr> r of
           (s, dead) \<Rightarrow> Inr (final_result env r s dead))))"

section \<open>The scheduled jobs\<close>

text \<open>
  \<open>_run_pipeline\<close>: skip when tomorrow is no trading day, else the target and the deadline
  (tomorrow 09:00) with which \<open>run\<close> is called. \<open>_run_researcher\<close>: whether it runs today.
\<close>

definition scheduled_target :: "(date \<Rightarrow> calendar_answer) \<Rightarrow> date
    \<Rightarrow> (string, (date \<times> pydatetime) option) result" where
  "scheduled_target cal today = (case is_date_trading_day cal (today + 1) of
     Inl e \<Rightarrow> Inl e
   | Inr ok \<Rightarrow> Inr (if ok then Some (today + 1, DateTime (today + 1) (hms 9 0 0)) else None))"

definition run_pipeline :: "run_env \<Rightarrow> worker_spec list \<Rightarrow> dispatch_config \<Rightarrow> date
    \<Rightarrow> (string, (run_error, pipeline_result) result option) result" where
  "run_pipeline env workers cfg today = (case scheduled_target (re_calendar env) today of
     Inl e \<Rightarrow> Inl e
   | Inr None \<Rightarrow> Inr None
   | Inr (Some (target, deadline)) \<Rightarrow> Inr (Some (run env workers cfg (Some target) (Some deadline) False)))"

definition run_researcher :: "(date \<Rightarrow> calendar_answer) \<Rightarrow> date \<Rightarrow> (string, bool) result" where
  "run_researcher cal today = is_date_trading_day cal today"

end
