(* ===== verification/OrchestratorProofs.thy ===== *)
theory OrchestratorProofs
  imports Orchestrator
begin

text \<open>
  The next trading day is the first one from its candidate, the scheduler's target agrees with
  it except in the early morning, the CZSC channel loses no stock, only the named failures
  make a run raise, and on a normal end every filtered stock is counted once.
\<close>

section \<open>Trading days\<close>

definition trading :: "(date \<Rightarrow> calendar_answer) \<Rightarrow> date \<Rightarrow> bool" where
  "trading cal d \<longleftrightarrow> is_date_trading_day cal d = Inr True"

definition answers :: "(date \<Rightarrow> calendar_answer) \<Rightarrow> date \<Rightarrow> bool" where
  "answers cal d \<longleftrightarrow> is_ok (is_date_trading_day cal d)"

lemma answers_not_trading: "answers cal d \<Longrightarrow> \<not> trading cal d \<Longrightarrow> is_date_trading_day cal d = Inr False"
  by (cases "is_date_trading_day cal d") (auto simp: answers_def trading_def)

lemma trading_day_loop_first:
  assumes "\<forall>d \<in> {c..<c + int n}. answers cal d"
  shows "\<exists>t. trading_day_loop cal n c = Inr t \<and> c \<le> t \<and> t \<le> c + int n
    \<and> (\<forall>d \<in> {c..<t}. \<not> trading cal d) \<and> (t < c + int n \<longrightarrow> trading cal t)"
  using assms
proof (induction n arbitrary: c)
  case (Suc n)
  show ?case
  proof (cases "trading cal c")
    case True
    then show ?thesis by (auto simp: trading_def)
  next
    case False
    have "answers cal c" using Suc.prems by auto
    with False have f: "is_date_trading_day cal c = Inr False" by (simp add: answers_not_trading)
    have "\<forall>d \<in> {c + 1..<c + 1 + int n}. answers cal d" using Suc.prems by auto
    from Suc.IH [OF this] obtain t where t: "trading_day_loop cal n (c + 1) = Inr t"
      "c + 1 \<le> t" "t \<le> c + 1 + int n" "\<forall>d \<in> {c + 1..<t}. \<not> trading cal d"
      "t < c + 1 + int n \<longrightarrow> trading cal t" by blast
    have "\<forall>d \<in> {c..<t}. \<not> trading cal d"
    proof
      fix d assume "d \<in> {c..<t}"
      then show "\<not> trading cal d" using False t(4) by (cases "d = c") auto
    qed
    with t f show ?thesis by auto
  qed
qed simp

text \<open>
  When the calendar answers for ten days from the candidate (today before 09:30, else
  tomorrow), the next trading day is the first trading day from the candidate on; only when
  none of the ten days is one, it is the eleventh day, unchecked.
\<close>

theorem next_trading_day_first:
  assumes "\<forall>d \<in> {first_candidate now..<first_candidate now + 10}. answers cal d"
  shows "\<exists>t. next_trading_day cal now = Inr t
    \<and> (\<forall>d \<in> {first_candidate now..<t}. \<not> trading cal d)
    \<and> (trading cal t \<or> t = first_candidate now + 10)"
  using trading_day_loop_first [of "first_candidate now" 10 cal] assms
  by (auto simp: next_trading_day_def)

theorem next_trading_day_first_witness:
  "next_trading_day (\<lambda>_. CalAbsent) (DateTime 738890 (hms 10 0 0)) = Inr 738893
   \<and> (\<exists>t. next_trading_day (\<lambda>_. CalAbsent) (DateTime 738890 (hms 10 0 0)) = Inr t
       \<and> (trading (\<lambda>_. CalAbsent) t
         \<or> t = first_candidate (DateTime 738890 (hms 10 0 0)) + 10))"
proof -
  have "next_trading_day (\<lambda>_. CalAbsent) (DateTime 738890 (hms 10 0 0)) = Inr 738893"
    by code_simp
  moreover have "answers (\<lambda>_. CalAbsent) d" for d
    by (simp add: answers_def is_date_trading_day_def)
  ultimately show ?thesis
    using next_trading_day_first [of "DateTime 738890 (hms 10 0 0)" "\<lambda>_. CalAbsent"] by blast
qed

text \<open>
  The scheduled job takes tomorrow as its target. From 09:30 on this is what
  \<open>next_trading_day\<close> gives; before 09:30 on a trading day it is one day later than the report
  date that \<open>next_trading_day\<close> gives for the same moment.
\<close>

theorem scheduled_target_vs_next:
  assumes "time_ok now" "trading cal (dt_date now + 1)"
  shows "(market_open (dt_date now) \<le> now \<longrightarrow>
      scheduled_target cal (dt_date now) =
        Inr (Some (dt_date now + 1, DateTime (dt_date now + 1) (hms 9 0 0)))
      \<and> next_trading_day cal now = Inr (dt_date now + 1))
    \<and> (now < market_open (dt_date now) \<and> trading cal (dt_date now) \<longrightarrow>
      next_trading_day cal now = Inr (dt_date now)
      \<and> scheduled_target cal (dt_date now) =
        Inr (Some (dt_date now + 1, DateTime (dt_date now + 1) (hms 9 0 0))))"
  using assms
  by (auto simp: scheduled_target_def next_trading_day_def first_candidate_def trading_def
    eval_nat_numeral not_less)

theorem scheduled_target_vs_next_witness:
  "next_trading_day (\<lambda>_. CalAbsent) (DateTime 738886 (hms 1 0 0)) = Inr 738886
   \<and> scheduled_target (\<lambda>_. CalAbsent) 738886 = Inr (Some (738887, DateTime 738887 (hms 9 0 0)))"
  using scheduled_target_vs_next [of "DateTime 738886 (hms 1 0 0)" "\<lambda>_. CalAbsent"]
  by (simp add: time_ok_def hms_def trading_def is_date_trading_day_def weekday_def
    less_pydatetime_def market_open_def)

section \<open>The CZSC channel\<close>

lemma czsc_tag_code [simp]: "sf_code (czsc_tag c s) = sf_code s"
  by (simp add: czsc_tag_def)

interpretation czsc: code_merge czsc_one sf_code
  by unfold_locales (simp add: czsc_one_def comp_def)

lemma czsc_tag_keeps:
  "TagCzscHigh \<in> set (sf_tags s) \<Longrightarrow> TagCzscHigh \<in> set (sf_tags (czsc_tag c s))"
  "t \<in> set (sf_tags s) \<Longrightarrow> t \<in> set (sf_tags (czsc_tag c s))"
  by (auto simp: czsc_tag_def)

lemma czsc_tag_new:
  "sf_code s = sf_code c \<Longrightarrow> TagCzscHigh \<in> set (sf_tags (czsc_tag c s))"
  by (simp add: czsc_tag_def)

lemma fold_czsc_tagged_keeps:
  assumes "\<forall>s \<in> set xs. sf_code s = c \<longrightarrow> TagCzscHigh \<in> set (sf_tags s)"
    and "\<forall>h \<in> set hs. TagCzscHigh \<in> set (sf_tags h)"
  shows "\<forall>s \<in> set (fold (czsc_one ex) hs xs). sf_code s = c \<longrightarrow> TagCzscHigh \<in> set (sf_tags s)"
  using assms
proof (induction hs arbitrary: xs)
  case (Cons h hs)
  have "\<forall>s \<in> set (czsc_one ex h xs). sf_code s = c \<longrightarrow> TagCzscHigh \<in> set (sf_tags s)"
    using Cons.prems by (auto simp: czsc_one_def intro: czsc_tag_keeps)
  with Cons show ?case by simp
qed simp

lemma fold_czsc_tagged:
  assumes "h \<in> set hs" "\<forall>h \<in> set hs. TagCzscHigh \<in> set (sf_tags h)"
    "sf_code h \<notin> ex \<longrightarrow> (\<forall>s \<in> set xs. sf_code s = sf_code h \<longrightarrow> TagCzscHigh \<in> set (sf_tags s))"
  shows "\<forall>s \<in> set (fold (czsc_one ex) hs xs). sf_code s = sf_code h \<longrightarrow> TagCzscHigh \<in> set (sf_tags s)"
  using assms
proof (induction hs arbitrary: xs)
  case (Cons g hs)
  show ?case
  proof (cases "sf_code g = sf_code h")
    case True
    have "\<forall>s \<in> set (czsc_one ex g xs). sf_code s = sf_code h \<longrightarrow> TagCzscHigh \<in> set (sf_tags s)"
    proof (cases "sf_code g \<in> ex")
      case True
      then show ?thesis using \<open>sf_code g = sf_code h\<close> by (simp add: czsc_one_def czsc_tag_new)
    next
      case False
      then show ?thesis using \<open>sf_code g = sf_code h\<close> Cons.prems by (simp add: czsc_one_def)
    qed
    moreover have "\<forall>h \<in> set hs. TagCzscHigh \<in> set (sf_tags h)" using Cons.prems(2) by simp
    ultimately show ?thesis unfolding fold_simps by (rule fold_czsc_tagged_keeps)
  next
    case False
    with Cons.prems(1) have "h \<in> set hs" by auto
    moreover have "sf_code h \<notin> ex \<longrightarrow>
      (\<forall>s \<in> set (czsc_one ex g xs). sf_code s = sf_code h \<longrightarrow> TagCzscHigh \<in> set (sf_tags s))"
      using False Cons.prems(3) by (simp add: czsc_one_def czsc_tag_keeps)
    moreover have "\<forall>h \<in> set hs. TagCzscHigh \<in> set (sf_tags h)" using Cons.prems(2) by simp
    ultimately show ?thesis unfolding fold_simps by (intro Cons.IH)
  qed
qed simp

text \<open>
  The CZSC channel keeps every filtered stock in its place, appends the high-score stocks
  that are new (so codes stay distinct when both lists are duplicate-free), gives every
  high-score code the tag, and the scanned total is the larger of the two.
\<close>

theorem czsc_merge_exact:
  assumes "distinct (map sf_code (fr_stocks r))" "distinct (map sf_code hs)"
    "\<forall>h \<in> set hs. TagCzscHigh \<in> set (sf_tags h)"
  shows "map sf_code (fr_stocks (czsc_merge (Inr (hs, n)) r)) = map sf_code (fr_stocks r)
      @ filter (\<lambda>c. c \<notin> set (map sf_code (fr_stocks r))) (map sf_code hs)
    \<and> distinct (map sf_code (fr_stocks (czsc_merge (Inr (hs, n)) r)))
    \<and> (\<forall>s \<in> set (fr_stocks (czsc_merge (Inr (hs, n)) r)). sf_code s \<in> set (map sf_code hs)
        \<longrightarrow> TagCzscHigh \<in> set (sf_tags s))
    \<and> fr_total_scanned (czsc_merge (Inr (hs, n)) r) = max (fr_total_scanned r) n"
proof -
  let ?xs = "fold (czsc_one (set (map sf_code (fr_stocks r)))) hs (fr_stocks r)"
  have c: "map sf_code ?xs = map sf_code (fr_stocks r)
      @ filter (\<lambda>c. c \<notin> set (map sf_code (fr_stocks r))) (map sf_code hs)"
    by (rule czsc.codes)
  have d: "distinct (map sf_code ?xs)" by (rule czsc.codes_distinct [OF assms(1,2)])
  have t: "TagCzscHigh \<in> set (sf_tags s)" if "s \<in> set ?xs" "h \<in> set hs" "sf_code s = sf_code h" for s h
  proof -
    have "sf_code h \<notin> set (map sf_code (fr_stocks r)) \<longrightarrow>
      (\<forall>s \<in> set (fr_stocks r). sf_code s = sf_code h \<longrightarrow> TagCzscHigh \<in> set (sf_tags s))"
      by (metis (no_types) imageI set_map)
    from fold_czsc_tagged [OF that(2) assms(3) this] that show ?thesis by blast
  qed
  show ?thesis
    using c d t by (auto simp: czsc_merge_def)
qed

theorem czsc_merge_exact_witness:
  "map sf_code (fr_stocks (czsc_merge (Inr ([ex_stock ''600001''\<lparr>sf_tags := [TagCzscHigh]\<rparr>,
      ex_stock ''600002''\<lparr>sf_tags := [TagCzscHigh]\<rparr>], 9))
      \<lparr>fr_date = 1, fr_total_scanned = 5, fr_stocks = [ex_stock ''600002'']\<rparr>))
   = [''600002'', ''600001'']"
  using czsc_merge_exact [of "\<lparr>fr_date = 1, fr_total_scanned = 5, fr_stocks = [ex_stock ''600002'']\<rparr>"
    "[ex_stock ''600001''\<lparr>sf_tags := [TagCzscHigh]\<rparr>, ex_stock ''600002''\<lparr>sf_tags := [TagCzscHigh]\<rparr>]" 9]
  by (simp add: ex_stock_def)

section \<open>The counts of a run\<close>

lemma length_fold_dset:
  assumes "distinct (map (\<lambda>t. f (fst t)) rs)" "set (dkeys d) \<inter> (\<lambda>t. f (fst t)) ` set rs = {}"
  shows "length (fold (\<lambda>(x, r, w, a) d. dset (f x) (g x r w a) d) rs d) = length d + length rs"
  using assms
proof (induction rs arbitrary: d)
  case (Cons t rs)
  obtain x r w a where t: "t = (x, r, w, a)" by (cases t)
  have n: "f x \<notin> set (dkeys d)" using Cons.prems(2) by (auto simp: t)
  have "set (dkeys (dset (f x) (g x r w a) d)) \<inter> (\<lambda>t. f (fst t)) ` set rs = {}"
    using Cons.prems by (auto simp: t dict_simps)
  with Cons have "length (fold (\<lambda>(x, r, w, a) d. dset (f x) (g x r w a) d) rs (dset (f x) (g x r w a) d))
      = length (dset (f x) (g x r w a) d) + length rs" by simp
  then show ?case using n by (simp add: t dset_new)
qed simp

lemma failed_outcome_iff: "failed_outcome x \<longleftrightarrow> wo_status x \<noteq> WoCompleted"
  by (cases "wo_status x") (auto simp: failed_outcome_def)

lemma counts_of_finished:
  assumes "dispatch_reachable p stocks s" "d_main s = MDone" "\<not> d_drained s"
    "distinct (map sf_code stocks)"
  shows "length (analysis_results s) + length (filter failed_outcome (d_extras s)) = length stocks"
proof -
  let ?rc = "map (\<lambda>t. sf_code (fst t)) (d_results s)"
  have m: "mset (map sf_code stocks) = mset ?rc + mset (map wo_code (d_extras s))"
    using finished_codes [OF assms(1) _ assms(3)] assms(2) by blast
  then have "distinct (?rc @ map wo_code (d_extras s))"
    using assms(4) by (metis mset_append mset_eq_imp_distinct_iff)
  then have "length (analysis_results s) = length (d_results s)"
    unfolding analysis_results_def
    using length_fold_dset [of sf_code "d_results s" "[]" "\<lambda>x r w a. r"] by simp
  moreover have "filter failed_outcome (d_extras s) = d_extras s"
    using extras_status [OF assms(1)] by (simp add: failed_outcome_iff)
  moreover have "size (mset (map sf_code stocks)) = size (mset ?rc) + size (mset (map wo_code (d_extras s)))"
    by (simp only: m size_union)
  ultimately show ?thesis by simp
qed

text \<open>
  C23: When the dispatch of a run ends normally, the counts of the result add up: the analysed
  stocks and the failed ones are together the filtered stocks, none counted twice or missing.
\<close>

theorem run_counts:
  assumes "screen env debug d = Inr r" "distinct (map sf_code (fr_stocks r))" "fr_stocks r \<noteq> []"
    "re_available env"
    "p = \<lparr>dp_workers = ws, dp_cfg = cfg, dp_deadline = map_option dt_micros dl\<rparr>"
    "re_dispatch env p (fr_stocks r) = (False, s)" "dispatch_reachable p (fr_stocks r) s"
    "d_main s = MDone" "\<not> d_drained s"
  shows "\<exists>res. run env ws cfg (Some d) dl debug = Inr res
    \<and> pr_total_filtered res = length (fr_stocks r)
    \<and> pr_analysis_completed res + pr_analysis_failed res = pr_total_filtered res"
proof -
  have "run env ws cfg (Some d) dl debug = Inr (final_result env r s (sorted_list_of_set (d_dead s)))"
    using assms by (simp add: run_def report_date_def analyse_def total_passed_def)
  moreover have "length (analysis_results s) + length (filter failed_outcome (d_extras s))
      = length (fr_stocks r)"
    using counts_of_finished assms by blast
  ultimately show ?thesis
    by (auto simp: final_result_def Let_def total_passed_def split: sum.split)
qed

definition ex_run_env :: "dstate \<Rightarrow> run_env" where
  "ex_run_env s = \<lparr>re_calendar = (\<lambda>_. CalAbsent), re_now = DateTime 738884 (hms 1 0 0),
     re_filter = (\<lambda>_. Inr \<lparr>fr_date = 0, fr_total_scanned = 1, fr_stocks = [ex_stock ''600000'']\<rparr>),
     re_czsc = Inl ''no data'', re_empty_report = (\<lambda>_. Inr ''empty.html''), re_available = True,
     re_dispatch = (\<lambda>_ _. (False, s)), re_final_report = (\<lambda>_ _. Inr ''report.html'')\<rparr>"

lemma ex_done: "\<exists>s. dispatch_reachable (ex_dispatch 1 3) [ex_stock ''600000''] s
  \<and> d_main s = MDone \<and> \<not> d_drained s"
proof -
  obtain s where r: "dispatch_reachable (ex_dispatch 1 3) [ex_stock ''600000''] s"
    and m: "d_main s = MStop" "\<not> d_drained s"
    using run_check_reachable [OF ex_good_run_check] by blast
  have "main_step (ex_dispatch 1 3) s (s\<lparr>d_main := MDone, d_stop := True\<rparr>)"
    using m by (intro main_step.stop_all)
  with r have "dispatch_reachable (ex_dispatch 1 3) [ex_stock ''600000''] (s\<lparr>d_main := MDone, d_stop := True\<rparr>)"
    by (blast intro: dispatch_reachable.step dispatch_step.main)
  with m show ?thesis by (intro exI [of _ "s\<lparr>d_main := MDone, d_stop := True\<rparr>"]) simp
qed

theorem run_counts_witness:
  "\<exists>s res. run (ex_run_env s) (dp_workers (ex_dispatch 1 3)) (dp_cfg (ex_dispatch 1 3))
      (Some 738884) None False = Inr res \<and> pr_total_filtered res = 1
    \<and> pr_analysis_completed res + pr_analysis_failed res = 1"
proof -
  obtain s where s: "dispatch_reachable (ex_dispatch 1 3) [ex_stock ''600000''] s"
    "d_main s = MDone" "\<not> d_drained s" using ex_done by blast
  let ?r = "\<lparr>fr_date = 738884, fr_total_scanned = 1, fr_stocks = [ex_stock ''600000'']\<rparr>"
  have "screen (ex_run_env s) False 738884 = Inr ?r"
    by (simp add: screen_def ex_run_env_def czsc_merge_def)
  from run_counts [OF this, of "ex_dispatch 1 3" "dp_workers (ex_dispatch 1 3)"
      "dp_cfg (ex_dispatch 1 3)" None s] s
  have "\<exists>res. run (ex_run_env s) (dp_workers (ex_dispatch 1 3)) (dp_cfg (ex_dispatch 1 3))
      (Some 738884) None False = Inr res \<and> pr_total_filtered res = 1
    \<and> pr_analysis_completed res + pr_analysis_failed res = pr_total_filtered res"
    by (simp add: ex_run_env_def ex_dispatch_def)
  then show ?thesis by metis
qed

text \<open>
  C35: A run raises in exactly four cases: the report date cannot be computed, the filter
  raises, the filter scanned nothing and passed nothing, or the empty report cannot be written
  when no stock passed. Neither the CZSC scan nor the analysis nor the reports of a run with
  stocks can make it raise.
\<close>

theorem run_raises_iff:
  "run env ws cfg target dl debug = Inl e \<longleftrightarrow>
     (case report_date env target of Inl e' \<Rightarrow> e = e'
      | Inr d \<Rightarrow> (case re_filter env debug of
          Inl m \<Rightarrow> e = RunFilterFailed m
        | Inr r0 \<Rightarrow> (fr_total_scanned r0 = 0 \<and> fr_stocks r0 = [] \<and> e = RunFilterEmpty)
            \<or> ((fr_total_scanned r0 = 0 \<longrightarrow> fr_stocks r0 \<noteq> [])
               \<and> fr_stocks (czsc_merge (re_czsc env) r0) = []
               \<and> (\<exists>m. re_empty_report env d = Inl m \<and> e = RunRaises m))))"
proof -
  have k: "fr_date (czsc_merge a (r0\<lparr>fr_date := d\<rparr>)) = d
      \<and> fr_stocks (czsc_merge a (r0\<lparr>fr_date := d\<rparr>)) = fr_stocks (czsc_merge a r0)" for a r0 d
    by (auto simp: czsc_merge_def split: sum.split)
  show ?thesis
    unfolding run_def screen_def Let_def
    by (auto simp: total_passed_def k split: sum.splits prod.splits)
qed

theorem run_raises_iff_witness:
  "run (ex_run_env no_dispatch\<lparr>re_filter := \<lambda>_. Inl ''no market data''\<rparr>) [] default_dispatch
     (Some 738884) None False = Inl (RunFilterFailed ''no market data'')"
  using run_raises_iff [of "ex_run_env no_dispatch\<lparr>re_filter := \<lambda>_. Inl ''no market data''\<rparr>" "[]"
    default_dispatch "Some 738884" None False "RunFilterFailed ''no market data''"]
  by (simp add: report_date_def)

end
