(* ===== verification/ProviderKeys.thy ===== *)
theory ProviderKeys
  imports PyStr
begin

text \<open>
  The keys of the model providers, \<open>tradingagents/llm_clients/provider_keys.py\<close>: the
  normalisation of a name (aliases, Chinese names, case and surrounding space) and the tables
  indexed by the normal form.
\<close>

definition provider_aliases :: "(ustr, ustr) dict" where
  "provider_aliases = [
     (ustr_of ''dashscope'', ustr_of ''qwen''),
     (ustr_of ''alibaba'', ustr_of ''qwen''),
     (ustr_of ''qwen'', ustr_of ''qwen''),
     (ustr_of ''zhipu'', ustr_of ''glm''),
     (ustr_of ''glm'', ustr_of ''glm''),
     (ustr_of ''openai'', ustr_of ''openai''),
     (ustr_of ''google'', ustr_of ''google''),
     (ustr_of ''anthropic'', ustr_of ''anthropic''),
     (ustr_of ''deepseek'', ustr_of ''deepseek''),
     (ustr_of ''openrouter'', ustr_of ''openrouter''),
     (ustr_of ''aihubmix'', ustr_of ''aihubmix''),
     (ustr_of ''ollama'', ustr_of ''ollama''),
     (ustr_of ''qianfan'', ustr_of ''qianfan''),
     (ustr_of ''custom_openai'', ustr_of ''custom_openai''),
     (ustr_of ''siliconflow'', ustr_of ''siliconflow'')]"

definition txt_bailian :: ustr where "txt_bailian = [30334, 28860]"
definition txt_ali_bailian :: ustr where "txt_ali_bailian = [38463, 37324, 30334, 28860]"
definition txt_zhipu :: ustr where "txt_zhipu = [26234, 35889]"

text \<open>\<open>None\<close> is Python's \<open>None\<close>; every other argument is a text (\<open>str\<close> of it).\<close>

definition normalize_provider_key :: "ustr option \<Rightarrow> ustr" where
  "normalize_provider_key provider = (case provider of None \<Rightarrow> []
     | Some p \<Rightarrow>
         let raw = u_strip p in
         if raw = [] then []
         else if contains txt_ali_bailian raw \<or> contains txt_bailian raw then ustr_of ''qwen''
         else if contains txt_zhipu raw then ustr_of ''glm''
         else dget_default provider_aliases (u_lower raw) (u_lower raw))"

definition env_key_for_provider :: "ustr option \<Rightarrow> string" where
  "env_key_for_provider provider = dget_default
    [(ustr_of ''google'', ''GOOGLE_API_KEY''),
     (ustr_of ''qwen'', ''DASHSCOPE_API_KEY''),
     (ustr_of ''openai'', ''OPENAI_API_KEY''),
     (ustr_of ''deepseek'', ''DEEPSEEK_API_KEY''),
     (ustr_of ''anthropic'', ''ANTHROPIC_API_KEY''),
     (ustr_of ''openrouter'', ''OPENROUTER_API_KEY''),
     (ustr_of ''aihubmix'', ''AIHUBMIX_API_KEY''),
     (ustr_of ''siliconflow'', ''SILICONFLOW_API_KEY''),
     (ustr_of ''qianfan'', ''QIANFAN_API_KEY''),
     (ustr_of ''glm'', ''ZHIPU_API_KEY'')]
    (normalize_provider_key provider) []"

definition default_backend_url :: "ustr option \<Rightarrow> string" where
  "default_backend_url provider = dget_default
    [(ustr_of ''google'', ''https://generativelanguage.googleapis.com/v1beta''),
     (ustr_of ''qwen'', ''https://dashscope.aliyuncs.com/compatible-mode/v1''),
     (ustr_of ''openai'', ''https://api.openai.com/v1''),
     (ustr_of ''deepseek'', ''https://api.deepseek.com''),
     (ustr_of ''anthropic'', ''https://api.anthropic.com''),
     (ustr_of ''openrouter'', ''https://openrouter.ai/api/v1''),
     (ustr_of ''aihubmix'', ''https://aihubmix.com/v1''),
     (ustr_of ''ollama'', ''http://localhost:11434/v1''),
     (ustr_of ''qianfan'', ''https://qianfan.baidubce.com/v2''),
     (ustr_of ''siliconflow'', ''https://api.siliconflow.cn/v1''),
     (ustr_of ''glm'', ''https://open.bigmodel.cn/api/paas/v4/'')]
    (normalize_provider_key provider) ''https://dashscope.aliyuncs.com/compatible-mode/v1''"

definition canonical_aliases :: "ustr option \<Rightarrow> ustr list" where
  "canonical_aliases provider = dget_default
    [(ustr_of ''qwen'', [ustr_of ''dashscope'', ustr_of ''alibaba'', txt_ali_bailian, txt_bailian]),
     (ustr_of ''glm'', [ustr_of ''zhipu'', txt_zhipu, txt_zhipu @ ustr_of ''ai''])]
    (normalize_provider_key provider) []"

section \<open>The normal form is stable\<close>

text \<open>Lower case maps only Latin letters to Latin letters, so it does not touch Chinese text.\<close>

lemma u_lower_char_eq: "255 < k \<Longrightarrow> u_lower_char n = k \<longleftrightarrow> n = k"
  by (auto simp: u_lower_char_def)

lemma startswith_map:
  assumes "\<And>x k. k \<in> set p \<Longrightarrow> f x = k \<longleftrightarrow> x = k"
  shows "startswith (map f s) p \<longleftrightarrow> startswith s p"
  using assms
proof (induction p arbitrary: s)
  case (Cons k p)
  show ?case by (cases s) (use Cons in \<open>auto simp: startswith_def\<close>)
qed (simp add: startswith_def)

lemma contains_map:
  assumes "\<And>x k. k \<in> set p \<Longrightarrow> f x = k \<longleftrightarrow> x = k"
  shows "contains p (map f s) \<longleftrightarrow> contains p s"
proof (induction s)
  case (Cons x s)
  have "startswith (map f (x # s)) p \<longleftrightarrow> startswith (x # s) p"
    using assms by (rule startswith_map)
  with Cons show ?case by simp
qed simp

lemma contains_u_lower: "list_all (\<lambda>k. 255 < k) p \<Longrightarrow> contains p (u_lower s) \<longleftrightarrow> contains p s"
  unfolding u_lower_def by (rule contains_map) (auto simp: list_all_iff u_lower_char_eq)

lemma chinese [simp]: "list_all (\<lambda>k. 255 < k) txt_bailian"
  "list_all (\<lambda>k. 255 < k) txt_ali_bailian" "list_all (\<lambda>k. 255 < k) txt_zhipu"
  by (simp_all add: txt_bailian_def txt_ali_bailian_def txt_zhipu_def)

definition normal_key :: "ustr \<Rightarrow> bool" where
  "normal_key k \<longleftrightarrow> normalize_provider_key (Some k) = k"

lemma normal_values:
  "list_all normal_key (map snd provider_aliases)" "normal_key (ustr_of ''qwen'')"
  "normal_key (ustr_of ''glm'')" "normal_key []"
  by code_simp+

lemma u_strip_lower: "u_strip (u_lower s) = u_lower (u_strip s)"
  by (simp add: u_strip_def u_lower_def strip_by_map)

text \<open>
  Normalising twice is normalising once, for every name: aliases, Chinese names and
  unknown names alike.
\<close>

theorem normalize_provider_key_idem:
  "normalize_provider_key (Some (normalize_provider_key x)) = normalize_provider_key x"
proof (cases x)
  case None
  then show ?thesis by (simp add: normalize_provider_key_def)
next
  case (Some p)
  let ?r = "u_strip p"
  show ?thesis
  proof (cases "?r = [] \<or> contains txt_ali_bailian ?r \<or> contains txt_bailian ?r \<or> contains txt_zhipu ?r")
    case True
    then have "normalize_provider_key x \<in> {[], ustr_of ''qwen'', ustr_of ''glm''}"
      by (auto simp: Some normalize_provider_key_def Let_def)
    then show ?thesis using normal_values by (auto simp: normal_key_def)
  next
    case False
    then have n: "normalize_provider_key x = dget_default provider_aliases (u_lower ?r) (u_lower ?r)"
      by (simp add: Some normalize_provider_key_def Let_def)
    show ?thesis
    proof (cases "dget provider_aliases (u_lower ?r)")
      case None
      have "u_strip (u_lower ?r) = u_lower ?r"
        by (simp add: u_strip_lower) (simp add: u_strip_def strip_by_idem)
      moreover have "u_lower ?r \<noteq> []" using False by (simp add: u_lower_def)
      ultimately have "normalize_provider_key (Some (u_lower ?r)) = u_lower ?r"
        using None False
        by (simp add: dget_default_def normalize_provider_key_def contains_u_lower)
      then show ?thesis by (simp only: n dget_default_def None option.case)
    next
      case (Some v)
      then have "v \<in> set (map snd provider_aliases)" by (force dest: map_of_SomeD)
      with normal_values(1) have "normal_key v" by (simp only: list_all_iff)
      then show ?thesis by (simp add: n dget_default_def Some normal_key_def)
    qed
  qed
qed

end
