(* ===== verification/MemoryState.thy ===== *)
theory MemoryState
  imports Models PyTime ProviderKeys
begin

text \<open>
  The in-memory task states of \<open>app/services/memory_state_manager.py\<close>. Every operation holds
  the one lock from its first to its last access, so an operation is one step. The clock, the
  local time zone and whether an asyncio loop is running are arguments.
\<close>

section \<open>State\<close>

text \<open>
  The states of a task of the manager, and of \<open>app/models/analysis.py\<close>. The field holds what the
  callers write: \<open>simple_analysis_service.py\<close> also writes a state of the other enumeration, which
  is equal to none of the manager's own (\<open>TsForeign\<close>).
\<close>

datatype analysis_status = AsPending | AsProcessing | AsCompleted | AsFailed | AsCancelled

datatype task_status = TsPending | TsRunning | TsCompleted | TsFailed | TsCancelled | TsForeign analysis_status

fun analysis_value :: "analysis_status \<Rightarrow> string" where
  "analysis_value AsPending = ''pending''"
| "analysis_value AsProcessing = ''processing''"
| "analysis_value AsCompleted = ''completed''"
| "analysis_value AsFailed = ''failed''"
| "analysis_value AsCancelled = ''cancelled''"

fun status_value :: "task_status \<Rightarrow> string" where
  "status_value TsPending = ''pending''"
| "status_value TsRunning = ''running''"
| "status_value TsCompleted = ''completed''"
| "status_value TsFailed = ''failed''"
| "status_value TsCancelled = ''cancelled''"
| "status_value (TsForeign st) = analysis_value st"

definition status_finished :: "task_status \<Rightarrow> bool" where
  "status_finished st \<longleftrightarrow> st \<in> {TsCompleted, TsFailed, TsCancelled}"

record task_state =
  tk_task_id :: string
  tk_user_id :: string
  tk_stock_code :: string
  tk_status :: task_status
  tk_stock_name :: "ustr option"
  tk_progress :: int
  tk_message :: ustr
  tk_current_step :: ustr
  tk_start_time :: "pydatetime option"
  tk_end_time :: "pydatetime option"
  tk_result_data :: "(ustr, dval) dict option"
  tk_error_message :: "ustr option"
  tk_parameters :: "(ustr, dval) dict option"
  tk_execution_time :: "pyfloat option"
  tk_tokens_used :: "int option"
  tk_estimated_duration :: "pyfloat option"

text \<open>A message pushed to the websocket manager: task, status, progress, message, step, time.\<close>

record progress_update =
  pu_task_id :: string
  pu_status :: task_status
  pu_progress :: int
  pu_message :: ustr
  pu_step :: ustr
  pu_time :: pydatetime

record memory_manager =
  mm_tasks :: "(string, task_state) dict"
  mm_websocket :: bool
  mm_pushed :: "progress_update list"

definition empty_manager :: memory_manager where
  "empty_manager = \<lparr>mm_tasks = [], mm_websocket = False, mm_pushed = []\<rparr>"

definition set_websocket_manager :: "bool \<Rightarrow> memory_manager \<Rightarrow> memory_manager" where
  "set_websocket_manager b m = m\<lparr>mm_websocket := b\<rparr>"

text \<open>\<open>(b - a).total_seconds()\<close>: an exact number of microseconds divided by 10^6, rounded once.\<close>

definition total_seconds :: "pydatetime \<Rightarrow> pydatetime \<Rightarrow> pyfloat" where
  "total_seconds a b = fl (of_int (dt_micros b - dt_micros a) / 1000000)"

text \<open>
  \<open>t.timestamp()\<close> of a naive datetime: the seconds through the local zone (\<open>utc\<close> maps local
  seconds to POSIX seconds), then the microseconds added as a float.
\<close>

definition timestamp :: "(int \<Rightarrow> int) \<Rightarrow> pydatetime \<Rightarrow> pyfloat" where
  "timestamp utc t = fadd (fl (of_int (utc (dt_micros t div 1000000))))
     (fdiv (of_int (dt_micros t mod 1000000)) 1000000)"

section \<open>Creating a task\<close>

text \<open>
  \<open>_calculate_estimated_duration\<close>. A depth that is a list is unhashable, analysts without
  a length and a depth list raise a TypeError; a provider that is not a text never matches.
\<close>

definition k_depth :: ustr where "k_depth = ustr_of ''research_depth''"
definition k_analysts :: ustr where "k_analysts = ustr_of ''selected_analysts''"
definition k_provider :: ustr where "k_provider = ustr_of ''llm_provider''"

definition depth_level :: "dval \<Rightarrow> (string, nat) result" where
  "depth_level v = (case v of VList _ \<Rightarrow> Inl ''TypeError''
     | VStr d \<Rightarrow> Inr (dget_default [([24555, 36895], 1), ([26631, 20934], 2), ([28145, 24230], 3)] d 2)
     | _ \<Rightarrow> Inr 2)"

definition py_len :: "dval \<Rightarrow> (string, nat) result" where
  "py_len v = (case v of VList xs \<Rightarrow> Inr (length xs) | VStr s \<Rightarrow> Inr (length s)
     | _ \<Rightarrow> Inl ''TypeError'')"

definition analyst_base_time :: "nat \<Rightarrow> nat" where
  "analyst_base_time d = dget_default [(1, 180), (2, 360), (3, 600)] d 360"

definition model_multiplier :: "ustr \<Rightarrow> pyfloat" where
  "model_multiplier p = dget_default [(ustr_of ''qwen'', 1), (ustr_of ''dashscope'', 1),
     (ustr_of ''deepseek'', fl (7 / 10)), (ustr_of ''google'', fl (13 / 10))] p 1"

definition depth_multiplier :: "nat \<Rightarrow> pyfloat" where
  "depth_multiplier d = dget_default [(1, fl (8 / 10)), (2, 1), (3, fl (13 / 10))] d 1"

definition provider_of :: "dval \<Rightarrow> ustr" where
  "provider_of v = (case v of VStr p \<Rightarrow> normalize_provider_key (Some p) | _ \<Rightarrow> [])"

definition estimated_duration :: "(ustr, dval) dict \<Rightarrow> (string, pyfloat) result" where
  "estimated_duration ps =
     (case depth_level (dget_default ps k_depth (VStr [26631, 20934])) of Inl e \<Rightarrow> Inl e | Inr d \<Rightarrow>
     (case py_len (dget_default ps k_analysts (VList [])) of Inl e \<Rightarrow> Inl e | Inr n \<Rightarrow>
        Inr (fmul (fmul (of_nat (60 + n * analyst_base_time d))
          (model_multiplier (provider_of (dget_default ps k_provider (VStr (ustr_of ''dashscope''))))))
          (depth_multiplier d))))"

definition msg_created :: ustr where
  "msg_created = [20219, 21153, 24050, 21019, 24314, 65292, 31561, 24453, 25191, 34892, 46, 46, 46]"

definition create_task :: "string \<Rightarrow> string \<Rightarrow> string \<Rightarrow> (ustr, dval) dict option \<Rightarrow> ustr option
    \<Rightarrow> pydatetime \<Rightarrow> memory_manager \<Rightarrow> (string, task_state \<times> memory_manager) result" where
  "create_task tid uid code params name now m = (case estimated_duration (or_default params []) of
     Inl e \<Rightarrow> Inl e
   | Inr est \<Rightarrow> let t = \<lparr>tk_task_id = tid, tk_user_id = uid, tk_stock_code = code,
         tk_status = TsPending, tk_stock_name = name, tk_progress = 0, tk_message = msg_created,
         tk_current_step = [], tk_start_time = Some now, tk_end_time = None,
         tk_result_data = None, tk_error_message = None, tk_parameters = Some (or_default params []),
         tk_execution_time = None, tk_tokens_used = None, tk_estimated_duration = Some est\<rparr> in
       Inr (t, m\<lparr>mm_tasks := dset tid t (mm_tasks m)\<rparr>))"

section \<open>Updating a task\<close>

record task_update =
  up_status :: task_status
  up_progress :: "int option"
  up_message :: "ustr option"
  up_step :: "ustr option"
  up_result :: "(ustr, dval) dict option"
  up_error :: "ustr option"

definition upd_opt :: "'a option \<Rightarrow> 'a \<Rightarrow> 'a" where
  "upd_opt new old = (case new of None \<Rightarrow> old | Some v \<Rightarrow> v)"

definition stop_clock :: "pydatetime \<Rightarrow> task_state \<Rightarrow> task_state" where
  "stop_clock now t = t\<lparr>tk_end_time := Some now, tk_execution_time :=
     (case tk_start_time t of None \<Rightarrow> tk_execution_time t | Some st \<Rightarrow> Some (total_seconds st now))\<rparr>"

definition apply_update :: "task_update \<Rightarrow> pydatetime \<Rightarrow> task_state \<Rightarrow> task_state" where
  "apply_update u now t = (let t1 = t\<lparr>tk_status := up_status u,
       tk_progress := upd_opt (up_progress u) (tk_progress t),
       tk_message := upd_opt (up_message u) (tk_message t),
       tk_current_step := upd_opt (up_step u) (tk_current_step t),
       tk_result_data := (case up_result u of None \<Rightarrow> tk_result_data t | Some r \<Rightarrow> Some r),
       tk_error_message := (case up_error u of None \<Rightarrow> tk_error_message t | Some e \<Rightarrow> Some e)\<rparr> in
     if status_finished (up_status u) then stop_clock now t1 else t1)"

definition update_of :: "pydatetime \<Rightarrow> task_state \<Rightarrow> progress_update" where
  "update_of now t = \<lparr>pu_task_id = tk_task_id t, pu_status = tk_status t,
     pu_progress = tk_progress t, pu_message = tk_message t, pu_step = tk_current_step t,
     pu_time = now\<rparr>"

definition push :: "bool \<Rightarrow> progress_update \<Rightarrow> memory_manager \<Rightarrow> memory_manager" where
  "push loop u m = (if mm_websocket m \<and> loop then m\<lparr>mm_pushed := mm_pushed m @ [u]\<rparr> else m)"

definition update_task_status :: "string \<Rightarrow> task_update \<Rightarrow> pydatetime \<Rightarrow> bool \<Rightarrow> memory_manager
    \<Rightarrow> bool \<times> memory_manager" where
  "update_task_status tid u now loop m = (case dget (mm_tasks m) tid of
     None \<Rightarrow> (False, m)
   | Some t \<Rightarrow> let t1 = apply_update u now t in
       (True, push loop ((update_of now t1)\<lparr>pu_task_id := tid\<rparr>)
          (m\<lparr>mm_tasks := dset tid t1 (mm_tasks m)\<rparr>)))"

section \<open>Reading\<close>

definition get_task :: "string \<Rightarrow> memory_manager \<Rightarrow> task_state option" where
  "get_task tid m = dget (mm_tasks m) tid"

text \<open>\<open>to_dict\<close>: the task and the three computed times (an int or a float, as numbers).\<close>

record task_view =
  tv_task :: task_state
  tv_elapsed :: rat
  tv_remaining :: rat
  tv_total :: rat

definition truthy_num :: "rat option \<Rightarrow> rat \<Rightarrow> rat" where
  "truthy_num x d = (case x of None \<Rightarrow> d | Some v \<Rightarrow> if v = 0 then d else v)"

definition to_dict :: "pydatetime \<Rightarrow> task_state \<Rightarrow> task_view" where
  "to_dict now t = (case tk_start_time t of
     None \<Rightarrow> \<lparr>tv_task = t, tv_elapsed = 0, tv_remaining = 300, tv_total = 300\<rparr>
   | Some st \<Rightarrow> (case tk_end_time t of
       Some en \<Rightarrow> let e = truthy_num (tk_execution_time t) (total_seconds st en) in
         \<lparr>tv_task = t, tv_elapsed = e, tv_remaining = 0, tv_total = e\<rparr>
     | None \<Rightarrow>
         let e = total_seconds st now;
             pr = (if 0 < tk_progress t then fdiv (of_int (tk_progress t)) 100 else 0);
             est = truthy_num (tk_estimated_duration t) 300 in
         if 1 \<le> pr then \<lparr>tv_task = t, tv_elapsed = e, tv_remaining = 0, tv_total = e\<rparr>
         else \<lparr>tv_task = t, tv_elapsed = e, tv_remaining = max 0 (fsub est e), tv_total = est\<rparr>))"

definition get_task_dict :: "string \<Rightarrow> pydatetime \<Rightarrow> memory_manager \<Rightarrow> task_view option" where
  "get_task_dict tid now m = map_option (to_dict now) (get_task tid m)"

definition list_item :: "pydatetime \<Rightarrow> task_state \<Rightarrow> task_view" where
  "list_item now t = (let v = to_dict now t in
     if or_default (tk_stock_name t) [] = []
     then v\<lparr>tv_task := (tv_task v)\<lparr>tk_stock_name := None\<rparr>\<rparr> else v)"

text \<open>
  The sort by the ISO text of the start time: for years of four digits its order is the order
  of the datetimes; two tasks of which one has no start time raise a TypeError.
\<close>

definition start_key :: "task_view \<Rightarrow> pydatetime" where
  "start_key v = or_default (tk_start_time (tv_task v)) (DateTime 0 0)"

definition sort_by_start :: "task_view list \<Rightarrow> (string, task_view list) result" where
  "sort_by_start vs = (if 1 < length vs \<and> (\<exists>v \<in> set vs. tk_start_time (tv_task v) = None)
     then Inl ''TypeError'' else Inr (sort_key_desc start_key vs))"

definition list_tasks :: "(task_state \<Rightarrow> bool) \<Rightarrow> int \<Rightarrow> int \<Rightarrow> pydatetime \<Rightarrow> memory_manager
    \<Rightarrow> (string, task_view list) result" where
  "list_tasks P limit offset now m =
     (case sort_by_start (map (list_item now) (filter P (map snd (mm_tasks m)))) of
        Inl e \<Rightarrow> Inl e | Inr vs \<Rightarrow> Inr (py_slice offset (offset + limit) vs))"

definition list_all_tasks :: "task_status option \<Rightarrow> int \<Rightarrow> int \<Rightarrow> pydatetime \<Rightarrow> memory_manager
    \<Rightarrow> (string, task_view list) result" where
  "list_all_tasks st limit offset now m =
     list_tasks (\<lambda>t. st = None \<or> st = Some (tk_status t)) limit offset now m"

definition list_user_tasks :: "string \<Rightarrow> task_status option \<Rightarrow> int \<Rightarrow> int \<Rightarrow> pydatetime
    \<Rightarrow> memory_manager \<Rightarrow> (string, task_view list) result" where
  "list_user_tasks uid st limit offset now m =
     list_tasks (\<lambda>t. tk_user_id t = uid \<and> (st = None \<or> st = Some (tk_status t))) limit offset now m"

record statistics =
  stat_total :: nat
  stat_counts :: "(string, nat) dict"
  stat_running :: nat
  stat_completed :: nat
  stat_failed :: nat

definition get_statistics :: "memory_manager \<Rightarrow> statistics" where
  "get_statistics m = (let c = fold (\<lambda>t c. dset (status_value (tk_status t)) (dget_default c (status_value (tk_status t)) 0 + 1) c)
        (map snd (mm_tasks m)) [] in
     \<lparr>stat_total = length (mm_tasks m), stat_counts = c,
      stat_running = dget_default c ''running'' 0, stat_completed = dget_default c ''completed'' 0,
      stat_failed = dget_default c ''failed'' 0\<rparr>)"

section \<open>Removing tasks\<close>

definition delete_task :: "string \<Rightarrow> memory_manager \<Rightarrow> bool \<times> memory_manager" where
  "delete_task tid m = (if dget (mm_tasks m) tid \<noteq> None
     then (True, m\<lparr>mm_tasks := ddel tid (mm_tasks m)\<rparr>) else (False, m))"

definition remove_task :: "string \<Rightarrow> memory_manager \<Rightarrow> bool \<times> memory_manager" where
  "remove_task tid m = (if dget (mm_tasks m) tid \<noteq> None
     then (True, m\<lparr>mm_tasks := ddel tid (mm_tasks m)\<rparr>) else (False, m))"

definition started_before :: "(int \<Rightarrow> int) \<Rightarrow> pyfloat \<Rightarrow> task_state \<Rightarrow> bool" where
  "started_before utc cutoff t = (case tk_start_time t of None \<Rightarrow> False
     | Some st \<Rightarrow> timestamp utc st < cutoff)"

definition cutoff_time :: "(int \<Rightarrow> int) \<Rightarrow> pydatetime \<Rightarrow> int \<Rightarrow> pyfloat" where
  "cutoff_time utc now hours = fsub (timestamp utc now) (fl (of_int (hours * 3600)))"

definition old_tasks :: "(int \<Rightarrow> int) \<Rightarrow> pydatetime \<Rightarrow> int \<Rightarrow> memory_manager \<Rightarrow> string list" where
  "old_tasks utc now hours m = map fst (filter (\<lambda>(k, t).
     started_before utc (cutoff_time utc now hours) t \<and> status_finished (tk_status t)) (mm_tasks m))"

definition cleanup_old_tasks :: "(int \<Rightarrow> int) \<Rightarrow> pydatetime \<Rightarrow> int \<Rightarrow> memory_manager
    \<Rightarrow> nat \<times> memory_manager" where
  "cleanup_old_tasks utc now hours m = (let ids = old_tasks utc now hours m in
     (length ids, m\<lparr>mm_tasks := fold ddel ids (mm_tasks m)\<rparr>))"

definition msg_zombie :: ustr where
  "msg_zombie = [20219, 21153, 24050, 36229, 26102, 65292, 33258, 21160, 26631, 35760, 20026, 22833, 36133]"

definition err_zombie :: "int \<Rightarrow> ustr" where
  "err_zombie h = [20219, 21153, 36229, 26102, 65288, 36816, 34892, 26102, 38388, 36229, 36807, 32]
     @ ustr_of (int_str h) @ [32, 23567, 26102, 65289]"

definition zombie_tasks :: "(int \<Rightarrow> int) \<Rightarrow> pydatetime \<Rightarrow> int \<Rightarrow> memory_manager \<Rightarrow> string list" where
  "zombie_tasks utc now hours m = map fst (filter (\<lambda>(k, t).
     tk_status t \<in> {TsRunning, TsPending} \<and> started_before utc (cutoff_time utc now hours) t) (mm_tasks m))"

text \<open>The clock is read again for every zombie (\<open>ends\<close>).\<close>

definition kill_zombie :: "(string \<Rightarrow> pydatetime) \<Rightarrow> int \<Rightarrow> string \<Rightarrow> (string, task_state) dict
    \<Rightarrow> (string, task_state) dict" where
  "kill_zombie ends hours tid d = (case dget d tid of None \<Rightarrow> d
     | Some t \<Rightarrow> dset tid (stop_clock (ends tid) (t\<lparr>tk_status := TsFailed,
         tk_error_message := Some (err_zombie hours), tk_message := msg_zombie,
         tk_progress := 0\<rparr>)) d)"

definition cleanup_zombie_tasks :: "(int \<Rightarrow> int) \<Rightarrow> pydatetime \<Rightarrow> (string \<Rightarrow> pydatetime) \<Rightarrow> int
    \<Rightarrow> memory_manager \<Rightarrow> nat \<times> memory_manager" where
  "cleanup_zombie_tasks utc now ends hours m = (let ids = zombie_tasks utc now hours m in
     (length ids, m\<lparr>mm_tasks := fold (kill_zombie ends hours) ids (mm_tasks m)\<rparr>))"

end
