(* ===== verification/MemoryProofs.thy ===== *)
theory MemoryProofs
  imports MemoryState
begin

text \<open>
  Every state of the task manager that its operations can reach keeps its tasks under their own
  ids, with a start time, and with an end time and a matching execution time once finished; the
  lists never raise, are sorted and paginated exactly, and the two cleanups touch exactly the
  tasks they are meant to.
\<close>

section \<open>Reachable states\<close>

inductive mm_step :: "memory_manager \<Rightarrow> memory_manager \<Rightarrow> bool" where
  create: "create_task tid uid code params name now m = Inr (t, m') \<Longrightarrow> mm_step m m'"
| update: "update_task_status tid u now loop m = (b, m') \<Longrightarrow> mm_step m m'"
| delete: "delete_task tid m = (b, m') \<Longrightarrow> mm_step m m'"
| remove: "remove_task tid m = (b, m') \<Longrightarrow> mm_step m m'"
| clean_old: "cleanup_old_tasks utc now h m = (n, m') \<Longrightarrow> mm_step m m'"
| clean_zombie: "cleanup_zombie_tasks utc now ends h m = (n, m') \<Longrightarrow> mm_step m m'"
| websocket: "mm_step m (set_websocket_manager b m)"

inductive mm_reachable :: "memory_manager \<Rightarrow> bool" where
  start: "mm_reachable empty_manager"
| step: "mm_reachable m \<Longrightarrow> mm_step m m' \<Longrightarrow> mm_reachable m'"

inductive_cases mm_step_E: "mm_step m m'"

section \<open>The invariant\<close>

definition task_ok :: "string \<Rightarrow> task_state \<Rightarrow> bool" where
  "task_ok k t \<longleftrightarrow> tk_task_id t = k \<and> (\<exists>st. tk_start_time t = Some st
     \<and> (status_finished (tk_status t) \<longrightarrow> (\<exists>en. tk_end_time t = Some en
          \<and> tk_execution_time t = Some (total_seconds st en))))"

definition tasks_ok :: "(string, task_state) dict \<Rightarrow> bool" where
  "tasks_ok d \<longleftrightarrow> distinct (dkeys d) \<and> (\<forall>(k, t) \<in> set d. task_ok k t)"

lemma tasks_ok_get: "tasks_ok d \<Longrightarrow> dget d k = Some t \<Longrightarrow> task_ok k t"
  by (auto simp: tasks_ok_def dest: map_of_SomeD)

lemma tasks_ok_dset: "tasks_ok d \<Longrightarrow> task_ok k t \<Longrightarrow> tasks_ok (dset k t d)"
proof -
  assume a: "tasks_ok d" "task_ok k t"
  have "set (dset k t d) \<subseteq> insert (k, t) (set d)" by (induction d) auto
  with a show ?thesis by (auto simp: tasks_ok_def dict_simps)
qed

lemma tasks_ok_ddel: "tasks_ok d \<Longrightarrow> tasks_ok (ddel k d)"
  using set_ddel [of k d] by (auto simp: tasks_ok_def distinct_dkeys_ddel)

lemma tasks_ok_ddels: "tasks_ok d \<Longrightarrow> tasks_ok (fold ddel ks d)"
  by (rule fold_keeps) (auto intro: tasks_ok_ddel)

lemma task_ok_update: "task_ok k t \<Longrightarrow> task_ok k (apply_update u now t)"
  by (auto simp: task_ok_def apply_update_def stop_clock_def Let_def)

lemma tasks_ok_kill: "tasks_ok d \<Longrightarrow> tasks_ok (kill_zombie ends h k d)"
  using tasks_ok_get [of d k]
  by (auto simp: kill_zombie_def task_ok_def stop_clock_def intro!: tasks_ok_dset split: option.splits)

lemma tasks_ok_kills: "tasks_ok d \<Longrightarrow> tasks_ok (fold (kill_zombie ends h) ks d)"
  by (rule fold_keeps) (auto intro: tasks_ok_kill)

lemma tasks_ok_create:
  assumes "create_task tid uid code params name now m = Inr (t, m')" "tasks_ok (mm_tasks m)"
  shows "tasks_ok (mm_tasks m')"
  using assms by (auto simp: create_task_def Let_def task_ok_def status_finished_def
    intro!: tasks_ok_dset split: sum.splits)

lemma push_tasks [simp]: "mm_tasks (push loop u m) = mm_tasks m"
  by (simp add: push_def)

lemma tasks_ok_update:
  assumes "update_task_status tid u now loop m = (b, m')" "tasks_ok (mm_tasks m)"
  shows "tasks_ok (mm_tasks m')"
  using assms tasks_ok_get [OF assms(2), of tid]
  by (auto simp: update_task_status_def Let_def intro!: tasks_ok_dset task_ok_update
    split: option.splits)

lemma tasks_ok_step: "mm_step m m' \<Longrightarrow> tasks_ok (mm_tasks m) \<Longrightarrow> tasks_ok (mm_tasks m')"
  by (erule mm_step_E)
     (auto simp: delete_task_def remove_task_def cleanup_old_tasks_def cleanup_zombie_tasks_def
        set_websocket_manager_def Let_def
        intro: tasks_ok_create tasks_ok_update tasks_ok_ddel tasks_ok_ddels tasks_ok_kills
        split: if_splits)

lemma reachable_tasks_ok: "mm_reachable m \<Longrightarrow> tasks_ok (mm_tasks m)"
  by (induction rule: mm_reachable.induct)
     (auto simp: empty_manager_def tasks_ok_def [of "[]"] intro: tasks_ok_step)

text \<open>
  C29: In every reachable state the ids are distinct, each task is stored under its own id and
  has a start time, and a finished task has an end time and the execution time between the two.
\<close>

theorem memory_invariant:
  assumes "mm_reachable m"
  shows "distinct (dkeys (mm_tasks m))
    \<and> (\<forall>k t. get_task k m = Some t \<longrightarrow> tk_task_id t = k \<and> (\<exists>st. tk_start_time t = Some st
        \<and> (status_finished (tk_status t) \<longrightarrow> (\<exists>en. tk_end_time t = Some en
             \<and> tk_execution_time t = Some (total_seconds st en)))))"
  using reachable_tasks_ok [OF assms] tasks_ok_get [of "mm_tasks m"]
  by (auto simp: tasks_ok_def task_ok_def get_task_def)

definition ex_manager :: memory_manager where
  "ex_manager = (case create_task ''t1'' ''u1'' ''600000'' None None (DateTime 738886 (hms 10 0 0))
     empty_manager of Inl _ \<Rightarrow> empty_manager | Inr (t, m) \<Rightarrow>
     snd (update_task_status ''t1'' \<lparr>up_status = TsCompleted, up_progress = Some 100,
       up_message = None, up_step = None, up_result = None, up_error = None\<rparr>
       (DateTime 738886 (hms 10 5 0)) False m))"

lemma ex_manager_create:
  "is_ok (create_task ''t1'' ''u1'' ''600000'' None None (DateTime 738886 (hms 10 0 0)) empty_manager)"
  by code_simp

lemma ex_manager_reachable: "mm_reachable ex_manager"
proof -
  obtain t m where c: "create_task ''t1'' ''u1'' ''600000'' None None (DateTime 738886 (hms 10 0 0))
     empty_manager = Inr (t, m)" using ex_manager_create by (auto elim!: is_ok_E)
  then have "mm_reachable m" by (blast intro: mm_reachable.intros mm_step.create)
  then show ?thesis unfolding ex_manager_def c sum.case prod.case
    by (rule mm_reachable.step) (rule mm_step.update, rule surjective_pairing)
qed

lemma ex_manager_task: "map_option tk_status (get_task ''t1'' ex_manager) = Some TsCompleted"
  by code_simp

theorem memory_invariant_witness:
  "\<exists>t st en. get_task ''t1'' ex_manager = Some t \<and> tk_start_time t = Some st
     \<and> tk_end_time t = Some en \<and> tk_execution_time t = Some (total_seconds st en)"
proof -
  obtain t where t: "get_task ''t1'' ex_manager = Some t" "tk_status t = TsCompleted"
    using ex_manager_task by auto
  with memory_invariant [OF ex_manager_reachable] show ?thesis by (fastforce simp: status_finished_def)
qed

section \<open>Lists\<close>

lemma list_item_simps [simp]:
  "tk_task_id (tv_task (list_item now t)) = tk_task_id t"
  "tk_start_time (tv_task (list_item now t)) = tk_start_time t"
  by (simp_all add: list_item_def to_dict_def Let_def split: option.split)

lemma list_tasks_reachable:
  assumes "tasks_ok (mm_tasks m)" "0 \<le> offset" "0 \<le> limit"
  shows "list_tasks P limit offset now m = Inr (take (nat limit) (drop (nat offset)
    (sort_key_desc start_key (map (list_item now) (filter P (map snd (mm_tasks m)))))))"
proof -
  have "tk_start_time t \<noteq> None" if "t \<in> set (map snd (mm_tasks m))" for t
    using that assms(1) by (auto simp: tasks_ok_def task_ok_def)
  then have "\<forall>v \<in> set (map (list_item now) (filter P (map snd (mm_tasks m)))).
    tk_start_time (tv_task v) \<noteq> None" by auto
  then have "sort_by_start (map (list_item now) (filter P (map snd (mm_tasks m)))) =
    Inr (sort_key_desc start_key (map (list_item now) (filter P (map snd (mm_tasks m)))))"
    unfolding sort_by_start_def by (meson)
  then show ?thesis using assms(2,3) by (simp add: list_tasks_def py_slice_nonneg)
qed

definition user_tasks :: "string \<Rightarrow> task_status option \<Rightarrow> memory_manager \<Rightarrow> task_state list" where
  "user_tasks uid st m = filter (\<lambda>t. tk_user_id t = uid \<and> (st = None \<or> st = Some (tk_status t)))
     (map snd (mm_tasks m))"

text \<open>
  In a reachable state the list of a user never raises: its pages are the pages of one
  list that holds exactly that user's tasks with the wanted status, newest start first.
\<close>

theorem list_user_tasks_pages:
  assumes "mm_reachable m"
  shows "\<exists>full. (\<forall>offset limit. 0 \<le> offset \<and> 0 \<le> limit \<longrightarrow>
      list_user_tasks uid st limit offset now m = Inr (take (nat limit) (drop (nat offset) full)))
    \<and> mset (map (\<lambda>v. tk_task_id (tv_task v)) full) = mset (map tk_task_id (user_tasks uid st m))
    \<and> sorted_wrt (\<lambda>v w. start_key w \<le> start_key v) full"
proof (intro exI conjI allI impI)
  let ?full = "sort_key_desc start_key (map (list_item now) (user_tasks uid st m))"
  show "list_user_tasks uid st limit offset now m = Inr (take (nat limit) (drop (nat offset) ?full))"
    if "0 \<le> offset \<and> 0 \<le> limit" for offset limit
    unfolding list_user_tasks_def user_tasks_def
    using list_tasks_reachable [OF reachable_tasks_ok [OF assms]] that by blast
  have "mset (map (\<lambda>v. tk_task_id (tv_task v)) ?full) =
    image_mset (\<lambda>v. tk_task_id (tv_task v)) (mset ?full)" by (simp only: mset_map)
  then show "mset (map (\<lambda>v. tk_task_id (tv_task v)) ?full) = mset (map tk_task_id (user_tasks uid st m))"
    by (simp add: image_mset.compositionality comp_def)
  show "sorted_wrt (\<lambda>v w. start_key w \<le> start_key v) ?full" by (rule sorted_sort_key_desc)
qed

theorem list_user_tasks_pages_witness:
  "\<exists>full. list_user_tasks ''u1'' None 20 0 (DateTime 738886 (hms 11 0 0)) ex_manager = Inr (take 20 full)
     \<and> sorted_wrt (\<lambda>v w. start_key w \<le> start_key v) full"
  using list_user_tasks_pages [OF ex_manager_reachable, of "''u1''" None "DateTime 738886 (hms 11 0 0)"]
  by (metis drop0 nat_0 nat_numeral order_refl zero_le_numeral)

section \<open>Statistics\<close>

lemma count_fold:
  "dget_default (fold (\<lambda>t c. dset (status_value (tk_status t)) (dget_default c (status_value (tk_status t)) 0 + 1) c) ts c) v 0
     = dget_default c v 0 + length (filter (\<lambda>t. status_value (tk_status t) = v) ts)"
  by (induction ts arbitrary: c) (simp_all add: dict_simps)

text \<open>The counters of the statistics are the numbers of tasks with each value of a status.\<close>

theorem statistics_exact:
  "stat_running (get_statistics m) = length (filter (\<lambda>t. status_value (tk_status t) = ''running'') (map snd (mm_tasks m)))
   \<and> stat_completed (get_statistics m) = length (filter (\<lambda>t. status_value (tk_status t) = ''completed'') (map snd (mm_tasks m)))
   \<and> stat_failed (get_statistics m) = length (filter (\<lambda>t. status_value (tk_status t) = ''failed'') (map snd (mm_tasks m)))
   \<and> (\<forall>v. dget_default (stat_counts (get_statistics m)) v 0
        = length (filter (\<lambda>t. status_value (tk_status t) = v) (map snd (mm_tasks m))))"
  unfolding get_statistics_def Let_def statistics.simps count_fold dget_default_Nil by simp

section \<open>The cleanups\<close>

lemma dget_fold_ddel: "dget (fold ddel ks d) k = (if k \<in> set ks then None else dget d k)"
  by (induction ks arbitrary: d) (auto simp: dict_simps)

lemma dget_fold_kill:
  "distinct ks \<Longrightarrow> dget (fold (kill_zombie ends h) ks d) k =
     (if k \<in> set ks then map_option (\<lambda>t. stop_clock (ends k) (t\<lparr>tk_status := TsFailed,
        tk_error_message := Some (err_zombie h), tk_message := msg_zombie, tk_progress := 0\<rparr>)) (dget d k)
      else dget d k)"
proof (induction ks arbitrary: d)
  case (Cons a ks)
  then show ?case
    by (cases "dget d a") (auto simp: kill_zombie_def dict_simps)
qed simp

lemma distinct_ids: "distinct (dkeys d) \<Longrightarrow> distinct (map fst (filter P d))"
  by (rule distinct_map_filter)

lemma mem_ids:
  "distinct (dkeys d) \<Longrightarrow> k \<in> set (map fst (filter (\<lambda>(k, t). P t) d)) \<longleftrightarrow> (\<exists>t. dget d k = Some t \<and> P t)"
  by (force dest: map_of_SomeD intro: map_of_is_SomeI)

lemma cleanup_old_get:
  assumes "distinct (dkeys (mm_tasks m))"
  shows "get_task k (snd (cleanup_old_tasks utc now h m)) =
      (case get_task k m of None \<Rightarrow> None | Some t \<Rightarrow>
         if started_before utc (cutoff_time utc now h) t \<and> status_finished (tk_status t) then None else Some t)"
  using mem_ids [OF assms, of k "\<lambda>t. started_before utc (cutoff_time utc now h) t \<and> status_finished (tk_status t)"]
  by (auto simp: get_task_def cleanup_old_tasks_def old_tasks_def Let_def dget_fold_ddel simp del: set_map split: option.splits)

lemma cleanup_zombie_get:
  assumes "distinct (dkeys (mm_tasks m))"
  shows "get_task k (snd (cleanup_zombie_tasks utc now ends h m)) =
      (case get_task k m of None \<Rightarrow> None | Some t \<Rightarrow>
         if tk_status t \<in> {TsRunning, TsPending} \<and> started_before utc (cutoff_time utc now h) t
         then Some (stop_clock (ends k) (t\<lparr>tk_status := TsFailed,
           tk_error_message := Some (err_zombie h), tk_message := msg_zombie, tk_progress := 0\<rparr>))
         else Some t)"
proof -
  have "distinct (zombie_tasks utc now h m)" unfolding zombie_tasks_def by (rule distinct_ids [OF assms])
  note kill = dget_fold_kill [OF this]
  have z: "k \<in> set (zombie_tasks utc now h m) \<longleftrightarrow> (\<exists>t. dget (mm_tasks m) k = Some t
      \<and> tk_status t \<in> {TsRunning, TsPending} \<and> started_before utc (cutoff_time utc now h) t)"
    unfolding zombie_tasks_def by (rule mem_ids [OF assms])
  have "get_task k (snd (cleanup_zombie_tasks utc now ends h m)) =
    dget (fold (kill_zombie ends h) (zombie_tasks utc now h m) (mm_tasks m)) k"
    by (simp add: get_task_def cleanup_zombie_tasks_def Let_def)
  then show ?thesis unfolding kill z get_task_def by (cases "dget (mm_tasks m) k") auto
qed

text \<open>
  In a reachable state the cleanup of old tasks removes exactly the finished tasks that
  started before the cutoff, so an active task always stays; the cleanup of zombies changes
  exactly the pending and running tasks that started before the cutoff, to failed, at
  progress 0.
\<close>

theorem cleanups_exact:
  assumes "mm_reachable m"
  shows "get_task k (snd (cleanup_old_tasks utc now h m)) =
      (case get_task k m of None \<Rightarrow> None | Some t \<Rightarrow>
         if started_before utc (cutoff_time utc now h) t \<and> status_finished (tk_status t)
         then None else Some t)
    \<and> get_task k (snd (cleanup_zombie_tasks utc now ends h m)) =
      (case get_task k m of None \<Rightarrow> None | Some t \<Rightarrow>
         if tk_status t \<in> {TsRunning, TsPending} \<and> started_before utc (cutoff_time utc now h) t
         then Some (stop_clock (ends k) (t\<lparr>tk_status := TsFailed,
           tk_error_message := Some (err_zombie h), tk_message := msg_zombie, tk_progress := 0\<rparr>))
         else Some t)"
proof -
  have d: "distinct (dkeys (mm_tasks m))" using reachable_tasks_ok [OF assms] by (simp add: tasks_ok_def)
  show ?thesis using cleanup_old_get [OF d] cleanup_zombie_get [OF d] by blast
qed

theorem cleanups_exact_witness:
  "get_task ''t1'' (snd (cleanup_old_tasks (\<lambda>s. s) (DateTime 738888 0) 24 ex_manager)) = None"
proof -
  have f: "\<exists>t. get_task ''t1'' ex_manager = Some t \<and> status_finished (tk_status t)"
    using ex_manager_task by (auto simp: status_finished_def)
  have s: "case get_task ''t1'' ex_manager of None \<Rightarrow> False | Some t \<Rightarrow>
    started_before (\<lambda>s. s) (cutoff_time (\<lambda>s. s) (DateTime 738888 0) 24) t" by code_simp
  from cleanups_exact [OF ex_manager_reachable, of "''t1''" "\<lambda>s. s" "DateTime 738888 0" 24 undefined]
    f s show ?thesis by (auto split: option.splits)
qed

end
