(* ===== verification/PyNum.thy ===== *)
theory PyNum
  imports Models
begin

text \<open>
  \<open>float(x)\<close> of Python on the values that JSON gives: numbers and bools convert, null and lists
  raise, a text converts when it is a decimal literal with surrounding white space (an optional
  sign, digits, an optional fraction, an optional exponent), rounded once to a double. The
  literals with underscores, infinities and NaN are outside the model and count as raising.
\<close>

definition code_digit :: "int \<Rightarrow> bool" where
  "code_digit n \<longleftrightarrow> 48 \<le> n \<and> n \<le> 57"

definition digits_value :: "ustr \<Rightarrow> int" where
  "digits_value ds = fold (\<lambda>d acc. acc * 10 + (d - 48)) ds 0"

definition take_sign :: "ustr \<Rightarrow> int \<times> ustr" where
  "take_sign s = (case s of [] \<Rightarrow> (1, [])
     | c # cs \<Rightarrow> if c = 45 then (-1, cs) else if c = 43 then (1, cs) else (1, s))"

text \<open>The exponent: absent, or \<open>e\<close> with an optional sign and at least one digit.\<close>

definition exponent_of :: "ustr \<Rightarrow> int option" where
  "exponent_of s = (case s of [] \<Rightarrow> Some 0
     | c # cs \<Rightarrow> if c = 101 \<or> c = 69 then
           (case take_sign cs of (sg, ds) \<Rightarrow>
              if ds \<noteq> [] \<and> list_all code_digit ds then Some (sg * digits_value ds) else None)
         else None)"

definition scale10 :: "rat \<Rightarrow> int \<Rightarrow> rat" where
  "scale10 x e = (if 0 \<le> e then x * 10 ^ nat e else x / 10 ^ nat (- e))"

definition float_literal :: "ustr \<Rightarrow> rat option" where
  "float_literal s = (case take_sign s of (sg, r) \<Rightarrow>
     let ip = takeWhile code_digit r; r1 = dropWhile code_digit r;
         (fp, r2) = (case r1 of c # cs \<Rightarrow>
             if c = 46 then (takeWhile code_digit cs, dropWhile code_digit cs) else ([], r1)
           | [] \<Rightarrow> ([], [])) in
     if ip = [] \<and> fp = [] then None
     else (case exponent_of r2 of None \<Rightarrow> None
       | Some e \<Rightarrow> Some (scale10 (of_int (sg * digits_value (ip @ fp))) (e - int (length fp)))))"

definition py_float :: "dval \<Rightarrow> pyfloat option" where
  "py_float v = (case v of
     VNone \<Rightarrow> None | VList _ \<Rightarrow> None
   | VBool b \<Rightarrow> Some (if b then 1 else 0)
   | VInt i \<Rightarrow> Some (fl (of_int i))
   | VFloat x \<Rightarrow> Some x
   | VStr s \<Rightarrow> map_option fl (float_literal (u_strip s)))"

end
