(* ===== verification/AnalysisClient.thy ===== *)
theory AnalysisClient
  imports PyNum
begin

text \<open>
  The HTTP client of \<open>pipeline/analysis_client.py\<close>: login with retries, submission of one
  stock, polling of one task until a result, and reading the result. Every HTTP exchange is a
  value: what the request gave, or the class of the exception it raised. The clock of the
  polling loop is the list of the elapsed times it reads.
\<close>

section \<open>Login\<close>

text \<open>
  A login attempt raises, answers a status other than 200, or answers 200 with a token, which
  may be missing (\<open>None\<close>) or empty.
\<close>

datatype login_resp = LoginRaised | LoginHttp int | LoginToken "string option"

definition token_of :: "login_resp \<Rightarrow> string option" where
  "token_of r = (case r of LoginToken (Some t) \<Rightarrow> (if t = [] then None else Some t) | _ \<Rightarrow> None)"

definition login_max_retries :: nat where "login_max_retries = 3"

text \<open>The loop from attempt \<open>a\<close> with \<open>n\<close> attempts left: the token and the seconds slept.\<close>

fun login_loop :: "(nat \<Rightarrow> login_resp) \<Rightarrow> nat \<Rightarrow> nat \<Rightarrow> nat \<Rightarrow> string option \<times> nat" where
  "login_loop resp a 0 slept = (None, slept)"
| "login_loop resp a (Suc n) slept = (case token_of (resp a) of
      Some t \<Rightarrow> (Some t, slept)
    | None \<Rightarrow> login_loop resp (a + 1) n (if a < login_max_retries then slept + 2 * a else slept))"

definition login :: "(nat \<Rightarrow> login_resp) \<Rightarrow> string option" where
  "login resp = fst (login_loop resp 1 login_max_retries 0)"

section \<open>Submission\<close>

definition normalize_code :: "string \<Rightarrow> string" where
  "normalize_code code = before (CHR ''.'') code"

record submit_payload =
  sp_symbols :: "string list"
  sp_analysis_date :: int
  sp_research_depth :: ustr
  sp_analysts :: "string list"
  sp_quick_model :: string
  sp_deep_model :: string

record client_config =
  cc_research_depth :: ustr
  cc_analysts :: "string list"
  cc_analysis_date :: int

definition payload_of :: "client_config \<Rightarrow> stock_filter_data \<Rightarrow> string \<Rightarrow> submit_payload" where
  "payload_of c x model = \<lparr>sp_symbols = [normalize_code (sf_code x)],
     sp_analysis_date = cc_analysis_date c, sp_research_depth = cc_research_depth c,
     sp_analysts = cc_analysts c, sp_quick_model = model, sp_deep_model = model\<rparr>"

text \<open>\<open>SubmitIds\<close> carries the list \<open>task_ids\<close>, empty when the key is missing.\<close>

datatype submit_resp = SubmitRaised string | SubmitHttp int | SubmitIds "string list"

datatype submit_error = SubRaised string | SubHttp int | SubNoIds

definition submit_one :: "(submit_payload \<Rightarrow> submit_resp) \<Rightarrow> client_config \<Rightarrow> stock_filter_data
    \<Rightarrow> string \<Rightarrow> (submit_error, string) result" where
  "submit_one post c x model = (case post (payload_of c x model) of
     SubmitRaised e \<Rightarrow> Inl (SubRaised e)
   | SubmitHttp code \<Rightarrow> Inl (SubHttp code)
   | SubmitIds ids \<Rightarrow> (case ids of [] \<Rightarrow> Inl SubNoIds | t # _ \<Rightarrow> Inr t))"

section \<open>The result of a task\<close>

text \<open>The object \<open>decision\<close>: a value without \<open>get\<close> makes the code raise.\<close>

record decision =
  de_confidence :: "dval option"
  de_risk_score :: "dval option"
  de_action :: "ustr option"
  de_target_price :: "dval option"
  de_reasoning :: "ustr option"

datatype decision_field = DecisionBad | Decision decision

record result_data =
  rd_reports :: "(ustr, ustr) dict option"
  rd_decision :: decision_field
  rd_confidence_score :: "dval option"
  rd_recommendation :: "ustr option"
  rd_risk_level :: "ustr option"
  rd_summary :: "ustr option"

datatype fetch_resp = FetchRaised string | FetchHttp int | FetchData result_data

definition failed_result :: "string \<Rightarrow> pyfloat \<Rightarrow> err_text \<Rightarrow> stock_analysis_result" where
  "failed_result c el e = (new_analysis_result c)\<lparr>ar_status := ArFailed, ar_execution_time := el,
     ar_error_message := Some e\<rparr>"

definition to_percent :: "pyfloat \<Rightarrow> pyfloat" where
  "to_percent x = (if x \<le> 1 then fmul x 100 else x)"

definition completed_result :: "string \<Rightarrow> pyfloat \<Rightarrow> result_data \<Rightarrow> decision \<Rightarrow> pyfloat \<Rightarrow> pyfloat
    \<Rightarrow> pyfloat \<Rightarrow> stock_analysis_result" where
  "completed_result c el d de conf risk target = (new_analysis_result c)\<lparr>ar_status := ArCompleted,
     ar_recommendation := or_default (rd_recommendation d) (or_default (de_action de) []),
     ar_confidence_score := to_percent conf, ar_risk_score := to_percent risk,
     ar_risk_level := or_default (rd_risk_level d) [], ar_target_price := target,
     ar_summary := or_default (rd_summary d) (or_default (de_reasoning de) []),
     ar_analyst_reports := or_default (rd_reports d) [], ar_execution_time := el\<rparr>"

definition fetch_result :: "string \<Rightarrow> pyfloat \<Rightarrow> fetch_resp \<Rightarrow> stock_analysis_result" where
  "fetch_result c el resp = (case resp of
     FetchRaised e \<Rightarrow> failed_result c el (EParse e)
   | FetchHttp code \<Rightarrow> failed_result c el (EFetchHttp code)
   | FetchData d \<Rightarrow> (case rd_decision d of
       DecisionBad \<Rightarrow> failed_result c el (EParse ''AttributeError'')
     | Decision de \<Rightarrow>
         (case (py_float (or_default (rd_confidence_score d) (or_default (de_confidence de) (VInt 0))),
                py_float (or_default (de_risk_score de) (VInt 0)),
                py_float (or_default (de_target_price de) (VInt 0))) of
            (Some conf, Some risk, Some target) \<Rightarrow> completed_result c el d de conf risk target
          | _ \<Rightarrow> failed_result c el (EParse ''float''))))"

section \<open>Polling\<close>

text \<open>
  The answer of one status request: a connection error, another exception (of the request or
  of reading its JSON), a status other than 200, or the task's status with its error text.
\<close>

datatype task_answer = AnsCompleted fetch_resp | AnsFailed "ustr option" | AnsOther string

datatype poll_resp = PollConnError | PollRaised | PollHttp int | PollStatus task_answer

text \<open>One round of the loop: the elapsed time, the answer, and the logins if a refresh is due.\<close>

record poll_round =
  po_elapsed :: pyfloat
  po_resp :: poll_resp
  po_login :: "nat \<Rightarrow> login_resp"

record poll_state =
  ps_401 :: nat
  ps_conn :: nat
  ps_token :: string

definition txt_analysis_failed :: ustr where
  "txt_analysis_failed = [20998, 26512, 22833, 36133]"

definition max_conn_errors :: nat where "max_conn_errors = 10"

definition timeout_result :: "string \<Rightarrow> int \<Rightarrow> pyfloat \<Rightarrow> stock_analysis_result" where
  "timeout_result c timeout el = (new_analysis_result c)\<lparr>ar_status := ArTimeout,
     ar_execution_time := el, ar_error_message := Some (EAnalysisTimeout timeout)\<rparr>"

text \<open>The branch of a 401: after three in a row every further one tries to log in again.\<close>

definition on_401 :: "(nat \<Rightarrow> login_resp) \<Rightarrow> poll_state \<Rightarrow> poll_state" where
  "on_401 logins s = (let n = ps_401 s + 1 in
     if 3 \<le> n then (case login logins of
         Some t \<Rightarrow> s\<lparr>ps_401 := 0, ps_conn := 0, ps_token := t\<rparr>
       | None \<Rightarrow> s\<lparr>ps_401 := n, ps_conn := 0\<rparr>)
     else s\<lparr>ps_401 := n, ps_conn := 0\<rparr>)"

text \<open>One round: \<open>Inr\<close> the result returned, \<open>Inl\<close> the state of the next round.\<close>

definition poll_step :: "string \<Rightarrow> int \<Rightarrow> poll_round \<Rightarrow> poll_state
    \<Rightarrow> poll_state + stock_analysis_result" where
  "poll_step c timeout r s =
     (if of_int timeout \<le> po_elapsed r then Inr (timeout_result c timeout (po_elapsed r))
      else (case po_resp r of
        PollHttp code \<Rightarrow> if code = 401 then Inl (on_401 (po_login r) s)
            else Inl (s\<lparr>ps_401 := 0, ps_conn := 0\<rparr>)
      | PollStatus a \<Rightarrow> (case a of
            AnsCompleted f \<Rightarrow> Inr (fetch_result c (po_elapsed r) f)
          | AnsFailed e \<Rightarrow> Inr (failed_result c (po_elapsed r) (EText (or_default e txt_analysis_failed)))
          | AnsOther _ \<Rightarrow> Inl (s\<lparr>ps_401 := 0, ps_conn := 0\<rparr>))
      | PollConnError \<Rightarrow> if max_conn_errors \<le> ps_conn s + 1
            then Inr (failed_result c (po_elapsed r) (EServiceUnavailable (ps_conn s + 1)))
            else Inl (s\<lparr>ps_conn := ps_conn s + 1\<rparr>)
      | PollRaised \<Rightarrow> Inl (s\<lparr>ps_401 := 0, ps_conn := 0\<rparr>)))"

text \<open>The loop over the rounds the environment gives; \<open>None\<close> when they end before it does.\<close>

fun poll_loop :: "string \<Rightarrow> int \<Rightarrow> poll_round list \<Rightarrow> poll_state \<Rightarrow> stock_analysis_result option" where
  "poll_loop c timeout [] s = None"
| "poll_loop c timeout (r # rs) s = (case poll_step c timeout r s of
      Inr x \<Rightarrow> Some x | Inl s' \<Rightarrow> poll_loop c timeout rs s')"

definition poll_one :: "stock_filter_data \<Rightarrow> int \<Rightarrow> string \<Rightarrow> poll_round list
    \<Rightarrow> stock_analysis_result option" where
  "poll_one x timeout token rs =
     poll_loop (sf_code x) timeout rs \<lparr>ps_401 = 0, ps_conn = 0, ps_token = token\<rparr>"

section \<open>Facts\<close>

lemma fetch_result_simps [simp]:
  "ar_code (fetch_result c el f) = c" "ar_execution_time (fetch_result c el f) = el"
  by (simp_all add: fetch_result_def failed_result_def completed_result_def new_analysis_result_def
    split: fetch_resp.split decision_field.split option.split)

lemma fetch_result_status: "ar_status (fetch_result c el f) \<in> {ArCompleted, ArFailed}"
  by (simp add: fetch_result_def failed_result_def completed_result_def new_analysis_result_def
    split: fetch_resp.split decision_field.split option.split)

lemma fetch_result_not [simp]:
  "ar_status (fetch_result c el f) \<noteq> ArPending" "ar_status (fetch_result c el f) \<noteq> ArTimeout"
  using fetch_result_status [of c el f] by auto

lemma poll_step_result:
  "poll_step c timeout r s = Inr x \<Longrightarrow>
     ar_code x = c \<and> ar_execution_time x = po_elapsed r \<and> ar_status x \<noteq> ArPending
     \<and> (ar_status x = ArTimeout \<longleftrightarrow> of_int timeout \<le> po_elapsed r)
     \<and> (ar_status x = ArCompleted \<longrightarrow> (\<exists>f. po_resp r = PollStatus (AnsCompleted f)
          \<and> x = fetch_result c (po_elapsed r) f))"
  by (auto simp: poll_step_def timeout_result_def failed_result_def new_analysis_result_def
    split: if_splits poll_resp.splits task_answer.splits)

text \<open>
  C39: Polling returns as soon as a round reads an elapsed time at or beyond the timeout, if
  it has not returned before; what it returns carries the stock's code, is never pending, is a
  timeout exactly when the round's time is beyond the limit, and is completed only when the
  service reported completion in that round and the result could be read.
\<close>

theorem poll_one_returns:
  assumes "\<exists>r \<in> set rs. of_int timeout \<le> po_elapsed r"
  shows "\<exists>x r. poll_one st timeout token rs = Some x \<and> r \<in> set rs \<and> ar_code x = sf_code st
    \<and> ar_execution_time x = po_elapsed r \<and> ar_status x \<noteq> ArPending
    \<and> (ar_status x = ArTimeout \<longleftrightarrow> of_int timeout \<le> po_elapsed r)
    \<and> (ar_status x = ArCompleted \<longrightarrow> (\<exists>f. po_resp r = PollStatus (AnsCompleted f)
         \<and> x = fetch_result (sf_code st) (po_elapsed r) f))"
proof -
  have "\<exists>x r. poll_loop c timeout rs s = Some x \<and> r \<in> set rs \<and> ar_code x = c
    \<and> ar_execution_time x = po_elapsed r \<and> ar_status x \<noteq> ArPending
    \<and> (ar_status x = ArTimeout \<longleftrightarrow> of_int timeout \<le> po_elapsed r)
    \<and> (ar_status x = ArCompleted \<longrightarrow> (\<exists>f. po_resp r = PollStatus (AnsCompleted f)
         \<and> x = fetch_result c (po_elapsed r) f))" for c s
    using assms
  proof (induction rs arbitrary: s)
    case (Cons r rs)
    show ?case
    proof (cases "poll_step c timeout r s")
      case (Inr x)
      with poll_step_result [OF Inr] show ?thesis by auto
    next
      case (Inl s')
      then have "\<not> of_int timeout \<le> po_elapsed r" by (auto simp: poll_step_def)
      with Cons.prems have "\<exists>r \<in> set rs. of_int timeout \<le> po_elapsed r" by auto
      from Cons.IH [OF this, of s'] Inl show ?thesis by auto
    qed
  qed simp
  then show ?thesis unfolding poll_one_def by blast
qed

text \<open>
  The rounds with a connection error at the end of a list: the counter is never larger, and is
  reset by any other round.
\<close>

definition trailing_conn :: "poll_round list \<Rightarrow> nat" where
  "trailing_conn rs = length (takeWhile (\<lambda>r. po_resp r = PollConnError) (rev rs))"

lemma trailing_conn_snoc [simp]:
  "trailing_conn (rs @ [r]) = (if po_resp r = PollConnError then trailing_conn rs + 1 else 0)"
  by (simp add: trailing_conn_def)

lemma poll_step_conn:
  "poll_step c timeout r s = Inl s' \<Longrightarrow>
     ps_conn s' = (if po_resp r = PollConnError then ps_conn s + 1 else 0)"
  by (auto simp: poll_step_def on_401_def Let_def
    split: if_splits poll_resp.splits task_answer.splits option.splits)

lemma poll_step_unavailable:
  "poll_step c timeout r s = Inr x \<Longrightarrow> ar_error_message x = Some (EServiceUnavailable n) \<Longrightarrow>
     po_resp r = PollConnError \<and> n = ps_conn s + 1 \<and> max_conn_errors \<le> n"
  by (auto simp: poll_step_def timeout_result_def failed_result_def new_analysis_result_def
    fetch_result_def completed_result_def
    split: if_splits poll_resp.splits task_answer.splits fetch_resp.splits decision_field.splits
      option.splits)

lemma poll_loop_unavailable:
  assumes "poll_loop c timeout rs s = Some x" "ar_error_message x = Some (EServiceUnavailable n)"
    "ps_conn s = trailing_conn pre" "ps_conn s < max_conn_errors"
  shows "\<exists>us vs. pre @ rs = us @ vs \<and> n = max_conn_errors \<and> trailing_conn us = n"
  using assms(1,3,4)
proof (induction rs arbitrary: s pre)
  case (Cons r rs)
  show ?case
  proof (cases "poll_step c timeout r s")
    case (Inr y)
    with Cons.prems have "y = x" by simp
    with poll_step_unavailable [OF Inr] assms(2) Cons.prems
    have "trailing_conn (pre @ [r]) = n" "n = max_conn_errors" by auto
    then show ?thesis by (intro exI [of _ "pre @ [r]"] exI [of _ rs]) auto
  next
    case (Inl s')
    have "ps_conn s' = trailing_conn (pre @ [r])"
      using poll_step_conn [OF Inl] Cons.prems(2) by simp
    moreover have "ps_conn s' < max_conn_errors"
      using Inl Cons.prems(3) poll_step_conn [OF Inl]
      by (auto simp: poll_step_def max_conn_errors_def split: if_splits)
    moreover have "poll_loop c timeout rs s' = Some x" using Cons.prems(1) Inl by simp
    ultimately show ?thesis using Cons.IH [of s' "pre @ [r]"] by simp
  qed
qed simp

text \<open>
  The service is declared unavailable only after exactly ten rounds in a row whose
  request met a connection error.
\<close>

theorem poll_unavailable_after_ten:
  assumes "poll_one st timeout token rs = Some x"
    "ar_error_message x = Some (EServiceUnavailable n)"
  shows "n = 10 \<and> (\<exists>us vs. rs = us @ vs \<and> trailing_conn us = 10)"
  using poll_loop_unavailable [of "sf_code st" timeout rs "\<lparr>ps_401 = 0, ps_conn = 0, ps_token = token\<rparr>"
    x n "[]"] assms
  by (auto simp: poll_one_def trailing_conn_def max_conn_errors_def)

lemma fmul_100_bounds:
  assumes "0 \<le> x" "x \<le> 1"
  shows "0 \<le> fmul x 100 \<and> fmul x 100 \<le> 100"
proof -
  have "fl (x * 100) \<le> fl 100" using assms by (intro fl_mono) simp
  moreover have "0 \<le> fl (x * 100)" using assms by (intro fl_nonneg) simp
  ultimately show ?thesis by (simp add: fmul_def fl_numeral)
qed

text \<open>
  A confidence between 0 and 100, whether given as a fraction or in percent, is stored as
  a number between 0 and 100.
\<close>

theorem fetch_confidence_bounds:
  assumes "rd_decision d = Decision de" "ar_status (fetch_result c el (FetchData d)) = ArCompleted"
    "py_float (or_default (rd_confidence_score d) (or_default (de_confidence de) (VInt 0))) = Some v"
    "0 \<le> v" "v \<le> 100"
  shows "0 \<le> ar_confidence_score (fetch_result c el (FetchData d))
    \<and> ar_confidence_score (fetch_result c el (FetchData d)) \<le> 100"
  using assms fmul_100_bounds [of v]
  by (auto simp: fetch_result_def failed_result_def completed_result_def to_percent_def
    new_analysis_result_def split: option.splits)

section \<open>Witnesses\<close>

definition ex_poll_stock :: stock_filter_data where
  "ex_poll_stock = \<lparr>sf_code = ''600000.SH'', sf_name = [], sf_exchange = [], sf_result = True,
     sf_tags = [], sf_details = []\<rparr>"

definition ex_rounds :: "poll_resp \<Rightarrow> poll_round list" where
  "ex_rounds r = map (\<lambda>t. \<lparr>po_elapsed = t, po_resp = r, po_login = (\<lambda>_. LoginRaised)\<rparr>)
     [0, 30, 60, 90, 120, 150, 180, 210, 240, 270, 300]"

theorem poll_one_returns_witness:
  "\<exists>x. poll_one ex_poll_stock 300 ''t'' (ex_rounds (PollHttp 401)) = Some x
     \<and> ar_code x = ''600000.SH'' \<and> ar_status x \<noteq> ArPending"
  using poll_one_returns [of "ex_rounds (PollHttp 401)" 300 ex_poll_stock "''t''"]
  by (auto simp: ex_rounds_def ex_poll_stock_def)

lemma ex_unavailable:
  "map_option ar_error_message (poll_one ex_poll_stock 300 ''t'' (ex_rounds PollConnError))
     = Some (Some (EServiceUnavailable 10))"
  by code_simp

theorem poll_unavailable_after_ten_witness:
  "\<exists>us vs. ex_rounds PollConnError = us @ vs \<and> trailing_conn us = 10"
  using ex_unavailable poll_unavailable_after_ten [of ex_poll_stock 300 "''t''" "ex_rounds PollConnError"]
  by auto

definition ex_result :: result_data where
  "ex_result = \<lparr>rd_reports = None, rd_decision = Decision \<lparr>de_confidence = Some (VFloat (3/4)),
     de_risk_score = None, de_action = None, de_target_price = None, de_reasoning = None\<rparr>,
     rd_confidence_score = None, rd_recommendation = None, rd_risk_level = None, rd_summary = None\<rparr>"

theorem fetch_confidence_bounds_witness:
  "ar_confidence_score (fetch_result ''600000'' 5 (FetchData ex_result)) \<le> 100"
proof -
  have s: "ar_status (fetch_result ''600000'' 5 (FetchData ex_result)) = ArCompleted" by code_simp
  show ?thesis
    using fetch_confidence_bounds [OF _ s, of "\<lparr>de_confidence = Some (VFloat (3/4)),
      de_risk_score = None, de_action = None, de_target_price = None, de_reasoning = None\<rparr>" "3/4"]
    by (simp add: ex_result_def py_float_def)
qed

end
