(* ===== verification/QueueService.thy ===== *)
theory QueueService
  imports PyStr
begin

text \<open>
  The task queue on Redis, \<open>app/services/queue_service.py\<close> with \<open>queue/helpers.py\<close> and
  \<open>queue/keys.py\<close>. Redis is not part of the repository: its commands are the parameter
  \<open>R :: 'r redis\<close>, functions on a state of an unknown type that answer a value or raise. What
  the code relies on is \<open>redis_laws\<close> below: the documented effect of each command on lists,
  sets and hashes, where a command that raises may have been applied or not. The commands of
  one operation run without commands of other clients in between. The clock readings and the
  uuid are arguments.
\<close>

section \<open>Commands that may raise\<close>

datatype q_error = QUserLimit | QGlobalLimit | QRedis | QTypeError | QValueError

type_synonym ('a, 'r) cmd = "'r \<Rightarrow> (q_error + 'a) \<times> 'r"

definition rret :: "'a \<Rightarrow> ('a, 'r) cmd" where
  "rret x = (\<lambda>s. (Inr x, s))"

definition rraise :: "q_error \<Rightarrow> ('a, 'r) cmd" where
  "rraise e = (\<lambda>s. (Inl e, s))"

definition rbind :: "('a, 'r) cmd \<Rightarrow> ('a \<Rightarrow> ('b, 'r) cmd) \<Rightarrow> ('b, 'r) cmd" where
  "rbind m f = (\<lambda>s. case m s of (Inl e, t) \<Rightarrow> (Inl e, t) | (Inr x, t) \<Rightarrow> f x t)"

definition rseq :: "('a, 'r) cmd \<Rightarrow> ('b, 'r) cmd \<Rightarrow> ('b, 'r) cmd" where
  "rseq m n = rbind m (\<lambda>_. n)"

text \<open>\<open>try: m except Exception: return d\<close>\<close>

definition rtry :: "('a, 'r) cmd \<Rightarrow> 'a \<Rightarrow> ('a, 'r) cmd" where
  "rtry m d = (\<lambda>s. case m s of (Inl e, t) \<Rightarrow> (Inr d, t) | (Inr x, t) \<Rightarrow> (Inr x, t))"

fun rmap_all :: "('a \<Rightarrow> (unit, 'r) cmd) \<Rightarrow> 'a list \<Rightarrow> (unit, 'r) cmd" where
  "rmap_all f [] = rret ()"
| "rmap_all f (x # xs) = rseq (f x) (rmap_all f xs)"

type_synonym hash = "(string, string) dict"

text \<open>The commands of the client that the code calls; \<open>rpop\<close> and \<open>hgetall\<close> may find nothing.\<close>

record 'r redis =
  r_lpush :: "string \<Rightarrow> string \<Rightarrow> (unit, 'r) cmd"
  r_rpop :: "string \<Rightarrow> (string option, 'r) cmd"
  r_lrem :: "string \<Rightarrow> string \<Rightarrow> (unit, 'r) cmd"
  r_llen :: "string \<Rightarrow> (nat, 'r) cmd"
  r_sadd :: "string \<Rightarrow> string \<Rightarrow> (unit, 'r) cmd"
  r_srem :: "string \<Rightarrow> string \<Rightarrow> (unit, 'r) cmd"
  r_scard :: "string \<Rightarrow> (nat, 'r) cmd"
  r_smembers :: "string \<Rightarrow> (string list, 'r) cmd"
  r_hset :: "string \<Rightarrow> (string, string) dict \<Rightarrow> (unit, 'r) cmd"
  r_hgetall :: "string \<Rightarrow> (hash, 'r) cmd"
  r_expire :: "string \<Rightarrow> int \<Rightarrow> (unit, 'r) cmd"
  r_delete :: "string \<Rightarrow> (unit, 'r) cmd"
  r_keys :: "string \<Rightarrow> (string list, 'r) cmd"

section \<open>Keys and limits\<close>

definition READY_LIST :: string where "READY_LIST = ''qa:ready''"
definition TASK_PREFIX :: string where "TASK_PREFIX = ''qa:task:''"
definition BATCH_PREFIX :: string where "BATCH_PREFIX = ''qa:batch:''"
definition SET_PROCESSING :: string where "SET_PROCESSING = ''qa:processing''"
definition SET_COMPLETED :: string where "SET_COMPLETED = ''qa:completed''"
definition SET_FAILED :: string where "SET_FAILED = ''qa:failed''"
definition BATCH_TASKS_PREFIX :: string where "BATCH_TASKS_PREFIX = ''qa:batch_tasks:''"
definition USER_PROCESSING_PREFIX :: string where "USER_PROCESSING_PREFIX = ''qa:user_processing:''"
definition VISIBILITY_TIMEOUT_PREFIX :: string where "VISIBILITY_TIMEOUT_PREFIX = ''qa:visibility:''"
definition DEFAULT_USER_CONCURRENT_LIMIT :: nat where "DEFAULT_USER_CONCURRENT_LIMIT = 3"
definition GLOBAL_CONCURRENT_LIMIT :: nat where "GLOBAL_CONCURRENT_LIMIT = 3"
definition VISIBILITY_TIMEOUT_SECONDS :: int where "VISIBILITY_TIMEOUT_SECONDS = 300"

lemmas queue_keys = READY_LIST_def TASK_PREFIX_def BATCH_PREFIX_def SET_PROCESSING_def
  SET_COMPLETED_def SET_FAILED_def BATCH_TASKS_PREFIX_def USER_PROCESSING_PREFIX_def
  VISIBILITY_TIMEOUT_PREFIX_def

section \<open>Helpers\<close>

definition check_user_concurrent_limit :: "'r redis \<Rightarrow> string \<Rightarrow> nat \<Rightarrow> (bool, 'r) cmd" where
  "check_user_concurrent_limit R user limit =
     rbind (r_scard R (USER_PROCESSING_PREFIX @ user)) (\<lambda>n. rret (n < limit))"

definition check_global_concurrent_limit :: "'r redis \<Rightarrow> nat \<Rightarrow> (bool, 'r) cmd" where
  "check_global_concurrent_limit R limit = rbind (r_scard R SET_PROCESSING) (\<lambda>n. rret (n < limit))"

definition mark_task_processing :: "'r redis \<Rightarrow> string \<Rightarrow> string \<Rightarrow> (unit, 'r) cmd" where
  "mark_task_processing R tid user =
     rseq (r_sadd R (USER_PROCESSING_PREFIX @ user) tid) (r_sadd R SET_PROCESSING tid)"

definition unmark_task_processing :: "'r redis \<Rightarrow> string \<Rightarrow> string \<Rightarrow> (unit, 'r) cmd" where
  "unmark_task_processing R tid user =
     rseq (r_srem R (USER_PROCESSING_PREFIX @ user) tid) (r_srem R SET_PROCESSING tid)"

definition set_visibility_timeout :: "'r redis \<Rightarrow> string \<Rightarrow> string \<Rightarrow> int \<Rightarrow> int \<Rightarrow> (unit, 'r) cmd" where
  "set_visibility_timeout R tid worker timeout now =
     rseq (r_hset R (VISIBILITY_TIMEOUT_PREFIX @ tid) [(''task_id'', tid), (''worker_id'', worker),
        (''timeout_at'', int_str (now + timeout))])
       (r_expire R (VISIBILITY_TIMEOUT_PREFIX @ tid) timeout)"

definition clear_visibility_timeout :: "'r redis \<Rightarrow> string \<Rightarrow> (unit, 'r) cmd" where
  "clear_visibility_timeout R tid = r_delete R (VISIBILITY_TIMEOUT_PREFIX @ tid)"

section \<open>Reading tasks and batches\<close>

text \<open>
  \<open>int(s)\<close> of a decimal text with an optional sign and surrounding space; other texts raise
  (literals with underscores are outside the model).
\<close>

definition digits_int :: "string \<Rightarrow> int" where
  "digits_int s = fold (\<lambda>c acc. acc * 10 + (of_char c - 48)) s 0"

definition py_int :: "string \<Rightarrow> int option" where
  "py_int s = (case py_strip s of [] \<Rightarrow> None
     | c # cs \<Rightarrow> (let ds = (if c = CHR ''-'' \<or> c = CHR ''+'' then cs else c # cs) in
         if ds \<noteq> [] \<and> list_all re_digit ds
         then Some (if c = CHR ''-'' then - digits_int ds else digits_int ds) else None))"

text \<open>
  A field of the parsed data: its text, an integer, or the value that \<open>json.loads\<close> gives for a
  text (the empty dict when it raises).
\<close>

datatype field = FText string | FInt int | FJson string

type_synonym task_data = "(string, field) dict"

definition text_fields :: "hash \<Rightarrow> task_data" where
  "text_fields h = map (\<lambda>(k, v). (k, FText v)) h"

text \<open>Replace a field that is all digits by its integer; \<open>int\<close> raises on digits like superscripts.\<close>

definition parse_digits :: "string \<Rightarrow> task_data \<Rightarrow> (task_data, 'r) cmd" where
  "parse_digits k d = (case dget d k of
     Some (FText t) \<Rightarrow> if py_isdigit t then
         (case py_int t of None \<Rightarrow> rraise QValueError | Some i \<Rightarrow> rret (dset k (FInt i) d))
       else rret d
   | _ \<Rightarrow> rret d)"

definition parse_params :: "task_data \<Rightarrow> task_data" where
  "parse_params d = (case dget d ''params'' of
     Some (FText t) \<Rightarrow> dset ''parameters'' (FJson t) (ddel ''params'' d)
   | _ \<Rightarrow> d)"

definition get_task :: "'r redis \<Rightarrow> string \<Rightarrow> (task_data option, 'r) cmd" where
  "get_task R tid = rbind (r_hgetall R (TASK_PREFIX @ tid)) (\<lambda>h.
     if h = [] then rret None
     else rbind (parse_digits ''created_at'' (parse_params (text_fields h))) (\<lambda>d.
          rbind (parse_digits ''submitted'' d) (\<lambda>d'. rret (Some d'))))"

record batch_data =
  bd_fields :: task_data
  bd_tasks :: "string list"

definition get_batch :: "'r redis \<Rightarrow> string \<Rightarrow> (batch_data option, 'r) cmd" where
  "get_batch R bid = rbind (r_hgetall R (BATCH_PREFIX @ bid)) (\<lambda>h.
     if h = [] then rret None
     else rbind (parse_digits ''submitted'' (text_fields h)) (\<lambda>d.
          rbind (parse_digits ''created_at'' d) (\<lambda>d'.
          rbind (r_smembers R (BATCH_TASKS_PREFIX @ bid)) (\<lambda>ts.
          rret (Some \<lparr>bd_fields = d', bd_tasks = ts\<rparr>)))))"

text \<open>
  \<open>task_data.get('user')\<close> used in a key: a missing user is \<open>None\<close>, and the concatenation raises.
\<close>

definition user_of :: "task_data \<Rightarrow> (string, 'r) cmd" where
  "user_of d = (case dget d ''user'' of Some (FText u) \<Rightarrow> rret u | _ \<Rightarrow> rraise QTypeError)"

section \<open>The operations of the service\<close>

definition enqueue_task :: "'r redis \<Rightarrow> string \<Rightarrow> string \<Rightarrow> string \<Rightarrow> string option \<Rightarrow> string \<Rightarrow> int
    \<Rightarrow> (string, 'r) cmd" where
  "enqueue_task R user symbol params batch tid now =
     rbind (check_user_concurrent_limit R user DEFAULT_USER_CONCURRENT_LIMIT) (\<lambda>ok.
     if \<not> ok then rraise QUserLimit else
     rbind (check_global_concurrent_limit R GLOBAL_CONCURRENT_LIMIT) (\<lambda>ok.
     if \<not> ok then rraise QGlobalLimit else
     rseq (r_hset R (TASK_PREFIX @ tid) ([(''id'', tid), (''user'', user), (''symbol'', symbol),
         (''status'', ''queued''), (''created_at'', int_str now), (''params'', params),
         (''enqueued_at'', int_str now)]
         @ (if or_default batch [] \<noteq> [] then [(''batch_id'', or_default batch [])] else [])))
     (rseq (r_lpush R READY_LIST tid)
     (rseq (if or_default batch [] \<noteq> [] then r_sadd R (BATCH_TASKS_PREFIX @ or_default batch []) tid
            else rret ())
     (rret tid)))))"

text \<open>Dequeuing in three parts: from the pop, from the task's data, from the granted slot.\<close>

definition start_task :: "'r redis \<Rightarrow> string \<Rightarrow> string \<Rightarrow> string \<Rightarrow> int \<Rightarrow> int \<Rightarrow> (unit, 'r) cmd" where
  "start_task R worker tid user t1 t2 =
     rseq (mark_task_processing R tid user)
     (rseq (set_visibility_timeout R tid worker VISIBILITY_TIMEOUT_SECONDS t1)
       (r_hset R (TASK_PREFIX @ tid) [(''status'', ''processing''),
         (''worker_id'', worker), (''started_at'', int_str t2)]))"

definition dequeue_data :: "'r redis \<Rightarrow> string \<Rightarrow> int \<Rightarrow> int \<Rightarrow> string \<Rightarrow> task_data
    \<Rightarrow> (task_data option, 'r) cmd" where
  "dequeue_data R worker t1 t2 tid data = rbind (user_of data) (\<lambda>user.
     rbind (check_user_concurrent_limit R user DEFAULT_USER_CONCURRENT_LIMIT) (\<lambda>ok.
       if \<not> ok then rseq (r_lpush R READY_LIST tid) (rret None)
       else rseq (start_task R worker tid user t1 t2) (rret (Some data))))"

definition dequeue_body :: "'r redis \<Rightarrow> string \<Rightarrow> int \<Rightarrow> int \<Rightarrow> (task_data option, 'r) cmd" where
  "dequeue_body R worker t1 t2 = rbind (r_rpop R READY_LIST) (\<lambda>x.
     if or_default x [] = [] then rret None
     else rbind (get_task R (or_default x [])) (\<lambda>d. case d of
         None \<Rightarrow> rret None
       | Some data \<Rightarrow> dequeue_data R worker t1 t2 (or_default x []) data))"

definition dequeue_task :: "'r redis \<Rightarrow> string \<Rightarrow> int \<Rightarrow> int
    \<Rightarrow> (task_data option, 'r) cmd" where
  "dequeue_task R worker t1 t2 = rtry (dequeue_body R worker t1 t2) None"

definition ack_task :: "'r redis \<Rightarrow> string \<Rightarrow> bool \<Rightarrow> int \<Rightarrow> (bool, 'r) cmd" where
  "ack_task R tid succ now = rtry (rbind (get_task R tid) (\<lambda>d. case d of
     None \<Rightarrow> rret False
   | Some data \<Rightarrow> rbind (user_of data) (\<lambda>user.
       rseq (unmark_task_processing R tid user)
       (rseq (clear_visibility_timeout R tid)
       (rseq (r_hset R (TASK_PREFIX @ tid) [(''status'', if succ then ''completed'' else ''failed''),
          (''completed_at'', int_str now)])
       (rseq (r_sadd R (if succ then SET_COMPLETED else SET_FAILED) tid)
       (rret True))))))) False"

text \<open>The uuids and clock readings of the tasks of a batch are given with the symbols.\<close>

definition create_batch :: "'r redis \<Rightarrow> string \<Rightarrow> string \<Rightarrow> string \<Rightarrow> int
    \<Rightarrow> (string \<times> string \<times> int) list \<Rightarrow> (string \<times> nat, 'r) cmd" where
  "create_batch R user params bid now symbols =
     rseq (r_hset R (BATCH_PREFIX @ bid) [(''id'', bid), (''user'', user), (''status'', ''queued''),
        (''submitted'', int_str (int (length symbols))), (''created_at'', int_str now)])
     (rseq (rmap_all (\<lambda>(sym, tid, t). rbind (enqueue_task R user sym params (Some bid) tid t)
        (\<lambda>_. rret ())) symbols)
     (rret (bid, length symbols)))"

record queue_stats =
  qs_queued :: nat
  qs_processing :: nat
  qs_completed :: nat
  qs_failed :: nat

definition stats :: "'r redis \<Rightarrow> (queue_stats, 'r) cmd" where
  "stats R = rbind (r_llen R READY_LIST) (\<lambda>q. rbind (r_scard R SET_PROCESSING) (\<lambda>p.
     rbind (r_scard R SET_COMPLETED) (\<lambda>c. rbind (r_scard R SET_FAILED) (\<lambda>f.
     rret \<lparr>qs_queued = q, qs_processing = p, qs_completed = c, qs_failed = f\<rparr>))))"

definition get_user_queue_status :: "'r redis \<Rightarrow> string \<Rightarrow> (nat \<times> nat \<times> int, 'r) cmd" where
  "get_user_queue_status R user = rbind (r_scard R (USER_PROCESSING_PREFIX @ user)) (\<lambda>n.
     rret (n, DEFAULT_USER_CONCURRENT_LIMIT, max 0 (int DEFAULT_USER_CONCURRENT_LIMIT - int n)))"

definition handle_expired_task :: "'r redis \<Rightarrow> int \<Rightarrow> string \<Rightarrow> (unit, 'r) cmd" where
  "handle_expired_task R now tid = rtry (rbind (get_task R tid) (\<lambda>d. case d of
     None \<Rightarrow> rret ()
   | Some data \<Rightarrow> rbind (user_of data) (\<lambda>user.
       rseq (unmark_task_processing R tid user)
       (rseq (clear_visibility_timeout R tid)
       (rseq (r_lpush R READY_LIST tid)
       (r_hset R (TASK_PREFIX @ tid) [(''status'', ''queued''), (''worker_id'', []),
          (''requeued_at'', int_str now)])))))) ()"

text \<open>The task id of a visibility hash that has expired at \<open>now\<close>; \<open>int\<close> may raise.\<close>

definition expired_id :: "int \<Rightarrow> hash \<Rightarrow> (string option, 'r) cmd" where
  "expired_id now h = (if h = [] then rret None else
     (case (case dget h ''timeout_at'' of None \<Rightarrow> Some 0 | Some t \<Rightarrow> py_int t) of
        None \<Rightarrow> rraise QValueError
      | Some at \<Rightarrow> rret (if at < now then
            (case dget h ''task_id'' of Some t \<Rightarrow> if t = [] then None else Some t | None \<Rightarrow> None)
          else None)))"

fun collect_expired :: "'r redis \<Rightarrow> int \<Rightarrow> string list \<Rightarrow> (string list, 'r) cmd" where
  "collect_expired R now [] = rret []"
| "collect_expired R now (k # ks) = rbind (r_hgetall R k) (\<lambda>h. rbind (expired_id now h) (\<lambda>x.
     rbind (collect_expired R now ks) (\<lambda>xs. rret (case x of None \<Rightarrow> xs | Some t \<Rightarrow> t # xs))))"

definition cleanup_expired_tasks :: "'r redis \<Rightarrow> int \<Rightarrow> (string \<Rightarrow> int) \<Rightarrow> (unit, 'r) cmd" where
  "cleanup_expired_tasks R now clock = rtry (rbind (r_keys R VISIBILITY_TIMEOUT_PREFIX) (\<lambda>ks.
     rbind (collect_expired R now ks) (\<lambda>tids. rmap_all (\<lambda>t. handle_expired_task R (clock t) t) tids))) ()"

definition cancel_task :: "'r redis \<Rightarrow> string \<Rightarrow> int \<Rightarrow> (bool, 'r) cmd" where
  "cancel_task R tid now = rtry (rbind (get_task R tid) (\<lambda>d. case d of
     None \<Rightarrow> rret False
   | Some data \<Rightarrow>
       rseq (if dget data ''status'' = Some (FText ''processing'') then
               rbind (user_of data) (\<lambda>user.
                 rseq (unmark_task_processing R tid user) (clear_visibility_timeout R tid))
             else if dget data ''status'' = Some (FText ''queued'') then r_lrem R READY_LIST tid
             else rret ())
       (rseq (r_hset R (TASK_PREFIX @ tid) [(''status'', ''cancelled''),
          (''cancelled_at'', int_str now)])
       (rret True)))) False"

end
