(* ===== verification/QueueProofs.thy ===== *)
theory QueueProofs
  imports Complex_Main QueueService
begin

text \<open>
  What the code relies on from Redis, as laws over a view of its state, and the properties of
  the operations under these laws. A concrete in-memory store with a list of faults shows that
  the laws can hold and carries the runs that exhibit the losses.
\<close>

section \<open>The decimal round trip\<close>

lemma dec_nat_props: "dec_nat n \<noteq> [] \<and> list_all re_digit (dec_nat n)"
proof (induction n rule: dec_nat.induct)
  case (1 n)
  have d: "re_digit (digit_of k)" if "k < 10" for k
    using that by (simp add: re_digit_def digit_of_def)
  show ?case using 1 d [of n] d [of "n mod 10"] by (subst (1 2) dec_nat.simps) auto
qed

lemma digits_int_snoc: "digits_int (s @ [c]) = digits_int s * 10 + (of_char c - 48)"
  by (simp add: digits_int_def)

lemma digits_int_dec_nat: "digits_int (dec_nat n) = int n"
proof (induction n rule: dec_nat.induct)
  case (1 n)
  have d: "(of_char (digit_of k) :: int) = 48 + int k" if "k < 10" for k
  proof -
    have "(of_char (digit_of k) :: int) = int (of_char (digit_of k))" by (simp add: of_nat_of_char)
    then show ?thesis using that by (simp add: digit_of_def)
  qed
  show ?case
  proof (cases "n < 10")
    case True
    then show ?thesis using d [of n] by (subst dec_nat.simps) (simp add: digits_int_def)
  next
    case False
    then show ?thesis using 1 d [of "n mod 10"]
      by (subst dec_nat.simps) (simp add: digits_int_snoc, presburger)
  qed
qed

lemma digit_not_sign: "re_digit c \<Longrightarrow> c \<noteq> CHR ''-'' \<and> c \<noteq> CHR ''+''"
  by (auto simp: re_digit_def)

lemma minus_not_space: "\<not> py_space (CHR ''-'')"
  by (simp add: py_space_def)

lemma py_int_int_str: "py_int (int_str n) = Some n"
proof -
  have strip: "py_strip (dec_nat k) = dec_nat k" "py_strip (CHR ''-'' # dec_nat k) = CHR ''-'' # dec_nat k" for k
    using dec_nat_props [of k] minus_not_space by (auto intro!: py_strip_id simp: list_all_iff)
  show ?thesis
  proof (cases "n < 0")
    case True
    then show ?thesis using dec_nat_props [of "nat (- n)"]
      by (simp add: py_int_def int_str_def strip digits_int_dec_nat)
  next
    case False
    obtain c cs where c: "dec_nat (nat n) = c # cs" using dec_nat_props [of "nat n"] by (cases "dec_nat (nat n)") auto
    then have "re_digit c" using dec_nat_props [of "nat n"] by simp
    then show ?thesis using False c dec_nat_props [of "nat n"] digits_int_dec_nat [of "nat n"] digit_not_sign [of c]
        strip(1) [of "nat n"]
      by (simp add: py_int_def int_str_def)
  qed
qed

section \<open>The laws of the commands\<close>

record rview =
  v_list :: "string \<Rightarrow> string list"
  v_set :: "string \<Rightarrow> string set"
  v_hash :: "string \<Rightarrow> string \<Rightarrow> string option"

text \<open>
  A command either answers, was applied, and the answer fits the state before it, or raises,
  and then was applied or not.
\<close>

definition cmd_law :: "('r \<Rightarrow> rview) \<Rightarrow> ('a, 'r) cmd \<Rightarrow> (rview \<Rightarrow> rview) \<Rightarrow> (rview \<Rightarrow> 'a \<Rightarrow> bool) \<Rightarrow> bool" where
  "cmd_law V c eff ans \<longleftrightarrow> (\<forall>s. case c s of
     (Inr x, t) \<Rightarrow> V t = eff (V s) \<and> ans (V s) x
   | (Inl e, t) \<Rightarrow> e = QRedis \<and> (V t = V s \<or> V t = eff (V s)))"

definition redis_laws :: "('r \<Rightarrow> rview) \<Rightarrow> 'r redis \<Rightarrow> bool" where
  "redis_laws V R \<longleftrightarrow>
     (\<forall>k x. cmd_law V (r_lpush R k x) (\<lambda>v. v\<lparr>v_list := (v_list v)(k := x # v_list v k)\<rparr>) (\<lambda>_ _. True))
   \<and> (\<forall>k. cmd_law V (r_rpop R k) (\<lambda>v. v\<lparr>v_list := (v_list v)(k := butlast (v_list v k))\<rparr>)
        (\<lambda>v a. a = (if v_list v k = [] then None else Some (last (v_list v k)))))
   \<and> (\<forall>k x. cmd_law V (r_lrem R k x) (\<lambda>v. v\<lparr>v_list := (v_list v)(k := removeAll x (v_list v k))\<rparr>) (\<lambda>_ _. True))
   \<and> (\<forall>k. cmd_law V (r_llen R k) id (\<lambda>v a. a = length (v_list v k)))
   \<and> (\<forall>k x. cmd_law V (r_sadd R k x) (\<lambda>v. v\<lparr>v_set := (v_set v)(k := insert x (v_set v k))\<rparr>) (\<lambda>_ _. True))
   \<and> (\<forall>k x. cmd_law V (r_srem R k x) (\<lambda>v. v\<lparr>v_set := (v_set v)(k := v_set v k - {x})\<rparr>) (\<lambda>_ _. True))
   \<and> (\<forall>k. cmd_law V (r_scard R k) id (\<lambda>v a. a = card (v_set v k)))
   \<and> (\<forall>k. cmd_law V (r_smembers R k) id (\<lambda>v a. set a = v_set v k \<and> distinct a))
   \<and> (\<forall>k d. cmd_law V (r_hset R k d) (\<lambda>v. v\<lparr>v_hash := (v_hash v)(k := v_hash v k ++ map_of d)\<rparr>) (\<lambda>_ _. True))
   \<and> (\<forall>k. cmd_law V (r_hgetall R k) id (\<lambda>v a. map_of a = v_hash v k \<and> distinct (dkeys a)))
   \<and> (\<forall>k n. cmd_law V (r_expire R k n) id (\<lambda>_ _. True))
   \<and> (\<forall>k. cmd_law V (r_delete R k) (\<lambda>v. \<lparr>v_list = (v_list v)(k := []), v_set = (v_set v)(k := {}),
        v_hash = (v_hash v)(k := Map.empty)\<rparr>) (\<lambda>_ _. True))
   \<and> (\<forall>p. cmd_law V (r_keys R p) id (\<lambda>v a. \<forall>k \<in> set a. startswith k p))"

lemma cmd_law_Inr:
  "cmd_law V c eff ans \<Longrightarrow> c s = (Inr x, t) \<Longrightarrow> V t = eff (V s) \<and> ans (V s) x"
  by (auto simp: cmd_law_def dest: spec [of _ s])

lemma redis_law:
  assumes "redis_laws V R"
  shows "cmd_law V (r_lpush R k x) (\<lambda>v. v\<lparr>v_list := (v_list v)(k := x # v_list v k)\<rparr>) (\<lambda>_ _. True)"
    and "cmd_law V (r_rpop R k) (\<lambda>v. v\<lparr>v_list := (v_list v)(k := butlast (v_list v k))\<rparr>)
      (\<lambda>v a. a = (if v_list v k = [] then None else Some (last (v_list v k))))"
    and "cmd_law V (r_lrem R k x) (\<lambda>v. v\<lparr>v_list := (v_list v)(k := removeAll x (v_list v k))\<rparr>) (\<lambda>_ _. True)"
    and "cmd_law V (r_sadd R k x) (\<lambda>v. v\<lparr>v_set := (v_set v)(k := insert x (v_set v k))\<rparr>) (\<lambda>_ _. True)"
    and "cmd_law V (r_srem R k x) (\<lambda>v. v\<lparr>v_set := (v_set v)(k := v_set v k - {x})\<rparr>) (\<lambda>_ _. True)"
    and "cmd_law V (r_scard R k) id (\<lambda>v a. a = card (v_set v k))"
    and "cmd_law V (r_hset R k d) (\<lambda>v. v\<lparr>v_hash := (v_hash v)(k := v_hash v k ++ map_of d)\<rparr>) (\<lambda>_ _. True)"
    and "cmd_law V (r_hgetall R k) id (\<lambda>v a. map_of a = v_hash v k \<and> distinct (dkeys a))"
    and "cmd_law V (r_expire R k n) id (\<lambda>_ _. True)"
    and "cmd_law V (r_delete R k) (\<lambda>v. \<lparr>v_list = (v_list v)(k := []), v_set = (v_set v)(k := {}),
      v_hash = (v_hash v)(k := Map.empty)\<rparr>) (\<lambda>_ _. True)"
    and "cmd_law V (r_keys R k) id (\<lambda>v a. \<forall>x \<in> set a. startswith x k)"
  using assms unfolding redis_laws_def by blast+

lemma redis_laws_D:
  assumes "redis_laws V R"
  shows "r_lpush R k x s = (Inr u, t) \<Longrightarrow> V t = (V s)\<lparr>v_list := (v_list (V s))(k := x # v_list (V s) k)\<rparr>"
    and "r_rpop R k s = (Inr y, t) \<Longrightarrow> V t = (V s)\<lparr>v_list := (v_list (V s))(k := butlast (v_list (V s) k))\<rparr>
       \<and> y = (if v_list (V s) k = [] then None else Some (last (v_list (V s) k)))"
    and "r_lrem R k x s = (Inr u, t) \<Longrightarrow> V t = (V s)\<lparr>v_list := (v_list (V s))(k := removeAll x (v_list (V s) k))\<rparr>"
    and "r_sadd R k x s = (Inr u, t) \<Longrightarrow> V t = (V s)\<lparr>v_set := (v_set (V s))(k := insert x (v_set (V s) k))\<rparr>"
    and "r_srem R k x s = (Inr u, t) \<Longrightarrow> V t = (V s)\<lparr>v_set := (v_set (V s))(k := v_set (V s) k - {x})\<rparr>"
    and "r_scard R k s = (Inr n, t) \<Longrightarrow> V t = V s \<and> n = card (v_set (V s) k)"
    and "r_hset R k d s = (Inr u, t) \<Longrightarrow> V t = (V s)\<lparr>v_hash := (v_hash (V s))(k := v_hash (V s) k ++ map_of d)\<rparr>"
    and "r_hgetall R k s = (Inr h, t) \<Longrightarrow> V t = V s \<and> map_of h = v_hash (V s) k \<and> distinct (dkeys h)"
    and "r_expire R k i s = (Inr u, t) \<Longrightarrow> V t = V s"
    and "r_delete R k s = (Inr u, t) \<Longrightarrow> V t = \<lparr>v_list = (v_list (V s))(k := []),
       v_set = (v_set (V s))(k := {}), v_hash = (v_hash (V s))(k := Map.empty)\<rparr>"
    and "r_keys R k s = (Inr ks, t) \<Longrightarrow> V t = V s \<and> (\<forall>x \<in> set ks. startswith x k)"
  by (drule cmd_law_Inr [OF redis_law(1) [OF assms]], simp,
    drule cmd_law_Inr [OF redis_law(2) [OF assms]], simp,
    drule cmd_law_Inr [OF redis_law(3) [OF assms]], simp,
    drule cmd_law_Inr [OF redis_law(4) [OF assms]], simp,
    drule cmd_law_Inr [OF redis_law(5) [OF assms]], simp,
    drule cmd_law_Inr [OF redis_law(6) [OF assms]], simp,
    drule cmd_law_Inr [OF redis_law(7) [OF assms]], simp,
    drule cmd_law_Inr [OF redis_law(8) [OF assms]], simp,
    drule cmd_law_Inr [OF redis_law(9) [OF assms]], simp,
    drule cmd_law_Inr [OF redis_law(10) [OF assms]], simp,
    drule cmd_law_Inr [OF redis_law(11) [OF assms]], simp)

text \<open>A read that raises leaves the view as it is.\<close>

lemma cmd_law_read: "cmd_law V c id ans \<Longrightarrow> c s = (y, t) \<Longrightarrow> V t = V s"
  unfolding cmd_law_def by (drule spec [of _ s]) (cases y; auto)

lemmas redis_read = cmd_law_read [OF redis_law(6)] cmd_law_read [OF redis_law(8)]
  cmd_law_read [OF redis_law(11)]

lemma cmd_law_Inl: "cmd_law V c eff ans \<Longrightarrow> c s = (Inl e, t) \<Longrightarrow> e = QRedis"
  by (auto simp: cmd_law_def dest: spec [of _ s])

lemma redis_only_raises:
  assumes "redis_laws V R"
  shows "r_lpush R k x s = (Inl e, t) \<Longrightarrow> e = QRedis"
    and "r_sadd R k x s = (Inl e, t) \<Longrightarrow> e = QRedis"
    and "r_scard R k s = (Inl e, t) \<Longrightarrow> e = QRedis"
    and "r_hset R k d s = (Inl e, t) \<Longrightarrow> e = QRedis"
  using redis_law(1,4,6,7) [OF assms] by (blast intro: cmd_law_Inl)+

section \<open>Running a command to its value\<close>

lemma rbind_Inr: "rbind m f s = (Inr y, t) \<longleftrightarrow> (\<exists>x u. m s = (Inr x, u) \<and> f x u = (Inr y, t))"
  by (auto simp: rbind_def split: prod.splits sum.splits)

lemma rbind_Inl: "rbind m f s = (Inl e, t) \<longleftrightarrow> m s = (Inl e, t)
   \<or> (\<exists>x u. m s = (Inr x, u) \<and> f x u = (Inl e, t))"
  by (auto simp: rbind_def split: prod.splits sum.splits)

lemma rseq_Inr: "rseq m n s = (Inr y, t) \<longleftrightarrow> (\<exists>x u. m s = (Inr x, u) \<and> n u = (Inr y, t))"
  by (simp add: rseq_def rbind_Inr)

lemma rret_Inr [simp]: "rret x s = (Inr y, t) \<longleftrightarrow> y = x \<and> t = s"
  by (auto simp: rret_def)

lemma rret_Inl [simp]: "rret x s \<noteq> (Inl e, t)"
  by (simp add: rret_def)

lemma rraise_Inr [simp]: "rraise e s \<noteq> (Inr y, t)"
  by (simp add: rraise_def)

lemma rraise_Inl [simp]: "rraise e s = (Inl e', t) \<longleftrightarrow> e' = e \<and> t = s"
  by (auto simp: rraise_def)

lemma rtry_Inr: "rtry m d s = (Inr y, t) \<longleftrightarrow> m s = (Inr y, t) \<or> (\<exists>e. m s = (Inl e, t) \<and> y = d)"
  by (auto simp: rtry_def split: prod.splits sum.splits)

lemmas cmd_simps = rbind_Inr rseq_Inr rtry_Inr

section \<open>Helpers and reads\<close>

lemma check_user_Inr:
  assumes "redis_laws V R" "check_user_concurrent_limit R u n s = (Inr b, t)"
  shows "V t = V s \<and> (b \<longleftrightarrow> card (v_set (V s) (USER_PROCESSING_PREFIX @ u)) < n)"
  using assms(2) redis_laws_D(6) [OF assms(1)]
  by (auto simp: check_user_concurrent_limit_def rbind_Inr)

lemma check_global_Inr:
  assumes "redis_laws V R" "check_global_concurrent_limit R n s = (Inr b, t)"
  shows "V t = V s \<and> (b \<longleftrightarrow> card (v_set (V s) SET_PROCESSING) < n)"
  using assms(2) redis_laws_D(6) [OF assms(1)]
  by (auto simp: check_global_concurrent_limit_def rbind_Inr)

lemma check_Inl:
  assumes "redis_laws V R"
  shows "check_user_concurrent_limit R u n s = (Inl e, t) \<Longrightarrow> e = QRedis"
    and "check_global_concurrent_limit R n s = (Inl e, t) \<Longrightarrow> e = QRedis"
  by (auto simp: check_user_concurrent_limit_def check_global_concurrent_limit_def rbind_Inl
    dest: redis_only_raises [OF assms])

lemma parse_digits_Inr:
  "parse_digits k d s = (Inr d', t) \<Longrightarrow> t = s \<and> (\<forall>j. j \<noteq> k \<longrightarrow> dget d' j = dget d j)"
  by (auto simp: parse_digits_def dict_simps split: option.splits field.splits if_splits)

lemma dget_text_fields: "dget (text_fields h) k = map_option FText (dget h k)"
  by (induction h) (auto simp: text_fields_def)

lemma dget_parse_params:
  "k \<noteq> ''params'' \<Longrightarrow> k \<noteq> ''parameters'' \<Longrightarrow> dget (parse_params d) k = dget d k"
  by (simp add: parse_params_def dict_simps split: option.splits field.splits)

lemma get_task_Inr:
  assumes "redis_laws V R" "get_task R tid s = (Inr x, t)"
  shows "V t = V s \<and> (case x of None \<Rightarrow> v_hash (V s) (TASK_PREFIX @ tid) = Map.empty
    | Some d \<Rightarrow> dget d ''user'' = map_option FText (v_hash (V s) (TASK_PREFIX @ tid) ''user'')
        \<and> dget d ''status'' = map_option FText (v_hash (V s) (TASK_PREFIX @ tid) ''status''))"
proof -
  from assms(2) obtain h u where h: "r_hgetall R (TASK_PREFIX @ tid) s = (Inr h, u)"
    and c: "(if h = [] then rret None
     else rbind (parse_digits ''created_at'' (parse_params (text_fields h))) (\<lambda>d.
          rbind (parse_digits ''submitted'' d) (\<lambda>d'. rret (Some d')))) u = (Inr x, t)"
    by (auto simp: get_task_def rbind_Inr)
  from redis_laws_D(8) [OF assms(1) h] have v: "V u = V s"
    and m: "v_hash (V s) (TASK_PREFIX @ tid) = map_of h" by auto
  show ?thesis
  proof (cases "h = []")
    case True
    with c v m show ?thesis by simp
  next
    case False
    with c obtain d d' where "parse_digits ''created_at'' (parse_params (text_fields h)) u = (Inr d, u)"
      "parse_digits ''submitted'' d u = (Inr d', u)" "x = Some d'" "t = u"
      by (auto simp: rbind_Inr dest: parse_digits_Inr)
    then have "dget d' ''user'' = dget (text_fields h) ''user''"
      "dget d' ''status'' = dget (text_fields h) ''status''"
      by (auto simp: dget_parse_params dest!: parse_digits_Inr)
    with \<open>x = Some d'\<close> \<open>t = u\<close> v m show ?thesis by (simp add: dget_text_fields)
  qed
qed

lemma user_of_Inr: "user_of d s = (Inr u, t) \<longleftrightarrow> dget d ''user'' = Some (FText u) \<and> t = s"
  by (auto simp: user_of_def split: option.splits field.splits)

lemma mark_Inr:
  assumes "redis_laws V R" "mark_task_processing R tid u s = (Inr y, t)"
  shows "v_list (V t) = v_list (V s) \<and> v_hash (V t) = v_hash (V s)
    \<and> tid \<in> v_set (V t) SET_PROCESSING \<and> tid \<in> v_set (V t) (USER_PROCESSING_PREFIX @ u)"
  using assms(2) redis_laws_D(4) [OF assms(1)]
  by (fastforce simp: mark_task_processing_def rseq_Inr)

lemma unmark_Inr:
  assumes "redis_laws V R" "unmark_task_processing R tid u s = (Inr y, t)"
  shows "v_list (V t) = v_list (V s) \<and> v_hash (V t) = v_hash (V s)
    \<and> tid \<notin> v_set (V t) SET_PROCESSING \<and> tid \<notin> v_set (V t) (USER_PROCESSING_PREFIX @ u)"
proof -
  obtain x u1 where 1: "r_srem R (USER_PROCESSING_PREFIX @ u) tid s = (Inr x, u1)"
    and 2: "r_srem R SET_PROCESSING tid u1 = (Inr y, t)"
    using assms(2) by (auto simp: unmark_task_processing_def rseq_Inr)
  show ?thesis using redis_laws_D(5) [OF assms(1) 1] redis_laws_D(5) [OF assms(1) 2] by simp
qed

lemma set_visibility_Inr:
  assumes "redis_laws V R" "set_visibility_timeout R tid w n now s = (Inr y, t)"
  shows "v_list (V t) = v_list (V s) \<and> v_set (V t) = v_set (V s)
    \<and> (\<forall>k. v_hash (V t) (TASK_PREFIX @ k) = v_hash (V s) (TASK_PREFIX @ k))"
  using assms(2) redis_laws_D(7,9) [OF assms(1)]
  by (fastforce simp: set_visibility_timeout_def rseq_Inr queue_keys)

lemma clear_visibility_Inr:
  assumes "redis_laws V R" "clear_visibility_timeout R tid s = (Inr y, t)"
  shows "v_list (V t) READY_LIST = v_list (V s) READY_LIST
    \<and> v_set (V t) SET_PROCESSING = v_set (V s) SET_PROCESSING
    \<and> v_set (V t) (USER_PROCESSING_PREFIX @ u) = v_set (V s) (USER_PROCESSING_PREFIX @ u)
    \<and> v_hash (V t) (TASK_PREFIX @ k) = v_hash (V s) (TASK_PREFIX @ k)"
  using redis_laws_D(10) [OF assms(1) assms(2) [unfolded clear_visibility_timeout_def]]
  by (simp add: queue_keys)


section \<open>The properties under the laws\<close>

text \<open>The view of a task's queue entry and of its owner's slots that the properties name.\<close>

definition ready :: "rview \<Rightarrow> string list" where
  "ready v = v_list v READY_LIST"

definition slots :: "rview \<Rightarrow> string \<Rightarrow> string set" where
  "slots v u = v_set v (USER_PROCESSING_PREFIX @ u)"

definition task_field :: "rview \<Rightarrow> string \<Rightarrow> string \<Rightarrow> string option" where
  "task_field v tid k = v_hash v (TASK_PREFIX @ tid) k"

lemma dequeue_bodyE:
  assumes "dequeue_body R w t1 t2 s = (Inr (Some d), s')"
  obtains tid a b where "r_rpop R READY_LIST s = (Inr (Some tid), a)"
    "get_task R tid a = (Inr (Some d), b)" "dequeue_data R w t1 t2 tid d b = (Inr (Some d), s')"
proof -
  from assms obtain x a where 1: "r_rpop R READY_LIST s = (Inr x, a)" "or_default x [] \<noteq> []"
    and r: "rbind (get_task R (or_default x [])) (\<lambda>d. case d of None \<Rightarrow> rret None
       | Some data \<Rightarrow> dequeue_data R w t1 t2 (or_default x []) data) a = (Inr (Some d), s')"
    unfolding dequeue_body_def by (subst (asm) rbind_Inr) (auto split: if_splits)
  from r obtain data b where 2: "get_task R (or_default x []) a = (Inr (Some data), b)"
    "dequeue_data R w t1 t2 (or_default x []) data b = (Inr (Some d), s')"
    unfolding rbind_Inr by (auto split: option.splits)
  then have "data = d" by (auto simp: dequeue_data_def cmd_simps split: if_splits)
  moreover obtain tid where "x = Some tid" using 1(2) by (cases x) auto
  ultimately show ?thesis using that 1 2 by simp
qed

lemma dequeue_dataE:
  assumes "dequeue_data R w t1 t2 tid d s = (Inr (Some d'), s')"
  obtains u a b where "user_of d s = (Inr u, a)"
    "check_user_concurrent_limit R u DEFAULT_USER_CONCURRENT_LIMIT a = (Inr True, b)"
    "start_task R w tid u t1 t2 b = (Inr (), s')"
  using assms unfolding dequeue_data_def by (auto simp: cmd_simps split: if_splits)

lemma start_taskE:
  assumes "start_task R w tid u t1 t2 s = (Inr (), s')"
  obtains a b where "mark_task_processing R tid u s = (Inr (), a)"
    "set_visibility_timeout R tid w VISIBILITY_TIMEOUT_SECONDS t1 a = (Inr (), b)"
    "r_hset R (TASK_PREFIX @ tid) [(''status'', ''processing''), (''worker_id'', w),
       (''started_at'', int_str t2)] b = (Inr (), s')"
  using assms unfolding start_task_def by (auto simp: cmd_simps)

text \<open>
  C30: When \<open>dequeue_task\<close> hands out a task, it was the oldest of the ready list and left it,
  its owner had a free slot, it is now in the processing set and in the owner's slots, and its
  status is processing.
\<close>

theorem dequeue_task_success:
  assumes "redis_laws V R" "dequeue_task R w t1 t2 s = (Inr (Some d), s')"
  shows "\<exists>tid u. ready (V s) = ready (V s') @ [tid] \<and> task_field (V s) tid ''user'' = Some u
    \<and> card (slots (V s) u) < DEFAULT_USER_CONCURRENT_LIMIT
    \<and> tid \<in> slots (V s') u \<and> tid \<in> v_set (V s') SET_PROCESSING
    \<and> task_field (V s') tid ''status'' = Some ''processing''
    \<and> task_field (V s') tid ''worker_id'' = Some w"
proof -
  have "dequeue_body R w t1 t2 s = (Inr (Some d), s')"
    using assms(2) by (auto simp: dequeue_task_def rtry_Inr)
  then obtain tid a b where pops: "r_rpop R READY_LIST s = (Inr (Some tid), a)"
    "get_task R tid a = (Inr (Some d), b)" "dequeue_data R w t1 t2 tid d b = (Inr (Some d), s')"
    by (rule dequeue_bodyE)
  from pops(3) obtain u c e where grant: "user_of d b = (Inr u, c)"
    "check_user_concurrent_limit R u DEFAULT_USER_CONCURRENT_LIMIT c = (Inr True, e)"
    "start_task R w tid u t1 t2 e = (Inr (), s')" by (rule dequeue_dataE)
  from grant(3) obtain f g where moves: "mark_task_processing R tid u e = (Inr (), f)"
    "set_visibility_timeout R tid w VISIBILITY_TIMEOUT_SECONDS t1 f = (Inr (), g)"
    "r_hset R (TASK_PREFIX @ tid) [(''status'', ''processing''), (''worker_id'', w),
       (''started_at'', int_str t2)] g = (Inr (), s')" by (rule start_taskE)
  note law = assms(1)
  have pop: "V a = (V s)\<lparr>v_list := (v_list (V s))(READY_LIST := butlast (ready (V s)))\<rparr>"
    "ready (V s) \<noteq> []" "tid = last (ready (V s))"
    using redis_laws_D(2) [OF law pops(1)] by (auto simp: ready_def split: if_splits)
  have get: "V b = V a" "dget d ''user'' = map_option FText (v_hash (V a) (TASK_PREFIX @ tid) ''user'')"
    using get_task_Inr [OF law pops(2)] by auto
  have us: "dget d ''user'' = Some (FText u)" "c = b" using grant(1) by (simp_all add: user_of_Inr)
  have chk: "V e = V c" "card (slots (V c) u) < DEFAULT_USER_CONCURRENT_LIMIT"
    using check_user_Inr [OF law grant(2)] by (simp_all add: slots_def)
  note mk = mark_Inr [OF law moves(1)]
  note vs = set_visibility_Inr [OF law moves(2)]
  note hs = redis_laws_D(7) [OF law moves(3)]
  have "ready (V s') = butlast (ready (V s))"
    using pop(1) get(1) us(2) chk(1) mk vs hs by (simp add: ready_def)
  then have "ready (V s) = ready (V s') @ [tid]" using pop(2,3) by simp
  moreover have "task_field (V s) tid ''user'' = Some u"
    using get(2) us(1) pop(1)
    by (cases "v_hash (V s) (TASK_PREFIX @ tid) ''user''") (simp_all add: task_field_def)
  moreover have "card (slots (V s) u) < DEFAULT_USER_CONCURRENT_LIMIT"
    using chk(2) us(2) get(1) pop(1) by (simp add: slots_def)
  moreover have "tid \<in> slots (V s') u \<and> tid \<in> v_set (V s') SET_PROCESSING"
    using mk vs hs by (simp add: slots_def)
  moreover have "task_field (V s') tid ''status'' = Some ''processing''
    \<and> task_field (V s') tid ''worker_id'' = Some w"
    using hs by (simp add: task_field_def)
  ultimately show ?thesis by blast
qed

text \<open>
  \<open>enqueue_task\<close>: a full user or a full system is refused before anything is written; an
  accepted task is at the end of the queue with the status queued.
\<close>

theorem enqueue_task_outcomes:
  assumes "redis_laws V R"
  shows "(enqueue_task R u symb ps b tid now s = (Inr x, s') \<longrightarrow> x = tid
      \<and> card (slots (V s) u) < DEFAULT_USER_CONCURRENT_LIMIT
      \<and> card (v_set (V s) SET_PROCESSING) < GLOBAL_CONCURRENT_LIMIT
      \<and> ready (V s') = tid # ready (V s) \<and> task_field (V s') tid ''status'' = Some ''queued''
      \<and> task_field (V s') tid ''user'' = Some u)
    \<and> (enqueue_task R u symb ps b tid now s = (Inl e, s') \<and> e \<in> {QUserLimit, QGlobalLimit}
      \<longrightarrow> V s' = V s)"
proof (rule conjI; rule impI)
  assume "enqueue_task R u symb ps b tid now s = (Inr x, s')"
  then obtain a c d f where steps:
    "check_user_concurrent_limit R u DEFAULT_USER_CONCURRENT_LIMIT s = (Inr True, a)"
    "check_global_concurrent_limit R GLOBAL_CONCURRENT_LIMIT a = (Inr True, c)"
    "r_hset R (TASK_PREFIX @ tid) ([(''id'', tid), (''user'', u), (''symbol'', symb),
         (''status'', ''queued''), (''created_at'', int_str now), (''params'', ps),
         (''enqueued_at'', int_str now)]
         @ (if or_default b [] \<noteq> [] then [(''batch_id'', or_default b [])] else [])) c = (Inr (), d)"
    "r_lpush R READY_LIST tid d = (Inr (), f)"
    "(if or_default b [] \<noteq> [] then r_sadd R (BATCH_TASKS_PREFIX @ or_default b []) tid
      else rret ()) f = (Inr (), s')" "x = tid"
    unfolding enqueue_task_def by (auto simp: rbind_Inr rseq_Inr split: if_splits)
  note law = assms
  have "v_list (V s') = v_list (V f) \<and> v_hash (V s') = v_hash (V f)"
    using steps(5) redis_laws_D(4) [OF law] by (fastforce split: if_splits)
  moreover have "v_hash (V d) (TASK_PREFIX @ tid) ''status'' = Some ''queued''
    \<and> v_hash (V d) (TASK_PREFIX @ tid) ''user'' = Some u \<and> v_list (V d) = v_list (V c)"
    using redis_laws_D(7) [OF law steps(3)] by (simp add: map_add_def)
  ultimately show "x = tid \<and> card (slots (V s) u) < DEFAULT_USER_CONCURRENT_LIMIT
      \<and> card (v_set (V s) SET_PROCESSING) < GLOBAL_CONCURRENT_LIMIT
      \<and> ready (V s') = tid # ready (V s) \<and> task_field (V s') tid ''status'' = Some ''queued''
      \<and> task_field (V s') tid ''user'' = Some u"
    using redis_laws_D(1) [OF law steps(4)] check_user_Inr [OF law steps(1)]
      check_global_Inr [OF law steps(2)] steps(6)
    by (simp add: ready_def task_field_def slots_def)
next
  assume "enqueue_task R u symb ps b tid now s = (Inl e, s') \<and> e \<in> {QUserLimit, QGlobalLimit}"
  then show "V s' = V s"
    by (auto simp: enqueue_task_def rbind_Inl rseq_def dest: redis_only_raises [OF assms]
      check_Inl [OF assms] dest!: check_user_Inr [OF assms] check_global_Inr [OF assms]
      split: if_splits)
qed


section \<open>A store in memory\<close>

text \<open>
  A store that satisfies the laws: association lists for the three kinds of values, and a list
  of faults; \<open>True\<close> makes the next command raise without being applied.
\<close>

record mem =
  m_lists :: "(string, string list) dict"
  m_sets :: "(string, string list) dict"
  m_hashes :: "(string, hash) dict"
  m_faults :: "bool list"

definition mem_cmd :: "(mem \<Rightarrow> 'a \<times> mem) \<Rightarrow> ('a, mem) cmd" where
  "mem_cmd f s = (case m_faults s of
     [] \<Rightarrow> (case f s of (x, t) \<Rightarrow> (Inr x, t))
   | b # bs \<Rightarrow> if b then (Inl QRedis, s\<lparr>m_faults := bs\<rparr>)
       else (case f (s\<lparr>m_faults := bs\<rparr>) of (x, t) \<Rightarrow> (Inr x, t)))"

definition m_list :: "mem \<Rightarrow> string \<Rightarrow> string list" where
  "m_list s k = or_default (dget (m_lists s) k) []"

definition m_set :: "mem \<Rightarrow> string \<Rightarrow> string list" where
  "m_set s k = remdups (or_default (dget (m_sets s) k) [])"

definition m_hash :: "mem \<Rightarrow> string \<Rightarrow> hash" where
  "m_hash s k = AList.clearjunk (or_default (dget (m_hashes s) k) [])"

definition mem_redis :: "mem redis" where
  "mem_redis = \<lparr>
     r_lpush = (\<lambda>k x. mem_cmd (\<lambda>s. ((), s\<lparr>m_lists := dset k (x # m_list s k) (m_lists s)\<rparr>))),
     r_rpop = (\<lambda>k. mem_cmd (\<lambda>s. (if m_list s k = [] then None else Some (last (m_list s k)),
        s\<lparr>m_lists := dset k (butlast (m_list s k)) (m_lists s)\<rparr>))),
     r_lrem = (\<lambda>k x. mem_cmd (\<lambda>s. ((), s\<lparr>m_lists := dset k (removeAll x (m_list s k)) (m_lists s)\<rparr>))),
     r_llen = (\<lambda>k. mem_cmd (\<lambda>s. (length (m_list s k), s))),
     r_sadd = (\<lambda>k x. mem_cmd (\<lambda>s. ((), s\<lparr>m_sets := dset k (x # m_set s k) (m_sets s)\<rparr>))),
     r_srem = (\<lambda>k x. mem_cmd (\<lambda>s. ((), s\<lparr>m_sets := dset k (removeAll x (m_set s k)) (m_sets s)\<rparr>))),
     r_scard = (\<lambda>k. mem_cmd (\<lambda>s. (length (m_set s k), s))),
     r_smembers = (\<lambda>k. mem_cmd (\<lambda>s. (m_set s k, s))),
     r_hset = (\<lambda>k d. mem_cmd (\<lambda>s. ((), s\<lparr>m_hashes := dset k (d @ m_hash s k) (m_hashes s)\<rparr>))),
     r_hgetall = (\<lambda>k. mem_cmd (\<lambda>s. (m_hash s k, s))),
     r_expire = (\<lambda>k n. mem_cmd (\<lambda>s. ((), s))),
     r_delete = (\<lambda>k. mem_cmd (\<lambda>s. ((), s\<lparr>m_lists := ddel k (m_lists s), m_sets := ddel k (m_sets s),
        m_hashes := ddel k (m_hashes s)\<rparr>))),
     r_keys = (\<lambda>p. mem_cmd (\<lambda>s. (filter (\<lambda>k. startswith k p) (dkeys (m_hashes s)), s)))\<rparr>"

definition mem_view :: "mem \<Rightarrow> rview" where
  "mem_view s = \<lparr>v_list = m_list s, v_set = (\<lambda>k. set (m_set s k)), v_hash = (\<lambda>k. map_of (m_hash s k))\<rparr>"

lemma mem_reads [simp]:
  "m_list (s\<lparr>m_lists := dset k v (m_lists s)\<rparr>) = (m_list s)(k := v)"
  "m_set (s\<lparr>m_sets := dset k w (m_sets s)\<rparr>) = (m_set s)(k := remdups w)"
  "m_hash (s\<lparr>m_hashes := dset k h (m_hashes s)\<rparr>) = (m_hash s)(k := AList.clearjunk h)"
  "m_list (s\<lparr>m_faults := fs\<rparr>) = m_list s" "m_set (s\<lparr>m_faults := fs\<rparr>) = m_set s"
  "m_hash (s\<lparr>m_faults := fs\<rparr>) = m_hash s"
  "m_list (s\<lparr>m_sets := a\<rparr>) = m_list s" "m_list (s\<lparr>m_hashes := c\<rparr>) = m_list s"
  "m_set (s\<lparr>m_lists := b\<rparr>) = m_set s" "m_set (s\<lparr>m_hashes := c\<rparr>) = m_set s"
  "m_hash (s\<lparr>m_lists := b\<rparr>) = m_hash s" "m_hash (s\<lparr>m_sets := a\<rparr>) = m_hash s"
  by (simp_all add: fun_eq_iff m_list_def m_set_def m_hash_def dict_simps)

lemma mem_deleted [simp]:
  "m_list (s\<lparr>m_lists := ddel k (m_lists s)\<rparr>) = (m_list s)(k := [])"
  "m_set (s\<lparr>m_lists := b, m_sets := ddel k (m_sets s)\<rparr>) = (m_set s)(k := [])"
  "m_hash (s\<lparr>m_lists := b, m_sets := a, m_hashes := ddel k (m_hashes s)\<rparr>) = (m_hash s)(k := [])"
  by (simp_all add: fun_eq_iff m_list_def m_set_def m_hash_def dict_simps)

lemma m_set_distinct [simp]: "card (set (m_set s k)) = length (m_set s k)" "distinct (m_set s k)"
  by (simp_all add: m_set_def length_remdups_card_conv)

lemma m_hash_distinct [simp]: "distinct (dkeys (m_hash s k))"
  by (simp add: m_hash_def)

lemma mem_cmd_law:
  assumes "\<And>s x t. f s = (x, t) \<Longrightarrow> mem_view t = eff (mem_view s) \<and> ans (mem_view s) x"
  shows "cmd_law mem_view (mem_cmd f) eff ans"
  unfolding cmd_law_def mem_cmd_def
proof (intro allI)
  fix s
  have v: "mem_view (s\<lparr>m_faults := bs\<rparr>) = mem_view s" for bs
    by (simp add: mem_view_def)
  show "case case m_faults s of [] \<Rightarrow> (case f s of (x, t) \<Rightarrow> (Inr x, t))
      | b # bs \<Rightarrow> if b then (Inl QRedis, s\<lparr>m_faults := bs\<rparr>)
         else (case f (s\<lparr>m_faults := bs\<rparr>) of (x, t) \<Rightarrow> (Inr x, t)) of
      (Inl e, t) \<Rightarrow> e = QRedis \<and> (mem_view t = mem_view s \<or> mem_view t = eff (mem_view s))
    | (Inr x, t) \<Rightarrow> mem_view t = eff (mem_view s) \<and> ans (mem_view s) x"
    using assms [of s] assms [of "s\<lparr>m_faults := _\<rparr>"]
    by (auto simp: v split: list.split prod.split)
qed

lemma mem_redis_laws: "redis_laws mem_view mem_redis"
  unfolding redis_laws_def mem_redis_def redis.simps
  by (intro conjI allI mem_cmd_law) (auto simp: mem_view_def fun_eq_iff map_of_clearjunk split: if_splits)


definition empty_mem :: mem where
  "empty_mem = \<lparr>m_lists = [], m_sets = [], m_hashes = [], m_faults = []\<rparr>"

section \<open>The laws can hold\<close>

theorem dequeue_task_success_witness:
  "\<exists>s s' d. dequeue_task mem_redis ''w'' 0 0 s = (Inr (Some d), s')
     \<and> (\<exists>tid u. ready (mem_view s) = ready (mem_view s') @ [tid] \<and> tid \<in> slots (mem_view s') u)"
proof -
  let ?s = "snd (enqueue_task mem_redis ''u'' ''600000'' ''{}'' None ''t1'' 0 empty_mem)"
  have "case dequeue_task mem_redis ''w'' 0 0 ?s of (Inr (Some _), _) \<Rightarrow> True | _ \<Rightarrow> False"
    by code_simp
  then obtain d s' where "dequeue_task mem_redis ''w'' 0 0 ?s = (Inr (Some d), s')"
    by (auto split: prod.splits sum.splits option.splits)
  with dequeue_task_success [OF mem_redis_laws this] show ?thesis by blast
qed

theorem enqueue_task_outcomes_witness:
  "\<exists>s'. enqueue_task mem_redis ''u'' ''600000'' ''{}'' None ''t1'' 0 empty_mem = (Inr ''t1'', s')
     \<and> ready (mem_view s') = ''t1'' # ready (mem_view empty_mem)"
proof -
  have "case enqueue_task mem_redis ''u'' ''600000'' ''{}'' None ''t1'' 0 empty_mem of
    (Inr _, _) \<Rightarrow> True | _ \<Rightarrow> False" by code_simp
  then obtain x s' where "enqueue_task mem_redis ''u'' ''600000'' ''{}'' None ''t1'' 0 empty_mem = (Inr x, s')"
    by (auto split: prod.splits sum.splits)
  with enqueue_task_outcomes [OF mem_redis_laws, of "''u''" "''600000''" "''{}''" None "''t1''" 0
      empty_mem x s'] show ?thesis by blast
qed

section \<open>Losses\<close>

text \<open>Four users, one task each: all are accepted before any is taken, then all are taken.\<close>

definition flood :: "(nat, mem) cmd" where
  "flood = rseq (rmap_all (\<lambda>(u, t). rseq (enqueue_task mem_redis u ''600000'' ''{}'' None t 0) (rret ()))
       [(''u1'', ''t1''), (''u2'', ''t2''), (''u3'', ''t3''), (''u4'', ''t4'')])
     (rseq (rmap_all (\<lambda>w. rseq (dequeue_task mem_redis w 0 0) (rret ())) [''w1'', ''w2'', ''w3'', ''w4''])
     (rbind (stats mem_redis) (\<lambda>q. rret (qs_processing q))))"

text \<open>
  The system-wide limit does not bound the tasks in processing: with a store that obeys
  the laws and raises nowhere, four tasks are in processing at once, against a limit of three.
\<close>

theorem global_limit_not_enforced:
  "redis_laws mem_view mem_redis \<and> fst (flood empty_mem) = Inr 4 \<and> GLOBAL_CONCURRENT_LIMIT < 4"
proof (intro conjI)
  show "redis_laws mem_view mem_redis" by (rule mem_redis_laws)
  show "fst (flood empty_mem) = Inr 4" by code_simp
  show "GLOBAL_CONCURRENT_LIMIT < 4" by (simp add: GLOBAL_CONCURRENT_LIMIT_def)
qed

definition one_task :: "mem" where
  "one_task = snd (enqueue_task mem_redis ''u'' ''600000'' ''{}'' None ''t1'' 0 empty_mem)"

text \<open>
  A read that raises after the pop loses the task: \<open>dequeue_task\<close> answers that there is
  nothing to do, the task is neither in the ready list nor in processing, and stays queued.
\<close>

theorem dequeue_can_lose_task:
  "\<exists>s s'. redis_laws mem_view mem_redis \<and> ready (mem_view s) = [''t1'']
     \<and> dequeue_task mem_redis ''w'' 0 0 s = (Inr None, s') \<and> ready (mem_view s') = []
     \<and> v_set (mem_view s') SET_PROCESSING = {}
     \<and> task_field (mem_view s') ''t1'' ''status'' = Some ''queued''"
proof -
  let ?s = "one_task\<lparr>m_faults := [False, True]\<rparr>"
  have r: "m_list ?s READY_LIST = [''t1'']" by code_simp
  have "case dequeue_task mem_redis ''w'' 0 0 ?s of (Inr None, t) \<Rightarrow> m_list t READY_LIST = []
      \<and> m_set t SET_PROCESSING = [] \<and> dget (m_hash t (TASK_PREFIX @ ''t1'')) ''status'' = Some ''queued''
    | _ \<Rightarrow> False" by code_simp
  then obtain t where "dequeue_task mem_redis ''w'' 0 0 ?s = (Inr None, t)"
    "m_list t READY_LIST = []" "m_set t SET_PROCESSING = []"
    "dget (m_hash t (TASK_PREFIX @ ''t1'')) ''status'' = Some ''queued''"
    by (auto split: prod.splits sum.splits option.splits)
  with r mem_redis_laws show ?thesis
    by (intro exI [of _ ?s] exI [of _ t])
      (simp add: ready_def task_field_def mem_view_def)
qed

section \<open>The cleanup of expired tasks\<close>

lemma collect_expired_none:
  assumes "redis_laws V R" "\<And>k. k \<in> set ks \<Longrightarrow> v_hash (V s) k \<noteq> Map.empty \<Longrightarrow>
    \<exists>n. v_hash (V s) k ''timeout_at'' = Some (int_str n) \<and> now \<le> n"
    "collect_expired R now ks s = (y, t)"
  shows "V t = V s \<and> (\<forall>xs. y = Inr xs \<longrightarrow> xs = [])"
  using assms(2,3)
proof (induction ks arbitrary: s y t)
  case (Cons k ks)
  obtain z a where g: "r_hgetall R k s = (z, a)" by (cases "r_hgetall R k s")
  have va: "V a = V s" by (rule redis_read(2) [OF assms(1) g])
  show ?case
  proof (cases z)
    case (Inl e)
    with g Cons.prems(2) va show ?thesis by (auto simp: rbind_def)
  next
    case (Inr h)
    have m: "map_of h = v_hash (V s) k" using redis_laws_D(8) [OF assms(1)] g Inr by simp
    have e: "expired_id now h a = (Inr None, a)"
    proof (cases "h = []")
      case True
      then show ?thesis by (simp add: expired_id_def rret_def)
    next
      case False
      then have "v_hash (V s) k \<noteq> Map.empty" unfolding m [symmetric] by (simp add: map_of_eq_empty_iff)
      with Cons.prems(1) [of k] obtain n where "v_hash (V s) k ''timeout_at'' = Some (int_str n)" "now \<le> n"
        by auto
      with False show ?thesis unfolding m [symmetric]
        by (simp add: expired_id_def py_int_int_str rret_def)
    qed
    obtain w b where c: "collect_expired R now ks a = (w, b)" by (cases "collect_expired R now ks a")
    have IH: "V b = V a \<and> (\<forall>xs. w = Inr xs \<longrightarrow> xs = [])"
      using Cons.IH [OF _ c] Cons.prems(1) va by simp
    from Cons.prems(2) g Inr e c have "(y, t) = (case w of Inl e \<Rightarrow> Inl e | Inr xs \<Rightarrow> Inr xs, b)"
      by (auto simp: rbind_def rret_def split: sum.splits)
    with IH va show ?thesis by (auto split: sum.splits)
  qed
qed (simp add: rret_def)

text \<open>
  The visibility hash of a task carries the time after which it counts as expired and is
  itself given a time to live of the same length. When Redis honours that time to live and the
  EXPIRE command runs within the second of the clock reading, every hash that the cleanup can
  still see is not expired, so the cleanup changes nothing: a task whose worker died is never
  put back.
\<close>

theorem cleanup_never_requeues:
  fixes now :: rat
  assumes "redis_laws V R"
    "\<And>k. startswith k VISIBILITY_TIMEOUT_PREFIX \<Longrightarrow> v_hash (V s) k \<noteq> Map.empty \<Longrightarrow>
      \<exists>t1 t2. v_hash (V s) k ''timeout_at'' = Some (int_str (\<lfloor>t1\<rfloor> + VISIBILITY_TIMEOUT_SECONDS))
        \<and> t2 < of_int \<lfloor>t1 :: rat\<rfloor> + 1 \<and> now < t2 + of_int VISIBILITY_TIMEOUT_SECONDS"
    "cleanup_expired_tasks R \<lfloor>now\<rfloor> clock s = (y, s')"
  shows "V s' = V s"
proof -
  obtain z a where k: "r_keys R VISIBILITY_TIMEOUT_PREFIX s = (z, a)"
    by (cases "r_keys R VISIBILITY_TIMEOUT_PREFIX s")
  have va: "V a = V s" by (rule redis_read(3) [OF assms(1) k])
  show ?thesis
  proof (cases z)
    case (Inl e)
    with k assms(3) va show ?thesis by (auto simp: cleanup_expired_tasks_def rtry_def rbind_def)
  next
    case (Inr ks)
    have pre: "startswith x VISIBILITY_TIMEOUT_PREFIX" if "x \<in> set ks" for x
      using redis_laws_D(11) [OF assms(1)] k Inr that by blast
    obtain w b where c: "collect_expired R \<lfloor>now\<rfloor> ks a = (w, b)"
      by (cases "collect_expired R \<lfloor>now\<rfloor> ks a")
    have "\<exists>n. v_hash (V a) x ''timeout_at'' = Some (int_str n) \<and> \<lfloor>now\<rfloor> \<le> n"
      if x: "x \<in> set ks" "v_hash (V a) x \<noteq> Map.empty" for x
    proof -
      from assms(2) [OF pre [OF x(1)]] x(2) va obtain t1 t2 :: rat
        where "v_hash (V a) x ''timeout_at'' = Some (int_str (\<lfloor>t1\<rfloor> + VISIBILITY_TIMEOUT_SECONDS))"
          and t: "t2 < of_int \<lfloor>t1\<rfloor> + 1" "now < t2 + of_int VISIBILITY_TIMEOUT_SECONDS" by auto
      moreover from t have "now < of_int (\<lfloor>t1\<rfloor> + 1 + VISIBILITY_TIMEOUT_SECONDS)" by simp
      then have "\<lfloor>now\<rfloor> < \<lfloor>t1\<rfloor> + 1 + VISIBILITY_TIMEOUT_SECONDS" by (simp only: floor_less_iff)
      ultimately show ?thesis by force
    qed
    with collect_expired_none [OF assms(1) _ c] have "V b = V a \<and> (\<forall>xs. w = Inr xs \<longrightarrow> xs = [])" by blast
    with k Inr c va assms(3) show ?thesis
      by (cases w) (auto simp: cleanup_expired_tasks_def rtry_def rbind_def rret_def)
  qed
qed

theorem cleanup_never_requeues_witness:
  "mem_view (snd (cleanup_expired_tasks mem_redis 100 (\<lambda>_. 0) one_task)) = mem_view one_task"
proof -
  have v: "v_hash (mem_view one_task) k = Map.empty" if "startswith k VISIBILITY_TIMEOUT_PREFIX" for k
  proof -
    have "dkeys (m_hashes one_task) = [TASK_PREFIX @ ''t1'']" by code_simp
    moreover have "k \<noteq> TASK_PREFIX @ ''t1''"
      using that by (auto simp: queue_keys startswith_def)
    ultimately have "dget (m_hashes one_task) k = None" by (simp add: dget_None_iff)
    then show ?thesis by (simp add: mem_view_def m_hash_def)
  qed
  obtain y s' where c: "cleanup_expired_tasks mem_redis 100 (\<lambda>_. 0) one_task = (y, s')"
    by (cases "cleanup_expired_tasks mem_redis 100 (\<lambda>_. 0) one_task")
  have "mem_view s' = mem_view one_task"
    by (rule cleanup_never_requeues [OF mem_redis_laws, of _ 100 "\<lambda>_. 0" y])
      (use v c in auto)
  with c show ?thesis by simp
qed

end
