(* ===== verification/AgentGraph.thy ===== *)
theory AgentGraph
  imports PyStr
begin

text \<open>
  The agent graph of TradingAgents: the routing decisions of
  \<open>tradingagents/graph/conditional_logic.py\<close>, the nodes and edges of
  \<open>tradingagents/graph/setup.py\<close>, and what the nodes write into the parts of the state that
  the routing reads (the analysts, the two researchers, the three risk debaters). The language
  models are the environment: every node is run with an arbitrary answer. The graph library
  runs the entry node and follows the edges.
\<close>

section \<open>Nodes and state\<close>

datatype analyst = AMarket | ASocial | ANews | AFundamentals | ACzsc | AYangjia

datatype node = NAnalyst analyst | NTools analyst | NClear analyst
  | NBull | NBear | NResearchManager | NTrader
  | NRisky | NSafe | NNeutral | NRiskJudge | NEnd

text \<open>
  The last message is kept as whether it carries a non-empty list of tool calls, the messages
  as the number of tool results among them. \<open>latest_speaker\<close> is missing at the start.
\<close>

record gstate =
  g_calls :: bool
  g_toolmsgs :: nat
  g_count :: "analyst \<Rightarrow> nat"
  g_report :: "analyst \<Rightarrow> ustr"
  g_debate_count :: nat
  g_debate_response :: ustr
  g_risk_count :: nat
  g_risk_speaker :: "string option"

text \<open>\<open>Propagator.create_initial_state\<close>\<close>

definition initial_state :: gstate where
  "initial_state = \<lparr>g_calls = False, g_toolmsgs = 0, g_count = (\<lambda>_. 0), g_report = (\<lambda>_. []),
     g_debate_count = 0, g_debate_response = [], g_risk_count = 0, g_risk_speaker = None\<rparr>"

record graph_config =
  gc_debate_rounds :: nat
  gc_risk_rounds :: nat

section \<open>The routing decisions\<close>

definition max_tool_calls :: nat where "max_tool_calls = 3"

definition fundamentals_max_tool_calls :: nat where "fundamentals_max_tool_calls = 1"

definition report_done :: "ustr \<Rightarrow> bool" where
  "report_done r \<longleftrightarrow> r \<noteq> [] \<and> 100 < length r"

definition should_continue_market :: "gstate \<Rightarrow> node" where
  "should_continue_market s =
     (if max_tool_calls \<le> g_count s AMarket then NClear AMarket
      else if report_done (g_report s AMarket) then NClear AMarket
      else if g_calls s then NTools AMarket
      else NClear AMarket)"

definition should_continue_social :: "gstate \<Rightarrow> node" where
  "should_continue_social s =
     (if max_tool_calls \<le> g_count s ASocial then NClear ASocial
      else if report_done (g_report s ASocial) then NClear ASocial
      else if g_calls s then NTools ASocial
      else NClear ASocial)"

definition should_continue_news :: "gstate \<Rightarrow> node" where
  "should_continue_news s =
     (if max_tool_calls \<le> g_count s ANews then NClear ANews
      else if report_done (g_report s ANews) then NClear ANews
      else if g_calls s then NTools ANews
      else NClear ANews)"

definition should_continue_fundamentals :: "gstate \<Rightarrow> node" where
  "should_continue_fundamentals s =
     (if report_done (g_report s AFundamentals) then NClear AFundamentals
      else if g_calls s then
        (if fundamentals_max_tool_calls \<le> g_count s AFundamentals then NClear AFundamentals
         else NTools AFundamentals)
      else NClear AFundamentals)"

definition should_continue_debate :: "graph_config \<Rightarrow> gstate \<Rightarrow> node" where
  "should_continue_debate c s =
     (if 2 * gc_debate_rounds c \<le> g_debate_count s then NResearchManager
      else if startswith (g_debate_response s) (ustr_of ''Bull'') then NBear else NBull)"

text \<open>Reading a missing \<open>latest_speaker\<close> raises a KeyError.\<close>

definition should_continue_risk_analysis :: "graph_config \<Rightarrow> gstate \<Rightarrow> (string, node) result" where
  "should_continue_risk_analysis c s = (case g_risk_speaker s of
     None \<Rightarrow> Inl ''KeyError''
   | Some sp \<Rightarrow>
       if 3 * gc_risk_rounds c \<le> g_risk_count s then Inr NRiskJudge
       else if startswith sp ''Risky'' then Inr NSafe
       else if startswith sp ''Safe'' then Inr NNeutral
       else Inr NRisky)"

section \<open>What the nodes write\<close>

text \<open>
  The answer a node gets: whether its message carries tool calls, its text, and how many tool
  results it appends. The fundamentals analyst has several ways to return: a request for tools
  (possible only while no tool has answered), a report without a message, with or without the
  counter, and a report with a message. It counts the tool results among the messages; on one
  path it counts them afresh.
\<close>

datatype fund_return = FundRequest | FundSilent | FundReport | FundFull

record answer =
  an_calls :: bool
  an_text :: ustr
  an_recount :: bool
  an_return :: fund_return
  an_results :: nat

definition fund_count :: "answer \<Rightarrow> gstate \<Rightarrow> nat" where
  "fund_count x s = (if an_recount x then g_toolmsgs s
     else max (g_count s AFundamentals) (g_toolmsgs s))"

definition fundamentals_node :: "answer \<Rightarrow> gstate \<Rightarrow> gstate" where
  "fundamentals_node x s = (let s1 = s\<lparr>g_report := (g_report s)(AFundamentals := an_text x)\<rparr>;
       s2 = s1\<lparr>g_count := (g_count s)(AFundamentals := fund_count x s)\<rparr> in
     (case an_return x of
        FundSilent \<Rightarrow> s1
      | FundReport \<Rightarrow> s2
      | FundFull \<Rightarrow> s2\<lparr>g_calls := an_calls x\<rparr>
      | FundRequest \<Rightarrow>
          if g_toolmsgs s = 0 \<and> g_count s AFundamentals < fundamentals_max_tool_calls
          then s\<lparr>g_calls := True\<rparr> else s2\<lparr>g_calls := an_calls x\<rparr>))"

definition analyst_node :: "answer \<Rightarrow> analyst \<Rightarrow> gstate \<Rightarrow> gstate" where
  "analyst_node x a s = (case a of
     AFundamentals \<Rightarrow> fundamentals_node x s
   | ACzsc \<Rightarrow> s\<lparr>g_report := (g_report s)(a := an_text x)\<rparr>
   | AYangjia \<Rightarrow> s\<lparr>g_report := (g_report s)(a := an_text x)\<rparr>
   | _ \<Rightarrow> s\<lparr>g_report := (g_report s)(a := an_text x), g_calls := an_calls x,
           g_count := (g_count s)(a := g_count s a + 1)\<rparr>)"

text \<open>The tool node appends one result per call, so at least one; a result has no calls.\<close>

definition tools_node :: "answer \<Rightarrow> gstate \<Rightarrow> gstate" where
  "tools_node x s = s\<lparr>g_toolmsgs := g_toolmsgs s + max 1 (an_results x), g_calls := False\<rparr>"

definition msg_delete :: "gstate \<Rightarrow> gstate" where
  "msg_delete s = s\<lparr>g_toolmsgs := 0, g_calls := False\<rparr>"

definition bull_node :: "answer \<Rightarrow> gstate \<Rightarrow> gstate" where
  "bull_node x s = s\<lparr>g_debate_response := ustr_of ''Bull Analyst: '' @ an_text x,
     g_debate_count := g_debate_count s + 1\<rparr>"

definition bear_node :: "answer \<Rightarrow> gstate \<Rightarrow> gstate" where
  "bear_node x s = s\<lparr>g_debate_response := ustr_of ''Bear Analyst: '' @ an_text x,
     g_debate_count := g_debate_count s + 1\<rparr>"

definition risky_node :: "gstate \<Rightarrow> gstate" where
  "risky_node s = s\<lparr>g_risk_speaker := Some ''Risky'', g_risk_count := g_risk_count s + 1\<rparr>"

definition safe_node :: "gstate \<Rightarrow> gstate" where
  "safe_node s = s\<lparr>g_risk_speaker := Some ''Safe'', g_risk_count := g_risk_count s + 1\<rparr>"

definition neutral_node :: "gstate \<Rightarrow> gstate" where
  "neutral_node s = s\<lparr>g_risk_speaker := Some ''Neutral'', g_risk_count := g_risk_count s + 1\<rparr>"

definition research_manager_node :: "answer \<Rightarrow> gstate \<Rightarrow> gstate" where
  "research_manager_node x s = s\<lparr>g_debate_response := an_text x\<rparr>"

definition risk_judge_node :: "gstate \<Rightarrow> gstate" where
  "risk_judge_node s = s\<lparr>g_risk_speaker := Some ''Judge''\<rparr>"

section \<open>The graph\<close>

text \<open>The edge out of a cleared analyst: the next selected one, or the bull researcher.\<close>

fun after_clear :: "analyst list \<Rightarrow> analyst \<Rightarrow> node" where
  "after_clear [] a = NBull"
| "after_clear [b] a = NBull"
| "after_clear (b # c # bs) a = (if a = b then NAnalyst c else after_clear (c # bs) a)"

definition analyst_edge :: "analyst \<Rightarrow> gstate \<Rightarrow> node" where
  "analyst_edge a s = (case a of AMarket \<Rightarrow> should_continue_market s
     | ASocial \<Rightarrow> should_continue_social s | ANews \<Rightarrow> should_continue_news s
     | AFundamentals \<Rightarrow> should_continue_fundamentals s
     | ACzsc \<Rightarrow> NClear ACzsc | AYangjia \<Rightarrow> NClear AYangjia)"

text \<open>A routing answer that is not a target of the edge makes the library raise.\<close>

definition edge_to :: "node list \<Rightarrow> node \<Rightarrow> (string, node) result" where
  "edge_to targets n = (if n \<in> set targets then Inr n else Inl ''KeyError'')"

definition edge_to_result :: "node list \<Rightarrow> (string, node) result \<Rightarrow> (string, node) result" where
  "edge_to_result targets r = (case r of Inl e \<Rightarrow> Inl e | Inr n \<Rightarrow> edge_to targets n)"

definition run_node :: "answer \<Rightarrow> node \<Rightarrow> gstate \<Rightarrow> gstate" where
  "run_node x n s = (case n of NAnalyst a \<Rightarrow> analyst_node x a s | NTools a \<Rightarrow> tools_node x s
     | NClear a \<Rightarrow> msg_delete s | NBull \<Rightarrow> bull_node x s | NBear \<Rightarrow> bear_node x s
     | NResearchManager \<Rightarrow> research_manager_node x s | NTrader \<Rightarrow> s
     | NRisky \<Rightarrow> risky_node s | NSafe \<Rightarrow> safe_node s | NNeutral \<Rightarrow> neutral_node s
     | NRiskJudge \<Rightarrow> risk_judge_node s | NEnd \<Rightarrow> s)"

definition route :: "graph_config \<Rightarrow> analyst list \<Rightarrow> node \<Rightarrow> gstate \<Rightarrow> (string, node) result" where
  "route c sel n s = (case n of
     NAnalyst a \<Rightarrow> edge_to [NTools a, NClear a] (analyst_edge a s)
   | NTools a \<Rightarrow> Inr (NAnalyst a)
   | NClear a \<Rightarrow> Inr (after_clear sel a)
   | NBull \<Rightarrow> edge_to [NBear, NResearchManager] (should_continue_debate c s)
   | NBear \<Rightarrow> edge_to [NBull, NResearchManager] (should_continue_debate c s)
   | NResearchManager \<Rightarrow> Inr NTrader
   | NTrader \<Rightarrow> Inr NRisky
   | NRisky \<Rightarrow> edge_to_result [NSafe, NRiskJudge] (should_continue_risk_analysis c s)
   | NSafe \<Rightarrow> edge_to_result [NNeutral, NRiskJudge] (should_continue_risk_analysis c s)
   | NNeutral \<Rightarrow> edge_to_result [NRisky, NRiskJudge] (should_continue_risk_analysis c s)
   | NRiskJudge \<Rightarrow> Inr NEnd
   | NEnd \<Rightarrow> Inr NEnd)"

text \<open>\<open>setup_graph\<close>: no analyst selected is an error, else the entry is the first one.\<close>

definition entry :: "analyst list \<Rightarrow> (string, node) result" where
  "entry sel = (case sel of [] \<Rightarrow> Inl ''ValueError'' | a # _ \<Rightarrow> Inr (NAnalyst a))"

text \<open>
  Running \<open>n\<close> nodes, the \<open>i\<close>-th with the answer \<open>env i\<close>; the run stops at the end node.
\<close>

fun graph_run :: "graph_config \<Rightarrow> analyst list \<Rightarrow> (nat \<Rightarrow> answer) \<Rightarrow> nat \<Rightarrow> node \<times> gstate
    \<Rightarrow> (string, node \<times> gstate) result" where
  "graph_run c sel env 0 x = Inr x"
| "graph_run c sel env (Suc n) (nd, s) = (if nd = NEnd then Inr (nd, s)
     else let s' = run_node (env 0) nd s in
       (case route c sel nd s' of Inl e \<Rightarrow> Inl e
        | Inr nd' \<Rightarrow> graph_run c sel (\<lambda>i. env (Suc i)) n (nd', s')))"

section \<open>Termination\<close>

text \<open>
  The number of nodes still to run is bounded: what is left for the risk discussion, the
  debate, and every analyst.
\<close>

definition risk_left :: "graph_config \<Rightarrow> gstate \<Rightarrow> nat" where
  "risk_left c s = (3 * gc_risk_rounds c - g_risk_count s) + 2"

definition debate_left :: "graph_config \<Rightarrow> gstate \<Rightarrow> nat" where
  "debate_left c s = (2 * gc_debate_rounds c - g_debate_count s) + 3 + risk_left c s"

definition analyst_left :: "gstate \<Rightarrow> analyst \<Rightarrow> nat" where
  "analyst_left s a = (case a of AFundamentals \<Rightarrow> 4 | ACzsc \<Rightarrow> 2 | AYangjia \<Rightarrow> 2
     | _ \<Rightarrow> 2 * (3 - g_count s a) + 2)"

fun after_left :: "analyst list \<Rightarrow> analyst \<Rightarrow> gstate \<Rightarrow> nat" where
  "after_left [] a s = 0"
| "after_left (b # bs) a s = (if a = b then (\<Sum>x\<leftarrow>bs. analyst_left s x) else after_left bs a s)"

definition steps_left :: "graph_config \<Rightarrow> analyst list \<Rightarrow> node \<Rightarrow> gstate \<Rightarrow> nat" where
  "steps_left c sel n s = (case n of
     NAnalyst a \<Rightarrow> debate_left c s + after_left sel a s
       + (if a = AFundamentals then 2 * (1 - g_toolmsgs s) + 2 else analyst_left s a)
   | NTools a \<Rightarrow> debate_left c s + after_left sel a s
       + (if a = AFundamentals then 3 else analyst_left s a + 1)
   | NClear a \<Rightarrow> debate_left c s + after_left sel a s + 1
   | NBull \<Rightarrow> debate_left c s | NBear \<Rightarrow> debate_left c s
   | NResearchManager \<Rightarrow> risk_left c s + 2 | NTrader \<Rightarrow> risk_left c s + 1
   | NRisky \<Rightarrow> risk_left c s | NSafe \<Rightarrow> risk_left c s | NNeutral \<Rightarrow> risk_left c s
   | NRiskJudge \<Rightarrow> 1 | NEnd \<Rightarrow> 0)"

definition node_ok :: "analyst list \<Rightarrow> node \<Rightarrow> gstate \<Rightarrow> bool" where
  "node_ok sel n s \<longleftrightarrow> (case n of NAnalyst a \<Rightarrow> a \<in> set sel \<and> \<not> g_calls s
     | NTools a \<Rightarrow> a \<in> set sel | NClear a \<Rightarrow> a \<in> set sel | _ \<Rightarrow> True)"


lemmas node_effects = analyst_node_def fundamentals_node_def tools_node_def msg_delete_def
  bull_node_def bear_node_def risky_node_def safe_node_def neutral_node_def
  research_manager_node_def risk_judge_node_def run_node_def

lemmas left_defs = risk_left_def debate_left_def analyst_left_def steps_left_def

lemmas edge_defs = edge_to_def edge_to_result_def route_def

lemma startswith_append [simp]: "startswith (p @ t) p"
  by (simp add: startswith_def)

lemma bull_speaks: "startswith (ustr_of ''Bull Analyst: '' @ t) (ustr_of ''Bull'')"
  by (simp add: startswith_def ustr_of_def)

lemma bear_speaks: "\<not> startswith (ustr_of ''Bear Analyst: '' @ t) (ustr_of ''Bull'')"
  by (simp add: startswith_def ustr_of_def)

lemma analyst_edge_tools:
  "analyst_edge a s = NTools a \<Longrightarrow> a \<noteq> ACzsc \<and> a \<noteq> AYangjia \<and> g_calls s
     \<and> g_count s a < (if a = AFundamentals then 1 else 3)"
  by (cases a) (auto simp: analyst_edge_def should_continue_market_def should_continue_social_def
    should_continue_news_def should_continue_fundamentals_def max_tool_calls_def
    fundamentals_max_tool_calls_def split: if_splits)

lemma analyst_edge_cases: "analyst_edge a s = NClear a \<or> analyst_edge a s = NTools a"
  by (cases a) (auto simp: analyst_edge_def should_continue_market_def should_continue_social_def
    should_continue_news_def should_continue_fundamentals_def)

lemma after_clear_next:
  assumes "a \<in> set sel" "distinct sel"
  shows "after_clear sel a = NBull \<and> after_left sel a s = 0
   \<or> (\<exists>b \<in> set sel. after_clear sel a = NAnalyst b
        \<and> after_left sel a s = analyst_left s b + after_left sel b s)"
  using assms
proof (induction sel a rule: after_clear.induct)
  case (3 b c bs a)
  show ?case
  proof (cases "a = b")
    case True
    then show ?thesis using "3.prems" by auto
  next
    case False
    with 3 have "after_clear (c # bs) a = NBull \<and> after_left (c # bs) a s = 0
      \<or> (\<exists>d \<in> set (c # bs). after_clear (c # bs) a = NAnalyst d
        \<and> after_left (c # bs) a s = analyst_left s d + after_left (c # bs) d s)" by auto
    then show ?thesis
    proof (elim disjE bexE conjE, goal_cases)
      case 1
      then show ?thesis using False by simp
    next
      case (2 d)
      then have "d \<noteq> b" using "3.prems"(2) by auto
      then have "after_left (b # c # bs) d s = after_left (c # bs) d s" by simp
      then show ?thesis using 2 False by (intro disjI2 bexI [of _ d]) simp_all
    qed
  qed
qed auto

lemma after_left_cong:
  assumes "\<forall>b. b \<noteq> a \<longrightarrow> analyst_left s' b = analyst_left s b" "distinct sel"
  shows "after_left sel a s' = after_left sel a s"
  using assms(2)
proof (induction sel)
  case (Cons b bs)
  show ?case
  proof (cases "a = b")
    case True
    then have "map (analyst_left s') bs = map (analyst_left s) bs"
      using Cons.prems assms(1) by (intro map_cong) auto
    then have "sum_list (map (analyst_left s') bs) = sum_list (map (analyst_left s) bs)"
      by (rule arg_cong)
    then show ?thesis using True by (simp only: after_left.simps simp_thms if_True)
  next
    case False
    then show ?thesis using Cons by simp
  qed
qed simp

text \<open>The parts of the bound that a node leaves alone.\<close>

lemma analyst_node_left:
  "debate_left c (analyst_node x a s) = debate_left c s"
  "b \<noteq> a \<Longrightarrow> analyst_left (analyst_node x a s) b = analyst_left s b"
  "g_toolmsgs (analyst_node x a s) = g_toolmsgs s"
  by (auto simp: node_effects left_defs Let_def split: analyst.split fund_return.split)

lemma tools_node_left:
  "debate_left c (tools_node x s) = debate_left c s" "analyst_left (tools_node x s) b = analyst_left s b"
  by (simp_all add: node_effects left_defs split: analyst.split)

lemma msg_delete_left:
  "debate_left c (msg_delete s) = debate_left c s" "analyst_left (msg_delete s) b = analyst_left s b"
  by (simp_all add: node_effects left_defs split: analyst.split)

lemma analyst_decreases:
  assumes "a \<in> set sel" "distinct sel" "\<not> g_calls s" "s' = analyst_node x a s"
  shows "\<exists>n. route c sel (NAnalyst a) s' = Inr n \<and> steps_left c sel n s' < steps_left c sel (NAnalyst a) s
    \<and> node_ok sel n s'"
proof -
  have al: "after_left sel a s' = after_left sel a s"
    using analyst_node_left(2) assms(2,4) by (intro after_left_cong) auto
  have dl: "debate_left c s' = debate_left c s" by (simp add: assms(4) analyst_node_left)
  show ?thesis
  proof (cases "analyst_edge a s' = NTools a")
    case True
    note t = analyst_edge_tools [OF True]
    have "(if a = AFundamentals then 3 else analyst_left s' a + 1)
        < (if a = AFundamentals then 2 * (1 - g_toolmsgs s) + 2 else analyst_left s a)"
      using t assms(3,4)
      by (cases a) (auto simp: analyst_node_def fundamentals_node_def fund_count_def left_defs Let_def
        fundamentals_max_tool_calls_def split: fund_return.splits if_splits)
    then show ?thesis using True assms(1) al dl
      by (auto simp: edge_defs node_ok_def steps_left_def)
  next
    case False
    then have e: "analyst_edge a s' = NClear a" using analyst_edge_cases [of a s'] by auto
    have "1 < (if a = AFundamentals then 2 * (1 - g_toolmsgs s) + 2 else analyst_left s a)"
      by (cases a) (auto simp: analyst_left_def)
    then show ?thesis using e assms(1) al dl by (auto simp: edge_defs node_ok_def steps_left_def)
  qed
qed


lemma debate_edge:
  "should_continue_debate c s = NResearchManager \<and> 2 * gc_debate_rounds c \<le> g_debate_count s
   \<or> should_continue_debate c s \<in> {NBull, NBear} \<and> g_debate_count s < 2 * gc_debate_rounds c"
  by (auto simp: should_continue_debate_def)

lemma clear_decreases:
  assumes "a \<in> set sel" "distinct sel" "s' = msg_delete s"
  shows "\<exists>n. route c sel (NClear a) s' = Inr n \<and> steps_left c sel n s' < steps_left c sel (NClear a) s
    \<and> node_ok sel n s'"
proof -
  have al: "after_left sel d s' = after_left sel d s" for d
    using assms(2,3) msg_delete_left(2) by (intro after_left_cong) auto
  have dl: "debate_left c s' = debate_left c s" by (simp add: assms(3) msg_delete_left)
  have z: "g_toolmsgs s' = 0" "\<not> g_calls s'" by (simp_all add: assms(3) msg_delete_def)
  from after_clear_next [OF assms(1,2), of s] show ?thesis
  proof
    assume "after_clear sel a = NBull \<and> after_left sel a s = 0"
    then show ?thesis using dl by (simp add: route_def steps_left_def node_ok_def)
  next
    assume "\<exists>b \<in> set sel. after_clear sel a = NAnalyst b
        \<and> after_left sel a s = analyst_left s b + after_left sel b s"
    then obtain b where b: "b \<in> set sel" "after_clear sel a = NAnalyst b"
      "after_left sel a s = analyst_left s b + after_left sel b s" by blast
    have "analyst_left s' b = analyst_left s b" by (simp add: assms(3) msg_delete_left)
    then show ?thesis using b dl al [of b] z
      by (auto simp: route_def steps_left_def node_ok_def analyst_left_def split: analyst.splits)
  qed
qed

lemma step_decreases:
  assumes "distinct sel" "node_ok sel n s" "n \<noteq> NEnd" "s' = run_node x n s"
  shows "\<exists>m. route c sel n s' = Inr m \<and> steps_left c sel m s' < steps_left c sel n s \<and> node_ok sel m s'"
proof (cases n)
  case (NAnalyst a)
  then show ?thesis using analyst_decreases [of a sel s s' x c] assms by (auto simp: node_ok_def run_node_def)
next
  case (NTools a)
  have "after_left sel a s' = after_left sel a s"
    using assms(1,4) NTools tools_node_left(2) by (intro after_left_cong) (auto simp: run_node_def)
  then show ?thesis using NTools assms tools_node_left
    by (auto simp: route_def steps_left_def node_ok_def run_node_def tools_node_def)
next
  case (NClear a)
  then show ?thesis using clear_decreases [of a sel s' s c] assms by (auto simp: node_ok_def run_node_def)
next
  case NBull
  then have s: "s' = bull_node x s" using assms(4) by (simp add: run_node_def)
  then have b: "startswith (g_debate_response s') (ustr_of ''Bull'')"
    by (simp add: bull_node_def bull_speaks)
  show ?thesis using NBull s debate_edge [of c s'] b
    by (auto simp: edge_defs node_ok_def left_defs should_continue_debate_def bull_node_def)
next
  case NBear
  then have s: "s' = bear_node x s" using assms(4) by (simp add: run_node_def)
  then have b: "\<not> startswith (g_debate_response s') (ustr_of ''Bull'')"
    by (simp add: bear_node_def bear_speaks)
  show ?thesis using NBear s b
    by (auto simp: edge_defs node_ok_def left_defs should_continue_debate_def bear_node_def)
qed (use assms in \<open>auto simp: edge_defs node_ok_def left_defs node_effects startswith_def
    should_continue_risk_analysis_def\<close>)

lemma graph_run_ends:
  assumes "distinct sel" "node_ok sel n s"
  shows "\<exists>k \<le> steps_left c sel n s. \<exists>t. graph_run c sel env k (n, s) = Inr (NEnd, t)"
  using assms(2)
proof (induction "steps_left c sel n s" arbitrary: n s env rule: less_induct)
  case less
  show ?case
  proof (cases "n = NEnd")
    case True
    then show ?thesis by (intro exI [of _ 0]) auto
  next
    case False
    let ?s = "run_node (env 0) n s"
    from step_decreases [OF assms(1) less.prems False refl] obtain m
      where m: "route c sel n ?s = Inr m" "steps_left c sel m ?s < steps_left c sel n s" "node_ok sel m ?s"
      by blast
    from less.hyps [OF m(2,3)] obtain k t where k: "k \<le> steps_left c sel m ?s"
      "graph_run c sel (\<lambda>i. env (Suc i)) k (m, ?s) = Inr (NEnd, t)" by blast
    then have "graph_run c sel env (Suc k) (n, s) = Inr (NEnd, t)" using False m(1) by (simp add: Let_def)
    with k(1) m(2) show ?thesis by (intro exI [of _ "Suc k"]) auto
  qed
qed

lemma analyst_left_le: "analyst_left s a \<le> 8"
  by (cases a) (auto simp: analyst_left_def)

lemma sum_analyst_left: "(\<Sum>a\<leftarrow>as. analyst_left s a) \<le> 8 * length as"
  by (induction as) (use analyst_left_le in \<open>auto intro: add_mono\<close>)

text \<open>
  C31: Whatever the models answer, a run of the graph over a non-empty list of different
  analysts never raises in its routing and reaches the end after at most eight nodes per
  analyst, two per debate round, three per risk round, and five more.
\<close>

theorem graph_terminates:
  assumes "distinct sel" "sel = a # as"
  shows "\<exists>k \<le> 8 * length sel + 2 * gc_debate_rounds c + 3 * gc_risk_rounds c + 5.
    \<exists>t. entry sel = Inr (NAnalyst a) \<and> graph_run c sel env k (NAnalyst a, initial_state) = Inr (NEnd, t)"
proof -
  have ok: "node_ok sel (NAnalyst a) initial_state"
    using assms(2) by (simp add: node_ok_def initial_state_def)
  have "after_left sel a initial_state \<le> 8 * length as"
    using assms(2) sum_analyst_left [of initial_state as] by simp
  then have "steps_left c sel (NAnalyst a) initial_state
    \<le> 8 * length sel + 2 * gc_debate_rounds c + 3 * gc_risk_rounds c + 5"
    using analyst_left_le [of initial_state a] assms(2)
    by (auto simp: steps_left_def debate_left_def risk_left_def initial_state_def)
  with graph_run_ends [OF assms(1) ok, of c env] show ?thesis
    using assms(2) by (auto simp: entry_def intro: le_trans)
qed

section \<open>The rounds of the two discussions\<close>

definition rounds_ok :: "graph_config \<Rightarrow> node \<Rightarrow> gstate \<Rightarrow> bool" where
  "rounds_ok c n s \<longleftrightarrow> (let D = max 1 (2 * gc_debate_rounds c); R = max 1 (3 * gc_risk_rounds c);
       d = g_debate_count s; r = g_risk_count s in
     (case n of
        NBull \<Rightarrow> even d \<and> d < D \<and> r = 0
      | NBear \<Rightarrow> odd d \<and> d < D \<and> r = 0
      | NResearchManager \<Rightarrow> d = D \<and> r = 0
      | NTrader \<Rightarrow> d = D \<and> r = 0
      | NRisky \<Rightarrow> d = D \<and> r mod 3 = 0 \<and> r < R
      | NSafe \<Rightarrow> d = D \<and> r mod 3 = 1 \<and> r < R
      | NNeutral \<Rightarrow> d = D \<and> r mod 3 = 2 \<and> r < R
      | NRiskJudge \<Rightarrow> d = D \<and> r = R
      | NEnd \<Rightarrow> d = D \<and> r = R
      | _ \<Rightarrow> d = 0 \<and> r = 0))"

lemma analyst_counts [simp]:
  "g_debate_count (analyst_node x a s) = g_debate_count s"
  "g_risk_count (analyst_node x a s) = g_risk_count s"
  by (auto simp: node_effects Let_def split: analyst.split fund_return.split)

lemma after_clear_cases: "after_clear sel a = NBull \<or> (\<exists>b. after_clear sel a = NAnalyst b)"
  by (induction sel a rule: after_clear.induct) auto

lemma rounds_step:
  assumes "rounds_ok c n s" "s' = run_node x n s" "route c sel n s' = Inr m" "n \<noteq> NEnd"
  shows "rounds_ok c m s'"
proof (cases n)
  case (NAnalyst a)
  then show ?thesis using assms analyst_edge_cases [of a s']
    by (auto simp: rounds_ok_def edge_defs run_node_def split: if_splits)
next
  case (NClear a)
  then show ?thesis using assms after_clear_cases [of sel a]
    by (auto simp: rounds_ok_def route_def run_node_def msg_delete_def)
qed (use assms in \<open>auto simp: rounds_ok_def edge_defs node_effects Let_def should_continue_debate_def
    should_continue_risk_analysis_def startswith_def max_def mod_Suc
    split: if_splits\<close>)


lemma rounds_run:
  assumes "graph_run c sel env k (n, s) = Inr (m, t)" "rounds_ok c n s"
  shows "rounds_ok c m t"
  using assms
proof (induction k arbitrary: env n s)
  case (Suc k)
  show ?case
  proof (cases "n = NEnd")
    case False
    then obtain n' where r: "route c sel n (run_node (env 0) n s) = Inr n'"
      "graph_run c sel (\<lambda>i. env (Suc i)) k (n', run_node (env 0) n s) = Inr (m, t)"
      using Suc.prems(1) by (auto simp: Let_def split: sum.splits)
    from rounds_step [OF Suc.prems(2) refl r(1) False] Suc.IH [OF r(2)] show ?thesis by blast
  qed (use Suc.prems in auto)
qed simp

text \<open>
  A run that reaches the end had exactly the configured number of speeches: two per
  debate round and three per risk round, and at least one of each.
\<close>

theorem graph_rounds:
  assumes "graph_run c sel env k (NAnalyst a, initial_state) = Inr (NEnd, t)"
  shows "g_debate_count t = max 1 (2 * gc_debate_rounds c)
    \<and> g_risk_count t = max 1 (3 * gc_risk_rounds c)"
  using rounds_run [OF assms] by (simp add: rounds_ok_def initial_state_def Let_def)

section \<open>Witnesses\<close>

definition ex_answer :: answer where
  "ex_answer = \<lparr>an_calls = True, an_text = [], an_recount = False, an_return = FundRequest, an_results = 1\<rparr>"

definition ex_graph :: graph_config where
  "ex_graph = \<lparr>gc_debate_rounds = 1, gc_risk_rounds = 1\<rparr>"

lemma ex_graph_run: "case graph_run ex_graph [AMarket, AFundamentals] (\<lambda>_. ex_answer) 20
  (NAnalyst AMarket, initial_state) of Inr (nd, t) \<Rightarrow> nd = NEnd | Inl _ \<Rightarrow> False"
  by code_simp

theorem graph_terminates_witness:
  "\<exists>k \<le> 26. \<exists>t. graph_run ex_graph [AMarket, AFundamentals] (\<lambda>_. ex_answer) k
     (NAnalyst AMarket, initial_state) = Inr (NEnd, t)"
  using graph_terminates [of "[AMarket, AFundamentals]" AMarket "[AFundamentals]" ex_graph "\<lambda>_. ex_answer"]
  by (auto simp: ex_graph_def)

theorem graph_rounds_witness:
  "\<exists>t. graph_run ex_graph [AMarket, AFundamentals] (\<lambda>_. ex_answer) 20
     (NAnalyst AMarket, initial_state) = Inr (NEnd, t) \<and> g_debate_count t = 2 \<and> g_risk_count t = 3"
proof -
  obtain t where t: "graph_run ex_graph [AMarket, AFundamentals] (\<lambda>_. ex_answer) 20
     (NAnalyst AMarket, initial_state) = Inr (NEnd, t)"
    using ex_graph_run by (auto split: sum.splits)
  from graph_rounds [OF t] t show ?thesis by (simp add: ex_graph_def)
qed

end
