(* ===== verification/Paper.thy ===== *)
theory Paper
  imports PyNum PyTime
begin

text \<open>
  Paper trading, \<open>app/routers/paper.py\<close>: accounts in three currencies, market orders filled
  at once at the last price, commission, the T+1 rule, and the views of the account. MongoDB is
  not part of the repository: every collection is a parameter \<open>coll\<close> of functions on a state of
  an unknown type, and what the code relies on is \<open>coll_laws\<close> in \<open>PaperProofs\<close>. A request runs
  without other requests in between. The rules, the two price tables and the foreign quote
  service are read only and are the parameter \<open>market_data\<close>; the clock readings are arguments.
  A field an older version of the program may not have written is an option. Quantities are
  below the largest double.
\<close>

section \<open>Documents\<close>

text \<open>The cash of an account is a dict of currencies, in old accounts a single value or missing.\<close>

datatype money = Multi "(string, pyfloat) dict" | Scalar dval | Missing

record account =
  ac_user :: string
  ac_cash :: money
  ac_pnl :: money
  ac_auto_convert :: bool
  ac_default_market :: string
  ac_created :: "pydatetime option"
  ac_updated :: "pydatetime option"

record position =
  po_user :: string
  po_code :: string
  po_market :: "string option"
  po_currency :: "string option"
  po_quantity :: int
  po_available :: "int option"
  po_frozen :: int
  po_avg_cost :: pyfloat
  po_updated :: pydatetime

datatype side = Buy | Sell

record order_doc =
  od_user :: string
  od_code :: string
  od_market :: string
  od_currency :: string
  od_side :: side
  od_quantity :: int
  od_price :: pyfloat
  od_amount :: pyfloat
  od_commission :: pyfloat
  od_created :: pydatetime
  od_filled :: pydatetime
  od_analysis_id :: "string option"

record trade_doc =
  td_user :: string
  td_code :: string
  td_market :: string
  td_currency :: string
  td_side :: side
  td_quantity :: int
  td_price :: pyfloat
  td_amount :: pyfloat
  td_commission :: pyfloat
  td_pnl :: pyfloat
  td_timestamp :: pydatetime
  td_analysis_id :: "string option"

text \<open>The request body; its validation gives a positive quantity.\<close>

record order_request =
  rq_code :: string
  rq_side :: side
  rq_quantity :: int
  rq_market :: "string option"
  rq_analysis_id :: "string option"

record commission_config =
  cc_rate :: "pyfloat option"
  cc_min :: "pyfloat option"
  cc_stamp_duty_rate :: "pyfloat option"
  cc_transaction_levy_rate :: "pyfloat option"
  cc_trading_fee_rate :: "pyfloat option"
  cc_settlement_fee_rate :: "pyfloat option"
  cc_sec_fee_rate :: "pyfloat option"

record market_rules =
  mr_commission :: "commission_config option"
  mr_t_plus :: "int option"

section \<open>The database and the market data\<close>

record ('c, 'd) coll =
  c_find :: "('d \<Rightarrow> bool) \<Rightarrow> 'c \<Rightarrow> 'd list"
  c_insert_one :: "'d \<Rightarrow> 'c \<Rightarrow> 'c"
  c_update_one :: "('d \<Rightarrow> bool) \<Rightarrow> ('d \<Rightarrow> 'd) \<Rightarrow> 'c \<Rightarrow> 'c"
  c_delete_one :: "('d \<Rightarrow> bool) \<Rightarrow> 'c \<Rightarrow> 'c"
  c_delete_many :: "('d \<Rightarrow> bool) \<Rightarrow> 'c \<Rightarrow> 'c"

definition c_find_one :: "('c, 'd) coll \<Rightarrow> ('d \<Rightarrow> bool) \<Rightarrow> 'c \<Rightarrow> 'd option" where
  "c_find_one K q c = (case c_find K q c of [] \<Rightarrow> None | d # _ \<Rightarrow> Some d)"

record ('a, 'p, 'o, 't) mongo =
  k_accounts :: "('a, account) coll"
  k_positions :: "('p, position) coll"
  k_orders :: "('o, order_doc) coll"
  k_trades :: "('t, trade_doc) coll"

record ('a, 'p, 'o, 't) pdb =
  db_accounts :: 'a
  db_positions :: 'p
  db_orders :: 'o
  db_trades :: 't

text \<open>
  The price tables give the field \<open>close\<close> or \<open>current_price\<close> when a document has it. The
  foreign service raises, or gives no quote, or the fields of one.
\<close>

record market_data =
  md_rules :: "string \<Rightarrow> market_rules option"
  md_quote :: "string \<Rightarrow> dval option"
  md_basic :: "string \<Rightarrow> dval option"
  md_foreign :: "string \<Rightarrow> string \<Rightarrow> (unit, (string, dval) dict) result"

text \<open>The readings of the clock in a request: for the account, the order, and today.\<close>

record clock =
  ck_account :: pydatetime
  ck_order :: pydatetime
  ck_today :: date

datatype paper_error = NoPrice | NoCash | NoShares | NeedConfirm | WriteError | PyRaise string

section \<open>Values\<close>

definition dval_true :: "dval \<Rightarrow> bool" where
  "dval_true v = (case v of VNone \<Rightarrow> False | VBool b \<Rightarrow> b | VInt i \<Rightarrow> i \<noteq> 0 | VFloat x \<Rightarrow> x \<noteq> 0
     | VStr s \<Rightarrow> s \<noteq> [] | VList l \<Rightarrow> l \<noteq> [])"

definition dval_or :: "dval \<Rightarrow> dval \<Rightarrow> dval" where
  "dval_or a b = (if dval_true a then a else b)"

definition INITIAL_CASH_BY_MARKET :: "(string, pyfloat) dict" where
  "INITIAL_CASH_BY_MARKET = [(''CNY'', 1000000), (''HKD'', 1000000), (''USD'', 100000)]"

definition detect_market_and_code :: "string \<Rightarrow> string \<times> string" where
  "detect_market_and_code code0 = (let code = py_upper (py_strip code0) in
     if endswith code ''.HK'' then (''HK'', py_zfill 5 (take (length code - 3) code))
     else if code \<noteq> [] \<and> list_all re_upper code then (''US'', code)
     else if list_all re_digit code \<and> (length code = 4 \<or> length code = 5) then (''HK'', py_zfill 5 code)
     else if list_all re_digit code \<and> length code = 6 then (''CN'', code)
     else (''CN'', py_zfill 6 code))"

definition zfill_code :: "string \<Rightarrow> string" where
  "zfill_code code = (let s = py_strip code in
     if length s = 6 \<and> py_isdigit s then s else py_zfill 6 s)"

definition currency_of :: "string \<Rightarrow> string" where
  "currency_of market = (if market = ''CN'' then ''CNY'' else if market = ''HK'' then ''HKD''
     else if market = ''US'' then ''USD'' else ''CNY'')"

section \<open>Accounts\<close>

definition new_account :: "string \<Rightarrow> pydatetime \<Rightarrow> account" where
  "new_account user now = \<lparr>ac_user = user, ac_cash = Multi INITIAL_CASH_BY_MARKET,
     ac_pnl = Multi [(''CNY'', 0), (''HKD'', 0), (''USD'', 0)], ac_auto_convert = False,
     ac_default_market = ''CN'', ac_created = Some now, ac_updated = Some now\<rparr>"

text \<open>The value an old field is migrated to: unchanged, or in CNY, or \<open>float\<close> raises.\<close>

definition in_cny :: "pyfloat \<Rightarrow> money" where
  "in_cny x = Multi [(''CNY'', x), (''HKD'', 0), (''USD'', 0)]"

definition migrate_money :: "money \<Rightarrow> money option" where
  "migrate_money m = (case m of Multi d \<Rightarrow> Some (Multi d)
   | Scalar v \<Rightarrow> map_option in_cny (py_float (dval_or v (VFloat 0)))
   | Missing \<Rightarrow> Some (in_cny 0))"

definition is_multi :: "money \<Rightarrow> bool" where
  "is_multi m = (case m of Multi _ \<Rightarrow> True | _ \<Rightarrow> False)"

definition get_or_create_account :: "('a, 'p, 'o, 't) mongo \<Rightarrow> string \<Rightarrow> pydatetime
    \<Rightarrow> ('a, 'p, 'o, 't) pdb \<Rightarrow> account option \<times> ('a, 'p, 'o, 't) pdb" where
  "get_or_create_account K user now db = (let q = (\<lambda>a. ac_user a = user) in
     (case c_find_one (k_accounts K) q (db_accounts db) of
       None \<Rightarrow> (Some (new_account user now),
         db\<lparr>db_accounts := c_insert_one (k_accounts K) (new_account user now) (db_accounts db)\<rparr>)
     | Some acc \<Rightarrow>
         if is_multi (ac_cash acc) \<and> is_multi (ac_pnl acc) then (Some acc, db)
         else (case (migrate_money (ac_cash acc), migrate_money (ac_pnl acc)) of
             (Some c, Some p) \<Rightarrow>
               (let db' = db\<lparr>db_accounts := c_update_one (k_accounts K) q
                     (\<lambda>a. a\<lparr>ac_cash := (if is_multi (ac_cash acc) then ac_cash a else c),
                            ac_pnl := (if is_multi (ac_pnl acc) then ac_pnl a else p),
                            ac_updated := Some now\<rparr>) (db_accounts db)\<rparr>
                in (c_find_one (k_accounts K) q (db_accounts db'), db'))
           | _ \<Rightarrow> (Some acc, db))))"

section \<open>Commission, quantities, prices\<close>

definition fee :: "pyfloat \<Rightarrow> pyfloat option \<Rightarrow> pyfloat \<Rightarrow> pyfloat" where
  "fee amount rate c = (case rate of None \<Rightarrow> c | Some r \<Rightarrow> fadd c (fmul amount r))"

definition calculate_commission :: "string \<Rightarrow> side \<Rightarrow> pyfloat \<Rightarrow> market_rules option \<Rightarrow> pyfloat" where
  "calculate_commission market sd amount rules =
     (case Option.bind rules mr_commission of None \<Rightarrow> 0
      | Some cc \<Rightarrow>
         let c0 = fadd 0 (max (fmul amount (or_default (cc_rate cc) 0)) (or_default (cc_min cc) 0));
             c1 = (if sd = Sell then fee amount (cc_stamp_duty_rate cc) c0 else c0);
             c2 = (if market = ''HK'' then fee amount (cc_settlement_fee_rate cc)
                (fee amount (cc_trading_fee_rate cc) (fee amount (cc_transaction_levy_rate cc) c1)) else c1);
             c3 = (if market = ''US'' \<and> sd = Sell then fee amount (cc_sec_fee_rate cc) c2 else c2)
         in py_round 2 c3)"

definition position_query :: "string \<Rightarrow> string \<Rightarrow> position \<Rightarrow> bool" where
  "position_query user code p \<longleftrightarrow> po_user p = user \<and> po_code p = code"

definition get_position :: "('a, 'p, 'o, 't) mongo \<Rightarrow> string \<Rightarrow> string
    \<Rightarrow> ('a, 'p, 'o, 't) pdb \<Rightarrow> position option" where
  "get_position K user code db = c_find_one (k_positions K) (position_query user code) (db_positions db)"

definition today_query :: "string \<Rightarrow> string \<Rightarrow> date \<Rightarrow> trade_doc \<Rightarrow> bool" where
  "today_query user code today t \<longleftrightarrow> td_user t = user \<and> td_code t = code \<and> td_side t = Buy
     \<and> today \<le> dt_date (td_timestamp t)"

definition today_buys :: "('a, 'p, 'o, 't) mongo \<Rightarrow> string \<Rightarrow> string \<Rightarrow> date
    \<Rightarrow> ('a, 'p, 'o, 't) pdb \<Rightarrow> int" where
  "today_buys K user code today db =
     (\<Sum>t\<leftarrow>c_find (k_trades K) (today_query user code today) (db_trades db). td_quantity t)"

definition t_plus_one :: "market_rules option \<Rightarrow> bool" where
  "t_plus_one rules \<longleftrightarrow> (case rules of None \<Rightarrow> False | Some r \<Rightarrow> 0 < or_default (mr_t_plus r) 0)"

definition get_available_quantity :: "('a, 'p, 'o, 't) mongo \<Rightarrow> market_data \<Rightarrow> string \<Rightarrow> string
    \<Rightarrow> string \<Rightarrow> date \<Rightarrow> ('a, 'p, 'o, 't) pdb \<Rightarrow> int" where
  "get_available_quantity K md user code market today db =
     (case get_position K user code db of None \<Rightarrow> 0
      | Some pos \<Rightarrow>
          if market = ''CN'' \<and> t_plus_one (md_rules md market)
          then max 0 (po_quantity pos - today_buys K user code today db)
          else po_quantity pos)"

text \<open>A price of a table: \<open>float\<close> of it when that converts and is positive.\<close>

definition table_price :: "dval option \<Rightarrow> pyfloat option" where
  "table_price v = (case Option.bind v py_float of None \<Rightarrow> None
     | Some x \<Rightarrow> if 0 < x then Some x else None)"

definition get_last_price :: "market_data \<Rightarrow> string \<Rightarrow> string \<Rightarrow> pyfloat option" where
  "get_last_price md code market =
     (if market = ''CN'' then
        (case table_price (md_quote md code) of Some x \<Rightarrow> Some x
         | None \<Rightarrow> table_price (md_basic md code))
      else if market = ''HK'' \<or> market = ''US'' then
        (case md_foreign md market code of Inl _ \<Rightarrow> None
         | Inr q \<Rightarrow>
            let price = dval_or (dval_or (dget_default q ''price'' VNone)
               (dget_default q ''current_price'' VNone)) (dget_default q ''close'' VNone)
            in if dval_true price then table_price (Some price) else None)
      else None)"

section \<open>Orders\<close>

text \<open>Setting or incrementing a field of a dict; on a plain value the database refuses.\<close>

definition set_money :: "string \<Rightarrow> pyfloat \<Rightarrow> money \<Rightarrow> money option" where
  "set_money cur x m = (case m of Multi d \<Rightarrow> Some (Multi (dset cur x d))
     | Missing \<Rightarrow> Some (Multi [(cur, x)]) | Scalar _ \<Rightarrow> None)"

definition inc_money :: "string \<Rightarrow> pyfloat \<Rightarrow> money \<Rightarrow> money option" where
  "inc_money cur x m = (case m of Multi d \<Rightarrow> Some (Multi (dset cur (fadd (dget_default d cur 0) x) d))
     | Missing \<Rightarrow> Some (Multi [(cur, x)]) | Scalar _ \<Rightarrow> None)"

definition buy_account :: "string \<Rightarrow> pyfloat \<Rightarrow> pydatetime \<Rightarrow> account \<Rightarrow> account option" where
  "buy_account cur x now a =
     map_option (\<lambda>c. a\<lparr>ac_cash := c, ac_updated := Some now\<rparr>) (set_money cur x (ac_cash a))"

definition sell_account :: "string \<Rightarrow> pyfloat \<Rightarrow> pyfloat \<Rightarrow> pydatetime \<Rightarrow> account \<Rightarrow> account option" where
  "sell_account cur dc dp now a =
     (case (inc_money cur dc (ac_cash a), inc_money cur dp (ac_pnl a)) of
        (Some c, Some p) \<Rightarrow> Some (a\<lparr>ac_cash := c, ac_pnl := p, ac_updated := Some now\<rparr>)
      | _ \<Rightarrow> None)"

definition update_account :: "('a, 'p, 'o, 't) mongo \<Rightarrow> string \<Rightarrow> (account \<Rightarrow> account option)
    \<Rightarrow> ('a, 'p, 'o, 't) pdb \<Rightarrow> (paper_error, ('a, 'p, 'o, 't) pdb) result" where
  "update_account K user f db = (let q = (\<lambda>a. ac_user a = user) in
     (case c_find_one (k_accounts K) q (db_accounts db) of None \<Rightarrow> Inr db
      | Some acc \<Rightarrow> (case f acc of None \<Rightarrow> Inl WriteError
          | Some _ \<Rightarrow> Inr (db\<lparr>db_accounts := c_update_one (k_accounts K) q
               (\<lambda>a. or_default (f a) a) (db_accounts db)\<rparr>))))"

text \<open>The cash check of a buy reads \<open>acc\<close>; \<open>acc.get\<close> raises when there is no account.\<close>

definition available_cash :: "string \<Rightarrow> account option \<Rightarrow> (paper_error, pyfloat) result" where
  "available_cash cur acc = (case acc of None \<Rightarrow> Inl (PyRaise ''AttributeError'')
     | Some a \<Rightarrow> (case ac_cash a of Multi d \<Rightarrow> Inr (dget_default d cur 0)
         | Missing \<Rightarrow> Inr 0
         | Scalar v \<Rightarrow> if cur = ''CNY'' then
              (case py_float v of None \<Rightarrow> Inl (PyRaise ''float'') | Some x \<Rightarrow> Inr x)
            else Inr 0))"

text \<open>A document found before is addressed by its id; the document itself stands for its id.\<close>

definition new_position :: "string \<Rightarrow> order_doc \<Rightarrow> position" where
  "new_position user ord = \<lparr>po_user = user, po_code = od_code ord, po_market = Some (od_market ord),
     po_currency = Some (od_currency ord), po_quantity = od_quantity ord,
     po_available = Some (if od_market ord \<noteq> ''CN'' then od_quantity ord else 0), po_frozen = 0,
     po_avg_cost = od_price ord, po_updated = od_created ord\<rparr>"

definition average_cost :: "position \<Rightarrow> order_doc \<Rightarrow> pyfloat" where
  "average_cost pos ord = (let n = po_quantity pos + od_quantity ord in
     if 0 < n then py_round 4 (fdiv (fadd (fmul (po_avg_cost pos) (fl (of_int (po_quantity pos))))
        (fmul (od_price ord) (fl (of_int (od_quantity ord))))) (fl (of_int n)))
     else od_price ord)"

definition more_position :: "order_doc \<Rightarrow> position \<Rightarrow> position" where
  "more_position ord pos = pos\<lparr>po_quantity := po_quantity pos + od_quantity ord,
     po_available := Some (if od_market ord = ''CN'' then or_default (po_available pos) (po_quantity pos)
       else po_quantity pos + od_quantity ord),
     po_avg_cost := average_cost pos ord, po_updated := od_created ord\<rparr>"

definition less_position :: "order_doc \<Rightarrow> position \<Rightarrow> position" where
  "less_position ord pos = pos\<lparr>po_quantity := po_quantity pos - od_quantity ord,
     po_available := Some (max 0 (or_default (po_available pos) (po_quantity pos) - od_quantity ord)),
     po_updated := od_created ord\<rparr>"

definition total_cost :: "order_doc \<Rightarrow> pyfloat" where
  "total_cost ord = fadd (od_amount ord) (od_commission ord)"

definition buy_order :: "('a, 'p, 'o, 't) mongo \<Rightarrow> string \<Rightarrow> order_doc \<Rightarrow> account option
    \<Rightarrow> ('a, 'p, 'o, 't) pdb \<Rightarrow> (paper_error, ('a, 'p, 'o, 't) pdb) result" where
  "buy_order K user ord acc db =
     (case available_cash (od_currency ord) acc of Inl e \<Rightarrow> Inl e
      | Inr cash \<Rightarrow>
         if cash < total_cost ord then Inl NoCash
         else (case update_account K user (buy_account (od_currency ord)
                   (py_round 2 (fsub cash (total_cost ord))) (od_created ord)) db of
             Inl e \<Rightarrow> Inl e
           | Inr db1 \<Rightarrow>
              (case get_position K user (od_code ord) db of
                 None \<Rightarrow> Inr (db1\<lparr>db_positions :=
                    c_insert_one (k_positions K) (new_position user ord) (db_positions db1)\<rparr>)
               | Some pos \<Rightarrow> Inr (db1\<lparr>db_positions :=
                    c_update_one (k_positions K) (\<lambda>p. p = pos) (more_position ord) (db_positions db1)\<rparr>))))"

definition order_pnl :: "order_doc \<Rightarrow> position \<Rightarrow> pyfloat" where
  "order_pnl ord pos =
     py_round 2 (fmul (fsub (od_price ord) (po_avg_cost pos)) (fl (of_int (od_quantity ord))))"

definition sell_order :: "('a, 'p, 'o, 't) mongo \<Rightarrow> market_data \<Rightarrow> string \<Rightarrow> order_doc \<Rightarrow> date
    \<Rightarrow> ('a, 'p, 'o, 't) pdb \<Rightarrow> (paper_error, pyfloat \<times> ('a, 'p, 'o, 't) pdb) result" where
  "sell_order K md user ord today db =
     (if get_available_quantity K md user (od_code ord) (od_market ord) today db < od_quantity ord
      then Inl NoShares
      else (case get_position K user (od_code ord) db of None \<Rightarrow> Inl (PyRaise ''AttributeError'')
        | Some pos \<Rightarrow>
            (case update_account K user (sell_account (od_currency ord)
                 (fsub (od_amount ord) (od_commission ord)) (order_pnl ord pos) (od_created ord)) db of
               Inl e \<Rightarrow> Inl e
             | Inr db1 \<Rightarrow> Inr (order_pnl ord pos, db1\<lparr>db_positions :=
                 (if po_quantity pos - od_quantity ord = 0
                  then c_delete_one (k_positions K) (\<lambda>p. p = pos) (db_positions db1)
                  else c_update_one (k_positions K) (\<lambda>p. p = pos) (less_position ord) (db_positions db1))\<rparr>))))"

definition trade_of :: "order_doc \<Rightarrow> pyfloat \<Rightarrow> trade_doc" where
  "trade_of ord pnl = \<lparr>td_user = od_user ord, td_code = od_code ord, td_market = od_market ord,
     td_currency = od_currency ord, td_side = od_side ord, td_quantity = od_quantity ord,
     td_price = od_price ord, td_amount = od_amount ord, td_commission = od_commission ord,
     td_pnl = (if od_side ord = Sell then pnl else 0), td_timestamp = od_created ord,
     td_analysis_id = od_analysis_id ord\<rparr>"

definition record_fill :: "('a, 'p, 'o, 't) mongo \<Rightarrow> order_doc \<Rightarrow> pyfloat
    \<Rightarrow> ('a, 'p, 'o, 't) pdb \<Rightarrow> ('a, 'p, 'o, 't) pdb" where
  "record_fill K ord pnl db = db\<lparr>db_orders := c_insert_one (k_orders K) ord (db_orders db),
     db_trades := c_insert_one (k_trades K) (trade_of ord pnl) (db_trades db)\<rparr>"

text \<open>The market and code of a request: as given, in upper case, or detected.\<close>

definition request_market :: "order_request \<Rightarrow> string \<times> string" where
  "request_market rq = (case rq_market rq of
     Some m \<Rightarrow> if m \<noteq> [] then (py_upper m, rq_code rq) else detect_market_and_code (rq_code rq)
   | None \<Rightarrow> detect_market_and_code (rq_code rq))"

definition make_order :: "market_data \<Rightarrow> string \<Rightarrow> order_request \<Rightarrow> pydatetime \<Rightarrow> pyfloat \<Rightarrow> order_doc" where
  "make_order md user rq now price = (case request_market rq of (market, code) \<Rightarrow>
     let notional = py_round 2 (fmul price (fl (of_int (rq_quantity rq)))) in
     \<lparr>od_user = user, od_code = code, od_market = market, od_currency = currency_of market,
      od_side = rq_side rq, od_quantity = rq_quantity rq, od_price = price, od_amount = notional,
      od_commission = calculate_commission market (rq_side rq) notional (md_rules md market),
      od_created = now, od_filled = now,
      od_analysis_id = (if rq_analysis_id rq = Some [] then None else rq_analysis_id rq)\<rparr>)"

definition place_order :: "('a, 'p, 'o, 't) mongo \<Rightarrow> market_data \<Rightarrow> string \<Rightarrow> order_request \<Rightarrow> clock
    \<Rightarrow> ('a, 'p, 'o, 't) pdb \<Rightarrow> (paper_error, order_doc) result \<times> ('a, 'p, 'o, 't) pdb" where
  "place_order K md user rq ck db0 =
     (case request_market rq of (market, code) \<Rightarrow>
      (case get_or_create_account K user (ck_account ck) db0 of (acc, db) \<Rightarrow>
        (case get_last_price md code market of None \<Rightarrow> (Inl NoPrice, db)
         | Some price \<Rightarrow>
            if price \<le> 0 then (Inl NoPrice, db)
            else let ord = make_order md user rq (ck_order ck) price in
              (case rq_side rq of
                 Buy \<Rightarrow> (case buy_order K user ord acc db of Inl e \<Rightarrow> (Inl e, db)
                    | Inr db' \<Rightarrow> (Inr ord, record_fill K ord 0 db'))
               | Sell \<Rightarrow> (case sell_order K md user ord (ck_today ck) db of Inl e \<Rightarrow> (Inl e, db)
                    | Inr (pnl, db') \<Rightarrow> (Inr ord, record_fill K ord pnl db'))))))"

section \<open>Views and reset\<close>

record position_view =
  pv_code :: string
  pv_market :: string
  pv_currency :: string
  pv_quantity :: int
  pv_available :: int
  pv_avg_cost :: pyfloat
  pv_last_price :: "pyfloat option"
  pv_market_value :: pyfloat
  pv_unrealized_pnl :: "pyfloat option"

definition view_position :: "market_data \<Rightarrow> position \<Rightarrow> position_view" where
  "view_position md p = (let market = or_default (po_market p) ''CN'';
       qty = po_quantity p; last_price = get_last_price md (po_code p) market in
     \<lparr>pv_code = po_code p, pv_market = market, pv_currency = or_default (po_currency p) ''CNY'',
      pv_quantity = qty, pv_available = or_default (po_available p) qty, pv_avg_cost = po_avg_cost p,
      pv_last_price = last_price,
      pv_market_value = py_round 2 (fmul (or_default last_price 0) (fl (of_int qty))),
      pv_unrealized_pnl = map_option (\<lambda>x. py_round 2 (fmul (fsub x (po_avg_cost p)) (fl (of_int qty)))) last_price\<rparr>)"

definition list_positions :: "('a, 'p, 'o, 't) mongo \<Rightarrow> market_data \<Rightarrow> string
    \<Rightarrow> ('a, 'p, 'o, 't) pdb \<Rightarrow> position_view list" where
  "list_positions K md user db =
     map (view_position md) (c_find (k_positions K) (\<lambda>p. po_user p = user) (db_positions db))"

text \<open>The newest orders first; the order of equal times is not determined by the database.\<close>

definition list_orders :: "('a, 'p, 'o, 't) mongo \<Rightarrow> nat \<Rightarrow> string \<Rightarrow> ('a, 'p, 'o, 't) pdb \<Rightarrow> order_doc list" where
  "list_orders K limit user db =
     take limit (sort_key_desc od_created (c_find (k_orders K) (\<lambda>ord. od_user ord = user) (db_orders db)))"

text \<open>Adding a value to a currency that is not one of the three raises.\<close>

fun positions_value :: "position_view list \<Rightarrow> (string, pyfloat) dict
    \<Rightarrow> (paper_error, (string, pyfloat) dict) result" where
  "positions_value [] d = Inr d"
| "positions_value (v # vs) d = (case dget d (pv_currency v) of None \<Rightarrow> Inl (PyRaise ''KeyError'')
     | Some x \<Rightarrow> positions_value vs (dset (pv_currency v) (fadd x (pv_market_value v)) d))"

definition money_dict :: "money \<Rightarrow> (string, pyfloat) dict option" where
  "money_dict m = (case m of Multi d \<Rightarrow> Some d | Missing \<Rightarrow> Some []
     | Scalar v \<Rightarrow> map_option (\<lambda>x. [(''CNY'', x), (''HKD'', 0), (''USD'', 0)]) (py_float v))"

record account_view =
  av_cash :: "(string, pyfloat) dict"
  av_pnl :: "(string, pyfloat) dict"
  av_positions_value :: "(string, pyfloat) dict"
  av_equity :: "(string, pyfloat) dict"
  av_updated :: "pydatetime option"

definition currencies :: "string list" where
  "currencies = [''CNY'', ''HKD'', ''USD'']"

definition summary_of :: "(string, pyfloat) dict \<Rightarrow> (string, pyfloat) dict \<Rightarrow> (string, pyfloat) dict
    \<Rightarrow> pydatetime option \<Rightarrow> account_view" where
  "summary_of cash pnl vals upd =
     \<lparr>av_cash = map (\<lambda>c. (c, py_round 2 (dget_default cash c 0))) currencies,
      av_pnl = map (\<lambda>c. (c, py_round 2 (dget_default pnl c 0))) currencies,
      av_positions_value = vals,
      av_equity = map (\<lambda>c. (c, py_round 2 (fadd (dget_default cash c 0) (dget_default vals c 0)))) currencies,
      av_updated = upd\<rparr>"

definition get_account :: "('a, 'p, 'o, 't) mongo \<Rightarrow> market_data \<Rightarrow> string \<Rightarrow> clock
    \<Rightarrow> ('a, 'p, 'o, 't) pdb
    \<Rightarrow> (paper_error, account_view \<times> position_view list) result \<times> ('a, 'p, 'o, 't) pdb" where
  "get_account K md user ck db0 =
     (case get_or_create_account K user (ck_account ck) db0 of (acc, db) \<Rightarrow>
        let views = list_positions K md user db in
        ((case positions_value views (map (\<lambda>c. (c, 0)) currencies) of Inl e \<Rightarrow> Inl e
          | Inr vals \<Rightarrow>
             (case acc of None \<Rightarrow> Inl (PyRaise ''AttributeError'')
              | Some a \<Rightarrow> (case (money_dict (ac_cash a), money_dict (ac_pnl a)) of
                   (Some cash, Some pnl) \<Rightarrow> Inr (summary_of cash pnl vals (ac_updated a), views)
                 | _ \<Rightarrow> Inl (PyRaise ''float'')))), db))"

definition reset_account :: "('a, 'p, 'o, 't) mongo \<Rightarrow> string \<Rightarrow> bool \<Rightarrow> clock
    \<Rightarrow> ('a, 'p, 'o, 't) pdb \<Rightarrow> (paper_error, account option) result \<times> ('a, 'p, 'o, 't) pdb" where
  "reset_account K user confirm ck db =
     (if \<not> confirm then (Inl NeedConfirm, db)
      else (case get_or_create_account K user (ck_account ck)
            \<lparr>db_accounts = c_delete_many (k_accounts K) (\<lambda>a. ac_user a = user) (db_accounts db),
             db_positions = c_delete_many (k_positions K) (\<lambda>p. po_user p = user) (db_positions db),
             db_orders = c_delete_many (k_orders K) (\<lambda>d. od_user d = user) (db_orders db),
             db_trades = c_delete_many (k_trades K) (\<lambda>t. td_user t = user) (db_trades db)\<rparr> of
          (acc, db') \<Rightarrow> (Inr acc, db')))"

end
