(* ===== verification/PaperProofs.thy ===== *)
theory PaperProofs
  imports Paper "HOL-Library.Multiset"
begin

text \<open>
  Paper trading: the documented behaviour of the collections, the outcome of a filled buy and
  of a filled sell, the ledger invariant over every sequence of requests, and what the code
  does not prevent.
\<close>

section \<open>What the code relies on\<close>

text \<open>
  The documents of a collection as a multiset, read with the query that every document
  satisfies. A query gives the documents that satisfy it, \<open>find_one\<close>, \<open>update_one\<close> and
  \<open>delete_one\<close> concern the first of them.
\<close>

definition docs :: "('c, 'd) coll \<Rightarrow> 'c \<Rightarrow> 'd multiset" where
  "docs K c = mset (c_find K (\<lambda>_. True) c)"

definition coll_laws :: "('c, 'd) coll \<Rightarrow> bool" where
  "coll_laws K \<longleftrightarrow>
     (\<forall>q c. mset (c_find K q c) = filter_mset q (docs K c))
   \<and> (\<forall>d c. docs K (c_insert_one K d c) = add_mset d (docs K c))
   \<and> (\<forall>q f c. docs K (c_update_one K q f c) = (case c_find_one K q c of None \<Rightarrow> docs K c
        | Some d \<Rightarrow> add_mset (f d) (docs K c - {#d#})))
   \<and> (\<forall>q c. docs K (c_delete_one K q c) = (case c_find_one K q c of None \<Rightarrow> docs K c
        | Some d \<Rightarrow> docs K c - {#d#}))
   \<and> (\<forall>q c. docs K (c_delete_many K q c) = filter_mset (\<lambda>d. \<not> q d) (docs K c))"

definition mongo_laws :: "('a, 'p, 'o, 't) mongo \<Rightarrow> bool" where
  "mongo_laws K \<longleftrightarrow> coll_laws (k_accounts K) \<and> coll_laws (k_positions K)
     \<and> coll_laws (k_orders K) \<and> coll_laws (k_trades K)"

lemma coll_find:
  "coll_laws K \<Longrightarrow> mset (c_find K q c) = filter_mset q (docs K c)"
  "coll_laws K \<Longrightarrow> docs K (c_insert_one K d c) = add_mset d (docs K c)"
  "coll_laws K \<Longrightarrow> docs K (c_delete_many K q c) = filter_mset (\<lambda>d. \<not> q d) (docs K c)"
  by (simp_all add: coll_laws_def)

lemma coll_update:
  "coll_laws K \<Longrightarrow> c_find_one K q c = Some d
    \<Longrightarrow> docs K (c_update_one K q f c) = add_mset (f d) (docs K c - {#d#})"
  "coll_laws K \<Longrightarrow> c_find_one K q c = Some d \<Longrightarrow> docs K (c_delete_one K q c) = docs K c - {#d#}"
  by (simp_all add: coll_laws_def)

lemma coll_some:
  assumes "coll_laws K" "c_find_one K q c = Some d"
  shows "d \<in># docs K c" "q d"
proof -
  from assms(2) have "d \<in> set (c_find K q c)"
    by (auto simp: c_find_one_def split: list.splits)
  then have "d \<in># mset (c_find K q c)" by simp
  then have "d \<in># filter_mset q (docs K c)" by (simp only: coll_find(1) [OF assms(1)])
  then show "d \<in># docs K c" "q d" by auto
qed

lemma coll_none:
  assumes "coll_laws K" "c_find_one K q c = None"
  shows "filter_mset q (docs K c) = {#}"
proof -
  from assms(2) have "c_find K q c = []" by (auto simp: c_find_one_def split: list.splits)
  then show ?thesis using coll_find(1) [OF assms(1), of q c] by simp
qed

lemma coll_same:
  assumes "coll_laws K" "d \<in># docs K c"
  shows "c_find_one K (\<lambda>x. x = d) c = Some d"
proof (cases "c_find_one K (\<lambda>x. x = d) c")
  case None
  from coll_none [OF assms(1) None] have "set_mset (filter_mset (\<lambda>x. x = d) (docs K c)) = {}"
    by (simp only: set_mset_empty)
  with assms(2) show ?thesis by (simp only: set_mset_filter) blast
next
  case (Some e)
  with coll_some(2) [OF assms(1) Some] show ?thesis by simp
qed

lemma mongo_colls:
  assumes "mongo_laws K"
  shows "coll_laws (k_accounts K)" "coll_laws (k_positions K)" "coll_laws (k_orders K)"
    "coll_laws (k_trades K)"
  using assms by (simp_all add: mongo_laws_def)

section \<open>What each step leaves alone\<close>

lemma account_keeps:
  assumes "get_or_create_account K user now db = (acc, db')"
  shows "db_positions db' = db_positions db" "db_orders db' = db_orders db" "db_trades db' = db_trades db"
  using assms by (auto simp: get_or_create_account_def Let_def split: option.splits if_splits)

lemma update_account_keeps:
  assumes "update_account K user f db = Inr db'"
  shows "db_positions db' = db_positions db" "db_orders db' = db_orders db" "db_trades db' = db_trades db"
  using assms by (auto simp: update_account_def Let_def split: option.splits)

lemma record_fill_docs:
  assumes "mongo_laws K"
  shows "docs (k_orders K) (db_orders (record_fill K d x db)) = add_mset d (docs (k_orders K) (db_orders db))"
    "docs (k_trades K) (db_trades (record_fill K d x db))
       = add_mset (trade_of d x) (docs (k_trades K) (db_trades db))"
  using mongo_colls [OF assms] by (simp_all add: record_fill_def coll_find)

lemma record_fill_keeps [simp]:
  "db_positions (record_fill K d x db) = db_positions db"
  "db_accounts (record_fill K d x db) = db_accounts db"
  by (simp_all add: record_fill_def)

section \<open>The parts of an order\<close>

lemma place_orderE:
  assumes "place_order K md user rq ck db0 = (Inr ord, db')"
  obtains market code acc db price where
    "request_market rq = (market, code)"
    "get_or_create_account K user (ck_account ck) db0 = (acc, db)"
    "get_last_price md code market = Some price" "0 < price"
    "ord = make_order md user rq (ck_order ck) price"
    "rq_side rq = Buy \<Longrightarrow> \<exists>db1. buy_order K user ord acc db = Inr db1 \<and> db' = record_fill K ord 0 db1"
    "rq_side rq = Sell \<Longrightarrow> \<exists>pnl db1. sell_order K md user ord (ck_today ck) db = Inr (pnl, db1)
        \<and> db' = record_fill K ord pnl db1"
  using assms
  by (auto simp: place_order_def Let_def split: prod.splits option.splits if_splits side.splits sum.splits)

lemma make_order_simps:
  assumes "request_market rq = (market, code)"
  shows "od_user (make_order md user rq now price) = user"
    "od_code (make_order md user rq now price) = code"
    "od_market (make_order md user rq now price) = market"
    "od_currency (make_order md user rq now price) = currency_of market"
    "od_side (make_order md user rq now price) = rq_side rq"
    "od_quantity (make_order md user rq now price) = rq_quantity rq"
    "od_price (make_order md user rq now price) = price"
    "od_created (make_order md user rq now price) = now"
  using assms by (simp_all add: make_order_def Let_def)

lemma buy_orderE:
  assumes "buy_order K user ord acc db = Inr db'"
  obtains cash db1 where "available_cash (od_currency ord) acc = Inr cash" "total_cost ord \<le> cash"
    "update_account K user (buy_account (od_currency ord) (py_round 2 (fsub cash (total_cost ord)))
       (od_created ord)) db = Inr db1"
    "db' = db1\<lparr>db_positions := (case get_position K user (od_code ord) db of
        None \<Rightarrow> c_insert_one (k_positions K) (new_position user ord) (db_positions db1)
      | Some pos \<Rightarrow> c_update_one (k_positions K) (\<lambda>p. p = pos) (more_position ord) (db_positions db1))\<rparr>"
  using assms by (auto simp: buy_order_def split: sum.splits if_splits option.splits)

lemma sell_orderE:
  assumes "sell_order K md user ord today db = Inr (pnl, db')"
  obtains pos db1 where "get_position K user (od_code ord) db = Some pos"
    "od_quantity ord \<le> get_available_quantity K md user (od_code ord) (od_market ord) today db"
    "pnl = order_pnl ord pos"
    "update_account K user (sell_account (od_currency ord) (fsub (od_amount ord) (od_commission ord))
       pnl (od_created ord)) db = Inr db1"
    "db' = db1\<lparr>db_positions := (if po_quantity pos - od_quantity ord = 0
        then c_delete_one (k_positions K) (\<lambda>p. p = pos) (db_positions db1)
        else c_update_one (k_positions K) (\<lambda>p. p = pos) (less_position ord) (db_positions db1))\<rparr>"
  using assms by (auto simp: sell_order_def split: sum.splits if_splits option.splits)

text \<open>The positions after a filled order.\<close>

lemma buy_positions:
  assumes "mongo_laws K" "buy_order K user ord acc db = Inr db'"
  shows "docs (k_positions K) (db_positions db') = (case get_position K user (od_code ord) db of
      None \<Rightarrow> add_mset (new_position user ord) (docs (k_positions K) (db_positions db))
    | Some pos \<Rightarrow> add_mset (more_position ord pos) (docs (k_positions K) (db_positions db) - {#pos#}))"
proof -
  note L = mongo_colls [OF assms(1)]
  obtain db1 where "db_positions db1 = db_positions db" and d: "db' = db1\<lparr>db_positions := (case get_position K user (od_code ord) db of
        None \<Rightarrow> c_insert_one (k_positions K) (new_position user ord) (db_positions db1)
      | Some pos \<Rightarrow> c_update_one (k_positions K) (\<lambda>p. p = pos) (more_position ord) (db_positions db1))\<rparr>"
    using buy_orderE [OF assms(2)] update_account_keeps by metis
  then show ?thesis
    by (cases "get_position K user (od_code ord) db")
      (simp_all add: coll_find(2) [OF L(2)] coll_update(1) [OF L(2)] coll_same [OF L(2)]
        coll_some [OF L(2)] get_position_def)
qed

lemma sell_positions:
  assumes "mongo_laws K" "sell_order K md user ord today db = Inr (pnl, db')"
    "get_position K user (od_code ord) db = Some pos"
  shows "docs (k_positions K) (db_positions db') =
     (if po_quantity pos = od_quantity ord then {#} else {#less_position ord pos#})
       + (docs (k_positions K) (db_positions db) - {#pos#})"
proof -
  note L = mongo_colls [OF assms(1)]
  obtain db1 where e: "db_positions db1 = db_positions db" and d: "db' = db1\<lparr>db_positions := (if po_quantity pos - od_quantity ord = 0
        then c_delete_one (k_positions K) (\<lambda>p. p = pos) (db_positions db1)
        else c_update_one (k_positions K) (\<lambda>p. p = pos) (less_position ord) (db_positions db1))\<rparr>"
    using sell_orderE [OF assms(2)] update_account_keeps assms(3) by (metis option.inject)
  have "pos \<in># docs (k_positions K) (db_positions db)"
    using assms(3) coll_some(1) [OF L(2)] by (simp add: get_position_def)
  with d e show ?thesis
    by (simp add: coll_update [OF L(2)] coll_same [OF L(2)])
qed

section \<open>The ledger\<close>

text \<open>
  The books are right when a user has at most one position per code, no position is empty or
  short, and every holding is what was bought less what was sold.
\<close>

definition signed :: "trade_doc \<Rightarrow> int" where
  "signed t = (if td_side t = Buy then td_quantity t else - td_quantity t)"

definition trade_query :: "string \<Rightarrow> string \<Rightarrow> trade_doc \<Rightarrow> bool" where
  "trade_query user code t \<longleftrightarrow> td_user t = user \<and> td_code t = code"

definition books :: "position multiset \<Rightarrow> trade_doc multiset \<Rightarrow> bool" where
  "books P T \<longleftrightarrow>
     (\<forall>u c. size (filter_mset (position_query u c) P) \<le> 1
        \<and> (\<Sum>p \<in># filter_mset (position_query u c) P. po_quantity p)
          = (\<Sum>t \<in># filter_mset (trade_query u c) T. signed t))
   \<and> (\<forall>p. p \<in># P \<longrightarrow> 0 < po_quantity p)
   \<and> (\<forall>t. t \<in># T \<longrightarrow> 0 < td_quantity t)"

definition book_ok :: "('a, 'p, 'o, 't) mongo \<Rightarrow> ('a, 'p, 'o, 't) pdb \<Rightarrow> bool" where
  "book_ok K db \<longleftrightarrow> books (docs (k_positions K) (db_positions db)) (docs (k_trades K) (db_trades db))"

text \<open>A trade that replaces the position of its user and code by one that differs by its quantity.\<close>

lemma books_trade:
  assumes "books P T" "filter_mset (position_query u c) P = old" "old \<subseteq># P"
    "size new \<le> 1" "\<forall>p. p \<in># new \<longrightarrow> position_query u c p \<and> 0 < po_quantity p"
    "(\<Sum>p \<in># new. po_quantity p) = (\<Sum>p \<in># old. po_quantity p) + signed t" "trade_query u c t"
    "0 < td_quantity t"
  shows "books (new + (P - old)) (add_mset t T)"
proof -
  have f: "filter_mset (position_query v d) (new + (P - old)) =
      (if v = u \<and> d = c then new else filter_mset (position_query v d) P)" for v d
  proof (cases "v = u \<and> d = c")
    case True
    have "filter_mset (position_query u c) old = old" using assms(2) by (auto simp: filter_mset_eq_conv)
    moreover have "filter_mset (position_query u c) new = new"
      using assms(5) by (auto simp: filter_mset_eq_conv)
    ultimately show ?thesis using True assms(2) by (simp add: filter_diff_mset)
  next
    case False
    have "\<forall>p. p \<in># old \<longrightarrow> position_query u c p" using assms(2) by auto
    then have "filter_mset (position_query v d) old = {#}"
      using False by (auto simp: filter_mset_eq_conv position_query_def)
    moreover have "filter_mset (position_query v d) new = {#}"
      using False assms(5) by (auto simp: filter_mset_eq_conv position_query_def)
    ultimately have "filter_mset (position_query v d) (new + (P - old)) = filter_mset (position_query v d) P"
      by (simp only: filter_union_mset filter_diff_mset) simp
    then show ?thesis by (simp only: False if_False)
  qed
  have g: "trade_query v d t \<longleftrightarrow> v = u \<and> d = c" for v d using assms(7) by (auto simp: trade_query_def)
  have b: "size (filter_mset (position_query v d) P) \<le> 1"
    "(\<Sum>p \<in># filter_mset (position_query v d) P. po_quantity p)
       = (\<Sum>t \<in># filter_mset (trade_query v d) T. signed t)" for v d
    using assms(1) unfolding books_def by blast+
  show ?thesis unfolding books_def f
  proof (intro conjI allI impI)
    show "size (if v = u \<and> d = c then new else filter_mset (position_query v d) P) \<le> 1" for v d
      using b(1) assms(4) by simp
    show "(\<Sum>p \<in># (if v = u \<and> d = c then new else filter_mset (position_query v d) P). po_quantity p)
      = (\<Sum>t \<in># filter_mset (trade_query v d) (add_mset t T). signed t)" for v d
      using b(2) [of v d] assms(2,6) g by auto
    show "0 < po_quantity p" if "p \<in># new + (P - old)" for p
      using that assms(1,5) by (auto simp: books_def dest: in_diffD)
    show "0 < td_quantity x" if "x \<in># add_mset t T" for x
      using that assms(1,8) by (auto simp: books_def)
  qed
qed

lemma books_at:
  assumes "mongo_laws K" "book_ok K db"
  shows "get_position K u c db = None
      \<Longrightarrow> filter_mset (position_query u c) (docs (k_positions K) (db_positions db)) = {#}"
    and "get_position K u c db = Some pos
      \<Longrightarrow> filter_mset (position_query u c) (docs (k_positions K) (db_positions db)) = {#pos#}
        \<and> {#pos#} \<subseteq># docs (k_positions K) (db_positions db) \<and> position_query u c pos \<and> 0 < po_quantity pos"
proof -
  let ?P = "docs (k_positions K) (db_positions db)"
  note L = mongo_colls [OF assms(1)]
  show "filter_mset (position_query u c) ?P = {#}" if "get_position K u c db = None"
    using that coll_none [OF L(2)] by (simp add: get_position_def)
  assume s: "get_position K u c db = Some pos"
  with coll_some [OF L(2)] have p: "pos \<in># ?P" "position_query u c pos"
    by (auto simp: get_position_def)
  then have "{#pos#} \<subseteq># filter_mset (position_query u c) ?P" by simp
  moreover have "size (filter_mset (position_query u c) ?P) \<le> size {#pos#}"
    using assms(2) by (simp add: book_ok_def books_def)
  ultimately have "filter_mset (position_query u c) ?P = {#pos#}"
    by (metis mset_subset_size not_less subset_mset.le_imp_less_or_eq)
  then show "filter_mset (position_query u c) ?P = {#pos#} \<and> {#pos#} \<subseteq># ?P
     \<and> position_query u c pos \<and> 0 < po_quantity pos"
    using p assms(2) by (simp add: book_ok_def books_def)
qed

lemma available_le:
  assumes "mongo_laws K" "book_ok K db" "get_position K u c db = Some pos"
    "q \<le> get_available_quantity K md u c m d db" "0 < q"
  shows "q \<le> po_quantity pos"
    and "m = ''CN'' \<and> t_plus_one (md_rules md m) \<Longrightarrow> today_buys K u c d db + q \<le> po_quantity pos"
proof -
  have "set (c_find (k_trades K) (today_query u c d) (db_trades db))
      = set_mset (filter_mset (today_query u c d) (docs (k_trades K) (db_trades db)))"
    by (simp only: coll_find(1) [OF mongo_colls(4) [OF assms(1)], symmetric] set_mset_mset)
  then have "0 \<le> today_buys K u c d db"
    unfolding today_buys_def using assms(2)
    by (intro sum_list_nonneg) (auto simp: book_ok_def books_def intro: less_imp_le)
  then show "q \<le> po_quantity pos"
    and "m = ''CN'' \<and> t_plus_one (md_rules md m) \<Longrightarrow> today_buys K u c d db + q \<le> po_quantity pos"
    using assms(3-5) by (auto simp: get_available_quantity_def split: if_splits)
qed

lemma trade_of_simps [simp]:
  "trade_query u c (trade_of ord x) \<longleftrightarrow> od_user ord = u \<and> od_code ord = c"
  "signed (trade_of ord x) = (if od_side ord = Buy then od_quantity ord else - od_quantity ord)"
  "td_quantity (trade_of ord x) = od_quantity ord"
  by (simp_all add: trade_query_def trade_of_def signed_def)

lemma book_ok_cong:
  "db_positions db' = db_positions db \<Longrightarrow> db_trades db' = db_trades db \<Longrightarrow> book_ok K db' = book_ok K db"
  by (simp add: book_ok_def)

lemma buy_book_ok:
  assumes "mongo_laws K" "book_ok K db" "buy_order K user ord acc db = Inr db1"
    "od_user ord = user" "od_side ord = Buy" "0 < od_quantity ord"
  shows "book_ok K (record_fill K ord x db1)"
proof -
  let ?P = "docs (k_positions K) (db_positions db)" and ?T = "docs (k_trades K) (db_trades db)"
  have B: "books ?P ?T" using assms(2) by (simp add: book_ok_def)
  have t: "db_trades db1 = db_trades db"
    using assms(3) update_account_keeps(3) by (auto elim!: buy_orderE)
  note P = buy_positions [OF assms(1,3)] and at = books_at [OF assms(1,2), where u = user and c = "od_code ord"]
  have "books (docs (k_positions K) (db_positions db1)) (add_mset (trade_of ord x) ?T)"
  proof (cases "get_position K user (od_code ord) db")
    case None
    with P books_trade [OF B at(1) [OF None], of "{#new_position user ord#}" "trade_of ord x"] assms(4-6)
    show ?thesis by (simp add: position_query_def new_position_def)
  next
    case (Some pos)
    note a = at(2) [OF Some]
    from a have "filter_mset (position_query user (od_code ord)) ?P = {#pos#}" "{#pos#} \<subseteq># ?P" by blast+
    with P Some books_trade [OF B this, of "{#more_position ord pos#}" "trade_of ord x"] assms(4-6) a
    show ?thesis by (simp add: position_query_def more_position_def)
  qed
  then show ?thesis using t by (simp add: book_ok_def record_fill_docs [OF assms(1)])
qed

lemma sell_book_ok:
  assumes "mongo_laws K" "book_ok K db" "sell_order K md user ord d db = Inr (pnl, db1)"
    "od_user ord = user" "od_side ord = Sell" "0 < od_quantity ord"
  shows "book_ok K (record_fill K ord x db1)"
proof -
  let ?P = "docs (k_positions K) (db_positions db)" and ?T = "docs (k_trades K) (db_trades db)"
  have B: "books ?P ?T" using assms(2) by (simp add: book_ok_def)
  from sell_orderE [OF assms(3)] obtain pos where p: "get_position K user (od_code ord) db = Some pos"
    and q: "od_quantity ord \<le> get_available_quantity K md user (od_code ord) (od_market ord) d db"
    by metis
  have t: "db_trades db1 = db_trades db"
    using assms(3) update_account_keeps(3) by (auto elim!: sell_orderE)
  note a = books_at(2) [OF assms(1,2) p] and le = available_le(1) [OF assms(1,2) p q assms(6)]
  let ?new = "if po_quantity pos = od_quantity ord then {#} else {#less_position ord pos#}"
  from a have "filter_mset (position_query user (od_code ord)) ?P = {#pos#}" "{#pos#} \<subseteq># ?P" by blast+
  from books_trade [OF B this, of ?new "trade_of ord x"] a le assms(4-6)
  have "books (?new + (?P - {#pos#})) (add_mset (trade_of ord x) ?T)"
    by (simp add: position_query_def less_position_def)
  then show ?thesis using t
    by (simp add: book_ok_def record_fill_docs [OF assms(1)] sell_positions [OF assms(1,3) p])
qed

lemma place_order_book_ok:
  assumes "mongo_laws K" "book_ok K db" "0 < rq_quantity rq"
  shows "book_ok K (snd (place_order K md user rq ck db))"
proof (cases "fst (place_order K md user rq ck db)")
  case (Inl e)
  obtain market code acc db1 where r: "request_market rq = (market, code)"
    "get_or_create_account K user (ck_account ck) db = (acc, db1)" by (metis surj_pair)
  then have "snd (place_order K md user rq ck db) = db1" using Inl
    by (auto simp: place_order_def Let_def split: option.splits if_splits side.splits sum.splits prod.splits)
  with account_keeps [OF r(2)] assms(2) show ?thesis by (simp add: book_ok_def)
next
  case (Inr ord)
  then obtain db' where o: "place_order K md user rq ck db = (Inr ord, db')" by (metis prod.collapse)
  show ?thesis
  proof (rule place_orderE [OF o])
    fix market code acc db1 price
    assume a: "request_market rq = (market, code)"
      "get_or_create_account K user (ck_account ck) db = (acc, db1)"
      "ord = make_order md user rq (ck_order ck) price"
      "rq_side rq = Buy \<Longrightarrow> \<exists>db2. buy_order K user ord acc db1 = Inr db2 \<and> db' = record_fill K ord 0 db2"
      "rq_side rq = Sell \<Longrightarrow> \<exists>pnl db2. sell_order K md user ord (ck_today ck) db1 = Inr (pnl, db2)
         \<and> db' = record_fill K ord pnl db2"
    have b: "book_ok K db1" using account_keeps [OF a(2)] assms(2) by (simp add: book_ok_def)
    have f: "od_user ord = user" "od_side ord = rq_side rq" "0 < od_quantity ord"
      using a(1,3) assms(3) by (simp_all add: make_order_simps)
    show "book_ok K (snd (place_order K md user rq ck db))"
      using buy_book_ok [OF assms(1) b] sell_book_ok [OF assms(1) b] a(4,5) f o
      by (cases "rq_side rq") auto
  qed
qed

section \<open>Sequences of requests\<close>

text \<open>Requests of any users, each with the market data and the clock it meets.\<close>

datatype paper_op = OpOrder market_data string order_request clock
  | OpReset string bool clock | OpAccount market_data string clock

definition paper_exec :: "('a, 'p, 'o, 't) mongo \<Rightarrow> paper_op \<Rightarrow> ('a, 'p, 'o, 't) pdb \<Rightarrow> ('a, 'p, 'o, 't) pdb" where
  "paper_exec K x db = (case x of
     OpOrder md user rq ck \<Rightarrow> snd (place_order K md user rq ck db)
   | OpReset user confirm ck \<Rightarrow> snd (reset_account K user confirm ck db)
   | OpAccount md user ck \<Rightarrow> snd (Paper.get_account K md user ck db))"

definition op_valid :: "paper_op \<Rightarrow> bool" where
  "op_valid x \<longleftrightarrow> (case x of OpOrder md user rq ck \<Rightarrow> 0 < rq_quantity rq | _ \<Rightarrow> True)"

lemma books_reset:
  assumes "books P T"
  shows "books (filter_mset (\<lambda>p. po_user p \<noteq> user) P) (filter_mset (\<lambda>t. td_user t \<noteq> user) T)"
proof -
  have p: "filter_mset (position_query u c) (filter_mset (\<lambda>p. po_user p \<noteq> user) P)
      = (if u = user then {#} else filter_mset (position_query u c) P)" for u c
    by (auto simp: filter_filter_mset position_query_def intro!: filter_mset_cong)
  have t: "filter_mset (trade_query u c) (filter_mset (\<lambda>t. td_user t \<noteq> user) T)
      = (if u = user then {#} else filter_mset (trade_query u c) T)" for u c
    by (auto simp: filter_filter_mset trade_query_def intro!: filter_mset_cong)
  show ?thesis unfolding books_def p t using assms by (simp add: books_def)
qed

lemma reset_book_ok:
  assumes "mongo_laws K" "book_ok K db"
  shows "book_ok K (snd (reset_account K user confirm ck db))"
proof (cases confirm)
  case True
  let ?d = "\<lparr>db_accounts = c_delete_many (k_accounts K) (\<lambda>a. ac_user a = user) (db_accounts db),
     db_positions = c_delete_many (k_positions K) (\<lambda>p. po_user p = user) (db_positions db),
     db_orders = c_delete_many (k_orders K) (\<lambda>d. od_user d = user) (db_orders db),
     db_trades = c_delete_many (k_trades K) (\<lambda>t. td_user t = user) (db_trades db)\<rparr>"
  obtain acc db' where g: "get_or_create_account K user (ck_account ck) ?d = (acc, db')" by fastforce
  have "book_ok K ?d" using books_reset assms(2) mongo_colls [OF assms(1)]
    by (simp add: book_ok_def coll_find)
  then have "book_ok K db'" using account_keeps [OF g] by (simp add: book_ok_def)
  then show ?thesis using True g by (simp add: reset_account_def)
qed (use assms in \<open>simp add: reset_account_def\<close>)

lemma exec_book_ok:
  assumes "mongo_laws K" "book_ok K db" "op_valid x"
  shows "book_ok K (paper_exec K x db)"
proof (cases x)
  case (OpAccount md user ck)
  obtain acc db' where "get_or_create_account K user (ck_account ck) db = (acc, db')" by fastforce
  with account_keeps [OF this] assms(2) OpAccount show ?thesis
    by (simp add: paper_exec_def Paper.get_account_def Let_def book_ok_def)
qed (use assms place_order_book_ok reset_book_ok in \<open>auto simp: paper_exec_def op_valid_def\<close>)

text \<open>
  C3: Whatever requests the users send, when they are handled one after the other, and whatever the
  prices, rules and clock are, a user has at most one position per code, no position is ever empty
  or short, and every holding is what the recorded trades bought less what they sold.
\<close>

theorem book_invariant:
  assumes "mongo_laws K" "docs (k_positions K) (db_positions db) = {#}"
    "docs (k_trades K) (db_trades db) = {#}" "list_all op_valid ops"
  shows "book_ok K (fold (paper_exec K) ops db)"
proof (rule fold_keeps [where P = "book_ok K"])
  show "book_ok K db" using assms(2,3) by (simp add: book_ok_def books_def)
qed (use assms(1,4) exec_book_ok in \<open>auto simp: list_all_iff\<close>)

section \<open>Overlapping buys\<close>

text \<open>
  A buy reads the position before it takes the cash, and writes it afterwards; other requests run
  in between. Two buys of a user in a new code that both read before either writes make two
  positions.
\<close>

definition write_position :: "('a, 'p, 'o, 't) mongo \<Rightarrow> string \<Rightarrow> order_doc \<Rightarrow> position option
    \<Rightarrow> ('a, 'p, 'o, 't) pdb \<Rightarrow> ('a, 'p, 'o, 't) pdb" where
  "write_position K user ord found db = db\<lparr>db_positions := (case found of
       None \<Rightarrow> c_insert_one (k_positions K) (new_position user ord) (db_positions db)
     | Some pos \<Rightarrow> c_update_one (k_positions K) (\<lambda>p. p = pos) (more_position ord) (db_positions db))\<rparr>"

lemma buy_order_steps:
  assumes "available_cash (od_currency ord) acc = Inr cash" "\<not> cash < total_cost ord"
  shows "buy_order K user ord acc db = map_sum id (write_position K user ord (get_position K user (od_code ord) db))
    (update_account K user (buy_account (od_currency ord) (py_round 2 (fsub cash (total_cost ord))) (od_created ord)) db)"
  using assms by (auto simp: buy_order_def write_position_def split: sum.split option.split)

lemma overlapping_buys:
  assumes "mongo_laws K" "get_position K user c db = None" "od_code o1 = c" "od_code o2 = c"
    "write_position K user o1 (get_position K user c db) db = db1"
    "write_position K user o2 (get_position K user c db) db1 = db2"
  shows "size (filter_mset (position_query user c) (docs (k_positions K) (db_positions db2))) = 2" "\<not> book_ok K db2"
proof -
  note L = mongo_colls(2) [OF assms(1)]
  have n: "filter_mset (position_query user c) (docs (k_positions K) (db_positions db)) = {#}"
    by (rule coll_none [OF L]) (use assms(2) in \<open>simp add: get_position_def\<close>)
  have "position_query user c (new_position user o1)" "position_query user c (new_position user o2)"
    using assms(3,4) by (simp_all add: position_query_def new_position_def)
  then show two: "size (filter_mset (position_query user c) (docs (k_positions K) (db_positions db2))) = 2"
    using n assms(2,5,6) by (auto simp: write_position_def coll_find(2) [OF L])
  show "\<not> book_ok K db2"
  proof
    assume "book_ok K db2"
    then have "size (filter_mset (position_query user c) (docs (k_positions K) (db_positions db2))) \<le> 1"
      unfolding book_ok_def books_def by blast
    then show False using two by simp
  qed
qed

section \<open>Filled orders\<close>

lemma account_found:
  assumes "mongo_laws K" "get_or_create_account K user now db = (acc, db')"
  shows "c_find_one (k_accounts K) (\<lambda>a. ac_user a = user) (db_accounts db') = acc"
proof (cases "c_find_one (k_accounts K) (\<lambda>a. ac_user a = user) (db_accounts db)")
  case None
  note L = mongo_colls(1) [OF assms(1)]
  let ?q = "\<lambda>a. ac_user a = user"
  have r: "acc = Some (new_account user now)"
    "db_accounts db' = c_insert_one (k_accounts K) (new_account user now) (db_accounts db)"
    using assms(2) None by (auto simp: get_or_create_account_def)
  have "mset (c_find (k_accounts K) ?q (db_accounts db')) = {#new_account user now#}"
    using coll_none [OF L None] by (simp only: coll_find [OF L] r(2)) (simp add: new_account_def)
  then have "c_find (k_accounts K) ?q (db_accounts db') = [new_account user now]"
    by simp
  then show ?thesis using r(1) by (simp add: c_find_one_def)
next
  case (Some a)
  then show ?thesis using assms(2)
    by (auto simp: get_or_create_account_def Let_def split: if_splits option.splits)
qed

lemma update_account_docs:
  assumes "mongo_laws K" "update_account K user f db = Inr db'"
    "c_find_one (k_accounts K) (\<lambda>a. ac_user a = user) (db_accounts db) = Some a"
  shows "\<exists>b. f a = Some b
     \<and> docs (k_accounts K) (db_accounts db') = add_mset b (docs (k_accounts K) (db_accounts db) - {#a#})"
  using assms(2,3) coll_update(1) [OF mongo_colls(1) [OF assms(1)] assms(3)]
  by (auto simp: update_account_def split: option.splits)

text \<open>
  C28: A filled buy was paid for: the account had the cash for the amount and the commission,
  it is left with the rounded rest, which is not negative, and no other account changed; the
  position is new at the price of the order, or has grown by the quantity at the average cost;
  the order and its trade are recorded.
\<close>

theorem buy_fills:
  assumes "mongo_laws K" "rq_side rq = Buy" "get_or_create_account K user (ck_account ck) db0 = (acc, db)"
    "place_order K md user rq ck db0 = (Inr ord, db')"
  shows "\<exists>a cash m. acc = Some a \<and> available_cash (od_currency ord) acc = Inr cash
    \<and> total_cost ord \<le> cash \<and> 0 \<le> py_round 2 (fsub cash (total_cost ord))
    \<and> set_money (od_currency ord) (py_round 2 (fsub cash (total_cost ord))) (ac_cash a) = Some m
    \<and> docs (k_accounts K) (db_accounts db') = add_mset (a\<lparr>ac_cash := m, ac_updated := Some (ck_order ck)\<rparr>)
        (docs (k_accounts K) (db_accounts db) - {#a#})
    \<and> docs (k_positions K) (db_positions db') = (case get_position K user (od_code ord) db of
        None \<Rightarrow> add_mset (new_position user ord) (docs (k_positions K) (db_positions db))
      | Some pos \<Rightarrow> add_mset (more_position ord pos) (docs (k_positions K) (db_positions db) - {#pos#}))
    \<and> docs (k_orders K) (db_orders db') = add_mset ord (docs (k_orders K) (db_orders db))
    \<and> docs (k_trades K) (db_trades db') = add_mset (trade_of ord 0) (docs (k_trades K) (db_trades db))"
proof -
  obtain code market price db1 where o: "buy_order K user ord acc db = Inr db1"
    "db' = record_fill K ord 0 db1" "request_market rq = (market, code)"
    "ord = make_order md user rq (ck_order ck) price"
    using place_orderE [OF assms(4)] assms(2,3) by (metis prod.inject)
  obtain cash db2 where b: "available_cash (od_currency ord) acc = Inr cash" "total_cost ord \<le> cash"
    "update_account K user (buy_account (od_currency ord) (py_round 2 (fsub cash (total_cost ord)))
       (od_created ord)) db = Inr db2" "db_accounts db1 = db_accounts db2"
    "db_orders db1 = db_orders db2" "db_trades db1 = db_trades db2"
    using o(1) by (auto elim!: buy_orderE)
  obtain a where a: "acc = Some a" using b(1) by (cases acc) (auto simp: available_cash_def)
  note u = update_account_docs [OF assms(1) b(3), of a]
  have c: "od_created ord = ck_order ck" using make_order_simps(8) [OF o(3)] o(4) by simp
  have nn: "0 \<le> py_round 2 (fsub cash (total_cost ord))"
    using b(2) by (simp add: fsub_def fl_nonneg py_round_nonneg)
  from u account_found [OF assms(1,3)] a c obtain m where
    "set_money (od_currency ord) (py_round 2 (fsub cash (total_cost ord))) (ac_cash a) = Some m"
    "docs (k_accounts K) (db_accounts db2) = add_mset (a\<lparr>ac_cash := m, ac_updated := Some (ck_order ck)\<rparr>)
       (docs (k_accounts K) (db_accounts db) - {#a#})"
    by (auto simp: buy_account_def)
  with b nn a show ?thesis
    using buy_positions [OF assms(1) o(1)] update_account_keeps [OF b(3)]
    by (simp add: o(2) record_fill_docs [OF assms(1)])
qed

text \<open>
  C27: A filled sell had the shares, without those bought today where the market settles a day
  later; the account gets the amount less the commission and the profit against the average
  cost; the position shrinks by the quantity and is gone when it is sold out.
\<close>

theorem sell_fills:
  assumes "mongo_laws K" "book_ok K db0" "rq_side rq = Sell" "0 < rq_quantity rq"
    "get_or_create_account K user (ck_account ck) db0 = (Some a, db)"
    "place_order K md user rq ck db0 = (Inr ord, db')"
  shows "\<exists>pos c p. get_position K user (od_code ord) db0 = Some pos \<and> od_quantity ord \<le> po_quantity pos
    \<and> (od_market ord = ''CN'' \<and> t_plus_one (md_rules md ''CN'') \<longrightarrow>
         today_buys K user (od_code ord) (ck_today ck) db0 + od_quantity ord \<le> po_quantity pos)
    \<and> inc_money (od_currency ord) (fsub (od_amount ord) (od_commission ord)) (ac_cash a) = Some c
    \<and> inc_money (od_currency ord) (order_pnl ord pos) (ac_pnl a) = Some p
    \<and> docs (k_accounts K) (db_accounts db') = add_mset (a\<lparr>ac_cash := c, ac_pnl := p, ac_updated := Some (ck_order ck)\<rparr>)
        (docs (k_accounts K) (db_accounts db) - {#a#})
    \<and> docs (k_positions K) (db_positions db') =
        (if po_quantity pos = od_quantity ord then {#} else {#less_position ord pos#})
        + (docs (k_positions K) (db_positions db0) - {#pos#})
    \<and> docs (k_trades K) (db_trades db') = add_mset (trade_of ord (order_pnl ord pos)) (docs (k_trades K) (db_trades db0))"
proof -
  note k = account_keeps [OF assms(5)]
  obtain code market price db1 pnl where o: "sell_order K md user ord (ck_today ck) db = Inr (pnl, db1)"
    "db' = record_fill K ord pnl db1" "request_market rq = (market, code)"
    "ord = make_order md user rq (ck_order ck) price"
    using place_orderE [OF assms(6)] assms(3,5) by (metis prod.inject)
  obtain pos db2 where b: "get_position K user (od_code ord) db = Some pos"
    "od_quantity ord \<le> get_available_quantity K md user (od_code ord) (od_market ord) (ck_today ck) db"
    "pnl = order_pnl ord pos"
    "update_account K user (sell_account (od_currency ord) (fsub (od_amount ord) (od_commission ord))
       pnl (od_created ord)) db = Inr db2"
    "db_accounts db1 = db_accounts db2" "db_trades db1 = db_trades db2"
    using o(1) by (auto elim!: sell_orderE)
  have bk: "book_ok K db" using assms(2) k by (simp add: book_ok_def)
  have q: "0 < od_quantity ord" "od_created ord = ck_order ck"
    using assms(4) make_order_simps [OF o(3)] o(4) by simp_all
  have same: "get_position K user (od_code ord) db0 = Some pos"
    "today_buys K user (od_code ord) (ck_today ck) db0 = today_buys K user (od_code ord) (ck_today ck) db"
    using b(1) k by (simp_all add: get_position_def today_buys_def)
  obtain c p where "inc_money (od_currency ord) (fsub (od_amount ord) (od_commission ord)) (ac_cash a) = Some c"
    "inc_money (od_currency ord) pnl (ac_pnl a) = Some p"
    "docs (k_accounts K) (db_accounts db2) = add_mset (a\<lparr>ac_cash := c, ac_pnl := p, ac_updated := Some (ck_order ck)\<rparr>)
       (docs (k_accounts K) (db_accounts db) - {#a#})"
    using update_account_docs [OF assms(1) b(4), of a] account_found [OF assms(1,5)] q(2)
    by (auto simp: sell_account_def split: option.splits)
  then show ?thesis
    using available_le [OF assms(1) bk b(1,2) q(1)] same k b(3,5,6) update_account_keeps [OF b(4)]
      sell_positions [OF assms(1) o(1) b(1)]
    by (simp add: o(2) record_fill_docs [OF assms(1)])
qed

section \<open>What the sale and the position view do\<close>

text \<open>Orders in the mainland market, where shares bought today cannot be sold today.\<close>

definition cn_only :: "paper_op \<Rightarrow> bool" where
  "cn_only x \<longleftrightarrow> (case x of
     OpOrder md user rq ck \<Rightarrow> 0 < rq_quantity rq \<and> fst (request_market rq) = ''CN'' | _ \<Rightarrow> True)"

definition none_available :: "('a, 'p, 'o, 't) mongo \<Rightarrow> ('a, 'p, 'o, 't) pdb \<Rightarrow> bool" where
  "none_available K db \<longleftrightarrow>
     (\<forall>p. p \<in># docs (k_positions K) (db_positions db) \<longrightarrow> po_available p = Some 0)"

lemma none_available_order:
  assumes "mongo_laws K" "none_available K db" "0 < rq_quantity rq" "fst (request_market rq) = ''CN''"
  shows "none_available K (snd (place_order K md user rq ck db))"
proof (cases "fst (place_order K md user rq ck db)")
  case (Inl e)
  obtain market code acc db1 where r: "request_market rq = (market, code)"
    "get_or_create_account K user (ck_account ck) db = (acc, db1)" by (metis surj_pair)
  then have "snd (place_order K md user rq ck db) = db1" using Inl
    by (auto simp: place_order_def Let_def split: option.splits if_splits side.splits sum.splits prod.splits)
  with account_keeps [OF r(2)] assms(2) show ?thesis by (simp add: none_available_def)
next
  case (Inr ord)
  then obtain db' where o: "place_order K md user rq ck db = (Inr ord, db')" by (metis prod.collapse)
  show ?thesis
  proof (rule place_orderE [OF o])
    fix market code acc db1 price
    assume a: "request_market rq = (market, code)"
      "get_or_create_account K user (ck_account ck) db = (acc, db1)"
      "ord = make_order md user rq (ck_order ck) price"
      "rq_side rq = Buy \<Longrightarrow> \<exists>db2. buy_order K user ord acc db1 = Inr db2 \<and> db' = record_fill K ord 0 db2"
      "rq_side rq = Sell \<Longrightarrow> \<exists>pnl db2. sell_order K md user ord (ck_today ck) db1 = Inr (pnl, db2)
         \<and> db' = record_fill K ord pnl db2"
    have b: "none_available K db1" using account_keeps [OF a(2)] assms(2) by (simp add: none_available_def)
    have f: "od_market ord = ''CN''" "0 < od_quantity ord"
      using a(1,3) assms(3,4) by (simp_all add: make_order_simps)
    have z: "po_available pos = Some 0" if "get_position K user (od_code ord) db1 = Some pos" for pos
      using that b coll_some(1) [OF mongo_colls(2) [OF assms(1)]]
      by (auto simp: get_position_def none_available_def)
    have "none_available K db'"
    proof (cases "rq_side rq")
      case Buy
      then obtain db2 where d: "buy_order K user ord acc db1 = Inr db2" "db' = record_fill K ord 0 db2"
        using a(4) by blast
      show ?thesis using b z f
        by (auto simp: d(2) none_available_def buy_positions [OF assms(1) d(1)] new_position_def
          more_position_def split: option.splits dest: in_diffD)
    next
      case Sell
      then obtain pnl db2 where d: "sell_order K md user ord (ck_today ck) db1 = Inr (pnl, db2)"
        "db' = record_fill K ord pnl db2" using a(5) by blast
      from sell_orderE [OF d(1)] obtain pos where p: "get_position K user (od_code ord) db1 = Some pos"
        by metis
      show ?thesis using b z [OF p] f
        by (auto simp: d(2) none_available_def sell_positions [OF assms(1) d(1) p] less_position_def
          split: if_splits dest: in_diffD)
    qed
    then show "none_available K (snd (place_order K md user rq ck db))" using o by simp
  qed
qed

lemma none_available_exec:
  assumes "mongo_laws K" "none_available K db" "cn_only x"
  shows "none_available K (paper_exec K x db)"
proof (cases x)
  case (OpAccount md user ck)
  obtain acc db' where "get_or_create_account K user (ck_account ck) db = (acc, db')" by fastforce
  with account_keeps [OF this] assms(2) OpAccount show ?thesis
    by (simp add: paper_exec_def Paper.get_account_def Let_def none_available_def)
next
  case (OpReset user confirm ck)
  let ?d = "\<lparr>db_accounts = c_delete_many (k_accounts K) (\<lambda>a. ac_user a = user) (db_accounts db),
     db_positions = c_delete_many (k_positions K) (\<lambda>p. po_user p = user) (db_positions db),
     db_orders = c_delete_many (k_orders K) (\<lambda>d. od_user d = user) (db_orders db),
     db_trades = c_delete_many (k_trades K) (\<lambda>t. td_user t = user) (db_trades db)\<rparr>"
  obtain acc db' where g: "get_or_create_account K user (ck_account ck) ?d = (acc, db')" by fastforce
  with account_keeps(1) [OF g] assms(2) OpReset show ?thesis
    by (simp add: paper_exec_def reset_account_def none_available_def coll_find(3) [OF mongo_colls(2) [OF assms(1)]])
qed (use assms none_available_order in \<open>auto simp: paper_exec_def cn_only_def\<close>)

text \<open>
  The field \<open>available_qty\<close> of a mainland position is zero from its first purchase on and
  stays zero whatever happens later and however many days pass: nothing ever releases the
  shares, so the account view shows none as available although a later sale accepts them.
\<close>

theorem available_never_released:
  assumes "mongo_laws K" "docs (k_positions K) (db_positions db) = {#}" "list_all cn_only ops"
  shows "none_available K (fold (paper_exec K) ops db)"
proof (rule fold_keeps [where P = "none_available K"])
  show "none_available K db" using assms(2) by (simp add: none_available_def)
qed (use assms(1,3) none_available_exec in \<open>auto simp: list_all_iff\<close>)

section \<open>A database in memory and concrete runs\<close>

fun upd_first :: "('d \<Rightarrow> bool) \<Rightarrow> ('d \<Rightarrow> 'd) \<Rightarrow> 'd list \<Rightarrow> 'd list" where
  "upd_first q f [] = []"
| "upd_first q f (x # xs) = (if q x then f x # xs else x # upd_first q f xs)"

fun del_first :: "('d \<Rightarrow> bool) \<Rightarrow> 'd list \<Rightarrow> 'd list" where
  "del_first q [] = []"
| "del_first q (x # xs) = (if q x then xs else x # del_first q xs)"

definition mem_coll :: "('d list, 'd) coll" where
  "mem_coll = \<lparr>c_find = filter, c_insert_one = (\<lambda>d c. c @ [d]), c_update_one = upd_first,
     c_delete_one = del_first, c_delete_many = (\<lambda>q. filter (\<lambda>d. \<not> q d))\<rparr>"

definition mem_mongo :: "(account list, position list, order_doc list, trade_doc list) mongo" where
  "mem_mongo = \<lparr>k_accounts = mem_coll, k_positions = mem_coll, k_orders = mem_coll, k_trades = mem_coll\<rparr>"

lemma filter_first: "filter q c = x # xs \<Longrightarrow> q x"
  by (metis (mono_tags) Cons_eq_filterD)

lemma upd_first_mset: "mset (upd_first q f c) = (case filter q c of [] \<Rightarrow> mset c
   | d # _ \<Rightarrow> add_mset (f d) (mset c - {#d#}))"
  by (induction c) (auto split: list.splits dest: filter_first intro!: diff_add_mset_swap [symmetric]
    simp: add_mset_commute)

lemma del_first_mset: "mset (del_first q c) = (case filter q c of [] \<Rightarrow> mset c | d # _ \<Rightarrow> mset c - {#d#})"
  by (induction c) (auto split: list.splits dest: filter_first intro!: diff_add_mset_swap [symmetric])

lemma mem_coll_laws: "coll_laws mem_coll"
  by (auto simp: coll_laws_def docs_def mem_coll_def c_find_one_def upd_first_mset del_first_mset
    split: list.splits)

lemma mem_mongo_laws: "mongo_laws mem_mongo"
  by (simp add: mongo_laws_def mem_mongo_def mem_coll_laws)

definition empty_db :: "(account list, position list, order_doc list, trade_doc list) pdb" where
  "empty_db = \<lparr>db_accounts = [], db_positions = [], db_orders = [], db_trades = []\<rparr>"

definition cn_rules :: market_rules where
  "cn_rules = \<lparr>mr_commission = Some \<lparr>cc_rate = Some 0, cc_min = Some 5,
     cc_stamp_duty_rate = None, cc_transaction_levy_rate = None,
     cc_trading_fee_rate = None, cc_settlement_fee_rate = None, cc_sec_fee_rate = None\<rparr>,
     mr_t_plus = Some 1\<rparr>"

definition cn_market :: "rat \<Rightarrow> market_data" where
  "cn_market x = \<lparr>md_rules = (\<lambda>m. if m = ''CN'' then Some cn_rules else None),
     md_quote = (\<lambda>_. Some (VFloat x)), md_basic = (\<lambda>_. None), md_foreign = (\<lambda>_ _. Inl ())\<rparr>"

definition cn_order :: "side \<Rightarrow> int \<Rightarrow> order_request" where
  "cn_order sd n = \<lparr>rq_code = ''600519'', rq_side = sd, rq_quantity = n, rq_market = None, rq_analysis_id = None\<rparr>"

definition on_day :: "int \<Rightarrow> clock" where
  "on_day d = \<lparr>ck_account = DateTime d 0, ck_order = DateTime d 0, ck_today = d\<rparr>"

definition cash_of :: "(account list, position list, order_doc list, trade_doc list) pdb \<Rightarrow> string \<Rightarrow> pyfloat list" where
  "cash_of db cur = map (\<lambda>a. case ac_cash a of Multi d \<Rightarrow> dget_default d cur 0 | _ \<Rightarrow> 0) (db_accounts db)"

definition after_buy where
  "after_buy = snd (place_order mem_mongo (cn_market 999995) ''u'' (cn_order Buy 1) (on_day 1) empty_db)"


lemma after_buy_ok: "case place_order mem_mongo (cn_market 999995) ''u'' (cn_order Buy 1) (on_day 1) empty_db of
  (Inr ord, db) \<Rightarrow> True | _ \<Rightarrow> False"
  by code_simp

text \<open>
  A sale is never checked against the cash: after spending nearly all of it on one share
  whose price then falls, selling that share for less than the minimum commission is accepted
  and leaves a negative balance.
\<close>

theorem sell_overdraws:
  "case place_order mem_mongo (cn_market 1) ''u'' (cn_order Sell 1) (on_day 2) after_buy of
     (Inr ord, db) \<Rightarrow> cash_of db ''CNY'' = [-4]
   | _ \<Rightarrow> False"
  by code_simp

lemma sale_ok: "case place_order mem_mongo (cn_market 1) ''u'' (cn_order Sell 1) (on_day 2) after_buy of
  (Inr ord, db) \<Rightarrow> True | _ \<Rightarrow> False"
  by code_simp

lemma mem_docs [simp]: "docs (k_positions mem_mongo) c = mset c" "docs (k_trades mem_mongo) d = mset d"
  by (simp_all add: docs_def mem_mongo_def mem_coll_def)

definition ex_ops :: "paper_op list" where
  "ex_ops = [OpOrder (cn_market 10) ''u'' (cn_order Buy 100) (on_day 1),
     OpAccount (cn_market 10) ''u'' (on_day 1), OpOrder (cn_market 11) ''u'' (cn_order Sell 40) (on_day 2)]"

lemma ex_ops_valid: "list_all op_valid ex_ops" "list_all cn_only ex_ops"
  by code_simp+

theorem book_invariant_witness: "book_ok mem_mongo (fold (paper_exec mem_mongo) ex_ops empty_db)"
  using book_invariant [OF mem_mongo_laws _ _ ex_ops_valid(1), of empty_db] by (simp add: empty_db_def)

theorem available_never_released_witness:
  "none_available mem_mongo (fold (paper_exec mem_mongo) ex_ops empty_db)"
  using available_never_released [OF mem_mongo_laws _ ex_ops_valid(2), of empty_db] by (simp add: empty_db_def)

theorem buy_fills_witness:
  "\<exists>ord db'. place_order mem_mongo (cn_market 999995) ''u'' (cn_order Buy 1) (on_day 1) empty_db = (Inr ord, db')
     \<and> (\<exists>cash. total_cost ord \<le> cash \<and> mset (db_trades db') = {#trade_of ord 0#})"
proof -
  obtain ord db' where o: "place_order mem_mongo (cn_market 999995) ''u'' (cn_order Buy 1) (on_day 1) empty_db
      = (Inr ord, db')" using after_buy_ok by (auto split: prod.splits sum.splits)
  obtain acc db where g: "get_or_create_account mem_mongo ''u'' (ck_account (on_day 1)) empty_db = (acc, db)"
    by fastforce
  have "rq_side (cn_order Buy 1) = Buy" by (simp add: cn_order_def)
  from buy_fills [OF mem_mongo_laws this g o] o account_keeps(3) [OF g] show ?thesis
    by (auto simp: empty_db_def)
qed

lemma upd_first_keeps: "filter q (upd_first q f c) = [] \<Longrightarrow> filter q c = x # xs \<Longrightarrow> \<not> q (f x)"
  by (induction c) (auto split: if_splits)

lemma sell_account_some: "\<exists>a db. get_or_create_account mem_mongo u now d = (Some a, db)"
proof -
  obtain acc db where g: "get_or_create_account mem_mongo u now d = (acc, db)" by fastforce
  have "acc \<noteq> None" using g
    by (auto simp: get_or_create_account_def Let_def c_find_one_def mem_mongo_def mem_coll_def
      dest: filter_first dest!: upd_first_keeps split: option.splits if_splits list.splits)
  with g show ?thesis by auto
qed

theorem sell_fills_witness:
  "\<exists>ord db' pos. place_order mem_mongo (cn_market 1) ''u'' (cn_order Sell 1) (on_day 2) after_buy = (Inr ord, db')
     \<and> od_quantity ord \<le> po_quantity pos \<and> get_position mem_mongo ''u'' (od_code ord) after_buy = Some pos"
proof -
  obtain ord db' where o: "place_order mem_mongo (cn_market 1) ''u'' (cn_order Sell 1) (on_day 2) after_buy
      = (Inr ord, db')" using sale_ok by (auto split: prod.splits sum.splits)
  obtain a db where g: "get_or_create_account mem_mongo ''u'' (ck_account (on_day 2)) after_buy = (Some a, db)"
    using sell_account_some by blast
  have b: "book_ok mem_mongo after_buy"
    unfolding after_buy_def
    by (rule place_order_book_ok [OF mem_mongo_laws]) (simp_all add: book_ok_def books_def empty_db_def cn_order_def)
  have "rq_side (cn_order Sell 1) = Sell" "0 < rq_quantity (cn_order Sell 1)" by (simp_all add: cn_order_def)
  from sell_fills [OF mem_mongo_laws b this g o] o show ?thesis by auto
qed
end
