(* ===== verification/Indicators.thy ===== *)
theory Indicators
  imports PyFloat
begin

text \<open>
  The technical indicators of \<open>filter.py\<close> and \<open>stock_filter_b2.py\<close>: RSV and KDJ in both
  variants, exponential and simple moving averages, and the backtest return. A row of the
  history carries the fields \<open>c h l o v\<close>; \<open>pc\<close> and \<open>a\<close> may be missing. Prices and volumes are
  doubles (an integer below two to the 53 is one). \<open>sum\<close> adds from left to right, as the
  interpreter does up to version 3.11.
\<close>

record candle =
  cd_c :: pyfloat
  cd_h :: pyfloat
  cd_l :: pyfloat
  cd_o :: pyfloat
  cd_v :: pyfloat
  cd_pc :: "pyfloat option"
  cd_a :: "pyfloat option"

datatype calc_error = ZeroDivision | EmptyMax | IndexError

section \<open>Lists of numbers\<close>

definition py_sum :: "pyfloat list \<Rightarrow> pyfloat" where
  "py_sum xs = foldl fadd 0 xs"

definition pmax :: "pyfloat list \<Rightarrow> pyfloat" where
  "pmax xs = fold max (tl xs) (hd xs)"

definition pmin :: "pyfloat list \<Rightarrow> pyfloat" where
  "pmin xs = fold min (tl xs) (hd xs)"

text \<open>\<open>xs[i:j]\<close> and \<open>xs[-i]\<close> for indices in range.\<close>

definition window :: "nat \<Rightarrow> nat \<Rightarrow> 'a list \<Rightarrow> 'a list" where
  "window i j xs = take (j - i) (drop i xs)"

definition from_end :: "'a list \<Rightarrow> nat \<Rightarrow> 'a" where
  "from_end xs i = xs ! (length xs - i)"

text \<open>Division by zero raises.\<close>

definition pdiv :: "pyfloat \<Rightarrow> pyfloat \<Rightarrow> (calc_error, pyfloat) result" where
  "pdiv x y = (if y = 0 then Inl ZeroDivision else Inr (fdiv x y))"

section \<open>RSV and KDJ\<close>

text \<open>The RSV of a close in a range: 50 when the range is empty.\<close>

definition rsv_of :: "pyfloat \<Rightarrow> pyfloat \<Rightarrow> pyfloat \<Rightarrow> pyfloat" where
  "rsv_of c hi lo = (if fsub hi lo = 0 then 50 else fmul (fdiv (fsub c lo) (fsub hi lo)) 100)"

definition calculate_rsv :: "pyfloat list \<Rightarrow> pyfloat list \<Rightarrow> pyfloat list \<Rightarrow> nat \<Rightarrow> pyfloat option" where
  "calculate_rsv cs hs ls n =
     (if length cs < n then None
      else Some (rsv_of (last cs) (pmax (last_n n hs)) (pmin (last_n n ls))))"

definition rsv_values :: "nat \<Rightarrow> pyfloat list \<Rightarrow> pyfloat list \<Rightarrow> pyfloat list \<Rightarrow> pyfloat list" where
  "rsv_values n cs hs ls = List.map_filter
     (\<lambda>i. calculate_rsv (take (i + 1) cs) (take (i + 1) hs) (take (i + 1) ls) n) [n - 1..<length cs]"

definition j_of :: "pyfloat \<Rightarrow> pyfloat \<Rightarrow> pyfloat" where
  "j_of k d = fsub (fmul 3 k) (fmul 2 d)"

definition kdj_step :: "pyfloat \<Rightarrow> pyfloat \<times> pyfloat \<Rightarrow> pyfloat \<times> pyfloat" where
  "kdj_step r kd = (let k = fadd (fmul (fdiv 2 3) (fst kd)) (fmul (fdiv 1 3) r) in
     (k, fadd (fmul (fdiv 2 3) (snd kd)) (fmul (fdiv 1 3) k)))"

definition calculate_kdj :: "pyfloat list \<Rightarrow> pyfloat \<times> pyfloat \<times> pyfloat" where
  "calculate_kdj rs = (case rs of [] \<Rightarrow> (50, 50, 50)
     | r # rs' \<Rightarrow> (case fold kdj_step rs' (r, r) of (k, d) \<Rightarrow> (k, d, j_of k d)))"

text \<open>The variant of the B2 filter: the whole series, with shorter windows at the start.\<close>

definition sma_step :: "pyfloat \<Rightarrow> pyfloat \<Rightarrow> pyfloat \<Rightarrow> pyfloat \<Rightarrow> pyfloat" where
  "sma_step n m v prev = fdiv (fadd (fmul m v) (fmul (n - m) prev)) n"

fun sma_from :: "pyfloat \<Rightarrow> pyfloat \<Rightarrow> pyfloat \<Rightarrow> pyfloat list \<Rightarrow> pyfloat list" where
  "sma_from n m p [] = [p]"
| "sma_from n m p (v # vs) = p # sma_from n m (sma_step n m v p) vs"

definition calculate_sma :: "pyfloat list \<Rightarrow> pyfloat \<Rightarrow> pyfloat \<Rightarrow> pyfloat list" where
  "calculate_sma vs n m = (case vs of [] \<Rightarrow> [] | v # vs' \<Rightarrow> sma_from n m v vs')"

definition rsv_series :: "nat \<Rightarrow> pyfloat list \<Rightarrow> pyfloat list \<Rightarrow> pyfloat list \<Rightarrow> pyfloat list" where
  "rsv_series n cs hs ls = map (\<lambda>i. let s = (if i < n - 1 then 0 else i + 1 - n) in
     rsv_of (cs ! i) (pmax (window s (i + 1) hs)) (pmin (window s (i + 1) ls))) [0..<length cs]"

definition calculate_kdj_series :: "pyfloat list \<Rightarrow> pyfloat list \<Rightarrow> pyfloat list \<Rightarrow> nat
    \<Rightarrow> pyfloat list \<times> pyfloat list \<times> pyfloat list" where
  "calculate_kdj_series cs hs ls n = (let ks = calculate_sma (rsv_series n cs hs ls) 3 1;
       ds = calculate_sma ks 3 1 in (ks, ds, map2 j_of ks ds))"

section \<open>Moving averages and the backtest\<close>

fun ema_from :: "pyfloat \<Rightarrow> pyfloat \<Rightarrow> pyfloat list \<Rightarrow> pyfloat list" where
  "ema_from m e [] = [e]"
| "ema_from m e (p # ps) = e # ema_from m (fadd (fmul (fsub p e) m) e) ps"

definition calculate_ema :: "pyfloat list \<Rightarrow> nat \<Rightarrow> pyfloat list option" where
  "calculate_ema ps n = (if length ps < n then None
     else Some (ema_from (fdiv 2 (of_nat (n + 1))) (fdiv (py_sum (take n ps)) (of_nat n)) (drop n ps)))"

definition calculate_ma :: "pyfloat list \<Rightarrow> nat \<Rightarrow> pyfloat list option" where
  "calculate_ma ps n = (if length ps < n then None
     else Some (map (\<lambda>i. fdiv (py_sum (window i (i + n) ps)) (of_nat n)) [0..<length ps - n + 1]))"

record backtest =
  bt_days :: nat
  bt_start_price :: pyfloat
  bt_end_price :: pyfloat
  bt_return_rate :: pyfloat

text \<open>An exception gives None, like a history that is too short.\<close>

definition calculate_backtest_return :: "candle list \<Rightarrow> nat \<Rightarrow> nat \<Rightarrow> backtest option" where
  "calculate_backtest_return rows i days =
     (if i < days \<or> length rows \<le> i then None
      else let past = cd_c (rows ! (i - days)); cur = cd_c (rows ! i) in
        (case pdiv (fsub cur past) past of Inl e \<Rightarrow> None
         | Inr r \<Rightarrow> Some \<lparr>bt_days = days, bt_start_price = past, bt_end_price = cur,
              bt_return_rate = fmul r 100\<rparr>))"

section \<open>Extremes and windows\<close>

lemma fold_max_ge: "a \<le> fold max xs (a :: rat)" "x \<in> set xs \<Longrightarrow> x \<le> fold max xs a"
proof (induction xs arbitrary: a)
  case (Cons y ys)
  {
    case 1
    show ?case using Cons(1) [of "max y a"] by simp
  next
    case 2
    then show ?case using Cons(1) [of "max y a"] Cons(2) [of "max y a"] by auto
  }
qed auto

lemma fold_min_le: "fold min xs (a :: rat) \<le> a" "x \<in> set xs \<Longrightarrow> fold min xs a \<le> x"
proof (induction xs arbitrary: a)
  case (Cons y ys)
  {
    case 1
    show ?case using Cons(1) [of "min y a"] by simp
  next
    case 2
    then show ?case using Cons(1) [of "min y a"] Cons(2) [of "min y a"] by auto
  }
qed auto

lemma pmax_ge: "x \<in> set xs \<Longrightarrow> x \<le> pmax xs"
  using fold_max_ge by (cases xs) (auto simp: pmax_def)

lemma pmin_le: "x \<in> set xs \<Longrightarrow> pmin xs \<le> x"
  using fold_min_le by (cases xs) (auto simp: pmin_def)

lemma length_last_n [simp]: "length (last_n n xs) = min n (length xs)"
  by (simp add: last_n_def)

lemma length_window [simp]: "length (window i j xs) = min (j - i) (length xs - i)"
  by (simp add: window_def)

lemma nth_window [simp]: "k < j - i \<Longrightarrow> i + k < length xs \<Longrightarrow> window i j xs ! k = xs ! (i + k)"
  by (simp add: window_def)

lemma window_member: "i \<le> k \<Longrightarrow> k < j \<Longrightarrow> k < length xs \<Longrightarrow> xs ! k \<in> set (window i j xs)"
  by (metis add_diff_inverse_nat diff_less_mono length_window min_less_iff_conj nth_mem nth_window
    not_less)

lemma last_n_last: "0 < n \<Longrightarrow> xs \<noteq> [] \<Longrightarrow> last xs \<in> set (last_n n xs)"
  by (simp add: last_n_def last_drop last_in_set) (metis diff_less last_drop last_in_set drop_eq_Nil
    length_greater_0_conv not_less)

section \<open>Bounds\<close>

text \<open>A percentage stays one under the roundings of the two recurrences.\<close>

abbreviation percent :: "pyfloat \<Rightarrow> bool" where
  "percent x \<equiv> 0 \<le> x \<and> x \<le> 100"

lemma fl_between: "\<lbrakk>of_int a \<le> x; x \<le> of_int b; \<bar>a\<bar> \<le> 2 ^ 53; \<bar>b\<bar> \<le> 2 ^ 53\<rbrakk>
    \<Longrightarrow> of_int a \<le> fl x \<and> fl x \<le> of_int b"
  by (metis fl_mono fl_of_int)

lemma rsv_of_percent:
  assumes "lo \<le> c" "c \<le> hi"
  shows "percent (rsv_of c hi lo)"
proof (cases "fsub hi lo = 0")
  case False
  let ?n = "fl (c - lo)" and ?d = "fl (hi - lo)"
  have n: "0 \<le> ?n" "?n \<le> ?d" using assms by (auto intro: fl_nonneg fl_mono)
  with False have d: "0 < ?d" by (simp add: fsub_def)
  then have "0 \<le> ?n / ?d" "?n / ?d \<le> 1" using n by simp_all
  then have q: "0 \<le> fl (?n / ?d)" "fl (?n / ?d) \<le> 1"
    using fl_between [of 0 "?n / ?d" 1] by simp_all
  then have "percent (fl (fl (?n / ?d) * 100))"
    using fl_between [of 0 "fl (?n / ?d) * 100" 100] by simp
  with False show ?thesis by (simp add: rsv_of_def fsub_def fdiv_def fmul_def)
qed (simp add: rsv_of_def)

lemma thirds: "fadd (fmul (fdiv 2 3) 100) (fmul (fdiv 1 3) 100) \<le> 100" "0 \<le> fdiv 2 3" "0 \<le> fdiv 1 3"
  by code_simp+

lemma third_mix:
  assumes "percent k" "percent r"
  shows "percent (fadd (fmul (fdiv 2 3) k) (fmul (fdiv 1 3) r))"
proof -
  have "fmul (fdiv 2 3) k \<le> fmul (fdiv 2 3) 100" "fmul (fdiv 1 3) r \<le> fmul (fdiv 1 3) 100"
    unfolding fmul_def using assms thirds(2,3) by (auto intro!: fl_mono mult_left_mono)
  then have "fadd (fmul (fdiv 2 3) k) (fmul (fdiv 1 3) r)
      \<le> fadd (fmul (fdiv 2 3) 100) (fmul (fdiv 1 3) 100)"
    unfolding fadd_def by (intro fl_mono) simp
  moreover have "0 \<le> fadd (fmul (fdiv 2 3) k) (fmul (fdiv 1 3) r)"
    unfolding fadd_def fmul_def using assms thirds(2,3) by (intro fl_nonneg add_nonneg_nonneg) auto
  ultimately show ?thesis using thirds(1) by linarith
qed

lemma sma_step_percent:
  assumes "percent v" "percent p"
  shows "percent (sma_step 3 1 v p)"
proof -
  have a: "0 \<le> fmul 1 v" "fmul 1 v \<le> 100" "0 \<le> fmul 2 p" "fmul 2 p \<le> 200"
    using fl_between [of 0 "1 * v" 100] fl_between [of 0 "2 * p" 200] assms by (simp_all add: fmul_def)
  then have "0 \<le> fadd (fmul 1 v) (fmul 2 p)" "fadd (fmul 1 v) (fmul 2 p) \<le> 300"
    using fl_between [of 0 "fmul 1 v + fmul 2 p" 300] by (simp_all add: fadd_def)
  then show ?thesis
    using fl_between [of 0 "fadd (fmul 1 v) (fmul 2 p) / 3" 100] by (simp add: sma_step_def fdiv_def)
qed

lemma j_of_bounds: "percent k \<Longrightarrow> percent d \<Longrightarrow> -200 \<le> j_of k d \<and> j_of k d \<le> 300"
proof -
  assume a: "percent k" "percent d"
  then have "0 \<le> fmul 3 k" "fmul 3 k \<le> 300" "0 \<le> fmul 2 d" "fmul 2 d \<le> 200"
    using fl_between [of 0 "3 * k" 300] fl_between [of 0 "2 * d" 200] by (simp_all add: fmul_def)
  then show ?thesis
    using fl_between [of "-200" "fmul 3 k - fmul 2 d" 300] by (simp add: j_of_def fsub_def)
qed

lemma length_sma_from [simp]: "length (sma_from n m p vs) = Suc (length vs)"
  by (induction vs arbitrary: p) auto

lemma length_calculate_sma [simp]: "length (calculate_sma vs n m) = length vs"
  by (simp add: calculate_sma_def split: list.splits)

lemma length_ema_from [simp]: "length (ema_from m e ps) = Suc (length ps)"
  by (induction ps arbitrary: e) auto

lemma length_calculate_ema: "calculate_ema ps n = Some es \<Longrightarrow> length es = length ps - n + 1 \<and> n \<le> length ps"
  by (auto simp: calculate_ema_def split: if_splits)

lemma length_calculate_ma: "calculate_ma ps n = Some es \<Longrightarrow> length es = length ps - n + 1 \<and> n \<le> length ps"
  by (auto simp: calculate_ma_def split: if_splits)

text \<open>A row whose close lies between its low and its high.\<close>

definition candle_ok :: "candle \<Rightarrow> bool" where
  "candle_ok r \<longleftrightarrow> cd_l r \<le> cd_c r \<and> cd_c r \<le> cd_h r"

lemma window_rsv_percent:
  assumes "list_all candle_ok rows" "s \<le> i" "i < length rows"
  shows "percent (rsv_of (cd_c (rows ! i)) (pmax (window s (i + 1) (map cd_h rows)))
     (pmin (window s (i + 1) (map cd_l rows))))"
proof (rule rsv_of_percent)
  have ok: "cd_l (rows ! i) \<le> cd_c (rows ! i)" "cd_c (rows ! i) \<le> cd_h (rows ! i)"
    using assms(1,3) by (auto simp: list_all_length candle_ok_def)
  have "map cd_l rows ! i \<in> set (window s (i + 1) (map cd_l rows))"
    "map cd_h rows ! i \<in> set (window s (i + 1) (map cd_h rows))"
    using window_member [of s i "i + 1" "map cd_l rows"] window_member [of s i "i + 1" "map cd_h rows"]
      assms(2,3) by simp_all
  then show "pmin (window s (i + 1) (map cd_l rows)) \<le> cd_c (rows ! i)"
    "cd_c (rows ! i) \<le> pmax (window s (i + 1) (map cd_h rows))"
    using ok pmin_le pmax_ge assms(3) by (metis nth_map order_trans)+
qed

lemma rsv_values_windows:
  assumes "0 < n" "length hs = length cs" "length ls = length cs"
  shows "rsv_values n cs hs ls = map (\<lambda>i. rsv_of (cs ! i) (pmax (window (i + 1 - n) (i + 1) hs))
     (pmin (window (i + 1 - n) (i + 1) ls))) [n - 1..<length cs]"
proof -
  have "calculate_rsv (take (i + 1) cs) (take (i + 1) hs) (take (i + 1) ls) n
      = Some (rsv_of (cs ! i) (pmax (window (i + 1 - n) (i + 1) hs)) (pmin (window (i + 1 - n) (i + 1) ls)))"
    if "i \<in> set [n - 1..<length cs]" for i
  proof -
    have i: "n \<le> i + 1" "i < length cs" using that assms(1) by auto
    then have "last (take (i + 1) cs) = cs ! i"
      by (simp add: take_Suc_conv_app_nth)
    moreover have "last_n n (take (i + 1) xs) = window (i + 1 - n) (i + 1) xs" if "length xs = length cs" for xs :: "pyfloat list"
    proof -
      have "min (length xs) (i + 1) = i + 1" using i that by simp
      then show ?thesis using i by (simp add: last_n_def window_def drop_take)
    qed
    ultimately show ?thesis using i assms(2,3) by (simp add: calculate_rsv_def min_def)
  qed
  then show ?thesis unfolding rsv_values_def
    by (induction "[n - 1..<length cs]") (auto simp: List.map_filter_def intro!: map_cong)
qed

section \<open>Smoothing\<close>

text \<open>
  Both variants of the KDJ values smooth a series: a new value and the last average give the next
  average, and a step keeps percentages. The first variant folds the step, the second records
  every average.
\<close>

fun averages :: "(pyfloat \<Rightarrow> pyfloat \<Rightarrow> pyfloat) \<Rightarrow> pyfloat \<Rightarrow> pyfloat list \<Rightarrow> pyfloat list" where
  "averages step p [] = [p]"
| "averages step p (v # vs) = p # averages step (step v p) vs"

locale smoothing =
  fixes step :: "pyfloat \<Rightarrow> pyfloat \<Rightarrow> pyfloat"
  assumes step_percent: "percent v \<Longrightarrow> percent p \<Longrightarrow> percent (step v p)"
begin

lemma averages_percent: "percent p \<Longrightarrow> list_all percent vs \<Longrightarrow> list_all percent (averages step p vs)"
  by (induction vs arbitrary: p) (use step_percent in auto)

lemma fold_last: "fold step vs p = last (averages step p vs)"
  by (induction vs arbitrary: p) (auto simp: neq_Nil_conv split: list.splits, (metis averages.elims list.distinct(1))+)

lemma fold_percent: "percent p \<Longrightarrow> list_all percent vs \<Longrightarrow> percent (fold step vs p)"
  by (induction vs arbitrary: p) (use step_percent in auto)

end

definition third_step :: "pyfloat \<Rightarrow> pyfloat \<Rightarrow> pyfloat" where
  "third_step r k = fadd (fmul (fdiv 2 3) k) (fmul (fdiv 1 3) r)"

interpretation third: smoothing third_step
  by unfold_locales (simp only: third_step_def third_mix)

interpretation sma: smoothing "sma_step 3 1"
  by unfold_locales (rule sma_step_percent)

lemma sma_from_averages: "sma_from n m p vs = averages (sma_step n m) p vs"
  by (induction vs arbitrary: p) simp_all

lemma calculate_sma_percent: "list_all percent vs \<Longrightarrow> list_all percent (calculate_sma vs 3 1)"
  using sma.averages_percent by (auto simp: calculate_sma_def sma_from_averages split: list.splits)

text \<open>K is the smoothed RSV, and D smooths the averages K has run through.\<close>

lemma kdj_fold: "fold kdj_step rs (k, d) = (fold third_step rs k,
    fold third_step (tl (averages third_step k rs)) d)"
proof (induction rs arbitrary: k d)
  case (Cons r rs)
  then show ?case by (cases rs) (simp_all add: kdj_step_def third_step_def Let_def)
qed simp

lemma j_values_bounds: "list_all percent ks \<Longrightarrow> list_all percent ds
    \<Longrightarrow> list_all (\<lambda>j. -200 \<le> j \<and> j \<le> 300) (map2 j_of ks ds)"
proof (induction ks arbitrary: ds)
  case (Cons k ks)
  then show ?case by (cases ds) (simp_all add: j_of_bounds)
qed simp

section \<open>The bounds of KDJ\<close>

text \<open>
  C32: On rows whose close lies between low and high, every K and D value of both variants is a
  percentage and every J value lies between -200 and 300, in spite of the roundings.
\<close>

theorem kdj_bounds:
  assumes "list_all candle_ok rows" "0 < n"
  shows "(case calculate_kdj (rsv_values n (map cd_c rows) (map cd_h rows) (map cd_l rows)) of
      (k, d, j) \<Rightarrow> percent k \<and> percent d \<and> -200 \<le> j \<and> j \<le> 300)
    \<and> (case calculate_kdj_series (map cd_c rows) (map cd_h rows) (map cd_l rows) n of
      (ks, ds, js) \<Rightarrow> length ks = length rows \<and> length ds = length rows \<and> length js = length rows
        \<and> list_all percent ks \<and> list_all percent ds \<and> list_all (\<lambda>j. -200 \<le> j \<and> j \<le> 300) js)"
proof (rule conjI)
  let ?rs = "rsv_values n (map cd_c rows) (map cd_h rows) (map cd_l rows)"
  have rs: "list_all percent ?rs"
  proof -
    have "percent (rsv_of (cd_c (rows ! i)) (pmax (window (i + 1 - n) (i + 1) (map cd_h rows)))
        (pmin (window (i + 1 - n) (i + 1) (map cd_l rows))))" if "i < length rows" for i
      by (rule window_rsv_percent [OF assms(1) _ that]) (use assms(2) in arith)
    then show ?thesis using assms(2) by (simp add: rsv_values_windows list_all_iff)
  qed
  show "case calculate_kdj ?rs of (k, d, j) \<Rightarrow> percent k \<and> percent d \<and> -200 \<le> j \<and> j \<le> 300"
  proof (cases ?rs)
    case (Cons r rs')
    with rs have r: "percent r" "list_all percent rs'" by simp_all
    let ?as = "averages third_step r rs'"
    have "list_all percent (tl ?as)"
      using third.averages_percent [OF r] by (cases ?as) simp_all
    then have "percent (fold third_step (tl ?as) r)" using third.fold_percent r(1) by blast
    moreover have "percent (fold third_step rs' r)" using third.fold_percent r by blast
    ultimately show ?thesis using j_of_bounds by (simp add: Cons calculate_kdj_def kdj_fold)
  qed (simp add: calculate_kdj_def)
next
  let ?rs = "rsv_series n (map cd_c rows) (map cd_h rows) (map cd_l rows)"
  let ?ks = "calculate_sma ?rs 3 1" let ?ds = "calculate_sma ?ks 3 1"
  have "list_all percent ?rs"
  proof -
    have "percent x" if x: "x \<in> set ?rs" for x
    proof -
      from x obtain i where i: "i < length rows" and "x = (let s = (if i < n - 1 then 0 else i + 1 - n) in
          rsv_of (cd_c (rows ! i)) (pmax (window s (i + 1) (map cd_h rows))) (pmin (window s (i + 1) (map cd_l rows))))"
        by (auto simp: rsv_series_def)
      moreover have "(if i < n - 1 then 0 else i + 1 - n) \<le> i" using assms(2) by auto
      ultimately show ?thesis unfolding Let_def using window_rsv_percent [OF assms(1) _ i] by blast
    qed
    then show ?thesis by (auto simp: list_all_iff)
  qed
  then have ks: "list_all percent ?ks" by (rule calculate_sma_percent)
  then have ds: "list_all percent ?ds" by (rule calculate_sma_percent)
  have js: "list_all (\<lambda>j. -200 \<le> j \<and> j \<le> 300) (map2 j_of ?ks ?ds)"
    by (rule j_values_bounds [OF ks ds])
  have "length ?rs = length rows" by (simp add: rsv_series_def)
  with ks ds js show "case calculate_kdj_series (map cd_c rows) (map cd_h rows) (map cd_l rows) n of
      (ks, ds, js) \<Rightarrow> length ks = length rows \<and> length ds = length rows \<and> length js = length rows
        \<and> list_all percent ks \<and> list_all percent ds \<and> list_all (\<lambda>j. -200 \<le> j \<and> j \<le> 300) js"
    by (simp add: calculate_kdj_series_def Let_def)
qed

definition ex_candle :: "rat \<Rightarrow> rat \<Rightarrow> rat \<Rightarrow> candle" where
  "ex_candle l c h = \<lparr>cd_c = c, cd_h = h, cd_l = l, cd_o = c, cd_v = 1, cd_pc = None, cd_a = None\<rparr>"

lemma kdj_bounds_witness:
  "\<exists>k d j. calculate_kdj (rsv_values 2 [3, 1, 2] [4, 4, 2] [1, 1, 1]) = (k, d, j)
    \<and> 0 \<le> k \<and> k \<le> 100 \<and> 0 \<le> d \<and> d \<le> 100 \<and> -200 \<le> j \<and> j \<le> 300"
proof -
  have "list_all candle_ok [ex_candle 1 3 4, ex_candle 1 1 4, ex_candle 1 2 2]"
    by (simp add: ex_candle_def candle_ok_def)
  from kdj_bounds [OF this, of 2] show ?thesis
    by (cases "calculate_kdj (rsv_values 2 [3, 1, 2] [4, 4, 2] [1, 1, 1])") (simp add: ex_candle_def)
qed

end
