(* ===== verification/FilterKeys.thy ===== *)
theory FilterKeys
  imports Models
begin

text \<open>
  The keys of the dicts that the screenings of \<open>filter.py\<close>, \<open>stock_filter.py\<close> and
  \<open>stock_filter_b2.py\<close> build, as code points: the conditions (\<open>kc\<close>), the KDJ values (\<open>kk\<close>), the
  indicators (\<open>ki\<close>) and details (\<open>kd\<close>) of B1, those of B2 (\<open>kb\<close>) and of the ultra-short
  strategy (\<open>ku\<close>). \<open>Models\<close> has the keys that the later stages read.
\<close>

definition kc_j13 :: ustr where "kc_j13 = ustr_of ''J<13''"
definition kc_above_ma60 :: ustr where "kc_above_ma60 = [25910, 30424, 20215, 62, 77, 65, 54, 48]"
definition kc_above_zxdkx :: ustr where
  "kc_above_zxdkx = [25910, 30424, 20215, 62, 90, 88, 68, 75, 88]"
definition kc_zxdq_above :: ustr where "kc_zxdq_above = ustr_of ''ZXDQ>ZXDKX''"
definition kc_amp7 :: ustr where "kc_amp7 = [25391, 24133, 60, 55]"
definition kc_chg_min :: ustr where "kc_chg_min = [28072, 24133, 62, 61, 45, 50]"
definition kc_chg_max :: ustr where "kc_chg_max = [28072, 24133, 60, 50]"
definition kc_double_vol :: ustr where "kc_double_vol = [20493, 37327, 26609, 26465, 20214]"
definition kc_cap :: ustr where "kc_cap = [24066, 20540, 26465, 20214]"
definition kc_between :: ustr where
  "kc_between = [110, 45, 49, 26085, 75, 22312, 40644, 30333, 20540, 20043, 38388]"
definition kc_weekly :: ustr where
  "kc_weekly = [110, 45, 49, 21608, 75, 39640, 20110, 30333, 32447]"
definition kk_k :: ustr where "kk_k = ustr_of ''K''"
definition kk_d :: ustr where "kk_d = ustr_of ''D''"
definition kk_j :: ustr where "kk_j = ustr_of ''J''"
definition ki_zxdq :: ustr where "ki_zxdq = ustr_of ''ZXDQ''"
definition ki_zxdkx :: ustr where "ki_zxdkx = ustr_of ''ZXDKX''"
definition ki_ma60 :: ustr where "ki_ma60 = ustr_of ''MA60''"
definition ki_white :: ustr where "ki_white = [30333, 32447]"
definition ki_yellow :: ustr where "ki_yellow = [40644, 32447]"
definition ki_prev_close :: ustr where "ki_prev_close = [110, 45, 49, 26085, 25910, 30424, 20215]"
definition ki_distance :: ustr where "ki_distance = [21040, 40644, 32447, 36317, 31163]"
definition ki_n_double :: ustr where "ki_n_double = [51, 48, 26085, 20493, 37327, 27425, 25968]"
definition ki_n_heavy :: ustr where
  "ki_n_heavy = [49, 50, 48, 26085, 25918, 37327, 38452, 32447, 27425, 25968]"
definition ki_n_2day :: ustr where
  "ki_n_2day = [51, 48, 26085, 36830, 32493, 50, 26085, 28072, 24133, 36829, 35268, 27425, 25968]"
definition ki_n_3day :: ustr where
  "ki_n_3day = [51, 48, 26085, 36830, 32493, 51, 26085, 28072, 24133, 36829, 35268, 27425, 25968]"
definition ki_n_daily_hs :: ustr where
  "ki_n_daily_hs = [51, 48, 26085, 21333, 26085, 25442, 25163, 29575, 36829, 35268, 27425, 25968]"
definition ki_n_weekly_hs :: ustr where
  "ki_n_weekly_hs = [51, 48, 26085, 21333, 21608, 25442, 25163, 29575, 36829, 35268, 27425, 25968]"
definition ki_original :: ustr where "ki_original = [21407, 22987, 66, 49, 28385, 36275]"
definition ki_lt :: ustr where "ki_lt = [27969, 36890, 24066, 20540]"
definition ki_sz :: ustr where "ki_sz = [24635, 24066, 20540]"
definition ki_slope3 :: ustr where "ki_slope3 = [26085, 75, 51, 22825, 26012, 29575]"
definition ki_slope3_ok :: ustr where
  "ki_slope3_ok = [26085, 75, 51, 22825, 26012, 29575, 60, 48, 46, 50]"
definition ki_gap :: ustr where "ki_gap = [40644, 30333, 103, 97, 112, 21344, 32929, 20215, 37]"
definition ki_gap_ok :: ustr where "ki_gap_ok = [40644, 30333, 103, 97, 112, 62, 53, 37]"
definition ki_slope30 :: ustr where "ki_slope30 = [51, 48, 26085, 75, 26012, 29575]"
definition ki_slope120w :: ustr where "ki_slope120w = [49, 50, 48, 21608, 75, 26012, 29575]"
definition ki_slopes_ok :: ustr where "ki_slopes_ok = [26012, 29575, 19977, 26465, 20214]"
definition ki_no_limit_up :: ustr where
  "ki_no_limit_up = [51, 48, 22825, 26080, 36830, 32493, 28072, 20572]"
definition ki_no_shadow30 :: ustr where
  "ki_no_shadow30 = [51, 48, 26085, 75, 26080, 38271, 19978, 24433]"
definition ki_no_shadow120w :: ustr where
  "ki_no_shadow120w = [49, 50, 48, 21608, 75, 26080, 38271, 19978, 24433]"
definition ki_no_shadow :: ustr where "ki_no_shadow = [26080, 38271, 19978, 24433]"
definition ki_chg30 :: ustr where "ki_chg30 = [51, 48, 22825, 28072, 24133]"
definition ki_chg30_limit :: ustr where
  "ki_chg30_limit = [51, 48, 22825, 28072, 24133, 38480, 21046]"
definition ki_chg30_ok :: ustr where "ki_chg30_ok = [51, 48, 22825, 28072, 24133, 36798, 26631]"
definition ki_no_windmill :: ustr where
  "ki_no_windmill = [26080, 39030, 37096, 22823, 39118, 36710]"
definition ki_no_abnormal :: ustr where
  "ki_no_abnormal = [26080, 38750, 27491, 24120, 25918, 37327]"
definition ki_no_jump :: ustr where "ki_no_jump = [26080, 36339, 31354]"
definition ki_weekly_prev :: ustr where "ki_weekly_prev = [110, 45, 49, 21608, 25910, 30424, 20215]"
definition ki_weekly_white :: ustr where "ki_weekly_white = [21608, 75, 30333, 32447]"
definition kd_close :: ustr where "kd_close = ustr_of ''close''"
definition kd_high :: ustr where "kd_high = ustr_of ''high''"
definition kd_low :: ustr where "kd_low = ustr_of ''low''"
definition kd_open :: ustr where "kd_open = ustr_of ''open''"
definition kd_volume :: ustr where "kd_volume = ustr_of ''volume''"
definition kd_amount :: ustr where "kd_amount = ustr_of ''amount''"
definition kd_open_cn :: ustr where "kd_open_cn = [24320, 30424, 20215]"
definition kd_high_cn :: ustr where "kd_high_cn = [26368, 39640, 20215]"
definition kd_low_cn :: ustr where "kd_low_cn = [26368, 20302, 20215]"
definition kd_new1 :: ustr where
  "kd_new1 = [26032, 22686, 26465, 20214, 49, 95, 51, 48, 26085, 20869, 20493, 37327]"
definition kd_new2 :: ustr where
  "kd_new2 = [26032, 22686, 26465, 20214, 50, 95, 49, 50, 48, 26085, 20869, 26080, 22823, 37327, 21334, 20986]"
definition kd_new3 :: ustr where
  "kd_new3 = [26032, 22686, 26465, 20214, 51, 95, 51, 48, 26085, 20869, 28072, 24133, 25511, 21046]"
definition kd_new4 :: ustr where
  "kd_new4 = [26032, 22686, 26465, 20214, 52, 95, 51, 48, 26085, 20869, 25442, 25163, 29575, 25511, 21046]"
definition kd_s_slope3 :: ustr where
  "kd_s_slope3 = [32479, 35745, 95, 26085, 75, 51, 22825, 26012, 29575, 60, 48, 46, 50]"
definition kd_s_gap :: ustr where
  "kd_s_gap = [32479, 35745, 95, 40644, 30333, 103, 97, 112, 62, 53, 37]"
definition kd_s_slopes :: ustr where
  "kd_s_slopes = [32479, 35745, 95, 26012, 29575, 19977, 26465, 20214]"
definition kd_s_limit_up :: ustr where
  "kd_s_limit_up = [32479, 35745, 95, 51, 48, 22825, 26080, 36830, 32493, 28072, 20572]"
definition kd_s_shadow :: ustr where "kd_s_shadow = [32479, 35745, 95, 26080, 38271, 19978, 24433]"
definition kd_s_chg30 :: ustr where
  "kd_s_chg30 = [32479, 35745, 95, 51, 48, 22825, 28072, 24133, 36798, 26631]"
definition kd_back5 :: ustr where "kd_back5 = [53, 22825, 22238, 27979, 25910, 30410, 29575]"
definition kd_price5 :: ustr where "kd_price5 = [53, 22825, 21069, 20215, 26684]"
definition kb_j :: ustr where "kb_j = ustr_of ''B2_J''"
definition kb_j_last :: ustr where "kb_j_last = ustr_of ''B2_J_LAST''"
definition kb_k :: ustr where "kb_k = ustr_of ''B2_K''"
definition kb_d :: ustr where "kb_d = ustr_of ''B2_D''"
definition kb_chg :: ustr where "kb_chg = [66, 50, 95, 28072, 24133, 37]"
definition kb_vol :: ustr where "kb_vol = [66, 50, 95, 25918, 37327, 27604]"
definition kb_shadow :: ustr where "kb_shadow = [66, 50, 95, 19978, 24433, 32447, 27604]"
definition kb_zxdq :: ustr where "kb_zxdq = ustr_of ''B2_ZXDQ''"
definition kb_zxdkx :: ustr where "kb_zxdkx = ustr_of ''B2_ZXDKX''"
definition kb_yang :: ustr where "kb_yang = [66, 50, 95, 25910, 38451]"
definition kb_s_jlast :: ustr where
  "kb_s_jlast = [66, 50, 20005, 95, 74, 95, 76, 65, 83, 84, 60, 49, 51]"
definition kb_s_chg :: ustr where
  "kb_s_chg = [66, 50, 20005, 95, 28072, 24133, 62, 51, 46, 57, 53, 37]"
definition kb_s_vol :: ustr where "kb_s_vol = [66, 50, 20005, 95, 25918, 37327]"
definition kb_s_j :: ustr where "kb_s_j = [66, 50, 20005, 95, 74, 60, 53, 53]"
definition kb_s_shadow :: ustr where
  "kb_s_shadow = [66, 50, 20005, 95, 25910, 38451, 19988, 19978, 24433, 32447, 60, 50, 48, 37]"
definition kb_s_c :: ustr where "kb_s_c = [66, 50, 20005, 95, 67, 62, 90, 88, 68, 75, 88]"
definition kb_s_zx :: ustr where
  "kb_s_zx = [66, 50, 20005, 95, 90, 88, 68, 81, 62, 90, 88, 68, 75, 88]"
definition kb_l_jlast :: ustr where
  "kb_l_jlast = [66, 50, 26494, 95, 74, 95, 76, 65, 83, 84, 60, 48]"
definition kb_l_chg :: ustr where
  "kb_l_chg = [66, 50, 26494, 95, 28072, 24133, 62, 51, 46, 57, 53, 37]"
definition kb_l_vol :: ustr where "kb_l_vol = [66, 50, 26494, 95, 25918, 37327]"
definition kb_l_j :: ustr where "kb_l_j = [66, 50, 26494, 95, 74, 60, 53, 53]"
definition ku_green_red :: ustr where "ku_green_red = [24403, 26085, 32511, 36716, 32418]"
definition ku_red_ok :: ustr where "ku_red_ok = [32418, 26609, 36798, 26631]"
definition ku_ma_bull :: ustr where "ku_ma_bull = [22343, 32447, 22810, 22836]"
definition ku_volume :: ustr where "ku_volume = [37327, 33021, 26465, 20214]"
definition ku_above_line :: ustr where
  "ku_above_line = [26085, 75, 39640, 20110, 30333, 32447, 25110, 40644, 32447]"
definition ku_white_above :: ustr where
  "ku_white_above = [30333, 32447, 22312, 40644, 32447, 20043, 19978]"
definition ku_not_below :: ustr where
  "ku_not_below = [20215, 26684, 19981, 20302, 20110, 40644, 32447]"
definition ku_ma20 :: ustr where "ku_ma20 = ustr_of ''MA20''"
definition ku_ma120 :: ustr where "ku_ma120 = ustr_of ''MA120''"
definition ku_vol :: ustr where "ku_vol = [25104, 20132, 37327]"
definition ku_brick1 :: ustr where "ku_brick1 = [30742, 22411, 22270, 20540, 49]"
definition ku_brick2 :: ustr where "ku_brick2 = [30742, 22411, 22270, 20540, 50]"
definition ku_brick3 :: ustr where "ku_brick3 = [30742, 22411, 22270, 20540, 51]"
definition ku_green_h :: ustr where "ku_green_h = [32511, 26609, 39640, 24230]"
definition ku_red_h :: ustr where "ku_red_h = [32418, 26609, 39640, 24230]"
definition ku_ratio :: ustr where "ku_ratio = [32418, 26609, 32511, 26609, 27604, 20540]"

lemmas key_defs = kc_j13_def kc_above_ma60_def kc_above_zxdkx_def kc_zxdq_above_def kc_amp7_def kc_chg_min_def
  kc_chg_max_def kc_double_vol_def kc_cap_def kc_between_def kc_weekly_def kk_k_def
  kk_d_def kk_j_def ki_zxdq_def ki_zxdkx_def ki_ma60_def ki_white_def
  ki_yellow_def ki_prev_close_def ki_distance_def ki_n_double_def ki_n_heavy_def ki_n_2day_def
  ki_n_3day_def ki_n_daily_hs_def ki_n_weekly_hs_def ki_original_def ki_lt_def ki_sz_def
  ki_slope3_def ki_slope3_ok_def ki_gap_def ki_gap_ok_def ki_slope30_def ki_slope120w_def
  ki_slopes_ok_def ki_no_limit_up_def ki_no_shadow30_def ki_no_shadow120w_def ki_no_shadow_def ki_chg30_def
  ki_chg30_limit_def ki_chg30_ok_def ki_no_windmill_def ki_no_abnormal_def ki_no_jump_def ki_weekly_prev_def
  ki_weekly_white_def kd_close_def kd_high_def kd_low_def kd_open_def kd_volume_def
  kd_amount_def kd_open_cn_def kd_high_cn_def kd_low_cn_def kd_new1_def kd_new2_def
  kd_new3_def kd_new4_def kd_s_slope3_def kd_s_gap_def kd_s_slopes_def kd_s_limit_up_def
  kd_s_shadow_def kd_s_chg30_def kd_back5_def kd_price5_def kb_j_def kb_j_last_def
  kb_k_def kb_d_def kb_chg_def kb_vol_def kb_shadow_def kb_zxdq_def
  kb_zxdkx_def kb_yang_def kb_s_jlast_def kb_s_chg_def kb_s_vol_def kb_s_j_def
  kb_s_shadow_def kb_s_c_def kb_s_zx_def kb_l_jlast_def kb_l_chg_def kb_l_vol_def
  kb_l_j_def ku_green_red_def ku_red_ok_def ku_ma_bull_def ku_volume_def ku_above_line_def
  ku_white_above_def ku_not_below_def ku_ma20_def ku_ma120_def ku_vol_def ku_brick1_def
  ku_brick2_def ku_brick3_def ku_green_h_def ku_red_h_def ku_ratio_def

end
