(* ===== verification/B1Filter.thy ===== *)
theory B1Filter
  imports Indicators FilterKeys
begin

text \<open>
  \<open>b1_strategy_filter\<close> of \<open>filter.py\<close>: the eleven conditions of the B1 strategy, the four scored
  conditions and the statistics on shapes, as the code computes them, division errors
  included. Of the realtime data only the fields that the filter reads are kept; a field that is
  missing, null or zero counts as zero, so no data and an empty dict are the same. Loops that
  stop at the first hit are \<open>list_ex\<close>, loops that count are the length of a \<open>filter\<close>. The local
  \<open>cond2_base_vol\<close> is computed but never used and is left out.
\<close>

section \<open>Parameters\<close>

definition b1_n :: nat where "b1_n = 9"
definition b1_m1 :: nat where "b1_m1 = 14"
definition b1_m2 :: nat where "b1_m2 = 28"
definition b1_m3 :: nat where "b1_m3 = 57"
definition b1_m4 :: nat where "b1_m4 = 114"
definition ema_period :: nat where "ema_period = 10"
definition ma60_period :: nat where "ma60_period = 60"
definition j_threshold :: pyfloat where "j_threshold = 13"
definition amplitude_threshold :: pyfloat where "amplitude_threshold = 7"
definition change_min_threshold :: pyfloat where "change_min_threshold = - 2"
definition change_max_threshold :: pyfloat where "change_max_threshold = 2"
definition volume_multiplier :: pyfloat where "volume_multiplier = 2"
definition volume_check_days :: nat where "volume_check_days = 250"
definition min_circulating_market_cap :: pyfloat where "min_circulating_market_cap = 800000"
definition min_total_market_cap :: pyfloat where "min_total_market_cap = 1000000"

text \<open>The market values in the configuration are in ten thousands.\<close>

definition min_lt :: pyfloat where "min_lt = fmul min_circulating_market_cap 10000"
definition min_sz :: pyfloat where "min_sz = fmul min_total_market_cap 10000"

definition min_data_days :: nat where "min_data_days = max b1_m4 120"

record realtime =
  rt_lt :: "pyfloat option"
  rt_sz :: "pyfloat option"
  rt_p :: "pyfloat option"
  rt_pc :: "pyfloat option"

text \<open>\<open>realtime_data.get(k, 0) or 0\<close>, zero without realtime data.\<close>

definition rt_value :: "(realtime \<Rightarrow> pyfloat option) \<Rightarrow> realtime option \<Rightarrow> pyfloat" where
  "rt_value f rt = or_default (Option.bind rt f) 0"

section \<open>The lines\<close>

definition zxdq_of :: "pyfloat list \<Rightarrow> pyfloat option" where
  "zxdq_of ps = (case calculate_ema ps ema_period of None \<Rightarrow> None
     | Some e \<Rightarrow> map_option last (calculate_ema e ema_period))"

definition zxdkx_of :: "pyfloat list \<Rightarrow> pyfloat option" where
  "zxdkx_of ps = (case (calculate_ma ps b1_m1, calculate_ma ps b1_m2, calculate_ma ps b1_m3,
      calculate_ma ps b1_m4) of
     (Some a, Some b, Some c, Some d) \<Rightarrow>
        Some (fdiv (fadd (fadd (fadd (last a) (last b)) (last c)) (last d)) 4)
   | _ \<Rightarrow> None)"

definition pct_of :: "pyfloat \<Rightarrow> pyfloat \<Rightarrow> pyfloat" where
  "pct_of x base = fmul (fdiv x base) 100"

definition amplitude_of :: "candle list \<Rightarrow> pyfloat" where
  "amplitude_of rows = (if 1 < length rows \<and> 0 < cd_c (from_end rows 2)
     then pct_of (fsub (cd_h (last rows)) (cd_l (last rows))) (cd_c (from_end rows 2)) else 0)"

definition change_of :: "candle list \<Rightarrow> pyfloat" where
  "change_of rows = (if 1 < length rows \<and> 0 < cd_c (from_end rows 2)
     then pct_of (fsub (cd_c (last rows)) (cd_c (from_end rows 2))) (cd_c (from_end rows 2)) else 0)"

text \<open>A volume at least \<open>m\<close> times the one of the day before, \<open>i\<close> days from the end.\<close>

definition doubled :: "pyfloat \<Rightarrow> pyfloat list \<Rightarrow> nat \<Rightarrow> bool" where
  "doubled m vs i \<longleftrightarrow> 0 < from_end vs (i + 1) \<and> m \<le> fdiv (from_end vs i) (from_end vs (i + 1))"

definition double_volume :: "pyfloat list \<Rightarrow> bool" where
  "double_volume vs \<longleftrightarrow> list_ex (doubled volume_multiplier vs) [1..<min volume_check_days (length vs)]"

definition market_cap_ok :: "realtime option \<Rightarrow> bool" where
  "market_cap_ok rt = (let lt = rt_value rt_lt rt; sz = rt_value rt_sz rt in
     if 0 < lt \<and> 0 < sz then min_lt \<le> lt \<and> min_sz \<le> sz else True)"

text \<open>The weekly line, when there are two weeks and enough of them for two averages.\<close>

definition weekly_line :: "candle list \<Rightarrow> pyfloat option" where
  "weekly_line weeks = (if length weeks < 2 then None else zxdq_of (map cd_c weeks))"

definition weekly_above_white :: "candle list \<Rightarrow> bool" where
  "weekly_above_white weeks = (case weekly_line weeks of None \<Rightarrow> True
     | Some line \<Rightarrow> line < cd_c (from_end weeks 2))"

section \<open>The four scored conditions\<close>

definition cond1_count :: "pyfloat list \<Rightarrow> nat" where
  "cond1_count vs = (if 31 \<le> length vs
     then length (filter (doubled 2 vs) [1..<min 31 (length vs)]) else 0)"

text \<open>A falling day whose volume is over 2.5 times the median of the 20 days before.\<close>

definition heavy_fall :: "candle list \<Rightarrow> nat \<Rightarrow> bool" where
  "heavy_fall rows i = (let median = sort (map cd_v (window (i - 20) i rows)) ! 10 in
     cd_c (rows ! i) < cd_o (rows ! i) \<and> 0 < median \<and> fmul median (5 / 2) < cd_v (rows ! i))"

definition cond2_violations :: "candle list \<Rightarrow> nat" where
  "cond2_violations rows = (if 120 \<le> length rows then
       let check = last_n 120 rows in length (filter (heavy_fall check) [20..<length check])
     else 0)"

text \<open>Days whose close is over \<open>limit\<close> percent above the close \<open>k\<close> days before.\<close>

definition rises :: "nat \<Rightarrow> pyfloat \<Rightarrow> pyfloat list \<Rightarrow> nat \<Rightarrow> bool" where
  "rises k limit cs i \<longleftrightarrow> k \<le> i \<and> 0 < cs ! (i - k)
     \<and> limit < fmul (fsub (fdiv (cs ! i) (cs ! (i - k))) 1) 100"

definition rise_violations :: "nat \<Rightarrow> pyfloat \<Rightarrow> pyfloat list \<Rightarrow> nat" where
  "rise_violations k limit cs = (if 30 \<le> length cs
     then length (filter (rises k limit cs) [length cs - 30..<length cs]) else 0)"

text \<open>The turnover of the last 30 days and weeks against the circulating shares.\<close>

definition turnover :: "pyfloat \<Rightarrow> pyfloat \<Rightarrow> pyfloat" where
  "turnover shares v = fmul (fdiv (fmul v 100) shares) 100"

definition turnover_violations :: "pyfloat list \<Rightarrow> realtime option
    \<Rightarrow> (calc_error, nat \<times> nat) result" where
  "turnover_violations vs rt = (let lt = rt_value rt_lt rt; p = rt_value rt_p rt in
     if 0 < lt \<and> 0 < p then
       let shares = fdiv lt p; days = [length vs - 30..<length vs] in
       if shares = 0 then Inl ZeroDivision
       else Inr (length (filter (\<lambda>i. 15 < turnover shares (vs ! i)) days),
         length (filter (\<lambda>i. 4 \<le> i \<and> 40 < turnover shares (py_sum (window (i - 4) (i + 1) vs))) days))
     else Inr (0, 0))"

section \<open>The statistics\<close>

text \<open>The slope of a series over \<open>k\<close> steps, in percent of its start per step.\<close>

definition slope :: "pyfloat list \<Rightarrow> nat \<Rightarrow> (calc_error, pyfloat) result" where
  "slope cs k = (case pdiv (fsub (last cs) (from_end cs (k + 1))) (fmul (from_end cs (k + 1)) (of_nat k)) of
     Inl e \<Rightarrow> Inl e | Inr x \<Rightarrow> Inr (fmul x 100))"

definition weekly_slope :: "candle list \<Rightarrow> (calc_error, pyfloat option) result" where
  "weekly_slope weeks = (if length weeks < 2 then Inr None
     else (case slope (map cd_c weeks) (min 120 (length weeks - 1)) of Inl e \<Rightarrow> Inl e
       | Inr x \<Rightarrow> Inr (Some x)))"

definition slopes_ok :: "pyfloat option \<Rightarrow> pyfloat option \<Rightarrow> bool" where
  "slopes_ok a b = (case (a, b) of (Some s30, Some s120) \<Rightarrow> s30 \<le> 1 \<and> 0 < s120 \<and> s120 < s30 | _ \<Rightarrow> False)"

text \<open>\<open>row.get('pc', 0) or default\<close>\<close>

definition pc_or :: "candle \<Rightarrow> pyfloat \<Rightarrow> pyfloat" where
  "pc_or r d = (case cd_pc r of None \<Rightarrow> d | Some x \<Rightarrow> if x = 0 then d else x)"

definition limit_up :: "pyfloat \<Rightarrow> pyfloat \<Rightarrow> bool" where
  "limit_up c pc \<longleftrightarrow> 0 < pc \<and> fmul pc (fl (1099 / 1000)) \<le> c"

definition consecutive_limit_up :: "candle list \<Rightarrow> nat \<Rightarrow> bool" where
  "consecutive_limit_up rows i \<longleftrightarrow> 2 \<le> i
     \<and> limit_up (cd_c (rows ! i)) (pc_or (rows ! i) (cd_c (rows ! (i - 1))))
     \<and> limit_up (cd_c (rows ! (i - 1))) (pc_or (rows ! (i - 2)) (cd_c (rows ! (i - 2))))"

definition no_consecutive_limit_up :: "candle list \<Rightarrow> bool" where
  "no_consecutive_limit_up rows = (if 30 \<le> length rows
     then \<not> list_ex (consecutive_limit_up (last_n 30 rows)) [1..<length (last_n 30 rows)] else True)"

definition long_upper_shadow :: "candle \<Rightarrow> bool" where
  "long_upper_shadow r = (let body = \<bar>fsub (cd_c r) (cd_o r)\<bar>;
       shadow = fsub (cd_h r) (max (cd_c r) (cd_o r)); total = fsub (cd_h r) (cd_l r) in
     0 < cd_c r \<and> fmul (cd_c r) (fl (5 / 1000)) < body \<and> fmul (cd_c r) (fl (2 / 100)) < shadow
     \<and> 0 < total \<and> fmul body 2 < shadow \<and> fmul total (fl (3 / 10)) < shadow)"

definition no_shadow_30d :: "candle list \<Rightarrow> bool" where
  "no_shadow_30d rows = (if 30 \<le> length rows then \<not> list_ex long_upper_shadow (last_n 30 rows) else True)"

definition no_shadow_weekly :: "candle list \<Rightarrow> bool" where
  "no_shadow_weekly weeks = (if 2 \<le> length weeks
     then \<not> list_ex long_upper_shadow (last_n 20 weeks) else True)"

text \<open>The limit on the 30-day change by total market value, in hundred millions.\<close>

definition change_limit :: "pyfloat \<Rightarrow> pyfloat option" where
  "change_limit sz_yi = (if 100 \<le> sz_yi \<and> sz_yi < 400 then Some 15
     else if 400 \<le> sz_yi \<and> sz_yi < 1000 then Some 10
     else if 1000 \<le> sz_yi then Some 6 else None)"

definition change_30d :: "pyfloat list \<Rightarrow> (calc_error, pyfloat option) result" where
  "change_30d cs = (if 31 \<le> length cs then
      (case pdiv (fsub (last cs) (from_end cs 31)) (from_end cs 31) of Inl e \<Rightarrow> Inl e
       | Inr x \<Rightarrow> Inr (Some (fmul x 100)))
     else Inr None)"

definition sz_in_yi :: "pyfloat \<Rightarrow> pyfloat" where
  "sz_in_yi sz = (if 0 < sz then fdiv sz 100000000 else 0)"

definition limit_30d :: "pyfloat option \<Rightarrow> pyfloat \<Rightarrow> pyfloat option" where
  "limit_30d change sz = (if change \<noteq> None \<and> 0 < sz_in_yi sz then change_limit (sz_in_yi sz) else None)"

definition within_30d :: "pyfloat option \<Rightarrow> pyfloat \<Rightarrow> bool option" where
  "within_30d change sz = (case (change, limit_30d change sz) of
     (Some x, Some m) \<Rightarrow> Some (x < m) | _ \<Rightarrow> None)"

section \<open>The three shapes of the last 120 days\<close>

definition mean_volume :: "candle list \<Rightarrow> nat \<Rightarrow> nat \<Rightarrow> pyfloat" where
  "mean_volume rows k i = (let s = i - k in
     fdiv (py_sum (map cd_v (window s i rows))) (of_nat (i - s)))"

definition top_windmill :: "candle list \<Rightarrow> nat \<Rightarrow> bool" where
  "top_windmill rows i = (let r = rows ! i; body = \<bar>fsub (cd_c r) (cd_o r)\<bar>;
       shadow = fsub (cd_h r) (max (cd_c r) (cd_o r)) in
     cd_c r < cd_o r \<and> 0 < i
     \<and> fmul (pmax (map cd_h (window (i - 30) i rows))) (fl (9 / 10)) \<le> cd_h r
     \<and> body \<noteq> 0 \<and> fmul body 2 < shadow
     \<and> fmul (mean_volume rows 5 i) (3 / 2) < cd_v r)"

definition abnormal_volume :: "candle list \<Rightarrow> nat \<Rightarrow> bool" where
  "abnormal_volume rows i = (let r = rows ! i in
     cd_c r < cd_o r \<and> 0 < i \<and> fmul (mean_volume rows 20 i) 3 < cd_v r
     \<and> cd_v (rows ! (i + 1)) < fmul (cd_v r) (1 / 2))"

definition price_gap :: "candle list \<Rightarrow> nat \<Rightarrow> bool" where
  "price_gap rows i \<longleftrightarrow> i \<noteq> 0
     \<and> (cd_h (rows ! (i - 1)) < cd_o (rows ! i) \<or> cd_h (rows ! i) < cd_l (rows ! (i - 1)))"

definition check_start :: "candle list \<Rightarrow> nat" where
  "check_start rows = length rows - 120"

definition no_top_windmill :: "candle list \<Rightarrow> bool" where
  "no_top_windmill rows \<longleftrightarrow> \<not> list_ex (top_windmill rows) [check_start rows..<length rows]"

definition no_abnormal_volume :: "candle list \<Rightarrow> bool" where
  "no_abnormal_volume rows \<longleftrightarrow> \<not> list_ex (abnormal_volume rows) [check_start rows..<length rows - 1]"

definition no_gap :: "candle list \<Rightarrow> bool" where
  "no_gap rows \<longleftrightarrow> \<not> list_ex (price_gap rows) [check_start rows..<length rows]"

section \<open>The filter\<close>

text \<open>The values that need a division by a price, computed first or raising.\<close>

record b1_slopes =
  sl_3d :: "pyfloat option"
  sl_30d :: "pyfloat option"
  sl_weekly :: "pyfloat option"
  sl_change_30d :: "pyfloat option"
  sl_daily_hs :: nat
  sl_weekly_hs :: nat

definition slope_opt :: "pyfloat list \<Rightarrow> nat \<Rightarrow> (calc_error, pyfloat option) result" where
  "slope_opt cs k = (if k + 1 \<le> length cs
     then (case slope cs k of Inl e \<Rightarrow> Inl e | Inr x \<Rightarrow> Inr (Some x)) else Inr None)"

definition b1_slopes_of :: "candle list \<Rightarrow> candle list \<Rightarrow> realtime option
    \<Rightarrow> (calc_error, b1_slopes) result" where
  "b1_slopes_of rows weeks rt = (let cs = map cd_c rows in
     (case turnover_violations (map cd_v rows) rt of Inl e \<Rightarrow> Inl e
      | Inr (d, w) \<Rightarrow> (case slope_opt cs 3 of Inl e \<Rightarrow> Inl e
      | Inr s3 \<Rightarrow> (case slope_opt cs 30 of Inl e \<Rightarrow> Inl e
      | Inr s30 \<Rightarrow> (case weekly_slope weeks of Inl e \<Rightarrow> Inl e
      | Inr sw \<Rightarrow> (case change_30d cs of Inl e \<Rightarrow> Inl e
      | Inr ch \<Rightarrow> Inr \<lparr>sl_3d = s3, sl_30d = s30, sl_weekly = sw, sl_change_30d = ch,
          sl_daily_hs = d, sl_weekly_hs = w\<rparr>))))))"

text \<open>The lines and the KDJ values of a history that is long enough.\<close>

record b1_lines =
  ln_k :: pyfloat
  ln_d :: pyfloat
  ln_j :: pyfloat
  ln_white :: pyfloat
  ln_yellow :: pyfloat
  ln_ma60 :: pyfloat

definition kdj_of :: "candle list \<Rightarrow> (pyfloat \<times> pyfloat \<times> pyfloat) option" where
  "kdj_of rows = (let rs = rsv_values b1_n (map cd_c rows) (map cd_h rows) (map cd_l rows) in
     if length rs < 2 then None else Some (calculate_kdj rs))"

definition b1_lines_of :: "candle list \<Rightarrow> b1_lines option" where
  "b1_lines_of rows = (let cs = map cd_c rows in
     (case (kdj_of rows, zxdq_of cs, zxdkx_of cs, map_option last (calculate_ma cs ma60_period)) of
        (Some (k, d, j), Some white, Some yellow, Some ma60) \<Rightarrow>
           Some \<lparr>ln_k = k, ln_d = d, ln_j = j, ln_white = white, ln_yellow = yellow, ln_ma60 = ma60\<rparr>
      | _ \<Rightarrow> None))"

definition prev_close_of :: "candle list \<Rightarrow> pyfloat" where
  "prev_close_of rows = (if 1 < length rows then cd_c (from_end rows 2) else cd_c (last rows))"

definition between_lines :: "pyfloat \<Rightarrow> pyfloat \<Rightarrow> pyfloat \<Rightarrow> bool" where
  "between_lines yellow white p \<longleftrightarrow> min yellow white \<le> p \<and> p \<le> max yellow white"

text \<open>The dict of the eleven conditions.\<close>

definition b1_conditions :: "candle list \<Rightarrow> candle list \<Rightarrow> realtime option \<Rightarrow> b1_lines
    \<Rightarrow> (ustr, bool) dict" where
  "b1_conditions rows weeks rt n = (let close = cd_c (last rows) in
    [(kc_j13, ln_j n < j_threshold),
     (kc_above_ma60, ln_ma60 n < close),
     (kc_above_zxdkx, ln_yellow n < close),
     (kc_zxdq_above, ln_yellow n < ln_white n),
     (kc_amp7, amplitude_of rows < amplitude_threshold),
     (kc_chg_min, change_min_threshold \<le> change_of rows),
     (kc_chg_max, change_of rows < change_max_threshold),
     (kc_double_vol, double_volume (map cd_v rows)),
     (kc_cap, market_cap_ok rt),
     (kc_between, between_lines (ln_yellow n) (ln_white n) (prev_close_of rows)),
     (kc_weekly, weekly_above_white weeks)])"

definition cond1_ok :: "candle list \<Rightarrow> bool" where
  "cond1_ok rows \<longleftrightarrow> 31 \<le> length rows \<and> 1 \<le> cond1_count (map cd_v rows)"

definition cond2_ok :: "candle list \<Rightarrow> bool" where
  "cond2_ok rows \<longleftrightarrow> cond2_violations rows = 0"

definition cond3_ok :: "candle list \<Rightarrow> bool" where
  "cond3_ok rows \<longleftrightarrow> rise_violations 2 40 (map cd_c rows) = 0 \<and> rise_violations 3 50 (map cd_c rows) = 0"

definition cond4_ok :: "b1_slopes \<Rightarrow> bool" where
  "cond4_ok v \<longleftrightarrow> sl_daily_hs v = 0 \<and> sl_weekly_hs v = 0"

definition new_conditions_score :: "candle list \<Rightarrow> b1_slopes \<Rightarrow> int" where
  "new_conditions_score rows v = of_bool (cond1_ok rows) + of_bool (cond2_ok rows)
     + of_bool (cond3_ok rows) + of_bool (cond4_ok v)"

definition opt_val :: "('a \<Rightarrow> dval) \<Rightarrow> 'a option \<Rightarrow> dval" where
  "opt_val f x = (case x of None \<Rightarrow> VNone | Some y \<Rightarrow> f y)"

definition slope_small :: "pyfloat option \<Rightarrow> bool" where
  "slope_small s = (case s of None \<Rightarrow> False | Some x \<Rightarrow> x < fl (2 / 10))"

definition gap_pct :: "candle list \<Rightarrow> b1_lines \<Rightarrow> pyfloat option" where
  "gap_pct rows n = (if 0 < cd_c (last rows)
     then Some (pct_of \<bar>fsub (ln_yellow n) (ln_white n)\<bar> (cd_c (last rows))) else None)"

definition gap_wide :: "pyfloat option \<Rightarrow> bool" where
  "gap_wide g = (case g of None \<Rightarrow> False | Some x \<Rightarrow> 5 < x)"

definition b1_indicators :: "candle list \<Rightarrow> candle list \<Rightarrow> realtime option \<Rightarrow> b1_lines \<Rightarrow> b1_slopes
    \<Rightarrow> bool \<Rightarrow> (ustr, dval) dict" where
  "b1_indicators rows weeks rt n v passed = (let sz = rt_value rt_sz rt; prev = prev_close_of rows in
    [(ki_zxdq, VFloat (ln_white n)), (ki_zxdkx, VFloat (ln_yellow n)), (ki_ma60, VFloat (ln_ma60 n)),
     (k_close, VFloat (cd_c (last rows))), (k_amplitude, VFloat (amplitude_of rows)),
     (k_change_pct, VFloat (change_of rows)), (ki_white, VFloat (ln_white n)),
     (ki_yellow, VFloat (ln_yellow n)), (ki_prev_close, VFloat prev),
     (ki_distance, VFloat \<bar>fsub prev (ln_yellow n)\<bar>),
     (ki_n_double, VInt (int (cond1_count (map cd_v rows)))),
     (ki_n_heavy, VInt (int (cond2_violations rows))),
     (ki_n_2day, VInt (int (rise_violations 2 40 (map cd_c rows)))),
     (ki_n_3day, VInt (int (rise_violations 3 50 (map cd_c rows)))),
     (ki_n_daily_hs, VInt (int (sl_daily_hs v))), (ki_n_weekly_hs, VInt (int (sl_weekly_hs v))),
     (k_total_score, VInt (new_conditions_score rows v)), (ki_original, VBool passed),
     (ki_lt, VFloat (rt_value rt_lt rt)), (ki_sz, VFloat sz),
     (ki_slope3, opt_val VFloat (sl_3d v)), (ki_slope3_ok, VBool (slope_small (sl_3d v))),
     (ki_gap, opt_val VFloat (gap_pct rows n)), (ki_gap_ok, VBool (gap_wide (gap_pct rows n))),
     (ki_slope30, opt_val VFloat (sl_30d v)), (ki_slope120w, opt_val VFloat (sl_weekly v)),
     (ki_slopes_ok, VBool (slopes_ok (sl_30d v) (sl_weekly v))),
     (ki_no_limit_up, VBool (no_consecutive_limit_up rows)),
     (ki_no_shadow30, VBool (no_shadow_30d rows)), (ki_no_shadow120w, VBool (no_shadow_weekly weeks)),
     (ki_no_shadow, VBool (no_shadow_30d rows \<and> no_shadow_weekly weeks)),
     (ki_chg30, opt_val VFloat (sl_change_30d v)),
     (ki_chg30_limit, opt_val VFloat (limit_30d (sl_change_30d v) sz)),
     (ki_chg30_ok, opt_val VBool (within_30d (sl_change_30d v) sz)),
     (ki_no_windmill, VBool (no_top_windmill rows)), (ki_no_abnormal, VBool (no_abnormal_volume rows)),
     (ki_no_jump, VBool (no_gap rows))]
    @ (case weekly_line weeks of None \<Rightarrow> []
       | Some line \<Rightarrow> [(ki_weekly_prev, VFloat (cd_c (from_end weeks 2))), (ki_weekly_white, VFloat line),
           (kc_weekly, VBool (weekly_above_white weeks))]))"

record b1_value =
  bv_result :: bool
  bv_conditions :: "(ustr, bool) dict"
  bv_kdj :: "(ustr, dval) dict"
  bv_indicators :: "(ustr, dval) dict"
  bv_score :: int
  bv_new1 :: bool
  bv_new2 :: bool
  bv_new3 :: bool
  bv_new4 :: bool
  bv_slope3 :: bool
  bv_gap :: bool
  bv_slopes :: bool
  bv_limit_up :: bool
  bv_shadow :: bool
  bv_chg30 :: "bool option"
  bv_windmill :: bool
  bv_abnormal :: bool
  bv_jump :: bool

definition b1_value_of :: "candle list \<Rightarrow> candle list \<Rightarrow> realtime option \<Rightarrow> b1_lines \<Rightarrow> b1_slopes
    \<Rightarrow> b1_value" where
  "b1_value_of rows weeks rt n v = (let conds = b1_conditions rows weeks rt n;
       passed = list_all snd conds in
     \<lparr>bv_result = passed, bv_conditions = conds,
      bv_kdj = [(kk_k, VFloat (ln_k n)), (kk_d, VFloat (ln_d n)), (kk_j, VFloat (ln_j n))],
      bv_indicators = b1_indicators rows weeks rt n v passed,
      bv_score = new_conditions_score rows v, bv_new1 = cond1_ok rows, bv_new2 = cond2_ok rows,
      bv_new3 = cond3_ok rows, bv_new4 = cond4_ok v, bv_slope3 = slope_small (sl_3d v),
      bv_gap = gap_wide (gap_pct rows n), bv_slopes = slopes_ok (sl_30d v) (sl_weekly v),
      bv_limit_up = no_consecutive_limit_up rows,
      bv_shadow = (no_shadow_30d rows \<and> no_shadow_weekly weeks),
      bv_chg30 = within_30d (sl_change_30d v) (rt_value rt_sz rt),
      bv_windmill = no_top_windmill rows, bv_abnormal = no_abnormal_volume rows,
      bv_jump = no_gap rows\<rparr>)"

text \<open>\<open>None\<close> is the plain \<open>False\<close> of a history that is too short.\<close>

definition b1_strategy_filter :: "candle list \<Rightarrow> candle list \<Rightarrow> realtime option
    \<Rightarrow> (calc_error, b1_value option) result" where
  "b1_strategy_filter rows weeks rt =
     (if length rows < min_data_days then Inr None
      else (case b1_lines_of rows of None \<Rightarrow> Inr None
        | Some n \<Rightarrow> (case b1_slopes_of rows weeks rt of Inl e \<Rightarrow> Inl e
            | Inr v \<Rightarrow> Inr (Some (b1_value_of rows weeks rt n v)))))"

section \<open>Consecutive limit-ups\<close>

text \<open>A history whose \<open>pc\<close> is the close of the day before; the days that closed at the limit.\<close>

definition pc_chain :: "candle list \<Rightarrow> bool" where
  "pc_chain rows \<longleftrightarrow> list_all (\<lambda>i. cd_pc (rows ! i) = Some (cd_c (rows ! (i - 1)))) [1..<length rows]"

definition limit_days :: "candle list \<Rightarrow> nat list" where
  "limit_days rows = filter (\<lambda>i. limit_up (cd_c (rows ! i)) (cd_c (rows ! (i - 1)))) [1..<length rows]"

definition limit_row :: "pyfloat \<Rightarrow> pyfloat \<Rightarrow> candle" where
  "limit_row pc c = \<lparr>cd_c = c, cd_h = c, cd_l = c, cd_o = c, cd_v = 1, cd_pc = Some pc, cd_a = None\<rparr>"

definition one_limit_up :: "candle list" where
  "one_limit_up = [limit_row 100 100, limit_row 100 106, limit_row 106 112, limit_row 112 124]
     @ replicate 26 (limit_row 124 124)"

lemma one_limit_up_rows: "length one_limit_up = 30" "list_all (\<lambda>r. 0 < cd_c r) one_limit_up"
  by (simp_all add: one_limit_up_def limit_row_def list_all_iff)

lemma one_limit_up_chain: "pc_chain one_limit_up" by code_simp

lemma ex_limits: "limit_up 124 112" "limit_up 112 100" "\<not> limit_up 112 106" "\<not> limit_up 106 100"
  "\<not> limit_up 124 124"
  by code_simp+

lemma one_limit_up_days: "limit_days one_limit_up = [3]"
proof -
  have closes: "cd_c (one_limit_up ! i) = 124" if "3 \<le> i" "i < 30" for i
    using that by (cases "i = 3") (auto simp: one_limit_up_def limit_row_def nth_append)
  have days: "[1..<30] = [1, 2, 3] @ [4..<30]" by (simp add: upt_conv_Cons)
  have "\<not> limit_up (cd_c (one_limit_up ! i)) (cd_c (one_limit_up ! (i - 1)))" if "i \<in> set [4..<30]" for i
  proof -
    have i: "4 \<le> i" "i < 30" using that by (simp_all only: set_upt atLeastLessThan_iff)
    then have "3 \<le> i - 1" "i - 1 < 30" by arith+
    with i show ?thesis using closes [of i] closes [of "i - 1"] ex_limits(5) by simp
  qed
  then have "filter (\<lambda>i. limit_up (cd_c (one_limit_up ! i)) (cd_c (one_limit_up ! (i - 1)))) [4..<30] = []"
    by (intro filter_False ballI)
  then show ?thesis
    using ex_limits(1,3,4) unfolding limit_days_def one_limit_up_rows(1) days filter_append
    by (simp add: one_limit_up_def limit_row_def)
qed

lemma one_limit_up_fires: "\<not> no_consecutive_limit_up one_limit_up" by code_simp

lemmas one_limit_up_facts = one_limit_up_rows one_limit_up_chain one_limit_up_days one_limit_up_fires

text \<open>
  The test of two limit-ups in a row takes for the earlier day the \<open>pc\<close> of the day before
  that day: it fires at day \<open>i\<close> when day \<open>i\<close> is a limit-up and the close of day \<open>i - 1\<close> is at
  the limit over the close of day \<open>i - 3\<close>. So it fires on a history with one limit-up only.
\<close>

theorem limit_up_false_alarm:
  assumes "pc_chain rows" "3 \<le> i" "i < length rows" "list_all (\<lambda>r. 0 < cd_c r) rows"
  shows "consecutive_limit_up rows i = (limit_up (cd_c (rows ! i)) (cd_c (rows ! (i - 1)))
        \<and> limit_up (cd_c (rows ! (i - 1))) (cd_c (rows ! (i - 3))))
    \<and> (\<exists>qs. length qs = 30 \<and> pc_chain qs \<and> length (limit_days qs) = 1 \<and> \<not> no_consecutive_limit_up qs)"
proof (rule conjI)
  have "cd_pc (rows ! j) = Some (cd_c (rows ! (j - 1)))" if "0 < j" "j < length rows" for j
    using assms(1) that by (auto simp: pc_chain_def list_all_iff)
  moreover have "0 < cd_c (rows ! j)" if "j < length rows" for j using assms(4) that by (simp add: list_all_length)
  ultimately have "pc_or (rows ! j) d = cd_c (rows ! (j - 1))" if "0 < j" "j < length rows" for j d
    using that by (simp add: pc_or_def) (metis less_imp_diff_less less_irrefl)
  with assms(2,3) show "consecutive_limit_up rows i = (limit_up (cd_c (rows ! i)) (cd_c (rows ! (i - 1)))
      \<and> limit_up (cd_c (rows ! (i - 1))) (cd_c (rows ! (i - 3))))"
    by (simp add: consecutive_limit_up_def)
  show "\<exists>qs. length qs = 30 \<and> pc_chain qs \<and> length (limit_days qs) = 1 \<and> \<not> no_consecutive_limit_up qs"
    using one_limit_up_facts by (intro exI [of _ one_limit_up]) simp
qed

lemma limit_up_false_alarm_witness:
  "consecutive_limit_up one_limit_up 3 \<and> \<not> limit_up (cd_c (one_limit_up ! 2)) (cd_c (one_limit_up ! 1))"
proof -
  have "cd_c (one_limit_up ! 3) = 124" "cd_c (one_limit_up ! 2) = 112" "cd_c (one_limit_up ! 1) = 106"
    "cd_c (one_limit_up ! 0) = 100" by (simp_all add: one_limit_up_def limit_row_def)
  with limit_up_false_alarm [OF one_limit_up_chain _ _ one_limit_up_rows(2), of 3] one_limit_up_rows(1) ex_limits
  show ?thesis by simp
qed

end
