(* ===== verification/UltraShort.thy ===== *)
theory UltraShort
  imports B1Filter
begin

text \<open>
  \<open>ultra_short_strategy_filter\<close> of \<open>filter.py\<close>: the brick chart, the conditions on its last
  three bricks, the averages and the volumes. The last theorem states which days a brick is
  computed from.
\<close>

section \<open>Parameters\<close>

definition brick_hhv_period :: nat where "brick_hhv_period = 4"
definition brick_llv_period :: nat where "brick_llv_period = 4"
definition var1a_sma_period :: nat where "var1a_sma_period = 4"
definition var3a_sma_period :: nat where "var3a_sma_period = 6"
definition var4a_sma_period :: nat where "var4a_sma_period = 6"
definition brick_threshold :: pyfloat where "brick_threshold = 4"
definition red_height_ratio :: pyfloat where "red_height_ratio = 3 / 2"
definition us_volume_check_days :: nat where "us_volume_check_days = 10"

section \<open>The brick chart\<close>

text \<open>The two raw values of day \<open>i\<close>, from the extremes of the last four days.\<close>

definition day_high :: "candle list \<Rightarrow> nat \<Rightarrow> pyfloat" where
  "day_high rows i = pmax (window (i + 1 - brick_hhv_period) (i + 1) (map cd_h rows))"

definition day_low :: "candle list \<Rightarrow> nat \<Rightarrow> pyfloat" where
  "day_low rows i = pmin (window (i + 1 - brick_llv_period) (i + 1) (map cd_l rows))"

definition var1_at :: "candle list \<Rightarrow> nat \<Rightarrow> pyfloat" where
  "var1_at rows i = (let hi = day_high rows i; rng = fsub hi (day_low rows i) in
     if rng = 0 then 0 else fsub (fmul (fdiv (fsub hi (cd_c (rows ! i))) rng) 100) 90)"

definition var3_at :: "candle list \<Rightarrow> nat \<Rightarrow> pyfloat" where
  "var3_at rows i = (let lo = day_low rows i; rng = fsub (day_high rows i) lo in
     if rng = 0 then 50 else fmul (fdiv (fsub (cd_c (rows ! i)) lo) rng) 100)"

definition var1a :: "candle list \<Rightarrow> pyfloat list" where
  "var1a rows = map (var1_at rows) [brick_hhv_period - 1..<length rows]"

definition var3a :: "candle list \<Rightarrow> pyfloat list" where
  "var3a rows = map (var3_at rows) [brick_hhv_period - 1..<length rows]"

text \<open>The average of the \<open>n\<close> values that end at index \<open>i\<close>, for every full window.\<close>

definition mean_to :: "nat \<Rightarrow> pyfloat list \<Rightarrow> nat \<Rightarrow> pyfloat" where
  "mean_to n xs i = fdiv (py_sum (window (i + 1 - n) (i + 1) xs)) (of_nat n)"

definition means :: "nat \<Rightarrow> pyfloat list \<Rightarrow> pyfloat list" where
  "means n xs = map (mean_to n xs) [n - 1..<length xs]"

definition var2a :: "candle list \<Rightarrow> pyfloat list" where
  "var2a rows = map (\<lambda>x. fadd x 100) (means var1a_sma_period (var1a rows))"

definition var4a :: "candle list \<Rightarrow> pyfloat list" where
  "var4a rows = means var4a_sma_period (var3a rows)"

definition var5a :: "candle list \<Rightarrow> pyfloat list" where
  "var5a rows = map (\<lambda>x. fadd x 100) (means var4a_sma_period (var4a rows))"

definition brick_of :: "pyfloat \<Rightarrow> pyfloat \<Rightarrow> pyfloat" where
  "brick_of v5 v2 = (let v6 = fsub v5 v2 in if brick_threshold < v6 then fsub v6 brick_threshold else 0)"

definition brick :: "candle list \<Rightarrow> pyfloat list" where
  "brick rows = (if var1a_sma_period \<le> length (var1a rows) \<and> var3a_sma_period \<le> length (var3a rows)
     then map2 brick_of (var5a rows) (var2a rows) else [])"

section \<open>The conditions\<close>

record brick_signal =
  bs_green_to_red :: bool
  bs_green_height :: pyfloat
  bs_red_height :: pyfloat
  bs_qualified :: bool

definition brick_signal_of :: "pyfloat list \<Rightarrow> brick_signal" where
  "brick_signal_of bs = (if length bs < 3
     then \<lparr>bs_green_to_red = False, bs_green_height = 0, bs_red_height = 0, bs_qualified = False\<rparr>
     else let a = from_end bs 3; b = from_end bs 2; c = from_end bs 1;
         gh = \<bar>fsub a b\<bar>; rh = \<bar>fsub c b\<bar> in
       \<lparr>bs_green_to_red = (b < a \<and> b < c), bs_green_height = gh, bs_red_height = rh,
        bs_qualified = (fmul gh red_height_ratio \<le> rh \<and> 0 < gh \<and> 0 < rh)\<rparr>)"

definition last_or_0 :: "pyfloat list option \<Rightarrow> pyfloat" where
  "last_or_0 m = (case m of None \<Rightarrow> 0 | Some xs \<Rightarrow> last xs)"

definition ma_bullish :: "pyfloat list \<Rightarrow> bool" where
  "ma_bullish cs = (case (calculate_ma cs 20, calculate_ma cs 60, calculate_ma cs 120) of
     (Some a, Some b, Some c) \<Rightarrow> last b < last a \<and> last c < last b | _ \<Rightarrow> False)"

text \<open>A falling day, \<open>i\<close> days from the end, whose volume is not below that of the day before.\<close>

definition bad_volume_day :: "candle list \<Rightarrow> nat \<Rightarrow> bool" where
  "bad_volume_day rows i \<longleftrightarrow> cd_c (from_end rows i) < cd_o (from_end rows i)
     \<and> cd_v (from_end rows (i + 1)) \<le> cd_v (from_end rows i)"

definition volume_ok :: "candle list \<Rightarrow> bool" where
  "volume_ok rows = (if us_volume_check_days < length rows
     then \<not> list_ex (bad_volume_day rows) [1..<min (us_volume_check_days + 1) (length rows)] else True)"

text \<open>The lines are zero when the history is too short, and a zero line is not compared.\<close>

definition us_white :: "pyfloat list \<Rightarrow> pyfloat" where
  "us_white cs = or_default (zxdq_of cs) 0"

definition us_yellow :: "pyfloat list \<Rightarrow> pyfloat" where
  "us_yellow cs = or_default (zxdkx_of cs) 0"

record us_lines =
  ul_above :: bool
  ul_white_above :: bool
  ul_not_below :: bool

definition us_lines_of :: "pyfloat list \<Rightarrow> us_lines" where
  "us_lines_of cs = (let w = us_white cs; y = us_yellow cs in
     if w \<noteq> 0 \<and> y \<noteq> 0 then \<lparr>ul_above = (w < last cs \<or> y < last cs), ul_white_above = (y < w),
        ul_not_below = (y \<le> last cs)\<rparr>
     else \<lparr>ul_above = True, ul_white_above = True, ul_not_below = True\<rparr>)"

definition us_result :: "candle list \<Rightarrow> bool" where
  "us_result rows = (let cs = map cd_c rows; s = brick_signal_of (brick rows); l = us_lines_of cs in
     bs_green_to_red s \<and> bs_qualified s \<and> ma_bullish cs \<and> volume_ok rows
     \<and> ul_above l \<and> ul_white_above l \<and> ul_not_below l)"

definition us_conditions :: "candle list \<Rightarrow> (ustr, bool) dict" where
  "us_conditions rows = (let cs = map cd_c rows; s = brick_signal_of (brick rows); l = us_lines_of cs in
     [(ku_green_red, bs_green_to_red s), (ku_red_ok, bs_qualified s), (ku_ma_bull, ma_bullish cs),
      (ku_volume, volume_ok rows), (ku_above_line, ul_above l), (ku_white_above, ul_white_above l),
      (ku_not_below, ul_not_below l), (kc_cap, True)])"

definition last_value :: "(candle \<Rightarrow> pyfloat) \<Rightarrow> candle list \<Rightarrow> dval" where
  "last_value f rows = (if rows = [] then VInt 0 else VFloat (f (last rows)))"

definition brick_value :: "pyfloat list \<Rightarrow> nat \<Rightarrow> dval" where
  "brick_value bs i = (if 3 \<le> length bs then VFloat (from_end bs i) else VInt 0)"

definition us_kdj :: "candle list \<Rightarrow> pyfloat \<times> pyfloat \<times> pyfloat" where
  "us_kdj rows = or_default (kdj_of rows) (0, 0, 0)"

definition us_indicators :: "candle list \<Rightarrow> (ustr, dval) dict" where
  "us_indicators rows = (let cs = map cd_c rows; bs = brick rows; s = brick_signal_of bs;
       l = us_lines_of cs in
    (case us_kdj rows of (k, d, j) \<Rightarrow>
    [(ki_white, VFloat (us_white cs)), (ki_yellow, VFloat (us_yellow cs)),
     (k_close, last_value cd_c rows), (ku_above_line, VBool (ul_above l)),
     (ku_white_above, VBool (ul_white_above l)), (ku_not_below, VBool (ul_not_below l)),
     (ku_ma20, VFloat (last_or_0 (calculate_ma cs 20))), (ki_ma60, VFloat (last_or_0 (calculate_ma cs 60))),
     (ku_ma120, VFloat (last_or_0 (calculate_ma cs 120))), (kd_open_cn, last_value cd_o rows),
     (kd_high_cn, last_value cd_h rows), (kd_low_cn, last_value cd_l rows), (ku_vol, last_value cd_v rows),
     (ku_brick1, brick_value bs 3), (ku_brick2, brick_value bs 2), (ku_brick3, brick_value bs 1),
     (ku_green_h, VFloat (bs_green_height s)), (ku_red_h, VFloat (bs_red_height s)),
     (ku_ratio, VFloat (if 0 < bs_green_height s then fdiv (bs_red_height s) (bs_green_height s) else 0)),
     (kk_k, VFloat k), (kk_d, VFloat d), (kk_j, VFloat j), (k_amplitude, VFloat (amplitude_of rows)),
     (k_change_pct, VFloat (change_of rows)), (ki_zxdq, VFloat (us_white cs)),
     (ki_zxdkx, VFloat (us_yellow cs))]))"

record us_value =
  uv_result :: bool
  uv_conditions :: "(ustr, bool) dict"
  uv_indicators :: "(ustr, dval) dict"

definition ultra_short_strategy_filter :: "candle list \<Rightarrow> us_value" where
  "ultra_short_strategy_filter rows = \<lparr>uv_result = us_result rows, uv_conditions = us_conditions rows,
     uv_indicators = us_indicators rows\<rparr>"

section \<open>Which days a brick uses\<close>

lemma length_means [simp]: "length (means n xs) = length xs - (n - 1)"
  by (simp add: means_def)

lemma nth_means: "k < length xs - (n - 1) \<Longrightarrow> 0 < n \<Longrightarrow> means n xs ! k = fdiv (py_sum (window k (k + n) xs)) (of_nat n)"
  by (simp add: means_def mean_to_def add.commute)

lemma length_vars [simp]: "length (var1a rows) = length rows - 3" "length (var3a rows) = length rows - 3"
  by (simp_all add: var1a_def var3a_def brick_hhv_period_def)

lemma nth_vars: "k < length rows - 3 \<Longrightarrow> var1a rows ! k = var1_at rows (k + 3)"
  "k < length rows - 3 \<Longrightarrow> var3a rows ! k = var3_at rows (k + 3)"
  by (simp_all add: var1a_def var3a_def brick_hhv_period_def add.commute)

lemma window_map_days:
  assumes "\<And>k. k < length xs \<Longrightarrow> xs ! k = f (k + m)" "i + n \<le> length xs"
  shows "window i (i + n) xs = map f [i + m..<i + m + n]"
  using assms by (intro nth_equalityI) (auto simp: add_ac)

text \<open>The average over the \<open>n\<close> days from \<open>i\<close> on.\<close>

definition mean_days :: "(nat \<Rightarrow> pyfloat) \<Rightarrow> nat \<Rightarrow> nat \<Rightarrow> pyfloat" where
  "mean_days f i n = fdiv (py_sum (map f [i..<i + n])) (of_nat n)"

text \<open>
  The brick of position \<open>k\<close> subtracts from the smoothed value of the 14 days up to day
  \<open>k + 13\<close> the average of the four days up to day \<open>k + 6\<close>: the two sides of the difference are
  a week apart, so the newest brick does not use the newest days on its second side.
\<close>

theorem brick_days:
  assumes "k < length rows - 13"
  shows "length (brick rows) = length rows - 13
    \<and> brick rows ! k = brick_of
        (fadd (mean_days (\<lambda>j. mean_days (var3_at rows) (j - 5) 6) (k + 8) 6) 100)
        (fadd (mean_days (var1_at rows) (k + 3) 4) 100)"
proof -
  let ?n = "length rows"
  have v2: "var2a rows ! k = fadd (mean_days (var1_at rows) (k + 3) 4) 100" if "k < ?n - 6" for k
  proof -
    have "window k (k + 4) (var1a rows) = map (var1_at rows) [k + 3..<k + 3 + 4]"
      using that by (intro window_map_days) (auto simp: nth_vars)
    then show ?thesis using that
      by (simp add: var2a_def var1a_sma_period_def nth_means mean_days_def)
  qed
  have v4: "var4a rows ! k = mean_days (var3_at rows) (k + 3) 6" if "k < ?n - 8" for k
  proof -
    have "window k (k + 6) (var3a rows) = map (var3_at rows) [k + 3..<k + 3 + 6]"
      using that by (intro window_map_days) (auto simp: nth_vars)
    then show ?thesis using that
      by (simp add: var4a_def var4a_sma_period_def nth_means mean_days_def)
  qed
  have l4: "length (var4a rows) = ?n - 8" by (simp add: var4a_def var4a_sma_period_def)
  have v5: "var5a rows ! k = fadd (mean_days (\<lambda>j. mean_days (var3_at rows) (j - 5) 6) (k + 8) 6) 100"
    if "k < ?n - 13" for k
  proof -
    have "window k (k + 6) (var4a rows) = map (\<lambda>j. mean_days (var3_at rows) (j - 5) 6) [k + 8..<k + 8 + 6]"
      using that l4 v4 by (intro window_map_days) (auto simp: add.commute)
    then show ?thesis using that l4
      by (simp add: var5a_def var4a_sma_period_def nth_means mean_days_def)
  qed
  have l: "length (var5a rows) = ?n - 13" "length (var2a rows) = ?n - 6"
    using l4 by (simp_all add: var5a_def var2a_def var4a_sma_period_def var1a_sma_period_def)
  have "4 \<le> ?n - 3" "6 \<le> ?n - 3" "k < ?n - 6" using assms by auto
  with assms l v5 [OF assms] v2 [of k] show ?thesis
    by (simp add: brick_def var1a_sma_period_def var3a_sma_period_def)
qed

text \<open>A history of 14 rows, all alike.\<close>

definition flat_row :: candle where
  "flat_row = \<lparr>cd_c = 10, cd_h = 10, cd_l = 10, cd_o = 10, cd_v = 100, cd_pc = None, cd_a = None\<rparr>"

theorem brick_days_witness:
  "brick (replicate 14 flat_row) ! 0 = brick_of
     (fadd (mean_days (\<lambda>j. mean_days (var3_at (replicate 14 flat_row)) (j - 5) 6) 8 6) 100)
     (fadd (mean_days (var1_at (replicate 14 flat_row)) 3 4) 100)"
  using brick_days [of 0 "replicate 14 flat_row"] by simp

end
