(* ===== verification/B2Filter.thy ===== *)
theory B2Filter
  imports B1Filter FilterRunner
begin

text \<open>
  The B2 screening of \<open>stock_filter_b2.py\<close>: the strict and the loose conditions on the last two
  days, the details, the handling of one stock and of the pool. What the history source answers
  for a code (rows or an exception) and the order in which the worker threads complete are
  parameters. The items are those that \<open>FilterRunner\<close> merges.
\<close>

section \<open>Parameters\<close>

definition j_strict_threshold :: pyfloat where "j_strict_threshold = 13"
definition j_loose_threshold :: pyfloat where "j_loose_threshold = 0"
definition change_threshold :: pyfloat where "change_threshold = fl (395 / 100)"
definition j_max_threshold :: pyfloat where "j_max_threshold = 55"
definition upper_shadow_ratio_max :: pyfloat where "upper_shadow_ratio_max = fl (2 / 10)"

section \<open>The values of the last two days\<close>

record b2_values =
  b2_j :: pyfloat
  b2_j_last :: pyfloat
  b2_k :: pyfloat
  b2_d :: pyfloat
  b2_change :: pyfloat
  b2_volume_ratio :: pyfloat
  b2_volume_up :: bool
  b2_yang :: bool
  b2_shadow :: pyfloat
  b2_zxdq :: "pyfloat option"
  b2_zxdkx :: "pyfloat option"
  b2_close :: pyfloat

definition upper_shadow_ratio :: "candle \<Rightarrow> candle \<Rightarrow> pyfloat" where
  "upper_shadow_ratio t y = (if cd_c y < cd_h t \<and> cd_o t < cd_c t
     then fdiv (fsub (cd_h t) (cd_c t)) (fsub (cd_h t) (cd_c y)) else 0)"

definition b2_values_of :: "candle list \<Rightarrow> b2_values" where
  "b2_values_of rows = (let t = from_end rows 1; y = from_end rows 2; cs = map cd_c rows in
     (case calculate_kdj_series cs (map cd_h rows) (map cd_l rows) b1_n of (ks, ds, js) \<Rightarrow>
     \<lparr>b2_j = from_end js 1, b2_j_last = from_end js 2, b2_k = last ks, b2_d = last ds,
      b2_change = (if 0 < cd_c y then fmul (fsub (fdiv (cd_c t) (cd_c y)) 1) 100 else 0),
      b2_volume_ratio = (if 0 < cd_v y then fdiv (cd_v t) (cd_v y) else 0),
      b2_volume_up = (cd_v y < cd_v t), b2_yang = (cd_o t < cd_c t),
      b2_shadow = upper_shadow_ratio t y, b2_zxdq = zxdq_of cs, b2_zxdkx = zxdkx_of cs,
      b2_close = cd_c t\<rparr>))"

section \<open>The conditions\<close>

definition loose_conditions :: "b2_values \<Rightarrow> (ustr, bool) dict" where
  "loose_conditions v = [(kb_l_jlast, b2_j_last v < j_loose_threshold),
     (kb_l_chg, change_threshold < b2_change v), (kb_l_vol, b2_volume_up v),
     (kb_l_j, b2_j v < j_max_threshold)]"

definition above_zxdkx :: "b2_values \<Rightarrow> bool" where
  "above_zxdkx v = (case b2_zxdkx v of None \<Rightarrow> False | Some x \<Rightarrow> x < b2_close v)"

definition zxdq_above :: "b2_values \<Rightarrow> bool" where
  "zxdq_above v = (case (b2_zxdq v, b2_zxdkx v) of (Some q, Some x) \<Rightarrow> x < q | _ \<Rightarrow> False)"

definition strict_conditions :: "b2_values \<Rightarrow> (ustr, bool) dict" where
  "strict_conditions v = [(kb_s_jlast, b2_j_last v < j_strict_threshold),
     (kb_s_chg, change_threshold < b2_change v), (kb_s_vol, b2_volume_up v),
     (kb_s_j, b2_j v < j_max_threshold),
     (kb_s_shadow, b2_yang v \<and> b2_shadow v < upper_shadow_ratio_max),
     (kb_s_c, above_zxdkx v), (kb_s_zx, zxdq_above v)]"

definition b2_detail_dict :: "b2_values \<Rightarrow> (ustr, dval) dict" where
  "b2_detail_dict v =
    [(kb_j, VFloat (py_round 2 (b2_j v))), (kb_j_last, VFloat (py_round 2 (b2_j_last v))),
     (kb_k, VFloat (py_round 2 (b2_k v))), (kb_d, VFloat (py_round 2 (b2_d v))),
     (kb_chg, VFloat (py_round 2 (b2_change v))), (kb_vol, VFloat (py_round 2 (b2_volume_ratio v))),
     (kb_shadow, VFloat (py_round 4 (b2_shadow v))),
     (kb_zxdq, opt_val (\<lambda>x. VFloat (py_round 2 x)) (b2_zxdq v)),
     (kb_zxdkx, opt_val (\<lambda>x. VFloat (py_round 2 x)) (b2_zxdkx v)), (kb_yang, VBool (b2_yang v))]"

record b2_value =
  bw_strict :: bool
  bw_loose :: bool
  bw_details :: "(ustr, dval) dict"
  bw_conditions_strict :: "(ustr, bool) dict"
  bw_conditions_loose :: "(ustr, bool) dict"

text \<open>\<open>None\<close> is the answer with the key \<open>error\<close> of a history that is too short.\<close>

definition b2_filter :: "candle list \<Rightarrow> b2_value option" where
  "b2_filter rows = (if length rows < min_data_days then None
     else let v = b2_values_of rows in
       Some \<lparr>bw_strict = list_all snd (strict_conditions v), bw_loose = list_all snd (loose_conditions v),
         bw_details = b2_detail_dict v, bw_conditions_strict = strict_conditions v,
         bw_conditions_loose = loose_conditions v\<rparr>)"

section \<open>One stock and the pool\<close>

definition bools :: "(ustr, bool) dict \<Rightarrow> (ustr, dval) dict" where
  "bools d = map (\<lambda>(k, b). (k, VBool b)) d"

definition b2_error_item :: "raw_stock \<Rightarrow> b2_item" where
  "b2_error_item st = \<lparr>b2_stock = Some st, b2_status = Some ''error'', b2_strict = Some False,
     b2_loose = Some False, b2_details = Some []\<rparr>"

definition b2_all_details :: "b2_value \<Rightarrow> candle \<Rightarrow> (ustr, dval) dict" where
  "b2_all_details v r = dset kd_low_cn (VFloat (cd_l r)) (dset kd_high_cn (VFloat (cd_h r))
     (dset kd_open_cn (VFloat (cd_o r)) (dset k_close (VFloat (cd_c r))
     (dupdate (dupdate (dupdate [] (bw_details v)) (bools (bw_conditions_strict v)))
        (bools (bw_conditions_loose v))))))"

text \<open>A stock without code raises a KeyError, which the handler catches like every other one.\<close>

definition process_stock_b2 :: "(string \<Rightarrow> (ustr, candle list) result) \<Rightarrow> raw_stock \<Rightarrow> b2_item" where
  "process_stock_b2 hist st = (case rs_code st of None \<Rightarrow> b2_error_item st
     | Some code \<Rightarrow> (case hist code of Inl e \<Rightarrow> b2_error_item st
         | Inr rows \<Rightarrow> if rows = [] then b2_error_item st
             else (case b2_filter rows of None \<Rightarrow> b2_error_item st
               | Some v \<Rightarrow> \<lparr>b2_stock = Some st, b2_status = Some ''success'',
                   b2_strict = Some (bw_strict v), b2_loose = Some (bw_loose v),
                   b2_details = Some (b2_all_details v (last rows))\<rparr>)))"

text \<open>ChiNext and STAR codes and ST names are outside the pool.\<close>

definition board_excluded :: "string \<Rightarrow> bool" where
  "board_excluded code = (let c = before (CHR ''.'') code in
     startswith c ''300'' \<or> startswith c ''301'' \<or> startswith c ''302'' \<or> startswith c ''688'')"

definition st_name :: "ustr \<Rightarrow> bool" where
  "st_name n \<longleftrightarrow> startswith n (ustr_of ''ST'') \<or> startswith n (ustr_of ''*ST'')"

definition b2_in_pool :: "raw_stock \<Rightarrow> bool" where
  "b2_in_pool st \<longleftrightarrow> \<not> board_excluded (the (rs_code st)) \<and> \<not> st_name (the (rs_name st))"

text \<open>A stock of the source whose code is null, or on a normal board whose name is null, raises.\<close>

definition b2_own_pool :: "raw_stock list \<Rightarrow> (string, raw_stock list) result" where
  "b2_own_pool xs = (if list_all (\<lambda>st. rs_code st \<noteq> None
         \<and> (board_excluded (the (rs_code st)) \<or> rs_name st \<noteq> None)) xs
     then Inr (filter b2_in_pool xs) else Inl ''AttributeError'')"

text \<open>
  \<open>run_b2_filter\<close>: without a list of stocks the source is asked, which may raise or have none;
  \<open>order\<close> is the order in which the threads complete.
\<close>

definition run_b2_filter :: "(string, raw_stock list) result \<Rightarrow> (string \<Rightarrow> (ustr, candle list) result)
    \<Rightarrow> (b2_item list \<Rightarrow> b2_item list) \<Rightarrow> raw_stock list option \<Rightarrow> (string, b2_item list) result" where
  "run_b2_filter source hist order given =
     (case given of Some xs \<Rightarrow> Inr (order (map (process_stock_b2 hist) xs))
      | None \<Rightarrow> (case source of Inl e \<Rightarrow> Inl e
          | Inr xs \<Rightarrow> if xs = [] then Inr []
              else (case b2_own_pool xs of Inl e \<Rightarrow> Inl e
                | Inr ys \<Rightarrow> Inr (order (map (process_stock_b2 hist) ys)))))"

section \<open>Strict and loose\<close>

lemma thresholds: "j_loose_threshold < j_strict_threshold"
  by (simp add: j_loose_threshold_def j_strict_threshold_def)

text \<open>
  A loose pick is a strict one exactly when it closes above its open with a short upper
  shadow, above the long line, and with the short line above the long one. A strict pick is a
  loose one exactly when the J of the day before was negative: the first strict condition is the
  weaker of the two, so strict picks need not be loose.
\<close>

theorem b2_strict_loose:
  assumes "b2_filter rows = Some v" "b2_values_of rows = x"
  shows "(bw_loose v \<longrightarrow> bw_strict v = (b2_yang x \<and> b2_shadow x < upper_shadow_ratio_max
        \<and> above_zxdkx x \<and> zxdq_above x))
    \<and> (bw_strict v \<longrightarrow> bw_loose v = (b2_j_last x < 0))"
proof -
  have v: "bw_strict v = list_all snd (strict_conditions x)" "bw_loose v = list_all snd (loose_conditions x)"
    using assms by (auto simp: b2_filter_def Let_def split: if_splits)
  show ?thesis using thresholds unfolding v
    by (auto simp: strict_conditions_def loose_conditions_def j_loose_threshold_def)
qed

end
