(* ===== verification/LocalStores.thy ===== *)
theory LocalStores
  imports PyTime PyFloat FilterRunner
begin

text \<open>
  The local files of the screening: the list of failed stocks (\<open>retry_manager.py\<close>) and the
  cache of market data (\<open>data_storage.py\<close>), with the validity periods that \<open>api.py\<close> asks for.
  A file is what reading it gives; writing it succeeds. The clock is an argument.
\<close>

section \<open>The list of failed stocks\<close>

record failed_stock =
  fs_code :: string
  fs_name :: ustr
  fs_exchange :: string
  fs_error :: ustr
  fs_time :: pydatetime

text \<open>The file is unreadable or holds a list; every operation catches its exceptions.\<close>

datatype failed_file = Unreadable | FailedList "failed_stock list"

fun update_failed :: "string \<Rightarrow> ustr \<Rightarrow> pydatetime \<Rightarrow> failed_stock list \<Rightarrow> failed_stock list option" where
  "update_failed c msg now [] = None"
| "update_failed c msg now (x # xs) = (if fs_code x = c
     then Some (x\<lparr>fs_error := msg, fs_time := now\<rparr> # xs)
     else map_option (Cons x) (update_failed c msg now xs))"

text \<open>A stock without a key that is read raises, and the list stays as it is.\<close>

definition add_failed_stock :: "raw_stock \<Rightarrow> ustr \<Rightarrow> pydatetime \<Rightarrow> failed_file \<Rightarrow> failed_file" where
  "add_failed_stock st msg now f = (case f of Unreadable \<Rightarrow> Unreadable
   | FailedList xs \<Rightarrow> (case rs_code st of None \<Rightarrow> FailedList xs
     | Some c \<Rightarrow> (case update_failed c msg now xs of Some ys \<Rightarrow> FailedList ys
       | None \<Rightarrow> (case (rs_name st, rs_exchange st) of
           (Some n, Some e) \<Rightarrow> FailedList (xs @ [\<lparr>fs_code = c, fs_name = n, fs_exchange = e,
               fs_error = msg, fs_time = now\<rparr>])
         | _ \<Rightarrow> FailedList xs))))"

definition get_failed_stocks :: "failed_file \<Rightarrow> failed_stock list" where
  "get_failed_stocks f = (case f of Unreadable \<Rightarrow> [] | FailedList xs \<Rightarrow> xs)"

definition remove_failed_stock :: "string \<Rightarrow> failed_file \<Rightarrow> failed_file" where
  "remove_failed_stock c f = (case f of Unreadable \<Rightarrow> Unreadable
   | FailedList xs \<Rightarrow> FailedList (filter (\<lambda>x. fs_code x \<noteq> c) xs))"

definition clear_failed_stocks :: "failed_file \<Rightarrow> failed_file" where
  "clear_failed_stocks f = FailedList []"

section \<open>The cache of market data\<close>

text \<open>A cache file is absent, raises when read, or holds its time, if any, and its data.\<close>

datatype 'a cache_file = CacheAbsent | CacheRaises | CacheData "pydatetime option" 'a

definition eighteen :: "pydatetime \<Rightarrow> pydatetime" where
  "eighteen now = DateTime (dt_date now) (hms 18 0 0)"

definition day_micros :: int where
  "day_micros = hms 24 0 0"

definition age_hours :: "pydatetime \<Rightarrow> pydatetime \<Rightarrow> pyfloat" where
  "age_hours now ts = fdiv (fl (of_int (dt_micros now - dt_micros ts) / 1000000)) 3600"

definition is_expired :: "pydatetime \<Rightarrow> pydatetime \<Rightarrow> pyfloat option \<Rightarrow> bool" where
  "is_expired now ts max_age = (case max_age of
     Some h \<Rightarrow> h < age_hours now ts
   | None \<Rightarrow> if eighteen now \<le> now then ts < eighteen now
       else if dt_date ts = dt_date now then False
       else ts < dt_add (eighteen now) (- day_micros))"

text \<open>\<open>load_stock_data\<close> with the local cache switched on, as it is configured.\<close>

definition load_stock_data :: "pydatetime \<Rightarrow> 'a cache_file \<Rightarrow> pyfloat option \<Rightarrow> 'a option" where
  "load_stock_data now f max_age = (case f of CacheAbsent \<Rightarrow> None | CacheRaises \<Rightarrow> None
     | CacheData ts x \<Rightarrow> (case ts of None \<Rightarrow> None
         | Some t \<Rightarrow> if is_expired now t max_age then None else Some x))"

definition save_stock_data :: "pydatetime \<Rightarrow> 'a \<Rightarrow> 'a cache_file" where
  "save_stock_data now x = CacheData (Some (DateTime (dt_date now) (dt_time now div 1000000 * 1000000))) x"

text \<open>\<open>clear_expired_data\<close> on one file of the directory.\<close>

definition clear_expired_file :: "pydatetime \<Rightarrow> 'a cache_file \<Rightarrow> 'a cache_file" where
  "clear_expired_file now f = (case f of CacheData (Some t) x \<Rightarrow>
     if is_expired now t None then CacheAbsent else f | _ \<Rightarrow> f)"

text \<open>The last day a request for daily rows asks for: today from 18:00 on, else yesterday.\<close>

definition end_date :: "pydatetime \<Rightarrow> date" where
  "end_date now = (if hms 18 0 0 \<le> dt_time now then dt_date now else dt_date now - 1)"

text \<open>The validity of cached realtime data, in hours; \<open>open_age\<close> is the configured one.\<close>

definition realtime_max_age :: "pyfloat \<Rightarrow> pydatetime \<Rightarrow> pyfloat" where
  "realtime_max_age open_age now = (let weekday_now = weekday (dt_date now) < 5;
       trading = hms 9 30 0 \<le> dt_time now \<and> dt_time now \<le> hms 15 0 0 in
     if weekday_now \<and> trading then open_age else if \<not> weekday_now then 66 else 18)"

section \<open>The list has one entry per code\<close>

lemma update_failed_codes:
  "update_failed c msg now xs = Some ys \<Longrightarrow> map fs_code ys = map fs_code xs \<and> c \<in> set (map fs_code xs)"
  by (induction xs arbitrary: ys) (auto split: if_splits)

lemma update_failed_None: "update_failed c msg now xs = None \<longleftrightarrow> c \<notin> set (map fs_code xs)"
  by (induction xs) auto

lemma update_failed_member:
  "update_failed c msg now xs = Some ys \<Longrightarrow> \<exists>y \<in> set ys. fs_code y = c \<and> fs_error y = msg \<and> fs_time y = now"
  by (induction xs arbitrary: ys) (fastforce split: if_splits)+

definition failed_codes :: "failed_file \<Rightarrow> string list" where
  "failed_codes f = map fs_code (get_failed_stocks f)"

text \<open>
  The list of failed stocks never has two entries for one code, and after a failure of a
  complete stock its entry carries the newest message and time; removing the code then
  leaves the other codes in their order.
\<close>

theorem failed_list_once:
  assumes "distinct (failed_codes (FailedList xs))" "rs_code st = Some c" "rs_name st = Some n"
    "rs_exchange st = Some e" "f = add_failed_stock st msg now (FailedList xs)"
  shows "distinct (failed_codes f)
    \<and> (\<exists>y \<in> set (get_failed_stocks f). fs_code y = c \<and> fs_error y = msg \<and> fs_time y = now)
    \<and> failed_codes (remove_failed_stock c f) = filter (\<lambda>d. d \<noteq> c) (failed_codes (FailedList xs))"
proof -
  have codes: "failed_codes (remove_failed_stock c (FailedList ys)) = filter (\<lambda>d. d \<noteq> c) (map fs_code ys)" for ys
    by (induction ys) (auto simp: failed_codes_def get_failed_stocks_def remove_failed_stock_def)
  show ?thesis
  proof (cases "update_failed c msg now xs")
    case None
    then have "c \<notin> set (map fs_code xs)" using update_failed_None by blast
    moreover have "filter (\<lambda>d. d \<noteq> c) (map fs_code xs) = map fs_code xs" using calculation
      by (auto intro!: filter_True)
    ultimately show ?thesis using assms None
      by (simp add: add_failed_stock_def codes) (simp add: failed_codes_def get_failed_stocks_def)
  next
    case (Some ys)
    with update_failed_codes [OF Some] update_failed_member [OF Some] assms show ?thesis
      by (simp add: add_failed_stock_def codes) (simp add: failed_codes_def get_failed_stocks_def)
  qed
qed

section \<open>When cached daily rows are still valid\<close>

lemma dt_add_yesterday: "dt_add (DateTime d (hms 18 0 0)) (- day_micros) = DateTime (d - 1) (hms 18 0 0)"
proof -
  have "d * 86400000000 - 21600000000 = 64800000000 + (d - 1) * (86400000000 :: int)" by simp
  then have "(d * 86400000000 - 21600000000) div 86400000000 = d - 1"
    "(d * 86400000000 - 21600000000) mod 86400000000 = (64800000000 :: int)"
    by (simp_all only: div_mult_self1 mod_mult_self1) simp_all
  then show ?thesis by (simp add: dt_add_def dt_micros_def dt_of_micros_def day_micros_def hms_def)
qed

lemma expired_iff_end_date:
  assumes "time_ok ts" "time_ok now"
  shows "is_expired now ts None \<longleftrightarrow> end_date ts < end_date now"
proof -
  obtain d t where n: "now = DateTime d t" by (cases now)
  obtain e s where m: "ts = DateTime e s" by (cases ts)
  show ?thesis using assms unfolding n m
    by (auto simp: is_expired_def eighteen_def dt_add_yesterday end_date_def less_pydatetime_def
      less_eq_pydatetime_def time_ok_def)
qed

text \<open>
  C38: Cached daily rows count as expired exactly when a new request would ask for a later last
  day than the one they were fetched with, whatever both times are, also for a file time after
  now. The case for rows saved today is subsumed.
\<close>

theorem cache_expires_with_end_date:
  assumes "time_ok ts" "time_ok now"
  shows "is_expired now ts None \<longleftrightarrow> end_date ts < end_date now"
  by (rule expired_iff_end_date [OF assms])

theorem cache_expires_with_end_date_witness:
  "is_expired (DateTime 10 (hms 18 0 0)) (DateTime 10 (hms 17 59 59)) None
   \<and> \<not> is_expired (DateTime 10 (hms 17 0 0)) (DateTime 9 (hms 18 0 0)) None
   \<and> \<not> is_expired (DateTime 10 (hms 17 0 0)) (DateTime 12 (hms 9 0 0)) None"
  using cache_expires_with_end_date [of "DateTime 10 (hms 17 59 59)" "DateTime 10 (hms 18 0 0)"]
    cache_expires_with_end_date [of "DateTime 9 (hms 18 0 0)" "DateTime 10 (hms 17 0 0)"]
    cache_expires_with_end_date [of "DateTime 12 (hms 9 0 0)" "DateTime 10 (hms 17 0 0)"]
  by (simp add: end_date_def time_ok_def hms_def)

definition ex_failing :: raw_stock where
  "ex_failing = \<lparr>rs_code = Some ''600519'', rs_name = Some [], rs_exchange = Some ''sh''\<rparr>"

theorem failed_list_once_witness:
  "failed_codes (remove_failed_stock ''600519'' (add_failed_stock ex_failing [] (DateTime 1 0) (FailedList []))) = []"
  using failed_list_once [of "[]" ex_failing "''600519''" "[]" "''sh''" _ "[]" "DateTime 1 0"]
  by (simp add: failed_codes_def get_failed_stocks_def ex_failing_def)

end
