(* ===== verification/StockFilter.thy ===== *)
theory StockFilter
  imports UltraShort B2Filter LocalStores
begin

text \<open>
  The screening run of \<open>stock_filter.py\<close>: the handling of one stock (\<open>process_stock\<close>) and
  \<open>run_filter\<close> with its pool, the quick exclusion on realtime data, the two batches and the
  order of the results. The market data source is a parameter: for every code the answers to the
  attempts at the daily rows, the weekly rows and the realtime data, each of which may raise.
  The threads of a batch complete in an order that is a parameter too. The run is not
  interrupted: \<open>should_exit\<close> stays false, except in the argument of \<open>process_stock\<close>. The items
  are those that \<open>FilterRunner\<close> merges.
\<close>

section \<open>The source of market data\<close>

record source =
  so_list :: "(ustr, raw_stock list) result"
  so_daily :: "string \<Rightarrow> nat \<Rightarrow> (ustr, candle list) result"
  so_weekly :: "string \<Rightarrow> (ustr, candle list) result"
  so_realtime :: "string \<Rightarrow> (ustr, realtime option) result"
  so_mock_list :: "raw_stock list"
  so_mock_rows :: "string \<Rightarrow> candle list"
  so_mock_weeks :: "string \<Rightarrow> candle list"
  so_needs_fetch :: "string \<Rightarrow> bool"
  so_error_text :: "calc_error \<Rightarrow> ustr"

definition max_retries :: nat where "max_retries = 3"

text \<open>Up to three attempts at rows; an exception ends them at once.\<close>

fun fetch_rows :: "(nat \<Rightarrow> (ustr, candle list) result) \<Rightarrow> nat \<Rightarrow> nat \<Rightarrow> (ustr, candle list) result" where
  "fetch_rows answer 0 i = Inr []"
| "fetch_rows answer (Suc n) i = (case answer i of Inl e \<Rightarrow> Inl e
     | Inr rows \<Rightarrow> if rows \<noteq> [] then Inr rows else fetch_rows answer n (i + 1))"

section \<open>Messages\<close>

definition txt_ok :: ustr where "txt_ok = [22788, 29702, 25104, 21151]"
definition txt_no_history :: ustr where "txt_no_history = [26080, 27861, 33719, 21462, 21382, 21490, 25968, 25454]"
definition txt_too_short :: ustr where
  "txt_too_short = [25968, 25454, 19981, 36275, 65292, 26080, 27861, 23436, 25104, 31579, 36873]"
definition txt_cancelled :: ustr where "txt_cancelled = [22788, 29702, 34987, 21462, 28040]"
definition txt_failed :: "ustr \<Rightarrow> ustr" where
  "txt_failed e = [22788, 29702, 22833, 36133, 58, 32] @ e"

section \<open>One stock\<close>

datatype strategy = StrategyB1 | StrategyUltraShort

definition item_of :: "raw_stock \<Rightarrow> string \<Rightarrow> ustr \<Rightarrow> bool \<Rightarrow> (ustr, dval) dict \<Rightarrow> b1_item" where
  "item_of st status msg r ds = \<lparr>b1_stock = Some st, b1_status = Some status, b1_result = Some r,
     b1_message = Some msg, b1_details = Some ds\<rparr>"

definition price_details :: "candle \<Rightarrow> (ustr, dval) dict" where
  "price_details r = [(kd_close, VFloat (cd_c r)), (kd_high, VFloat (cd_h r)), (kd_low, VFloat (cd_l r)),
     (kd_open, VFloat (cd_o r)), (kd_volume, VFloat (cd_v r)),
     (kd_amount, case cd_a r of None \<Rightarrow> VInt 0 | Some a \<Rightarrow> VFloat a),
     (k_close, VFloat (cd_c r)), (kd_open_cn, VFloat (cd_o r)), (kd_high_cn, VFloat (cd_h r)),
     (kd_low_cn, VFloat (cd_l r))]"

definition extra_details :: "b1_value \<Rightarrow> (ustr, dval) dict" where
  "extra_details v = [(kd_new1, VBool (bv_new1 v)), (kd_new2, VBool (bv_new2 v)),
     (kd_new3, VBool (bv_new3 v)), (kd_new4, VBool (bv_new4 v)), (k_total_score, VInt (bv_score v)),
     (ki_original, VBool (bv_result v)), (kd_s_slope3, VBool (bv_slope3 v)), (kd_s_gap, VBool (bv_gap v)),
     (kd_s_slopes, VBool (bv_slopes v)), (kd_s_limit_up, VBool (bv_limit_up v)),
     (kd_s_shadow, VBool (bv_shadow v)), (kd_s_chg30, opt_val VBool (bv_chg30 v))]"

definition backtest_details :: "backtest option \<Rightarrow> (ustr, dval) dict" where
  "backtest_details b = (case b of
     None \<Rightarrow> [(kd_back5, VInt 0), (kd_price5, VInt 0)]
   | Some x \<Rightarrow> [(kd_back5, VFloat (bt_return_rate x)), (kd_price5, VFloat (bt_start_price x))])"

definition b1_details_of :: "candle list \<Rightarrow> b1_value \<Rightarrow> (ustr, dval) dict" where
  "b1_details_of rows v = dupdate (dupdate (dupdate (dupdate (dupdate (price_details (last rows))
     (bools (bv_conditions v))) (bv_kdj v)) (bv_indicators v)) (extra_details v))
     (backtest_details (calculate_backtest_return rows (length rows - 1) 5))"

definition us_details_of :: "candle list \<Rightarrow> us_value \<Rightarrow> (ustr, dval) dict" where
  "us_details_of rows v = dupdate (dupdate (price_details (last rows)) (bools (uv_conditions v)))
     (uv_indicators v)"

text \<open>
  The answer for a stock with rows, or the text of an exception. The realtime data come from the
  cache of the quick exclusion when they are in it.
\<close>

definition weekly_rows :: "source \<Rightarrow> bool \<Rightarrow> string \<Rightarrow> (ustr, candle list) result" where
  "weekly_rows so mock code = (if mock then Inr (so_mock_weeks so code) else so_weekly so code)"

definition realtime_of :: "source \<Rightarrow> bool \<Rightarrow> (string, realtime) dict \<Rightarrow> string
    \<Rightarrow> (ustr, realtime option) result" where
  "realtime_of so mock cache code = (if mock then Inr None
     else case dget cache code of Some r \<Rightarrow> Inr (Some r) | None \<Rightarrow> so_realtime so code)"

definition b1_answer :: "source \<Rightarrow> bool \<Rightarrow> (string, realtime) dict \<Rightarrow> raw_stock \<Rightarrow> string
    \<Rightarrow> candle list \<Rightarrow> (ustr, b1_item) result" where
  "b1_answer so mock cache st code rows =
     (case weekly_rows so mock code of Inl e \<Rightarrow> Inl e
      | Inr weeks \<Rightarrow> (case realtime_of so mock cache code of Inl e \<Rightarrow> Inl e
      | Inr rt \<Rightarrow> (case b1_strategy_filter rows weeks rt of Inl e \<Rightarrow> Inl (so_error_text so e)
      | Inr None \<Rightarrow> Inr (item_of st ''error'' txt_too_short False (price_details (last rows)))
      | Inr (Some v) \<Rightarrow> Inr (item_of st ''success'' txt_ok (bv_result v) (b1_details_of rows v)))))"

definition answer_of :: "source \<Rightarrow> strategy \<Rightarrow> bool \<Rightarrow> (string, realtime) dict \<Rightarrow> raw_stock \<Rightarrow> string
    \<Rightarrow> candle list \<Rightarrow> (ustr, b1_item) result" where
  "answer_of so strategy mock cache st code rows = (case strategy of
     StrategyB1 \<Rightarrow> b1_answer so mock cache st code rows
   | StrategyUltraShort \<Rightarrow> (let v = ultra_short_strategy_filter rows in
        Inr (item_of st ''success'' txt_ok (uv_result v) (us_details_of rows v))))"

text \<open>
  \<open>process_stock\<close> gives the item and the message that it adds to the list of failed stocks, if
  any. The handler of an exception reads \<open>stock['code']\<close>, so a stock without code raises.
\<close>

definition process_stock :: "source \<Rightarrow> strategy \<Rightarrow> bool \<Rightarrow> (string, realtime) dict \<Rightarrow> bool \<Rightarrow> raw_stock
    \<Rightarrow> (string, b1_item \<times> ustr option) result" where
  "process_stock so strategy mock cache should_exit st =
     (if should_exit then Inr (item_of st ''cancelled'' txt_cancelled False [], None)
      else (case rs_code st of None \<Rightarrow> Inl ''KeyError''
        | Some code \<Rightarrow>
          (case (if mock then Inr (so_mock_rows so code) else fetch_rows (so_daily so code) max_retries 0) of
             Inl e \<Rightarrow> Inr (item_of st ''error'' (txt_failed e) False [], Some (txt_failed e))
           | Inr rows \<Rightarrow>
              if rows = [] then Inr (item_of st ''error'' txt_no_history False [], Some txt_no_history)
              else (case answer_of so strategy mock cache st code rows of
                  Inl e \<Rightarrow> Inr (item_of st ''error'' (txt_failed e) False [], Some (txt_failed e))
                | Inr item \<Rightarrow> Inr (item, None)))))"

section \<open>The pool and the quick exclusion\<close>

definition delisted :: "ustr \<Rightarrow> bool" where
  "delisted n = contains [36864, 24066] n"

definition in_pool :: "raw_stock \<Rightarrow> bool" where
  "in_pool st \<longleftrightarrow> \<not> board_excluded (the (rs_code st)) \<and> \<not> st_name (the (rs_name st))
     \<and> \<not> delisted (the (rs_name st))"

definition pool_of :: "raw_stock list \<Rightarrow> (string, raw_stock list) result" where
  "pool_of xs = (if list_all (\<lambda>st. rs_code st \<noteq> None
         \<and> (board_excluded (the (rs_code st)) \<or> rs_name st \<noteq> None)) xs
     then Inr (filter in_pool xs) else Inl ''AttributeError'')"

definition b1_candidate :: "realtime \<Rightarrow> bool" where
  "b1_candidate r \<longleftrightarrow> min_lt \<le> or_default (rt_lt r) 0 \<and> min_sz \<le> or_default (rt_sz r) 0"

definition b2_candidate :: "realtime \<Rightarrow> bool" where
  "b2_candidate r \<longleftrightarrow> fl (395 / 100) \<le> or_default (rt_pc r) 0"

text \<open>The stocks kept and the realtime data remembered; a request that raises ends the run.\<close>

fun quick_screen :: "(string \<Rightarrow> (ustr, realtime option) result) \<Rightarrow> raw_stock list
    \<Rightarrow> (ustr, raw_stock list \<times> (string, realtime) dict) result" where
  "quick_screen ask [] = Inr ([], [])"
| "quick_screen ask (st # sts) = (case ask (the (rs_code st)) of Inl e \<Rightarrow> Inl e
     | Inr answer \<Rightarrow> (case quick_screen ask sts of Inl e \<Rightarrow> Inl e
       | Inr (kept, cache) \<Rightarrow> (case answer of
           None \<Rightarrow> Inr (st # kept, cache)
         | Some r \<Rightarrow> Inr (if b1_candidate r \<or> b2_candidate r then st # kept else kept,
              if dget cache (the (rs_code st)) = None then dset (the (rs_code st)) r cache else cache))))"

section \<open>The run\<close>

record run_args =
  ra_strategy :: strategy
  ra_test :: bool
  ra_mock :: bool
  ra_retry :: bool
  ra_debug :: bool

definition raw_of_failed :: "failed_stock \<Rightarrow> raw_stock" where
  "raw_of_failed f = \<lparr>rs_code = Some (fs_code f), rs_name = Some (fs_name f), rs_exchange = Some (fs_exchange f)\<rparr>"

definition stock_list :: "source \<Rightarrow> run_args \<Rightarrow> failed_file \<Rightarrow> (ustr, raw_stock list) result" where
  "stock_list so a f = (if ra_retry a then Inr (map raw_of_failed (get_failed_stocks f))
     else if ra_mock a then Inr (so_mock_list so) else so_list so)"

text \<open>The stocks with valid local data, and those that need a request; the cache is switched on.\<close>

definition split_local :: "source \<Rightarrow> run_args \<Rightarrow> raw_stock list \<Rightarrow> raw_stock list \<times> raw_stock list" where
  "split_local so a xs = (if ra_debug a then (xs, [])
     else if \<not> ra_mock a \<and> \<not> ra_retry a then
       (filter (\<lambda>st. \<not> so_needs_fetch so (the (rs_code st))) xs, filter (\<lambda>st. so_needs_fetch so (the (rs_code st))) xs)
     else ([], xs))"

text \<open>A batch: the answers in the order of completion; a stock whose handling raises is dropped.\<close>

definition run_batch :: "source \<Rightarrow> run_args \<Rightarrow> (string, realtime) dict
    \<Rightarrow> ((b1_item \<times> ustr option) list \<Rightarrow> (b1_item \<times> ustr option) list) \<Rightarrow> raw_stock list
    \<Rightarrow> (b1_item \<times> ustr option) list" where
  "run_batch so a cache order xs = order (List.map_filter
     (\<lambda>st. case process_stock so (ra_strategy a) (ra_mock a) cache False st of Inl e \<Rightarrow> None | Inr x \<Rightarrow> Some x) xs)"

definition b1_qualified :: "b1_item \<Rightarrow> bool" where
  "b1_qualified r \<longleftrightarrow> or_default (b1_result r) False \<and> success (b1_status r)"

text \<open>The sort key: minus the score, then the distance; a missing distance is infinite.\<close>

definition number_at :: "b1_item \<Rightarrow> ustr \<Rightarrow> rat option" where
  "number_at r k = Option.bind (dget (or_default (b1_details r) []) k) dval_num"

definition distance_key :: "b1_item \<Rightarrow> nat \<times> rat" where
  "distance_key r = (case number_at r ki_distance of None \<Rightarrow> (1, 0) | Some x \<Rightarrow> (0, x))"

definition b1_sort_key :: "b1_item \<Rightarrow> rat \<times> nat \<times> rat" where
  "b1_sort_key r = (- or_default (number_at r k_total_score) 0, distance_key r)"

definition order_results :: "strategy \<Rightarrow> b1_item list \<Rightarrow> b1_item list" where
  "order_results strategy rs = (case strategy of
       StrategyB1 \<Rightarrow> sort_key b1_sort_key (filter b1_qualified rs)
     | StrategyUltraShort \<Rightarrow> sort_key distance_key (filter b1_qualified rs))
     @ filter (\<lambda>r. \<not> b1_qualified r) rs"

text \<open>The failures are added to the list in the order of completion.\<close>

definition add_failures :: "pydatetime \<Rightarrow> (b1_item \<times> ustr option) list \<Rightarrow> failed_file \<Rightarrow> failed_file" where
  "add_failures now xs f = fold (\<lambda>(r, m) g. case m of None \<Rightarrow> g
     | Some msg \<Rightarrow> add_failed_stock (or_default (b1_stock r) empty_stock) msg now g) xs f"

text \<open>The stocks to handle and the cached realtime data.\<close>

definition screened :: "source \<Rightarrow> run_args \<Rightarrow> failed_file
    \<Rightarrow> (ustr, raw_stock list \<times> (string, realtime) dict) result" where
  "screened so a f = (case stock_list so a f of Inl e \<Rightarrow> Inl e
   | Inr xs \<Rightarrow> (case pool_of xs of Inl e \<Rightarrow> Inl (ustr_of e)
   | Inr pool \<Rightarrow> if \<not> ra_mock a \<and> \<not> ra_test a \<and> \<not> ra_retry a \<and> \<not> ra_debug a
       then quick_screen (so_realtime so) pool
       else Inr (if ra_test a then take 10 pool else pool, [])))"

definition run_filter :: "source \<Rightarrow> ((b1_item \<times> ustr option) list \<Rightarrow> (b1_item \<times> ustr option) list)
    \<Rightarrow> pydatetime \<Rightarrow> run_args \<Rightarrow> failed_file \<Rightarrow> (ustr, b1_item list) result \<times> failed_file" where
  "run_filter so order now a f0 = (let f = (if ra_retry a then f0 else clear_failed_stocks f0) in
     (case screened so a f of Inl e \<Rightarrow> (Inl e, f)
      | Inr (xs, cache) \<Rightarrow> (case split_local so a xs of (cached, fetch) \<Rightarrow>
          let ds = run_batch so a cache order cached @ run_batch so a cache order fetch in
          (Inr (order_results (ra_strategy a) (map fst ds)), add_failures now ds f))))"

end
