(* ===== verification/StockFilterProofs.thy ===== *)
theory StockFilterProofs
  imports StockFilter FilterProofs
begin

text \<open>
  The screening run: every stock of the screened pool is handled once and the results are
  ordered; what the quick exclusion may drop; and, through \<open>FilterRunner\<close>, what a tag of a
  reported stock means in terms of the history of that stock.
\<close>

section \<open>One stock\<close>

lemma item_of_simps [simp]:
  "b1_stock (item_of st s m r d) = Some st" "b1_status (item_of st s m r d) = Some s"
  "b1_result (item_of st s m r d) = Some r" "b1_message (item_of st s m r d) = Some m"
  by (simp_all add: item_of_def)

lemma answer_of_stock: "answer_of so sg mock cache st code rows = Inr it \<Longrightarrow> b1_stock it = Some st"
  by (auto simp: answer_of_def b1_answer_def Let_def split: strategy.splits sum.splits option.splits)

lemma process_total:
  assumes "rs_code st = Some c"
  shows "\<exists>x m. process_stock so sg mock cache False st = Inr (x, m) \<and> b1_stock x = Some st"
  using assms answer_of_stock
  by (fastforce simp: process_stock_def split: sum.splits if_splits)

lemma answer_of_passes:
  assumes "answer_of so StrategyB1 mock cache st code rows = Inr it" "b1_result it = Some True"
  shows "\<exists>weeks rt v. weekly_rows so mock code = Inr weeks \<and> realtime_of so mock cache code = Inr rt
    \<and> b1_strategy_filter rows weeks rt = Inr (Some v) \<and> bv_result v
    \<and> b1_details it = Some (b1_details_of rows v)"
  using assms
  by (auto simp: answer_of_def b1_answer_def item_of_def split: sum.splits option.splits)

section \<open>The pool\<close>

lemma pool_codes:
  "pool_of xs = Inr ys \<Longrightarrow> st \<in> set ys \<Longrightarrow> \<exists>c. rs_code st = Some c"
  by (auto simp: pool_of_def list_all_iff split: if_splits)

lemma quick_screen_subset: "quick_screen ask xs = Inr (kept, cache) \<Longrightarrow> set kept \<subseteq> set xs"
proof (induction xs arbitrary: kept cache)
  case (Cons st sts)
  then show ?case by (fastforce split: sum.splits option.splits if_splits)
qed simp

lemma screened_codes:
  assumes "screened so a f = Inr (xs, cache)" "st \<in> set xs"
  shows "\<exists>c. rs_code st = Some c"
proof -
  obtain ys pool where "pool_of ys = Inr pool" "set xs \<subseteq> set pool"
    using assms(1) quick_screen_subset set_take_subset
    by (force simp: screened_def split: sum.splits if_splits)
  then show ?thesis using assms(2) pool_codes by blast
qed

lemma split_local_mset:
  "split_local so a xs = (cs, fs) \<Longrightarrow> mset cs + mset fs = mset xs"
  by (auto simp: split_local_def mset_partition add.commute
    simp del: mset_filter split: if_splits)

section \<open>The run\<close>

definition keeps_all :: "('a list \<Rightarrow> 'a list) \<Rightarrow> bool" where
  "keeps_all order \<longleftrightarrow> (\<forall>xs. mset (order xs) = mset xs)"

text \<open>The items of a pool in which every stock has a code.\<close>

lemma run_batch_stocks:
  assumes "keeps_all order" "\<forall>st \<in> set xs. \<exists>c. rs_code st = Some c"
  shows "image_mset (b1_stock \<circ> fst) (mset (run_batch so a cache order xs)) = image_mset Some (mset xs)"
proof -
  let ?f = "\<lambda>st. case process_stock so (ra_strategy a) (ra_mock a) cache False st of Inl e \<Rightarrow> None | Inr x \<Rightarrow> Some x"
  have "map (b1_stock \<circ> fst) (List.map_filter ?f xs) = map Some xs"
    using assms(2)
  proof (induction xs)
    case (Cons st xs)
    then obtain c where "rs_code st = Some c" by auto
    from process_total [OF this, of so "ra_strategy a" "ra_mock a" cache] Cons show ?case
      by (auto simp: List.map_filter_simps)
  qed (simp add: List.map_filter_simps)
  then have "image_mset (b1_stock \<circ> fst) (mset (List.map_filter ?f xs)) = image_mset Some (mset xs)"
    by (metis mset_map)
  then show ?thesis using assms(1) by (simp add: run_batch_def keeps_all_def)
qed

lemma order_results_mset: "mset (order_results sg rs) = mset rs"
  by (cases sg) (simp_all add: order_results_def mset_partition del: mset_filter)

lemma run_filterE:
  assumes "run_filter so order now a f0 = (Inr rs, f1)"
  obtains xs cache cs fs ds where
    "screened so a (if ra_retry a then f0 else clear_failed_stocks f0) = Inr (xs, cache)"
    "split_local so a xs = (cs, fs)"
    "ds = run_batch so a cache order cs @ run_batch so a cache order fs"
    "rs = order_results (ra_strategy a) (map fst ds)"
  using assms by (auto simp: run_filter_def Let_def split: sum.splits prod.splits)

text \<open>
  C26: A run of the screening that returns gives exactly one result for every stock that was
  left after the exclusions. The passed ones come first, by falling score and rising distance
  to the long line, the others follow in the order of completion.
\<close>

theorem run_filter_results:
  assumes "keeps_all order" "ra_strategy a = StrategyB1" "run_filter so order now a f0 = (Inr rs, f1)"
    "screened so a (if ra_retry a then f0 else clear_failed_stocks f0) = Inr (xs, cache)"
  shows "image_mset b1_stock (mset rs) = image_mset Some (mset xs)
    \<and> (\<exists>ps qs. rs = ps @ qs \<and> (\<forall>r \<in> set ps. b1_qualified r) \<and> (\<forall>r \<in> set qs. \<not> b1_qualified r)
        \<and> sorted (map b1_sort_key ps))"
proof -
  obtain cs fs ds where d: "split_local so a xs = (cs, fs)"
    "ds = run_batch so a cache order cs @ run_batch so a cache order fs"
    "rs = order_results (ra_strategy a) (map fst ds)"
    using run_filterE [OF assms(3)] assms(4) by (metis Pair_inject sum.inject(2))
  have m: "mset cs + mset fs = mset xs" by (rule split_local_mset [OF d(1)])
  then have "set cs \<subseteq> set xs" "set fs \<subseteq> set xs" by (metis mset_subset_eq_add_left mset_subset_eq_add_right set_mset_mono set_mset_mset)+
  then have "\<forall>st \<in> set cs. \<exists>c. rs_code st = Some c" "\<forall>st \<in> set fs. \<exists>c. rs_code st = Some c"
    using screened_codes [OF assms(4)] by blast+
  then have "image_mset (b1_stock \<circ> fst) (mset ds) = image_mset Some (mset cs + mset fs)"
    using run_batch_stocks [OF assms(1)] by (simp add: d(2))
  then have "image_mset b1_stock (mset rs) = image_mset Some (mset xs)"
    by (simp add: d(3) order_results_mset m image_mset.compositionality)
  moreover have "rs = sort_key b1_sort_key (filter b1_qualified (map fst ds))
      @ filter (\<lambda>r. \<not> b1_qualified r) (map fst ds)"
    using d(3) assms(2) by (simp add: order_results_def)
  ultimately show ?thesis by fastforce
qed


section \<open>The quick exclusion\<close>

lemma b1_resultE:
  assumes "b1_strategy_filter rows weeks rt = Inr (Some v)"
  obtains n sl where "b1_lines_of rows = Some n" "b1_slopes_of rows weeks rt = Inr sl"
    "v = b1_value_of rows weeks rt n sl" "min_data_days \<le> length rows"
  using assms by (auto simp: b1_strategy_filter_def split: if_splits option.splits sum.splits)

lemma b1_result_cap:
  "b1_strategy_filter rows weeks rt = Inr (Some v) \<Longrightarrow> bv_result v \<Longrightarrow> market_cap_ok rt"
  by (erule b1_resultE) (simp add: b1_value_of_def b1_conditions_def Let_def)

lemma quick_screen_dropped:
  "quick_screen ask xs = Inr (kept, cache) \<Longrightarrow> st \<in> set xs \<Longrightarrow> st \<notin> set kept
   \<Longrightarrow> \<exists>r. ask (the (rs_code st)) = Inr (Some r) \<and> \<not> b1_candidate r \<and> \<not> b2_candidate r"
proof (induction xs arbitrary: kept cache)
  case (Cons s sts)
  then show ?case by (cases "st = s") (fastforce split: sum.splits option.splits if_splits)+
qed simp

definition no_values :: realtime where
  "no_values = \<lparr>rt_lt = None, rt_sz = None, rt_p = None, rt_pc = None\<rparr>"

lemma no_values_facts: "\<not> b1_candidate no_values" "\<not> b2_candidate no_values" "market_cap_ok (Some no_values)"
  by code_simp+

text \<open>
  A stock that the quick exclusion drops had realtime data in which neither the market
  values nor the rise reach the thresholds; when both market values are known, the B1 filter
  fails on it whatever its history is. But when a market value is missing the exclusion counts
  it as zero and drops the stock, although the B1 filter takes the condition as satisfied.
\<close>

theorem quick_screen_sound:
  assumes "quick_screen ask xs = Inr (kept, cache)" "st \<in> set xs" "st \<notin> set kept"
  shows "(\<exists>r. ask (the (rs_code st)) = Inr (Some r) \<and> \<not> b1_candidate r \<and> \<not> b2_candidate r
    \<and> (0 < rt_value rt_lt (Some r) \<and> 0 < rt_value rt_sz (Some r) \<longrightarrow>
        (\<forall>rows weeks v. b1_strategy_filter rows weeks (Some r) = Inr (Some v) \<longrightarrow> \<not> bv_result v)))
    \<and> (\<exists>r. \<not> b1_candidate r \<and> \<not> b2_candidate r \<and> market_cap_ok (Some r))"
proof (rule conjI)
  show "\<exists>r. \<not> b1_candidate r \<and> \<not> b2_candidate r \<and> market_cap_ok (Some r)"
    using no_values_facts by blast
qed (use quick_screen_dropped [OF assms] b1_result_cap in
    \<open>fastforce simp: market_cap_ok_def b1_candidate_def rt_value_def Let_def\<close>)

section \<open>From the tags of a report to the history\<close>

lemma inject_member:
  assumes "s \<in> set (inject_watchlist cs xs)"
  shows "(\<exists>t \<in> set xs. sf_code s = sf_code t \<and> set (sf_tags s) \<subseteq> insert TagWatch (set (sf_tags t)))
    \<or> set (sf_tags s) \<subseteq> {TagWatch}"
proof -
  have "s \<in># mset (inject_watchlist cs xs)" using assms by simp
  then consider t where "t \<in> set xs" "s = with_watch (set cs) t" | c where "s = watch_stock c"
    unfolding mset_inject by auto
  then show ?thesis
  proof cases
    case 1
    then show ?thesis by (intro disjI1 bexI [of _ t]) (auto simp: with_watch_def)
  qed (simp add: watch_stock_def)
qed

lemma merged_tags:
  assumes "merge_results b1 b2 = Inr xs" "t \<in> set xs"
  shows "sf_tags t = earned_tags b1 b2 (sf_code t)"
proof -
  have "t \<in> set (map snd (merged_dict b1 b2))" using merge_results_Inr [OF assms(1)] assms(2) by simp
  from merged_value [OF this] merged_dict_tags [of b1 b2 "sf_code t"] show ?thesis
    by (auto split: if_splits)
qed

lemma b2_tags_members: "TagB1 \<notin> set (b2_tags r)" "TagB2Strict \<in> set (b2_tags r) \<longleftrightarrow> strict r"
  "TagB2Loose \<in> set (b2_tags r) \<longleftrightarrow> loose r"
  by (auto simp: b2_tags_def)

lemma earned_members:
  "TagB1 \<in> set (earned_tags b1 b2 c) \<Longrightarrow> \<exists>r \<in> set b1. b1_passes r \<and> b1_code r = c"
  "TagB2Strict \<in> set (earned_tags b1 b2 c) \<Longrightarrow> \<exists>r \<in> set b2. b2_passes r \<and> b2_code r = c \<and> strict r"
  "TagB2Loose \<in> set (earned_tags b1 b2 c) \<Longrightarrow> \<exists>r \<in> set b2. b2_passes r \<and> b2_code r = c \<and> loose r"
  by (auto simp: earned_tags_def b2_tags_members split: if_splits)

text \<open>The tags of a stock in the result of the filter runner.\<close>

lemma execute_tags:
  assumes "execute env debug = Inr fr" "fe_b1 env debug = Inr b1" "fe_b2 env (b2_pool b1) = Inr b2"
    "s \<in> set (fr_stocks fr)" "g \<in> set (sf_tags s)" "g \<noteq> TagWatch"
  shows "g \<in> set (earned_tags b1 b2 (sf_code s))"
proof -
  obtain xs where xs: "merge_results b1 b2 = Inr xs"
    and fr: "fr_stocks fr = inject_watchlist (load_watchlist (fe_watch env)) xs"
    using assms(1-3) by (auto simp: execute_def split: option.splits sum.splits)
  from inject_member [of s] assms(4-6) obtain t where "t \<in> set xs" "sf_code s = sf_code t" "g \<in> set (sf_tags t)"
    unfolding fr by blast
  then show ?thesis using merged_tags [OF xs] by simp
qed

lemma fetch_rows_source:
  "fetch_rows answer n i = Inr rows \<Longrightarrow> rows \<noteq> [] \<Longrightarrow> \<exists>k < i + n. answer k = Inr rows"
proof (induction answer n i rule: fetch_rows.induct)
  case (2 answer n i)
  then obtain xs where a: "answer i = Inr xs" by (cases "answer i") auto
  show ?case
  proof (cases "xs = []")
    case True
    then have "fetch_rows answer n (i + 1) = Inr rows" using "2.prems"(1) a by simp
    from "2.IH" [OF a _ this "2.prems"(2)] True show ?thesis by simp
  next
    case False
    with a "2.prems"(1) have "answer i = Inr rows" by simp
    then show ?thesis by (intro exI [of _ i]) simp
  qed
qed simp

text \<open>The daily rows, the weekly rows and the realtime data of one code pass the eleven conditions.\<close>

definition passes_b1 :: "source \<Rightarrow> string \<Rightarrow> bool" where
  "passes_b1 so c \<longleftrightarrow> (\<exists>k rows weeks rt v. k < max_retries \<and> so_daily so c k = Inr rows \<and> rows \<noteq> []
    \<and> so_weekly so c = Inr weeks \<and> so_realtime so c = Inr rt
    \<and> b1_strategy_filter rows weeks rt = Inr (Some v) \<and> bv_result v)"

definition true_cache :: "source \<Rightarrow> (string, realtime) dict \<Rightarrow> bool" where
  "true_cache so cache \<longleftrightarrow> (\<forall>c r. dget cache c = Some r \<longrightarrow> so_realtime so c = Inr (Some r))"

text \<open>The realtime data remembered by the quick exclusion are those of the code they are stored under.\<close>

lemma quick_screen_cache:
  "quick_screen ask xs = Inr (kept, cache) \<Longrightarrow> dget cache c = Some r \<Longrightarrow> ask c = Inr (Some r)"
proof (induction xs arbitrary: kept cache)
  case (Cons st sts)
  then show ?case by (auto simp: dget_dset split: sum.splits option.splits if_splits)
qed simp

lemma screened_cache: "screened so a f = Inr (xs, cache) \<Longrightarrow> true_cache so cache"
  by (auto simp: screened_def true_cache_def intro: quick_screen_cache split: sum.splits if_splits)

lemma realtime_of_true:
  "true_cache so cache \<Longrightarrow> realtime_of so False cache c = Inr rt \<Longrightarrow> so_realtime so c = Inr rt"
  by (cases "dget cache c") (fastforce simp: realtime_of_def true_cache_def)+

lemma process_passes:
  assumes "process_stock so StrategyB1 False cache False st = Inr (r, m)" "b1_passes r" "true_cache so cache"
  shows "passes_b1 so (b1_code r)"
proof -
  have ok: "b1_result r = Some True" using assms(2)
    by (cases "b1_result r") (auto simp: b1_passes_def)
  then obtain c rows where c: "rs_code st = Some c" "fetch_rows (so_daily so c) max_retries 0 = Inr rows"
    "rows \<noteq> []" and a: "answer_of so StrategyB1 False cache st c rows = Inr r"
    using assms(1) by (auto simp: process_stock_def split: option.splits sum.splits if_splits)
  have "b1_code r = c" using answer_of_stock [OF a] c(1) by (simp add: b1_code_def)
  moreover obtain k where "k < max_retries" "so_daily so c k = Inr rows"
    using fetch_rows_source [OF c(2,3)] by auto
  moreover obtain weeks rt v where "so_weekly so c = Inr weeks" "realtime_of so False cache c = Inr rt"
    "b1_strategy_filter rows weeks rt = Inr (Some v)" "bv_result v"
    using answer_of_passes [OF a ok] by (auto simp: weekly_rows_def)
  ultimately show ?thesis using c(3) realtime_of_true [OF assms(3)] unfolding passes_b1_def by blast
qed

lemma run_filter_member:
  assumes "keeps_all order" "run_filter so order now a f0 = (Inr rs, f1)" "r \<in> set rs"
  shows "\<exists>cache st m. true_cache so cache
    \<and> process_stock so (ra_strategy a) (ra_mock a) cache False st = Inr (r, m)"
proof -
  obtain xs cache cs fs where c: "screened so a (if ra_retry a then f0 else clear_failed_stocks f0) = Inr (xs, cache)"
    and d: "rs = order_results (ra_strategy a)
      (map fst (run_batch so a cache order cs @ run_batch so a cache order fs))"
    using run_filterE [OF assms(2)] by metis
  have "r \<in># mset rs" using assms(3) by simp
  then have "r \<in> fst ` set (run_batch so a cache order cs) \<union> fst ` set (run_batch so a cache order fs)"
    unfolding d order_results_mset by auto
  moreover have "set (order xs) = set xs" for xs using assms(1) by (metis keeps_all_def set_mset_mset)
  ultimately have "\<exists>st m. process_stock so (ra_strategy a) (ra_mock a) cache False st = Inr (r, m)"
    by (force simp: run_batch_def List.map_filter_def split: sum.splits)
  then show ?thesis using screened_cache [OF c] by blast
qed

lemma process_b2_passes:
  assumes "r = process_stock_b2 hist st" "b2_passes r"
  shows "\<exists>rows v. hist (b2_code r) = Inr rows \<and> b2_filter rows = Some v
    \<and> strict r = bw_strict v \<and> loose r = bw_loose v"
  using assms by (auto simp: process_stock_b2_def b2_error_item_def b2_passes_def strict_def loose_def
    b2_code_def split: option.splits sum.splits if_splits)

text \<open>
  C2: The whole screening, from the market data to the reported tags: in a run of the filter
  runner on the two screenings, a stock tagged B1 passes the eleven conditions on the daily rows,
  the weekly rows and the realtime data that the source answers for the code of this stock, and
  a stock tagged strict or loose has a history, the one read for its code, on which that B2
  filter passes. The watch list, the realtime data remembered by the quick exclusion and the
  merge never give such a tag to another stock.
\<close>

theorem reported_tags_sound:
  assumes "keeps_all order" "keeps_all order2" "ra_strategy a = StrategyB1" "\<not> ra_mock a"
    "run_filter so order now a f0 = (Inr b1, f1)" "fe_b1 env debug = Inr b1"
    "fe_b2 env (b2_pool b1) = run_b2_filter src hist order2 (Some (b2_pool b1))"
    "execute env debug = Inr fr" "s \<in> set (fr_stocks fr)"
  shows "(TagB1 \<in> set (sf_tags s) \<longrightarrow> (\<exists>k rows weeks rt v. k < max_retries
        \<and> so_daily so (sf_code s) k = Inr rows \<and> rows \<noteq> []
        \<and> so_weekly so (sf_code s) = Inr weeks \<and> so_realtime so (sf_code s) = Inr rt
        \<and> b1_strategy_filter rows weeks rt = Inr (Some v) \<and> bv_result v))
    \<and> (TagB2Strict \<in> set (sf_tags s) \<longrightarrow>
        (\<exists>rows v. hist (sf_code s) = Inr rows \<and> b2_filter rows = Some v \<and> bw_strict v))
    \<and> (TagB2Loose \<in> set (sf_tags s) \<longrightarrow>
        (\<exists>rows v. hist (sf_code s) = Inr rows \<and> b2_filter rows = Some v \<and> bw_loose v))"
proof -
  define b2 where "b2 = order2 (map (process_stock_b2 hist) (b2_pool b1))"
  have e2: "fe_b2 env (b2_pool b1) = Inr b2" using assms(7) by (simp add: b2_def run_b2_filter_def)
  have set2: "set b2 = process_stock_b2 hist ` set (b2_pool b1)"
    unfolding b2_def using assms(2) by (metis keeps_all_def set_mset_mset set_map)
  note tags = execute_tags [OF assms(8,6) e2 assms(9)]
  show ?thesis
  proof (intro conjI impI)
    assume "TagB1 \<in> set (sf_tags s)"
    from tags [OF this] obtain r where r: "r \<in> set b1" "b1_passes r" "b1_code r = sf_code s"
      using earned_members(1) by blast
    with run_filter_member [OF assms(1,5) r(1)] assms(3,4) process_passes have "passes_b1 so (sf_code s)"
      by fastforce
    then show "\<exists>k rows weeks rt v. k < max_retries \<and> so_daily so (sf_code s) k = Inr rows \<and> rows \<noteq> []
        \<and> so_weekly so (sf_code s) = Inr weeks \<and> so_realtime so (sf_code s) = Inr rt
        \<and> b1_strategy_filter rows weeks rt = Inr (Some v) \<and> bv_result v" unfolding passes_b1_def .
  next
    assume "TagB2Strict \<in> set (sf_tags s)"
    from tags [OF this] obtain r where "r \<in> set b2" "b2_passes r" "b2_code r = sf_code s" "strict r"
      using earned_members(2) by blast
    then show "\<exists>rows v. hist (sf_code s) = Inr rows \<and> b2_filter rows = Some v \<and> bw_strict v"
      using process_b2_passes [of r hist] set2 by force
  next
    assume "TagB2Loose \<in> set (sf_tags s)"
    from tags [OF this] obtain r where "r \<in> set b2" "b2_passes r" "b2_code r = sf_code s" "loose r"
      using earned_members(3) by blast
    then show "\<exists>rows v. hist (sf_code s) = Inr rows \<and> b2_filter rows = Some v \<and> bw_loose v"
      using process_b2_passes [of r hist] set2 by force
  qed
qed
end
