(* ===== verification/ScreeningExample.thy ===== *)
theory ScreeningExample
  imports StockFilterProofs
begin

text \<open>
  A concrete screening. A history of 120 rows that the strict B2 filter picks and the loose one
  does not, 118 equal days and two rising ones, whose values are computed through lemmas on
  constant prefixes; and a run of both screenings and of the filter runner on a market of one
  stock with this history. The run instantiates the theorems about the screening.
\<close>

definition row :: "rat \<Rightarrow> rat \<Rightarrow> rat \<Rightarrow> rat \<Rightarrow> rat \<Rightarrow> candle" where
  "row c h l op v = \<lparr>cd_c = c, cd_h = h, cd_l = l, cd_o = op, cd_v = v, cd_pc = None, cd_a = None\<rparr>"

definition ex_rows :: "candle list" where
  "ex_rows = replicate 118 (row 40 70 38 40 100) @ [row 41 41 40 40 100, row 43 43 41 41 200]"

section \<open>Constant prefixes\<close>

lemma sma_from_replicate:
  "sma_step n m a a = a \<Longrightarrow> sma_from n m a (replicate k a @ ys) = replicate k a @ sma_from n m a ys"
  by (induction k) simp_all

lemma ema_from_replicate:
  "fadd (fmul (fsub a a) m) a = a \<Longrightarrow> ema_from m a (replicate k a @ ys) = replicate k a @ ema_from m a ys"
  by (induction k) simp_all

lemma py_sum_of_nat: "sum_list ns \<le> 2 ^ 53 \<Longrightarrow> py_sum (map of_nat ns) = of_nat (sum_list ns)"
proof -
  have "foldl fadd (of_nat m) (map of_nat ns) = of_nat (m + sum_list ns)" if "m + sum_list ns \<le> 2 ^ 53" for m
    using that
  proof (induction ns arbitrary: m)
    case (Cons n ns)
    have "m + n \<le> 2 ^ 53" using Cons.prems by (simp only: sum_list.Cons)
    then have "int (m + n) \<le> int (2 ^ 53)" by (simp only: of_nat_le_iff)
    then have "\<bar>int (m + n)\<bar> \<le> 2 ^ 53" by (simp only: of_nat_power abs_of_nat of_nat_numeral)
    then have "fl (of_int (int (m + n))) = of_int (int (m + n))" by (rule fl_of_int)
    then have f: "fadd (of_nat m) (of_nat n) = of_nat (m + n)" by (simp add: fadd_def)
    have "(m + n) + sum_list ns \<le> 2 ^ 53" using Cons.prems by (simp only: sum_list.Cons add.assoc)
    from Cons.IH [OF this] f show ?case by (simp only: list.map foldl_Cons sum_list.Cons add.assoc)
  qed (simp only: list.map foldl_Nil sum_list.Nil add_0_right)
  from this [of 0] show "sum_list ns \<le> 2 ^ 53 \<Longrightarrow> ?thesis" by (simp only: py_sum_def of_nat_0 add_0)
qed


lemma pm_replicate: "0 < k \<Longrightarrow> pmax (replicate k a) = a" "0 < k \<Longrightarrow> pmin (replicate k a) = a"
proof -
  have "fold max (replicate j a) a = a" "fold min (replicate j a) a = a" for j by (induction j) simp_all
  then show "0 < k \<Longrightarrow> pmax (replicate k a) = a" "0 < k \<Longrightarrow> pmin (replicate k a) = a"
    by (cases k; simp add: pmax_def pmin_def)+
qed

lemma window_replicate: "j \<le> k \<Longrightarrow> window i j (replicate k a @ ys) = replicate (j - i) a"
  by (simp add: window_def min_def)

section \<open>The KDJ values\<close>

definition ex_rsv :: "rat list" where
  "ex_rsv = replicate 118 (25 / 4) @ [75 / 8, 125 / 8]"

lemma ex_prices: "map cd_c ex_rows = replicate 118 40 @ [41, 43]" "map cd_h ex_rows = replicate 118 70 @ [41, 43]"
  "map cd_l ex_rows = replicate 118 38 @ [40, 41]" "length ex_rows = 120"
  by (simp_all add: ex_rows_def row_def)

lemma ex_rsv_ends: "rsv_of 40 70 38 = 25 / 4"
  "rsv_of 41 (pmax (window 110 119 (replicate 118 70 @ [41, 43]))) (pmin (window 110 119 (replicate 118 38 @ [40, 41]))) = 75 / 8"
  "rsv_of 43 (pmax (window 111 120 (replicate 118 70 @ [41, 43]))) (pmin (window 111 120 (replicate 118 38 @ [40, 41]))) = 125 / 8"
  by code_simp+

lemma ex_rsv_series: "rsv_series 9 (map cd_c ex_rows) (map cd_h ex_rows) (map cd_l ex_rows) = ex_rsv"
proof (rule nth_equalityI)
  fix i assume "i < length (rsv_series 9 (map cd_c ex_rows) (map cd_h ex_rows) (map cd_l ex_rows))"
  then consider "i < 118" | "i = 118" | "i = 119" by (simp add: rsv_series_def ex_prices) linarith
  then show "rsv_series 9 (map cd_c ex_rows) (map cd_h ex_rows) (map cd_l ex_rows) ! i = ex_rsv ! i"
  proof cases
    case 1
    then show ?thesis using ex_rsv_ends(1)
      by (simp add: rsv_series_def ex_prices ex_rsv_def nth_append window_replicate pm_replicate Let_def del: replicate_Suc)
  qed (use ex_rsv_ends in \<open>simp_all add: rsv_series_def ex_prices ex_rsv_def nth_append Let_def\<close>)
qed (simp add: rsv_series_def ex_prices ex_rsv_def)

definition k1 :: rat where "k1 = sma_step 3 1 (75 / 8) (25 / 4)"
definition k2 :: rat where "k2 = sma_step 3 1 (125 / 8) k1"
definition d1 :: rat where "d1 = sma_step 3 1 k1 (25 / 4)"
definition d2 :: rat where "d2 = sma_step 3 1 k2 d1"

lemma ex_sma: "calculate_sma (replicate 118 (25 / 4) @ [a, b]) 3 1
    = replicate 118 (25 / 4) @ [sma_step 3 1 a (25 / 4), sma_step 3 1 b (sma_step 3 1 a (25 / 4))]"
proof -
  have s: "sma_step 3 1 (25 / 4) (25 / 4) = 25 / 4" by code_simp
  have n: "118 = Suc 117" by simp
  have r: "replicate 118 (25 / 4 :: rat) = (25 / 4) # replicate 117 (25 / 4)"
    unfolding n by (rule replicate_Suc)
  have t: "replicate 117 (25 / 4 :: rat) @ [25 / 4] = replicate 118 (25 / 4)"
    unfolding r by (rule replicate_append_same)
  have "calculate_sma (replicate 118 (25 / 4) @ [a, b]) 3 1
      = sma_from 3 1 (25 / 4) (replicate 117 (25 / 4) @ [a, b])"
    unfolding r by (simp only: calculate_sma_def append_Cons list.case)
  also have "\<dots> = (replicate 117 (25 / 4) @ [25 / 4])
      @ [sma_step 3 1 a (25 / 4), sma_step 3 1 b (sma_step 3 1 a (25 / 4))]"
    by (simp only: sma_from_replicate [OF s] sma_from.simps append_assoc append_Cons append_Nil)
  finally show ?thesis unfolding t .
qed

lemma ex_kdj: "calculate_kdj_series (map cd_c ex_rows) (map cd_h ex_rows) (map cd_l ex_rows) b1_n
    = (replicate 118 (25 / 4) @ [k1, k2], replicate 118 (25 / 4) @ [d1, d2],
       map2 j_of (replicate 118 (25 / 4) @ [k1, k2]) (replicate 118 (25 / 4) @ [d1, d2]))"
  by (simp only: calculate_kdj_series_def b1_n_def ex_rsv_series ex_rsv_def ex_sma Let_def
      k1_def [symmetric] k2_def [symmetric] d1_def [symmetric] d2_def [symmetric])

lemma from_end_two [simp]: "from_end (xs @ [a, b]) (Suc 0) = b" "from_end (xs @ [a, b]) 2 = a"
  by (simp_all add: from_end_def nth_append)

lemma ex_js: "length xs = length ys \<Longrightarrow> map2 f (xs @ [a, b]) (ys @ [c, d]) = map2 f xs ys @ [f a c, f b d]"
  by simp

lemma sma_between:
  assumes "of_int a \<le> v" "v \<le> of_int b" "of_int c \<le> p" "p \<le> of_int d" "0 \<le> a" "0 \<le> c"
    "3 * e \<le> a + 2 * c" "b + 2 * d \<le> 3 * f" "0 \<le> e" "b < 1000" "d < 1000" "f < 1000"
  shows "of_int e \<le> sma_step 3 1 v p \<and> sma_step 3 1 v p \<le> of_int f"
proof -
  have i: "a \<le> b" "c \<le> d" using assms(1-4) by (metis of_int_le_iff order_trans)+
  have v: "of_int a \<le> fmul 1 v" "fmul 1 v \<le> of_int b"
    using fl_between [of a "1 * v" b] assms i by (simp_all add: fmul_def)
  have p: "of_int (2 * c) \<le> fmul 2 p" "fmul 2 p \<le> of_int (2 * d)"
    using fl_between [of "2 * c" "2 * p" "2 * d"] assms i by (simp_all add: fmul_def)
  have s: "of_int (3 * e) \<le> fadd (fmul 1 v) (fmul 2 p)" "fadd (fmul 1 v) (fmul 2 p) \<le> of_int (3 * f)"
  proof -
    have "of_int (a + 2 * c) \<le> fadd (fmul 1 v) (fmul 2 p)" "fadd (fmul 1 v) (fmul 2 p) \<le> of_int (b + 2 * d)"
      using fl_between [of "a + 2 * c" "fmul 1 v + fmul 2 p" "b + 2 * d"] v p assms i by (simp_all add: fadd_def)
    then show "of_int (3 * e) \<le> fadd (fmul 1 v) (fmul 2 p)" "fadd (fmul 1 v) (fmul 2 p) \<le> of_int (3 * f)"
      using assms(7,8) by (meson of_int_le_iff order_trans)+
  qed
  then have "of_int e \<le> fadd (fmul 1 v) (fmul 2 p) / 3" "fadd (fmul 1 v) (fmul 2 p) / 3 \<le> of_int f"
    by simp_all
  moreover have "e \<le> f" using assms(7,8) i by linarith
  ultimately show ?thesis
    using fl_between [of e "fadd (fmul 1 v) (fmul 2 p) / 3" f] assms by (simp add: sma_step_def fdiv_def)
qed

lemma ex_j_bounds: "0 \<le> j_of k1 d1" "j_of k1 d1 < 13" "j_of k2 d2 < 55"
proof -
  have k1: "7 \<le> k1" "k1 \<le> 8" using sma_between [of 9 "75 / 8" 10 6 "25 / 4" 7 7 8] by (simp_all add: k1_def)
  have d1: "6 \<le> d1" "d1 \<le> 8" using sma_between [of 7 k1 8 6 "25 / 4" 7 6 8] k1 by (simp_all add: d1_def)
  have k2: "9 \<le> k2" "k2 \<le> 11" using sma_between [of 15 "125 / 8" 16 7 k1 8 9 11] k1 by (simp_all add: k2_def)
  have d2: "7 \<le> d2" "d2 \<le> 9" using sma_between [of 9 k2 11 6 d1 8 7 9] k2 d1 by (simp_all add: d2_def)
  have f: "of_int (3 * a - 2 * d) \<le> j_of k x \<and> j_of k x \<le> of_int (3 * b - 2 * c)"
    if "of_int a \<le> k" "k \<le> of_int b" "of_int c \<le> x" "x \<le> of_int d" "\<bar>a\<bar> < 1000" "\<bar>b\<bar> < 1000" "\<bar>c\<bar> < 1000" "\<bar>d\<bar> < 1000"
    for a b c d k x
  proof -
    have "of_int (3 * a) \<le> fmul 3 k" "fmul 3 k \<le> of_int (3 * b)"
      using fl_between [of "3 * a" "3 * k" "3 * b"] that by (simp_all add: fmul_def)
    moreover have "of_int (2 * c) \<le> fmul 2 x" "fmul 2 x \<le> of_int (2 * d)"
      using fl_between [of "2 * c" "2 * x" "2 * d"] that by (simp_all add: fmul_def)
    ultimately have "of_int (3 * a - 2 * d) \<le> fmul 3 k - fmul 2 x" "fmul 3 k - fmul 2 x \<le> of_int (3 * b - 2 * c)"
      unfolding of_int_diff by linarith+
    then show ?thesis
      using fl_between [of "3 * a - 2 * d" "fmul 3 k - fmul 2 x" "3 * b - 2 * c"] that
      by (simp add: j_of_def fsub_def)
  qed
  show "0 \<le> j_of k1 d1" "j_of k1 d1 < 13" using f [of 7 k1 8 6 d1 8] k1 d1 by simp_all
  show "j_of k2 d2 < 55" using f [of 9 k2 11 7 d2 9] k2 d2 by simp
qed

section \<open>The lines\<close>

lemma ex_last_rows: "from_end ex_rows 1 = row 43 43 41 41 200" "from_end ex_rows 2 = row 41 41 40 40 100"
  by (simp_all add: ex_rows_def)

lemma last_ma:
  assumes "0 < n" "n \<le> length ps" "calculate_ma ps n = Some ys"
  shows "last ys = fdiv (py_sum (last_n n ps)) (of_nat n)"
proof -
  let ?f = "\<lambda>i. fdiv (py_sum (window i (i + n) ps)) (of_nat n)"
  have "ys = map ?f [0..<length ps - n + 1]" using assms by (simp add: calculate_ma_def split: if_splits)
  then have "last ys = ?f (length ps - n)" by simp
  moreover have "window (length ps - n) (length ps - n + n) ps = last_n n ps"
    using assms(2) by (simp add: window_def last_n_def)
  ultimately show ?thesis by simp
qed

lemma ex_ma:
  assumes "2 \<le> n" "n \<le> 120"
  shows "map_option last (calculate_ma (replicate 118 40 @ [41, 43]) n) = Some (fdiv (of_nat (40 * (n - 2) + 84)) (of_nat n))"
proof -
  let ?ps = "replicate 118 40 @ [41, 43 :: rat]" and ?ns = "replicate (n - 2) 40 @ [41, 43 :: nat]"
  have "last_n n ?ps = map of_nat ?ns" using assms
    by (simp add: last_n_def)
  moreover have "sum_list ?ns = 40 * (n - 2) + 84" by (simp add: sum_list_replicate)
  moreover have "40 * (n - 2) + 84 \<le> (2 :: nat) ^ 53" using assms by simp
  ultimately have "py_sum (last_n n ?ps) = of_nat (40 * (n - 2) + 84)"
    using py_sum_of_nat [of ?ns] by (simp only:)
  moreover obtain ys where "calculate_ma ?ps n = Some ys" using assms by (simp add: calculate_ma_def)
  ultimately show ?thesis using last_ma [of n ?ps ys] assms by simp
qed

lemma fl_near: "\<bar>x\<bar> < 1024 \<Longrightarrow> x - 1 / 1000 \<le> fl x \<and> fl x \<le> x + 1 / 1000"
proof -
  assume x: "\<bar>x\<bar> < 1024"
  then have "\<bar>fl x - x\<bar> \<le> (1 / 2) ^ 44" using fl_error_bound [of x 10] by (simp add: power_int_def)
  moreover have "(1 / 2 :: rat) ^ 44 \<le> 1 / 1000" by code_simp
  ultimately show ?thesis by linarith
qed

lemma ex_yellow: "\<exists>y. zxdkx_of (replicate 118 40 @ [41, 43]) = Some y \<and> 0 < y \<and> y < 4014 / 100"
proof -
  let ?ps = "replicate 118 40 @ [41, 43 :: rat]"
  have m: "map_option last (calculate_ma ?ps 14) = Some (fl (564 / 14))"
    "map_option last (calculate_ma ?ps 28) = Some (fl (1124 / 28))"
    "map_option last (calculate_ma ?ps 57) = Some (fl (2284 / 57))"
    "map_option last (calculate_ma ?ps 114) = Some (fl (4564 / 114))"
    using ex_ma [of 14] ex_ma [of 28] ex_ma [of 57] ex_ma [of 114] by (simp_all add: fdiv_def)
  let ?a = "fl (564 / 14)" and ?b = "fl (1124 / 28)" and ?c = "fl (2284 / 57)" and ?d = "fl (4564 / 114)"
  have a: "40 \<le> ?a" "?a < 40288 / 1000" "40 \<le> ?b" "?b < 40144 / 1000" "40 \<le> ?c" "?c < 40072 / 1000"
    "40 \<le> ?d" "?d < 40037 / 1000"
    using fl_near [of "564 / 14"] fl_near [of "1124 / 28"] fl_near [of "2284 / 57"] fl_near [of "4564 / 114"]
    by simp_all
  have s1: "79 \<le> fadd ?a ?b" "fadd ?a ?b < 80433 / 1000"
    using a fl_near [of "?a + ?b"] by (simp_all add: fadd_def)
  have s2: "118 \<le> fadd (fadd ?a ?b) ?c" "fadd (fadd ?a ?b) ?c < 120506 / 1000"
    using a s1 fl_near [of "fadd ?a ?b + ?c"] by (simp_all add: fadd_def)
  have s3: "157 \<le> fadd (fadd (fadd ?a ?b) ?c) ?d" "fadd (fadd (fadd ?a ?b) ?c) ?d < 160544 / 1000"
    using a s2 fl_near [of "fadd (fadd ?a ?b) ?c + ?d"] by (simp_all add: fadd_def)
  then have "0 < fdiv (fadd (fadd (fadd ?a ?b) ?c) ?d) 4" "fdiv (fadd (fadd (fadd ?a ?b) ?c) ?d) 4 < 4014 / 100"
    using fl_near [of "fadd (fadd (fadd ?a ?b) ?c) ?d / 4"] by (simp_all add: fdiv_def)
  moreover have "zxdkx_of ?ps = Some (fdiv (fadd (fadd (fadd ?a ?b) ?c) ?d) 4)"
    using m by (auto simp: zxdkx_of_def b1_m1_def b1_m2_def b1_m3_def b1_m4_def)
  ultimately show ?thesis by blast
qed

lemma calm_step: "fadd (fmul (fsub 40 40) m) 40 = 40"
  by (simp add: fadd_def fmul_def fsub_def)

lemma calm_ema:
  assumes "10 \<le> k"
  shows "calculate_ema (replicate k 40 @ ys) 10 = Some (replicate (k - 10) 40 @ ema_from (fdiv 2 11) 40 ys)"
proof -
  have "py_sum (map of_nat (replicate 10 40)) = of_nat 400"
    by (subst py_sum_of_nat) (simp_all only: sum_list_replicate, simp_all)
  then have e: "fdiv (py_sum (replicate 10 40)) (of_nat 10) = 40"
    by (simp only: map_replicate of_nat_numeral) (simp add: fdiv_def)
  have t: "take 10 (replicate k 40 @ ys) = replicate 10 (40 :: rat)"
    "drop 10 (replicate k 40 @ ys) = replicate (k - 10) 40 @ ys" using assms by (simp_all add: min_def)
  have "\<not> length (replicate k 40 @ ys) < 10" using assms by simp
  then show ?thesis
    by (simp only: calculate_ema_def t e ema_from_replicate [OF calm_step] if_False) simp
qed

lemma ex_white: "\<exists>w. zxdq_of (replicate 118 40 @ [41, 43]) = Some w \<and> 4014 / 100 < w"
proof -
  let ?m = "fdiv 2 11"
  let ?e1 = "fadd (fmul (fsub 41 40) ?m) 40"
  let ?e2 = "fadd (fmul (fsub 43 ?e1) ?m) ?e1"
  let ?f1 = "fadd (fmul (fsub ?e1 40) ?m) 40"
  let ?f2 = "fadd (fmul (fsub ?e2 ?f1) ?m) ?f1"
  have m: "180 / 1000 \<le> ?m" "?m \<le> 183 / 1000" using fl_near [of "2 / 11"] by (simp_all add: fdiv_def)
  have step: "lo * (180 / 1000) - 2 / 1000 + p \<le> fadd (fmul (fsub x p) ?m) p
      \<and> fadd (fmul (fsub x p) ?m) p \<le> hi * (183 / 1000) + 2 / 1000 + p"
    if "lo \<le> fsub x p" "fsub x p \<le> hi" "0 \<le> lo" "hi < 100" "0 \<le> p" "p < 100" for lo hi x p
  proof -
    have "lo * (180 / 1000) \<le> fsub x p * ?m" "fsub x p * ?m \<le> hi * (183 / 1000)"
      using that m by (intro mult_mono; simp)+
    then have "lo * (180 / 1000) - 1 / 1000 \<le> fmul (fsub x p) ?m" "fmul (fsub x p) ?m \<le> hi * (183 / 1000) + 1 / 1000"
      using fl_near [of "fsub x p * ?m"] that by (simp_all add: fmul_def)
    moreover from this have "\<bar>fmul (fsub x p) ?m + p\<bar> < 1024" using that by linarith
    ultimately show ?thesis using fl_near [of "fmul (fsub x p) ?m + p"] unfolding fadd_def by linarith
  qed
  have e1: "40178 / 1000 \<le> ?e1" "?e1 \<le> 40186 / 1000"
    using step [of 1 41 40 1] by (simp_all add: fsub_def)
  have "fsub 43 ?e1 \<ge> 2812 / 1000" "fsub 43 ?e1 \<le> 2824 / 1000"
    using fl_near [of "43 - ?e1"] e1 by (simp_all add: fsub_def)
  then have e2: "40678 / 1000 \<le> ?e2" "?e2 \<le> 40710 / 1000"
    using step [of "2812 / 1000" 43 ?e1 "2824 / 1000"] e1 by simp_all
  have "177 / 1000 \<le> fsub ?e1 40" "fsub ?e1 40 \<le> 188 / 1000"
    using fl_near [of "?e1 - 40"] e1 by (simp_all add: fsub_def)
  then have f1: "40028 / 1000 \<le> ?f1" "?f1 \<le> 40038 / 1000"
    using step [of "177 / 1000" ?e1 40 "188 / 1000"] by simp_all
  have "638 / 1000 \<le> fsub ?e2 ?f1" "fsub ?e2 ?f1 \<le> 690 / 1000"
    using fl_near [of "?e2 - ?f1"] e2 f1 by (simp_all add: fsub_def)
  then have "40140 / 1000 < ?f2"
    using step [of "638 / 1000" ?e2 ?f1 "690 / 1000"] f1 by simp
  moreover have "zxdq_of (replicate 118 40 @ [41, 43]) = Some ?f2"
    by (simp add: zxdq_of_def ema_period_def calm_ema calm_step)
  ultimately show ?thesis by auto
qed

section \<open>The filter\<close>

lemma row_simps [simp]: "cd_c (row c h l op v) = c" "cd_h (row c h l op v) = h"
  "cd_l (row c h l op v) = l" "cd_o (row c h l op v) = op" "cd_v (row c h l op v) = v"
  by (simp_all add: row_def)

lemma ex_change: "change_threshold < fmul (fsub (fdiv 43 41) 1) 100" "0 < upper_shadow_ratio_max"
proof -
  have q: "1047 / 1000 \<le> fdiv 43 41" "fdiv 43 41 \<le> 1050 / 1000"
    using fl_near [of "43 / 41"] by (simp_all add: fdiv_def)
  then have r: "46 / 1000 \<le> fsub (fdiv 43 41) 1" "fsub (fdiv 43 41) 1 \<le> 51 / 1000"
    using fl_near [of "fdiv 43 41 - 1"] by (simp_all add: fsub_def)
  then have "459 / 100 \<le> fmul (fsub (fdiv 43 41) 1) 100"
    using fl_near [of "fsub (fdiv 43 41) 1 * 100"] by (simp add: fmul_def)
  then show "change_threshold < fmul (fsub (fdiv 43 41) 1) 100"
    using fl_near [of "395 / 100"] by (simp add: change_threshold_def)
  show "0 < upper_shadow_ratio_max"
    using fl_near [of "2 / 10"] by (simp add: upper_shadow_ratio_max_def)
qed

lemma ex_values: "\<exists>v w y. b2_values_of ex_rows = v \<and> b2_j v = j_of k2 d2 \<and> b2_j_last v = j_of k1 d1
    \<and> b2_change v = fmul (fsub (fdiv 43 41) 1) 100 \<and> b2_volume_up v \<and> b2_yang v \<and> b2_shadow v = 0
    \<and> b2_zxdq v = Some w \<and> b2_zxdkx v = Some y \<and> y < w \<and> y < 43 \<and> b2_close v = 43"
proof -
  obtain w y where wy: "zxdq_of (replicate 118 40 @ [41, 43]) = Some w" "4014 / 100 < w"
    "zxdkx_of (replicate 118 40 @ [41, 43]) = Some y" "y < 4014 / 100"
    using ex_white ex_yellow by blast
  then have "y < w" "y < 43" by linarith+
  then show ?thesis unfolding b2_values_of_def Let_def ex_kdj prod.case ex_last_rows
    by (simp add: ex_js wy ex_prices(1) upper_shadow_ratio_def fsub_def fdiv_def)
qed

lemma ex_strict_not_loose: "\<exists>v. b2_filter ex_rows = Some v \<and> bw_strict v \<and> \<not> bw_loose v"
proof -
  obtain v w y where v: "b2_values_of ex_rows = v" "b2_j v = j_of k2 d2" "b2_j_last v = j_of k1 d1"
    "b2_change v = fmul (fsub (fdiv 43 41) 1) 100" "b2_volume_up v" "b2_yang v" "b2_shadow v = 0"
    "b2_zxdq v = Some w" "b2_zxdkx v = Some y" "y < w" "y < 43" "b2_close v = 43"
    using ex_values by blast
  have "list_all snd (strict_conditions v)" using v ex_j_bounds ex_change
    by (simp add: strict_conditions_def above_zxdkx_def zxdq_above_def j_strict_threshold_def j_max_threshold_def)
  moreover have "\<not> list_all snd (loose_conditions v)" using v ex_j_bounds
    by (simp add: loose_conditions_def j_loose_threshold_def)
  moreover have "\<not> length ex_rows < min_data_days" by (simp add: ex_prices(4) min_data_days_def b1_m4_def)
  ultimately show ?thesis by (simp add: b2_filter_def Let_def v(1))
qed

text \<open>The two readings of the thresholds on the example: its strict pick is not a loose one.\<close>

lemma b2_strict_loose_witness: "\<exists>v. b2_filter ex_rows = Some v \<and> bw_strict v
    \<and> bw_loose v = (b2_j_last (b2_values_of ex_rows) < 0) \<and> \<not> b2_j_last (b2_values_of ex_rows) < 0"
proof -
  obtain v where v: "b2_filter ex_rows = Some v" "bw_strict v" "\<not> bw_loose v"
    using ex_strict_not_loose by blast
  then show ?thesis using b2_strict_loose [OF v(1) refl] by blast
qed

section \<open>The B1 filter on the example\<close>

definition ex_rt :: realtime where
  "ex_rt = \<lparr>rt_lt = Some 1, rt_sz = Some 1, rt_p = None, rt_pc = Some 5\<rparr>"

lemma ex_rt_facts: "\<not> market_cap_ok (Some ex_rt)" "b2_candidate ex_rt"
  by code_simp+

lemma ex_closes: "last (map cd_c ex_rows) = 43" "from_end (map cd_c ex_rows) 4 = 40"
  "from_end (map cd_c ex_rows) 31 = 40"
  by (simp_all add: ex_prices(1) from_end_def nth_append)

lemma ex_slopes: "\<exists>v. b1_slopes_of ex_rows [] (Some ex_rt) = Inr v"
  by (simp add: b1_slopes_of_def turnover_violations_def rt_value_def ex_rt_def slope_opt_def slope_def
      weekly_slope_def change_30d_def ex_closes ex_prices(4) pdiv_def fmul_def Let_def)

lemma ex_lines: "\<exists>n. b1_lines_of ex_rows = Some n"
proof -
  have "length (rsv_values b1_n (map cd_c ex_rows) (map cd_h ex_rows) (map cd_l ex_rows)) = 112"
    by (simp add: rsv_values_windows b1_n_def ex_prices(4))
  then obtain k d j where "kdj_of ex_rows = Some (k, d, j)" unfolding kdj_of_def Let_def
    by (cases "calculate_kdj (rsv_values b1_n (map cd_c ex_rows) (map cd_h ex_rows) (map cd_l ex_rows))") simp
  moreover obtain w y where "zxdq_of (map cd_c ex_rows) = Some w" "zxdkx_of (map cd_c ex_rows) = Some y"
    using ex_white ex_yellow unfolding ex_prices(1) by blast
  moreover obtain m where "calculate_ma (map cd_c ex_rows) ma60_period = Some m"
    using ex_ma [of 60] unfolding ex_prices(1) ma60_period_def by auto
  ultimately show ?thesis by (simp add: b1_lines_of_def Let_def)
qed

lemma ex_b1: "\<exists>v. b1_strategy_filter ex_rows [] (Some ex_rt) = Inr (Some v) \<and> \<not> bv_result v"
proof -
  obtain n v where "b1_lines_of ex_rows = Some n" "b1_slopes_of ex_rows [] (Some ex_rt) = Inr v"
    using ex_lines ex_slopes by blast
  moreover have "\<not> length ex_rows < min_data_days" by (simp add: ex_prices(4) min_data_days_def b1_m4_def)
  ultimately have "b1_strategy_filter ex_rows [] (Some ex_rt)
      = Inr (Some (b1_value_of ex_rows [] (Some ex_rt) n v))" by (simp add: b1_strategy_filter_def)
  moreover from this have "\<not> bv_result (b1_value_of ex_rows [] (Some ex_rt) n v)"
    using b1_result_cap ex_rt_facts(1) by blast
  ultimately show ?thesis by blast
qed

section \<open>A run of the screenings\<close>

definition ex_share :: raw_stock where
  "ex_share = \<lparr>rs_code = Some ''600519'', rs_name = Some [35980], rs_exchange = Some ''sh''\<rparr>"

definition ex_source :: source where
  "ex_source = \<lparr>so_list = Inr [ex_share], so_daily = (\<lambda>_ _. Inr ex_rows), so_weekly = (\<lambda>_. Inr []),
     so_realtime = (\<lambda>_. Inr (Some ex_rt)), so_mock_list = [], so_mock_rows = (\<lambda>_. []),
     so_mock_weeks = (\<lambda>_. []), so_needs_fetch = (\<lambda>_. False), so_error_text = (\<lambda>_. [])\<rparr>"

definition ex_args :: run_args where
  "ex_args = \<lparr>ra_strategy = StrategyB1, ra_test = False, ra_mock = False, ra_retry = False, ra_debug = False\<rparr>"

lemma ex_args_simps [simp]: "ra_strategy ex_args = StrategyB1" "\<not> ra_test ex_args" "\<not> ra_mock ex_args"
  "\<not> ra_retry ex_args" "\<not> ra_debug ex_args"
  by (simp_all add: ex_args_def)

lemma ex_screened: "screened ex_source ex_args f = Inr ([ex_share], [(''600519'', ex_rt)])"
proof -
  have "pool_of [ex_share] = Inr [ex_share]" by code_simp
  then show ?thesis
    by (simp add: screened_def stock_list_def ex_source_def ex_rt_facts(2)) (simp add: ex_share_def)
qed

lemma ex_item: "\<exists>it. process_stock ex_source StrategyB1 False [(''600519'', ex_rt)] False ex_share = Inr (it, None)
    \<and> b1_stock it = Some ex_share \<and> b1_status it = Some ''success'' \<and> b1_result it = Some False"
proof -
  obtain v where v: "b1_strategy_filter ex_rows [] (Some ex_rt) = Inr (Some v)" "\<not> bv_result v"
    using ex_b1 by blast
  have "ex_rows \<noteq> []" by (simp add: ex_rows_def)
  then show ?thesis using v
    by (simp add: process_stock_def ex_share_def ex_source_def max_retries_def numeral_3_eq_3 answer_of_def
        b1_answer_def weekly_rows_def realtime_of_def item_of_def)
qed

lemma ex_run: "\<exists>it f. run_filter ex_source id (DateTime 1 0) ex_args (FailedList []) = (Inr [it], f)
    \<and> b1_stock it = Some ex_share \<and> b1_status it = Some ''success'' \<and> b1_result it = Some False"
proof -
  obtain it where it: "process_stock ex_source StrategyB1 False [(''600519'', ex_rt)] False ex_share = Inr (it, None)"
    "b1_stock it = Some ex_share" "b1_status it = Some ''success''" "b1_result it = Some False"
    using ex_item by blast
  have "split_local ex_source ex_args [ex_share] = ([ex_share], [])"
    by (simp add: split_local_def ex_source_def)
  then have "fst (run_filter ex_source id (DateTime 1 0) ex_args (FailedList [])) = Inr [it]"
    using it by (simp add: run_filter_def ex_screened run_batch_def List.map_filter_simps Let_def
        order_results_def b1_qualified_def)
  then show ?thesis using it(2-4) by (metis prod.collapse)
qed

lemma keeps_all_id: "keeps_all id"
  by (simp add: keeps_all_def)

lemma run_filter_results_witness:
  "\<exists>rs f. run_filter ex_source id (DateTime 1 0) ex_args (FailedList []) = (Inr rs, f)
    \<and> image_mset b1_stock (mset rs) = {#Some ex_share#}"
proof -
  obtain it f where it: "run_filter ex_source id (DateTime 1 0) ex_args (FailedList []) = (Inr [it], f)"
    using ex_run by blast
  with run_filter_results [OF keeps_all_id _ it ex_screened] show ?thesis by auto
qed

text \<open>A stock without market values is dropped, although B1 takes its market values as satisfied.\<close>

definition ex_ask :: "string \<Rightarrow> (ustr, realtime option) result" where
  "ex_ask c = Inr (Some (if c = ''600519'' then ex_rt else no_values))"

definition ex_unknown :: raw_stock where
  "ex_unknown = \<lparr>rs_code = Some ''000001'', rs_name = Some [24179], rs_exchange = Some ''sz''\<rparr>"

lemma quick_screen_sound_witness:
  "quick_screen ex_ask [ex_share, ex_unknown] = Inr ([ex_share], [(''000001'', no_values), (''600519'', ex_rt)])
    \<and> (\<exists>r. ex_ask ''000001'' = Inr (Some r) \<and> \<not> b1_candidate r \<and> \<not> b2_candidate r)"
proof -
  have codes: "the (rs_code ex_share) = ''600519''" "the (rs_code ex_unknown) = ''000001''"
    by (simp_all add: ex_share_def ex_unknown_def)
  have q: "quick_screen ex_ask [ex_share, ex_unknown] = Inr ([ex_share], [(''000001'', no_values), (''600519'', ex_rt)])"
    by (simp add: codes ex_ask_def no_values_facts ex_rt_facts(2))
  have "ex_unknown \<in> set [ex_share, ex_unknown]" "ex_unknown \<notin> set [ex_share]"
    by (simp_all add: ex_share_def ex_unknown_def)
  from quick_screen_sound [OF q this] q codes(2) show ?thesis by metis
qed

section \<open>The filter runner on the run\<close>

definition market_env :: "b1_item list \<Rightarrow> filter_env" where
  "market_env b1 = \<lparr>fe_today = 1, fe_b1 = (\<lambda>_. Inr b1), fe_save_b1 = (\<lambda>_. None),
     fe_b2 = (\<lambda>xs. run_b2_filter (Inr []) (\<lambda>_. Inr ex_rows) id (Some xs)), fe_save_b2 = (\<lambda>_. None),
     fe_watch = WatchAbsent\<rparr>"

lemma ex_b2_item: "\<exists>r. process_stock_b2 (\<lambda>_. Inr ex_rows) ex_share = r \<and> b2_passes r \<and> strict r
    \<and> \<not> loose r \<and> b2_code r = ''600519''"
proof -
  obtain v where v: "b2_filter ex_rows = Some v" "bw_strict v" "\<not> bw_loose v"
    using ex_strict_not_loose by blast
  have "ex_rows \<noteq> []" by (simp add: ex_rows_def)
  then show ?thesis using v
    by (simp add: process_stock_b2_def ex_share_def b2_passes_def strict_def loose_def success_def b2_code_def)
qed

lemma ex_execute:
  assumes "b1_stock it = Some ex_share" "b1_status it = Some ''success''" "b1_result it = Some False"
  shows "\<exists>fr s. execute (market_env [it]) False = Inr fr \<and> fr_stocks fr = [s] \<and> sf_code s = ''600519''
    \<and> sf_tags s = [TagB2Strict] \<and> fe_b2 (market_env [it]) (b2_pool [it])
      = run_b2_filter (Inr []) (\<lambda>_. Inr ex_rows) id (Some (b2_pool [it]))"
proof -
  obtain r where r: "process_stock_b2 (\<lambda>_. Inr ex_rows) ex_share = r" "b2_passes r" "strict r"
    "\<not> loose r" "b2_code r = ''600519''" using ex_b2_item by blast
  have pool: "b2_pool [it] = [ex_share]" using assms by (simp add: b2_pool_def success_def)
  have "merged_dict [it] [r] = [(''600519'', raw_data (or_default (b2_stock r) empty_stock) ''600519'' [TagB2Strict]
      (or_default (b2_details r) []))]"
    using assms r by (simp add: merged_dict_def merge_b1_item_def b1_passes_def merge_b2_item_def b2_tags_def)
  then have "merge_results [it] [r] = Inr [raw_data (or_default (b2_stock r) empty_stock) ''600519'' [TagB2Strict]
      (or_default (b2_details r) [])]"
    by (simp add: merge_results_def b1_score_def raw_data_def Let_def)
  then show ?thesis using r(1)
    by (simp add: execute_def market_env_def pool run_b2_filter_def load_watchlist_def inject_watchlist_def raw_data_def)
qed

lemma reported_tags_sound_witness:
  "\<exists>b1 fr s. execute (market_env b1) False = Inr fr \<and> s \<in> set (fr_stocks fr) \<and> TagB2Strict \<in> set (sf_tags s)
    \<and> (\<exists>rows v. (Inr ex_rows :: (ustr, candle list) result) = Inr rows \<and> b2_filter rows = Some v \<and> bw_strict v)"
proof -
  obtain it f where it: "run_filter ex_source id (DateTime 1 0) ex_args (FailedList []) = (Inr [it], f)"
    "b1_stock it = Some ex_share" "b1_status it = Some ''success''" "b1_result it = Some False"
    using ex_run by blast
  obtain fr s where fr: "execute (market_env [it]) False = Inr fr" "fr_stocks fr = [s]" "sf_tags s = [TagB2Strict]"
    "fe_b2 (market_env [it]) (b2_pool [it]) = run_b2_filter (Inr []) (\<lambda>_. Inr ex_rows) id (Some (b2_pool [it]))"
    using ex_execute [OF it(2-4)] by blast
  have e: "fe_b1 (market_env [it]) False = Inr [it]" and s: "s \<in> set (fr_stocks fr)"
    by (simp_all add: market_env_def fr(2))
  have "TagB2Strict \<in> set (sf_tags s)" by (simp add: fr(3))
  moreover from reported_tags_sound [OF keeps_all_id keeps_all_id _ _ it(1) e fr(4,1) s] this
  have "\<exists>rows v. (Inr ex_rows :: (ustr, candle list) result) = Inr rows \<and> b2_filter rows = Some v \<and> bw_strict v"
    by simp
  ultimately show ?thesis using fr(1) s by blast
qed

end
