(* ===== verification/ScreeningTypes.thy ===== *)
theory ScreeningTypes
  imports ScreeningExample
begin

text \<open>
  The details that the screenings hand to the merge are well typed: whatever the market data,
  every item of both screenings has details with distinct keys in which the score, if there is
  one, is a number. So the sort of the merge never raises the TypeError that a missing number
  would give.
\<close>

section \<open>Dicts whose score is a number\<close>

definition scored :: "(ustr, dval) dict \<Rightarrow> bool" where
  "scored d \<longleftrightarrow> list_all (\<lambda>(k, v). k = k_total_score \<longrightarrow> dval_num v \<noteq> None) d"

lemma scored_simps [simp]: "scored []"
  "scored ((k, v) # d) \<longleftrightarrow> (k = k_total_score \<longrightarrow> dval_num v \<noteq> None) \<and> scored d"
  "scored (d @ e) \<longleftrightarrow> scored d \<and> scored e"
  by (simp_all add: scored_def)

lemma scored_dset: "scored d \<Longrightarrow> (k = k_total_score \<longrightarrow> dval_num v \<noteq> None) \<Longrightarrow> scored (dset k v d)"
  by (induction d) auto

lemma scored_dupdate: "scored d \<Longrightarrow> scored e \<Longrightarrow> scored (dupdate d e)"
proof (unfold dupdate_def, induction e arbitrary: d)
  case (Cons x e)
  obtain k v where x: "x = (k, v)" by (cases x)
  have "scored (dset k v d)" using Cons.prems by (intro scored_dset) (simp_all add: x)
  from Cons.IH [OF this] Cons.prems(2) show ?case by (simp add: x)
qed simp

lemma distinct_dupdate: "distinct (dkeys d) \<Longrightarrow> distinct (dkeys (dupdate d e))"
proof (unfold dupdate_def, induction e arbitrary: d)
  case (Cons x e)
  obtain k v where x: "x = (k, v)" by (cases x)
  from Cons.IH [OF distinct_dkeys_dset [OF Cons.prems], of k v] show ?case by (simp add: x)
qed simp

lemma scored_numbers: "scored d \<Longrightarrow> dval_num (dget_default d k_total_score (VInt 0)) \<noteq> None"
  by (cases "dget d k_total_score") (auto simp: scored_def list_all_iff dget_default_def dest: map_of_SomeD)

lemma score_ok_intro: "distinct (dkeys d) \<Longrightarrow> scored d \<Longrightarrow> score_ok (Some d)"
  using scored_numbers by (simp add: score_ok_def)

lemma scored_bools: "scored (bools cs)"
  by (induction cs) (auto simp: bools_def)

section \<open>The details of the three filters\<close>

lemma other_keys: "ki_slope3 \<noteq> k_total_score" "ki_gap \<noteq> k_total_score" "ki_slope30 \<noteq> k_total_score"
  "ki_slope120w \<noteq> k_total_score" "ki_chg30 \<noteq> k_total_score" "ki_chg30_limit \<noteq> k_total_score"
  "ki_chg30_ok \<noteq> k_total_score" "kd_s_chg30 \<noteq> k_total_score" "kb_zxdq \<noteq> k_total_score" "kb_zxdkx \<noteq> k_total_score"
  by code_simp+

lemma scored_indicators: "scored (b1_indicators rows weeks rt n v passed)"
  by (simp add: b1_indicators_def Let_def other_keys split: option.splits)

lemma scored_extra: "scored (extra_details v)"
  by (simp add: extra_details_def other_keys)

lemma scored_backtest: "scored (backtest_details b)"
  by (simp add: backtest_details_def split: option.splits)

lemma scored_price: "scored (price_details r)"
  by (simp add: price_details_def split: option.splits)

lemma distinct_price: "distinct (dkeys (price_details r))"
proof -
  have "distinct [kd_close, kd_high, kd_low, kd_open, kd_volume, kd_amount, k_close, kd_open_cn, kd_high_cn, kd_low_cn]"
    by code_simp
  then show ?thesis by (simp only: price_details_def list.map fst_conv)
qed

lemma scored_b1_value: "scored (bv_kdj (b1_value_of rows weeks rt n sl))"
  "scored (bv_indicators (b1_value_of rows weeks rt n sl))"
  by (simp_all add: b1_value_of_def Let_def scored_indicators)

lemma b1_details_ok:
  assumes "b1_strategy_filter rows weeks rt = Inr (Some v)"
  shows "score_ok (Some (b1_details_of rows v))"
proof -
  obtain n sl where "v = b1_value_of rows weeks rt n sl" using b1_resultE [OF assms] by blast
  then show ?thesis unfolding b1_details_of_def
    by (intro score_ok_intro distinct_dupdate distinct_price scored_dupdate scored_price scored_bools scored_extra
      scored_backtest) (simp_all only: scored_b1_value)
qed

lemma scored_us: "scored (us_indicators rows)"
  by (simp add: us_indicators_def Let_def last_value_def brick_value_def split: prod.splits)

lemma us_details_ok: "score_ok (Some (us_details_of rows (ultra_short_strategy_filter rows)))"
  by (simp add: us_details_of_def ultra_short_strategy_filter_def score_ok_intro distinct_dupdate distinct_price
      scored_dupdate scored_price scored_bools scored_us)

lemma scored_b2: "scored (b2_detail_dict v)"
  by (simp add: b2_detail_dict_def other_keys)

lemma b2_details_ok:
  assumes "b2_filter rows = Some v"
  shows "score_ok (Some (b2_all_details v r))"
proof -
  have "bw_details v = b2_detail_dict (b2_values_of rows)"
    using assms by (auto simp: b2_filter_def Let_def split: if_splits)
  then have "scored (bw_details v)" by (simp add: scored_b2)
  then show ?thesis unfolding b2_all_details_def
    by (intro score_ok_intro distinct_dkeys_dset distinct_dupdate scored_dset scored_dupdate scored_bools) simp_all
qed

section \<open>The items of a run\<close>

lemma score_ok_empty: "score_ok (Some [])" "score_ok None"
  by (simp_all add: score_ok_def)

lemma price_ok: "score_ok (Some (price_details r))"
  by (intro score_ok_intro distinct_price scored_price)

lemma answer_ok:
  assumes "answer_of so sg mock cache st code rows = Inr it"
  shows "score_ok (b1_details it)"
  using assms b1_details_ok us_details_ok price_ok
  by (auto simp: answer_of_def b1_answer_def item_of_def Let_def split: strategy.splits sum.splits option.splits)

lemma process_ok_details:
  assumes "process_stock so sg mock cache False st = Inr (r, m)"
  shows "score_ok (b1_details r)"
  using assms answer_ok score_ok_empty
  by (auto simp: process_stock_def item_of_def split: option.splits sum.splits if_splits)

lemma process_b2_ok: "score_ok (b2_details (process_stock_b2 hist st))"
  using b2_details_ok score_ok_empty
  by (auto simp: process_stock_b2_def b2_error_item_def split: option.splits sum.splits)

lemma run_b2_items:
  assumes "keeps_all order" "run_b2_filter src hist order given = Inr b2" "r \<in> set b2"
  shows "\<exists>st. r = process_stock_b2 hist st"
proof -
  have "set (order xs) = set xs" for xs using assms(1) by (metis keeps_all_def set_mset_mset)
  then show ?thesis using assms(2,3)
    by (auto simp: run_b2_filter_def split: option.splits sum.splits if_splits)
qed

text \<open>
  C25: The items of the two screenings are well typed for the merge: whatever the market data,
  the strategy and the order of completion, merging the results of the two screenings returns,
  and every merged stock has a number as its total score.
\<close>

theorem screening_merge_typed:
  assumes "keeps_all order" "run_filter so order now a f0 = (Inr b1, f1)"
    "keeps_all order2" "run_b2_filter src hist order2 given = Inr b2"
  shows "\<exists>xs. merge_results b1 b2 = Inr xs \<and> list_all (\<lambda>s. dval_num (total_score s) \<noteq> None) xs"
proof -
  have b1: "\<forall>r \<in> set b1. score_ok (b1_details r)"
    using run_filter_member [OF assms(1,2)] process_ok_details by blast
  have b2: "\<forall>r \<in> set b2. score_ok (b2_details r)"
    using run_b2_items [OF assms(3,4)] process_b2_ok by blast
  obtain xs where xs: "merge_results b1 b2 = Inr xs"
    using merge_results_total [OF b1 b2] by (cases "merge_results b1 b2") simp_all
  moreover have "list_all (\<lambda>s. dval_num (total_score s) \<noteq> None) xs"
    using all_scored_dict [OF b1 b2] merge_results_Inr [OF xs] by (auto simp: all_scored_def list_all_iff)
  ultimately show ?thesis by blast
qed

lemma screening_merge_typed_witness:
  "\<exists>b1 f b2 xs. run_filter ex_source id (DateTime 1 0) ex_args (FailedList []) = (Inr b1, f) \<and> length b1 = 1
    \<and> run_b2_filter (Inr []) (\<lambda>_. Inr ex_rows) id (Some [ex_share]) = Inr b2 \<and> merge_results b1 b2 = Inr xs"
proof -
  obtain it f where it: "run_filter ex_source id (DateTime 1 0) ex_args (FailedList []) = (Inr [it], f)"
    using ex_run by blast
  have "run_b2_filter (Inr []) (\<lambda>_. Inr ex_rows) id (Some [ex_share])
      = Inr [process_stock_b2 (\<lambda>_. Inr ex_rows) ex_share]" by (simp add: run_b2_filter_def)
  with it screening_merge_typed [OF keeps_all_id it keeps_all_id this] show ?thesis by fastforce
qed

end
