(* ===== verification/MarketApi.thy ===== *)
theory MarketApi
  imports LocalStores B1Filter
begin

text \<open>
  The requests for market data of \<open>api.py\<close>: the rotation of the access tokens with their daily
  counts, the retries of one request, and the functions that ask the cache first. The answers of
  the service are parameters: for every attempt and token a timeout, an HTTP error, another
  exception, the error text of a JSON object, or the decoded data. One call reads the clock once.
  Requests are sequential: the counts are module variables without a lock.
\<close>

section \<open>Tokens\<close>

record token_cfg =
  tc_free :: "string list"
  tc_paid :: string
  tc_limit :: nat

record token_state =
  tk_usage :: "(string, nat) dict"
  tk_date :: "date option"

definition no_tokens_used :: token_state where
  "no_tokens_used = \<lparr>tk_usage = [], tk_date = None\<rparr>"

definition roll_date :: "date \<Rightarrow> token_state \<Rightarrow> token_state" where
  "roll_date today st = (if tk_date st \<noteq> Some today then \<lparr>tk_usage = [], tk_date = Some today\<rparr> else st)"

definition used :: "token_state \<Rightarrow> string \<Rightarrow> nat" where
  "used st t = dget_default (tk_usage st) t 0"

definition pick_token :: "token_cfg \<Rightarrow> token_state \<Rightarrow> string" where
  "pick_token c st = (case find (\<lambda>t. used st t < tc_limit c) (tc_free c) of Some t \<Rightarrow> t | None \<Rightarrow> tc_paid c)"

definition get_current_token :: "token_cfg \<Rightarrow> date \<Rightarrow> token_state \<Rightarrow> string \<times> token_state" where
  "get_current_token c today st = (let st1 = roll_date today st in (pick_token c st1, st1))"

definition record_usage :: "string \<Rightarrow> token_state \<Rightarrow> token_state" where
  "record_usage t st = st\<lparr>tk_usage := dset t (used st t + 1) (tk_usage st)\<rparr>"

definition mark_token_exhausted :: "token_cfg \<Rightarrow> string \<Rightarrow> token_state \<Rightarrow> token_state" where
  "mark_token_exhausted c t st = st\<lparr>tk_usage := dset t (used st t + tc_limit c) (tk_usage st)\<rparr>"

section \<open>One request\<close>

datatype 'a api_answer = ApiTimeout | ApiHttpError nat | ApiRaised | ApiErrorText ustr | ApiData 'a

definition not_found_text :: "ustr \<Rightarrow> bool" where
  "not_found_text e \<longleftrightarrow> contains (ustr_of ''404'') e \<or> contains [36164, 28304, 19981, 23384, 22312] e
     \<or> contains [21442, 25968] e"

datatype 'a verdict = Retry | Return "'a option"

definition after_answer :: "token_cfg \<Rightarrow> string \<Rightarrow> 'a api_answer \<Rightarrow> token_state \<Rightarrow> 'a verdict \<times> token_state" where
  "after_answer c t ans st = (case ans of
     ApiData x \<Rightarrow> (Return (Some x), record_usage t st)
   | ApiErrorText e \<Rightarrow> if not_found_text e then (Return None, st) else (Retry, mark_token_exhausted c t st)
   | ApiTimeout \<Rightarrow> (Retry, mark_token_exhausted c t st)
   | ApiHttpError code \<Rightarrow> if code = 403 then (Retry, st)
       else if code = 401 \<or> code = 429 then (Retry, mark_token_exhausted c t (mark_token_exhausted c t st))
       else (Retry, mark_token_exhausted c t st)
   | ApiRaised \<Rightarrow> (Retry, mark_token_exhausted c t st))"

text \<open>
  The loop of attempts. Beside the result and the state it gives the requests that were sent, with
  their answers: a history of the run that the code only prints.
\<close>

fun request_loop :: "token_cfg \<Rightarrow> date \<Rightarrow> (nat \<Rightarrow> string \<Rightarrow> 'a api_answer) \<Rightarrow> nat \<Rightarrow> nat \<Rightarrow> token_state
    \<Rightarrow> 'a option \<times> token_state \<times> (string \<times> 'a api_answer) list" where
  "request_loop c today ask 0 i st = (None, st, [])"
| "request_loop c today ask (Suc n) i st = (case get_current_token c today st of (t, st1) \<Rightarrow>
     if t = [] then (None, st1, [])
     else (case after_answer c t (ask i t) st1 of
         (Return r, st2) \<Rightarrow> (r, st2, [(t, ask i t)])
       | (Retry, st2) \<Rightarrow> (case request_loop c today ask n (i + 1) st2 of
           (r, st3, sent) \<Rightarrow> (r, st3, (t, ask i t) # sent))))"

definition api_request :: "token_cfg \<Rightarrow> date \<Rightarrow> (nat \<Rightarrow> string \<Rightarrow> 'a api_answer) \<Rightarrow> token_state
    \<Rightarrow> 'a option \<times> token_state \<times> (string \<times> 'a api_answer) list" where
  "api_request c today ask st = request_loop c today ask (length (tc_free c) + 2) 0 st"

section \<open>The three kinds of data\<close>

text \<open>
  The decoded JSON: null, a list, an object with its fields \<open>code\<close> and \<open>data\<close> (\<open>data\<close> is absent
  or falsy, or a list), or another value. An element of a list of stocks that is no object is \<open>None\<close>.
\<close>

datatype 'a payload = PNull | PList "'a list" | PObject "nat option" "'a list option" | POther

definition rows_of :: "'a payload \<Rightarrow> 'a list" where
  "rows_of d = (case d of PList xs \<Rightarrow> xs
     | PObject code xs \<Rightarrow> if code = Some 200 then or_default xs [] else [] | _ \<Rightarrow> [])"

text \<open>\<open>get_stock_list\<close>, with the cache file of the list; null counts as no answer.\<close>

definition get_stock_list :: "token_cfg \<Rightarrow> pydatetime \<Rightarrow> (nat \<Rightarrow> string \<Rightarrow> raw_stock option payload api_answer)
    \<Rightarrow> token_state \<Rightarrow> raw_stock list cache_file
    \<Rightarrow> raw_stock list \<times> token_state \<times> raw_stock list cache_file" where
  "get_stock_list c now ask st file =
     (case api_request c (dt_date now) ask st of (r, st1, sent) \<Rightarrow>
       (case r of Some d \<Rightarrow> if d = PNull then (or_default (load_stock_data now file None) [], st1, file)
           else (let xs = List.map_filter (\<lambda>x. x) (rows_of d) in
             (xs, st1, if xs \<noteq> [] then save_stock_data now xs else file))
        | None \<Rightarrow> (or_default (load_stock_data now file None) [], st1, file)))"

text \<open>
  \<open>get_stock_realtime_data\<close>: an answer is used when it is an object without the key \<open>error\<close> and
  with the key \<open>p\<close>; those are the flags of the payload.
\<close>

record quote =
  qt_error_key :: bool
  qt_p_key :: bool
  qt_values :: realtime

definition realtime_open_age :: pyfloat where "realtime_open_age = 1"

definition get_stock_realtime_data :: "token_cfg \<Rightarrow> pydatetime \<Rightarrow> (nat \<Rightarrow> string \<Rightarrow> quote option api_answer)
    \<Rightarrow> token_state \<Rightarrow> realtime cache_file \<Rightarrow> realtime option \<times> token_state \<times> realtime cache_file" where
  "get_stock_realtime_data c now ask st file =
     (case load_stock_data now file (Some (realtime_max_age realtime_open_age now)) of
        Some x \<Rightarrow> (Some x, st, file)
      | None \<Rightarrow> (case api_request c (dt_date now) ask st of (r, st1, sent) \<Rightarrow>
          (case r of Some (Some q) \<Rightarrow>
              if \<not> qt_error_key q \<and> qt_p_key q
              then (Some (qt_values q), st1, save_stock_data now (qt_values q)) else (None, st1, file)
            | _ \<Rightarrow> (None, st1, file))))"

text \<open>\<open>get_stock_history_data\<close>: weekly rows are valid for 72 hours, daily ones by the 18:00 rule.\<close>

definition weekly_max_age :: pyfloat where "weekly_max_age = 72"

definition get_stock_history_data :: "token_cfg \<Rightarrow> pydatetime \<Rightarrow> bool \<Rightarrow> bool
    \<Rightarrow> (nat \<Rightarrow> string \<Rightarrow> candle payload api_answer) \<Rightarrow> token_state \<Rightarrow> candle list cache_file
    \<Rightarrow> candle list \<times> token_state \<times> candle list cache_file" where
  "get_stock_history_data c now weekly use_local ask st file =
     (case (if use_local then load_stock_data now file (if weekly then Some weekly_max_age else None) else None) of
        Some (x # xs) \<Rightarrow> (x # xs, st, file)
      | _ \<Rightarrow> (case api_request c (dt_date now) ask st of (r, st1, sent) \<Rightarrow>
          (case r of None \<Rightarrow> ([], st1, file)
            | Some d \<Rightarrow> (let xs = rows_of d in
                (xs, st1, if xs \<noteq> [] then save_stock_data now xs else file)))))"

text \<open>
  \<open>get_stock_macd\<close>, \<open>get_stock_ma\<close> and \<open>get_stock_history_data_with_future\<close>: the cache, then one
  request whose use is not counted; every exception gives the empty list. The first two read
  \<open>data.get\<close>, which a list does not have.
\<close>

definition direct_request :: "token_cfg \<Rightarrow> pydatetime \<Rightarrow> bool \<Rightarrow> (string \<Rightarrow> 'a payload api_answer)
    \<Rightarrow> token_state \<Rightarrow> 'a list cache_file \<Rightarrow> 'a list \<times> token_state \<times> 'a list cache_file" where
  "direct_request c now list_ok ask st file =
     (case load_stock_data now file None of Some (x # xs) \<Rightarrow> (x # xs, st, file)
      | _ \<Rightarrow> (case get_current_token c (dt_date now) st of (t, st1) \<Rightarrow>
          let xs = (case ask t of ApiData d \<Rightarrow>
                (case d of PList ys \<Rightarrow> if list_ok then ys else [] | _ \<Rightarrow> rows_of d)
              | _ \<Rightarrow> []) in
          (xs, st1, if xs \<noteq> [] then save_stock_data now xs else file)))"

text \<open>\<open>_needs_fetch\<close> of \<open>stock_filter.py\<close> on the three cache files of a stock.\<close>

definition missing_or_expired :: "pydatetime \<Rightarrow> 'a cache_file \<Rightarrow> bool" where
  "missing_or_expired now f = (case f of CacheAbsent \<Rightarrow> True
     | _ \<Rightarrow> (case load_stock_data now f None of None \<Rightarrow> True | Some _ \<Rightarrow> False))"

definition needs_fetch :: "pydatetime \<Rightarrow> candle list cache_file \<Rightarrow> candle list cache_file \<Rightarrow> realtime cache_file \<Rightarrow> bool" where
  "needs_fetch now d w r \<longleftrightarrow> missing_or_expired now d \<or> missing_or_expired now w \<or> missing_or_expired now r"

section \<open>The daily budget of a token\<close>

text \<open>A sequence of requests on one day, and what they sent.\<close>

fun session :: "token_cfg \<Rightarrow> date \<Rightarrow> (nat \<Rightarrow> string \<Rightarrow> 'a api_answer) list \<Rightarrow> token_state
    \<Rightarrow> token_state \<times> (string \<times> 'a api_answer) list" where
  "session c today [] st = (st, [])"
| "session c today (ask # asks) st = (case api_request c today ask st of (r, st1, sent) \<Rightarrow>
     (case session c today asks st1 of (st2, sent2) \<Rightarrow> (st2, sent @ sent2)))"

definition uncounted :: "'a api_answer \<Rightarrow> bool" where
  "uncounted a \<longleftrightarrow> a = ApiHttpError 403 \<or> (\<exists>e. a = ApiErrorText e \<and> not_found_text e)"

definition is_data :: "'a api_answer \<Rightarrow> bool" where
  "is_data a \<longleftrightarrow> (\<exists>x. a = ApiData x)"

definition sent_with :: "string \<Rightarrow> ('a api_answer \<Rightarrow> bool) \<Rightarrow> (string \<times> 'a api_answer) list \<Rightarrow> nat" where
  "sent_with t P sent = length (filter (\<lambda>(u, a). u = t \<and> P a) sent)"

definition failing :: "'a api_answer \<Rightarrow> bool" where
  "failing a \<longleftrightarrow> \<not> is_data a \<and> \<not> uncounted a"

text \<open>What the counts know of the requests sent so far today.\<close>

definition budget_ok :: "token_cfg \<Rightarrow> date \<Rightarrow> string \<Rightarrow> token_state \<Rightarrow> nat \<Rightarrow> nat \<Rightarrow> bool" where
  "budget_ok c today t st n k \<longleftrightarrow> n \<le> tc_limit c \<and> k \<le> 1
     \<and> (tk_date st = Some today \<longrightarrow> n \<le> used st t \<and> k * tc_limit c \<le> used st t)
     \<and> (tk_date st \<noteq> Some today \<longrightarrow> n = 0 \<and> k = 0)"

lemma sent_with_simps [simp]: "sent_with t P [] = 0"
  "sent_with t P ((u, a) # sent) = (if u = t \<and> P a then 1 else 0) + sent_with t P sent"
  "sent_with t P (xs @ ys) = sent_with t P xs + sent_with t P ys"
  by (simp_all add: sent_with_def)

lemma used_updates: "used (record_usage t st) u = (if u = t then used st t + 1 else used st u)"
  "used (mark_token_exhausted c t st) u = (if u = t then used st t + tc_limit c else used st u)"
  "tk_date (record_usage t st) = tk_date st" "tk_date (mark_token_exhausted c t st) = tk_date st"
  by (simp_all add: used_def record_usage_def mark_token_exhausted_def dget_default_dset)

lemma roll_date_facts: "tk_date (roll_date today st) = Some today"
  "budget_ok c today t st n k \<Longrightarrow> budget_ok c today t (roll_date today st) n k"
  by (simp_all add: roll_date_def budget_ok_def)

text \<open>A free token is picked only while its count is below the limit.\<close>

lemma pick_token_free: "pick_token c st = t \<Longrightarrow> tc_paid c \<notin> set (tc_free c) \<Longrightarrow> t \<in> set (tc_free c)
    \<Longrightarrow> used st t < tc_limit c"
  by (auto simp: pick_token_def find_Some_iff split: option.splits)

lemma budget_step:
  assumes "budget_ok c today t st n k" "tk_date st = Some today" "u = t \<Longrightarrow> used st t < tc_limit c"
    "after_answer c u a st = (v, st')"
  shows "budget_ok c today t st' (n + (if u = t \<and> is_data a then 1 else 0))
      (k + (if u = t \<and> failing a then 1 else 0)) \<and> tk_date st' = Some today"
proof (cases "u = t")
  case True
  then have lt: "used st t < tc_limit c" using assms(3) by simp
  then have "k = 0" using assms(1,2) by (cases k) (auto simp: budget_ok_def)
  then show ?thesis using True lt assms
    by (auto simp: budget_ok_def after_answer_def used_updates is_data_def failing_def uncounted_def
        split: api_answer.splits if_splits)
next
  case False
  then show ?thesis using assms
    by (auto simp: budget_ok_def after_answer_def used_updates split: api_answer.splits if_splits)
qed

lemma request_budget:
  assumes "tc_paid c \<notin> set (tc_free c)" "t \<in> set (tc_free c)" "budget_ok c today t st n k"
    "request_loop c today ask m i st = (r, st', sent)"
  shows "budget_ok c today t st' (n + sent_with t is_data sent) (k + sent_with t failing sent)
    \<and> length sent \<le> m"
  using assms(3,4)
proof (induction m arbitrary: i st n k r st' sent)
  case (Suc m)
  let ?s1 = "roll_date today st" let ?u = "pick_token c ?s1"
  have b: "budget_ok c today t ?s1 n k" "tk_date ?s1 = Some today"
    using roll_date_facts Suc.prems(1) by blast+
  have lt: "?u = t \<Longrightarrow> used ?s1 t < tc_limit c" using pick_token_free assms(1,2) by blast
  show ?case
  proof (cases "?u = []")
    case True
    then show ?thesis using Suc.prems(2) b(1) by (auto simp: get_current_token_def Let_def)
  next
    case False
    obtain v s2 where a: "after_answer c ?u (ask i ?u) ?s1 = (v, s2)" by (cases "after_answer c ?u (ask i ?u) ?s1")
    note step = budget_step [OF b lt a]
    show ?thesis
    proof (cases v)
      case (Return x)
      then show ?thesis using Suc.prems(2) a False step by (auto simp: get_current_token_def Let_def)
    next
      case Retry
      obtain r3 s3 sent3 where l: "request_loop c today ask m (i + 1) s2 = (r3, s3, sent3)"
        by (cases "request_loop c today ask m (i + 1) s2")
      then have e: "st' = s3" "sent = (?u, ask i ?u) # sent3"
        using Suc.prems(2) a False Retry by (auto simp: get_current_token_def Let_def)
      from Suc.IH [OF conjunct1 [OF step] l] show ?thesis unfolding e by (auto simp: add.assoc)
    qed
  qed
qed (use assms(3) in simp)

lemma session_budget:
  assumes "tc_paid c \<notin> set (tc_free c)" "t \<in> set (tc_free c)" "budget_ok c today t st n k"
    "session c today asks st = (st', sent)"
  shows "budget_ok c today t st' (n + sent_with t is_data sent) (k + sent_with t failing sent)
    \<and> length sent \<le> length asks * (length (tc_free c) + 2)"
  using assms(3,4)
proof (induction asks arbitrary: st n k sent)
  case (Cons ask asks)
  obtain r s1 sent1 where r: "request_loop c today ask (length (tc_free c) + 2) 0 st = (r, s1, sent1)"
    by (cases "request_loop c today ask (length (tc_free c) + 2) 0 st")
  obtain s2 sent2 where s: "session c today asks s1 = (s2, sent2)" by (cases "session c today asks s1")
  have e: "st' = s2" "sent = sent1 @ sent2" using Cons.prems(2) r s by (simp_all add: api_request_def)
  note step = request_budget [OF assms(1,2) Cons.prems(1) r]
  from Cons.IH [OF conjunct1 [OF step]] s e show ?case using step by (auto simp: add.assoc)
qed simp

lemma not_found_request:
  assumes "tc_free c = t # ts" "t \<noteq> []" "0 < tc_limit c" "not_found_text e" "tk_usage st = []"
  shows "\<exists>st'. api_request c today (\<lambda>_ _. ApiErrorText e) st = (None, st', [(t, ApiErrorText e)]) \<and> tk_usage st' = []"
proof -
  have "pick_token c (roll_date today st) = t" "tk_usage (roll_date today st) = []"
    using assms by (simp_all add: pick_token_def roll_date_def used_def)
  then show ?thesis using assms(1,2,4)
    by (simp add: api_request_def get_current_token_def after_answer_def Let_def)
qed

lemma not_found_session:
  assumes "tc_free c = t # ts" "t \<noteq> []" "0 < tc_limit c" "not_found_text e" "tk_usage st = []"
  shows "snd (session c today (replicate n (\<lambda>_ _. ApiErrorText e :: 'a api_answer)) st) = replicate n (t, ApiErrorText e)"
  using assms(5)
proof (induction n arbitrary: st)
  case (Suc n)
  from not_found_request [OF assms(1-4) Suc.prems, of today] obtain st'
    where r: "api_request c today (\<lambda>_ _. ApiErrorText e :: 'a api_answer) st = (None, st', [(t, ApiErrorText e)])"
      "tk_usage st' = []" by blast
  from Suc.IH [OF r(2)] r(1) show ?case
    by (cases "session c today (replicate n (\<lambda>_ _. ApiErrorText e :: 'a api_answer)) st'") simp
qed simp

text \<open>
  C34: The budget of a free token on one day, for requests that are made one after the other:
  whatever the service answers, at most the daily
  limit of its requests get data, at most one fails otherwise (the first failure retires it for
  the day), and a request makes at most two attempts more than there are free tokens. But the
  answers that a resource does not exist, or that access is refused, are not counted: any number
  of them goes to the first token.
\<close>

theorem token_budget:
  assumes "tc_paid c \<notin> set (tc_free c)" "t \<in> set (tc_free c)" "tk_date st \<noteq> Some today"
    "session c today asks st = (st', sent)" "tc_free c = t0 # ts" "t0 \<noteq> []" "0 < tc_limit c" "not_found_text e"
  shows "sent_with t is_data sent \<le> tc_limit c \<and> sent_with t failing sent \<le> 1
    \<and> length sent \<le> length asks * (length (tc_free c) + 2)
    \<and> snd (session c today (replicate n (\<lambda>_ _. ApiErrorText e :: 'a api_answer)) no_tokens_used)
        = replicate n (t0, ApiErrorText e)"
proof -
  have "budget_ok c today t st 0 0" using assms(3) by (simp add: budget_ok_def)
  from session_budget [OF assms(1,2) this assms(4)]
  have "budget_ok c today t st' (sent_with t is_data sent) (sent_with t failing sent)"
    "length sent \<le> length asks * (length (tc_free c) + 2)" by simp_all
  moreover have "snd (session c today (replicate n (\<lambda>_ _. ApiErrorText e :: 'a api_answer)) no_tokens_used)
        = replicate n (t0, ApiErrorText e)"
    by (rule not_found_session [OF assms(5-8)]) (simp add: no_tokens_used_def)
  ultimately show ?thesis by (simp add: budget_ok_def)
qed

text \<open>
  Requests that overlap, as those of the thread pools do, get the same token as long as none of
  them has recorded its use: two of them pass the check of the last free request.
\<close>

lemma overlapping_requests:
  assumes "get_current_token c today st = (t, st1)" "used st1 t < tc_limit c" "t \<in> set (tc_free c)"
    "used st1 t + 1 = tc_limit c"
  shows "get_current_token c today st1 = (t, st1)"
    "used (snd (after_answer c t (ApiData y) (snd (after_answer c t (ApiData x) st1)))) t = tc_limit c + 1"
proof -
  have "st1 = roll_date today st" "t = pick_token c st1" using assms(1) by (auto simp: get_current_token_def Let_def)
  moreover from this have "roll_date today st1 = st1" by (simp add: roll_date_def)
  ultimately show "get_current_token c today st1 = (t, st1)" by (simp add: get_current_token_def Let_def)
  show "used (snd (after_answer c t (ApiData y) (snd (after_answer c t (ApiData x) st1)))) t = tc_limit c + 1"
    using assms(4) by (simp add: after_answer_def record_usage_def used_def dget_default_def dget_dset)
qed

definition ex_tokens :: token_cfg where
  "ex_tokens = \<lparr>tc_free = [''a'', ''b''], tc_paid = ''p'', tc_limit = 2\<rparr>"

text \<open>The first token answers twice, then the second one times out and the paid one answers.\<close>

lemma token_budget_witness:
  "\<exists>sent. snd (session ex_tokens 7 (replicate 3 (\<lambda>_ t. if t = ''b'' then ApiTimeout else ApiData ())) no_tokens_used) = sent
    \<and> map fst sent = [''a'', ''a'', ''b'', ''p''] \<and> sent_with ''a'' is_data sent \<le> 2 \<and> sent_with ''b'' failing sent \<le> 1"
proof -
  let ?asks = "replicate 3 (\<lambda>(_ :: nat) t. if t = ''b'' then ApiTimeout else ApiData ())"
  obtain st' sent where s: "session ex_tokens 7 ?asks no_tokens_used = (st', sent)"
    by (cases "session ex_tokens 7 ?asks no_tokens_used")
  have m: "map fst (snd (session ex_tokens 7 ?asks no_tokens_used)) = [''a'', ''a'', ''b'', ''p'']" by code_simp
  have nf: "not_found_text (ustr_of ''404'')" by code_simp
  have c: "tc_paid ex_tokens \<notin> set (tc_free ex_tokens)" "''a'' \<in> set (tc_free ex_tokens)"
    "''b'' \<in> set (tc_free ex_tokens)" "tk_date no_tokens_used \<noteq> Some 7" "tc_free ex_tokens = [''a'', ''b'']"
    "''a'' \<noteq> []" "0 < tc_limit ex_tokens" "tc_limit ex_tokens = 2"
    by (simp_all add: ex_tokens_def no_tokens_used_def)
  note a = token_budget [OF c(1,2,4) s c(5-7) nf, THEN conjunct1]
    and b = token_budget [OF c(1,3,4) s c(5-7) nf, THEN conjunct2, THEN conjunct1]
  show ?thesis using a b m s c(8) by simp
qed

section \<open>Daily rows are fetched once\<close>

definition whole_second :: "pydatetime \<Rightarrow> pydatetime" where
  "whole_second now = DateTime (dt_date now) (dt_time now div 1000000 * 1000000)"

lemma whole_second_facts:
  assumes "time_ok now"
  shows "whole_second now \<le> now" "time_ok (whole_second now)" "end_date (whole_second now) = end_date now"
proof -
  define q where "q = dt_time now div 1000000"
  define r where "r = dt_time now mod 1000000"
  have t: "dt_time now = q * 1000000 + r" "0 \<le> r" "r < 1000000"
    by (simp_all add: q_def r_def)
  then have "q * 1000000 \<le> dt_time now" by simp
  moreover have "64800000000 \<le> q * 1000000 \<longleftrightarrow> 64800000000 \<le> dt_time now"
  proof
    assume "64800000000 \<le> dt_time now"
    then have "64799 < q" using t by linarith
    then show "64800000000 \<le> q * 1000000" by linarith
  qed (use t in linarith)
  moreover have "0 \<le> q" using assms by (simp add: q_def time_ok_def pos_imp_zdiv_nonneg_iff)
  moreover have "0 \<le> dt_time now" "dt_time now < 86400000000" using assms by (simp_all add: time_ok_def hms_def)
  ultimately show "whole_second now \<le> now" "time_ok (whole_second now)" "end_date (whole_second now) = end_date now"
    unfolding whole_second_def q_def [symmetric]
    by (auto simp: less_eq_pydatetime_def time_ok_def end_date_def hms_def)
qed

lemma end_date_mono: "ts \<le> now \<Longrightarrow> end_date ts \<le> end_date now"
  by (auto simp: less_eq_pydatetime_def end_date_def)

text \<open>A cache file written in the past.\<close>

definition written_before :: "pydatetime \<Rightarrow> 'a cache_file \<Rightarrow> bool" where
  "written_before now f = (case f of CacheData (Some ts) x \<Rightarrow> ts \<le> now \<and> time_ok ts | _ \<Rightarrow> True)"

lemma history_cached:
  assumes "time_ok now" "written_before now file" "rows \<noteq> []"
    "get_stock_history_data c now False use_local ask st file = (rows, st', file')"
  shows "\<exists>ts. file' = CacheData (Some ts) rows \<and> ts \<le> now \<and> time_ok ts \<and> end_date ts = end_date now"
proof -
  let ?l = "if use_local then load_stock_data now file None else None"
  let ?ws = "whole_second now"
  consider (cached) "?l = Some rows" "file' = file" | (fetched) "file' = save_stock_data now rows"
    using assms(3,4)
    by (auto simp: get_stock_history_data_def Let_def split: option.splits list.splits prod.splits if_splits)
  then show ?thesis
  proof cases
    case cached
    then obtain ts where ts: "file = CacheData (Some ts) rows" "\<not> is_expired now ts None"
      by (auto simp: load_stock_data_def split: if_splits cache_file.splits option.splits)
    then have "ts \<le> now" "time_ok ts" using assms(2) by (simp_all add: written_before_def)
    moreover from this have "end_date ts = end_date now"
      using ts(2) expired_iff_end_date [OF _ assms(1)] end_date_mono by fastforce
    ultimately show ?thesis using ts(1) cached(2) by blast
  next
    case fetched
    then have "file' = CacheData (Some ?ws) rows" by (simp add: save_stock_data_def whole_second_def)
    then show ?thesis using whole_second_facts [OF assms(1)] by blast
  qed
qed

text \<open>
  Daily rows are fetched once per last day: after a call that gives rows, a later call that
  would ask for the same last day gives the same rows without a request and without using a
  token, and a later call that would ask for a later day does not use the cached rows.
\<close>

theorem history_fetched_once:
  assumes "time_ok now" "time_ok now2" "now \<le> now2" "written_before now file" "rows \<noteq> []"
    "get_stock_history_data c now False use_local ask st file = (rows, st', file')"
  shows "(end_date now2 = end_date now \<longrightarrow>
      get_stock_history_data c now2 False True ask2 st2 file' = (rows, st2, file'))
    \<and> (end_date now < end_date now2 \<longrightarrow> load_stock_data now2 file' None = None)"
proof -
  obtain ts where ts: "file' = CacheData (Some ts) rows" "ts \<le> now" "time_ok ts" "end_date ts = end_date now"
    using history_cached [OF assms(1,4-6)] by blast
  have "is_expired now2 ts None \<longleftrightarrow> end_date now < end_date now2"
    using expired_iff_end_date [of ts now2] ts assms(2,3) by simp
  then show ?thesis using assms(5) ts(1)
    by (cases rows) (simp_all add: get_stock_history_data_def load_stock_data_def)
qed

lemma history_fetched_once_witness:
  "get_stock_history_data ex_tokens (DateTime 10 (hms 12 0 0)) False True (\<lambda>_ _. ApiTimeout) no_tokens_used
      (snd (snd (get_stock_history_data ex_tokens (DateTime 9 (hms 18 0 0)) False True
        (\<lambda>_ _. ApiData (PList [ex_candle 1 2 3])) no_tokens_used CacheAbsent)))
    = ([ex_candle 1 2 3], no_tokens_used, CacheData (Some (DateTime 9 (hms 18 0 0))) [ex_candle 1 2 3])"
proof -
  let ?t1 = "DateTime 9 (hms 18 0 0)" and ?t2 = "DateTime 10 (hms 12 0 0)"
  let ?f = "CacheData (Some ?t1) [ex_candle 1 2 3]"
  have r: "api_request ex_tokens 9 (\<lambda>_ _. ApiData (PList [ex_candle 1 2 3])) no_tokens_used
      = (Some (PList [ex_candle 1 2 3]), record_usage ''a'' (roll_date 9 no_tokens_used),
         [(''a'', ApiData (PList [ex_candle 1 2 3]))])"
    by (simp add: api_request_def ex_tokens_def get_current_token_def pick_token_def after_answer_def
        roll_date_def no_tokens_used_def used_def numeral_2_eq_2)
  have g: "get_stock_history_data ex_tokens ?t1 False True (\<lambda>_ _. ApiData (PList [ex_candle 1 2 3])) no_tokens_used CacheAbsent
      = ([ex_candle 1 2 3], record_usage ''a'' (roll_date 9 no_tokens_used), ?f)"
    by (simp add: get_stock_history_data_def load_stock_data_def r rows_of_def save_stock_data_def hms_def Let_def)
  have t: "time_ok ?t1" "time_ok ?t2" "?t1 \<le> ?t2" "end_date ?t2 = end_date ?t1" "written_before ?t1 CacheAbsent"
    by (simp_all add: time_ok_def less_eq_pydatetime_def end_date_def written_before_def hms_def)
  from history_fetched_once [OF t(1-3) t(5) _ g, of "\<lambda>_ _. ApiTimeout" no_tokens_used] t(4) g show ?thesis by simp
qed

end
