(* ===== verification/Tracker.thy ===== *)
theory Tracker
  imports Models Indicators "HOL-Library.List_Lexorder"
begin

text \<open>
  The tracker of signals across days, \<open>strategy_researcher/cross_day_tracker.py\<close>: the signals of a
  day are recorded as pending, and verified once the holding time has passed, by the price of the
  day or, when there is none for three more days, without a return. The pending file and the
  verified files (one per day) are JSON files: a file may be absent, broken (no JSON, or not
  readable, which the code takes as empty), or cut within a character (then decoding it raises,
  which the code does not catch). A write may fail to open the file, or break it. Dates are compared
  as dates; prices are doubles. Files that other programs fill with other JSON are left out.
\<close>

section \<open>Records and files\<close>

record signal =
  sg_code :: string
  sg_name :: ustr
  sg_price :: pyfloat
  sg_score :: "int option"
  sg_tags :: "ustr list option"

record pending_record =
  pn_code :: string
  pn_name :: ustr
  pn_buy_date :: int
  pn_buy_price :: pyfloat
  pn_strategy :: string
  pn_score :: int
  pn_tags :: "ustr list"
  pn_hold :: int

record verified_record =
  vf_signal :: pending_record
  vf_sell_price :: "pyfloat option"
  vf_sell_date :: int
  vf_return :: "pyfloat option"
  vf_hold_days :: int
  vf_status :: string

datatype 'a json_file = NoFile | BadFile | CutFile | Stored "'a list"

definition load_json :: "'a json_file \<Rightarrow> (string, 'a list) result" where
  "load_json f = (case f of Stored xs \<Rightarrow> Inr xs | CutFile \<Rightarrow> Inl ''UnicodeDecodeError'' | _ \<Rightarrow> Inr [])"

text \<open>How a write ends: opening a file for writing empties it, so a write that fails later breaks it.\<close>

datatype written = Written | NotOpened | Broken | Cut

definition write_json :: "written \<Rightarrow> 'a list \<Rightarrow> 'a json_file \<Rightarrow> 'a json_file" where
  "write_json w xs f = (case w of Written \<Rightarrow> Stored xs | NotOpened \<Rightarrow> f | Broken \<Rightarrow> BadFile | Cut \<Rightarrow> CutFile)"

definition write_result :: "written \<Rightarrow> (string, unit) result" where
  "write_result w = (if w = Written then Inr () else Inl ''OSError'')"

record tracker =
  tr_pending :: "pending_record json_file"
  tr_verified :: "(int, verified_record json_file) dict"

definition empty_tracker :: tracker where
  "empty_tracker = \<lparr>tr_pending = NoFile, tr_verified = []\<rparr>"

section \<open>Recording\<close>

definition hold_days :: int where "hold_days = 3"

definition b1_record :: "int \<Rightarrow> signal \<Rightarrow> pending_record" where
  "b1_record today s = \<lparr>pn_code = sg_code s, pn_name = sg_name s, pn_buy_date = today,
     pn_buy_price = sg_price s, pn_strategy = ''B1'', pn_score = or_default (sg_score s) 0,
     pn_tags = [ustr_of ''B1''], pn_hold = hold_days\<rparr>"

definition signal_tags :: "signal \<Rightarrow> ustr list" where
  "signal_tags s = or_default (sg_tags s) [ustr_of ''B2'']"

definition b2_record :: "int \<Rightarrow> signal \<Rightarrow> pending_record" where
  "b2_record today s = \<lparr>pn_code = sg_code s, pn_name = sg_name s, pn_buy_date = today,
     pn_buy_price = sg_price s, pn_strategy = ''B2'', pn_score = 0, pn_tags = signal_tags s,
     pn_hold = hold_days\<rparr>"

text \<open>The tags go to the first record of the code.\<close>

fun extend_tags :: "string \<Rightarrow> ustr list \<Rightarrow> pending_record list \<Rightarrow> pending_record list" where
  "extend_tags c ts [] = []"
| "extend_tags c ts (r # rs) = (if pn_code r = c then r\<lparr>pn_tags := pn_tags r @ ts\<rparr> # rs
     else r # extend_tags c ts rs)"

definition add_b2 :: "int \<Rightarrow> signal \<Rightarrow> pending_record list \<Rightarrow> pending_record list" where
  "add_b2 today s rs = (if sg_price s \<le> 0 then rs
     else if sg_code s \<in> set (map pn_code rs) then extend_tags (sg_code s) (signal_tags s) rs
     else rs @ [b2_record today s])"

definition new_records :: "int \<Rightarrow> signal list option \<Rightarrow> signal list option \<Rightarrow> pending_record list" where
  "new_records today b1 b2 = fold (add_b2 today) (or_default b2 [])
     (map (b1_record today) (filter (\<lambda>s. 0 < sg_price s) (or_default b1 [])))"

definition record_today_signals :: "written \<Rightarrow> int \<Rightarrow> signal list option \<Rightarrow> signal list option \<Rightarrow> tracker
    \<Rightarrow> (string, unit) result \<times> tracker" where
  "record_today_signals w today b1 b2 st = (case load_json (tr_pending st) of Inl e \<Rightarrow> (Inl e, st)
     | Inr pending \<Rightarrow> if today \<in> set (map pn_buy_date pending) then (Inr (), st)
         else (write_result w, st\<lparr>tr_pending := write_json w (pending @ new_records today b1 b2) (tr_pending st)\<rparr>))"

section \<open>Verifying\<close>

definition no_price :: "int \<Rightarrow> pending_record \<Rightarrow> verified_record" where
  "no_price today r = \<lparr>vf_signal = r, vf_sell_price = None, vf_sell_date = today, vf_return = None,
     vf_hold_days = today - pn_buy_date r, vf_status = ''no_price''\<rparr>"

definition sold :: "int \<Rightarrow> pyfloat \<Rightarrow> pending_record \<Rightarrow> verified_record" where
  "sold today p r = \<lparr>vf_signal = r, vf_sell_price = Some p, vf_sell_date = today,
     vf_return = Some (py_round 2 (fmul (fdiv (fsub p (pn_buy_price r)) (pn_buy_price r)) 100)),
     vf_hold_days = today - pn_buy_date r, vf_status = ''verified''\<rparr>"

text \<open>One record stays pending (\<open>Inl\<close>) or is verified (\<open>Inr\<close>); division by a price of zero raises.\<close>

definition verify_one :: "int \<Rightarrow> (string, pyfloat) dict \<Rightarrow> pending_record
    \<Rightarrow> (string, pending_record + verified_record) result" where
  "verify_one today prices r = (let age = today - pn_buy_date r in
     if age < pn_hold r then Inr (Inl r)
     else (case dget prices (pn_code r) of
         Some p \<Rightarrow> if p \<le> 0 then Inr (if age < pn_hold r + 3 then Inl r else Inr (no_price today r))
           else if pn_buy_price r = 0 then Inl ''ZeroDivisionError'' else Inr (Inr (sold today p r))
       | None \<Rightarrow> Inr (if age < pn_hold r + 3 then Inl r else Inr (no_price today r))))"

fun verify_all :: "int \<Rightarrow> (string, pyfloat) dict \<Rightarrow> pending_record list
    \<Rightarrow> (string, pending_record list \<times> verified_record list) result" where
  "verify_all today prices [] = Inr ([], [])"
| "verify_all today prices (r # rs) = (case verify_one today prices r of Inl e \<Rightarrow> Inl e
     | Inr x \<Rightarrow> (case verify_all today prices rs of Inl e \<Rightarrow> Inl e
       | Inr (still, done1) \<Rightarrow> Inr (case x of Inl p \<Rightarrow> (p # still, done1) | Inr v \<Rightarrow> (still, v # done1))))"

definition verified_file :: "int \<Rightarrow> tracker \<Rightarrow> verified_record json_file" where
  "verified_file day st = dget_default (tr_verified st) day NoFile"

definition save_verified :: "written \<Rightarrow> int \<Rightarrow> verified_record list \<Rightarrow> tracker \<Rightarrow> (string, unit) result \<times> tracker" where
  "save_verified w today vs st = (case load_json (verified_file today st) of Inl e \<Rightarrow> (Inl e, st)
     | Inr old \<Rightarrow> (write_result w, st\<lparr>tr_verified := dset today (write_json w (old @ vs) (verified_file today st)) (tr_verified st)\<rparr>))"

text \<open>The pending file is written first, then the file of the verified records.\<close>

definition verify_pending :: "written \<Rightarrow> written \<Rightarrow> int \<Rightarrow> (string, pyfloat) dict \<Rightarrow> tracker \<Rightarrow> (string, unit) result \<times> tracker" where
  "verify_pending w1 w2 today prices st = (if prices = [] then (Inr (), st)
     else (case load_json (tr_pending st) of Inl e \<Rightarrow> (Inl e, st)
       | Inr pending \<Rightarrow> (case verify_all today prices pending of Inl e \<Rightarrow> (Inl e, st)
       | Inr (still, vs) \<Rightarrow> (let st1 = st\<lparr>tr_pending := write_json w1 still (tr_pending st)\<rparr> in
           if w1 \<noteq> Written then (write_result w1, st1)
           else if vs = [] then (Inr (), st1) else save_verified w2 today vs st1))))"

definition get_pending_count :: "tracker \<Rightarrow> (string, nat) result" where
  "get_pending_count st = map_sum id length (load_json (tr_pending st))"

section \<open>The summary\<close>

record group_stats =
  gp_count :: nat
  gp_avg :: pyfloat
  gp_win_rate :: pyfloat
  gp_max_gain :: pyfloat
  gp_max_loss :: pyfloat

definition fmean :: "pyfloat list \<Rightarrow> pyfloat" where "fmean xs = fdiv (py_sum xs) (of_nat (length xs))"

definition win_rate :: "pyfloat list \<Rightarrow> pyfloat" where
  "win_rate xs = py_round 1 (fmul (fdiv (of_nat (length (filter (\<lambda>r. 0 < r) xs))) (of_nat (length xs))) 100)"

definition stats_of :: "pyfloat list \<Rightarrow> group_stats" where
  "stats_of xs = \<lparr>gp_count = length xs, gp_avg = py_round 2 (fmean xs), gp_win_rate = win_rate xs,
     gp_max_gain = py_round 2 (pmax xs), gp_max_loss = py_round 2 (pmin xs)\<rparr>"

definition group_key :: "verified_record \<Rightarrow> ustr" where
  "group_key v = ustr_of (pn_strategy (vf_signal v)) @ [95] @ ustr_of (int_str (pn_score (vf_signal v))) @ [20998]"

definition groups_of :: "verified_record list \<Rightarrow> (ustr, pyfloat list) dict" where
  "groups_of vs = fold (\<lambda>v d. case vf_return v of None \<Rightarrow> d
     | Some x \<Rightarrow> dset (group_key v) (dget_default d (group_key v) [] @ [x]) d) vs []"

record summary =
  sm_total :: nat
  sm_period :: int
  sm_groups :: "(ustr, group_stats) dict"
  sm_overall :: "(nat \<times> pyfloat \<times> pyfloat) option"

text \<open>The files from the cutoff on, in the order in which the directory lists them; \<open>None\<close> without data.\<close>

definition recent_verified :: "int \<Rightarrow> int \<Rightarrow> tracker \<Rightarrow> (string, verified_record list) result" where
  "recent_verified today days st = fold (\<lambda>(d, f) acc. case acc of Inl e \<Rightarrow> Inl e
     | Inr vs \<Rightarrow> if today - days \<le> d then map_sum id (\<lambda>xs. vs @ xs) (load_json f) else Inr vs) (tr_verified st) (Inr [])"

definition performance_of :: "int \<Rightarrow> verified_record list \<Rightarrow> summary option" where
  "performance_of days vs = (let rs = List.map_filter vf_return vs in
     if vs = [] then None
     else Some \<lparr>sm_total = length vs, sm_period = days,
       sm_groups = map (\<lambda>(k, xs). (k, stats_of xs)) (sort_key fst (groups_of vs)),
       sm_overall = (if rs = [] then None else Some (length rs, py_round 2 (fmean rs), win_rate rs))\<rparr>)"

definition get_performance_summary :: "int \<Rightarrow> int \<Rightarrow> tracker \<Rightarrow> (string, summary option) result" where
  "get_performance_summary today days st = map_sum id (performance_of days) (recent_verified today days st)"

section \<open>The operations of the researcher\<close>

text \<open>The records that a file holds, and those that a write of it loses.\<close>

definition records_of :: "'a json_file \<Rightarrow> 'a list" where
  "records_of f = (case f of Stored xs \<Rightarrow> xs | _ \<Rightarrow> [])"

definition breaks :: "written \<Rightarrow> bool" where "breaks w \<longleftrightarrow> w = Broken \<or> w = Cut"

text \<open>
  What a verification loses: all waiting signals when the first write breaks the pending file; the
  due ones when the second write fails, after the pending file was written without them, and those
  of the verified file of the day when it breaks this file.
\<close>

definition verify_lost :: "written \<Rightarrow> written \<Rightarrow> int \<Rightarrow> (string, pyfloat) dict \<Rightarrow> tracker \<Rightarrow> pending_record multiset" where
  "verify_lost w1 w2 today prices st = (let vs = (case verify_all today prices (records_of (tr_pending st)) of
       Inr (still, vs) \<Rightarrow> vs | Inl e \<Rightarrow> []); file = verified_file today st in
     if prices = [] then {#}
     else if w1 \<noteq> Written then (if breaks w1 then mset (records_of (tr_pending st)) else {#})
     else if vs = [] \<or> (file \<noteq> CutFile \<and> w2 = Written) then {#}
     else mset (map vf_signal vs) + (if breaks w2 then mset (map vf_signal (records_of file)) else {#}))"

text \<open>
  The history variables are the list of all records that were added to the pending file, and the
  multiset of those that were lost. Between the operations a file may be broken from outside.
\<close>

inductive tracker_reachable :: "pending_record list \<Rightarrow> pending_record multiset \<Rightarrow> tracker \<Rightarrow> bool" where
  start: "tracker_reachable [] {#} empty_tracker"
| recorded: "tracker_reachable rs ls st \<Longrightarrow> tr_pending st \<noteq> CutFile \<Longrightarrow>
     today \<notin> set (map pn_buy_date (records_of (tr_pending st))) \<Longrightarrow>
     record_today_signals Written today b1 b2 st = (r, st') \<Longrightarrow>
     tracker_reachable (rs @ new_records today b1 b2) ls st'"
| skipped: "tracker_reachable rs ls st \<Longrightarrow>
     tr_pending st = CutFile \<or> today \<in> set (map pn_buy_date (records_of (tr_pending st))) \<Longrightarrow>
     record_today_signals w today b1 b2 st = (r, st') \<Longrightarrow> tracker_reachable rs ls st'"
| unrecorded: "tracker_reachable rs ls st \<Longrightarrow> tr_pending st \<noteq> CutFile \<Longrightarrow>
     today \<notin> set (map pn_buy_date (records_of (tr_pending st))) \<Longrightarrow>
     record_today_signals w today b1 b2 st = (r, st') \<Longrightarrow> w \<noteq> Written \<Longrightarrow>
     tracker_reachable rs (ls + (if breaks w then mset (records_of (tr_pending st)) else {#})) st'"
| verified: "tracker_reachable rs ls st \<Longrightarrow> verify_pending w1 w2 today prices st = (r, st') \<Longrightarrow>
     tr_pending st \<noteq> CutFile \<Longrightarrow> tracker_reachable rs (ls + verify_lost w1 w2 today prices st) st'"
| unverified: "tracker_reachable rs ls st \<Longrightarrow> verify_pending w1 w2 today prices st = (r, st') \<Longrightarrow>
     tr_pending st = CutFile \<Longrightarrow> tracker_reachable rs ls st'"
| pending_broken: "tracker_reachable rs ls st \<Longrightarrow> f = BadFile \<or> f = CutFile \<Longrightarrow>
     tracker_reachable rs (ls + mset (records_of (tr_pending st))) (st\<lparr>tr_pending := f\<rparr>)"
| verified_broken: "tracker_reachable rs ls st \<Longrightarrow> f = BadFile \<or> f = CutFile \<Longrightarrow>
     tracker_reachable rs (ls + mset (map vf_signal (records_of (verified_file day st))))
       (st\<lparr>tr_verified := dset day f (tr_verified st)\<rparr>)"

section \<open>No signal is lost without a failure\<close>

abbreviation pending_of :: "tracker \<Rightarrow> pending_record list" where
  "pending_of st \<equiv> records_of (tr_pending st)"

definition verified_of :: "tracker \<Rightarrow> verified_record multiset" where
  "verified_of st = mset (concat (map (\<lambda>(d, f). records_of f) (tr_verified st)))"

lemma records_of_simps [simp]: "records_of NoFile = []" "records_of BadFile = []" "records_of CutFile = []"
  "records_of (Stored xs) = xs"
  by (simp_all add: records_of_def)

lemma load_json_records: "load_json f = (if f = CutFile then Inl ''UnicodeDecodeError'' else Inr (records_of f))"
  by (cases f) (simp_all add: load_json_def)

lemma write_json_records: "records_of (write_json w xs f) = (if w = Written then xs else if breaks w then [] else records_of f)"
  by (cases w) (simp_all add: write_json_def breaks_def)

lemma dset_files:
  "mset (concat (map (\<lambda>(k, f). records_of f) (dset d f m))) + mset (records_of (dget_default m d NoFile))
   = mset (concat (map (\<lambda>(k, f). records_of f) m)) + mset (records_of f)"
  by (induction m) (auto simp: dget_default_def)

lemma verified_of_dset:
  "verified_of (st\<lparr>tr_verified := dset d f (tr_verified st)\<rparr>) + mset (records_of (verified_file d st))
   = verified_of st + mset (records_of f)"
  using dset_files [of d f "tr_verified st"] by (simp add: verified_of_def verified_file_def)

text \<open>The verified records after saving: what is new is added, what a failure loses is gone.\<close>

lemma verified_of_save:
  assumes "save_verified w today vs st = (r, st')"
  shows "tr_pending st' = tr_pending st \<and> verified_of st' + (if verified_file today st \<noteq> CutFile \<and> w = Written then {#}
      else mset vs + (if breaks w then mset (records_of (verified_file today st)) else {#}))
    = verified_of st + mset vs"
proof (cases "verified_file today st = CutFile")
  case False
  then have "st' = st\<lparr>tr_verified := dset today (write_json w (records_of (verified_file today st) @ vs) (verified_file today st)) (tr_verified st)\<rparr>"
    using assms by (simp add: save_verified_def load_json_records)
  then show ?thesis using False
      verified_of_dset [of today "write_json w (records_of (verified_file today st) @ vs) (verified_file today st)" st]
    by (auto simp: write_json_records breaks_def)
next
  case True
  then show ?thesis using assms by (auto simp: save_verified_def load_json_def)
qed

text \<open>What a verified record says.\<close>

definition verdict_ok :: "verified_record \<Rightarrow> bool" where
  "verdict_ok v \<longleftrightarrow> vf_hold_days v = vf_sell_date v - pn_buy_date (vf_signal v) \<and> pn_hold (vf_signal v) \<le> vf_hold_days v
    \<and> (case vf_sell_price v of
        Some p \<Rightarrow> 0 < p \<and> vf_status v = ''verified'' \<and> vf_return v = Some (py_round 2
          (fmul (fdiv (fsub p (pn_buy_price (vf_signal v))) (pn_buy_price (vf_signal v))) 100))
      | None \<Rightarrow> vf_status v = ''no_price'' \<and> vf_return v = None \<and> pn_hold (vf_signal v) + 3 \<le> vf_hold_days v)"

lemma verify_one_cases:
  assumes "0 < pn_buy_price r"
  shows "verify_one today prices r = Inr (Inl r) \<and> today - pn_buy_date r < pn_hold r + 3
    \<or> (\<exists>v. verify_one today prices r = Inr (Inr v) \<and> vf_signal v = r \<and> verdict_ok v)"
  using assms by (auto simp: verify_one_def Let_def no_price_def sold_def verdict_ok_def split: option.splits)

lemma verify_all_total:
  assumes "\<forall>r \<in> set rs. 0 < pn_buy_price r"
  shows "\<exists>still vs. verify_all today prices rs = Inr (still, vs) \<and> mset rs = mset still + mset (map vf_signal vs)
    \<and> (\<forall>r \<in> set still. today - pn_buy_date r < pn_hold r + 3) \<and> (\<forall>v \<in> set vs. verdict_ok v)"
  using assms
proof (induction rs)
  case (Cons r rs)
  then obtain still vs where v: "verify_all today prices rs = Inr (still, vs)"
    "mset rs = mset still + mset (map vf_signal vs)"
    "\<forall>r \<in> set still. today - pn_buy_date r < pn_hold r + 3" "\<forall>v \<in> set vs. verdict_ok v" by auto
  from verify_one_cases [of r today prices] Cons.prems v show ?case by auto
qed simp

lemma new_records_priced: "\<forall>r \<in> set (new_records today b1 b2). 0 < pn_buy_price r"
proof -
  have ext: "\<forall>r \<in> set (extend_tags c ts rs). 0 < pn_buy_price r" if "\<forall>r \<in> set rs. 0 < pn_buy_price r" for c ts rs
    using that by (induction rs) auto
  show ?thesis unfolding new_records_def
    by (rule fold_keeps [where P = "\<lambda>rs. \<forall>r \<in> set rs. 0 < pn_buy_price r"])
      (auto simp: add_b2_def b1_record_def b2_record_def not_le dest: ext [rule_format, rotated])
qed

definition tracker_ok :: "pending_record list \<Rightarrow> pending_record multiset \<Rightarrow> tracker \<Rightarrow> bool" where
  "tracker_ok rs ls st \<longleftrightarrow> mset rs = mset (pending_of st) + image_mset vf_signal (verified_of st) + ls
     \<and> (\<forall>r \<in> set (pending_of st). 0 < pn_buy_price r) \<and> (\<forall>v \<in># verified_of st. verdict_ok v)"

text \<open>The due records as \<open>verify_lost\<close> counts them.\<close>

lemma verify_written:
  assumes "prices \<noteq> []" "tr_pending st \<noteq> CutFile" "verify_all today prices (pending_of st) = Inr (still, vs)"
    "verify_pending w1 w2 today prices st = (r, st')"
  shows "w1 \<noteq> Written \<Longrightarrow> r = write_result w1 \<and> st' = st\<lparr>tr_pending := write_json w1 still (tr_pending st)\<rparr>"
    "w1 = Written \<Longrightarrow> vs = [] \<Longrightarrow> r = Inr () \<and> st' = st\<lparr>tr_pending := Stored still\<rparr>"
    "w1 = Written \<Longrightarrow> vs \<noteq> [] \<Longrightarrow> save_verified w2 today vs (st\<lparr>tr_pending := Stored still\<rparr>) = (r, st')"
  using assms by (simp_all add: verify_pending_def load_json_records write_json_def)

lemma verify_pending_saved:
  assumes ok: "tracker_ok rs ls st" and p: "prices \<noteq> []" "tr_pending st \<noteq> CutFile"
    and v: "verify_all today prices (pending_of st) = Inr (still, vs)"
      "mset (pending_of st) = mset still + mset (map vf_signal vs)" "\<forall>v \<in> set vs. verdict_ok v" "vs \<noteq> []"
    and r: "verify_pending Written w2 today prices st = (r, st')"
  shows "pending_of st' = still \<and> tracker_ok rs (ls + verify_lost Written w2 today prices st) st'"
proof -
  let ?t = "st\<lparr>tr_pending := Stored still\<rparr>"
  define lost where "lost = (if verified_file today st \<noteq> CutFile \<and> w2 = Written then {#}
      else mset vs + (if breaks w2 then mset (records_of (verified_file today st)) else {#}))"
  have f: "verified_file today ?t = verified_file today st" "verified_of ?t = verified_of st"
    by (simp_all add: verified_file_def verified_of_def)
  have s: "tr_pending st' = Stored still" "verified_of st' + lost = verified_of st + mset vs"
    using verified_of_save [OF verify_written(3) [OF p v(1) r refl v(4)]] unfolding f lost_def by simp_all
  have "verify_lost Written w2 today prices st = image_mset vf_signal lost"
    using p(1) v(4) by (simp add: verify_lost_def v(1) lost_def Let_def)
  moreover have "image_mset vf_signal (verified_of st') + image_mset vf_signal lost
      = image_mset vf_signal (verified_of st) + mset (map vf_signal vs)"
    using arg_cong [OF s(2), of "image_mset vf_signal"] by simp
  moreover have "verified_of st' \<subseteq># verified_of st + mset vs" by (metis s(2) mset_subset_eq_add_left)
  then have "\<forall>v \<in># verified_of st'. verdict_ok v" using ok v(3) by (force simp: tracker_ok_def dest: mset_subset_eqD)
  moreover have "set still \<subseteq> set (pending_of st)" using v(2) by (metis mset_subset_eq_add_left set_mset_mono set_mset_mset)
  ultimately show ?thesis using ok v(2) s(1) by (auto simp: tracker_ok_def)
qed

lemma verify_pending_ok:
  assumes ok: "tracker_ok rs ls st" and p: "tr_pending st \<noteq> CutFile"
    and r: "verify_pending w1 w2 today prices st = (r, st')"
  shows "tracker_ok rs (ls + verify_lost w1 w2 today prices st) st'
    \<and> (w1 = Written \<and> w2 = Written \<and> verified_file today st \<noteq> CutFile \<longrightarrow> r = Inr ()
      \<and> (prices \<noteq> [] \<longrightarrow> (\<forall>r \<in> set (pending_of st'). today - pn_buy_date r < pn_hold r + 3)))"
proof (cases "prices = []")
  case True
  then show ?thesis using ok r by (simp add: verify_pending_def verify_lost_def)
next
  case False
  obtain still vs where v: "verify_all today prices (pending_of st) = Inr (still, vs)"
    "mset (pending_of st) = mset still + mset (map vf_signal vs)"
    "\<forall>r \<in> set still. today - pn_buy_date r < pn_hold r + 3" "\<forall>v \<in> set vs. verdict_ok v"
    using verify_all_total [of "pending_of st" today prices] ok by (auto simp: tracker_ok_def)
  note w = verify_written [OF False p v(1) r]
  have still: "set still \<subseteq> set (pending_of st)" using v(2) by (metis mset_subset_eq_add_left set_mset_mono set_mset_mset)
  consider "w1 \<noteq> Written" | "w1 = Written" "vs = []" | "w1 = Written" "vs \<noteq> []" by blast
  then show ?thesis
  proof cases
    case 1
    then show ?thesis using ok w(1) False
      by (auto simp: tracker_ok_def verify_lost_def v(1) write_json_records verified_of_def Let_def)
  next
    case 2
    then show ?thesis using ok w(2) still v(2,3) by (auto simp: tracker_ok_def verify_lost_def v(1) verified_of_def Let_def)
  next
    case 3
    have "r = Inr ()" if "w2 = Written" "verified_file today st \<noteq> CutFile"
      using w(3) [OF 3] that by (auto simp: save_verified_def load_json_records verified_file_def write_result_def)
    then show ?thesis using verify_pending_saved [OF ok False p v(1,2,4) 3(2)] r 3(1) v(3) by auto
  qed
qed

lemma record_ok:
  assumes "record_today_signals w today b1 b2 st = (r, st')" "tr_pending st \<noteq> CutFile"
    "today \<notin> set (map pn_buy_date (pending_of st))"
  shows "st' = st\<lparr>tr_pending := write_json w (pending_of st @ new_records today b1 b2) (tr_pending st)\<rparr>"
  using assms by (auto simp: record_today_signals_def load_json_records)

lemma tracker_reachable_ok: "tracker_reachable rs ls st \<Longrightarrow> tracker_ok rs ls st"
proof (induction rule: tracker_reachable.induct)
  case start
  show ?case by (simp add: tracker_ok_def empty_tracker_def verified_of_def)
next
  case (recorded rs ls st today b1 b2 r st')
  then show ?case using new_records_priced [of today b1 b2]
    unfolding record_ok [OF recorded.hyps(4,2,3)] by (auto simp: tracker_ok_def write_json_def verified_of_def)
next
  case (skipped rs ls st today w b1 b2 r st')
  then show ?case by (auto simp: record_today_signals_def load_json_records split: if_splits)
next
  case (unrecorded rs ls st today w b1 b2 r st')
  then show ?case unfolding record_ok [OF unrecorded.hyps(4,2,3)]
    by (auto simp: tracker_ok_def write_json_records verified_of_def)
next
  case (verified rs ls st w1 w2 today prices r st')
  then show ?case using verify_pending_ok by blast
next
  case (unverified rs ls st w1 w2 today prices r st')
  then show ?case by (auto simp: verify_pending_def load_json_def split: if_splits)
next
  case (pending_broken rs ls st f)
  then show ?case by (auto simp: tracker_ok_def verified_of_def)
next
  case (verified_broken rs ls st f day)
  let ?u = "st\<lparr>tr_verified := dset day f (tr_verified st)\<rparr>"
  have e: "verified_of ?u + mset (records_of (verified_file day st)) = verified_of st"
    using verified_of_dset [of day f st] verified_broken.hyps(2) by auto
  then have "image_mset vf_signal (verified_of ?u) + mset (map vf_signal (records_of (verified_file day st)))
      = image_mset vf_signal (verified_of st)" by (metis image_mset_union mset_map)
  moreover have "set_mset (verified_of ?u) \<subseteq> set_mset (verified_of st)" using e by (metis mset_subset_eq_add_left set_mset_mono)
  ultimately show ?case using verified_broken.IH by (auto simp: tracker_ok_def)
qed

text \<open>
  C4: No signal is lost between the days without a failure: in every reachable state the recorded
  signals are, with their multiplicity, the pending ones, the verified ones, and those lost when a
  file was broken or when the second write of a verification failed. A verified one was held for
  its time and has the rounded return of the price it was sold at, or had no price for three
  days more. A verification whose files can be decoded and written never raises, and when it gets
  any price it leaves no signal pending that is three days overdue.
\<close>

theorem tracker_conservation:
  assumes "tracker_reachable rs ls st"
  shows "mset rs = mset (records_of (tr_pending st)) + image_mset vf_signal (verified_of st) + ls
    \<and> (\<forall>v \<in># verified_of st. verdict_ok v)
    \<and> (tr_pending st \<noteq> CutFile \<and> verified_file today st \<noteq> CutFile \<longrightarrow>
        (\<exists>st'. verify_pending Written Written today prices st = (Inr (), st')
          \<and> (prices \<noteq> [] \<longrightarrow> (\<forall>r \<in> set (records_of (tr_pending st')). today - pn_buy_date r < pn_hold r + 3))))"
proof -
  obtain r st' where r: "verify_pending Written Written today prices st = (r, st')" by force
  note ok = tracker_reachable_ok [OF assms]
  show ?thesis using ok verify_pending_ok [OF ok _ r] r by (auto simp: tracker_ok_def)
qed

definition ex_signal :: signal where
  "ex_signal = \<lparr>sg_code = ''600519'', sg_name = [35980], sg_price = 10, sg_score = Some 3, sg_tags = None\<rparr>"

definition ex_recorded :: tracker where
  "ex_recorded = \<lparr>tr_pending = Stored [b1_record 1 ex_signal], tr_verified = []\<rparr>"

lemma ex_recorded_step: "record_today_signals Written 1 (Some [ex_signal]) None empty_tracker = (Inr (), ex_recorded)"
  by (simp add: record_today_signals_def load_json_def empty_tracker_def new_records_def ex_signal_def
      ex_recorded_def write_json_def write_result_def)

lemma ex_recorded_reachable: "tracker_reachable [b1_record 1 ex_signal] {#} ex_recorded"
proof -
  have "new_records 1 (Some [ex_signal]) None = [b1_record 1 ex_signal]" by (simp add: new_records_def ex_signal_def)
  then show ?thesis using tracker_reachable.recorded [OF tracker_reachable.start _ _ ex_recorded_step]
    by (simp add: empty_tracker_def)
qed

lemma ex_due: "verify_one 4 [(''600519'', 11)] (b1_record 1 ex_signal) = Inr (Inr (sold 4 11 (b1_record 1 ex_signal)))"
  by (simp add: verify_one_def b1_record_def ex_signal_def hold_days_def)

text \<open>The second write of a verification fails: the due signal is in neither file.\<close>

lemma second_write_lost:
  "verify_pending Written NotOpened 4 [(''600519'', 11)] ex_recorded = (Inl ''OSError'', st)
   \<Longrightarrow> records_of (tr_pending st) = [] \<and> verified_of st = {#}"
  "fst (verify_pending Written NotOpened 4 [(''600519'', 11)] ex_recorded) = Inl ''OSError''"
  by (auto simp: verify_pending_def load_json_def ex_recorded_def ex_due save_verified_def verified_file_def
      dget_default_def write_json_def write_result_def verified_of_def)

lemma tracker_conservation_witness:
  "\<exists>st'. verify_pending Written Written 4 [(''600519'', 11)] ex_recorded = (Inr (), st') \<and> records_of (tr_pending st') = []
    \<and> image_mset vf_signal (verified_of st') = {#b1_record 1 ex_signal#}"
proof -
  have "tr_pending ex_recorded \<noteq> CutFile \<and> verified_file 4 ex_recorded \<noteq> CutFile"
    by (simp add: ex_recorded_def verified_file_def dget_default_def)
  then obtain st' where st': "verify_pending Written Written 4 [(''600519'', 11)] ex_recorded = (Inr (), st')"
    using tracker_conservation [OF ex_recorded_reachable, of 4 "[(''600519'', 11)]"] by blast
  have "records_of (tr_pending st') = []"
    using st' by (auto simp: verify_pending_def load_json_def ex_recorded_def ex_due save_verified_def verified_file_def
        dget_default_def write_json_def)
  moreover have "verify_lost Written Written 4 [(''600519'', 11)] ex_recorded = {#}"
    by (simp add: verify_lost_def ex_recorded_def verified_file_def dget_default_def Let_def)
  then have "tracker_reachable [b1_record 1 ex_signal] {#} st'"
    using tracker_reachable.verified [OF ex_recorded_reachable st'] by (simp add: ex_recorded_def)
  from tracker_conservation [OF this] \<open>records_of (tr_pending st') = []\<close>
  have "image_mset vf_signal (verified_of st') = {#b1_record 1 ex_signal#}" by simp
  ultimately show ?thesis using st' by blast
qed

end
