(* ===== verification/RateLimiter.thy ===== *)
theory RateLimiter
  imports PyFloat Prelude
begin

text \<open>
  The sliding windows: \<open>app/core/rate_limiter.py\<close>, and the contract it shares with the hourly limit
  of the quotes ingestion. Times are the floats of \<open>time.time\<close>; the clock after a sleep is a
  parameter. The lock makes one call of \<open>acquire\<close> a single step.
\<close>

section \<open>The contract of a sliding window\<close>

text \<open>
  \<open>spaced n g\<close>: of the granted calls \<open>g\<close> (oldest first) no \<open>n + 1\<close> lie in one window, since each call
  is stale when the \<open>n\<close>-th one after it is granted.
\<close>

definition spaced :: "('t \<Rightarrow> 't \<Rightarrow> bool) \<Rightarrow> nat \<Rightarrow> 't list \<Rightarrow> bool" where
  "spaced stale n g \<longleftrightarrow> (\<forall>i. i + n < length g \<longrightarrow> stale (g ! (i + n)) (g ! i))"

text \<open>
  \<open>cs\<close> are the calls that the window keeps of the granted ones \<open>g\<close>, \<open>seen\<close> is the latest reading of
  the clock.
\<close>

definition window_ok :: "('t::linorder \<Rightarrow> 't \<Rightarrow> bool) \<Rightarrow> nat \<Rightarrow> 't \<Rightarrow> 't list \<Rightarrow> 't list \<Rightarrow> bool" where
  "window_ok stale n seen g cs \<longleftrightarrow> sorted g \<and> (\<forall>c \<in> set g. c \<le> seen) \<and> length cs \<le> n \<and> spaced stale n g
     \<and> (\<exists>old. g = old @ cs \<and> (\<forall>c \<in> set old. stale seen c))"

locale sliding_window =
  fixes stale :: "'t::linorder \<Rightarrow> 't \<Rightarrow> bool"
  assumes stale_later: "now \<le> now' \<Longrightarrow> stale now c \<Longrightarrow> stale now' c"
begin

lemma start: "window_ok stale n seen [] []"
  by (simp add: window_ok_def spaced_def)

lemma later: "window_ok stale n seen g cs \<Longrightarrow> seen \<le> now \<Longrightarrow> window_ok stale n now g cs"
  unfolding window_ok_def by (blast intro: order_trans stale_later)

text \<open>Removing what is stale keeps the contract.\<close>

lemma purge:
  assumes "window_ok stale n seen g cs" "seen \<le> now"
  shows "window_ok stale n now g (dropWhile (stale now) cs)"
proof -
  have w: "window_ok stale n now g cs" using later assms by blast
  then obtain old where old: "g = old @ cs" "\<forall>c \<in> set old. stale now c" by (auto simp: window_ok_def)
  have "g = (old @ takeWhile (stale now) cs) @ dropWhile (stale now) cs" using old(1) by simp
  moreover have "\<forall>c \<in> set (old @ takeWhile (stale now) cs). stale now c"
    using old(2) by (auto dest: set_takeWhileD)
  moreover have "length (dropWhile (stale now) cs) \<le> n"
    using w length_dropWhile_le [of "stale now" cs] by (simp add: window_ok_def)
  ultimately show ?thesis using w unfolding window_ok_def by blast
qed

text \<open>A call is granted at \<open>t\<close> while fewer than \<open>n\<close> calls are kept.\<close>

lemma grant:
  assumes "window_ok stale n now g cs" "length cs < n" "now \<le> t"
  shows "window_ok stale n t (g @ [t]) (cs @ [t])"
proof -
  have w: "window_ok stale n t g cs" using later assms(1,3) by blast
  then obtain old where old: "g = old @ cs" "\<forall>c \<in> set old. stale t c" by (auto simp: window_ok_def)
  have len: "length g < length old + n" using old(1) assms(2) by simp
  have "stale ((g @ [t]) ! (i + n)) ((g @ [t]) ! i)" if i: "i + n < length (g @ [t])" for i
  proof (cases "i + n < length g")
    case True
    then show ?thesis using w by (simp add: window_ok_def spaced_def nth_append)
  next
    case False
    then have "i + n = length g" using i by simp
    moreover from this have "i < length old" using len by linarith
    moreover from this have "g ! i \<in> set old" "i < length g" using old(1) by (simp_all add: nth_append)
    ultimately show ?thesis using old(2) by (simp add: nth_append)
  qed
  then have "spaced stale n (g @ [t])" by (simp add: spaced_def)
  moreover have "sorted (g @ [t])" using w by (simp add: window_ok_def sorted_append)
  moreover have "g @ [t] = old @ (cs @ [t])" using old(1) by simp
  ultimately show ?thesis using w old(2) assms(2) by (auto simp: window_ok_def)
qed

end

section \<open>The limiter\<close>

record limiter_cfg =
  lc_max_calls :: int
  lc_window :: pyfloat

record limiter =
  lm_calls :: "pyfloat list"
  lm_total :: nat
  lm_waits :: nat
  lm_wait_time :: pyfloat

definition new_limiter :: limiter where
  "new_limiter = \<lparr>lm_calls = [], lm_total = 0, lm_waits = 0, lm_wait_time = 0\<rparr>"

definition rl_stale :: "pyfloat \<Rightarrow> pyfloat \<Rightarrow> pyfloat \<Rightarrow> bool" where
  "rl_stale window now c \<longleftrightarrow> c \<le> fsub now window"

definition rl_purge :: "pyfloat \<Rightarrow> pyfloat \<Rightarrow> pyfloat list \<Rightarrow> pyfloat list" where
  "rl_purge window now cs = dropWhile (rl_stale window now) cs"

definition wait_time :: "pyfloat \<Rightarrow> pyfloat \<Rightarrow> pyfloat \<Rightarrow> pyfloat" where
  "wait_time window now oldest = fadd (fsub (fadd oldest window) now) (fl (1 / 100))"

definition granted :: "pyfloat \<Rightarrow> pyfloat list \<Rightarrow> limiter \<Rightarrow> limiter" where
  "granted t cs l = l\<lparr>lm_calls := cs @ [t], lm_total := lm_total l + 1\<rparr>"

text \<open>
  \<open>acquire\<close> at the time \<open>now\<close>; \<open>wake d\<close> is the clock after a sleep of \<open>d\<close> seconds. It gives the time
  of the granted call. With a limit that is not positive the empty queue is read.
\<close>

definition acquire :: "limiter_cfg \<Rightarrow> pyfloat \<Rightarrow> (pyfloat \<Rightarrow> pyfloat) \<Rightarrow> limiter \<Rightarrow> (string, pyfloat \<times> limiter) result" where
  "acquire c now wake l = (let cs = rl_purge (lc_window c) now (lm_calls l) in
     if lc_max_calls c \<le> int (length cs) then (case cs of [] \<Rightarrow> Inl ''IndexError''
       | oldest # _ \<Rightarrow> (let d = wait_time (lc_window c) now oldest in
           if 0 < d then (let now2 = wake d in
             Inr (now2, granted now2 (rl_purge (lc_window c) now2 cs)
               (l\<lparr>lm_waits := lm_waits l + 1, lm_wait_time := fadd (lm_wait_time l) d\<rparr>)))
           else Inr (now, granted now cs l)))
     else Inr (now, granted now cs l))"

definition reset_stats :: "limiter \<Rightarrow> limiter" where
  "reset_stats l = l\<lparr>lm_total := 0, lm_waits := 0, lm_wait_time := 0\<rparr>"

record limiter_stats =
  st_max_calls :: int
  st_window :: pyfloat
  st_current :: nat
  st_total :: nat
  st_waits :: nat
  st_wait_time :: pyfloat
  st_avg_wait :: pyfloat

definition get_stats :: "limiter_cfg \<Rightarrow> limiter \<Rightarrow> limiter_stats" where
  "get_stats c l = \<lparr>st_max_calls = lc_max_calls c, st_window = lc_window c, st_current = length (lm_calls l),
     st_total = lm_total l, st_waits = lm_waits l, st_wait_time = lm_wait_time l,
     st_avg_wait = (if 0 < lm_waits l then fdiv (lm_wait_time l) (of_nat (lm_waits l)) else 0)\<rparr>"

text \<open>The limits of the sources; \<open>int\<close> cuts off the fraction of the limit with its margin.\<close>

definition tier_limit :: "string \<Rightarrow> int option" where
  "tier_limit t = map_of [(''free'', 100), (''basic'', 200), (''standard'', 400), (''premium'', 600), (''vip'', 800)] t"

definition py_trunc :: "pyfloat \<Rightarrow> int" where
  "py_trunc x = (if x < 0 then - \<lfloor>- x\<rfloor> else \<lfloor>x\<rfloor>)"

definition tushare_cfg :: "string \<Rightarrow> pyfloat \<Rightarrow> limiter_cfg" where
  "tushare_cfg tier margin = \<lparr>lc_max_calls =
     py_trunc (fmul (of_int (case tier_limit tier of Some n \<Rightarrow> n | None \<Rightarrow> 400)) margin), lc_window = 60\<rparr>"

definition akshare_cfg :: limiter_cfg where "akshare_cfg = \<lparr>lc_max_calls = 60, lc_window = 60\<rparr>"

definition baostock_cfg :: limiter_cfg where "baostock_cfg = \<lparr>lc_max_calls = 100, lc_window = 60\<rparr>"

text \<open>The three shared instances: the arguments count only for the first call.\<close>

record limiters =
  ls_tushare :: "(limiter_cfg \<times> limiter) option"
  ls_akshare :: "(limiter_cfg \<times> limiter) option"
  ls_baostock :: "(limiter_cfg \<times> limiter) option"

definition no_limiters :: limiters where
  "no_limiters = \<lparr>ls_tushare = None, ls_akshare = None, ls_baostock = None\<rparr>"

definition get_tushare_rate_limiter :: "string \<Rightarrow> pyfloat \<Rightarrow> limiters \<Rightarrow> (limiter_cfg \<times> limiter) \<times> limiters" where
  "get_tushare_rate_limiter tier margin g = (let x = or_default (ls_tushare g) (tushare_cfg tier margin, new_limiter) in
     (x, g\<lparr>ls_tushare := Some x\<rparr>))"

definition get_akshare_rate_limiter :: "limiters \<Rightarrow> (limiter_cfg \<times> limiter) \<times> limiters" where
  "get_akshare_rate_limiter g = (let x = or_default (ls_akshare g) (akshare_cfg, new_limiter) in
     (x, g\<lparr>ls_akshare := Some x\<rparr>))"

definition get_baostock_rate_limiter :: "limiters \<Rightarrow> (limiter_cfg \<times> limiter) \<times> limiters" where
  "get_baostock_rate_limiter g = (let x = or_default (ls_baostock g) (baostock_cfg, new_limiter) in
     (x, g\<lparr>ls_baostock := Some x\<rparr>))"

definition reset_all_limiters :: "limiters \<Rightarrow> limiters" where
  "reset_all_limiters g = no_limiters"

section \<open>No more calls than the limit in any window\<close>

interpretation limiter: sliding_window "rl_stale window" for window
  by unfold_locales (simp add: rl_stale_def fsub_def, meson diff_right_mono fl_mono order_trans)

text \<open>
  What the times may be: doubles from 1970 to the year 2514, with a window between a second and
  twelve days; the sleep takes at least as long as it was asked to.
\<close>

definition clock_value :: "pyfloat \<Rightarrow> bool" where
  "clock_value t \<longleftrightarrow> is_double t \<and> 0 \<le> t \<and> t < 2 ^ 34"

definition window_value :: "pyfloat \<Rightarrow> bool" where
  "window_value w \<longleftrightarrow> 1 \<le> w \<and> w \<le> 2 ^ 20"

definition wakes :: "pyfloat \<Rightarrow> (pyfloat \<Rightarrow> pyfloat) \<Rightarrow> bool" where
  "wakes now wake \<longleftrightarrow> (\<forall>d. 0 < d \<and> d \<le> 2 ^ 21 \<longrightarrow> now + d \<le> wake d \<and> clock_value (wake d))"

lemma near:
  assumes "- (2 ^ 36) < x" "x < 2 ^ 36"
  shows "x - 1 / 2 ^ 18 \<le> fl x" "fl x \<le> x + 1 / 2 ^ 18"
proof -
  have "\<bar>x\<bar> < 2 powi 36" using assms by simp
  from fl_error_bound [OF this] have "\<bar>fl x - x\<bar> \<le> 1 / 2 ^ 18" by (simp add: power_int_minus field_simps)
  then show "x - 1 / 2 ^ 18 \<le> fl x" "fl x \<le> x + 1 / 2 ^ 18" by (simp_all only: abs_le_iff) linarith+
qed

text \<open>A wait is positive and leads behind the window of the oldest call.\<close>

lemma wait_time_enough:
  assumes "clock_value now" "clock_value oldest" "oldest \<le> now" "window_value w" "\<not> rl_stale w now oldest"
  shows "0 < wait_time w now oldest" "wait_time w now oldest \<le> w + 1 / 50"
    "now + wait_time w now oldest \<le> t \<Longrightarrow> rl_stale w t oldest"
proof -
  define e where "e = (1 / 2 ^ 18 :: rat)"
  define a where "a = fl (oldest + w)"
  define b where "b = fl (a - now)"
  define k where "k = fl (1 / 100 :: rat)"
  have e: "0 < e" "e * 1000 < 1 / 100 * 1000" "e < 1 / 2000" by (simp_all add: e_def)
  note nr = near [folded e_def]
  have r: "0 \<le> now" "now < 2 ^ 34" "0 \<le> oldest" "oldest < 2 ^ 34" "1 \<le> w" "w \<le> 2 ^ 20" "is_double oldest"
    using assms(1,2,4) by (auto simp: clock_value_def window_value_def)
  then have rr: "now < 17179869184" "oldest < 17179869184" "w \<le> 1048576" by simp_all
  have "- (2 ^ 36) < now - w" "now - w < 2 ^ 36" using r rr by simp_all
  note n = nr [OF this]
  have "- (2 ^ 36) < oldest + w" "oldest + w < 2 ^ 36" using r rr by simp_all
  note a = nr [OF this, folded a_def]
  have "- (2 ^ 36) < a - now" "a - now < 2 ^ 36" using r rr a e by simp_all
  note b = nr [OF this, folded b_def]
  have "- (2 ^ 36) < (1 / 100 :: rat)" "(1 / 100 :: rat) < 2 ^ 36" by simp_all
  note k = nr [OF this, folded k_def]
  have late: "fl (now - w) < oldest" using assms(5) by (simp add: rl_stale_def fsub_def not_le)
  have bk: "- e * 3 + 1 / 100 - e \<le> b + k" "b + k \<le> w + e * 3 + 1 / 100" using a b k late n assms(3) by linarith+
  have "- (2 ^ 36) < b + k" "b + k < 2 ^ 36" using bk e rr by simp_all
  note s = nr [OF this]
  have wt: "wait_time w now oldest = fl (b + k)"
    by (simp add: wait_time_def fadd_def fsub_def a_def b_def k_def)
  show "0 < wait_time w now oldest" using wt s bk e by linarith
  show "wait_time w now oldest \<le> w + 1 / 50" using wt s bk e by linarith
  assume t: "now + wait_time w now oldest \<le> t"
  have "oldest \<le> t - w" using t wt s k b a e by linarith
  then show "rl_stale w t oldest" using fl_ge_double [OF r(7)] by (simp add: rl_stale_def fsub_def)
qed

text \<open>The calls of one limiter: \<open>g\<close> are the times of all granted calls, \<open>seen\<close> the latest clock.\<close>

inductive limiter_run :: "limiter_cfg \<Rightarrow> pyfloat list \<Rightarrow> pyfloat \<Rightarrow> limiter \<Rightarrow> bool" for c where
  start: "limiter_run c [] seen new_limiter"
| call: "limiter_run c g seen l \<Longrightarrow> seen \<le> now \<Longrightarrow> clock_value now \<Longrightarrow> wakes now wake
    \<Longrightarrow> acquire c now wake l = Inr (t, l') \<Longrightarrow> limiter_run c (g @ [t]) t l'"
| reset: "limiter_run c g seen l \<Longrightarrow> limiter_run c g seen (reset_stats l)"

definition limiter_ok :: "limiter_cfg \<Rightarrow> pyfloat list \<Rightarrow> pyfloat \<Rightarrow> limiter \<Rightarrow> bool" where
  "limiter_ok c g seen l \<longleftrightarrow> (\<forall>t \<in> set g. clock_value t)
     \<and> window_ok (rl_stale (lc_window c)) (nat (lc_max_calls c)) seen g (lm_calls l)"

lemma acquire_ok:
  assumes "limiter_ok c g seen l" "0 < lc_max_calls c" "window_value (lc_window c)"
    "seen \<le> now" "clock_value now" "wakes now wake"
  shows "\<exists>t l'. acquire c now wake l = Inr (t, l') \<and> limiter_ok c (g @ [t]) t l'
    \<and> (t = now \<or> (\<exists>d. 0 < d \<and> d \<le> lc_window c + 1 / 50 \<and> t = wake d))"
proof -
  let ?w = "lc_window c" and ?n = "nat (lc_max_calls c)"
  define cs where "cs = rl_purge ?w now (lm_calls l)"
  have ok: "window_ok (rl_stale ?w) ?n now g cs"
    using assms(1,4) unfolding cs_def rl_purge_def limiter_ok_def by (blast intro: limiter.purge)
  show ?thesis
  proof (cases "lc_max_calls c \<le> int (length cs)")
    case False
    then have "window_ok (rl_stale ?w) ?n now (g @ [now]) (cs @ [now])"
      using limiter.grant [OF ok] by simp
    then show ?thesis using False assms(1,5)
      by (simp add: acquire_def cs_def [symmetric] granted_def limiter_ok_def Let_def)
  next
    case True
    then obtain x xs where cs: "cs = x # xs" using assms(2) by (cases cs) auto
    let ?d = "wait_time ?w now x"
    have x: "x \<in> set g" using ok cs by (auto simp: window_ok_def)
    have "\<not> rl_stale ?w now x" using cs by (simp add: cs_def rl_purge_def dropWhile_eq_Cons_conv)
    moreover have "clock_value x" "x \<le> now" using x ok assms(1) by (auto simp: limiter_ok_def window_ok_def)
    ultimately have d: "0 < ?d" "?d \<le> ?w + 1 / 50" "\<And>t. now + ?d \<le> t \<Longrightarrow> rl_stale ?w t x"
      using wait_time_enough assms(3,5) by blast+
    have "?d \<le> 2 ^ 21" using d(2) assms(3) by (simp add: window_value_def)
    then have wk: "now + ?d \<le> wake ?d" "clock_value (wake ?d)" using assms(6) d(1) by (auto simp: wakes_def)
    let ?t = "wake ?d" let ?cs2 = "rl_purge ?w ?t cs"
    have ok2: "window_ok (rl_stale ?w) ?n ?t g ?cs2"
      using limiter.purge [OF ok] wk d(1) by (simp add: rl_purge_def)
    have "length ?cs2 \<le> length xs" using d(3) [OF wk(1)] cs length_dropWhile_le [of "rl_stale ?w ?t" xs]
      by (simp add: rl_purge_def)
    then have "length ?cs2 < ?n" using ok cs assms(2) by (simp add: window_ok_def)
    then have "window_ok (rl_stale ?w) ?n ?t (g @ [?t]) (?cs2 @ [?t])" using limiter.grant [OF ok2] by simp
    then show ?thesis using True cs d(1,2) wk(2) assms(1)
      by (auto simp: acquire_def cs_def [symmetric] granted_def limiter_ok_def Let_def)
  qed
qed

lemma limiter_run_ok:
  assumes "limiter_run c g seen l" "0 < lc_max_calls c" "window_value (lc_window c)"
  shows "limiter_ok c g seen l"
  using assms
proof (induction rule: limiter_run.induct)
  case (start seen)
  show ?case by (simp add: limiter_ok_def new_limiter_def limiter.start)
next
  case (call g seen l now wake t l')
  from acquire_ok [OF call.IH [OF call.prems] call.prems call.hyps(2-4)] call.hyps(5) show ?case by auto
next
  case (reset g seen l)
  then show ?case by (simp add: limiter_ok_def reset_stats_def)
qed

text \<open>
  C40: The rate limiter keeps its promise in floating point: among all granted calls no more than
  the limit fall into one window, and no call is refused: the next one returns, at once or after
  one sleep of at most the window and a fiftieth of a second.
\<close>

theorem limiter_window:
  assumes "limiter_run c g seen l" "0 < lc_max_calls c" "window_value (lc_window c)"
    "seen \<le> now" "clock_value now" "wakes now wake"
  shows "(\<forall>i. i + nat (lc_max_calls c) < length g \<longrightarrow> g ! i \<le> fsub (g ! (i + nat (lc_max_calls c))) (lc_window c))
    \<and> int (length (lm_calls l)) \<le> lc_max_calls c
    \<and> (\<exists>t l'. acquire c now wake l = Inr (t, l')
        \<and> (t = now \<or> (\<exists>d. 0 < d \<and> d \<le> lc_window c + 1 / 50 \<and> t = wake d)))"
  using limiter_run_ok [OF assms(1-3)] acquire_ok [OF limiter_run_ok [OF assms(1-3)] assms(2-6)] assms(2)
  by (auto simp: limiter_ok_def window_ok_def spaced_def rl_stale_def)

text \<open>One call in two seconds: the second call sleeps.\<close>

definition ex_cfg :: limiter_cfg where "ex_cfg = \<lparr>lc_max_calls = 1, lc_window = 2\<rparr>"

lemma limiter_window_witness:
  "\<exists>t l l'. acquire ex_cfg 5 (\<lambda>d. if d \<le> 3 then 9 else 2 ^ 33) new_limiter = Inr (t, l)
    \<and> acquire ex_cfg 6 (\<lambda>d. if d \<le> 3 then 9 else 2 ^ 33) l = Inr (9, l') \<and> lm_calls l' = [9]"
proof -
  let ?wk = "\<lambda>d :: pyfloat. if d \<le> 3 then 9 else 2 ^ 33 :: pyfloat"
  have d: "is_double 9" "is_double 5" "is_double 6" "is_double (2 ^ 33)"
    using is_double_of_int [of 9] is_double_of_int [of 5] is_double_of_int [of 6] is_double_of_int [of "2 ^ 33"] by simp_all
  then have v: "clock_value 5" "clock_value 6" by (simp_all add: clock_value_def)
  have w: "wakes 5 ?wk" "wakes 6 ?wk" using d by (auto simp: wakes_def clock_value_def)
  have c: "0 < lc_max_calls ex_cfg" "window_value (lc_window ex_cfg)" by (simp_all add: ex_cfg_def window_value_def)
  define l where "l = granted 5 [] new_limiter"
  have a: "acquire ex_cfg 5 ?wk new_limiter = Inr (5, l)"
    by (simp add: acquire_def new_limiter_def ex_cfg_def rl_purge_def l_def)
  have r: "limiter_run ex_cfg [5] 5 l"
    using limiter_run.call [OF limiter_run.start _ v(1) w(1) a, of 5] by simp
  from limiter_window [OF r c _ v(2) w(2)] obtain t l' where
    t: "acquire ex_cfg 6 ?wk l = Inr (t, l')" "t = 6 \<or> (\<exists>d. 0 < d \<and> d \<le> 2 + 1 / 50 \<and> t = ?wk d)"
    by (auto simp: ex_cfg_def)
  have "limiter_run ex_cfg ([5] @ [t]) t l'" using limiter_run.call [OF r _ v(2) w(2) t(1)] by simp
  moreover have "clock_value 100" using is_double_of_int [of 100] by (simp add: clock_value_def)
  moreover have "wakes 100 (\<lambda>d. 2 ^ 33)" using d by (simp add: wakes_def clock_value_def)
  moreover have "t \<le> 100" using t(2) by auto
  ultimately have s: "5 \<le> fsub t 2 \<and> length (lm_calls l') \<le> 1"
    using limiter_window [of ex_cfg "[5, t]" t l' 100 "\<lambda>d. 2 ^ 33"] c by (auto simp: ex_cfg_def)
  then have "t = 9" using t(2) by (auto simp: fsub_def)
  moreover have "lm_calls l' = [9]" if "acquire ex_cfg 6 ?wk l = Inr (9, l')"
    using that s by (auto simp: acquire_def granted_def ex_cfg_def Let_def split: if_splits list.splits)
  ultimately show ?thesis using a t(1) by blast
qed

end
