(* ===== verification/SourceManager.thy ===== *)
theory SourceManager
  imports PyFloat PyStr
begin

text \<open>
  The manager of the market data sources, \<open>app/services/data_sources/manager.py\<close>, and its consistency
  check, \<open>app/services/data_consistency_checker.py\<close>. The adapters of the sources are parameters: whether
  one is available and how it answers a question. A data frame is the list of its rows with the
  text of the code and of the name; \<open>pandas\<close> and \<open>numpy\<close> select and average the compared values.
\<close>

section \<open>Excluded stocks\<close>

fun py_split :: "'a \<Rightarrow> 'a list \<Rightarrow> 'a list list" where
  "py_split c [] = [[]]"
| "py_split c (x # xs) = (if x = c then [] # py_split c xs
     else (case py_split c xs of p # ps \<Rightarrow> (x # p) # ps | [] \<Rightarrow> [[x]]))"

definition excluded_prefixes :: "string list" where
  "excluded_prefixes = [''300'', ''301'', ''302'', ''688'', ''8'', ''4'']"

definition code_only :: "string \<Rightarrow> string" where
  "code_only code = (let c = py_strip code in
     if CHR ''.'' \<in> set c then (let parts = py_split CHR ''.'' c in
       case find py_isdigit parts of Some p \<Rightarrow> p | None \<Rightarrow> hd parts)
     else c)"

definition st_prefixed :: "ustr \<Rightarrow> bool" where
  "st_prefixed name \<longleftrightarrow> startswith name (ustr_of ''ST'') \<or> startswith name (ustr_of ''*ST'')"

definition should_exclude_stock :: "string \<Rightarrow> ustr \<Rightarrow> bool" where
  "should_exclude_stock code name \<longleftrightarrow>
     list_ex (startswith (code_only code)) excluded_prefixes \<or> st_prefixed name"

record 'a frame_row =
  fw_code :: string
  fw_name :: ustr
  fw_data :: 'a

text \<open>A frame with the flags for a column of codes and one of names that the filter knows.\<close>

record 'a frame =
  fm_code_col :: bool
  fm_name_col :: bool
  fm_rows :: "'a frame_row list"

definition row_excluded :: "'a frame \<Rightarrow> 'a frame_row \<Rightarrow> bool" where
  "row_excluded f r = should_exclude_stock (fw_code r) (if fm_name_col f then fw_name r else [])"

definition filter_stock_dataframe :: "'a frame \<Rightarrow> 'a frame" where
  "filter_stock_dataframe f = (if fm_rows f = [] \<or> \<not> fm_code_col f then f
     else f\<lparr>fm_rows := filter (\<lambda>r. \<not> row_excluded f r) (fm_rows f)\<rparr>)"

section \<open>Adapters and their order\<close>

record adapter =
  ad_name :: string
  ad_priority :: int
  ad_available :: bool

definition default_adapters :: "(string \<Rightarrow> bool) \<Rightarrow> adapter list" where
  "default_adapters up = map (\<lambda>(n, p). \<lparr>ad_name = n, ad_priority = p, ad_available = up n\<rparr>)
     [(''zhitu'', 1), (''tushare'', 3), (''akshare'', 4), (''baostock'', 2)]"

text \<open>
  The groupings of the database, or \<open>None\<close> when reading them raises. Without any every adapter
  keeps its default.
\<close>

definition priority_map :: "(string \<times> int option) list \<Rightarrow> (string, int) dict" where
  "priority_map gs = fold (\<lambda>(n, p) d. case p of Some k \<Rightarrow> if n \<noteq> [] then dset (py_lower n) k d else d | None \<Rightarrow> d) gs []"

definition load_priority :: "(string \<times> int option) list option \<Rightarrow> adapter list \<Rightarrow> adapter list" where
  "load_priority gs as = (case gs of None \<Rightarrow> as
     | Some g \<Rightarrow> if g = [] then as
         else map (\<lambda>a. a\<lparr>ad_priority := dget_default (priority_map g) (ad_name a) (ad_priority a)\<rparr>) as)"

definition new_manager :: "(string \<times> int option) list option \<Rightarrow> (string \<Rightarrow> bool) \<Rightarrow> adapter list" where
  "new_manager gs up = sort_key_desc ad_priority (load_priority gs (default_adapters up))"

definition get_available_adapters :: "adapter list \<Rightarrow> adapter list" where
  "get_available_adapters as = filter ad_available as"

text \<open>\<open>enumerate\<close> leaves the last position of a source that is named twice.\<close>

definition preferred_index :: "string list \<Rightarrow> string \<Rightarrow> nat option" where
  "preferred_index ps n = map_of (rev (zip ps [0..<length ps])) n"

definition reorder :: "string list \<Rightarrow> adapter list \<Rightarrow> adapter list" where
  "reorder ps as = (if ps = [] then as
     else sort_key (\<lambda>a. or_default (preferred_index ps (ad_name a)) 999) (filter (\<lambda>a. ad_name a \<in> set ps) as)
       @ filter (\<lambda>a. ad_name a \<notin> set ps) as)"

section \<open>Fallback over the adapters\<close>

text \<open>An answer: an exception, nothing (absent or empty), or data.\<close>

datatype 'r attempt = Raised | Nothing | Got 'r

fun try_adapters :: "(adapter \<Rightarrow> 'r attempt) \<Rightarrow> adapter list \<Rightarrow> ('r \<times> string) option" where
  "try_adapters ask [] = None"
| "try_adapters ask (a # as) = (case ask a of Got r \<Rightarrow> Some (r, ad_name a) | _ \<Rightarrow> try_adapters ask as)"

definition get_stock_list_with_fallback :: "adapter list \<Rightarrow> string list \<Rightarrow> (adapter \<Rightarrow> 'a frame attempt)
    \<Rightarrow> ('a frame \<times> string) option" where
  "get_stock_list_with_fallback as ps ask = map_option (\<lambda>(f, n). (filter_stock_dataframe f, n))
     (try_adapters ask (reorder ps (get_available_adapters as)))"

definition get_daily_basic_with_fallback :: "adapter list \<Rightarrow> string list \<Rightarrow> (adapter \<Rightarrow> 'a frame attempt)
    \<Rightarrow> ('a frame \<times> string) option" where
  "get_daily_basic_with_fallback as ps ask = map_option (\<lambda>(f, n). (filter_stock_dataframe f, n))
     (try_adapters ask (reorder ps (get_available_adapters as)))"

definition find_latest_trade_date_with_fallback :: "adapter list \<Rightarrow> string list \<Rightarrow> (adapter \<Rightarrow> ustr attempt)
    \<Rightarrow> ustr \<Rightarrow> ustr" where
  "find_latest_trade_date_with_fallback as ps ask yesterday =
     (case try_adapters ask (reorder ps (get_available_adapters as)) of Some (d, n) \<Rightarrow> d | None \<Rightarrow> yesterday)"

text \<open>Realtime quotes, rows of a chart and news are asked for in the same way.\<close>

definition get_with_fallback :: "adapter list \<Rightarrow> (adapter \<Rightarrow> 'r attempt) \<Rightarrow> ('r \<times> string) option" where
  "get_with_fallback as ask = try_adapters ask (get_available_adapters as)"

section \<open>The consistency check\<close>

record comparison =
  cp_metric :: string
  cp_primary :: pyfloat
  cp_secondary :: pyfloat
  cp_diff :: "pyfloat option"
  cp_significant :: bool
  cp_tolerance :: pyfloat

definition tolerance :: "string \<Rightarrow> pyfloat" where
  "tolerance m = fl (or_default (map_of [(''pe'', 5 / 100), (''pb'', 5 / 100), (''total_mv'', 2 / 100), (''price'', 1 / 100),
     (''volume'', 10 / 100), (''turnover_rate'', 5 / 100)] m) (10 / 100))"

definition metric_weight :: "string \<Rightarrow> pyfloat" where
  "metric_weight m = fl (or_default (map_of [(''pe'', 25 / 100), (''pb'', 25 / 100), (''total_mv'', 20 / 100), (''price'', 15 / 100),
     (''volume'', 10 / 100), (''turnover_rate'', 5 / 100)] m) (10 / 100))"

text \<open>The comparison of two averages; the difference is \<open>None\<close> for infinity.\<close>

definition compare_averages :: "string \<Rightarrow> pyfloat \<Rightarrow> pyfloat \<Rightarrow> comparison" where
  "compare_averages m x y = (let d = (if x \<noteq> 0 then Some (fdiv \<bar>fsub y x\<bar> \<bar>x\<bar>) else if y \<noteq> 0 then None else Some 0) in
     \<lparr>cp_metric = m, cp_primary = x, cp_secondary = y, cp_diff = d,
      cp_significant = (case d of None \<Rightarrow> True | Some q \<Rightarrow> tolerance m < q), cp_tolerance = tolerance m\<rparr>)"

datatype action = UseEither | UsePrimaryWithWarning | UsePrimaryOnly | InvestigateSources

record check_result =
  ck_consistent :: bool
  ck_confidence :: pyfloat
  ck_action :: action
  ck_significant :: nat

definition agreement :: "comparison \<Rightarrow> pyfloat" where
  "agreement c = (case cp_diff c of None \<Rightarrow> 0 | Some d \<Rightarrow> max 0 (fsub 1 (fdiv d (cp_tolerance c))))"

definition total_weight :: "comparison list \<Rightarrow> pyfloat" where
  "total_weight cs = fold (\<lambda>c w. fadd w (metric_weight (cp_metric c))) cs 0"

definition weighted_score :: "comparison list \<Rightarrow> pyfloat" where
  "weighted_score cs = fold (\<lambda>c w. fadd w (fmul (metric_weight (cp_metric c)) (agreement c))) cs 0"

definition recommended :: "pyfloat \<Rightarrow> action" where
  "recommended s = (if fl (8 / 10) < s then UseEither else if fl (6 / 10) < s then UsePrimaryWithWarning
     else if fl (3 / 10) < s then UsePrimaryOnly else InvestigateSources)"

definition calculate_overall_consistency :: "comparison list \<Rightarrow> check_result" where
  "calculate_overall_consistency cs = (if cs = []
     then \<lparr>ck_consistent = False, ck_confidence = 0, ck_action = UsePrimaryOnly, ck_significant = 0\<rparr>
     else (let w = total_weight cs; s = (if 0 < w then fdiv (weighted_score cs) w else 0);
        k = length (filter cp_significant cs) in
      \<lparr>ck_consistent = (of_nat k \<le> fmul (of_nat (length cs)) (fl (3 / 10))), ck_confidence = s,
       ck_action = recommended s, ck_significant = k\<rparr>))"

text \<open>
  The averages of the common stocks, for every metric that both frames have, are what \<open>pandas\<close> and
  \<open>numpy\<close> give; \<open>None\<close> stands for empty frames, no common stock, or an exception.
\<close>

definition check_daily_basic_consistency :: "(string \<Rightarrow> (pyfloat \<times> pyfloat) option) option \<Rightarrow> check_result" where
  "check_daily_basic_consistency avgs = (case avgs of
     None \<Rightarrow> \<lparr>ck_consistent = False, ck_confidence = 0, ck_action = UsePrimaryOnly, ck_significant = 0\<rparr>
   | Some f \<Rightarrow> calculate_overall_consistency
       (List.map_filter (\<lambda>m. map_option (\<lambda>(x, y). compare_averages m x y) (f m)) [''pe'', ''pb'', ''total_mv'']))"

definition resolve_data_conflicts :: "'a frame \<Rightarrow> 'a frame \<Rightarrow> check_result \<Rightarrow> 'a frame \<times> action" where
  "resolve_data_conflicts p s r = (case ck_action r of
     UseEither \<Rightarrow> (p, UseEither) | UsePrimaryWithWarning \<Rightarrow> (p, UsePrimaryWithWarning)
   | UsePrimaryOnly \<Rightarrow> (p, UsePrimaryOnly) | InvestigateSources \<Rightarrow> (p, InvestigateSources))"

text \<open>An exception of one of the two adapters leads to the fallback; \<open>checker\<close> is whether it could be imported.\<close>

definition get_daily_basic_with_consistency_check :: "adapter list \<Rightarrow> bool \<Rightarrow> (adapter \<Rightarrow> 'a frame attempt)
    \<Rightarrow> ('a frame \<Rightarrow> 'a frame \<Rightarrow> (string \<Rightarrow> (pyfloat \<times> pyfloat) option) option)
    \<Rightarrow> ('a frame \<times> string) option \<times> check_result option" where
  "get_daily_basic_with_consistency_check as checker ask avgs =
     (case get_available_adapters as of
        p # s # _ \<Rightarrow> (case (ask p, ask s) of
            (Raised, _) \<Rightarrow> (get_daily_basic_with_fallback as [] ask, None)
          | (_, Raised) \<Rightarrow> (get_daily_basic_with_fallback as [] ask, None)
          | (Nothing, _) \<Rightarrow> (get_daily_basic_with_fallback as [] ask, None)
          | (Got x, Nothing) \<Rightarrow> (Some (x, ad_name p), None)
          | (Got x, Got y) \<Rightarrow> if checker then (let r = check_daily_basic_consistency (avgs x y) in
                (Some (fst (resolve_data_conflicts x y r), ad_name p), Some r))
              else (Some (x, ad_name p), None))
      | _ \<Rightarrow> (get_daily_basic_with_fallback as [] ask, None))"

section \<open>What the fallback gives\<close>

definition answers :: "(adapter \<Rightarrow> 'r attempt) \<Rightarrow> adapter \<Rightarrow> bool" where
  "answers ask a = (case ask a of Got v \<Rightarrow> True | _ \<Rightarrow> False)"

lemma answers_Got: "answers ask a \<longleftrightarrow> (\<exists>v. ask a = Got v)"
  by (simp add: answers_def split: attempt.split)

lemma try_adapters_find: "try_adapters ask as = (case find (answers ask) as of None \<Rightarrow> None
    | Some a \<Rightarrow> (case ask a of Got v \<Rightarrow> Some (v, ad_name a) | _ \<Rightarrow> None))"
  by (induction as) (auto simp: answers_def split: attempt.split)

lemma try_adapters_None: "try_adapters ask as = None \<longleftrightarrow> (\<forall>a \<in> set as. \<not> answers ask a)"
  by (induction as) (auto simp: answers_def split: attempt.split)

text \<open>In a list by falling priority the answer is of an adapter that no answering one outranks.\<close>

lemma try_adapters_best:
  assumes "sorted_wrt (\<lambda>a b. ad_priority b \<le> ad_priority a) as" "try_adapters ask as = Some (r, n)"
  shows "\<exists>a \<in> set as. ask a = Got r \<and> ad_name a = n \<and> (\<forall>b \<in> set as. ad_priority a < ad_priority b \<longrightarrow> \<not> answers ask b)"
proof -
  obtain a where a: "find (answers ask) as = Some a" "ask a = Got r" "ad_name a = n"
    using assms(2) by (auto simp: try_adapters_find split: option.splits attempt.splits)
  then obtain i where i: "i < length as" "a = as ! i" "\<forall>j < i. \<not> answers ask (as ! j)"
    by (auto simp: find_Some_iff)
  have "\<not> answers ask b" if b: "b \<in> set as" "ad_priority a < ad_priority b" for b
  proof -
    obtain j where j: "j < length as" "b = as ! j" using b(1) by (auto simp: in_set_conv_nth)
    have "j < i" using sorted_wrt_nth_less [OF assms(1), of i j] i j b(2) by (cases i j rule: linorder_cases) auto
    then show ?thesis using i(3) j by simp
  qed
  then show ?thesis using a i by auto
qed

lemma manager_sorted: "sorted_wrt (\<lambda>a b. ad_priority b \<le> ad_priority a) (get_available_adapters (new_manager gs up))"
  unfolding get_available_adapters_def new_manager_def by (rule sorted_wrt_filter, rule sorted_sort_key_desc)

lemma filtered_rows: "fm_code_col f \<Longrightarrow> r \<in> set (fm_rows (filter_stock_dataframe f)) \<Longrightarrow> \<not> row_excluded f r"
  by (auto simp: filter_stock_dataframe_def split: if_splits)

text \<open>
  The list of stocks comes from the best source that answers: it is the frame of an available
  adapter, without the excluded stocks, and no available adapter of a higher priority has an
  answer, whatever the priorities in the database are; there is none exactly when no available
  adapter answers.
\<close>

theorem stock_list_best:
  "case get_stock_list_with_fallback (new_manager gs up) [] ask of
     None \<Rightarrow> (\<forall>a \<in> set (new_manager gs up). ad_available a \<longrightarrow> \<not> answers ask a)
   | Some (f, n) \<Rightarrow> (\<exists>a \<in> set (new_manager gs up). \<exists>g. ad_available a \<and> ad_name a = n \<and> ask a = Got g
       \<and> f = filter_stock_dataframe g \<and> (fm_code_col g \<longrightarrow> (\<forall>r \<in> set (fm_rows f). \<not> row_excluded g r))
       \<and> (\<forall>b \<in> set (new_manager gs up). ad_available b \<and> ad_priority a < ad_priority b \<longrightarrow> \<not> answers ask b))"
proof (cases "try_adapters ask (get_available_adapters (new_manager gs up))")
  case None
  moreover from this have "\<forall>a \<in> set (new_manager gs up). ad_available a \<longrightarrow> \<not> answers ask a"
    by (simp add: try_adapters_None get_available_adapters_def)
  ultimately show ?thesis by (simp add: get_stock_list_with_fallback_def reorder_def)
next
  case (Some x)
  obtain g n where x: "x = (g, n)" by (cases x)
  from try_adapters_best [OF manager_sorted Some [unfolded x]] obtain a
    where "a \<in> set (get_available_adapters (new_manager gs up))" "ask a = Got g" "ad_name a = n"
      "\<forall>b \<in> set (get_available_adapters (new_manager gs up)). ad_priority a < ad_priority b \<longrightarrow> \<not> answers ask b" by auto
  then show ?thesis using Some x filtered_rows [of g]
    by (auto simp: get_stock_list_with_fallback_def reorder_def get_available_adapters_def)
qed

text \<open>Two sources answer the list, the third one raises.\<close>

definition ex_frame :: "unit frame" where
  "ex_frame = \<lparr>fm_code_col = True, fm_name_col = True, fm_rows =
     [\<lparr>fw_code = ''600519.SH'', fw_name = [35980], fw_data = ()\<rparr>, \<lparr>fw_code = ''300750.SZ'', fw_name = [23425], fw_data = ()\<rparr>]\<rparr>"

lemma stock_list_best_witness:
  "get_stock_list_with_fallback (new_manager None (\<lambda>n. True)) []
      (\<lambda>a. if ad_name a = ''akshare'' then Raised else Got ex_frame)
     = Some (ex_frame\<lparr>fm_rows := take 1 (fm_rows ex_frame)\<rparr>, ''tushare'')
   \<and> (\<exists>a \<in> set (new_manager None (\<lambda>n. True)). ad_name a = ''tushare'' \<and> (\<forall>b \<in> set (new_manager None (\<lambda>n. True)).
       ad_priority a < ad_priority b \<longrightarrow> \<not> answers (\<lambda>a. if ad_name a = ''akshare'' then Raised else Got ex_frame) b))"
proof -
  let ?m = "new_manager None (\<lambda>n. True)" and ?ask = "\<lambda>a. if ad_name a = ''akshare'' then Raised else Got ex_frame"
  have v: "get_stock_list_with_fallback ?m [] ?ask = Some (ex_frame\<lparr>fm_rows := take 1 (fm_rows ex_frame)\<rparr>, ''tushare'')"
    by code_simp
  moreover have "\<forall>a \<in> set ?m. ad_available a" by code_simp
  ultimately show ?thesis using stock_list_best [of None "\<lambda>n. True" ?ask] by auto
qed

text \<open>
  The exclusion of stocks is not the same on both ways to the daily figures: the plain
  fallback never gives a stock that is excluded, and the variant with the consistency check gives
  the frame of the first source with every stock in it.
\<close>

theorem checked_figures_unfiltered:
  "(\<forall>as ask f n. get_daily_basic_with_fallback as [] ask = Some (f, n) \<longrightarrow>
      (\<exists>g. f = filter_stock_dataframe g \<and> (fm_code_col g \<longrightarrow> (\<forall>r \<in> set (fm_rows f). \<not> row_excluded g r))))
   \<and> fst (get_daily_basic_with_consistency_check (new_manager None (\<lambda>n. True)) checker (\<lambda>a. Got ex_frame) avgs)
     = Some (ex_frame, ''akshare'')
   \<and> row_excluded ex_frame (fm_rows ex_frame ! 1)"
proof (intro conjI allI impI)
  fix as ask f n assume "get_daily_basic_with_fallback as [] ask = Some (f, n)"
  then show "\<exists>g. f = filter_stock_dataframe g \<and> (fm_code_col g \<longrightarrow> (\<forall>r \<in> set (fm_rows f). \<not> row_excluded g r))"
    using filtered_rows by (auto simp: get_daily_basic_with_fallback_def)
next
  obtain p q as where m: "get_available_adapters (new_manager None (\<lambda>n. True)) = p # q # as" "ad_name p = ''akshare''"
  proof -
    have "map ad_name (get_available_adapters (new_manager None (\<lambda>n. True))) = [''akshare'', ''tushare'', ''baostock'', ''zhitu'']"
      by code_simp
    then show ?thesis using that by (auto simp: map_eq_Cons_conv)
  qed
  show "fst (get_daily_basic_with_consistency_check (new_manager None (\<lambda>n. True)) checker (\<lambda>a. Got ex_frame) avgs)
      = Some (ex_frame, ''akshare'')"
    using m by (simp add: get_daily_basic_with_consistency_check_def resolve_data_conflicts_def Let_def split: action.split)
  show "row_excluded ex_frame (fm_rows ex_frame ! 1)" by code_simp
qed

lemma checked_figures_unfiltered_witness:
  "fst (get_daily_basic_with_consistency_check (new_manager None (\<lambda>n. True)) True (\<lambda>a. Got ex_frame) (\<lambda>f g. None))
     = Some (ex_frame, ''akshare'')"
  by (rule checked_figures_unfiltered [THEN conjunct2, THEN conjunct1])

section \<open>The confidence of the check\<close>

lemma fold_add_le:
  assumes "\<forall>c \<in> set cs. f c \<le> g c" "x \<le> y"
  shows "fold (\<lambda>c w. fadd w (f c)) cs x \<le> fold (\<lambda>c w. fadd w (g c)) cs y"
  using assms
proof (induction cs arbitrary: x y)
  case (Cons c cs)
  then have "fadd x (f c) \<le> fadd y (g c)" by (auto simp: fadd_def intro!: fl_mono add_mono)
  with Cons show ?case by simp
qed simp

lemma fold_add_nonneg:
  assumes "\<forall>c \<in> set cs. 0 \<le> f c" "0 \<le> x"
  shows "0 \<le> fold (\<lambda>c w. fadd w (f c)) cs x"
proof -
  have "fold (\<lambda>c w. fadd w 0) cs 0 \<le> fold (\<lambda>c w. fadd w (f c)) cs x" by (rule fold_add_le) (use assms in auto)
  moreover have "fold (\<lambda>c w. fadd w 0) cs 0 = 0" by (induction cs) (simp_all add: fadd_def)
  ultimately show ?thesis by simp
qed

lemma or_default_nonneg: "\<forall>x \<in> set (map snd m). 0 \<le> x \<Longrightarrow> 0 \<le> d \<Longrightarrow> (0::pyfloat) \<le> or_default (map_of m k) d"
  by (cases "map_of m k") (force dest: map_of_SomeD)+

lemma weight_nonneg: "0 \<le> metric_weight m"
  unfolding metric_weight_def by (rule fl_nonneg, rule or_default_nonneg) simp_all

lemma tolerance_nonneg: "0 \<le> tolerance m"
  unfolding tolerance_def by (rule fl_nonneg, rule or_default_nonneg) simp_all

lemma agreement_bounds:
  assumes "\<And>d. cp_diff c = Some d \<Longrightarrow> 0 \<le> d" "0 \<le> cp_tolerance c"
  shows "0 \<le> agreement c" "agreement c \<le> 1"
proof -
  have "fsub 1 (fdiv d (cp_tolerance c)) \<le> 1" if "cp_diff c = Some d" for d
    using fl_mono [of "1 - fl (d / cp_tolerance c)" 1] fl_nonneg [of "d / cp_tolerance c"] assms that
    by (simp add: fsub_def fdiv_def)
  then show "0 \<le> agreement c" "agreement c \<le> 1" by (auto simp: agreement_def split: option.split)
qed

definition fair_comparison :: "comparison \<Rightarrow> bool" where
  "fair_comparison c \<longleftrightarrow> (\<exists>m x y. c = compare_averages m x y)"

lemma fair_agreement:
  assumes "fair_comparison c"
  shows "0 \<le> agreement c \<and> agreement c \<le> 1"
proof -
  obtain m x y where c: "c = compare_averages m x y" using assms by (auto simp: fair_comparison_def)
  have "0 \<le> fdiv \<bar>fsub y x\<bar> \<bar>x\<bar>" by (simp add: fdiv_def fl_nonneg)
  then have "\<And>d. cp_diff c = Some d \<Longrightarrow> 0 \<le> d" by (auto simp: c compare_averages_def Let_def split: if_splits)
  moreover have "0 \<le> cp_tolerance c" using tolerance_nonneg by (simp add: c compare_averages_def Let_def)
  ultimately show ?thesis using agreement_bounds by blast
qed

lemma overall_confidence:
  assumes "\<forall>c \<in> set cs. fair_comparison c"
  shows "0 \<le> ck_confidence (calculate_overall_consistency cs) \<and> ck_confidence (calculate_overall_consistency cs) \<le> 1"
proof -
  have "fmul (metric_weight (cp_metric c)) (agreement c) \<le> metric_weight (cp_metric c)" if "c \<in> set cs" for c
  proof -
    have "metric_weight (cp_metric c) * agreement c \<le> metric_weight (cp_metric c) * 1"
      using fair_agreement assms that weight_nonneg by (intro mult_left_mono) auto
    from fl_mono [OF this] show ?thesis by (simp add: fmul_def metric_weight_def)
  qed
  then have le: "weighted_score cs \<le> total_weight cs" unfolding weighted_score_def total_weight_def by (intro fold_add_le) auto
  have "0 \<le> weighted_score cs" unfolding weighted_score_def
    using assms fair_agreement weight_nonneg by (intro fold_add_nonneg) (auto simp: fmul_def intro!: fl_nonneg mult_nonneg_nonneg)
  moreover have "fdiv (weighted_score cs) (total_weight cs) \<le> 1" if "0 < total_weight cs"
    using fl_mono [of "weighted_score cs / total_weight cs" 1] le that by (simp add: fdiv_def)
  ultimately show ?thesis by (auto simp: calculate_overall_consistency_def fdiv_def Let_def intro!: fl_nonneg)
qed

text \<open>
  The confidence of the consistency check is between 0 and 1 in floating point, whatever
  the averages of the two sources are, and the data of the first source are used at every
  confidence: the recommendation changes only the report.
\<close>

theorem consistency_confidence:
  "0 \<le> ck_confidence (check_daily_basic_consistency avgs)
    \<and> ck_confidence (check_daily_basic_consistency avgs) \<le> 1
    \<and> fst (resolve_data_conflicts p s (check_daily_basic_consistency avgs)) = p"
proof -
  have fair: "\<forall>c \<in> set (List.map_filter (\<lambda>m. map_option (\<lambda>(x, y). compare_averages m x y) (f m)) ms). fair_comparison c" for f ms
    unfolding fair_comparison_def by (auto simp: List.map_filter_def) blast
  have "0 \<le> ck_confidence (check_daily_basic_consistency avgs) \<and> ck_confidence (check_daily_basic_consistency avgs) \<le> 1"
  proof (cases avgs)
    case (Some f)
    show ?thesis unfolding Some check_daily_basic_consistency_def option.case by (rule overall_confidence [OF fair])
  qed (simp add: check_daily_basic_consistency_def)
  then show ?thesis by (simp add: resolve_data_conflicts_def split: action.split)
qed

end
