(* ===== verification/TradingTime.thy ===== *)
theory TradingTime
  imports PyTime
begin

text \<open>
  The trading hours of \<open>app/utils/trading_time.py\<close>. The time is the wall clock of the configured zone;
  bounds are in microseconds, so a session ends with the first microsecond of its last minute.
\<close>

definition clock_at :: "int \<Rightarrow> int \<Rightarrow> int" where "clock_at h m = hms h m 0"

definition is_trading_time :: "pydatetime \<Rightarrow> bool" where
  "is_trading_time now = (if 4 < weekday (dt_date now) then False else let t = dt_time now in
     (clock_at 9 30 \<le> t \<and> t \<le> clock_at 11 30) \<or> (clock_at 13 0 \<le> t \<and> t \<le> clock_at 15 30))"

definition is_strict_trading_time :: "pydatetime \<Rightarrow> bool" where
  "is_strict_trading_time now = (if 4 < weekday (dt_date now) then False else let t = dt_time now in
     (clock_at 9 30 \<le> t \<and> t \<le> clock_at 11 30) \<or> (clock_at 13 0 \<le> t \<and> t \<le> clock_at 15 0))"

definition is_pre_market_time :: "pydatetime \<Rightarrow> bool" where
  "is_pre_market_time now = (if 4 < weekday (dt_date now) then False else let t = dt_time now in
     clock_at 9 0 \<le> t \<and> t < clock_at 9 30)"

definition is_after_market_time :: "pydatetime \<Rightarrow> bool" where
  "is_after_market_time now = (if 4 < weekday (dt_date now) then False else let t = dt_time now in
     clock_at 15 0 \<le> t \<and> t \<le> clock_at 15 30)"

datatype trading_status = PreMarket | MorningSession | NoonBreak | AfternoonSession | AfterMarket | MarketClosed

definition get_trading_status :: "pydatetime \<Rightarrow> trading_status" where
  "get_trading_status now = (if 4 < weekday (dt_date now) then MarketClosed else let t = dt_time now in
     if clock_at 9 0 \<le> t \<and> t < clock_at 9 30 then PreMarket
     else if clock_at 9 30 \<le> t \<and> t \<le> clock_at 11 30 then MorningSession
     else if clock_at 11 30 < t \<and> t < clock_at 13 0 then NoonBreak
     else if clock_at 13 0 \<le> t \<and> t \<le> clock_at 15 0 then AfternoonSession
     else if clock_at 15 0 < t \<and> t \<le> clock_at 15 30 then AfterMarket
     else MarketClosed)"

lemmas trading_time_defs = is_trading_time_def is_strict_trading_time_def is_pre_market_time_def
  is_after_market_time_def get_trading_status_def clock_at_def hms_def Let_def

text \<open>
  The predicates agree with the status of the same time, for every day and every microsecond,
  with one exception: clock_at 15:00:00 sharp of a weekday it is after the market and the status is
  still the afternoon session.
\<close>

theorem trading_status_agrees:
  "is_strict_trading_time now = (get_trading_status now \<in> {MorningSession, AfternoonSession})
    \<and> is_trading_time now = (get_trading_status now \<in> {MorningSession, AfternoonSession, AfterMarket})
    \<and> is_pre_market_time now = (get_trading_status now = PreMarket)
    \<and> is_after_market_time now = (get_trading_status now = AfterMarket
        \<or> get_trading_status now = AfternoonSession \<and> dt_time now = clock_at 15 0)"
  by (auto simp: trading_time_defs)

end
