(* ===== verification/QuotesIngestion.thy ===== *)
theory QuotesIngestion
  imports RateLimiter SourceManager TradingTime "HOL-Library.List_Lexorder"
begin

text \<open>
  The ingestion of market quotes, \<open>app/services/quotes_ingestion_service.py\<close>: the rotation of the
  interfaces, the hourly limit of the free Tushare account, the test of its permission, and the
  collections \<open>market_quotes\<close> and \<open>quotes_ingestion_status\<close> of the database. What the sources answer,
  the clock and the failures of the database are parameters of a run. A bulk write carries out
  its operations in order.
\<close>

section \<open>Codes\<close>

definition lstrip_zeros :: "string \<Rightarrow> string" where
  "lstrip_zeros s = dropWhile (\<lambda>c. c = CHR ''0'') s"

definition normalize_stock_code :: "string \<Rightarrow> string" where
  "normalize_stock_code code = (if code = [] then [] else
     let s0 = py_strip code;
         s = (if 6 < length s0 then filter digit_char s0 else s0) in
     if py_isdigit s then py_zfill 6 (if lstrip_zeros s = [] then ''0'' else lstrip_zeros s)
     else let ds = filter digit_char s in if ds \<noteq> [] then py_zfill 6 ds else [])"

section \<open>Quotes and the collections\<close>

record quote_values =
  qv_close :: "pyfloat option"
  qv_pct :: "pyfloat option"
  qv_amount :: "pyfloat option"
  qv_volume :: "pyfloat option"
  qv_open :: "pyfloat option"
  qv_high :: "pyfloat option"
  qv_low :: "pyfloat option"
  qv_pre_close :: "pyfloat option"

record market_doc =
  mk_code :: string
  mk_symbol :: string
  mk_values :: quote_values
  mk_trade_date :: ustr
  mk_updated :: pydatetime

record sync_status =
  sy_time :: pydatetime
  sy_success :: bool
  sy_source :: "string option"
  sy_count :: nat
  sy_error :: "ustr option"

text \<open>The documents by their code, which is a unique index, and the one status document.\<close>

record quotes_db =
  qd_quotes :: "(string, market_doc) dict"
  qd_status :: "sync_status option"

definition empty_quotes_db :: quotes_db where
  "empty_quotes_db = \<lparr>qd_quotes = [], qd_status = None\<rparr>"

type_synonym quotes_map = "(string, quote_values) dict"

definition upsert :: "pydatetime \<Rightarrow> ustr \<Rightarrow> string \<times> quote_values \<Rightarrow> (string, market_doc) dict \<Rightarrow> (string, market_doc) dict" where
  "upsert now day q docs = (case q of (code, v) \<Rightarrow> let c = normalize_stock_code code in
     if code = [] \<or> c = [] then docs
     else dset c \<lparr>mk_code = c, mk_symbol = c, mk_values = v, mk_trade_date = day, mk_updated = now\<rparr> docs)"

text \<open>\<open>_bulk_upsert\<close>; \<open>Inl\<close> when the database raises.\<close>

definition bulk_upsert :: "ustr option \<Rightarrow> pydatetime \<Rightarrow> quotes_map \<Rightarrow> ustr \<Rightarrow> quotes_db \<Rightarrow> (ustr, quotes_db) result" where
  "bulk_upsert fails now qs day db =
     (if \<forall>(code, v) \<in> set qs. code = [] \<or> normalize_stock_code code = [] then Inr db
      else case fails of Some e \<Rightarrow> Inl e
        | None \<Rightarrow> Inr (db\<lparr>qd_quotes := fold (upsert now day) qs (qd_quotes db)\<rparr>))"

definition collection_empty :: "bool \<Rightarrow> quotes_db \<Rightarrow> bool" where
  "collection_empty reads_fail db = (if reads_fail then True else qd_quotes db = [])"

text \<open>The newest trade date of the collection is compared as text.\<close>

definition collection_stale :: "bool \<Rightarrow> ustr \<Rightarrow> quotes_db \<Rightarrow> bool" where
  "collection_stale reads_fail latest db = (if latest = [] then False else if reads_fail then True
     else (case map (\<lambda>(c, d). mk_trade_date d) (qd_quotes db) of [] \<Rightarrow> True
       | d # ds \<Rightarrow> fold max ds d < latest))"

section \<open>The state of the service\<close>

record ingest_cfg =
  ig_rotation :: bool
  ig_offhours :: bool
  ig_detect :: bool

record ingest =
  in_checked :: bool
  in_premium :: bool
  in_calls :: "int list"
  in_index :: nat

definition new_ingest :: ingest where
  "new_ingest = \<lparr>in_checked = False, in_premium = False, in_calls = [], in_index = 0\<rparr>"

definition hourly_limit :: nat where "hourly_limit = 2"

definition hour :: int where "hour = hms 1 0 0"

text \<open>Every branch of the permission test ends with the test done; only rows give the permission.\<close>

datatype probe = ProbeUnavailable | ProbeRaised | ProbeEmpty | ProbeRows

definition check_tushare_permission :: "probe \<Rightarrow> ingest \<Rightarrow> bool \<times> ingest" where
  "check_tushare_permission p st = (if in_checked st then (in_premium st, st)
     else (p = ProbeRows, st\<lparr>in_premium := (p = ProbeRows), in_checked := True\<rparr>))"

definition call_stale :: "int \<Rightarrow> int \<Rightarrow> bool" where
  "call_stale now c \<longleftrightarrow> c < now - hour"

definition can_call_tushare :: "int \<Rightarrow> ingest \<Rightarrow> bool \<times> ingest" where
  "can_call_tushare now st = (if in_premium st then (True, st)
     else let cs = dropWhile (call_stale now) (in_calls st) in
       (\<not> hourly_limit \<le> length cs, st\<lparr>in_calls := cs\<rparr>))"

definition record_tushare_call :: "int \<Rightarrow> ingest \<Rightarrow> ingest" where
  "record_tushare_call now st = st\<lparr>in_calls := in_calls st @ [now]\<rparr>"

datatype quote_source = Tushare | EastMoney | Sina

definition rotation_sources :: "quote_source list" where
  "rotation_sources = [Tushare, EastMoney, Sina]"

definition get_next_source :: "ingest_cfg \<Rightarrow> ingest \<Rightarrow> quote_source \<times> ingest" where
  "get_next_source c st = (if \<not> ig_rotation c then (Tushare, st)
     else (rotation_sources ! in_index st, st\<lparr>in_index := (in_index st + 1) mod length rotation_sources\<rparr>))"

definition source_name :: "quote_source \<Rightarrow> string" where
  "source_name s = (case s of Tushare \<Rightarrow> ''tushare'' | EastMoney \<Rightarrow> ''akshare_eastmoney'' | Sina \<Rightarrow> ''akshare_sina'')"

definition source_type :: "quote_source \<Rightarrow> string" where
  "source_type s = (if s = Tushare then ''tushare'' else ''akshare'')"

text \<open>How the adapter of the source answers; rows are never empty.\<close>

datatype fetch_answer = FetchRaised | FetchUnavailable | FetchEmpty | Fetched quotes_map

text \<open>
  \<open>_fetch_quotes_from_source\<close> at \<open>now\<close>, with the clock at the recording of the call; beside the quotes
  it says whether the adapter was asked for them.
\<close>

definition fetch_quotes_from_source :: "quote_source \<Rightarrow> int \<Rightarrow> int \<Rightarrow> fetch_answer \<Rightarrow> ingest
    \<Rightarrow> quotes_map option \<times> bool \<times> ingest" where
  "fetch_quotes_from_source s now after ans st =
     (if s = Tushare then (case can_call_tushare now st of (ok, st1) \<Rightarrow>
        if \<not> ok then (None, False, st1)
        else (case ans of Fetched q \<Rightarrow> (Some q, True, record_tushare_call after st1)
          | FetchUnavailable \<Rightarrow> (None, False, st1) | _ \<Rightarrow> (None, True, st1)))
      else (case ans of Fetched q \<Rightarrow> (Some q, True, st) | FetchUnavailable \<Rightarrow> (None, False, st) | _ \<Rightarrow> (None, True, st)))"

section \<open>Filling the collection outside the trading hours\<close>

record hist_doc =
  hs_symbol :: string
  hs_code :: string
  hs_vol :: "pyfloat option"
  hs_values :: quote_values

text \<open>\<open>doc.get("volume") or doc.get("vol")\<close>: a volume of zero falls to the second field.\<close>

definition hist_volume :: "hist_doc \<Rightarrow> pyfloat option" where
  "hist_volume d = (case qv_volume (hs_values d) of None \<Rightarrow> hs_vol d | Some x \<Rightarrow> if x = 0 then hs_vol d else Some x)"

definition hist_quotes :: "hist_doc list \<Rightarrow> quotes_map" where
  "hist_quotes ds = fold (\<lambda>d m. let code = (if hs_symbol d \<noteq> [] then hs_symbol d else hs_code d) in
     if code = [] then m else dset (py_zfill 6 code) ((hs_values d)\<lparr>qv_volume := hist_volume d\<rparr>) m) ds []"

text \<open>What a run finds in its environment.\<close>

record ingest_env =
  ie_now :: pydatetime
  ie_after :: pydatetime
  ie_probe :: probe
  ie_answer :: "quote_source \<Rightarrow> fetch_answer"
  ie_latest :: "ustr option"
  ie_today :: ustr
  ie_snapshot :: "quotes_map option"
  ie_history :: "hist_doc list"
  ie_reads_fail :: bool
  ie_write_fails :: "ustr option"
  ie_status_ok :: bool

text \<open>
  \<open>backfill_from_historical_data\<close>: on a filled collection it calls a method that the class does not
  have, whose exception it catches; every other exception is caught as well.
\<close>

definition backfill_from_historical_data :: "ingest_env \<Rightarrow> quotes_db \<Rightarrow> quotes_db" where
  "backfill_from_historical_data env db =
     (if \<not> collection_empty (ie_reads_fail env) db then db
      else (case ie_latest env of None \<Rightarrow> db
        | Some day \<Rightarrow> if day = [] \<or> ie_reads_fail env \<or> hist_quotes (ie_history env) = [] then db
            else (case bulk_upsert (ie_write_fails env) (ie_now env) (hist_quotes (ie_history env)) day db of
                Inl e \<Rightarrow> db | Inr db2 \<Rightarrow> db2)))"

definition trade_date_of :: "ingest_env \<Rightarrow> ustr" where
  "trade_date_of env = (case ie_latest env of Some d \<Rightarrow> if d = [] then ie_today env else d | None \<Rightarrow> ie_today env)"

definition backfill_last_close_snapshot :: "ingest_env \<Rightarrow> quotes_db \<Rightarrow> quotes_db" where
  "backfill_last_close_snapshot env db = (case ie_snapshot env of None \<Rightarrow> db
     | Some q \<Rightarrow> (case bulk_upsert (ie_write_fails env) (ie_now env) q (trade_date_of env) db of
         Inl e \<Rightarrow> db | Inr db2 \<Rightarrow> db2))"

definition backfill_if_needed :: "ingest_env \<Rightarrow> quotes_db \<Rightarrow> quotes_db" where
  "backfill_if_needed env db = (if collection_empty (ie_reads_fail env) db then backfill_from_historical_data env db
     else (case ie_latest env of None \<Rightarrow> db
       | Some day \<Rightarrow> if collection_stale (ie_reads_fail env) day db then backfill_last_close_snapshot env db else db))"

section \<open>One run\<close>

definition no_quotes_text :: ustr where
  "no_quotes_text = [26410, 33719, 21462, 21040, 34892, 24773, 25968, 25454]"

definition record_sync_status :: "ingest_env \<Rightarrow> bool \<Rightarrow> string option \<Rightarrow> nat \<Rightarrow> ustr option \<Rightarrow> quotes_db \<Rightarrow> quotes_db" where
  "record_sync_status env ok src n e db = (if ie_status_ok env
     then db\<lparr>qd_status := Some \<lparr>sy_time = ie_now env, sy_success = ok, sy_source = src, sy_count = n, sy_error = e\<rparr>\<rparr>
     else db)"

text \<open>Beside the new state, the sources that the run asked (at most one) and whether quotes came.\<close>

definition run_once :: "ingest_cfg \<Rightarrow> ingest_env \<Rightarrow> ingest \<Rightarrow> quotes_db \<Rightarrow> (quote_source \<times> bool) list \<times> ingest \<times> quotes_db" where
  "run_once c env st db =
     (if \<not> is_trading_time (ie_now env)
      then ([], st, if ig_offhours c then backfill_if_needed env db else db)
      else (let st1 = (if ig_detect c \<and> \<not> in_checked st then snd (check_tushare_permission (ie_probe env) st) else st) in
        case get_next_source c st1 of (s, st2) \<Rightarrow>
        (case fetch_quotes_from_source s (dt_micros (ie_now env)) (dt_micros (ie_after env)) (ie_answer env s) st2 of
           (None, asked, st3) \<Rightarrow> (if asked then [(s, False)] else [], st3,
             record_sync_status env False (Some (source_type s)) 0 (Some no_quotes_text) db)
         | (Some q, asked, st3) \<Rightarrow> ([(s, True)], st3,
             (case bulk_upsert (ie_write_fails env) (ie_now env) q (trade_date_of env) db of
                Inl e \<Rightarrow> record_sync_status env False None 0 (Some e) db
              | Inr db2 \<Rightarrow> record_sync_status env True (Some (source_name s)) (length q) None db2)))))"

section \<open>The codes of the collection\<close>

lemma digit_char_facts: "digit_char c \<Longrightarrow> \<not> py_space c \<and> c \<noteq> CHR ''+'' \<and> c \<noteq> CHR ''-''"
  by (auto simp: digit_char_def re_digit_def py_space_def Let_def)

lemma zfill_digits: "list_all digit_char s \<Longrightarrow> py_zfill w s = replicate (w - length s) (CHR ''0'') @ s"
  by (cases s) (auto simp: py_zfill_def Let_def dest: digit_char_facts)

lemma lstrip_split: "\<exists>k. t = replicate k (CHR ''0'') @ lstrip_zeros t"
proof (induction t)
  case (Cons c t)
  then obtain k where "t = replicate k (CHR ''0'') @ lstrip_zeros t" by blast
  then show ?case by (cases "c = CHR ''0''") (auto simp: lstrip_zeros_def intro: exI [of _ "Suc k"] exI [of _ 0])
qed (simp add: lstrip_zeros_def)

text \<open>A code is canonical with six digits, or with more and no leading zero.\<close>

definition canonical :: "string \<Rightarrow> bool" where
  "canonical t \<longleftrightarrow> list_all digit_char t \<and> (length t = 6 \<or> 6 < length t \<and> hd t \<noteq> CHR ''0'')"

lemma canonical_fixed:
  assumes "canonical t"
  shows "normalize_stock_code t = t"
proof -
  have d: "list_all digit_char t" "6 \<le> length t" "t \<noteq> []" using assms by (auto simp: canonical_def)
  then have "py_strip t = t" by (intro py_strip_id) (auto simp: list_all_iff dest: digit_char_facts)
  moreover have "filter digit_char t = t" using d(1) by (simp add: list_all_iff filter_id_conv)
  ultimately have n: "normalize_stock_code t = py_zfill 6 (if lstrip_zeros t = [] then ''0'' else lstrip_zeros t)"
    using d by (simp add: normalize_stock_code_def py_isdigit_def)
  obtain k where k: "t = replicate k (CHR ''0'') @ lstrip_zeros t" using lstrip_split by blast
  show ?thesis
  proof (cases "length t = 6")
    case True
    have l: "k + length (lstrip_zeros t) = 6" using arg_cong [OF k, of length] True by simp
    show ?thesis
    proof (cases "lstrip_zeros t = []")
      case True
      then have "t = replicate 6 (CHR ''0'')" using k l by simp
      then show ?thesis using n True by (simp add: py_zfill_def eval_nat_numeral)
    next
      case False
      have "list_all digit_char (lstrip_zeros t)" using d(1) k by (metis list_all_append)
      then show ?thesis using n False zfill_digits l k by (simp add: add.commute) (metis add_diff_cancel_right')
    qed
  next
    case False
    then have "hd t \<noteq> CHR ''0''" "6 < length t" using assms by (auto simp: canonical_def)
    then have "lstrip_zeros t = t" using d(3) by (cases t) (simp_all add: lstrip_zeros_def)
    then show ?thesis using n d zfill_digits [OF d(1), of 6] by simp
  qed
qed

lemma normalize_canonical:
  assumes "normalize_stock_code c \<noteq> []"
  shows "canonical (normalize_stock_code c)"
proof -
  define s0 where "s0 = py_strip c"
  define s where "s = (if 6 < length s0 then filter digit_char s0 else s0)"
  have n: "normalize_stock_code c = (if py_isdigit s then py_zfill 6 (if lstrip_zeros s = [] then ''0'' else lstrip_zeros s)
     else let ds = filter digit_char s in if ds \<noteq> [] then py_zfill 6 ds else [])"
    using assms by (auto simp: normalize_stock_code_def s_def s0_def Let_def split: if_splits)
  show ?thesis
  proof (cases "py_isdigit s")
    case True
    let ?z = "if lstrip_zeros s = [] then ''0'' else lstrip_zeros s"
    have "list_all digit_char s" using True by (simp add: py_isdigit_def)
    then have "list_all digit_char (lstrip_zeros s)" by (auto simp: list_all_iff lstrip_zeros_def dest: set_dropWhileD)
    then have d: "list_all digit_char ?z" by (simp add: digit_char_def re_digit_def)
    have h: "lstrip_zeros s \<noteq> [] \<Longrightarrow> hd (lstrip_zeros s) \<noteq> CHR ''0''"
      using hd_dropWhile [of "\<lambda>c. c = CHR ''0''" s] by (simp add: lstrip_zeros_def)
    have "normalize_stock_code c = replicate (6 - length ?z) (CHR ''0'') @ ?z" using n True zfill_digits [OF d] by simp
    then show ?thesis using d h by (auto simp: canonical_def list_all_iff digit_char_def re_digit_def)
  next
    case False
    have d: "list_all digit_char (filter digit_char s)" by (simp add: list_all_iff)
    have ne: "filter digit_char s \<noteq> []" using n False assms by (auto simp: Let_def split: if_splits)
    have "\<not> 6 < length s0" using False d ne by (auto simp: s_def py_isdigit_def)
    then have "length s \<le> 6" by (simp add: s_def)
    then have "length (filter digit_char s) \<le> 6" using length_filter_le [of digit_char s] by linarith
    moreover have "normalize_stock_code c = replicate (6 - length (filter digit_char s)) (CHR ''0'') @ filter digit_char s"
      using n False ne zfill_digits [OF d] by (simp add: Let_def)
    ultimately show ?thesis using d by (auto simp: canonical_def list_all_iff digit_char_def re_digit_def)
  qed
qed

section \<open>Runs of the service\<close>

text \<open>
  The runs of the scheduler, one after the other: the history variable \<open>g\<close> has the times of the
  calls of Tushare that gave quotes, \<open>seen\<close> is the latest clock. The adapter takes time between the
  check of the limit and the record.
\<close>

inductive ingest_runs :: "ingest_cfg \<Rightarrow> int list \<Rightarrow> int \<Rightarrow> ingest \<Rightarrow> quotes_db \<Rightarrow> bool" for c where
  start: "ingest_runs c [] seen new_ingest empty_quotes_db"
| run: "ingest_runs c g seen st db \<Longrightarrow> seen \<le> dt_micros (ie_now env) \<Longrightarrow> dt_micros (ie_now env) \<le> dt_micros (ie_after env)
    \<Longrightarrow> run_once c env st db = (asked, st', db')
    \<Longrightarrow> ingest_runs c (g @ (if (Tushare, True) \<in> set asked then [dt_micros (ie_after env)] else []))
        (dt_micros (ie_after env)) st' db'"
| backfill: "ingest_runs c g seen st db \<Longrightarrow> ingest_runs c g seen st (backfill_from_historical_data env db)"

interpretation hourly: sliding_window call_stale
  by unfold_locales (simp add: call_stale_def)

text \<open>What a fetch does to the calls: nothing, or the purge, or the purge and a new call.\<close>

lemma fetch_calls:
  assumes "fetch_quotes_from_source s now after ans st = (r, asked, st')" "\<not> in_premium st"
  shows "if s \<noteq> Tushare then in_calls st' = in_calls st
    else let cs = dropWhile (call_stale now) (in_calls st) in
      if r = None then in_calls st' = cs else length cs < hourly_limit \<and> in_calls st' = cs @ [after]"
  using assms by (cases ans) (auto simp: fetch_quotes_from_source_def can_call_tushare_def record_tushare_call_def
      Let_def not_le split: if_splits)

lemma fetch_rest:
  assumes "fetch_quotes_from_source s now after ans st = (r, asked, st')"
  shows "in_premium st' = in_premium st" "in_index st' = in_index st" "in_checked st' = in_checked st"
  using assms by (cases ans; auto simp: fetch_quotes_from_source_def can_call_tushare_def record_tushare_call_def
      Let_def split: if_splits)+

text \<open>Without the paid permission the kept calls obey the contract of a window of an hour.\<close>

lemma fetch_window:
  assumes "window_ok call_stale hourly_limit seen g (in_calls st)" "seen \<le> now" "now \<le> after" "\<not> in_premium st"
    "fetch_quotes_from_source s now after ans st = (r, asked, st')"
  shows "window_ok call_stale hourly_limit after (g @ (if s = Tushare \<and> r \<noteq> None then [after] else [])) (in_calls st')"
proof -
  let ?cs = "dropWhile (call_stale now) (in_calls st)"
  have w: "window_ok call_stale hourly_limit now g ?cs" using hourly.purge [OF assms(1,2)] .
  note hourly.later [OF w assms(3)] hourly.grant [OF w _ assms(3)] hourly.later [OF assms(1), of after]
  then show ?thesis using fetch_calls [OF assms(5,4)] assms(2,3) by (auto simp: Let_def split: if_splits)
qed

text \<open>The parts of a run.\<close>

lemma run_closed: "\<not> is_trading_time (ie_now env) \<Longrightarrow> run_once c env st db = (asked, st', db') \<Longrightarrow> asked = [] \<and> st' = st"
  by (simp add: run_once_def)

lemma run_trading:
  assumes "is_trading_time (ie_now env)" "run_once c env st db = (asked, st', db')"
  obtains st1 s st2 r b where
    "st1 = (if ig_detect c \<and> \<not> in_checked st then snd (check_tushare_permission (ie_probe env) st) else st)"
    "get_next_source c st1 = (s, st2)"
    "fetch_quotes_from_source s (dt_micros (ie_now env)) (dt_micros (ie_after env)) (ie_answer env s) st2 = (r, b, st')"
    "asked = (if r \<noteq> None then [(s, True)] else if b then [(s, False)] else [])"
proof -
  define st1 where "st1 = (if ig_detect c \<and> \<not> in_checked st then snd (check_tushare_permission (ie_probe env) st) else st)"
  obtain s st2 where n: "get_next_source c st1 = (s, st2)" by fastforce
  obtain r b st3 where f: "fetch_quotes_from_source s (dt_micros (ie_now env)) (dt_micros (ie_after env))
      (ie_answer env s) st2 = (r, b, st3)" using prod_cases3 by blast
  have "st3 = st' \<and> asked = (if r \<noteq> None then [(s, True)] else if b then [(s, False)] else [])"
    using assms f n by (auto simp: run_once_def st1_def [symmetric] Let_def split: option.splits)
  then show ?thesis using that [OF st1_def n] f by blast
qed

lemma before_fetch:
  "in_calls (snd (get_next_source c st)) = in_calls st \<and> in_premium (snd (get_next_source c st)) = in_premium st
    \<and> in_checked (snd (get_next_source c st)) = in_checked st"
  "in_calls (snd (check_tushare_permission p st)) = in_calls st"
  by (simp_all add: get_next_source_def check_tushare_permission_def)

text \<open>The permission is never taken back.\<close>

definition ingest_ok :: "int list \<Rightarrow> int \<Rightarrow> ingest \<Rightarrow> bool" where
  "ingest_ok g seen st \<longleftrightarrow> (in_premium st \<longrightarrow> in_checked st)
     \<and> (\<not> in_premium st \<longrightarrow> window_ok call_stale hourly_limit seen g (in_calls st))"

lemma run_ok:
  assumes "ingest_ok g seen st" "seen \<le> dt_micros (ie_now env)" "dt_micros (ie_now env) \<le> dt_micros (ie_after env)"
    "run_once c env st db = (asked, st', db')"
  shows "ingest_ok (g @ (if (Tushare, True) \<in> set asked then [dt_micros (ie_after env)] else [])) (dt_micros (ie_after env)) st'"
proof (cases "is_trading_time (ie_now env)")
  case False
  have "dt_micros (ie_after env) \<ge> seen" using assms(2,3) by simp
  then show ?thesis using run_closed [OF False assms(4)] assms(1) hourly.later unfolding ingest_ok_def by auto
next
  case True
  obtain st1 s st2 r b where x: "st1 = (if ig_detect c \<and> \<not> in_checked st then snd (check_tushare_permission (ie_probe env) st) else st)"
    "get_next_source c st1 = (s, st2)"
    "fetch_quotes_from_source s (dt_micros (ie_now env)) (dt_micros (ie_after env)) (ie_answer env s) st2 = (r, b, st')"
    "asked = (if r \<noteq> None then [(s, True)] else if b then [(s, False)] else [])" using run_trading [OF True assms(4)] by metis
  have c1: "in_calls st1 = in_calls st" "in_premium st1 \<longrightarrow> in_checked st1" "\<not> in_premium st1 \<longrightarrow> \<not> in_premium st"
    using x(1) assms(1) by (auto simp: before_fetch ingest_ok_def check_tushare_permission_def)
  have c2: "in_calls st2 = in_calls st1" "in_premium st2 = in_premium st1" "in_checked st2 = in_checked st1"
    using before_fetch(1) [of c st1] x(2) by simp_all
  have "(Tushare, True) \<in> set asked \<longleftrightarrow> s = Tushare \<and> r \<noteq> None" using x(4) by auto
  then show ?thesis
    using fetch_window [OF _ assms(2,3) _ x(3), of g] fetch_rest [OF x(3)] c1 c2 assms(1) by (auto simp: ingest_ok_def)
qed

lemma ingest_runs_ok: "ingest_runs c g seen st db \<Longrightarrow> ingest_ok g seen st"
proof (induction rule: ingest_runs.induct)
  case (start seen)
  show ?case by (simp add: ingest_ok_def new_ingest_def hourly.start)
next
  case (run g seen st db env asked st' db')
  then show ?case using run_ok by blast
qed

text \<open>A sequence of runs with the sources that were asked.\<close>

fun run_many :: "ingest_cfg \<Rightarrow> ingest_env list \<Rightarrow> ingest \<Rightarrow> quotes_db \<Rightarrow> (quote_source \<times> bool) list \<times> ingest \<times> quotes_db" where
  "run_many c [] st db = ([], st, db)"
| "run_many c (env # envs) st db = (case run_once c env st db of (a, st1, db1) \<Rightarrow>
     (case run_many c envs st1 db1 of (as, st2, db2) \<Rightarrow> (a @ as, st2, db2)))"

lemma empty_answers:
  assumes "\<not> ig_rotation c" "\<not> ig_detect c" "is_trading_time (ie_now env)" "ie_answer env Tushare \<in> {FetchEmpty, FetchRaised}"
    "in_calls st = []" "\<not> in_premium st"
  shows "fst (run_many c (replicate n env) st db) = replicate n (Tushare, False)"
  using assms(5,6)
proof (induction n arbitrary: st db)
  case (Suc n)
  have "\<exists>st1 db1. run_once c env st db = ([(Tushare, False)], st1, db1) \<and> in_calls st1 = [] \<and> \<not> in_premium st1"
    using assms(1-4) Suc.prems
    by (auto simp: run_once_def get_next_source_def fetch_quotes_from_source_def can_call_tushare_def hourly_limit_def)
  then obtain st1 db1 where r: "run_once c env st db = ([(Tushare, False)], st1, db1)" "in_calls st1 = []" "\<not> in_premium st1"
    by blast
  from Suc.IH [OF r(2,3), of db1] r(1) show ?case by (cases "run_many c (replicate n env) st1 db1") simp
qed simp

text \<open>
  The hourly limit of a free Tushare account: in every reachable state without the paid
  permission no three calls that gave quotes lie within an hour, over all runs. But a call that
  raises or gives nothing is not recorded: any number of them is sent within an hour.
\<close>

theorem tushare_hourly:
  assumes "ingest_runs c g seen st db" "\<not> in_premium st"
    "\<not> ig_rotation c2" "\<not> ig_detect c2" "is_trading_time (ie_now env)" "ie_answer env Tushare \<in> {FetchEmpty, FetchRaised}"
  shows "(\<forall>i. i + hourly_limit < length g \<longrightarrow> g ! i + hour < g ! (i + hourly_limit))
    \<and> fst (run_many c2 (replicate n env) new_ingest db2) = replicate n (Tushare, False)"
  using ingest_runs_ok [OF assms(1)] assms(2) empty_answers [OF assms(3-6), of new_ingest n db2]
  by (auto simp: ingest_ok_def window_ok_def spaced_def call_stale_def new_ingest_def)

definition ex_env :: "pydatetime \<Rightarrow> fetch_answer \<Rightarrow> ingest_env" where
  "ex_env now a = \<lparr>ie_now = now, ie_after = now, ie_probe = ProbeEmpty, ie_answer = (\<lambda>s. a), ie_latest = None,
     ie_today = ustr_of ''20240105'', ie_snapshot = None, ie_history = [], ie_reads_fail = False, ie_write_fails = None,
     ie_status_ok = True\<rparr>"

definition ex_quote :: quote_values where
  "ex_quote = \<lparr>qv_close = Some 10, qv_pct = None, qv_amount = None, qv_volume = None, qv_open = None, qv_high = None,
     qv_low = None, qv_pre_close = None\<rparr>"

lemma ex_trading_run: "is_trading_time (DateTime 5 (hms 10 0 0))"
  by (simp add: is_trading_time_def weekday_def clock_at_def hms_def)

text \<open>A run that records a call.\<close>

definition ex_ingest_cfg :: ingest_cfg where
  "ex_ingest_cfg = \<lparr>ig_rotation = False, ig_offhours = False, ig_detect = False\<rparr>"

lemma ex_ingest:
  "\<exists>st db. ingest_runs ex_ingest_cfg [dt_micros (DateTime 5 (hms 10 0 0))] (dt_micros (DateTime 5 (hms 10 0 0))) st db
    \<and> dkeys (qd_quotes db) = [''600519''] \<and> \<not> in_premium st"
proof -
  let ?t = "DateTime 5 (hms 10 0 0)"
  let ?e = "ex_env ?t (Fetched [(''sh600519'', ex_quote)])"
  obtain asked st db where r: "run_once ex_ingest_cfg ?e new_ingest empty_quotes_db = (asked, st, db)"
    by (cases "run_once ex_ingest_cfg ?e new_ingest empty_quotes_db")
  have n: "normalize_stock_code ''sh600519'' = ''600519''" by code_simp
  have a: "asked = [(Tushare, True)] \<and> dkeys (qd_quotes db) = [''600519''] \<and> \<not> in_premium st"
    using r ex_trading_run
    by (simp add: run_once_def ex_env_def ex_ingest_cfg_def get_next_source_def fetch_quotes_from_source_def
        can_call_tushare_def new_ingest_def record_tushare_call_def hourly_limit_def bulk_upsert_def n upsert_def
        empty_quotes_db_def record_sync_status_def Let_def trade_date_of_def) (auto simp: record_sync_status_def)
  have "ingest_runs ex_ingest_cfg [dt_micros ?t] (dt_micros ?t) st db"
    using ingest_runs.run [OF ingest_runs.start _ _ r, of "dt_micros ?t"] a by (simp add: ex_env_def)
  then show ?thesis using a by (intro exI [of _ st] exI [of _ db]) simp
qed

lemma tushare_hourly_witness:
  "\<exists>st db. ingest_runs ex_ingest_cfg [dt_micros (DateTime 5 (hms 10 0 0))] (dt_micros (DateTime 5 (hms 10 0 0))) st db
    \<and> fst (run_many ex_ingest_cfg (replicate 3 (ex_env (DateTime 5 (hms 10 0 0)) FetchEmpty)) new_ingest empty_quotes_db)
      = replicate 3 (Tushare, False)"
proof -
  obtain st db where i: "ingest_runs ex_ingest_cfg [dt_micros (DateTime 5 (hms 10 0 0))]
      (dt_micros (DateTime 5 (hms 10 0 0))) st db" "\<not> in_premium st" using ex_ingest by blast
  then show ?thesis
    using tushare_hourly [OF i, of ex_ingest_cfg "ex_env (DateTime 5 (hms 10 0 0)) FetchEmpty" 3 empty_quotes_db,
        THEN conjunct2] ex_trading_run
    by (intro exI [of _ st] exI [of _ db]) (simp add: ex_env_def ex_ingest_cfg_def)
qed

section \<open>The keys of the collection\<close>

definition market_ok :: "(string, market_doc) dict \<Rightarrow> bool" where
  "market_ok docs \<longleftrightarrow> distinct (dkeys docs)
     \<and> (\<forall>(c, d) \<in> set docs. mk_code d = c \<and> mk_symbol d = c \<and> canonical c)"

lemma upsert_ok:
  assumes "market_ok docs"
  shows "market_ok (upsert now day q docs)"
proof (cases q)
  case (Pair code v)
  let ?c = "normalize_stock_code code"
  let ?d = "\<lparr>mk_code = ?c, mk_symbol = ?c, mk_values = v, mk_trade_date = day, mk_updated = now\<rparr>"
  have "market_ok (dset ?c ?d docs)" if "?c \<noteq> []"
    using assms set_dset_subset [of ?c ?d docs] normalize_canonical [OF that] unfolding market_ok_def by fastforce
  then show ?thesis using assms Pair by (simp add: upsert_def Let_def)
qed

lemma bulk_ok:
  assumes "market_ok (qd_quotes db)" "bulk_upsert e now qs day db = Inr db'"
  shows "market_ok (qd_quotes db')"
proof -
  have "market_ok (fold (upsert now day) qs (qd_quotes db))" using assms(1) upsert_ok by (rule fold_keeps)
  then show ?thesis using assms by (auto simp: bulk_upsert_def split: if_splits option.splits)
qed

lemma backfill_ok:
  "market_ok (qd_quotes db) \<Longrightarrow> market_ok (qd_quotes (backfill_from_historical_data env db))"
  "market_ok (qd_quotes db) \<Longrightarrow> market_ok (qd_quotes (backfill_last_close_snapshot env db))"
  by (auto simp: backfill_from_historical_data_def backfill_last_close_snapshot_def intro: bulk_ok split: option.split sum.split)

lemma status_quotes [simp]: "qd_quotes (record_sync_status env ok src n e db) = qd_quotes db"
  by (simp add: record_sync_status_def)

lemma run_market_ok:
  "market_ok (qd_quotes db) \<Longrightarrow> run_once c env st db = (asked, st', db') \<Longrightarrow> market_ok (qd_quotes db')"
  by (auto simp: run_once_def backfill_if_needed_def Let_def backfill_ok bulk_ok
      split: if_splits option.splits sum.splits prod.splits)

text \<open>
  The collection of market quotes is well keyed in every reachable state: one document per
  code, each with its code and symbol equal to its key, and every key in the normal form, which
  normalising again does not change.
\<close>

theorem market_codes:
  assumes "ingest_runs c g seen st db"
  shows "distinct (dkeys (qd_quotes db))
    \<and> (\<forall>(k, d) \<in> set (qd_quotes db). mk_code d = k \<and> mk_symbol d = k \<and> 6 \<le> length k \<and> normalize_stock_code k = k)"
proof -
  have "market_ok (qd_quotes db)" using assms
  proof (induction rule: ingest_runs.induct)
    case (start seen)
    show ?case by (simp add: market_ok_def empty_quotes_db_def)
  next
    case (run g seen st db env asked st' db')
    then show ?case using run_market_ok by blast
  next
    case (backfill g seen st db env)
    then show ?case using backfill_ok by blast
  qed
  then show ?thesis using canonical_fixed by (auto simp: market_ok_def canonical_def)
qed

lemma market_codes_witness:
  "\<exists>st db. ingest_runs ex_ingest_cfg [dt_micros (DateTime 5 (hms 10 0 0))] (dt_micros (DateTime 5 (hms 10 0 0))) st db
    \<and> dkeys (qd_quotes db) = [''600519''] \<and> normalize_stock_code ''600519'' = ''600519''"
proof -
  obtain st db where i: "ingest_runs ex_ingest_cfg [dt_micros (DateTime 5 (hms 10 0 0))]
      (dt_micros (DateTime 5 (hms 10 0 0))) st db" "dkeys (qd_quotes db) = [''600519'']" using ex_ingest by auto
  then show ?thesis using market_codes [OF i(1)] by (intro exI [of _ st] exI [of _ db]) auto
qed

end
