(* ===== verification/Progress.thy ===== *)
theory Progress
  imports PyFloat PyStr
begin

text \<open>
  The progress tracker of an analysis, \<open>app/services/progress/tracker.py\<close>: its steps with their
  weights, their states by the percentage of the whole, the estimate of the time, and the calls
  of \<open>simple_analysis_service.py\<close> and \<open>analysis_service.py\<close> that drive it. The store for other processes
  (Redis or a file) holds a copy of the state and its failures are swallowed. Times are floats
  of the clock.
\<close>

section \<open>States of a step\<close>

datatype step_status = Completed | Current | Pending | Failed

text \<open>The order in which the states stand in a list of steps.\<close>

fun status_rank :: "step_status \<Rightarrow> nat" where
  "status_rank Completed = 0" | "status_rank Current = 1" | "status_rank Pending = 2" | "status_rank Failed = 3"

instantiation step_status :: linorder
begin

definition less_eq_step_status :: "step_status \<Rightarrow> step_status \<Rightarrow> bool" where
  "less_eq_step_status a b \<longleftrightarrow> status_rank a \<le> status_rank b"

definition less_step_status :: "step_status \<Rightarrow> step_status \<Rightarrow> bool" where
  "less_step_status a b \<longleftrightarrow> status_rank a < status_rank b"

instance
proof
  fix a b :: step_status assume "a \<le> b" "b \<le> a"
  then show "a = b" by (cases a; cases b) (simp_all add: less_eq_step_status_def)
qed (auto simp: less_eq_step_status_def less_step_status_def)

end

record astep =
  as_name :: ustr
  as_description :: ustr
  as_status :: step_status
  as_weight :: pyfloat
  as_start :: "pyfloat option"
  as_end :: "pyfloat option"

section \<open>The steps of an analysis\<close>

definition txt_quick :: ustr where
  "txt_quick = [24555, 36895]"

definition txt_basic :: ustr where
  "txt_basic = [22522, 30784]"

definition txt_standard :: ustr where
  "txt_standard = [26631, 20934]"

definition txt_deep :: ustr where
  "txt_deep = [28145, 24230]"

definition txt_full :: ustr where
  "txt_full = [20840, 38754]"

definition txt_analyst :: ustr where
  "txt_analyst = [20998, 26512, 24072]"

definition new_step :: "ustr \<Rightarrow> ustr \<Rightarrow> pyfloat \<Rightarrow> astep" where
  "new_step name desc w = \<lparr>as_name = name, as_description = desc, as_status = Pending, as_weight = w,
     as_start = None, as_end = None\<rparr>"

definition preparation :: "astep list" where
  "preparation = [new_step [128203, 32, 20934, 22791, 38454, 27573]
     [39564, 35777, 32929, 31080, 20195, 30721, 65292, 26816, 26597, 25968, 25454, 28304, 21487, 29992, 24615]
     (fl (3 / 100)),
     new_step [128295, 32, 29615, 22659, 26816, 26597]
     [26816, 26597, 65, 80, 73, 23494, 38053, 37197, 32622, 65292, 30830, 20445, 25968, 25454, 33719,
     21462, 27491, 24120]
     (fl (2 / 100)),
     new_step [128176, 32, 25104, 26412, 20272, 31639]
     [26681, 25454, 20998, 26512, 28145, 24230, 39044, 20272, 65, 80, 73, 35843, 29992, 25104, 26412]
     (fl (1 / 100)),
     new_step [9881, 65039, 32, 21442, 25968, 35774, 32622]
     [37197, 32622, 20998, 26512, 21442, 25968, 21644, 65, 73, 27169, 22411, 36873, 25321]
     (fl (2 / 100)),
     new_step [128640, 32, 21551, 21160, 24341, 25806]
     [21021, 22987, 21270, 65, 73, 20998, 26512, 24341, 25806, 65292, 20934, 22791, 24320, 22987, 20998,
     26512]
     (fl (2 / 100))]"

text \<open>\<open>_get_analyst_step_info\<close>, with the two texts of an analyst that is not in the table.\<close>

definition analyst_info :: "string \<Rightarrow> ustr \<times> ustr" where
  "analyst_info a = (case map_of [
     (''market'', ([128202, 32, 24066, 22330, 20998, 26512, 24072],
       [20998, 26512, 32929, 20215, 36208, 21183, 12289, 25104, 20132, 37327, 12289, 25216, 26415,
     25351, 26631, 31561, 24066, 22330, 34920, 29616])),
     (''fundamentals'', ([128188, 32, 22522, 26412, 38754, 20998, 26512, 24072],
       [20998, 26512, 20844, 21496, 36130, 21153, 29366, 20917, 12289, 30408, 21033, 33021, 21147,
     12289, 25104, 38271, 24615, 31561, 22522, 26412, 38754])),
     (''news'', ([128240, 32, 26032, 38395, 20998, 26512, 24072],
       [20998, 26512, 30456, 20851, 26032, 38395, 12289, 20844, 21578, 12289, 34892, 19994, 21160,
     24577, 23545, 32929, 20215, 30340, 24433, 21709])),
     (''social'', ([128172, 32, 31038, 20132, 23186, 20307, 20998, 26512, 24072],
       [20998, 26512, 31038, 20132, 23186, 20307, 35752, 35770, 12289, 32593, 32476, 28909, 24230,
     12289, 25955, 25143, 24773, 32490, 31561]))] a of Some x \<Rightarrow> x
   | None \<Rightarrow> ([128269, 32] @ ustr_of a @ txt_analyst, [36827, 34892] @ ustr_of a @ [30456, 20851, 30340, 19987, 19994, 20998, 26512]))"

definition get_debate_rounds :: "ustr \<Rightarrow> nat" where
  "get_debate_rounds depth = (if depth = txt_quick then 1 else if depth = txt_standard then 2 else 3)"

definition debate_name :: "nat \<Rightarrow> ustr" where
  "debate_name i = [127919, 32, 30740, 31350, 36777, 35770, 32, 31532] @ ustr_of (dec_nat (i + 1)) @ [36718]"

definition txt_debate :: ustr where
  "txt_debate = [22810, 22836, 31354, 22836, 30740, 31350, 21592, 28145, 24230, 36777, 35770]"

definition researchers :: "pyfloat \<Rightarrow> astep list" where
  "researchers w = [new_step [128002, 32, 30475, 28072, 30740, 31350, 21592]
     [22522, 20110, 20998, 26512, 24072, 25253, 21578, 26500, 24314, 20080, 20837, 35770, 25454]
     w,
     new_step [128059, 32, 30475, 36300, 30740, 31350, 21592]
     [35782, 21035, 28508, 22312, 39118, 38505, 21644, 38382, 39064]
     w]"

definition research_manager :: "pyfloat \<Rightarrow> astep list" where
  "research_manager w = [new_step [128084, 32, 30740, 31350, 32463, 29702]
     [32508, 21512, 36777, 35770, 32467, 26524, 65292, 24418, 25104, 30740, 31350, 20849, 35782]
     w]"

definition trader_and_risk :: "pyfloat \<Rightarrow> astep list" where
  "trader_and_risk w = [new_step [128188, 32, 20132, 26131, 21592, 20915, 31574]
     [22522, 20110, 30740, 31350, 32467, 26524, 21046, 23450, 20855, 20307, 20132, 26131, 31574, 30053]
     (fl (8 / 100)),
     new_step [128293, 32, 28608, 36827, 39118, 38505, 35780, 20272]
     [20174, 28608, 36827, 35282, 24230, 35780, 20272, 25237, 36164, 39118, 38505]
     w,
     new_step [128737, 65039, 32, 20445, 23432, 39118, 38505, 35780, 20272]
     [20174, 20445, 23432, 35282, 24230, 35780, 20272, 25237, 36164, 39118, 38505]
     w,
     new_step [9878, 65039, 32, 20013, 24615, 39118, 38505, 35780, 20272]
     [20174, 20013, 24615, 35282, 24230, 35780, 20272, 25237, 36164, 39118, 38505]
     w,
     new_step [127919, 32, 39118, 38505, 32463, 29702]
     [32508, 21512, 39118, 38505, 35780, 20272, 65292, 21046, 23450, 39118, 38505, 25511, 21046, 31574, 30053]
     w]"

definition final_steps :: "astep list" where
  "final_steps = [new_step [128225, 32, 20449, 21495, 22788, 29702]
     [22788, 29702, 25152, 26377, 20998, 26512, 32467, 26524, 65292, 29983, 25104, 20132, 26131, 20449, 21495]
     (fl (4 / 100)),
     new_step [128202, 32, 29983, 25104, 25253, 21578]
     [25972, 29702, 20998, 26512, 32467, 26524, 65292, 29983, 25104, 23436, 25972, 25253, 21578]
     (fl (3 / 100))]"

definition analyst_steps :: "string list \<Rightarrow> astep list" where
  "analyst_steps as = map (\<lambda>a. case analyst_info a of (n, d) \<Rightarrow>
     new_step n d (fdiv (fl (35 / 100)) (of_nat (max (length as) 1)))) as"

definition generate_dynamic_steps :: "string list \<Rightarrow> ustr \<Rightarrow> astep list" where
  "generate_dynamic_steps as depth = (let r = get_debate_rounds depth; w = fdiv (fl (25 / 100)) (of_nat (3 + r)) in
     preparation @ analyst_steps as @ researchers w @ map (\<lambda>i. new_step (debate_name i) txt_debate w) [0..<r]
     @ research_manager w @ trader_and_risk (fdiv (fl (15 / 100)) 4) @ final_steps)"

section \<open>The estimate of the time\<close>

definition depth_level :: "ustr \<Rightarrow> nat" where
  "depth_level depth = or_default (map_of [(txt_quick, 1), (txt_basic, 2), (txt_standard, 3), (txt_deep, 4), (txt_full, 5)] depth) 3"

definition base_time :: "nat \<Rightarrow> pyfloat" where
  "base_time d = or_default (map_of [(1, 150), (2, 180), (3, 240), (4, 330), (5, 480)] d) 240"

definition analyst_multiplier :: "nat \<Rightarrow> pyfloat" where
  "analyst_multiplier n = (if n = 1 then 1 else if n = 2 then fl (15 / 10) else if n = 3 then 2 else if n = 4 then fl (24 / 10)
     else fadd (fl (24 / 10)) (fmul (of_int (int n - 4)) (fl (3 / 10))))"

definition model_multiplier :: "ustr \<Rightarrow> pyfloat" where
  "model_multiplier p = fl (or_default (map_of [(ustr_of ''qwen'', 1), (ustr_of ''dashscope'', 1), (ustr_of ''deepseek'', 8 / 10),
     (ustr_of ''google'', 12 / 10)] p) 1)"

definition get_base_total_time :: "string list \<Rightarrow> ustr \<Rightarrow> ustr \<Rightarrow> pyfloat" where
  "get_base_total_time as depth provider =
     fmul (fmul (base_time (depth_level depth)) (analyst_multiplier (length as))) (model_multiplier provider)"

section \<open>The tracker\<close>

record ptracker =
  pt_analysts :: "string list"
  pt_depth :: ustr
  pt_provider :: ustr
  pt_steps :: "astep list"
  pt_percentage :: pyfloat
  pt_status :: string
  pt_current :: nat
  pt_current_name :: ustr
  pt_current_description :: ustr
  pt_message :: ustr
  pt_start :: pyfloat
  pt_updated :: pyfloat
  pt_elapsed :: pyfloat
  pt_remaining :: pyfloat
  pt_total :: pyfloat
  pt_finished :: "pyfloat option"
  pt_reason :: "ustr option"

text \<open>The constructor; \<open>provider\<close> is already normalised.\<close>

definition new_tracker :: "string list \<Rightarrow> ustr \<Rightarrow> ustr \<Rightarrow> pyfloat \<Rightarrow> ptracker" where
  "new_tracker as depth provider now = \<lparr>pt_analysts = as, pt_depth = depth, pt_provider = provider,
     pt_steps = generate_dynamic_steps as depth, pt_percentage = 0, pt_status = ''running'', pt_current = 0,
     pt_current_name = [21021, 22987, 21270], pt_current_description = [20934, 22791, 24320, 22987, 20998, 26512],
     pt_message = [20998, 26512, 20219, 21153, 24050, 21551, 21160], pt_start = now, pt_updated = now, pt_elapsed = 0,
     pt_remaining = get_base_total_time as depth provider, pt_total = get_base_total_time as depth provider,
     pt_finished = None, pt_reason = None\<rparr>"

text \<open>\<open>_update_steps_by_progress\<close>: a step by the percentage and the ends of the steps before it.\<close>

definition step_by_progress :: "pyfloat \<Rightarrow> pyfloat \<Rightarrow> pyfloat \<Rightarrow> pyfloat \<Rightarrow> astep \<Rightarrow> astep" where
  "step_by_progress now pct start til s =
     (if til \<le> pct then (if as_status s \<noteq> Completed then s\<lparr>as_status := Completed, as_end := Some now\<rparr> else s)
      else if start < pct then (if as_status s \<noteq> Current then s\<lparr>as_status := Current, as_start := Some now\<rparr> else s)
      else if as_status s \<notin> {Pending, Failed} then s\<lparr>as_status := Pending\<rparr> else s)"

fun update_steps :: "pyfloat \<Rightarrow> pyfloat \<Rightarrow> pyfloat \<Rightarrow> astep list \<Rightarrow> astep list" where
  "update_steps now pct start [] = []"
| "update_steps now pct start (s # ss) = (let til = fadd start (fmul (as_weight s) 100) in
     step_by_progress now pct start til s # update_steps now pct til ss)"

fun index_of :: "'a \<Rightarrow> 'a list \<Rightarrow> nat option" where
  "index_of x [] = None"
| "index_of x (y # ys) = (if y = x then Some 0 else map_option Suc (index_of x ys))"

definition detect_current_step :: "step_status list \<Rightarrow> nat" where
  "detect_current_step ss = (case index_of Current ss of Some i \<Rightarrow> i
     | None \<Rightarrow> (case index_of Pending ss of Some i \<Rightarrow> i
       | None \<Rightarrow> (case index_of Completed (rev ss) of Some i \<Rightarrow> length ss - 1 - i | None \<Rightarrow> 0)))"

definition time_estimates :: "pyfloat \<Rightarrow> ptracker \<Rightarrow> pyfloat \<times> pyfloat \<times> pyfloat" where
  "time_estimates now t = (let elapsed = fsub now (pt_start t) in
     if 100 \<le> pt_percentage t then (elapsed, 0, elapsed)
     else (let whole = get_base_total_time (pt_analysts t) (pt_depth t) (pt_provider t) in
       (elapsed, max 0 (fsub whole elapsed), whole)))"

text \<open>
  What the callers pass to \<open>update_progress\<close>: a message, or a dict with a message and perhaps a
  percentage. One call reads the clock once.
\<close>

datatype progress_update = Message ustr | Dict "pyfloat option" ustr

definition store_update :: "pyfloat \<Rightarrow> progress_update \<Rightarrow> ptracker \<Rightarrow> ptracker" where
  "store_update now u t = (case u of Message m \<Rightarrow> t\<lparr>pt_message := m, pt_updated := now\<rparr>
     | Dict p m \<Rightarrow> t\<lparr>pt_percentage := or_default p (pt_percentage t), pt_message := m\<rparr>)"

definition update_progress :: "pyfloat \<Rightarrow> progress_update \<Rightarrow> ptracker \<Rightarrow> ptracker" where
  "update_progress now u t = (let t1 = store_update now u t;
     ss = update_steps now (pt_percentage t1) 0 (pt_steps t1);
     i = detect_current_step (map as_status ss);
     t2 = t1\<lparr>pt_steps := ss, pt_current := i\<rparr>;
     t3 = (if i < length ss then t2\<lparr>pt_current_name := as_name (ss ! i), pt_current_description := as_description (ss ! i)\<rparr> else t2)
     in case time_estimates now t3 of (e, r, w) \<Rightarrow> t3\<lparr>pt_elapsed := e, pt_remaining := r, pt_total := w\<rparr>)"

definition complete_step :: "pyfloat \<Rightarrow> astep \<Rightarrow> astep" where
  "complete_step now s = (if as_status s \<noteq> Failed
     then s\<lparr>as_status := Completed, as_end := Some (case as_end s of Some e \<Rightarrow> if e = 0 then now else e | None \<Rightarrow> now)\<rparr> else s)"

definition mark_completed :: "pyfloat \<Rightarrow> ptracker \<Rightarrow> ptracker" where
  "mark_completed now t = t\<lparr>pt_percentage := 100, pt_status := ''completed'', pt_finished := Some now,
     pt_steps := map (complete_step now) (pt_steps t)\<rparr>"

definition fail_step :: "pyfloat \<Rightarrow> astep \<Rightarrow> astep" where
  "fail_step now s = (if as_status s \<notin> {Completed, Failed}
     then s\<lparr>as_status := Failed, as_end := Some (case as_end s of Some e \<Rightarrow> if e = 0 then now else e | None \<Rightarrow> now)\<rparr> else s)"

definition mark_failed :: "pyfloat \<Rightarrow> ustr \<Rightarrow> ptracker \<Rightarrow> ptracker" where
  "mark_failed now why t = t\<lparr>pt_status := ''failed'', pt_reason := Some why, pt_finished := Some now,
     pt_steps := map (fail_step now) (pt_steps t)\<rparr>"

text \<open>
  What another process reads (\<open>get_progress_by_id\<close>): the stored state with the times of now. A start
  time of zero counts as none.
\<close>

definition static_time_estimates :: "pyfloat \<Rightarrow> ptracker \<Rightarrow> ptracker" where
  "static_time_estimates now t = (if pt_start t = 0 then t else let elapsed = fsub now (pt_start t) in
     if 100 \<le> pt_percentage t then t\<lparr>pt_elapsed := elapsed, pt_total := elapsed, pt_remaining := 0\<rparr>
     else t\<lparr>pt_elapsed := elapsed, pt_remaining := max 0 (fsub (pt_total t) elapsed)\<rparr>)"

section \<open>The drivers of the tracker\<close>

text \<open>The callback of the graph in \<open>simple_analysis_service.py\<close>: a known node may only raise the percentage.\<close>

definition node_progress_map :: "(ustr \<times> pyfloat) list" where
  "node_progress_map = [
     ([128202, 32, 24066, 22330, 20998, 26512, 24072], 55 / 2),
     ([128188, 32, 22522, 26412, 38754, 20998, 26512, 24072], 45),
     ([128240, 32, 26032, 38395, 20998, 26512, 24072], 55 / 2),
     ([128172, 32, 31038, 20132, 23186, 20307, 20998, 26512, 24072], 55 / 2),
     ([128002, 32, 30475, 28072, 30740, 31350, 21592], 205 / 4),
     ([128059, 32, 30475, 36300, 30740, 31350, 21592], 115 / 2),
     ([128084, 32, 30740, 31350, 32463, 29702], 70),
     ([128188, 32, 20132, 26131, 21592, 20915, 31574], 78),
     ([128293, 32, 28608, 36827, 39118, 38505, 35780, 20272], 327 / 4),
     ([128737, 65039, 32, 20445, 23432, 39118, 38505, 35780, 20272], 171 / 2),
     ([9878, 65039, 32, 20013, 24615, 39118, 38505, 35780, 20272], 357 / 4),
     ([127919, 32, 39118, 38505, 32463, 29702], 93),
     ([128202, 32, 29983, 25104, 25253, 21578], 97)]"

definition graph_progress_callback :: "pyfloat \<Rightarrow> ustr \<Rightarrow> ptracker \<Rightarrow> ptracker" where
  "graph_progress_callback now m t = update_progress now (case map_of node_progress_map m of
     None \<Rightarrow> Dict None m
   | Some p \<Rightarrow> if pt_percentage t < of_int \<lfloor>p\<rfloor> then Dict (Some (of_int \<lfloor>p\<rfloor>)) m else Dict None m) t"

text \<open>
  \<open>_execute_single_analysis_async\<close> of \<open>analysis_service.py\<close>, from the end of the analysis on: the call
  of \<open>mark_completed\<close> passes a message to a method that takes no argument, which raises. The
  result is the state that is stored for the task; \<open>Inl\<close> is the text of an exception.
\<close>

definition mark_completed_call :: "pyfloat \<Rightarrow> ustr list \<Rightarrow> ptracker \<Rightarrow> (ustr, ptracker) result" where
  "mark_completed_call now args t = (if args = [] then Inr (mark_completed now t) else Inl (ustr_of ''TypeError''))"

definition completed_message :: ustr where "completed_message = [9989, 32, 20998, 26512, 23436, 25104]"

definition finish_analysis :: "pyfloat \<Rightarrow> ustr + 'r \<Rightarrow> ptracker \<Rightarrow> string \<times> ptracker" where
  "finish_analysis now outcome t = (case
     (case outcome of Inl e \<Rightarrow> Inl e | Inr r \<Rightarrow> mark_completed_call now [completed_message] t) of
       Inr t2 \<Rightarrow> (''completed'', t2) | Inl e \<Rightarrow> (''failed'', mark_failed now e t))"

section \<open>The order of the states\<close>

text \<open>Completed steps, at most one current one, pending ones, failed ones.\<close>

definition well_ordered :: "step_status list \<Rightarrow> bool" where
  "well_ordered ss \<longleftrightarrow> sorted ss \<and> length (filter (\<lambda>s. s = Current) ss) \<le> 1"

lemma rank_simps [simp]: "Completed \<le> s" "s \<le> Failed" "(Failed \<le> s) = (s = Failed)"
  "(Pending \<le> s) = (s \<in> {Pending, Failed})" "(Current \<le> s) = (s \<noteq> Completed)" "(s \<le> Completed) = (s = Completed)"
  by (cases s; simp add: less_eq_step_status_def)+

text \<open>The new state of a step, without its times.\<close>

definition next_status :: "pyfloat \<Rightarrow> pyfloat \<Rightarrow> pyfloat \<Rightarrow> step_status \<Rightarrow> step_status" where
  "next_status pct start til s = (if til \<le> pct then Completed else if start < pct then Current
     else if s = Failed then Failed else Pending)"

lemma status_by_progress: "as_status (step_by_progress now pct start til s) = next_status pct start til (as_status s)"
  by (cases "as_status s") (auto simp: step_by_progress_def next_status_def)

fun next_statuses :: "pyfloat \<Rightarrow> pyfloat \<Rightarrow> (step_status \<times> pyfloat) list \<Rightarrow> step_status list" where
  "next_statuses pct start [] = []"
| "next_statuses pct start ((s, w) # ss) = (let til = fadd start (fmul w 100) in
     next_status pct start til s # next_statuses pct til ss)"

lemma statuses_by_progress:
  "map as_status (update_steps now pct start ss) = next_statuses pct start (map (\<lambda>s. (as_status s, as_weight s)) ss)"
  by (induction ss arbitrary: start) (simp_all add: Let_def status_by_progress)

definition positive_weights :: "(step_status \<times> pyfloat) list \<Rightarrow> bool" where
  "positive_weights ss \<longleftrightarrow> (\<forall>(s, w) \<in> set ss. 0 \<le> w)"

lemma step_end_later:
  assumes "0 \<le> w" "is_double start"
  shows "start \<le> fadd start (fmul w 100)"
proof -
  have "0 \<le> fmul w 100" using assms(1) by (simp add: fmul_def fl_nonneg)
  then show ?thesis using fl_ge_double [OF assms(2), of "start + fmul w 100"] by (simp add: fadd_def)
qed

text \<open>Steps that start behind the percentage are pending or still failed.\<close>

lemma next_statuses_later:
  assumes "pct < start" "positive_weights ss" "is_double start"
  shows "next_statuses pct start ss = map (\<lambda>(s, w). if s = Failed then Failed else Pending) ss"
  using assms
proof (induction ss arbitrary: start)
  case (Cons x ss)
  obtain s w where x: "x = (s, w)" by (cases x)
  let ?t = "fadd start (fmul w 100)"
  have t: "start \<le> ?t" "is_double ?t" using step_end_later [of w start] Cons.prems x
    by (auto simp: positive_weights_def fadd_def is_double_fl)
  then show ?case using Cons.IH [of ?t] Cons.prems x by (simp add: next_status_def positive_weights_def Let_def)
qed simp

lemma next_statuses_ordered:
  assumes "sorted (map fst ss)" "positive_weights ss" "is_double start"
  shows "well_ordered (next_statuses pct start ss)"
  using assms
proof (induction ss arbitrary: start)
  case (Cons x ss)
  obtain s w where x: "x = (s, w)" by (cases x)
  let ?t = "fadd start (fmul w 100)"
  have w: "positive_weights ss" "0 \<le> w" "sorted (map fst ss)" "\<forall>y \<in> set (map fst ss). s \<le> y"
    using Cons.prems x by (auto simp: positive_weights_def)
  have d: "is_double ?t" by (simp add: fadd_def is_double_fl)
  show ?case
  proof (cases "?t \<le> pct")
    case True
    then show ?thesis using Cons.IH [OF w(3,1) d] x by (simp add: well_ordered_def next_status_def Let_def)
  next
    case False
    let ?f = "\<lambda>(s, w :: pyfloat). if s = Failed then Failed else Pending"
    have l: "next_statuses pct ?t ss = map ?f ss" using next_statuses_later False w(1) d by simp
    have "well_ordered (map ?f ss)" using Cons.IH [OF w(3,1) d] l by simp
    moreover have "s = Failed \<Longrightarrow> \<forall>y \<in> set (map ?f ss). y = Failed" using w(4) by auto
    moreover have "\<forall>y \<in> set (map ?f ss). y \<noteq> Completed \<and> y \<noteq> Current" by (auto split: if_splits)
    moreover from this have "filter (\<lambda>y. y = Current) (map ?f ss) = []" by (simp add: filter_empty_conv)
    ultimately show ?thesis using False x l by (auto simp: well_ordered_def next_status_def Let_def)
  qed
qed (simp add: well_ordered_def)

lemma ordered_complete: "well_ordered ss \<Longrightarrow> well_ordered (map (\<lambda>s. if s = Failed then Failed else Completed) ss)"
  by (induction ss) (auto simp: well_ordered_def filter_empty_conv split: if_splits)

lemma ordered_fail: "well_ordered ss \<Longrightarrow> well_ordered (map (\<lambda>s. if s = Completed then Completed else Failed) ss)"
  by (induction ss) (auto simp: well_ordered_def split: if_splits)

lemma index_of_less: "index_of x xs = Some i \<Longrightarrow> i < length xs \<and> xs ! i = x"
  by (induction xs arbitrary: i) (auto split: if_splits)

lemma detect_less: "ss \<noteq> [] \<Longrightarrow> detect_current_step ss < length ss"
  using index_of_less [of Current ss] index_of_less [of Pending ss] index_of_less [of Completed "rev ss"]
  by (auto simp: detect_current_step_def split: option.split)

section \<open>The tracker of a task\<close>

inductive progress_runs :: "ptracker \<Rightarrow> bool" where
  start: "progress_runs (new_tracker as depth p now)"
| update: "progress_runs t \<Longrightarrow> pt_start t \<le> now \<Longrightarrow> progress_runs (update_progress now u t)"
| node: "progress_runs t \<Longrightarrow> pt_start t \<le> now \<Longrightarrow> progress_runs (graph_progress_callback now m t)"
| complete: "progress_runs t \<Longrightarrow> progress_runs (mark_completed now t)"
| fail: "progress_runs t \<Longrightarrow> progress_runs (mark_failed now why t)"

text \<open>What no operation changes.\<close>

definition step_frame :: "ptracker \<Rightarrow> (ustr \<times> pyfloat) list" where
  "step_frame t = map (\<lambda>s. (as_name s, as_weight s)) (pt_steps t)"

definition tracker_fine :: "ptracker \<Rightarrow> bool" where
  "tracker_fine t \<longleftrightarrow> well_ordered (map as_status (pt_steps t)) \<and> pt_current t < length (pt_steps t)
     \<and> step_frame t = map (\<lambda>s. (as_name s, as_weight s)) (generate_dynamic_steps (pt_analysts t) (pt_depth t))
     \<and> 0 \<le> pt_remaining t \<and> pt_remaining t \<le> pt_total t"

lemma weights_nonneg: "\<forall>s \<in> set (generate_dynamic_steps as depth). 0 \<le> as_weight s"
  by (auto simp: generate_dynamic_steps_def preparation_def analyst_steps_def researchers_def research_manager_def
      trader_and_risk_def final_steps_def new_step_def fdiv_def Let_def intro!: fl_nonneg divide_nonneg_nonneg split: prod.split)

lemma multiplier_nonneg: "0 \<le> analyst_multiplier n"
proof -
  have a: "2 \<le> fl (24 / 10)" by (rule fl_ge_double) (simp_all add: is_double_of_int [of 2, simplified])
  have b: "0 \<le> fl (3 / 10)" "fl (3 / 10) \<le> 1 / 2"
  proof -
    have "is_double (1 / 2)" unfolding is_double_def
      by (intro exI [of _ 1] exI [of _ "- 1"]) (simp add: power_int_minus)
    then show "fl (3 / 10) \<le> 1 / 2" by (rule fl_le_double) simp
  qed (simp add: fl_nonneg)
  have "- 2 \<le> fl (of_int (int n - 4) * fl (3 / 10))"
  proof (rule fl_ge_double)
    have "(- 4) * (1 / 2) \<le> (- 4) * fl (3 / 10)" using b by simp
    also have "\<dots> \<le> of_int (int n - 4) * fl (3 / 10)" using b by (intro mult_right_mono) simp_all
    finally show "- 2 \<le> of_int (int n - 4) * fl (3 / 10)" by simp
  qed (use is_double_of_int [of "- 2"] in simp)
  then have "0 \<le> fadd (fl (24 / 10)) (fmul (of_int (int n - 4)) (fl (3 / 10)))"
    using a by (simp add: fadd_def fmul_def fl_nonneg)
  then show ?thesis by (auto simp: analyst_multiplier_def fl_nonneg)
qed

lemma total_nonneg: "0 \<le> get_base_total_time as depth p"
proof -
  have n: "0 \<le> or_default (map_of m k) d" if "\<forall>x \<in> set m. 0 \<le> snd x" "0 \<le> d" for m :: "('k \<times> pyfloat) list" and k d
    using that by (cases "map_of m k") (auto dest!: map_of_SomeD)
  have "0 \<le> base_time d" for d unfolding base_time_def by (rule n) auto
  moreover have "0 \<le> model_multiplier p" unfolding model_multiplier_def by (intro fl_nonneg n) auto
  ultimately show ?thesis using multiplier_nonneg by (simp add: get_base_total_time_def fmul_def fl_nonneg)
qed

lemma total_double: "is_double (get_base_total_time as depth p)"
  by (simp add: get_base_total_time_def fmul_def is_double_fl)

lemma estimates_bounds:
  assumes "pt_start t \<le> now" "time_estimates now t = (e, r, w)"
  shows "0 \<le> r \<and> r \<le> w"
proof -
  have e: "0 \<le> fsub now (pt_start t)" using assms(1) by (simp add: fsub_def fl_nonneg)
  let ?w = "get_base_total_time (pt_analysts t) (pt_depth t) (pt_provider t)"
  have "fsub ?w x \<le> ?w" if "0 \<le> x" for x
    unfolding fsub_def using that by (intro fl_le_double total_double) simp
  then show ?thesis using assms(2) e total_nonneg by (auto simp: time_estimates_def Let_def split: if_splits)
qed

lemma steps_frame: "map (\<lambda>s. (as_name s, as_weight s)) (update_steps now pct start ss) = map (\<lambda>s. (as_name s, as_weight s)) ss"
  by (induction ss arbitrary: start) (auto simp: Let_def step_by_progress_def)

lemma tracker_weights:
  assumes "tracker_fine t"
  shows "\<forall>s \<in> set (pt_steps t). 0 \<le> as_weight s"
proof
  fix s assume "s \<in> set (pt_steps t)"
  then have "(as_name s, as_weight s) \<in> set (step_frame t)" by (auto simp: step_frame_def)
  then obtain r where "r \<in> set (generate_dynamic_steps (pt_analysts t) (pt_depth t))" "as_weight r = as_weight s"
    using assms by (auto simp: tracker_fine_def)
  then show "0 \<le> as_weight s" using weights_nonneg by metis
qed

lemma update_fine:
  assumes "tracker_fine t" "pt_start t \<le> now"
  shows "tracker_fine (update_progress now u t)"
proof -
  define t1 where "t1 = store_update now u t"
  define ss where "ss = update_steps now (pt_percentage t1) 0 (pt_steps t1)"
  have t1: "pt_steps t1 = pt_steps t" "pt_analysts t1 = pt_analysts t" "pt_depth t1 = pt_depth t"
    "pt_provider t1 = pt_provider t" "pt_start t1 = pt_start t"
    by (simp_all add: t1_def store_update_def split: progress_update.split)
  have fr: "map (\<lambda>s. (as_name s, as_weight s)) ss = step_frame t" by (simp add: ss_def t1 steps_frame step_frame_def)
  have "\<forall>s \<in> set (pt_steps t). 0 \<le> as_weight s" using tracker_weights [OF assms(1)] .
  then have pos: "positive_weights (map (\<lambda>s. (as_status s, as_weight s)) (pt_steps t))" by (auto simp: positive_weights_def)
  have "sorted (map as_status (pt_steps t))" using assms(1) by (simp add: tracker_fine_def well_ordered_def)
  then have wo: "well_ordered (map as_status ss)"
    using next_statuses_ordered [OF _ pos, of 0 "pt_percentage t1"] is_double_of_int [of 0]
    by (simp add: ss_def t1 statuses_by_progress comp_def)
  have len: "ss \<noteq> []" "length ss = length (pt_steps t)"
    using arg_cong [OF fr, of length] assms(1) by (auto simp: tracker_fine_def step_frame_def)
  then have cur: "detect_current_step (map as_status ss) < length ss" using detect_less [of "map as_status ss"] by simp
  let ?i = "detect_current_step (map as_status ss)"
  define t2 where "t2 = t1\<lparr>pt_steps := ss, pt_current := ?i, pt_current_name := as_name (ss ! ?i),
      pt_current_description := as_description (ss ! ?i)\<rparr>"
  obtain e r w where est: "time_estimates now t2 = (e, r, w)" by (cases "time_estimates now t2")
  have up: "update_progress now u t = t2\<lparr>pt_elapsed := e, pt_remaining := r, pt_total := w\<rparr>"
    using cur est by (simp add: update_progress_def t1_def [symmetric] ss_def [symmetric] t2_def Let_def)
  have "pt_start t2 \<le> now" using assms(2) by (simp add: t2_def t1)
  from estimates_bounds [OF this est] show ?thesis
    using wo cur fr assms(1) unfolding up by (simp add: tracker_fine_def t2_def t1 step_frame_def)
qed

lemma plan_pending: "s \<in> set (generate_dynamic_steps as depth) \<Longrightarrow> as_status s = Pending"
  by (auto simp: generate_dynamic_steps_def preparation_def analyst_steps_def researchers_def research_manager_def
      trader_and_risk_def final_steps_def new_step_def Let_def split: prod.splits)

lemma progress_runs_fine: "progress_runs t \<Longrightarrow> tracker_fine t"
proof (induction rule: progress_runs.induct)
  case (start as depth p now)
  have "map as_status (generate_dynamic_steps as depth) = replicate (length (generate_dynamic_steps as depth)) Pending"
    by (simp add: map_replicate_const [symmetric] plan_pending cong: map_cong)
  moreover have "0 < length (generate_dynamic_steps as depth)" by (simp add: generate_dynamic_steps_def preparation_def Let_def)
  ultimately show ?case
    using total_nonneg by (simp add: tracker_fine_def new_tracker_def step_frame_def well_ordered_def sorted_replicate)
next
  case (update t now u)
  then show ?case using update_fine by blast
next
  case (node t now m)
  then show ?case unfolding graph_progress_callback_def using update_fine by blast
next
  case (complete t now)
  have "map as_status (pt_steps (mark_completed now t))
      = map (\<lambda>s. if s = Failed then Failed else Completed) (map as_status (pt_steps t))"
    by (simp add: mark_completed_def complete_step_def)
  then show ?case using complete.IH ordered_complete [of "map as_status (pt_steps t)"]
    by (simp add: tracker_fine_def step_frame_def) (simp add: mark_completed_def complete_step_def comp_def if_distrib cong: if_cong)
next
  case (fail t now why)
  have "map as_status (pt_steps (mark_failed now why t))
      = map (\<lambda>s. if s = Completed then Completed else Failed) (map as_status (pt_steps t))"
    by (auto simp: mark_failed_def fail_step_def)
  then show ?case using fail.IH ordered_fail [of "map as_status (pt_steps t)"]
    by (simp add: tracker_fine_def step_frame_def) (simp add: mark_failed_def fail_step_def comp_def if_distrib cong: if_cong)
qed

text \<open>
  In every reachable state of a progress tracker the steps are in order: completed ones,
  at most one current step, pending ones, failed ones; the number of the current step is one of
  the steps; names and weights are those of the plan; and the remaining time is between zero and
  the estimate of the whole. All percentages, messages and clocks after the start are allowed.
\<close>

theorem progress_ordered:
  assumes "progress_runs t"
  shows "sorted (map as_status (pt_steps t)) \<and> length (filter (\<lambda>s. as_status s = Current) (pt_steps t)) \<le> 1
    \<and> pt_current t < length (pt_steps t)
    \<and> map (\<lambda>s. (as_name s, as_weight s)) (pt_steps t)
      = map (\<lambda>s. (as_name s, as_weight s)) (generate_dynamic_steps (pt_analysts t) (pt_depth t))
    \<and> 0 \<le> pt_remaining t \<and> pt_remaining t \<le> pt_total t"
  using progress_runs_fine [OF assms] by (simp add: tracker_fine_def well_ordered_def step_frame_def filter_map comp_def)

lemma progress_ordered_witness:
  "\<exists>t. t = mark_failed 30 [] (graph_progress_callback 20 [] (update_progress 10 (Dict (Some 50) []) (new_tracker [''market''] txt_deep [] 5)))
    \<and> pt_status t = ''failed'' \<and> sorted (map as_status (pt_steps t)) \<and> pt_current t < length (pt_steps t)"
proof -
  let ?n = "new_tracker [''market''] txt_deep [] 5"
  let ?u = "update_progress 10 (Dict (Some 50) []) ?n"
  have s: "pt_start ?n = 5" by (simp add: new_tracker_def)
  have "pt_start (update_progress now u t) = pt_start t" for now u t
    by (simp add: update_progress_def Let_def store_update_def split: prod.split progress_update.split)
  then have "progress_runs ?u" "pt_start ?u = 5"
    using progress_runs.update [OF progress_runs.start, of "[''market'']" txt_deep "[]" 5 10 "Dict (Some 50) []"] s by simp_all
  then have "progress_runs (graph_progress_callback 20 [] ?u)" using progress_runs.node [of ?u 20 "[]"] by simp
  from progress_ordered [OF progress_runs.fail [OF this, of 30 "[]"]] show ?thesis by (simp add: mark_failed_def)
qed

section \<open>Progress does not go back\<close>

text \<open>The ends of the steps, and the number of steps that a percentage completes.\<close>

fun step_ends :: "pyfloat \<Rightarrow> pyfloat list \<Rightarrow> pyfloat list" where
  "step_ends start [] = []"
| "step_ends start (w # ws) = fadd start (fmul w 100) # step_ends (fadd start (fmul w 100)) ws"

definition completed_by :: "pyfloat \<Rightarrow> pyfloat list \<Rightarrow> nat" where
  "completed_by pct ws = length (takeWhile (\<lambda>e. e \<le> pct) (step_ends 0 ws))"

lemma length_step_ends [simp]: "length (step_ends start ws) = length ws"
  by (induction ws arbitrary: start) simp_all

lemma takeWhile_mono: "(\<And>x. P x \<Longrightarrow> Q x) \<Longrightarrow> length (takeWhile P xs) \<le> length (takeWhile Q xs)"
  by (induction xs) auto

lemma next_statuses_shape:
  assumes "\<forall>(s, w) \<in> set ss. s \<noteq> Failed" "positive_weights ss" "is_double start"
  shows "\<exists>rest. next_statuses pct start ss
      = replicate (length (takeWhile (\<lambda>e. e \<le> pct) (step_ends start (map snd ss)))) Completed @ rest
    \<and> (rest = [] \<or> (\<exists>x k. x \<in> {Current, Pending} \<and> rest = x # replicate k Pending))"
  using assms
proof (induction ss arbitrary: start)
  case (Cons x ss)
  obtain s w where x: "x = (s, w)" by (cases x)
  let ?t = "fadd start (fmul w 100)"
  have w: "\<forall>(s, w) \<in> set ss. s \<noteq> Failed" "positive_weights ss" "s \<noteq> Failed"
    using Cons.prems x by (auto simp: positive_weights_def)
  have d: "is_double ?t" by (simp add: fadd_def is_double_fl)
  show ?case
  proof (cases "?t \<le> pct")
    case True
    then show ?thesis using Cons.IH [OF w(1,2) d] x by (simp add: next_status_def Let_def)
  next
    case False
    have "map (\<lambda>(s, w :: pyfloat). if s = Failed then Failed else Pending) ss = replicate (length ss) Pending"
      using w(1) by (induction ss) auto
    then have "next_statuses pct ?t ss = replicate (length ss) Pending"
      using next_statuses_later [of pct ?t ss] False w(2) d by simp
    then show ?thesis using False x w(3) by (auto simp: next_status_def Let_def)
  qed
qed simp

lemma index_of_replicate: "x \<noteq> y \<Longrightarrow> index_of x (replicate n y @ xs) = map_option (\<lambda>i. n + i) (index_of x xs)"
  by (induction n) (auto split: option.split simp: option.map_comp comp_def map_option_case)

lemma index_of_none: "x \<notin> set xs \<Longrightarrow> index_of x xs = None"
  by (induction xs) auto

lemma detect_shape:
  assumes "rest = [] \<or> (\<exists>x k. x \<in> {Current, Pending} \<and> rest = x # replicate k Pending)" "replicate a Completed @ rest \<noteq> []"
  shows "detect_current_step (replicate a Completed @ rest) = min a (length (replicate a Completed @ rest) - 1)"
proof (cases "rest = []")
  case True
  then have "index_of Completed (replicate a Completed) = Some 0" using assms(2) by (cases a) simp_all
  then show ?thesis using True by (simp add: detect_current_step_def index_of_none)
next
  case False
  then obtain x k where x: "x \<in> {Current, Pending}" "rest = x # replicate k Pending" using assms(1) by blast
  then show ?thesis by (auto simp: detect_current_step_def index_of_replicate index_of_none)
qed

text \<open>
  While no step has failed, the current step is a function of the percentage alone: the
  number of steps whose ends the percentage has reached, and the last step when all are
  completed. So it never goes back while the percentage grows, whatever was updated before.
\<close>

theorem current_step_monotone:
  assumes "progress_runs t" "\<forall>s \<in> set (pt_steps t). as_status s \<noteq> Failed" "p \<le> q"
  shows "pt_current (update_progress now (Dict (Some p) m) t)
      = min (completed_by p (map as_weight (pt_steps t))) (length (pt_steps t) - 1)
    \<and> pt_current (update_progress now (Dict (Some p) m) t) \<le> pt_current (update_progress now2 (Dict (Some q) m2) t)"
proof -
  let ?ss = "map (\<lambda>s. (as_status s, as_weight s)) (pt_steps t)"
  have fine: "tracker_fine t" using progress_runs_fine assms(1) by blast
  have pos: "positive_weights ?ss" using tracker_weights [OF fine] by (auto simp: positive_weights_def)
  have ne: "pt_steps t \<noteq> []" using fine by (auto simp: tracker_fine_def)
  have cur: "pt_current (update_progress now (Dict (Some p) m) t)
      = min (completed_by p (map as_weight (pt_steps t))) (length (pt_steps t) - 1)" for now p m
  proof -
    obtain rest where r: "next_statuses p 0 ?ss = replicate (completed_by p (map as_weight (pt_steps t))) Completed @ rest"
      "rest = [] \<or> (\<exists>x k. x \<in> {Current, Pending} \<and> rest = x # replicate k Pending)"
      using next_statuses_shape [OF _ pos, of 0 p] assms(2) is_double_of_int [of 0] by (auto simp: completed_by_def comp_def)
    have l: "length (next_statuses p 0 ?ss) = length (pt_steps t)"
      using arg_cong [OF statuses_by_progress [of now p 0 "pt_steps t"], of length] arg_cong [OF steps_frame [of now p 0 "pt_steps t"], of length]
      by simp
    have "detect_current_step (next_statuses p 0 ?ss) = min (completed_by p (map as_weight (pt_steps t))) (length (pt_steps t) - 1)"
      using detect_shape [OF r(2), of "completed_by p (map as_weight (pt_steps t))"] r(1) l ne by (metis length_0_conv)
    then show ?thesis
      by (simp add: update_progress_def store_update_def statuses_by_progress Let_def split: prod.split)
  qed
  have "completed_by p ws \<le> completed_by q ws" for ws
    unfolding completed_by_def using assms(3) by (intro takeWhile_mono) simp
  from min.mono [OF this order_refl] show ?thesis by (simp add: cur)
qed

lemma current_step_monotone_witness:
  "pt_current (update_progress 6 (Dict (Some 0) []) (new_tracker [''market''] txt_deep [] 5))
    \<le> pt_current (update_progress 7 (Dict (Some 100) []) (new_tracker [''market''] txt_deep [] 5))"
proof -
  have "\<forall>s \<in> set (pt_steps (new_tracker [''market''] txt_deep [] 5)). as_status s \<noteq> Failed"
    using plan_pending [of _ "[''market'']" txt_deep] by (simp add: new_tracker_def)
  from current_step_monotone [OF progress_runs.start this, of 0 100, THEN conjunct2] show ?thesis by simp
qed

text \<open>A successful analysis that is run through the queue ends as a failed one.\<close>

lemma success_ends_failed:
  "fst (finish_analysis now (Inr r) t) = ''failed'' \<and> pt_status (snd (finish_analysis now (Inr r) t)) = ''failed''"
  by (simp add: finish_analysis_def mark_completed_call_def mark_failed_def)

end
