(* ===== verification/ErrorFormatter.thy ===== *)
theory ErrorFormatter
  imports PyStr
begin

text \<open>
  The messages shown for errors, \<open>app/utils/error_formatter.py\<close>: an error is classified by keywords
  in its text, with the provider or data source it names, and turned into a title, a message and
  a suggestion. \<open>simple_analysis_service.py\<close> formats an error of the analysis twice: in the thread of
  the analysis, and again where the raised text is caught.
\<close>

section \<open>Categories and names\<close>

datatype error_category = LlmApiKey | LlmNetwork | LlmQuota | LlmContentFilter | LlmOther
  | SourceApiKey | SourceNetwork | SourceNotFound | SourceOther
  | StockCodeInvalid | NetworkError | SystemError | UnknownError

definition llm_names :: "(ustr \<times> ustr) list" where
  "llm_names = [(ustr_of ''google'', ustr_of ''Google Gemini''), (ustr_of ''qwen'', [38463, 37324, 30334, 28860, 65288,
     36890, 20041, 21315, 38382, 65289]), (ustr_of ''dashscope'', [38463, 37324, 30334, 28860, 65288, 36890,
     20041, 21315, 38382, 65289]), (ustr_of ''qianfan'', [30334, 24230, 21315, 24070]), (ustr_of ''deepseek'',
     ustr_of ''DeepSeek''), (ustr_of ''openai'', ustr_of ''OpenAI''), (ustr_of ''openrouter'',
     ustr_of ''OpenRouter''), (ustr_of ''aihubmix'', ustr_of ''AiHubMix''), (ustr_of ''anthropic'',
     ustr_of ''Anthropic Claude''), (ustr_of ''glm'', [26234, 35889, 65, 73]), (ustr_of ''zhipu'', [26234, 35889,
     65, 73]), (ustr_of ''moonshot'', [26376, 20043, 26263, 38754, 65288, 75, 105, 109, 105, 65289])]"

definition source_names :: "(ustr \<times> ustr) list" where
  "source_names = [(ustr_of ''tushare'', ustr_of ''Tushare''), (ustr_of ''akshare'', ustr_of ''AKShare''),
     (ustr_of ''baostock'', ustr_of ''BaoStock''), (ustr_of ''finnhub'', ustr_of ''Finnhub''),
     (ustr_of ''mongodb'', [77, 111, 110, 103, 111, 68, 66, 32531, 23384])]"

section \<open>Classification\<close>

definition kw_llm :: "ustr list" where
  "kw_llm = [ustr_of ''api key'', ustr_of ''api_key'', ustr_of ''apikey'', ustr_of ''invalid_api_key'',
     ustr_of ''authentication'', ustr_of ''unauthorized'', ustr_of ''401'', ustr_of ''403'', ustr_of ''gemini'',
     ustr_of ''openai'', ustr_of ''dashscope'', ustr_of ''qianfan'', ustr_of ''qwen'', ustr_of ''zhipu'',
     ustr_of ''glm'']"

definition kw_llm_key :: "ustr list" where
  "kw_llm_key = [ustr_of ''api key'', ustr_of ''api_key'', ustr_of ''apikey'', ustr_of ''invalid'',
     ustr_of ''authentication'', ustr_of ''unauthorized'', ustr_of ''401'', ustr_of ''invalid_api_key'',
     ustr_of ''api key not valid'']"

definition kw_llm_quota :: "ustr list" where
  "kw_llm_quota = [ustr_of ''quota'', ustr_of ''rate limit'', ustr_of ''too many requests'', ustr_of ''429'',
     ustr_of ''resource exhausted'', ustr_of ''insufficient_quota'', ustr_of ''billing'']"

definition kw_llm_filter :: "ustr list" where
  "kw_llm_filter = [ustr_of ''data_inspection_failed'', ustr_of ''inappropriate content'', ustr_of ''content filter'', [20869,
     23481, 23457, 26680], [25935, 24863, 20869, 23481], [36829, 35268, 20869, 23481], ustr_of ''content policy'']"

definition kw_llm_network :: "ustr list" where
  "kw_llm_network = [ustr_of ''connection'', ustr_of ''network'', ustr_of ''timeout'', ustr_of ''unreachable'', ustr_of ''dns'',
     ustr_of ''ssl'']"

definition kw_source :: "ustr list" where
  "kw_source = [ustr_of ''tushare'', ustr_of ''akshare'', ustr_of ''baostock'', ustr_of ''finnhub'', [25968, 25454, 28304],
     ustr_of ''data source'']"

definition kw_source_key :: "ustr list" where
  "kw_source_key = [ustr_of ''token'', ustr_of ''api key'', ustr_of ''authentication'', ustr_of ''unauthorized'']"

definition kw_not_found :: "ustr list" where
  "kw_not_found = [ustr_of ''not found'', ustr_of ''no data'', ustr_of ''empty'', [26080, 25968, 25454], [26410, 25214, 21040]]"

definition kw_source_network :: "ustr list" where
  "kw_source_network = [ustr_of ''connection'', ustr_of ''network'', ustr_of ''timeout'']"

definition kw_code :: "ustr list" where
  "kw_code = [[32929, 31080, 20195, 30721], ustr_of ''stock code'', ustr_of ''symbol'', ustr_of ''invalid code'', [20195,
     30721, 26080, 25928]]"

definition kw_network :: "ustr list" where
  "kw_network = [ustr_of ''connection'', ustr_of ''network'', ustr_of ''timeout'', ustr_of ''unreachable'', ustr_of ''dns'']"

definition kw_system :: "ustr list" where
  "kw_system = [ustr_of ''internal error'', ustr_of ''server error'', ustr_of ''500'', [31995, 32479, 38169, 35823]]"

definition has_any :: "ustr list \<Rightarrow> ustr \<Rightarrow> bool" where
  "has_any ks s = list_ex (\<lambda>k. contains k s) ks"

text \<open>\<open>_extract_llm_provider\<close> and \<open>_extract_data_source\<close>: the first entry whose key or name occurs.\<close>

definition extract_name :: "(ustr \<times> ustr) list \<Rightarrow> ustr \<Rightarrow> ustr option" where
  "extract_name tab e = map_option fst (find (\<lambda>(k, n). has_any [k, u_lower n] (u_lower e)) tab)"

text \<open>The context may name the provider or the source; an empty text counts as none.\<close>

record error_context =
  ec_provider :: "ustr option"
  ec_source :: "ustr option"

definition no_context :: error_context where
  "no_context = \<lparr>ec_provider = None, ec_source = None\<rparr>"

definition or_else :: "ustr option \<Rightarrow> ustr option \<Rightarrow> ustr option" where
  "or_else a b = (if or_default a [] = [] then b else a)"

definition categorize_llm :: "ustr \<Rightarrow> error_category" where
  "categorize_llm s = (if has_any kw_llm_key s then LlmApiKey
     else if has_any kw_llm_quota s then LlmQuota
     else if has_any kw_llm_filter s then LlmContentFilter
     else if has_any kw_llm_network s then LlmNetwork
     else LlmOther)"

definition categorize_source :: "ustr \<Rightarrow> error_category" where
  "categorize_source s = (if has_any kw_source_key s then SourceApiKey
     else if has_any kw_not_found s then SourceNotFound
     else if has_any kw_source_network s then SourceNetwork
     else SourceOther)"

definition categorize_error :: "ustr \<Rightarrow> error_context \<Rightarrow> error_category \<times> ustr option" where
  "categorize_error e c = (let s = u_lower e; p = or_else (ec_provider c) (extract_name llm_names e);
       d = or_else (ec_source c) (extract_name source_names e) in
     if or_default p [] \<noteq> [] \<or> has_any kw_llm s then (categorize_llm s, p)
     else if or_default d [] \<noteq> [] \<or> has_any kw_source s then (categorize_source s, d)
     else if has_any kw_code s then (StockCodeInvalid, None)
     else if has_any kw_network s then (NetworkError, None)
     else if has_any kw_system s then (SystemError, None)
     else (UnknownError, None))"

section \<open>The messages\<close>

record error_message =
  em_category :: ustr
  em_title :: ustr
  em_message :: ustr
  em_suggestion :: ustr

definition friendly_name :: "ustr option \<Rightarrow> ustr option" where
  "friendly_name p = (if or_default p [] = [] then None else
     (case map_of llm_names (or_default p []) of Some n \<Rightarrow> Some n
      | None \<Rightarrow> (case map_of source_names (or_default p []) of Some n \<Rightarrow> Some n | None \<Rightarrow> p)))"

definition msg_LlmApiKey :: "ustr option \<Rightarrow> error_message" where
  "msg_LlmApiKey n = \<lparr>em_category = [22823, 27169, 22411, 37197, 32622, 38169, 35823],
     em_title = [10060, 32] @ or_default n [22823, 27169, 22411] @ [32, 65, 80, 73, 32, 75, 101, 121, 32, 26080, 25928],
     em_message = or_default n [22823, 27169, 22411] @ [32, 30340, 32, 65, 80, 73, 32, 75, 101, 121, 32, 26080, 25928, 25110,
     26410, 37197, 32622, 12290],
     em_suggestion = [35831, 26816, 26597, 20197, 19979, 20960, 28857, 65306, 10, 49, 46, 32, 22312, 12300, 31995, 32479, 35774,
     32622, 32, 8594, 32, 22823, 27169, 22411, 37197, 32622, 12301, 20013, 26816, 26597, 32] @
     or_default n [35813, 27169, 22411] @ [32, 30340, 32, 65, 80, 73, 32, 75, 101, 121, 32, 26159, 21542, 27491,
     30830, 10, 50, 46, 32, 30830, 35748, 32, 65, 80, 73, 32, 75, 101, 121, 32, 26159, 21542, 24050, 28608,
     27963, 19988, 26377, 25928, 10, 51, 46, 32, 23581, 35797, 37325, 26032, 29983, 25104, 32, 65, 80, 73, 32,
     75, 101, 121, 32, 24182, 26356, 26032, 37197, 32622, 10, 52, 46, 32, 25110, 32773, 20999, 25442, 21040,
     20854, 20182, 21487, 29992, 30340, 22823, 27169, 22411]\<rparr>"

definition msg_LlmQuota :: "ustr option \<Rightarrow> error_message" where
  "msg_LlmQuota n = \<lparr>em_category = [22823, 27169, 22411, 37197, 39069, 19981, 36275],
     em_title = [9888, 65039, 32] @ or_default n [22823, 27169, 22411] @ [32, 37197, 39069, 19981, 36275, 25110, 38480,
     27969],
     em_message = or_default n [22823, 27169, 22411] @ [32, 30340, 35843, 29992, 37197, 39069, 24050, 29992, 23436, 25110,
     35302, 21457, 20102, 38480, 27969, 12290],
     em_suggestion = [35831, 23581, 35797, 20197, 19979, 35299, 20915, 26041, 26696, 65306, 10, 49, 46, 32, 26816, 26597, 32] @
     or_default n [35813, 27169, 22411] @ [32, 36134, 25143, 20313, 39069, 21644, 37197, 39069, 10, 50, 46, 32,
     31561, 24453, 19968, 27573, 26102, 38388, 21518, 37325, 35797, 65288, 21487, 33021, 26159, 38480, 27969,
     65289, 10, 51, 46, 32, 21319, 32423, 36134, 25143, 22871, 39184, 20197, 33719, 21462, 26356, 22810, 37197,
     39069, 10, 52, 46, 32, 20999, 25442, 21040, 20854, 20182, 21487, 29992, 30340, 22823, 27169, 22411]\<rparr>"

definition msg_LlmContentFilter :: "ustr option \<Rightarrow> error_message" where
  "msg_LlmContentFilter n = \<lparr>em_category = [20869, 23481, 23457, 26680, 22833, 36133],
     em_title = [128683, 32] @ or_default n [22823, 27169, 22411] @ [32, 20869, 23481, 23457, 26680, 26410, 36890, 36807],
     em_message = or_default n [22823, 27169, 22411] @ [32, 26816, 27979, 21040, 36755, 20837, 20869, 23481, 21487, 33021,
     21253, 21547, 19981, 36866, 24403, 30340, 20869, 23481, 65292, 25298, 32477, 22788, 29702, 35831, 27714,
     12290],
     em_suggestion = [36825, 36890, 24120, 26159, 30001, 20110, 20998, 26512, 20869, 23481, 20013, 21253, 21547, 20102, 25935,
     24863, 35789, 27719, 25110, 19981, 24403, 34920, 36848, 12290, 24314, 35758, 65306, 10, 49, 46, 32, 36825,
     21487, 33021, 26159, 32929, 31080, 26032, 38395, 25110, 36130, 25253, 20013, 21253, 21547, 20102, 25935,
     24863, 35789, 27719, 65288, 22914, 25919, 27835, 12289, 26292, 21147, 31561, 65289, 10, 50, 46, 32, 23581,
     35797, 20999, 25442, 21040, 20854, 20182, 22823, 27169, 22411, 65288, 22914, 32, 68, 101, 101, 112, 83, 101,
     101, 107, 12289, 71, 111, 111, 103, 108, 101, 32, 71, 101, 109, 105, 110, 105, 65289, 10, 51, 46, 32, 22914,
     26524, 26159, 38463, 37324, 30334, 28860, 65292, 21487, 20197, 23581, 35797, 20351, 29992, 32, 113, 119,
     101, 110, 45, 109, 97, 120, 32, 25110, 32, 113, 119, 101, 110, 45, 112, 108, 117, 115, 32, 27169, 22411, 10,
     52, 46, 32, 32852, 31995, 25216, 26415, 25903, 25345, 25253, 21578, 27492, 38382, 39064, 65292, 25105,
     20204, 20250, 20248, 21270, 20869, 23481, 36807, 28388, 36923, 36753, 10, 10, 128161, 32, 25552, 31034,
     65306, 19981, 21516, 22823, 27169, 22411, 30340, 20869, 23481, 23457, 26680, 31574, 30053, 19981, 21516,
     65292, 20999, 25442, 27169, 22411, 36890, 24120, 21487, 20197, 35299, 20915, 27492, 38382, 39064, 12290]\<rparr>"

definition msg_LlmNetwork :: "ustr option \<Rightarrow> error_message" where
  "msg_LlmNetwork n = \<lparr>em_category = [22823, 27169, 22411, 32593, 32476, 38169, 35823],
     em_title = [127760, 32, 26080, 27861, 36830, 25509, 21040, 32] @ or_default n [22823, 27169, 22411],
     em_message = [36830, 25509, 32] @ or_default n [22823, 27169, 22411] @ [32, 26381, 21153, 26102, 32593, 32476, 36229,
     26102, 25110, 36830, 25509, 22833, 36133, 12290],
     em_suggestion = [35831, 26816, 26597, 20197, 19979, 20960, 28857, 65306, 10, 49, 46, 32, 26816, 26597, 32593, 32476, 36830,
     25509, 26159, 21542, 27491, 24120, 10, 50, 46, 32] @ or_default n [35813, 26381, 21153] @ [32, 21487, 33021,
     38656, 35201, 31185, 23398, 19978, 32593, 65288, 22914, 32, 71, 111, 111, 103, 108, 101, 32, 71, 101, 109,
     105, 110, 105, 65289, 10, 51, 46, 32, 26816, 26597, 38450, 28779, 22681, 25110, 20195, 29702, 35774, 32622,
     10, 52, 46, 32, 31245, 21518, 37325, 35797, 25110, 20999, 25442, 21040, 20854, 20182, 22823, 27169, 22411]\<rparr>"

definition msg_LlmOther :: "ustr option \<Rightarrow> error_message" where
  "msg_LlmOther n = \<lparr>em_category = [22823, 27169, 22411, 35843, 29992, 38169, 35823],
     em_title = [10060, 32] @ or_default n [22823, 27169, 22411] @ [32, 35843, 29992, 22833, 36133],
     em_message = [35843, 29992, 32] @ or_default n [22823, 27169, 22411] @ [32, 26102, 21457, 29983, 38169, 35823, 12290],
     em_suggestion = [24314, 35758, 65306, 10, 49, 46, 32, 26816, 26597, 27169, 22411, 37197, 32622, 26159, 21542, 27491, 30830,
     10, 50, 46, 32, 26597, 30475, 25216, 26415, 32454, 33410, 20102, 35299, 20855, 20307, 38169, 35823, 10, 51,
     46, 32, 23581, 35797, 20999, 25442, 21040, 20854, 20182, 22823, 27169, 22411, 10, 52, 46, 32, 22914, 38382,
     39064, 25345, 32493, 65292, 35831, 32852, 31995, 25216, 26415, 25903, 25345]\<rparr>"

definition msg_SourceApiKey :: "ustr option \<Rightarrow> error_message" where
  "msg_SourceApiKey n = \<lparr>em_category = [25968, 25454, 28304, 37197, 32622, 38169, 35823],
     em_title = [10060, 32] @ or_default n [25968, 25454, 28304] @ [32, 84, 111, 107, 101, 110, 47, 65, 80, 73, 32, 75, 101,
     121, 32, 26080, 25928],
     em_message = or_default n [25968, 25454, 28304] @ [32, 30340, 32, 84, 111, 107, 101, 110, 32, 25110, 32, 65, 80, 73, 32,
     75, 101, 121, 32, 26080, 25928, 25110, 26410, 37197, 32622, 12290],
     em_suggestion = [35831, 26816, 26597, 20197, 19979, 20960, 28857, 65306, 10, 49, 46, 32, 22312, 12300, 31995, 32479, 35774,
     32622, 32, 8594, 32, 25968, 25454, 28304, 37197, 32622, 12301, 20013, 26816, 26597, 32] @
     or_default n [35813, 25968, 25454, 28304] @ [32, 30340, 37197, 32622, 10, 50, 46, 32, 30830, 35748, 32, 84,
     111, 107, 101, 110, 47, 65, 80, 73, 32, 75, 101, 121, 32, 26159, 21542, 27491, 30830, 19988, 26377, 25928,
     10, 51, 46, 32, 26816, 26597, 36134, 25143, 26159, 21542, 24050, 28608, 27963, 10, 52, 46, 32, 31995, 32479,
     20250, 33258, 21160, 23581, 35797, 20351, 29992, 22791, 29992, 25968, 25454, 28304]\<rparr>"

definition msg_SourceNotFound :: "ustr option \<Rightarrow> error_message" where
  "msg_SourceNotFound n = \<lparr>em_category = [25968, 25454, 33719, 21462, 22833, 36133],
     em_title = [128202, 32] @ or_default n [25968, 25454, 28304] @ [32, 26410, 25214, 21040, 25968, 25454],
     em_message = [20174, 32] @ or_default n [25968, 25454, 28304] @ [32, 33719, 21462, 32929, 31080, 25968, 25454, 22833,
     36133, 65292, 21487, 33021, 26159, 32929, 31080, 20195, 30721, 19981, 23384, 22312, 25110, 25968, 25454,
     26242, 26410, 26356, 26032, 12290],
     em_suggestion = [24314, 35758, 65306, 10, 49, 46, 32, 26816, 26597, 32929, 31080, 20195, 30721, 26159, 21542, 27491, 30830,
     10, 50, 46, 32, 30830, 35748, 35813, 32929, 31080, 26159, 21542, 24050, 19978, 24066, 10, 51, 46, 32, 31995,
     32479, 20250, 33258, 21160, 23581, 35797, 20351, 29992, 20854, 20182, 25968, 25454, 28304, 10, 52, 46, 32,
     22914, 26524, 26159, 26032, 32929, 65292, 21487, 33021, 38656, 35201, 31561, 24453, 25968, 25454, 26356,
     26032]\<rparr>"

definition msg_SourceNetwork :: "ustr option \<Rightarrow> error_message" where
  "msg_SourceNetwork n = \<lparr>em_category = [25968, 25454, 28304, 32593, 32476, 38169, 35823],
     em_title = [127760, 32, 26080, 27861, 36830, 25509, 21040, 32] @ or_default n [25968, 25454, 28304],
     em_message = [36830, 25509, 32] @ or_default n [25968, 25454, 28304] @ [32, 26102, 32593, 32476, 36229, 26102, 25110,
     36830, 25509, 22833, 36133, 12290],
     em_suggestion = [35831, 26816, 26597, 65306, 10, 49, 46, 32, 32593, 32476, 36830, 25509, 26159, 21542, 27491, 24120, 10, 50,
     46, 32, 25968, 25454, 28304, 26381, 21153, 26159, 21542, 21487, 29992, 10, 51, 46, 32, 31995, 32479, 20250,
     33258, 21160, 23581, 35797, 20351, 29992, 22791, 29992, 25968, 25454, 28304, 10, 52, 46, 32, 31245, 21518,
     37325, 35797]\<rparr>"

definition msg_SourceOther :: "ustr option \<Rightarrow> error_message" where
  "msg_SourceOther n = \<lparr>em_category = [25968, 25454, 28304, 38169, 35823],
     em_title = [10060, 32] @ or_default n [25968, 25454, 28304] @ [32, 35843, 29992, 22833, 36133],
     em_message = [20174, 32] @ or_default n [25968, 25454, 28304] @ [32, 33719, 21462, 25968, 25454, 26102, 21457, 29983,
     38169, 35823, 12290],
     em_suggestion = [24314, 35758, 65306, 10, 49, 46, 32, 31995, 32479, 20250, 33258, 21160, 23581, 35797, 20351, 29992, 22791,
     29992, 25968, 25454, 28304, 10, 50, 46, 32, 26597, 30475, 25216, 26415, 32454, 33410, 20102, 35299, 20855,
     20307, 38169, 35823, 10, 51, 46, 32, 31245, 21518, 37325, 35797, 10, 52, 46, 32, 22914, 38382, 39064, 25345,
     32493, 65292, 35831, 32852, 31995, 25216, 26415, 25903, 25345]\<rparr>"

definition msg_StockCodeInvalid :: "ustr option \<Rightarrow> error_message" where
  "msg_StockCodeInvalid n = \<lparr>em_category = [32929, 31080, 20195, 30721, 38169, 35823],
     em_title = [10060, 32, 32929, 31080, 20195, 30721, 26080, 25928],
     em_message = [36755, 20837, 30340, 32929, 31080, 20195, 30721, 26684, 24335, 19981, 27491, 30830, 25110, 19981, 23384,
     22312, 12290],
     em_suggestion = [35831, 26816, 26597, 65306, 10, 49, 46, 32, 65, 32929, 20195, 30721, 26684, 24335, 65306, 54, 20301, 25968,
     23383, 65288, 22914, 32, 48, 48, 48, 48, 48, 49, 12289, 54, 48, 48, 48, 48, 48, 65289, 10, 50, 46, 32,
     28207, 32929, 20195, 30721, 26684, 24335, 65306, 53, 20301, 25968, 23383, 65288, 22914, 32, 48, 48, 55, 48,
     48, 65289, 10, 51, 46, 32, 32654, 32929, 20195, 30721, 26684, 24335, 65306, 32929, 31080, 20195, 30721,
     65288, 22914, 32, 65, 65, 80, 76, 12289, 84, 83, 76, 65, 65289, 10, 52, 46, 32, 30830, 35748, 32929, 31080,
     26159, 21542, 24050, 19978, 24066]\<rparr>"

definition msg_NetworkError :: "ustr option \<Rightarrow> error_message" where
  "msg_NetworkError n = \<lparr>em_category = [32593, 32476, 36830, 25509, 38169, 35823],
     em_title = [127760, 32, 32593, 32476, 36830, 25509, 22833, 36133],
     em_message = [32593, 32476, 36830, 25509, 36229, 26102, 25110, 26080, 27861, 35775, 38382, 26381, 21153, 12290],
     em_suggestion = [35831, 26816, 26597, 65306, 10, 49, 46, 32, 32593, 32476, 36830, 25509, 26159, 21542, 27491, 24120, 10, 50,
     46, 32, 26381, 21153, 22120, 26159, 21542, 21487, 35775, 38382, 10, 51, 46, 32, 38450, 28779, 22681, 25110,
     20195, 29702, 35774, 32622, 10, 52, 46, 32, 31245, 21518, 37325, 35797]\<rparr>"

definition msg_SystemError :: "ustr option \<Rightarrow> error_message" where
  "msg_SystemError n = \<lparr>em_category = [31995, 32479, 38169, 35823],
     em_title = [9888, 65039, 32, 31995, 32479, 20869, 37096, 38169, 35823],
     em_message = [31995, 32479, 22788, 29702, 35831, 27714, 26102, 21457, 29983, 20869, 37096, 38169, 35823, 12290],
     em_suggestion = [24314, 35758, 65306, 10, 49, 46, 32, 31245, 21518, 37325, 35797, 10, 50, 46, 32, 22914, 38382, 39064,
     25345, 32493, 65292, 35831, 32852, 31995, 25216, 26415, 25903, 25345, 10, 51, 46, 32, 25552, 20379, 25216,
     26415, 32454, 33410, 20197, 20415, 25490, 26597, 38382, 39064]\<rparr>"

definition msg_UnknownError :: "ustr option \<Rightarrow> error_message" where
  "msg_UnknownError n = \<lparr>em_category = [26410, 30693, 38169, 35823],
     em_title = [10060, 32, 20998, 26512, 22833, 36133],
     em_message = [20998, 26512, 36807, 31243, 20013, 21457, 29983, 38169, 35823, 12290],
     em_suggestion = [24314, 35758, 65306, 10, 49, 46, 32, 26816, 26597, 36755, 20837, 21442, 25968, 26159, 21542, 27491, 30830,
     10, 50, 46, 32, 26597, 30475, 25216, 26415, 32454, 33410, 20102, 35299, 20855, 20307, 38169, 35823, 10, 51,
     46, 32, 31245, 21518, 37325, 35797, 10, 52, 46, 32, 22914, 38382, 39064, 25345, 32493, 65292, 35831, 32852,
     31995, 25216, 26415, 25903, 25345]\<rparr>"

fun message_of :: "error_category \<Rightarrow> ustr option \<Rightarrow> error_message" where
  "message_of LlmApiKey n = msg_LlmApiKey n"
| "message_of LlmNetwork n = msg_LlmNetwork n"
| "message_of LlmQuota n = msg_LlmQuota n"
| "message_of LlmContentFilter n = msg_LlmContentFilter n"
| "message_of LlmOther n = msg_LlmOther n"
| "message_of SourceApiKey n = msg_SourceApiKey n"
| "message_of SourceNetwork n = msg_SourceNetwork n"
| "message_of SourceNotFound n = msg_SourceNotFound n"
| "message_of SourceOther n = msg_SourceOther n"
| "message_of StockCodeInvalid n = msg_StockCodeInvalid n"
| "message_of NetworkError n = msg_NetworkError n"
| "message_of SystemError n = msg_SystemError n"
| "message_of UnknownError n = msg_UnknownError n"

text \<open>\<open>format_error\<close> without the technical detail, which is the original text.\<close>

definition format_error :: "ustr \<Rightarrow> error_context \<Rightarrow> error_message" where
  "format_error e c = (case categorize_error e c of (k, p) \<Rightarrow> message_of k (friendly_name p))"

text \<open>The text that \<open>simple_analysis_service.py\<close> makes of it; its context names no provider.\<close>

definition friendly_text :: "error_message \<Rightarrow> ustr" where
  "friendly_text m = em_title m @ [10, 10] @ em_message m @ [10, 10, 128161, 32] @ em_suggestion m"

definition user_friendly_error :: "ustr \<Rightarrow> ustr" where
  "user_friendly_error e = friendly_text (format_error e no_context)"

end
