(* ===== verification/ErrorReports.thy ===== *)
theory ErrorReports
  imports ErrorFormatter
begin

text \<open>
  What the user reads of an error of an analysis, which \<open>simple_analysis_service.py\<close> formats twice.
  The classification of the friendly texts is evaluated: a keyword of ASCII characters is searched
  in the ASCII words of a text, and the search is written for a linear evaluation.
\<close>

section \<open>Finding keywords\<close>

text \<open>A keyword of ASCII characters is found within a run of ASCII characters of the text.\<close>

fun ascii_runs :: "ustr \<Rightarrow> ustr list" where
  "ascii_runs [] = [[]]"
| "ascii_runs (c # s) = (case ascii_runs s of r # rs \<Rightarrow> if c < 128 then (c # r) # rs else [] # r # rs | [] \<Rightarrow> [])"

definition ascii :: "ustr \<Rightarrow> bool" where
  "ascii k \<longleftrightarrow> k \<noteq> [] \<and> list_all (\<lambda>c. c < 128) k"

lemma ascii_runs_nonempty: "\<exists>r rs. ascii_runs s = r # rs"
  by (induction s) (auto split: list.splits)

lemma prefix_runs: "list_all (\<lambda>c. c < 128) k \<Longrightarrow> prefix k s \<longleftrightarrow> prefix k (hd (ascii_runs s))"
proof (induction s arbitrary: k)
  case (Cons c s)
  obtain r rs where r: "ascii_runs s = r # rs" using ascii_runs_nonempty by blast
  show ?case
  proof (cases k)
    case (Cons d k')
    then show ?thesis using Cons.IH [of k'] Cons.prems r by auto
  qed simp
qed simp

lemma contains_runs: "ascii k \<Longrightarrow> contains k s \<longleftrightarrow> list_ex (contains k) (ascii_runs s)"
proof (induction s)
  case (Cons c s)
  obtain r rs where r: "ascii_runs s = r # rs" using ascii_runs_nonempty by blast
  have p: "prefix k (c # s) \<longleftrightarrow> prefix k (hd (ascii_runs (c # s)))"
    using Cons.prems by (intro prefix_runs) (simp add: ascii_def)
  show ?case using Cons r p by (auto simp: startswith_prefix ascii_def)
qed (simp add: ascii_def)

text \<open>The search written with one equation per case, so that its evaluation is linear.\<close>

fun starts :: "bool \<Rightarrow> ustr \<Rightarrow> ustr \<Rightarrow> bool" where
  "starts False s p = False"
| "starts True s [] = True"
| "starts True [] (p # ps) = False"
| "starts True (x # xs) (p # ps) = starts (x = p) xs ps"

lemma starts_False [simp]: "starts False s p = False"
  by (cases s; cases p) simp_all

lemma starts_code: "starts True s p = startswith s p"
proof (induction p arbitrary: s)
  case (Cons a p)
  show ?case
  proof (cases s)
    case c: (Cons b t)
    then show ?thesis using Cons.IH [of t] by (cases "b = a") (simp_all add: startswith_def)
  qed (simp add: startswith_def)
qed (cases s, simp_all add: startswith_def)

fun occurs :: "bool \<Rightarrow> ustr \<Rightarrow> ustr \<Rightarrow> bool" where
  "occurs True p s = True"
| "occurs False p [] = (p = [])"
| "occurs False p (x # xs) = occurs (starts True (x # xs) p) p xs"

lemma occurs_True [simp]: "occurs True p s" by (cases s) simp_all

lemma occurs_code: "occurs False p s = contains p s"
proof (induction s)
  case (Cons x xs)
  then show ?case by (cases "startswith (x # xs) p") (simp_all add: starts_code del: starts.simps)
qed simp

fun in_word :: "bool \<Rightarrow> ustr \<Rightarrow> ustr list \<Rightarrow> bool" where
  "in_word True k rs = True"
| "in_word False k [] = False"
| "in_word False k (r # rs) = in_word (occurs False k r) k rs"

lemma in_word_True [simp]: "in_word True k rs" by (cases rs) simp_all

lemma in_word_code: "in_word False k rs = list_ex (contains k) rs"
proof (induction rs)
  case (Cons r rs)
  then show ?case by (cases "contains k r") (simp_all add: occurs_code)
qed simp

text \<open>The words of a text are its runs of ASCII characters that are not empty.\<close>

fun add_word :: "ustr \<Rightarrow> ustr list \<Rightarrow> ustr list" where
  "add_word [] rs = rs"
| "add_word (c # w) rs = rev (c # w) # rs"

fun split_words :: "bool \<Rightarrow> int \<Rightarrow> ustr \<Rightarrow> ustr \<Rightarrow> ustr list" where
  "split_words True c w [] = add_word (c # w) []"
| "split_words False c w [] = add_word w []"
| "split_words True c w (d # s) = split_words (d < 128) d (c # w) s"
| "split_words False c w (d # s) = add_word w (split_words (d < 128) d [] s)"

fun words :: "ustr \<Rightarrow> ustr list" where
  "words [] = []"
| "words (c # s) = split_words (c < 128) c [] s"

lemma add_word_list: "add_word w rs = (if w = [] then rs else rev w # rs)"
  by (cases w) simp_all

lemma split_words_runs: "split_words (c < 128) c w s =
   (case ascii_runs (c # s) of r # rs \<Rightarrow> filter (\<lambda>r. r \<noteq> []) ((rev w @ r) # rs) | [] \<Rightarrow> [])"
proof (induction s arbitrary: c w)
  case (Cons d s)
  obtain r rs where r: "ascii_runs s = r # rs" using ascii_runs_nonempty by blast
  show ?case by (cases "c < 128") (simp_all add: r Cons.IH add_word_list)
qed (cases "c < 128", simp_all add: add_word_list)

lemma words_runs: "words s = filter (\<lambda>r. r \<noteq> []) (ascii_runs s)"
proof (cases s)
  case (Cons c t)
  obtain r rs where "ascii_runs (c # t) = r # rs" using ascii_runs_nonempty by blast
  then show ?thesis using split_words_runs [of c "[]" t] Cons by (simp del: ascii_runs.simps)
qed simp

lemma contains_words: "ascii k \<Longrightarrow> contains k s \<longleftrightarrow> list_ex (contains k) (words s)"
proof -
  assume k: "ascii k"
  then have "\<not> contains k []" by (simp add: ascii_def)
  then show ?thesis unfolding contains_runs [OF k, of s] words_runs list_ex_iff by auto
qed

text \<open>A keyword is looked for in the words, or in the text if it is not of ASCII characters.\<close>

fun look :: "bool \<Rightarrow> ustr \<Rightarrow> ustr list \<Rightarrow> ustr \<Rightarrow> bool" where
  "look True k rs s = in_word False k rs"
| "look False k rs s = occurs False k s"

fun any_of :: "bool \<Rightarrow> ustr list \<Rightarrow> ustr list \<Rightarrow> ustr \<Rightarrow> bool" where
  "any_of True ks rs s = True"
| "any_of False [] rs s = False"
| "any_of False (k # ks) rs s = any_of (look (ascii k) k rs s) ks rs s"

lemma any_of_True [simp]: "any_of True ks rs s" by (cases ks) simp_all

lemma has_any_code: "has_any ks s = any_of False ks (words s) s"
proof (induction ks)
  case (Cons k ks)
  have "look (ascii k) k (words s) s = contains k s"
    by (cases "ascii k") (simp_all add: in_word_code occurs_code contains_words [symmetric])
  with Cons show ?case by (cases "contains k s") (simp_all add: has_any_def)
qed (simp add: has_any_def)

text \<open>The same with the code points of the keywords and names written out, for evaluation.\<close>

lemma kw_llm_code [code]:
  "kw_llm = [[97, 112, 105, 32, 107, 101, 121], [97, 112, 105, 95, 107, 101, 121], [97, 112, 105, 107, 101, 121], [105,
     110, 118, 97, 108, 105, 100, 95, 97, 112, 105, 95, 107, 101, 121], [97, 117, 116, 104, 101, 110, 116, 105,
     99, 97, 116, 105, 111, 110], [117, 110, 97, 117, 116, 104, 111, 114, 105, 122, 101, 100], [52, 48, 49], [52,
     48, 51], [103, 101, 109, 105, 110, 105], [111, 112, 101, 110, 97, 105], [100, 97, 115, 104, 115, 99, 111,
     112, 101], [113, 105, 97, 110, 102, 97, 110], [113, 119, 101, 110], [122, 104, 105, 112, 117], [103, 108,
     109]]"
  by code_simp

lemma kw_llm_key_code [code]:
  "kw_llm_key = [[97, 112, 105, 32, 107, 101, 121], [97, 112, 105, 95, 107, 101, 121], [97, 112, 105, 107, 101, 121], [105,
     110, 118, 97, 108, 105, 100], [97, 117, 116, 104, 101, 110, 116, 105, 99, 97, 116, 105, 111, 110], [117,
     110, 97, 117, 116, 104, 111, 114, 105, 122, 101, 100], [52, 48, 49], [105, 110, 118, 97, 108, 105, 100, 95,
     97, 112, 105, 95, 107, 101, 121], [97, 112, 105, 32, 107, 101, 121, 32, 110, 111, 116, 32, 118, 97, 108,
     105, 100]]"
  by code_simp

lemma kw_llm_quota_code [code]:
  "kw_llm_quota = [[113, 117, 111, 116, 97], [114, 97, 116, 101, 32, 108, 105, 109, 105, 116], [116, 111, 111, 32, 109, 97,
     110, 121, 32, 114, 101, 113, 117, 101, 115, 116, 115], [52, 50, 57], [114, 101, 115, 111, 117, 114, 99, 101,
     32, 101, 120, 104, 97, 117, 115, 116, 101, 100], [105, 110, 115, 117, 102, 102, 105, 99, 105, 101, 110, 116,
     95, 113, 117, 111, 116, 97], [98, 105, 108, 108, 105, 110, 103]]"
  by code_simp

lemma kw_llm_filter_code [code]:
  "kw_llm_filter = [[100, 97, 116, 97, 95, 105, 110, 115, 112, 101, 99, 116, 105, 111, 110, 95, 102, 97, 105, 108, 101, 100],
     [105, 110, 97, 112, 112, 114, 111, 112, 114, 105, 97, 116, 101, 32, 99, 111, 110, 116, 101, 110, 116], [99,
     111, 110, 116, 101, 110, 116, 32, 102, 105, 108, 116, 101, 114], [20869, 23481, 23457, 26680], [25935,
     24863, 20869, 23481], [36829, 35268, 20869, 23481], [99, 111, 110, 116, 101, 110, 116, 32, 112, 111, 108,
     105, 99, 121]]"
  by code_simp

lemma kw_llm_network_code [code]:
  "kw_llm_network = [[99, 111, 110, 110, 101, 99, 116, 105, 111, 110], [110, 101, 116, 119, 111, 114, 107], [116, 105, 109, 101,
     111, 117, 116], [117, 110, 114, 101, 97, 99, 104, 97, 98, 108, 101], [100, 110, 115], [115, 115, 108]]"
  by code_simp

lemma kw_source_code [code]:
  "kw_source = [[116, 117, 115, 104, 97, 114, 101], [97, 107, 115, 104, 97, 114, 101], [98, 97, 111, 115, 116, 111, 99,
     107], [102, 105, 110, 110, 104, 117, 98], [25968, 25454, 28304], [100, 97, 116, 97, 32, 115, 111, 117, 114,
     99, 101]]"
  by code_simp

lemma kw_source_key_code [code]:
  "kw_source_key = [[116, 111, 107, 101, 110], [97, 112, 105, 32, 107, 101, 121], [97, 117, 116, 104, 101, 110, 116, 105, 99,
     97, 116, 105, 111, 110], [117, 110, 97, 117, 116, 104, 111, 114, 105, 122, 101, 100]]"
  by code_simp

lemma kw_not_found_code [code]:
  "kw_not_found = [[110, 111, 116, 32, 102, 111, 117, 110, 100], [110, 111, 32, 100, 97, 116, 97], [101, 109, 112, 116, 121],
     [26080, 25968, 25454], [26410, 25214, 21040]]"
  by code_simp

lemma kw_source_network_code [code]:
  "kw_source_network = [[99, 111, 110, 110, 101, 99, 116, 105, 111, 110], [110, 101, 116, 119, 111, 114, 107], [116, 105, 109, 101,
     111, 117, 116]]"
  by code_simp

lemma kw_code_code [code]:
  "kw_code = [[32929, 31080, 20195, 30721], [115, 116, 111, 99, 107, 32, 99, 111, 100, 101], [115, 121, 109, 98, 111,
     108], [105, 110, 118, 97, 108, 105, 100, 32, 99, 111, 100, 101], [20195, 30721, 26080, 25928]]"
  by code_simp

lemma kw_network_code [code]:
  "kw_network = [[99, 111, 110, 110, 101, 99, 116, 105, 111, 110], [110, 101, 116, 119, 111, 114, 107], [116, 105, 109, 101,
     111, 117, 116], [117, 110, 114, 101, 97, 99, 104, 97, 98, 108, 101], [100, 110, 115]]"
  by code_simp

lemma kw_system_code [code]:
  "kw_system = [[105, 110, 116, 101, 114, 110, 97, 108, 32, 101, 114, 114, 111, 114], [115, 101, 114, 118, 101, 114, 32,
     101, 114, 114, 111, 114], [53, 48, 48], [31995, 32479, 38169, 35823]]"
  by code_simp

lemma llm_names_code [code]:
  "llm_names = [([103, 111, 111, 103, 108, 101], [71, 111, 111, 103, 108, 101, 32, 71, 101, 109, 105, 110, 105]), ([113,
     119, 101, 110], [38463, 37324, 30334, 28860, 65288, 36890, 20041, 21315, 38382, 65289]), ([100, 97, 115,
     104, 115, 99, 111, 112, 101], [38463, 37324, 30334, 28860, 65288, 36890, 20041, 21315, 38382, 65289]),
     ([113, 105, 97, 110, 102, 97, 110], [30334, 24230, 21315, 24070]), ([100, 101, 101, 112, 115, 101, 101,
     107], [68, 101, 101, 112, 83, 101, 101, 107]), ([111, 112, 101, 110, 97, 105], [79, 112, 101, 110, 65, 73]),
     ([111, 112, 101, 110, 114, 111, 117, 116, 101, 114], [79, 112, 101, 110, 82, 111, 117, 116, 101, 114]),
     ([97, 105, 104, 117, 98, 109, 105, 120], [65, 105, 72, 117, 98, 77, 105, 120]), ([97, 110, 116, 104, 114,
     111, 112, 105, 99], [65, 110, 116, 104, 114, 111, 112, 105, 99, 32, 67, 108, 97, 117, 100, 101]), ([103,
     108, 109], [26234, 35889, 65, 73]), ([122, 104, 105, 112, 117], [26234, 35889, 65, 73]), ([109, 111, 111,
     110, 115, 104, 111, 116], [26376, 20043, 26263, 38754, 65288, 75, 105, 109, 105, 65289])]"
  by code_simp

lemma llm_names_keys:
  "map (\<lambda>(k, n). (k, [k, u_lower n])) llm_names =
     [([103, 111, 111, 103, 108, 101], [[103, 111, 111, 103, 108, 101], [103, 111, 111, 103, 108, 101, 32, 103,
     101, 109, 105, 110, 105]]), ([113, 119, 101, 110], [[113, 119, 101, 110], [38463, 37324, 30334, 28860,
     65288, 36890, 20041, 21315, 38382, 65289]]), ([100, 97, 115, 104, 115, 99, 111, 112, 101], [[100, 97, 115,
     104, 115, 99, 111, 112, 101], [38463, 37324, 30334, 28860, 65288, 36890, 20041, 21315, 38382, 65289]]),
     ([113, 105, 97, 110, 102, 97, 110], [[113, 105, 97, 110, 102, 97, 110], [30334, 24230, 21315, 24070]]),
     ([100, 101, 101, 112, 115, 101, 101, 107], [[100, 101, 101, 112, 115, 101, 101, 107], [100, 101, 101, 112,
     115, 101, 101, 107]]), ([111, 112, 101, 110, 97, 105], [[111, 112, 101, 110, 97, 105], [111, 112, 101, 110,
     97, 105]]), ([111, 112, 101, 110, 114, 111, 117, 116, 101, 114], [[111, 112, 101, 110, 114, 111, 117, 116,
     101, 114], [111, 112, 101, 110, 114, 111, 117, 116, 101, 114]]), ([97, 105, 104, 117, 98, 109, 105, 120],
     [[97, 105, 104, 117, 98, 109, 105, 120], [97, 105, 104, 117, 98, 109, 105, 120]]), ([97, 110, 116, 104, 114,
     111, 112, 105, 99], [[97, 110, 116, 104, 114, 111, 112, 105, 99], [97, 110, 116, 104, 114, 111, 112, 105,
     99, 32, 99, 108, 97, 117, 100, 101]]), ([103, 108, 109], [[103, 108, 109], [26234, 35889, 97, 105]]), ([122,
     104, 105, 112, 117], [[122, 104, 105, 112, 117], [26234, 35889, 97, 105]]), ([109, 111, 111, 110, 115, 104,
     111, 116], [[109, 111, 111, 110, 115, 104, 111, 116], [26376, 20043, 26263, 38754, 65288, 107, 105, 109,
     105, 65289]])]"
  by code_simp

lemma source_names_code [code]:
  "source_names = [([116, 117, 115, 104, 97, 114, 101], [84, 117, 115, 104, 97, 114, 101]), ([97, 107, 115, 104, 97, 114,
     101], [65, 75, 83, 104, 97, 114, 101]), ([98, 97, 111, 115, 116, 111, 99, 107], [66, 97, 111, 83, 116, 111,
     99, 107]), ([102, 105, 110, 110, 104, 117, 98], [70, 105, 110, 110, 104, 117, 98]), ([109, 111, 110, 103,
     111, 100, 98], [77, 111, 110, 103, 111, 68, 66, 32531, 23384])]"
  by code_simp

lemma source_names_keys:
  "map (\<lambda>(k, n). (k, [k, u_lower n])) source_names =
     [([116, 117, 115, 104, 97, 114, 101], [[116, 117, 115, 104, 97, 114, 101], [116, 117, 115, 104, 97, 114,
     101]]), ([97, 107, 115, 104, 97, 114, 101], [[97, 107, 115, 104, 97, 114, 101], [97, 107, 115, 104, 97, 114,
     101]]), ([98, 97, 111, 115, 116, 111, 99, 107], [[98, 97, 111, 115, 116, 111, 99, 107], [98, 97, 111, 115,
     116, 111, 99, 107]]), ([102, 105, 110, 110, 104, 117, 98], [[102, 105, 110, 110, 104, 117, 98], [102, 105,
     110, 110, 104, 117, 98]]), ([109, 111, 110, 103, 111, 100, 98], [[109, 111, 110, 103, 111, 100, 98], [109,
     111, 110, 103, 111, 100, 98, 32531, 23384]])]"
  by code_simp

fun found_name :: "bool \<Rightarrow> ustr \<Rightarrow> (ustr \<times> ustr list) list \<Rightarrow> ustr list \<Rightarrow> ustr \<Rightarrow> ustr option" where
  "found_name True k tab rs s = Some k"
| "found_name False k [] rs s = None"
| "found_name False k ((k2, ks) # tab) rs s = found_name (any_of False ks rs s) k2 tab rs s"

definition find_name :: "(ustr \<times> ustr list) list \<Rightarrow> ustr list \<Rightarrow> ustr \<Rightarrow> ustr option" where
  "find_name tab rs s = found_name False [] tab rs s"

lemma found_name_True [simp]: "found_name True k tab rs s = Some k" by (cases tab) auto

lemma extract_find_name:
  "extract_name tab e = find_name (map (\<lambda>(k, n). (k, [k, u_lower n])) tab) (words (u_lower e)) (u_lower e)"
proof -
  have "extract_name tab e = found_name False k (map (\<lambda>(k, n). (k, [k, u_lower n])) tab) (words (u_lower e)) (u_lower e)" for k
  proof (induction tab arbitrary: k)
    case (Cons t tab)
    obtain l n where t: "t = (l, n)" by fastforce
    show ?case using Cons [of l]
      by (cases "any_of False [l, u_lower n] (words (u_lower e)) (u_lower e)")
         (simp_all add: extract_name_def t has_any_code del: any_of.simps)
  qed (simp add: extract_name_def)
  then show ?thesis by (simp add: find_name_def)
qed

text \<open>The first class of a list whose keywords occur.\<close>

fun first_class :: "bool \<Rightarrow> error_category \<Rightarrow> (ustr list \<times> error_category) list \<Rightarrow> error_category \<Rightarrow> ustr list \<Rightarrow> ustr
    \<Rightarrow> error_category" where
  "first_class True c tab d rs s = c"
| "first_class False c [] d rs s = d"
| "first_class False c ((ks, c2) # tab) d rs s = first_class (any_of False ks rs s) c2 tab d rs s"

lemma first_class_True [simp]: "first_class True c tab d rs s = c" by (cases tab) auto

lemma first_class_step: "first_class False c ((ks, c2) # tab) d rs s =
   (if any_of False ks rs s then c2 else first_class False c2 tab d rs s)"
  by (cases "any_of False ks rs s") (simp_all del: any_of.simps)

definition named :: "ustr option \<Rightarrow> bool" where
  "named p \<longleftrightarrow> (case p of None \<Rightarrow> False | Some x \<Rightarrow> \<not> List.null x)"

fun class_model :: "bool \<Rightarrow> ustr option \<Rightarrow> ustr list \<Rightarrow> ustr \<Rightarrow> error_category \<times> ustr option"
    and class_source :: "bool \<Rightarrow> ustr option \<Rightarrow> ustr list \<Rightarrow> ustr \<Rightarrow> error_category \<times> ustr option" where
  "class_model True p rs s = (first_class False LlmOther [(kw_llm_key, LlmApiKey), (kw_llm_quota, LlmQuota),
     (kw_llm_filter, LlmContentFilter), (kw_llm_network, LlmNetwork)] LlmOther rs s, p)"
| "class_model False p rs s = (let d = find_name (map (\<lambda>(k, n). (k, [k, u_lower n])) source_names) rs s in
     class_source (named d \<or> any_of False kw_source rs s) d rs s)"
| "class_source True d rs s = (first_class False SourceOther [(kw_source_key, SourceApiKey), (kw_not_found, SourceNotFound),
     (kw_source_network, SourceNetwork)] SourceOther rs s, d)"
| "class_source False d rs s = (first_class False UnknownError [(kw_code, StockCodeInvalid), (kw_network, NetworkError),
     (kw_system, SystemError)] UnknownError rs s, None)"

lemmas class_model_code [code] = class_model.simps [unfolded source_names_keys] class_source.simps

definition class_lower :: "ustr \<Rightarrow> ustr list \<Rightarrow> error_category \<times> ustr option" where
  "class_lower s rs = (let p = find_name (map (\<lambda>(k, n). (k, [k, u_lower n])) llm_names) rs s in
     class_model (named p \<or> any_of False kw_llm rs s) p rs s)"

lemmas class_lower_code [code] = class_lower_def [unfolded llm_names_keys]

lemma named_iff: "named p \<longleftrightarrow> or_default p [] \<noteq> []"
  by (cases p) (simp_all add: named_def or_default_def List.null_iff)

lemma categorize_class: "categorize_error e no_context = class_lower (u_lower e) (words (u_lower e))"
proof -
  have m: "class_model b p rs s = (if b then class_model True p rs s else class_model False p rs s)"
    "class_source b p rs s = (if b then class_source True p rs s else class_source False p rs s)" for b p rs s
    by simp_all
  show ?thesis unfolding class_lower_def Let_def m [of "_ \<or> _"]
    by (auto simp: m [of "_ \<or> _"] categorize_error_def categorize_llm_def categorize_source_def no_context_def or_else_def Let_def
        extract_find_name has_any_code named_iff or_default_def [of None] first_class_step simp del: any_of.simps)
qed

section \<open>Errors formatted twice\<close>

text \<open>The key under which a provider is found by its name: two names have two keys.\<close>

definition first_key :: "ustr option \<Rightarrow> ustr option" where
  "first_key p = (if p = Some (ustr_of ''dashscope'') then Some (ustr_of ''qwen'')
     else if p = Some (ustr_of ''zhipu'') then Some (ustr_of ''glm'') else p)"

fun reported :: "error_category \<times> ustr option \<Rightarrow> error_category \<times> ustr option" where
  "reported (LlmApiKey, p) = (LlmApiKey, first_key p)"
| "reported (LlmNetwork, p) = (LlmOther, Some (ustr_of ''google''))"
| "reported (LlmQuota, p) = (if p = None then (UnknownError, None) else (LlmOther, first_key p))"
| "reported (LlmContentFilter, p) = (LlmContentFilter, Some (ustr_of ''google''))"
| "reported (LlmOther, p) = (if p = None then (UnknownError, None) else (LlmOther, first_key p))"
| "reported (SourceApiKey, p) = (LlmApiKey, None)"
| "reported (SourceNetwork, p) = (SourceOther, p)"
| "reported (SourceNotFound, p) = (SourceNotFound, p)"
| "reported (SourceOther, p) = (SourceOther, p)"
| "reported (StockCodeInvalid, p) = (StockCodeInvalid, None)"
| "reported (NetworkError, p) = (UnknownError, None)"
| "reported (SystemError, p) = (UnknownError, None)"
| "reported (UnknownError, p) = (UnknownError, None)"

definition outcomes :: "(error_category \<times> ustr option) list" where
  "outcomes = List.product [LlmApiKey, LlmNetwork, LlmQuota, LlmContentFilter, LlmOther] (None # map (Some \<circ> fst) llm_names)
     @ List.product [SourceApiKey, SourceNetwork, SourceNotFound, SourceOther] (None # map (Some \<circ> fst) source_names)
     @ List.product [StockCodeInvalid, NetworkError, SystemError, UnknownError] [None]"

lemma u_lower_char_code [code]: "u_lower_char n = (if 222 < n then n else
   if (65 \<le> n \<and> n \<le> 90) \<or> (192 \<le> n \<and> n \<le> 214) \<or> 216 \<le> n then n + 32 else n)"
  by (simp add: u_lower_char_def)

definition stays :: "error_category \<times> ustr option \<Rightarrow> bool" where
  "stays x = (case x of (k, p) \<Rightarrow> let s = u_lower (friendly_text (message_of k (friendly_name p))) in
     class_lower s (words s) = reported (k, p))"

definition llm_keys :: "ustr option list" where
  "llm_keys = None # map (Some \<circ> fst) llm_names"

definition source_keys :: "ustr option list" where
  "source_keys = None # map (Some \<circ> fst) source_names"

lemma stays_LlmApiKey: "list_all (\<lambda>p. stays (LlmApiKey, p)) llm_keys"
  by code_simp

lemma stays_LlmNetwork: "list_all (\<lambda>p. stays (LlmNetwork, p)) llm_keys"
  by code_simp

lemma stays_LlmQuota: "list_all (\<lambda>p. stays (LlmQuota, p)) llm_keys"
  by code_simp

lemma stays_LlmContentFilter: "list_all (\<lambda>p. stays (LlmContentFilter, p)) llm_keys"
  by code_simp

lemma stays_LlmOther: "list_all (\<lambda>p. stays (LlmOther, p)) llm_keys"
  by code_simp

lemma stays_source:
  "list_all (\<lambda>p. stays (SourceApiKey, p)) source_keys" "list_all (\<lambda>p. stays (SourceNetwork, p)) source_keys"
  "list_all (\<lambda>p. stays (SourceNotFound, p)) source_keys" "list_all (\<lambda>p. stays (SourceOther, p)) source_keys"
  by code_simp+

lemma stays_other:
  "stays (StockCodeInvalid, None)" "stays (NetworkError, None)" "stays (SystemError, None)" "stays (UnknownError, None)"
  by code_simp+

lemma extract_name_range: "extract_name tab e \<in> set (None # map (Some \<circ> fst) tab)"
proof (induction tab)
  case (Cons t tab)
  then show ?case by (cases t) (auto simp: extract_name_def)
qed (simp add: extract_name_def)

lemma categorize_stays: "stays (categorize_error e no_context)"
proof -
  let ?p = "extract_name llm_names e" let ?d = "extract_name source_names e"
  have p: "?p \<in> set llm_keys" "?d \<in> set source_keys"
    using extract_name_range [of llm_names e] extract_name_range [of source_names e] by (simp_all add: llm_keys_def source_keys_def)
  have "stays (categorize_llm s, ?p)" for s
    using p stays_LlmApiKey stays_LlmNetwork stays_LlmQuota stays_LlmContentFilter stays_LlmOther
    by (simp add: categorize_llm_def list_all_iff)
  moreover have "stays (categorize_source s, ?d)" for s
    using p stays_source by (simp add: categorize_source_def list_all_iff)
  ultimately show ?thesis using stays_other
    by (simp add: categorize_error_def Let_def no_context_def or_else_def or_default_def [of None])
qed

text \<open>
  C33: What the user reads of an error of the analysis, which is formatted twice. A wrong API key,
  missing data, another failure of a data source, a wrong stock code and another failure of a
  named model keep their class. But an unreachable model of any provider is reported as a failed
  call of Google's and filtered content of any provider as Google's, a wrong token of a data
  source as a wrong API key of a model, a used up quota as another failure or as unknown, and a
  network or system error as unknown.
\<close>

theorem error_reported_twice:
  "categorize_error (user_friendly_error e) no_context = reported (categorize_error e no_context)"
  using categorize_stays [of e]
  by (simp add: stays_def user_friendly_error_def format_error_def categorize_class case_prod_unfold Let_def)

end
