(* ===== verification/AnalysisFlow.thy ===== *)
theory AnalysisFlow
  imports MemoryState Progress ErrorFormatter
begin

text \<open>
  The life of an analysis task, \<open>app/services/simple_analysis_service.py\<close> with the routes of
  \<open>app/routers/analysis.py\<close>: a task is created in the memory manager and in MongoDB, runs in the
  background (validation of the code, the analysis in a thread, saving) while its progress is
  written to a tracker, to memory and to MongoDB, and ends completed or failed.

  The collection of task documents is the parameter \<open>K\<close>, functions on a state of an unknown type
  that answer or raise; \<open>task_laws\<close> in \<open>AnalysisFlowProofs\<close> is what the code relies on. The
  validation of the stock and the graph of agents are outside: their outcomes are arguments. A
  handler reads the clock anew for each store; the readings for one store are taken as one.
\<close>

section \<open>Requests and documents\<close>

text \<open>The parameters of a request, with the fields the service reads; the rest of their dump is \<open>ap_other\<close>.\<close>

record analysis_params =
  ap_depth :: ustr
  ap_analysts :: "string list"
  ap_other :: "(ustr, dval) dict"

record analysis_request =
  aq_symbol :: "string option"
  aq_stock_code :: "string option"
  aq_params :: "analysis_params option"

definition get_symbol :: "analysis_request \<Rightarrow> string" where
  "get_symbol q = (if or_default (aq_symbol q) [] \<noteq> [] then or_default (aq_symbol q) []
     else or_default (aq_stock_code q) [])"

definition params_dump :: "analysis_params \<Rightarrow> (ustr, dval) dict" where
  "params_dump p = [(k_depth, VStr (ap_depth p)), (k_analysts, VList (map ustr_of (ap_analysts p)))] @ ap_other p"

record task_doc =
  ad_task_id :: string
  ad_user :: string
  ad_code :: string
  ad_name :: ustr
  ad_status :: string
  ad_progress :: int
  ad_created :: pydatetime
  ad_started :: "pydatetime option"
  ad_completed :: "pydatetime option"
  ad_updated :: "pydatetime option"
  ad_step :: "ustr option"
  ad_message :: "ustr option"
  ad_error :: "ustr option"

text \<open>An operation on the collection answers (\<open>True\<close>) or raises, and then may have been applied or not.\<close>

record 'c task_coll =
  t_find :: "string \<Rightarrow> 'c \<Rightarrow> task_doc option"
  t_insert :: "task_doc \<Rightarrow> 'c \<Rightarrow> bool \<times> 'c"
  t_set :: "string \<Rightarrow> (task_doc \<Rightarrow> task_doc) \<Rightarrow> 'c \<Rightarrow> bool \<times> 'c"
  t_delete :: "string \<Rightarrow> 'c \<Rightarrow> bool \<times> 'c"

record 'c service =
  sv_memory :: memory_manager
  sv_trackers :: "(string, ptracker) dict"
  sv_names :: "(string, ustr) dict"
  sv_docs :: 'c

section \<open>Creating a task\<close>

text \<open>\<open>lookup\<close> is the name the data interface gives, if it gives one.\<close>

definition default_name :: "string \<Rightarrow> ustr" where
  "default_name code = [32929, 31080] @ ustr_of code"

definition resolve_stock_name :: "(string \<Rightarrow> ustr option) \<Rightarrow> string \<Rightarrow> (string, ustr) dict
    \<Rightarrow> ustr \<times> (string, ustr) dict" where
  "resolve_stock_name lookup code names = (if code = [] then ([], names)
     else (case dget names code of Some n \<Rightarrow> (n, names)
       | None \<Rightarrow> let n = or_default (lookup code) []; n2 = (if n = [] then default_name code else n) in
           (n2, dset code n2 names)))"

definition new_doc :: "string \<Rightarrow> string \<Rightarrow> string \<Rightarrow> ustr \<Rightarrow> pydatetime \<Rightarrow> task_doc" where
  "new_doc tid uid code name now = \<lparr>ad_task_id = tid, ad_user = uid, ad_code = code, ad_name = name,
     ad_status = ''pending'', ad_progress = 0, ad_created = now, ad_started = None, ad_completed = None,
     ad_updated = None, ad_step = None, ad_message = None, ad_error = None\<rparr>"

definition create_analysis_task :: "'c task_coll \<Rightarrow> (string \<Rightarrow> ustr option) \<Rightarrow> string \<Rightarrow> string \<Rightarrow> analysis_request
    \<Rightarrow> pydatetime \<Rightarrow> pydatetime \<Rightarrow> 'c service \<Rightarrow> (string, string) result \<times> 'c service" where
  "create_analysis_task K lookup tid uid q t1 t2 sv = (let code = get_symbol q in
     if code = [] then (Inl ''ValueError'', sv)
     else (case resolve_stock_name lookup code (sv_names sv) of (name, names) \<Rightarrow>
       (case MemoryState.create_task tid uid code
           (Some (case aq_params q of Some p \<Rightarrow> params_dump p | None \<Rightarrow> [])) (Some name) t1 (sv_memory sv) of
         Inl e \<Rightarrow> (Inl e, sv\<lparr>sv_names := names\<rparr>)
       | Inr (t, m) \<Rightarrow> (Inr tid, sv\<lparr>sv_names := names, sv_memory := m,
           sv_docs := snd (t_insert K (new_doc tid uid code name t2) (sv_docs sv))\<rparr>))))"

section \<open>Writing the state of a task\<close>

definition write_memory :: "string \<Rightarrow> task_update \<Rightarrow> pydatetime \<Rightarrow> 'c service \<Rightarrow> 'c service" where
  "write_memory tid u now sv = sv\<lparr>sv_memory := snd (MemoryState.update_task_status tid u now True (sv_memory sv))\<rparr>"

definition write_doc :: "'c task_coll \<Rightarrow> string \<Rightarrow> (task_doc \<Rightarrow> task_doc) \<Rightarrow> 'c service \<Rightarrow> 'c service" where
  "write_doc K tid f sv = sv\<lparr>sv_docs := snd (t_set K tid f (sv_docs sv))\<rparr>"

definition write_tracker :: "string \<Rightarrow> (ptracker \<Rightarrow> ptracker) \<Rightarrow> 'c service \<Rightarrow> 'c service" where
  "write_tracker tid f sv = sv\<lparr>sv_trackers :=
     (case dget (sv_trackers sv) tid of None \<Rightarrow> sv_trackers sv | Some t \<Rightarrow> dset tid (f t) (sv_trackers sv))\<rparr>"

text \<open>\<open>_update_task_status\<close>: the fields it sets in the document.\<close>

definition set_status :: "analysis_status \<Rightarrow> int \<Rightarrow> ustr option \<Rightarrow> pydatetime \<Rightarrow> task_doc \<Rightarrow> task_doc" where
  "set_status st p err now d = (let d1 = d\<lparr>ad_status := analysis_value st, ad_progress := p, ad_updated := Some now\<rparr> in
     if st = AsProcessing \<and> p = 10 then d1\<lparr>ad_started := Some now\<rparr>
     else if st = AsCompleted then d1\<lparr>ad_completed := Some now\<rparr>
     else if st = AsFailed then d1\<lparr>ad_error := err, ad_completed := Some now\<rparr>
     else d1)"

definition set_progress :: "int \<Rightarrow> ustr \<Rightarrow> ustr \<Rightarrow> pydatetime \<Rightarrow> task_doc \<Rightarrow> task_doc" where
  "set_progress p step msg now d = d\<lparr>ad_progress := p, ad_step := Some step, ad_message := Some msg, ad_updated := Some now\<rparr>"

definition running_update :: "int \<Rightarrow> ustr \<Rightarrow> ustr \<Rightarrow> task_update" where
  "running_update p msg step = \<lparr>up_status = TsRunning, up_progress = Some p, up_message = Some msg, up_step = Some step,
     up_result = None, up_error = None\<rparr>"

section \<open>The run in the background\<close>

text \<open>The clock: as a datetime for memory and for the documents, as a float for the tracker.\<close>

record times =
  tm_memory :: pydatetime
  tm_doc :: pydatetime
  tm_clock :: pyfloat

text \<open>The validation times out, raises, refuses with an error and a hint, or accepts the stock.\<close>

datatype validation = VdTimeout | VdRaised ustr | VdInvalid ustr ustr | VdValid

definition invalid_text :: "ustr \<Rightarrow> ustr \<Rightarrow> ustr" where
  "invalid_text err hint = [10060, 32, 32929, 31080, 20195, 30721, 26080, 25928, 10, 10] @ err @ [10, 10, 128161, 32] @ hint"

definition timeout_text :: ustr where
  "timeout_text = [10060, 32, 25968, 25454, 20934, 22791, 36229, 26102, 10, 10, 32929, 31080, 25968, 25454, 39564, 35777,
     38454, 27573, 36229, 36807, 53, 20998, 38047, 26410, 21709, 24212, 65292, 21487, 33021, 26159, 22806, 37096, 25968, 25454,
     28304, 19981, 21487, 29992, 12290, 10, 10, 128161, 32, 35831, 31245, 21518, 37325, 35797, 65292, 25110, 26816, 26597, 25968,
     25454, 28304, 26381, 21153, 29366, 24577]"

definition txt_failed :: ustr where "txt_failed = [20998, 26512, 22833, 36133]"
definition txt_timeout :: ustr where "txt_timeout = [25968, 25454, 20934, 22791, 36229, 26102]"
definition txt_done :: ustr where "txt_done = [20998, 26512, 23436, 25104]"

definition failed_update :: "task_status \<Rightarrow> ustr option \<Rightarrow> ustr option \<Rightarrow> ustr \<Rightarrow> task_update" where
  "failed_update st msg step err = \<lparr>up_status = st, up_progress = Some 0, up_message = msg, up_step = step,
     up_result = None, up_error = Some err\<rparr>"

text \<open>The refusal of the code writes a state of the other enumeration to memory.\<close>

definition reject_invalid :: "'c task_coll \<Rightarrow> string \<Rightarrow> ustr \<Rightarrow> times \<Rightarrow> 'c service \<Rightarrow> 'c service" where
  "reject_invalid K tid err t sv = write_doc K tid (set_status AsFailed 0 (Some err) (tm_doc t))
     (write_memory tid (failed_update (TsForeign AsFailed) None None err) (tm_memory t) sv)"

text \<open>The two handlers of exceptions: of a timeout, and of every other exception.\<close>

definition on_failure :: "'c task_coll \<Rightarrow> string \<Rightarrow> ustr \<Rightarrow> ustr \<Rightarrow> times \<Rightarrow> 'c service \<Rightarrow> 'c service" where
  "on_failure K tid msg err t sv = write_doc K tid (set_status AsFailed 0 (Some err) (tm_doc t))
     (write_memory tid (failed_update TsFailed (Some msg) (Some (ustr_of ''failed'')) err) (tm_memory t)
     (write_tracker tid (mark_failed (tm_clock t) err) sv))"

text \<open>The block \<open>finally\<close>.\<close>

definition end_run :: "string \<Rightarrow> 'c service \<Rightarrow> 'c service" where
  "end_run tid sv = sv\<lparr>sv_trackers := ddel tid (sv_trackers sv)\<rparr>"

text \<open>The tracker of a run; a request without parameters raises an AttributeError.\<close>

definition no_parameters :: ustr where
  "no_parameters = ustr_of (CHR 0x27 # ''NoneType'' @ CHR 0x27 # '' object has no attribute '' @ CHR 0x27
     # ''selected_analysts'' @ [CHR 0x27])"

definition tracker_of :: "analysis_params \<Rightarrow> pyfloat \<Rightarrow> ptracker" where
  "tracker_of p now = new_tracker (if ap_analysts p = [] then [''market'', ''fundamentals''] else ap_analysts p)
     (if ap_depth p = [] then txt_standard else ap_depth p) (normalize_provider_key (Some (ustr_of ''dashscope''))) now"

definition start_run :: "'c task_coll \<Rightarrow> string \<Rightarrow> analysis_params \<Rightarrow> times \<Rightarrow> 'c service \<Rightarrow> 'c service" where
  "start_run K tid p t sv = (let
     sv1 = sv\<lparr>sv_trackers := dset tid (tracker_of p (tm_clock t)) (sv_trackers sv)\<rparr>;
     sv2 = write_tracker tid (update_progress (tm_clock t) (Dict (Some 10) [128640, 32, 24320, 22987, 32929, 31080, 20998, 26512])) sv1;
     sv3 = write_memory tid (running_update 10 [20998, 26512, 24320, 22987, 46, 46, 46] (ustr_of ''initialization'')) (tm_memory t) sv2;
     sv4 = write_doc K tid (set_status AsProcessing 10 None (tm_doc t)) sv3;
     sv5 = write_tracker tid (update_progress (tm_clock t) (Dict (Some 20) [128295, 32, 26816, 26597, 29615, 22659, 37197, 32622])) sv4;
     sv6 = write_memory tid (running_update 20 [20934, 22791, 20998, 26512, 25968, 25454, 46, 46, 46] (ustr_of ''data_preparation'')) (tm_memory t) sv5
     in write_doc K tid (set_status AsProcessing 20 None (tm_doc t)) sv6)"

section \<open>The thread of the analysis\<close>

text \<open>
  What the thread and the thread of the simulation do to the stores: \<open>update_progress_sync\<close>, a
  message to the tracker, and the callback of the graph for a node.
\<close>

datatype thread_action = Sync int ustr ustr | Simulated ustr | Node ustr

definition sync_action :: "'c task_coll \<Rightarrow> string \<Rightarrow> int \<Rightarrow> ustr \<Rightarrow> ustr \<Rightarrow> times \<Rightarrow> 'c service \<Rightarrow> 'c service" where
  "sync_action K tid p msg step t sv = write_doc K tid (set_progress p step msg (tm_doc t))
     (write_memory tid (running_update p msg step) (tm_memory t)
     (write_tracker tid (update_progress (tm_clock t) (Dict (Some (of_int p)) msg)) sv))"

text \<open>The callback writes to MongoDB before memory: an exception there skips the write to memory.\<close>

definition node_rises :: "ustr \<Rightarrow> ptracker \<Rightarrow> int option" where
  "node_rises m t = (case map_of node_progress_map m of None \<Rightarrow> None
     | Some p \<Rightarrow> if pt_percentage t < of_int \<lfloor>p\<rfloor> then Some \<lfloor>p\<rfloor> else None)"

definition node_action :: "'c task_coll \<Rightarrow> string \<Rightarrow> ustr \<Rightarrow> times \<Rightarrow> 'c service \<Rightarrow> 'c service" where
  "node_action K tid m t sv = (case dget (sv_trackers sv) tid of None \<Rightarrow> sv | Some tr \<Rightarrow>
     let sv1 = write_tracker tid (graph_progress_callback (tm_clock t) m) sv in
     (case node_rises m tr of None \<Rightarrow> sv1
      | Some p \<Rightarrow> (case t_set K tid (set_progress p m m (tm_doc t)) (sv_docs sv1) of (ok, docs) \<Rightarrow>
          let sv2 = sv1\<lparr>sv_docs := docs\<rparr> in
          if ok then write_memory tid (running_update p m m) (tm_memory t) sv2 else sv2)))"

fun do_action :: "'c task_coll \<Rightarrow> string \<Rightarrow> times \<Rightarrow> thread_action \<Rightarrow> 'c service \<Rightarrow> 'c service" where
  "do_action K tid t (Sync p msg step) sv = sync_action K tid p msg step t sv"
| "do_action K tid t (Simulated msg) sv = write_tracker tid (update_progress (tm_clock t) (Message msg)) sv"
| "do_action K tid t (Node m) sv = node_action K tid m t sv"

text \<open>The actions of a thread that returns; \<open>evs\<close> are those of the graph and of the simulation in between.\<close>

definition thread_actions :: "thread_action list \<Rightarrow> thread_action list" where
  "thread_actions evs = [
     Sync 7 [9881, 65039, 32, 37197, 32622, 20998, 26512, 21442, 25968] (ustr_of ''configuration''),
     Sync 9 [128640, 32, 21021, 22987, 21270, 65, 73, 20998, 26512, 24341, 25806] (ustr_of ''engine_initialization''),
     Sync 10 [129302, 32, 24320, 22987, 22810, 26234, 33021, 20307, 21327, 20316, 20998, 26512] (ustr_of ''agent_analysis'')]
   @ evs @ [Simulated [128202, 32, 22788, 29702, 20998, 26512, 32467, 26524],
     Sync 90 [22788, 29702, 20998, 26512, 32467, 26524, 46, 46, 46] (ustr_of ''result_processing'')]"

text \<open>The end of a run whose thread returned; saving the reports swallows its failures and is left out.\<close>

definition complete_run :: "'c task_coll \<Rightarrow> string \<Rightarrow> (ustr, dval) dict \<Rightarrow> times \<Rightarrow> 'c service \<Rightarrow> 'c service" where
  "complete_run K tid res t sv = write_doc K tid (set_status AsCompleted 100 None (tm_doc t))
     (write_memory tid \<lparr>up_status = TsCompleted, up_progress = Some 100, up_message = Some txt_done,
        up_step = Some (ustr_of ''completed''), up_result = Some res, up_error = None\<rparr> (tm_memory t)
     (write_tracker tid (mark_completed (tm_clock t)) sv))"

text \<open>The error of the thread is formatted there, raised, and formatted again.\<close>

definition thread_error :: "ustr \<Rightarrow> ustr" where
  "thread_error e = user_friendly_error (user_friendly_error e)"

section \<open>Other requests\<close>

definition mark_task_as_failed :: "'c task_coll \<Rightarrow> string \<Rightarrow> times \<Rightarrow> 'c service \<Rightarrow> 'c service" where
  "mark_task_as_failed K tid t sv = write_doc K tid (\<lambda>d. d\<lparr>ad_status := ''failed'',
        ad_error := Some [29992, 25143, 25163, 21160, 26631, 35760, 20026, 22833, 36133],
        ad_completed := Some (tm_doc t), ad_updated := Some (tm_doc t)\<rparr>)
     (write_memory tid \<lparr>up_status = TsFailed, up_progress = None,
        up_message = Some [25163, 21160, 26631, 35760, 20026, 22833, 36133], up_step = None, up_result = None,
        up_error = Some [29992, 25143, 25163, 21160, 26631, 35760, 20026, 22833, 36133]\<rparr> (tm_memory t) sv)"

definition delete_analysis_task :: "'c task_coll \<Rightarrow> string \<Rightarrow> 'c service \<Rightarrow> 'c service" where
  "delete_analysis_task K tid sv = sv\<lparr>sv_memory := snd (MemoryState.remove_task tid (sv_memory sv)),
     sv_docs := snd (t_delete K tid (sv_docs sv))\<rparr>"

section \<open>The run as a whole, and the status route\<close>

text \<open>
  What a job is at: submitted, in its thread with the actions left, or ended with an error text or
  a result. \<open>execute_analysis_background\<close> up to the thread, and from the end of the thread on.
\<close>

datatype job = Submitted analysis_request | Working "thread_action list" | Ended "(ustr, (ustr, dval) dict) result"

definition fail_run :: "'c task_coll \<Rightarrow> string \<Rightarrow> ustr \<Rightarrow> ustr \<Rightarrow> times \<Rightarrow> 'c service \<Rightarrow> 'c service \<times> job" where
  "fail_run K tid msg err t sv = (end_run tid (on_failure K tid msg err t sv), Ended (Inl err))"

definition run_validated :: "'c task_coll \<Rightarrow> string \<Rightarrow> analysis_request \<Rightarrow> validation \<Rightarrow> thread_action list \<Rightarrow> times
    \<Rightarrow> 'c service \<Rightarrow> 'c service \<times> job" where
  "run_validated K tid q v evs t sv = (case v of
     VdTimeout \<Rightarrow> fail_run K tid txt_timeout timeout_text t sv
   | VdRaised e \<Rightarrow> fail_run K tid txt_failed (user_friendly_error e) t sv
   | VdInvalid e h \<Rightarrow> (end_run tid (reject_invalid K tid (invalid_text e h) t sv), Ended (Inl (invalid_text e h)))
   | VdValid \<Rightarrow> (case aq_params q of
       None \<Rightarrow> fail_run K tid txt_failed (user_friendly_error no_parameters) t sv
     | Some p \<Rightarrow> (start_run K tid p t sv, Working (thread_actions evs))))"

definition run_ended :: "'c task_coll \<Rightarrow> string \<Rightarrow> (ustr, (ustr, dval) dict) result \<Rightarrow> times \<Rightarrow> 'c service
    \<Rightarrow> 'c service \<times> job" where
  "run_ended K tid x t sv = (case x of
     Inl e \<Rightarrow> fail_run K tid txt_failed (thread_error e) t sv
   | Inr res \<Rightarrow> (end_run tid (complete_run K tid res t sv), Ended (Inr res)))"

text \<open>
  The status route: the state of the task in memory, else of its document, else \<open>completed\<close> if there
  is a report, else 404. For a task whose tracker lives but has left no progress in Redis or a file
  (\<open>stored\<close>), the service reads a field that the tracker does not have, and the route answers 500.
\<close>

definition status_route :: "'c task_coll \<Rightarrow> (string \<Rightarrow> bool) \<Rightarrow> (string \<Rightarrow> bool) \<Rightarrow> string \<Rightarrow> 'c service
    \<Rightarrow> (int, string) result" where
  "status_route K stored reported tid sv = (case MemoryState.get_task tid (sv_memory sv) of
     Some t \<Rightarrow> if \<not> stored tid \<and> dget (sv_trackers sv) tid \<noteq> None then Inl 500 else Inr (status_value (tk_status t))
   | None \<Rightarrow> (case t_find K tid (sv_docs sv) of Some d \<Rightarrow> Inr (ad_status d)
     | None \<Rightarrow> if reported tid then Inr ''completed'' else Inl 404))"

end
