(* ===== verification/AnalysisFlowProofs.thy ===== *)
theory AnalysisFlowProofs
  imports AnalysisFlow MemoryProofs AnalysisClient
begin

text \<open>
  Every interleaving of submissions, runs, other requests and cleanups: what the stores hold for a
  task in each phase of its run, that MongoDB and memory agree once a run has ended, and what the
  polling client of the pipeline sees of it.
\<close>

section \<open>Steps\<close>

type_synonym jobs = "string \<Rightarrow> job option"

fun from_events :: "thread_action \<Rightarrow> bool" where
  "from_events (Sync p m st) = False"
| "from_events (Simulated m) = True"
| "from_events (Node m) = True"

text \<open>A task id is a fresh uuid: no job and no document has it.\<close>

inductive service_step :: "'c task_coll \<Rightarrow> 'c service \<times> jobs \<Rightarrow> 'c service \<times> jobs \<Rightarrow> bool" for K where
  create: "jobs tid = None \<Longrightarrow> t_find K tid (sv_docs sv) = None
    \<Longrightarrow> create_analysis_task K lookup tid uid q now later sv = (Inr i, sv')
    \<Longrightarrow> service_step K (sv, jobs) (sv', jobs(tid \<mapsto> Submitted q))"
| create_fails: "create_analysis_task K lookup tid uid q now later sv = (Inl e, sv')
    \<Longrightarrow> service_step K (sv, jobs) (sv', jobs)"
| validated: "jobs tid = Some (Submitted q) \<Longrightarrow> list_all from_events evs
    \<Longrightarrow> run_validated K tid q v evs t sv = (sv', j)
    \<Longrightarrow> service_step K (sv, jobs) (sv', jobs(tid \<mapsto> j))"
| action: "jobs tid = Some (Working (a # as))
    \<Longrightarrow> service_step K (sv, jobs) (do_action K tid t a sv, jobs(tid \<mapsto> Working as))"
| returned: "jobs tid = Some (Working []) \<Longrightarrow> run_ended K tid (Inr res) t sv = (sv', j)
    \<Longrightarrow> service_step K (sv, jobs) (sv', jobs(tid \<mapsto> j))"
| raised: "jobs tid = Some (Working as) \<Longrightarrow> run_ended K tid (Inl e) t sv = (sv', j)
    \<Longrightarrow> service_step K (sv, jobs) (sv', jobs(tid \<mapsto> j))"
| mark_failed: "service_step K (sv, jobs) (mark_task_as_failed K tid t sv, jobs)"
| delete: "service_step K (sv, jobs) (delete_analysis_task K tid sv, jobs)"
| clean_old: "service_step K (sv, jobs)
    (sv\<lparr>sv_memory := snd (cleanup_old_tasks utc now h (sv_memory sv))\<rparr>, jobs)"
| clean_zombie: "service_step K (sv, jobs)
    (sv\<lparr>sv_memory := snd (cleanup_zombie_tasks utc now ends h (sv_memory sv))\<rparr>, jobs)"

definition fresh_service :: "'c \<Rightarrow> 'c service" where
  "fresh_service c = \<lparr>sv_memory = set_websocket_manager True empty_manager, sv_trackers = [], sv_names = [], sv_docs = c\<rparr>"

inductive service_reachable :: "'c task_coll \<Rightarrow> 'c service \<times> jobs \<Rightarrow> bool" for K where
  start: "service_reachable K (fresh_service c, Map.empty)"
| step: "service_reachable K s \<Longrightarrow> service_step K s s' \<Longrightarrow> service_reachable K s'"

inductive_cases service_step_E: "service_step K (sv, jobs) s"

section \<open>What the operations do to one task\<close>

named_theorems flow_simps

lemma get_write_memory [flow_simps]:
  "MemoryState.get_task k (sv_memory (write_memory tid u now sv)) =
     (if k = tid then map_option (apply_update u now) (MemoryState.get_task tid (sv_memory sv))
      else MemoryState.get_task k (sv_memory sv))"
  by (auto simp: write_memory_def MemoryState.get_task_def MemoryState.update_task_status_def Let_def dict_simps split: option.splits)

lemma flow_fields [flow_simps]:
  "sv_memory (write_doc K tid g sv) = sv_memory sv" "sv_trackers (write_doc K tid g sv) = sv_trackers sv"
  "sv_memory (write_tracker tid f sv) = sv_memory sv" "sv_docs (write_tracker tid f sv) = sv_docs sv"
  "sv_docs (write_memory tid u now sv) = sv_docs sv" "sv_trackers (write_memory tid u now sv) = sv_trackers sv"
  "sv_memory (end_run tid sv) = sv_memory sv" "sv_docs (end_run tid sv) = sv_docs sv"
  by (simp_all add: write_doc_def write_tracker_def write_memory_def end_run_def)

lemma get_trackers [flow_simps]:
  "dget (sv_trackers (write_tracker tid f sv)) k =
     (if k = tid then map_option f (dget (sv_trackers sv) tid) else dget (sv_trackers sv) k)"
  "dget (sv_trackers (end_run tid sv)) k = (if k = tid then None else dget (sv_trackers sv) k)"
  by (auto simp: write_tracker_def end_run_def dict_simps split: option.split)

section \<open>The invariant of memory and trackers\<close>

text \<open>What memory holds for a task by the phase of its run, if it still holds the task.\<close>

fun task_fits :: "job \<Rightarrow> task_state \<Rightarrow> bool" where
  "task_fits (Submitted q) t \<longleftrightarrow> tk_status t \<in> {TsPending, TsFailed} \<and> tk_progress t = 0 \<and> tk_result_data t = None"
| "task_fits (Working as) t \<longleftrightarrow> tk_status t \<in> {TsRunning, TsFailed} \<and> 0 \<le> tk_progress t \<and> tk_progress t \<le> 97
     \<and> tk_result_data t = None"
| "task_fits (Ended (Inl e)) t \<longleftrightarrow> tk_status t \<in> {TsFailed, TsForeign AsFailed} \<and> tk_progress t = 0
     \<and> tk_result_data t = None \<and> tk_error_message t \<noteq> None"
| "task_fits (Ended (Inr res)) t \<longleftrightarrow> tk_status t \<in> {TsCompleted, TsFailed} \<and> tk_progress t = 100 \<and> tk_result_data t = Some res"

fun action_fits :: "thread_action \<Rightarrow> bool" where
  "action_fits (Sync p m st) \<longleftrightarrow> 0 \<le> p \<and> p \<le> 97"
| "action_fits (Simulated m) \<longleftrightarrow> True"
| "action_fits (Node m) \<longleftrightarrow> True"

fun job_fits :: "job \<Rightarrow> bool" where
  "job_fits (Working as) \<longleftrightarrow> list_all action_fits as"
| "job_fits (Submitted q) \<longleftrightarrow> True"
| "job_fits (Ended x) \<longleftrightarrow> True"

fun working :: "job option \<Rightarrow> bool" where
  "working (Some (Working as)) \<longleftrightarrow> True"
| "working (Some (Submitted q)) \<longleftrightarrow> False"
| "working (Some (Ended x)) \<longleftrightarrow> False"
| "working None \<longleftrightarrow> False"

text \<open>Which tasks have a tracker.\<close>

definition tracked :: "'c service \<Rightarrow> string \<Rightarrow> bool" where
  "tracked sv k \<longleftrightarrow> dget (sv_trackers sv) k \<noteq> None"

definition service_ok :: "'c service \<times> jobs \<Rightarrow> bool" where
  "service_ok s \<longleftrightarrow> (case s of (sv, jobs) \<Rightarrow> tasks_ok (mm_tasks (sv_memory sv))
     \<and> (\<forall>tid. tracked sv tid = working (jobs tid))
     \<and> (\<forall>tid t. MemoryState.get_task tid (sv_memory sv) = Some t \<longrightarrow> (\<exists>j. jobs tid = Some j \<and> task_fits j t))
     \<and> (\<forall>tid j. jobs tid = Some j \<longrightarrow> job_fits j))"

lemma node_rises_bounds: "node_rises m tr = Some p \<Longrightarrow> 27 \<le> p \<and> p \<le> 97"
proof -
  assume "node_rises m tr = Some p"
  then obtain x where x: "map_of node_progress_map m = Some x" "p = \<lfloor>x\<rfloor>" by (auto simp: node_rises_def split: option.splits if_splits)
  then have "(m, x) \<in> set node_progress_map" by (simp add: map_of_SomeD)
  then have "27 \<le> x \<and> x \<le> 97" by (auto simp: node_progress_map_def)
  then show ?thesis using x(2) by (simp add: le_floor_iff floor_le_iff)
qed

lemma from_events_fits: "list_all from_events evs \<Longrightarrow> list_all action_fits (thread_actions evs)"
proof -
  have "from_events a \<Longrightarrow> action_fits a" for a by (cases a) auto
  then show "list_all from_events evs \<Longrightarrow> ?thesis" by (auto simp: thread_actions_def list_all_iff)
qed

lemma write_memory_tasks [flow_simps]: "mm_tasks (sv_memory (write_memory tid u now sv)) =
   mm_tasks (snd (MemoryState.update_task_status tid u now True (sv_memory sv)))"
  by (simp add: write_memory_def)

lemma tasks_ok_write: "tasks_ok (mm_tasks (sv_memory sv)) \<Longrightarrow> tasks_ok (mm_tasks (sv_memory (write_memory tid u now sv)))"
  unfolding flow_simps by (rule tasks_ok_update) (rule surjective_pairing)

text \<open>What an operation on one task leaves alone, and what it does to the task.\<close>

definition only_task :: "string \<Rightarrow> (task_state \<Rightarrow> task_state) \<Rightarrow> 'c service \<Rightarrow> 'c service \<Rightarrow> bool" where
  "only_task tid f sv sv' \<longleftrightarrow> (tasks_ok (mm_tasks (sv_memory sv)) \<longrightarrow> tasks_ok (mm_tasks (sv_memory sv')))
     \<and> (\<forall>k. MemoryState.get_task k (sv_memory sv') = (if k = tid then map_option f (MemoryState.get_task tid (sv_memory sv))
          else MemoryState.get_task k (sv_memory sv)))"

lemma only_task_refl: "sv_memory sv' = sv_memory sv \<Longrightarrow> only_task tid (\<lambda>t. t) sv sv'"
  by (auto simp: only_task_def option.map_ident)

lemma only_task_trans: "only_task tid f sv sv1 \<Longrightarrow> only_task tid g sv1 sv2 \<Longrightarrow> only_task tid (g \<circ> f) sv sv2"
  by (auto simp: only_task_def option.map_comp)

lemma only_task_write: "only_task tid (apply_update u now) sv (write_memory tid u now sv)"
  by (simp add: only_task_def tasks_ok_write) (simp add: flow_simps)

lemma tracked_simps [flow_simps]:
  "tracked (write_tracker tid f sv) k = tracked sv k"
  "tracked (end_run tid sv) k = (k \<noteq> tid \<and> tracked sv k)"
  "tracked (write_doc K tid g sv) k = tracked sv k"
  "tracked (write_memory tid u now sv) k = tracked sv k"
  "tracked (sv\<lparr>sv_docs := c\<rparr>) k = tracked sv k"
  by (auto simp: tracked_def flow_simps)

lemma only_task_chain:
  assumes "only_task tid f sv sv1"
  shows "only_task tid f sv (write_doc K i g sv1)" "only_task tid f sv (write_tracker i h sv1)"
    "only_task tid f sv (end_run i sv1)" "only_task tid (apply_update u now \<circ> f) sv (write_memory tid u now sv1)"
  using assms only_task_trans [OF assms only_task_write] by (simp_all add: only_task_def flow_simps)

lemmas only_task_start = only_task_chain [OF only_task_refl [OF refl]]

lemma reject_task: "only_task tid (apply_update (failed_update (TsForeign AsFailed) None None err) (tm_memory t)) sv
   (reject_invalid K tid err t sv)"
  unfolding reject_invalid_def by (rule only_task_chain(1) [OF only_task_write])

lemma failure_task: "only_task tid (apply_update (failed_update TsFailed (Some msg) (Some (ustr_of ''failed'')) err) (tm_memory t)) sv
   (on_failure K tid msg err t sv)"
  unfolding on_failure_def
  using only_task_chain(4) [OF only_task_start(2)] by (intro only_task_chain(1)) (simp add: comp_def)

lemma complete_task: "only_task tid (apply_update \<lparr>up_status = TsCompleted, up_progress = Some 100, up_message = Some txt_done,
   up_step = Some (ustr_of ''completed''), up_result = Some res, up_error = None\<rparr> (tm_memory t)) sv (complete_run K tid res t sv)"
  unfolding complete_run_def
  using only_task_chain(4) [OF only_task_start(2)] by (intro only_task_chain(1)) (simp add: comp_def)

lemma mark_failed_task: "\<exists>u. only_task tid (apply_update u (tm_memory t)) sv (mark_task_as_failed K tid t sv)
   \<and> up_status u = TsFailed \<and> up_progress u = None \<and> up_result u = None \<and> up_error u \<noteq> None"
  unfolding mark_task_as_failed_def
  by (rule exI, rule conjI, rule only_task_chain(1) [OF only_task_write]) simp

lemma apply_update_fields [flow_simps]:
  "tk_status (apply_update u now t) = up_status u"
  "tk_progress (apply_update u now t) = upd_opt (up_progress u) (tk_progress t)"
  "tk_result_data (apply_update u now t) = (case up_result u of None \<Rightarrow> tk_result_data t | Some r \<Rightarrow> Some r)"
  "tk_error_message (apply_update u now t) = (case up_error u of None \<Rightarrow> tk_error_message t | Some e \<Rightarrow> Some e)"
  by (simp_all add: apply_update_def stop_clock_def Let_def)

lemma sync_task:
  "only_task tid (apply_update (running_update p msg step) (tm_memory t)) sv (sync_action K tid p msg step t sv)"
  unfolding sync_action_def
  using only_task_chain(4) [OF only_task_start(2)] by (intro only_task_chain(1)) (simp add: comp_def)

lemma running_fits: "0 \<le> p \<Longrightarrow> p \<le> 97 \<Longrightarrow> tk_result_data t = None \<Longrightarrow> task_fits (Working as) (apply_update (running_update p m st) now t)"
  by (simp add: flow_simps running_update_def upd_opt_def)

lemma tracker_task: "only_task tid (\<lambda>t. t) sv (write_tracker i h sv)"
  by (rule only_task_start(2))

lemma action_task:
  assumes "action_fits a"
  shows "\<exists>f. only_task tid f sv (do_action K tid t a sv) \<and> (\<forall>x. task_fits (Working as) x \<longrightarrow> task_fits (Working bs) (f x))"
proof (cases a)
  case (Sync p m st)
  then show ?thesis using assms sync_task [of tid p m st t sv K] running_fits [of p _ bs m st] by fastforce
next
  case (Simulated m)
  then show ?thesis using tracker_task by fastforce
next
  case (Node m)
  show ?thesis
  proof (cases "dget (sv_trackers sv) tid")
    case None
    then show ?thesis using Node only_task_refl [OF refl] by (fastforce simp: node_action_def)
  next
    case (Some tr)
    let ?sv1 = "write_tracker tid (graph_progress_callback (tm_clock t) m) sv"
    show ?thesis
    proof (cases "node_rises m tr")
      case None
      then show ?thesis using Node Some tracker_task by (fastforce simp: node_action_def Let_def)
    next
      case p: (Some p)
      obtain ok docs where w: "t_set K tid (set_progress p m m (tm_doc t)) (sv_docs ?sv1) = (ok, docs)" by fastforce
      have o: "only_task tid (\<lambda>x. x) sv (?sv1\<lparr>sv_docs := docs\<rparr>)" by (rule only_task_refl) (simp add: flow_simps)
      have "only_task tid (apply_update (running_update p m m) (tm_memory t)) sv
          (write_memory tid (running_update p m m) (tm_memory t) (?sv1\<lparr>sv_docs := docs\<rparr>))"
        using only_task_chain(4) [OF o] by (simp add: comp_def)
      then show ?thesis using o Node Some p w running_fits [of p _ bs m m] node_rises_bounds [OF p]
        by (cases ok) (fastforce simp: node_action_def Let_def)+
    qed
  qed
qed

lemma action_tracked: "tracked (do_action K tid t a sv) k = tracked sv k"
  by (cases a) (auto simp: sync_action_def node_action_def Let_def flow_simps split: option.split prod.split)

section \<open>Every step keeps the invariant\<close>

lemma service_okD:
  assumes "service_ok (sv, jobs)"
  shows "tasks_ok (mm_tasks (sv_memory sv))" "tracked sv k = working (jobs k)"
    "MemoryState.get_task k (sv_memory sv) = Some t \<Longrightarrow> \<exists>j. jobs k = Some j \<and> task_fits j t"
    "jobs k = Some j \<Longrightarrow> job_fits j"
  using assms by (auto simp: service_ok_def)

lemma service_ok_task:
  assumes "service_ok (sv, jobs)" "jobs tid = Some j0" "only_task tid f sv sv'"
    and "\<And>t. task_fits j0 t \<Longrightarrow> task_fits j (f t)" "job_fits j"
    and "\<And>k. tracked sv' k = (if k = tid then working (Some j) else tracked sv k)"
  shows "service_ok (sv', jobs(tid \<mapsto> j))"
proof -
  have "\<exists>j'. (jobs(tid \<mapsto> j)) k = Some j' \<and> task_fits j' t" if "MemoryState.get_task k (sv_memory sv') = Some t" for k t
    using that assms(2-4) service_okD(3) [OF assms(1), of k] by (auto simp: only_task_def split: if_splits)
  then show ?thesis using assms service_okD(1,2,4) [OF assms(1)]
    by (auto simp: service_ok_def only_task_def)
qed

lemma service_ok_same:
  assumes "service_ok (sv, jobs)" "only_task tid f sv sv'"
    and "\<And>j t. task_fits j t \<Longrightarrow> task_fits j (f t)" "\<And>k. tracked sv' k = tracked sv k"
  shows "service_ok (sv', jobs)"
proof -
  have "\<exists>j'. jobs k = Some j' \<and> task_fits j' t" if "MemoryState.get_task k (sv_memory sv') = Some t" for k t
    using that assms(2,3) service_okD(3) [OF assms(1), of k] by (fastforce simp: only_task_def split: if_splits)
  then show ?thesis using assms service_okD(1,2,4) [OF assms(1)]
    by (auto simp: service_ok_def only_task_def)
qed

lemma fits_no_result:
  "task_fits (Submitted q) t \<Longrightarrow> tk_result_data t = None" "task_fits (Working as) t \<Longrightarrow> tk_result_data t = None"
  by simp_all

lemma fail_step:
  assumes "service_ok (sv, jobs)" "jobs tid = Some j0" "\<And>t. task_fits j0 t \<Longrightarrow> tk_result_data t = None"
    "fail_run K tid msg err t sv = (sv', j)"
  shows "service_ok (sv', jobs(tid \<mapsto> j))"
proof (rule service_ok_task [OF assms(1,2)])
  show "only_task tid (apply_update (failed_update TsFailed (Some msg) (Some (ustr_of ''failed'')) err) (tm_memory t)) sv sv'"
    using assms(4) only_task_chain(3) [OF failure_task] by (auto simp: fail_run_def)
  show "task_fits j (apply_update (failed_update TsFailed (Some msg) (Some (ustr_of ''failed'')) err) (tm_memory t) x)"
    if "task_fits j0 x" for x
    using that assms(3,4) by (auto simp: fail_run_def flow_simps failed_update_def upd_opt_def)
  show "tracked sv' k = (if k = tid then working (Some j) else tracked sv k)" for k
    using assms(4) by (auto simp: fail_run_def on_failure_def flow_simps)
qed (use assms(4) in \<open>auto simp: fail_run_def\<close>)

lemma start_task:
  "\<exists>f. only_task tid f sv (start_run K tid p t sv) \<and> (\<forall>x. tk_result_data x = None \<longrightarrow> task_fits (Working as) (f x))"
proof -
  define sv1 where "sv1 = sv\<lparr>sv_trackers := dset tid (tracker_of p (tm_clock t)) (sv_trackers sv)\<rparr>"
  have "only_task tid (\<lambda>t. t) sv sv1" by (rule only_task_refl) (simp add: sv1_def)
  note o = only_task_chain [OF this]
  have f: "task_fits (Working as) ((apply_update (running_update 20 m st) n \<circ> g) x)" if "tk_result_data (g x) = None" for m st n g x
    using that by (simp add: flow_simps running_update_def upd_opt_def)
  show ?thesis unfolding start_run_def Let_def sv1_def [symmetric]
    by (rule exI, rule conjI, rule only_task_chain(1), rule only_task_chain(4), rule only_task_chain(2), rule only_task_chain(1),
        rule only_task_chain(4), rule o(2), intro allI impI, rule f) (simp add: flow_simps running_update_def)
qed

lemma start_tracked: "tracked (start_run K tid p t sv) k = (k = tid \<or> tracked sv k)"
  by (simp add: start_run_def Let_def flow_simps) (simp add: tracked_def dict_simps)

lemma validated_step:
  assumes "service_ok (sv, jobs)" "jobs tid = Some (Submitted q)" "list_all from_events evs"
    "run_validated K tid q v evs t sv = (sv', j)"
  shows "service_ok (sv', jobs(tid \<mapsto> j))"
proof -
  note fail = fail_step [OF assms(1,2) fits_no_result(1)]
  show ?thesis
  proof (cases v)
    case (VdInvalid e h)
    show ?thesis
    proof (rule service_ok_task [OF assms(1,2)])
      show "only_task tid (apply_update (failed_update (TsForeign AsFailed) None None (invalid_text e h)) (tm_memory t)) sv sv'"
        using assms(4) VdInvalid only_task_chain(3) [OF reject_task] by (auto simp: run_validated_def)
    qed (use assms(4) VdInvalid in \<open>auto simp: run_validated_def reject_invalid_def flow_simps failed_update_def upd_opt_def\<close>)
  next
    case VdValid
    show ?thesis
    proof (cases "aq_params q")
      case None
      then show ?thesis using fail assms(4) VdValid by (auto simp: run_validated_def)
    next
      case (Some p)
      obtain f where f: "only_task tid f sv (start_run K tid p t sv)"
        "\<And>x. tk_result_data x = None \<Longrightarrow> task_fits (Working (thread_actions evs)) (f x)"
        using start_task [of tid sv K p t "thread_actions evs"] by blast
      have r: "sv' = start_run K tid p t sv" "j = Working (thread_actions evs)"
        using assms(4) VdValid Some by (auto simp: run_validated_def)
      show ?thesis unfolding r
        by (rule service_ok_task [OF assms(1,2) f(1)])
           (use f(2) from_events_fits [OF assms(3)] in \<open>auto simp: start_tracked\<close>)
    qed
  qed (use fail assms(4) in \<open>auto simp: run_validated_def\<close>)
qed

lemma create_step:
  assumes "service_ok (sv, jobs)" "create_analysis_task K lookup tid uid q t1 t2 sv = (Inr i, sv')"
    "jobs tid = None"
  shows "service_ok (sv', jobs(tid \<mapsto> Submitted q))"
proof -
  obtain name names t m where c: "resolve_stock_name lookup (get_symbol q) (sv_names sv) = (name, names)"
    "MemoryState.create_task tid uid (get_symbol q) (Some (case aq_params q of Some p \<Rightarrow> params_dump p | None \<Rightarrow> []))
       (Some name) t1 (sv_memory sv) = Inr (t, m)"
    and sv': "sv_memory sv' = m" "sv_trackers sv' = sv_trackers sv"
    using assms(2) by (auto simp: create_analysis_task_def Let_def split: if_splits prod.splits sum.splits)
  have ok: "tasks_ok (mm_tasks m)" using tasks_ok_create [OF c(2) service_okD(1) [OF assms(1)]] .
  have t: "tk_status t = TsPending" "tk_progress t = 0" "tk_result_data t = None" "mm_tasks m = dset tid t (mm_tasks (sv_memory sv))"
    using c(2) by (auto simp: MemoryState.create_task_def Let_def split: sum.splits)
  have g: "MemoryState.get_task k m = (if k = tid then Some t else MemoryState.get_task k (sv_memory sv))" for k
    by (simp add: MemoryState.get_task_def t(4) dict_simps)
  have "\<exists>j. (jobs(tid \<mapsto> Submitted q)) k = Some j \<and> task_fits j u" if "MemoryState.get_task k m = Some u" for k u
    using that service_okD(3) [OF assms(1), of k u] t by (auto simp: g split: if_splits)
  moreover have "tracked sv' k = working ((jobs(tid \<mapsto> Submitted q)) k)" for k
    using service_okD(2) [OF assms(1), of k] assms(3) sv'(2) by (auto simp: tracked_def)
  ultimately show ?thesis using ok sv' service_okD(4) [OF assms(1)] by (auto simp: service_ok_def)
qed

lemma create_fails_same:
  assumes "create_analysis_task K lookup tid uid q t1 t2 sv = (Inl e, sv')"
  shows "sv_memory sv' = sv_memory sv" "sv_trackers sv' = sv_trackers sv" "sv_docs sv' = sv_docs sv"
  using assms by (auto simp: create_analysis_task_def Let_def split: if_splits prod.splits sum.splits)

text \<open>A step that keeps, drops or fails pending and running tasks of memory.\<close>

lemma service_ok_cleaned:
  assumes "service_ok (sv, jobs)" "sv_trackers sv' = sv_trackers sv"
    and "tasks_ok (mm_tasks (sv_memory sv'))"
    and "\<And>k u. MemoryState.get_task k (sv_memory sv') = Some u \<Longrightarrow> (\<exists>t. MemoryState.get_task k (sv_memory sv) = Some t
      \<and> (u = t \<or> tk_status t \<in> {TsRunning, TsPending} \<and> tk_status u = TsFailed \<and> tk_progress u = 0
         \<and> tk_result_data u = tk_result_data t))"
  shows "service_ok (sv', jobs)"
proof -
  have "\<exists>j. jobs k = Some j \<and> task_fits j u" if u: "MemoryState.get_task k (sv_memory sv') = Some u" for k u
  proof -
    obtain t where t: "MemoryState.get_task k (sv_memory sv) = Some t" "u = t \<or> tk_status t \<in> {TsRunning, TsPending}
        \<and> tk_status u = TsFailed \<and> tk_progress u = 0 \<and> tk_result_data u = tk_result_data t"
      using assms(4) [OF u] by blast
    obtain j where j: "jobs k = Some j" "task_fits j t" using service_okD(3) [OF assms(1) t(1)] by blast
    have "task_fits j u" using j(2) t(2) by (cases "(j, t)" rule: task_fits.cases) auto
    with j(1) show ?thesis by blast
  qed
  then show ?thesis using assms(2,3) service_okD(2,4) [OF assms(1)] by (auto simp: service_ok_def tracked_def)
qed

lemma cleanup_steps:
  assumes "service_ok (sv, jobs)"
  shows "service_ok (sv\<lparr>sv_memory := snd (cleanup_old_tasks utc now h (sv_memory sv))\<rparr>, jobs)"
    and "service_ok (sv\<lparr>sv_memory := snd (cleanup_zombie_tasks utc now ends h (sv_memory sv))\<rparr>, jobs)"
    and "service_ok (delete_analysis_task K tid sv, jobs)"
proof -
  note ok = service_okD(1) [OF assms]
  then have d: "distinct (dkeys (mm_tasks (sv_memory sv)))" by (simp add: tasks_ok_def)
  show "service_ok (sv\<lparr>sv_memory := snd (cleanup_old_tasks utc now h (sv_memory sv))\<rparr>, jobs)"
    by (rule service_ok_cleaned [OF assms])
       (auto simp: cleanup_old_get [OF d] split: option.splits if_splits,
        auto simp: cleanup_old_tasks_def Let_def intro: tasks_ok_ddels [OF ok])
  show "service_ok (sv\<lparr>sv_memory := snd (cleanup_zombie_tasks utc now ends h (sv_memory sv))\<rparr>, jobs)"
    by (rule service_ok_cleaned [OF assms])
       (auto simp: cleanup_zombie_get [OF d] stop_clock_def split: option.splits if_splits,
        auto simp: cleanup_zombie_tasks_def Let_def intro: tasks_ok_kills [OF ok])
  show "service_ok (delete_analysis_task K tid sv, jobs)"
    by (rule service_ok_cleaned [OF assms])
       (auto simp: delete_analysis_task_def MemoryState.remove_task_def MemoryState.get_task_def dict_simps
         intro: tasks_ok_ddel [OF ok] ok split: if_splits)
qed

lemma mark_failed_step:
  assumes "service_ok (sv, jobs)"
  shows "service_ok (mark_task_as_failed K tid t sv, jobs)"
proof -
  obtain u where u: "only_task tid (apply_update u (tm_memory t)) sv (mark_task_as_failed K tid t sv)"
    "up_status u = TsFailed" "up_progress u = None" "up_result u = None" "up_error u \<noteq> None"
    using mark_failed_task [of tid t sv K] by blast
  show ?thesis
  proof (rule service_ok_same [OF assms u(1)])
    show "task_fits j (apply_update u (tm_memory t) x)" if "task_fits j x" for j x
      using that u(2-5) by (cases "(j, x)" rule: task_fits.cases) (auto simp: flow_simps upd_opt_def)
  qed (simp add: mark_task_as_failed_def flow_simps)
qed

lemma action_step:
  assumes "service_ok (sv, jobs)" "jobs tid = Some (Working (a # as))"
  shows "service_ok (do_action K tid t a sv, jobs(tid \<mapsto> Working as))"
proof -
  have a: "action_fits a" "list_all action_fits as" using service_okD(4) [OF assms] by simp_all
  obtain f where f: "only_task tid f sv (do_action K tid t a sv)"
    "\<And>x. task_fits (Working (a # as)) x \<Longrightarrow> task_fits (Working as) (f x)"
    using action_task [OF a(1), of tid sv K t "a # as" as] by blast
  show ?thesis
    by (rule service_ok_task [OF assms f(1)])
       (use f(2) a(2) service_okD(2) [OF assms(1)] assms(2) in \<open>auto simp: action_tracked\<close>)
qed

lemma ended_step:
  assumes "service_ok (sv, jobs)" "jobs tid = Some (Working as)" "run_ended K tid x t sv = (sv', j)"
  shows "service_ok (sv', jobs(tid \<mapsto> j))"
proof (cases x)
  case (Inl e)
  then show ?thesis using assms(3) fail_step [OF assms(1,2) fits_no_result(2)] by (auto simp: run_ended_def)
next
  case (Inr res)
  then have r: "sv' = end_run tid (complete_run K tid res t sv)" "j = Ended (Inr res)" using assms(3) by (auto simp: run_ended_def)
  show ?thesis unfolding r
    by (rule service_ok_task [OF assms(1,2) only_task_chain(3) [OF complete_task]])
       (auto simp: flow_simps complete_run_def upd_opt_def)
qed

lemma fresh_service_ok: "service_ok (fresh_service c, Map.empty)"
  by (simp add: service_ok_def fresh_service_def tasks_ok_def empty_manager_def set_websocket_manager_def tracked_def
      MemoryState.get_task_def)

lemma service_ok_step: "service_step K s s' \<Longrightarrow> service_ok s \<Longrightarrow> service_ok s'"
proof (induction rule: service_step.induct)
  case (create_fails lookup tid uid q t1 t2 sv e sv' jobs)
  then show ?case using create_fails_same [OF create_fails.hyps] by (simp add: service_ok_def tracked_def)
qed (auto intro: create_step validated_step action_step ended_step mark_failed_step cleanup_steps)

lemma reachable_service_ok: "service_reachable K s \<Longrightarrow> service_ok s"
  by (induction rule: service_reachable.induct) (auto intro: fresh_service_ok service_ok_step)

text \<open>
  C5: Whatever requests, runs, failures of MongoDB and cleanups are interleaved: exactly the running
  analyses have a progress tracker, so none is left behind; every task in memory belongs to a
  submitted analysis and has the state, the progress and the result of its phase; and a task is
  reported completed only after its thread has returned, with its result and at 100 percent.
\<close>

theorem task_life:
  assumes "service_reachable K (sv, jobs)"
  shows "(\<forall>tid. dget (sv_trackers sv) tid \<noteq> None \<longleftrightarrow> (\<exists>as. jobs tid = Some (Working as)))
    \<and> (\<forall>tid t. MemoryState.get_task tid (sv_memory sv) = Some t \<longrightarrow> (\<exists>j. jobs tid = Some j \<and> task_fits j t)
        \<and> (tk_status t = TsCompleted \<longrightarrow> (\<exists>res. jobs tid = Some (Ended (Inr res)) \<and> tk_result_data t = Some res
             \<and> tk_progress t = 100)))"
proof -
  have ok: "service_ok (sv, jobs)" by (rule reachable_service_ok [OF assms])
  have w: "working (jobs tid) \<longleftrightarrow> (\<exists>as. jobs tid = Some (Working as))" for tid by (cases "jobs tid" rule: working.cases) auto
  have c: "\<exists>res. j = Ended (Inr res) \<and> tk_result_data t = Some res \<and> tk_progress t = 100"
    if "task_fits j t" "tk_status t = TsCompleted" for j t
    using that by (cases "(j, t)" rule: task_fits.cases) auto
  show ?thesis using service_okD(2,3) [OF ok] w c unfolding tracked_def by blast
qed

section \<open>Memory and MongoDB agree on ended runs\<close>

text \<open>Every operation on the collection answers, with its documented effect.\<close>

definition answering :: "'c task_coll \<Rightarrow> bool" where
  "answering K \<longleftrightarrow> (\<forall>c k d i g.
     fst (t_insert K d c) \<and> fst (t_set K i g c) \<and> fst (t_delete K i c)
     \<and> t_find K k (snd (t_insert K d c)) = (if k = ad_task_id d \<and> t_find K k c = None then Some d else t_find K k c)
     \<and> t_find K k (snd (t_set K i g c)) = (if k = i then map_option g (t_find K i c) else t_find K k c)
     \<and> t_find K k (snd (t_delete K i c)) = (if k = i then None else t_find K k c))"

definition only_doc :: "'c task_coll \<Rightarrow> string \<Rightarrow> (task_doc \<Rightarrow> task_doc) \<Rightarrow> 'c service \<Rightarrow> 'c service \<Rightarrow> bool" where
  "only_doc K tid g sv sv' \<longleftrightarrow> (\<forall>k. t_find K k (sv_docs sv') = (if k = tid then map_option g (t_find K tid (sv_docs sv))
     else t_find K k (sv_docs sv)))"

lemma only_doc_refl: "sv_docs sv' = sv_docs sv \<Longrightarrow> only_doc K tid (\<lambda>d. d) sv sv'"
  by (auto simp: only_doc_def option.map_ident)

lemma only_doc_chain:
  assumes "answering K" "only_doc K tid f sv sv1"
  shows "only_doc K tid (g \<circ> f) sv (write_doc K tid g sv1)" "only_doc K tid f sv (write_tracker i h sv1)"
    "only_doc K tid f sv (end_run i sv1)" "only_doc K tid f sv (write_memory i u now sv1)"
  using assms by (auto simp: only_doc_def write_doc_def write_tracker_def end_run_def write_memory_def answering_def option.map_comp)

text \<open>What a document holds by the phase of the run, and that it agrees with memory on an ended run.\<close>

fun doc_fits :: "job \<Rightarrow> task_doc \<Rightarrow> bool" where
  "doc_fits (Submitted q) d \<longleftrightarrow> ad_status d \<in> {''pending'', ''failed''}"
| "doc_fits (Working as) d \<longleftrightarrow> ad_status d \<in> {''processing'', ''failed''}"
| "doc_fits (Ended (Inl e)) d \<longleftrightarrow> ad_status d = ''failed''"
| "doc_fits (Ended (Inr res)) d \<longleftrightarrow> ad_status d \<in> {''completed'', ''failed''}"

fun agrees :: "job \<Rightarrow> task_state \<Rightarrow> task_doc \<Rightarrow> bool" where
  "agrees (Ended x) t d \<longleftrightarrow> ad_status d = status_value (tk_status t) \<and> (ad_status d = ''failed'' \<longrightarrow> ad_error d = tk_error_message t)"
| "agrees (Submitted q) t d \<longleftrightarrow> True"
| "agrees (Working as) t d \<longleftrightarrow> True"

definition docs_ok :: "'c task_coll \<Rightarrow> 'c service \<times> jobs \<Rightarrow> bool" where
  "docs_ok K s \<longleftrightarrow> (case s of (sv, jobs) \<Rightarrow> \<forall>k j d. jobs k = Some j \<and> t_find K k (sv_docs sv) = Some d \<longrightarrow> doc_fits j d
     \<and> (\<forall>t. MemoryState.get_task k (sv_memory sv) = Some t \<longrightarrow> agrees j t d))"

lemma docs_ok_task:
  assumes "docs_ok K (sv, jobs)" "only_task tid f sv sv'" "only_doc K tid g sv sv'" "jobs tid = Some j0"
    and "\<And>d. doc_fits j0 d \<Longrightarrow> doc_fits j (g d)"
    and "\<And>t d. agrees j0 t d \<Longrightarrow> agrees j (f t) (g d)"
  shows "docs_ok K (sv', jobs(tid \<mapsto> j))"
  using assms unfolding docs_ok_def only_task_def only_doc_def by (auto split: if_splits)

lemma docs_ok_same:
  assumes "docs_ok K (sv, jobs)" "only_task tid f sv sv'" "only_doc K tid g sv sv'"
    and "\<And>j d. doc_fits j d \<Longrightarrow> doc_fits j (g d)"
    and "\<And>j t d. agrees j t d \<Longrightarrow> agrees j (f t) (g d)"
  shows "docs_ok K (sv', jobs)"
  using assms unfolding docs_ok_def only_task_def only_doc_def by (auto split: if_splits)

lemmas only_doc_start = only_doc_chain [OF _ only_doc_refl [OF refl]]

lemma status_doc: "ad_status (set_status st p err now d) = analysis_value st"
  "ad_error (set_status AsFailed p err now d) = err"
  by (simp_all add: set_status_def Let_def)

lemma progress_doc: "ad_status (set_progress p st m now d) = ad_status d" "ad_error (set_progress p st m now d) = ad_error d"
  by (simp_all add: set_progress_def)

lemma failure_doc:
  assumes "answering K"
  shows "only_doc K tid (set_status AsFailed 0 (Some err) (tm_doc t)) sv (on_failure K tid msg err t sv)"
    and "only_doc K tid (set_status AsFailed 0 (Some err) (tm_doc t)) sv (reject_invalid K tid err t sv)"
    and "only_doc K tid (set_status AsCompleted 100 None (tm_doc t)) sv (complete_run K tid res t sv)"
  unfolding on_failure_def reject_invalid_def complete_run_def
  using only_doc_chain(1) [OF assms only_doc_chain(4) [OF assms only_doc_start(2) [OF assms]]]
    only_doc_chain(1) [OF assms only_doc_start(4) [OF assms]] by (simp_all add: comp_def)

lemma start_doc:
  assumes "answering K"
  shows "\<exists>g. only_doc K tid g sv (start_run K tid p t sv) \<and> (\<forall>d. ad_status (g d) = ''processing'')"
proof -
  define sv1 where "sv1 = sv\<lparr>sv_trackers := dset tid (tracker_of p (tm_clock t)) (sv_trackers sv)\<rparr>"
  have o: "only_doc K tid (\<lambda>d. d) sv sv1" by (rule only_doc_refl) (simp add: sv1_def)
  note c = only_doc_chain [OF assms]
  show ?thesis unfolding start_run_def Let_def sv1_def [symmetric]
    by (rule exI, rule conjI, rule c(1), rule c(4), rule c(2), rule c(1), rule c(4), rule c(2), rule o) (simp add: status_doc)
qed

lemma action_doc:
  assumes "answering K"
  shows "\<exists>g. only_doc K tid g sv (do_action K tid t a sv) \<and> (\<forall>d. ad_status (g d) = ad_status d)"
proof (cases a)
  case (Sync p m st)
  have "only_doc K tid (set_progress p st m (tm_doc t)) sv (sync_action K tid p m st t sv)"
    unfolding sync_action_def
    using only_doc_chain(1) [OF assms only_doc_chain(4) [OF assms only_doc_start(2) [OF assms]]] by (simp add: comp_def)
  then show ?thesis using Sync progress_doc by fastforce
next
  case (Simulated m)
  then show ?thesis using only_doc_start(2) [OF assms] by fastforce
next
  case (Node m)
  show ?thesis
  proof (cases "dget (sv_trackers sv) tid")
    case None
    then show ?thesis using Node only_doc_refl [OF refl] by (fastforce simp: node_action_def)
  next
    case (Some tr)
    let ?sv1 = "write_tracker tid (graph_progress_callback (tm_clock t) m) sv"
    show ?thesis
    proof (cases "node_rises m tr")
      case None
      then show ?thesis using Node Some only_doc_start(2) [OF assms] by (fastforce simp: node_action_def Let_def)
    next
      case p: (Some p)
      let ?g = "set_progress p m m (tm_doc t)"
      have "only_doc K tid ?g sv (write_doc K tid ?g ?sv1)"
        using only_doc_chain(1) [OF assms only_doc_start(2) [OF assms]] by (simp add: comp_def)
      from only_doc_chain(4) [OF assms this] have
        "only_doc K tid ?g sv (write_memory tid (running_update p m m) (tm_memory t) (write_doc K tid ?g ?sv1))" .
      moreover have "fst (t_set K tid ?g (sv_docs ?sv1))" using assms by (simp add: answering_def)
      then have "do_action K tid t a sv = write_memory tid (running_update p m m) (tm_memory t) (write_doc K tid ?g ?sv1)"
        by (cases "t_set K tid ?g (sv_docs ?sv1)") (simp add: Node node_action_def Some p Let_def write_doc_def)
      ultimately show ?thesis using progress_doc(1) by auto
    qed
  qed
qed

lemma docs_ok_fail:
  assumes "docs_ok K (sv, jobs)" "answering K" "jobs tid = Some j0" "fail_run K tid msg err t sv = (sv', j)"
  shows "docs_ok K (sv', jobs(tid \<mapsto> j))"
proof -
  have r: "sv' = end_run tid (on_failure K tid msg err t sv)" "j = Ended (Inl err)" using assms(4) by (auto simp: fail_run_def)
  note d = only_doc_chain(3) [OF assms(2) failure_doc(1) [OF assms(2)]]
  show ?thesis unfolding r
    by (rule docs_ok_task [OF assms(1) only_task_chain(3) [OF failure_task] d assms(3)])
       (simp_all add: status_doc flow_simps failed_update_def)
qed

lemma docs_ok_reject:
  assumes "docs_ok K (sv, jobs)" "answering K" "jobs tid = Some j0"
  shows "docs_ok K (end_run tid (reject_invalid K tid err t sv), jobs(tid \<mapsto> Ended (Inl err)))"
proof -
  note d = only_doc_chain(3) [OF assms(2) failure_doc(2) [OF assms(2)]]
  show ?thesis
    by (rule docs_ok_task [OF assms(1) only_task_chain(3) [OF reject_task] d assms(3)])
       (simp_all add: status_doc flow_simps failed_update_def)
qed

lemma docs_ok_ended:
  assumes "docs_ok K (sv, jobs)" "answering K" "jobs tid = Some j0" "run_ended K tid x t sv = (sv', j)"
  shows "docs_ok K (sv', jobs(tid \<mapsto> j))"
proof (cases x)
  case (Inl e)
  then show ?thesis using docs_ok_fail [OF assms(1-3)] assms(4) by (simp add: run_ended_def)
next
  case (Inr res)
  then have r: "sv' = end_run tid (complete_run K tid res t sv)" "j = Ended (Inr res)" using assms(4) by (auto simp: run_ended_def)
  note d = only_doc_chain(3) [OF assms(2) failure_doc(3) [OF assms(2)]]
  show ?thesis unfolding r
    by (rule docs_ok_task [OF assms(1) only_task_chain(3) [OF complete_task] d assms(3)]) (simp_all add: status_doc flow_simps)
qed

lemma docs_ok_validated:
  assumes "docs_ok K (sv, jobs)" "answering K" "jobs tid = Some (Submitted q)" "run_validated K tid q v evs t sv = (sv', j)"
  shows "docs_ok K (sv', jobs(tid \<mapsto> j))"
proof -
  note fail = docs_ok_fail [OF assms(1-3)] and reject = docs_ok_reject [OF assms(1-3)]
  have start: "docs_ok K (start_run K tid p t sv, jobs(tid \<mapsto> Working as))" for p as
  proof -
    obtain f where f: "only_task tid f sv (start_run K tid p t sv)" using start_task [of tid sv K p t as] by blast
    obtain g where g: "only_doc K tid g sv (start_run K tid p t sv)" "\<forall>d. ad_status (g d) = ''processing''"
      using start_doc [OF assms(2), of tid sv p t] by blast
    show ?thesis by (rule docs_ok_task [OF assms(1) f g(1) assms(3)]) (simp_all add: g(2))
  qed
  show ?thesis using assms(4) start fail reject
    by (cases v) (auto simp: run_validated_def split: option.splits)
qed

lemma docs_ok_action:
  assumes "docs_ok K (sv, jobs)" "answering K" "service_ok (sv, jobs)" "jobs tid = Some (Working (a # as))"
  shows "docs_ok K (do_action K tid t a sv, jobs(tid \<mapsto> Working as))"
proof -
  have "action_fits a" using service_okD(4) [OF assms(3,4)] by simp
  from action_task [OF this] obtain f where f: "only_task tid f sv (do_action K tid t a sv)" by blast
  obtain g where g: "only_doc K tid g sv (do_action K tid t a sv)" "\<forall>d. ad_status (g d) = ad_status d"
    using action_doc [OF assms(2)] by blast
  show ?thesis by (rule docs_ok_task [OF assms(1) f g(1) assms(4)]) (simp_all add: g(2))
qed

lemma docs_ok_mark_failed:
  assumes "docs_ok K (sv, jobs)" "answering K"
  shows "docs_ok K (mark_task_as_failed K tid t sv, jobs)"
proof -
  define err :: ustr where "err = [29992, 25143, 25163, 21160, 26631, 35760, 20026, 22833, 36133]"
  define u where "u = \<lparr>up_status = TsFailed, up_progress = None, up_message = Some [25163, 21160, 26631, 35760, 20026, 22833, 36133],
     up_step = None, up_result = None, up_error = Some err\<rparr>"
  define g where "g = (\<lambda>d::task_doc. d\<lparr>ad_status := ''failed'', ad_error := Some err, ad_completed := Some (tm_doc t), ad_updated := Some (tm_doc t)\<rparr>)"
  have m: "mark_task_as_failed K tid t sv = write_doc K tid g (write_memory tid u (tm_memory t) sv)"
    by (simp add: mark_task_as_failed_def u_def g_def err_def)
  have d: "only_doc K tid g sv (mark_task_as_failed K tid t sv)"
    using only_doc_chain(1) [OF assms(2) only_doc_start(4) [OF assms(2)]] by (simp add: comp_def m)
  have f: "only_task tid (apply_update u (tm_memory t)) sv (mark_task_as_failed K tid t sv)"
    unfolding m by (rule only_task_chain(1) [OF only_task_write])
  have s: "ad_status (g x) = ''failed''" "ad_error (g x) = Some err" "tk_status (apply_update u n y) = TsFailed"
    "tk_error_message (apply_update u n y) = Some err" for x y n
    by (simp_all add: g_def u_def flow_simps)
  show ?thesis
  proof (rule docs_ok_same [OF assms(1) f d])
    show "doc_fits j (g x)" if "doc_fits j x" for j x using that s by (cases "(j, x)" rule: doc_fits.cases) auto
    show "agrees j (apply_update u (tm_memory t) y) (g x)" for j x y using s by (cases "(j, y, x)" rule: agrees.cases) auto
  qed
qed

lemma docs_ok_cleaned:
  assumes "docs_ok K (sv, jobs)" "service_ok (sv, jobs)"
    and "\<And>k d. t_find K k (sv_docs sv') = Some d \<Longrightarrow> t_find K k (sv_docs sv) = Some d"
    and "\<And>k u. MemoryState.get_task k (sv_memory sv') = Some u \<Longrightarrow> (\<exists>t. MemoryState.get_task k (sv_memory sv) = Some t
      \<and> (u = t \<or> tk_status t \<in> {TsRunning, TsPending}))"
  shows "docs_ok K (sv', jobs)"
proof -
  have "agrees j u d" if u: "MemoryState.get_task k (sv_memory sv') = Some u" "jobs k = Some j" "t_find K k (sv_docs sv') = Some d" for k u j d
  proof -
    obtain t where t: "MemoryState.get_task k (sv_memory sv) = Some t" "u = t \<or> tk_status t \<in> {TsRunning, TsPending}"
      using assms(4) [OF u(1)] by blast
    have a: "agrees j t d" using assms(1) t(1) u(2) assms(3) [OF u(3)] by (auto simp: docs_ok_def)
    have "task_fits j t" using service_okD(3) [OF assms(2) t(1)] u(2) by auto
    then show ?thesis using a t(2) by (cases "(j, t)" rule: task_fits.cases) auto
  qed
  moreover have "doc_fits j d" if "jobs k = Some j" "t_find K k (sv_docs sv') = Some d" for k j d
    using assms(1) assms(3) [OF that(2)] that(1) by (auto simp: docs_ok_def)
  ultimately show ?thesis by (auto simp: docs_ok_def)
qed

lemma docs_ok_create:
  assumes "docs_ok K (sv, jobs)" "answering K" "jobs tid = None" "t_find K tid (sv_docs sv) = None"
    "create_analysis_task K lookup tid uid q t1 t2 sv = (Inr i, sv')"
  shows "docs_ok K (sv', jobs(tid \<mapsto> Submitted q))"
proof -
  obtain name where d: "sv_docs sv' = snd (t_insert K (new_doc tid uid (get_symbol q) name t2) (sv_docs sv))"
    and m: "\<And>k. k \<noteq> tid \<Longrightarrow> MemoryState.get_task k (sv_memory sv') = MemoryState.get_task k (sv_memory sv)"
    using assms(5) by (auto simp: create_analysis_task_def Let_def MemoryState.create_task_def MemoryState.get_task_def dict_simps
      split: if_splits prod.splits sum.splits)
  have "t_find K k (sv_docs sv') = (if k = tid then Some (new_doc tid uid (get_symbol q) name t2) else t_find K k (sv_docs sv))" for k
    using assms(2,4) unfolding d by (simp add: answering_def new_doc_def)
  then show ?thesis using assms(1) m by (auto simp: docs_ok_def new_doc_def split: if_splits)
qed

lemma docs_ok_step: "service_step K s s' \<Longrightarrow> answering K \<Longrightarrow> service_ok s \<Longrightarrow> docs_ok K s \<Longrightarrow> docs_ok K s'"
proof (induction rule: service_step.induct)
  case (create_fails lookup tid uid q t1 t2 sv e sv' jobs)
  then show ?case using create_fails_same [OF create_fails.hyps] by (simp add: docs_ok_def)
next
  case (delete sv jobs tid)
  show ?case
    by (rule docs_ok_cleaned [OF delete(3,2)])
       (use delete(1) in \<open>auto simp: delete_analysis_task_def MemoryState.remove_task_def MemoryState.get_task_def answering_def
          dict_simps split: if_splits\<close>)
next
  case (clean_old sv jobs utc now h)
  have d: "distinct (dkeys (mm_tasks (sv_memory sv)))" using service_okD(1) [OF clean_old(2)] by (simp add: tasks_ok_def)
  show ?case by (rule docs_ok_cleaned [OF clean_old(3,2)]) (auto simp: cleanup_old_get [OF d] split: option.splits if_splits)
next
  case (clean_zombie sv jobs utc now ends h)
  have d: "distinct (dkeys (mm_tasks (sv_memory sv)))" using service_okD(1) [OF clean_zombie(2)] by (simp add: tasks_ok_def)
  show ?case by (rule docs_ok_cleaned [OF clean_zombie(3,2)]) (auto simp: cleanup_zombie_get [OF d] split: option.splits if_splits)
qed (auto intro: docs_ok_create docs_ok_validated docs_ok_action docs_ok_ended docs_ok_mark_failed)

lemma reachable_docs_ok: "service_reachable K s \<Longrightarrow> answering K \<Longrightarrow> docs_ok K s"
  by (induction rule: service_reachable.induct)
     (auto simp: docs_ok_def [of K "(fresh_service c, Map.empty)" for c] intro: docs_ok_step reachable_service_ok)

text \<open>
  With every handler as one step, memory and the document of a task agree on every run that has
  ended. \<open>AnalysisSteps\<close> takes the handlers apart.
\<close>

lemma handlers_agree:
  assumes "service_reachable K (sv, jobs)" "answering K" "jobs tid = Some j" "t_find K tid (sv_docs sv) = Some d"
  shows "doc_fits j d \<and> (\<forall>x t. j = Ended x \<and> MemoryState.get_task tid (sv_memory sv) = Some t
     \<longrightarrow> ad_status d = status_value (tk_status t) \<and> (ad_status d = ''failed'' \<longrightarrow> ad_error d = tk_error_message t))"
proof -
  have ok: "docs_ok K (sv, jobs)" by (rule reachable_docs_ok [OF assms(1,2)])
  then have "doc_fits j d" using assms(3,4) by (auto simp: docs_ok_def)
  moreover have "agrees j t d" if "MemoryState.get_task tid (sv_memory sv) = Some t" for t
    using ok assms(3,4) that by (auto simp: docs_ok_def)
  ultimately show ?thesis by fastforce
qed

section \<open>What the client of the pipeline sees\<close>

text \<open>
  The answer of the status route as the client reads it: the state, and the field \<open>error\<close>, which no
  answer of the route has (the error is in the field \<open>error_message\<close>).
\<close>

definition poll_answer :: "fetch_resp \<Rightarrow> (int, string) result \<Rightarrow> poll_resp" where
  "poll_answer f r = (case r of Inl code \<Rightarrow> PollHttp code
     | Inr st \<Rightarrow> PollStatus (if st = ''completed'' then AnsCompleted f else if st = ''failed'' then AnsFailed None else AnsOther st))"

text \<open>
  C9: A client that asks for a task while its run has ended and before its own timeout is answered:
  it reads the result if the run completed, and otherwise gives up with the general text that the
  analysis failed, because the error it looks for is in another field of the answer. Before that
  it goes on polling, unless the task was marked as failed.
\<close>

theorem client_sees_end:
  assumes "service_reachable K (sv, jobs)" "jobs tid = Some j" "MemoryState.get_task tid (sv_memory sv) = Some t"
    "po_elapsed r < of_int timeout" "po_resp r = poll_answer f (status_route K stored reported tid sv)"
  shows "case j of Ended x \<Rightarrow>
       poll_step c timeout r s = Inr (if tk_status t = TsCompleted then fetch_result c (po_elapsed r) f
         else failed_result c (po_elapsed r) (EText txt_analysis_failed)) \<and> (tk_status t = TsCompleted \<longrightarrow> is_ok x)
     | _ \<Rightarrow> tk_status t \<noteq> TsFailed \<longrightarrow> (\<exists>s'. poll_step c timeout r s = Inl s')"
proof -
  have ok: "service_ok (sv, jobs)" by (rule reachable_service_ok [OF assms(1)])
  have fits: "task_fits j t" using service_okD(3) [OF ok assms(3)] assms(2) by auto
  have w: "tracked sv tid = working (Some j)" using service_okD(2) [OF ok, of tid] assms(2) by simp
  have late: "\<not> of_int timeout \<le> po_elapsed r" using assms(4) by simp
  have route: "status_route K stored reported tid sv =
      (if \<not> stored tid \<and> working (Some j) then Inl 500 else Inr (status_value (tk_status t)))"
    using assms(3) w by (simp add: status_route_def tracked_def)
  show ?thesis using fits assms(5) late
    by (cases "(j, t)" rule: task_fits.cases)
       (auto simp: route poll_answer_def poll_step_def or_default_def is_ok_def)
qed

section \<open>A run that ends, and a run that is refused\<close>

text \<open>A collection kept as a dictionary answers.\<close>

definition dict_coll :: "(string, task_doc) dict task_coll" where
  "dict_coll = \<lparr>t_find = (\<lambda>k c. dget c k),
     t_insert = (\<lambda>d c. (True, if dget c (ad_task_id d) = None then dset (ad_task_id d) d c else c)),
     t_set = (\<lambda>k g c. (True, case dget c k of None \<Rightarrow> c | Some d \<Rightarrow> dset k (g d) c)),
     t_delete = (\<lambda>k c. (True, ddel k c))\<rparr>"

lemma dict_coll_answers: "answering dict_coll"
  by (auto simp: answering_def dict_coll_def dict_simps split: option.split)

definition ex_request :: analysis_request where
  "ex_request = \<lparr>aq_symbol = Some ''600519'', aq_stock_code = None,
     aq_params = Some \<lparr>ap_depth = [], ap_analysts = [], ap_other = []\<rparr>\<rparr>"

definition ex_times :: times where
  "ex_times = \<lparr>tm_memory = DateTime 10 (hms 9 0 0), tm_doc = DateTime 10 (hms 9 0 0), tm_clock = 0\<rparr>"

definition ex_submitted :: "(string, task_doc) dict service" where
  "ex_submitted = snd (create_analysis_task dict_coll (\<lambda>_. None) ''t1'' ''u1'' ex_request (tm_memory ex_times) (tm_doc ex_times)
     (fresh_service []))"

definition ex_working :: "(string, task_doc) dict service" where
  "ex_working = foldl (\<lambda>sv a. do_action dict_coll ''t1'' ex_times a sv)
     (fst (run_validated dict_coll ''t1'' ex_request VdValid [] ex_times ex_submitted)) (thread_actions [])"

definition ex_completed :: "(string, task_doc) dict service" where
  "ex_completed = fst (run_ended dict_coll ''t1'' (Inr []) ex_times ex_working)"

definition ex_refused :: "(string, task_doc) dict service" where
  "ex_refused = fst (run_validated dict_coll ''t1'' ex_request (VdInvalid [] []) [] ex_times ex_submitted)"

lemma ex_estimate: "\<exists>e. estimated_duration (params_dump \<lparr>ap_depth = [], ap_analysts = [], ap_other = []\<rparr>) = Inr e"
  by (simp add: params_dump_def estimated_duration_def k_depth_def k_analysts_def dget_default_def MemoryState.depth_level_def py_len_def ustr_of_def
      split: option.split)

lemma ex_create: "\<exists>sv d. create_analysis_task dict_coll (\<lambda>_. None) ''t1'' ''u1'' ex_request now later (fresh_service []) = (Inr ''t1'', sv)
   \<and> t_find dict_coll ''t1'' (sv_docs sv) = Some d \<and> (\<exists>t. MemoryState.get_task ''t1'' (sv_memory sv) = Some t)"
  using ex_estimate
  by (auto simp: create_analysis_task_def MemoryState.create_task_def MemoryState.get_task_def ex_request_def get_symbol_def
      or_default_def resolve_stock_name_def fresh_service_def empty_manager_def set_websocket_manager_def dict_coll_def
      dict_simps default_name_def new_doc_def Let_def)

lemma ex_submitted_reachable: "service_reachable dict_coll (ex_submitted, [''t1'' \<mapsto> Submitted ex_request])"
proof -
  have "service_step dict_coll (fresh_service [], Map.empty) (ex_submitted, [''t1'' \<mapsto> Submitted ex_request])"
    by (rule service_step.create [where lookup = "\<lambda>_. None" and uid = "''u1''" and now = "tm_memory ex_times" and later = "tm_doc ex_times" and i = "''t1''"])
       (use ex_create [of "tm_memory ex_times" "tm_doc ex_times"] in \<open>auto simp: ex_submitted_def fresh_service_def dict_coll_def\<close>)
  then show ?thesis by (rule service_reachable.step [OF service_reachable.start])
qed

lemma actions_reachable:
  assumes "service_reachable K (sv, jobs(tid \<mapsto> Working as))"
  shows "service_reachable K (foldl (\<lambda>sv a. do_action K tid t a sv) sv as, jobs(tid \<mapsto> Working []))"
  using assms
proof (induction as arbitrary: sv)
  case (Cons a as)
  have "service_step K (sv, jobs(tid \<mapsto> Working (a # as))) (do_action K tid t a sv, (jobs(tid \<mapsto> Working (a # as)))(tid \<mapsto> Working as))"
    by (rule service_step.action) simp
  then have "service_reachable K (do_action K tid t a sv, jobs(tid \<mapsto> Working as))"
    using service_reachable.step [OF Cons.prems, of "(do_action K tid t a sv, jobs(tid \<mapsto> Working as))"] by (simp only: fun_upd_upd)
  from Cons.IH [OF this] show ?case by simp
qed simp

lemma ex_completed_reachable: "service_reachable dict_coll (ex_completed, [''t1'' \<mapsto> Ended (Inr [])])"
proof -
  define sv where "sv = fst (run_validated dict_coll ''t1'' ex_request VdValid [] ex_times ex_submitted)"
  have "service_step dict_coll (ex_submitted, [''t1'' \<mapsto> Submitted ex_request])
      (sv, [''t1'' \<mapsto> Submitted ex_request](''t1'' \<mapsto> Working (thread_actions [])))"
    by (rule service_step.validated [where q = ex_request and v = VdValid and evs = "[]" and t = ex_times])
       (simp_all add: sv_def run_validated_def ex_request_def)
  from service_reachable.step [OF ex_submitted_reachable this]
  have "service_reachable dict_coll (sv, [''t1'' \<mapsto> Working (thread_actions [])])" by simp
  from actions_reachable [OF this] have w: "service_reachable dict_coll (ex_working, [''t1'' \<mapsto> Working []])"
    unfolding ex_working_def sv_def by simp
  have "service_step dict_coll (ex_working, [''t1'' \<mapsto> Working []]) (ex_completed, [''t1'' \<mapsto> Working []](''t1'' \<mapsto> Ended (Inr [])))"
    by (rule service_step.returned [where res = "[]" and t = ex_times]) (simp_all add: ex_completed_def run_ended_def)
  from service_reachable.step [OF w this] show ?thesis by simp
qed

lemma ex_refused_reachable: "service_reachable dict_coll (ex_refused, [''t1'' \<mapsto> Ended (Inl (invalid_text [] []))])"
proof -
  have "service_step dict_coll (ex_submitted, [''t1'' \<mapsto> Submitted ex_request])
      (ex_refused, [''t1'' \<mapsto> Submitted ex_request](''t1'' \<mapsto> Ended (Inl (invalid_text [] []))))"
    by (rule service_step.validated [where q = ex_request and v = "VdInvalid [] []" and evs = "[]" and t = ex_times])
       (simp_all add: ex_refused_def run_validated_def)
  from service_reachable.step [OF ex_submitted_reachable this] show ?thesis by simp
qed

lemma ex_submitted_stores: "\<exists>t. MemoryState.get_task ''t1'' (sv_memory ex_submitted) = Some t"
  "\<exists>d. t_find dict_coll ''t1'' (sv_docs ex_submitted) = Some d"
  using ex_create [of "tm_memory ex_times" "tm_doc ex_times"] by (auto simp: ex_submitted_def)

lemma ex_actions_stores:
  "list_all action_fits as \<Longrightarrow> \<exists>t. MemoryState.get_task tid (sv_memory sv) = Some t
    \<Longrightarrow> \<exists>t. MemoryState.get_task tid (sv_memory (foldl (\<lambda>sv a. do_action K tid u a sv) sv as)) = Some t"
proof (induction as arbitrary: sv)
  case (Cons a as)
  obtain f where "only_task tid f sv (do_action K tid u a sv)" using action_task [of a tid sv K u "[]" "[]"] Cons.prems by auto
  then have "\<exists>t. MemoryState.get_task tid (sv_memory (do_action K tid u a sv)) = Some t"
    using Cons.prems(2) by (auto simp: only_task_def)
  then show ?case using Cons by simp
qed simp

lemma ex_completed_task: "\<exists>t. MemoryState.get_task ''t1'' (sv_memory ex_completed) = Some t \<and> tk_status t = TsCompleted"
proof -
  define sv where "sv = fst (run_validated dict_coll ''t1'' ex_request VdValid [] ex_times ex_submitted)"
  obtain p where "sv = start_run dict_coll ''t1'' p ex_times ex_submitted"
    by (simp add: sv_def run_validated_def ex_request_def)
  moreover obtain f where "only_task ''t1'' f ex_submitted (start_run dict_coll ''t1'' p ex_times ex_submitted)"
    using start_task by blast
  ultimately have "\<exists>t. MemoryState.get_task ''t1'' (sv_memory sv) = Some t"
    using ex_submitted_stores(1) by (auto simp: only_task_def)
  then have "\<exists>t. MemoryState.get_task ''t1'' (sv_memory ex_working) = Some t"
    unfolding ex_working_def sv_def [symmetric] using from_events_fits [of "[]"] by (intro ex_actions_stores) simp_all
  then show ?thesis
    using complete_task [of "''t1''" "[]" ex_times ex_working dict_coll]
    by (auto simp: ex_completed_def run_ended_def flow_simps only_task_def)
qed

lemma ex_refused_stores: "\<exists>t. MemoryState.get_task ''t1'' (sv_memory ex_refused) = Some t \<and> tk_status t = TsForeign AsFailed"
  "\<exists>d. t_find dict_coll ''t1'' (sv_docs ex_refused) = Some d"
proof -
  have r: "ex_refused = end_run ''t1'' (reject_invalid dict_coll ''t1'' (invalid_text [] []) ex_times ex_submitted)"
    by (simp add: ex_refused_def run_validated_def)
  show "\<exists>t. MemoryState.get_task ''t1'' (sv_memory ex_refused) = Some t \<and> tk_status t = TsForeign AsFailed"
    using ex_submitted_stores(1) by (auto simp: r reject_invalid_def flow_simps failed_update_def)
  have "only_doc dict_coll ''t1'' (set_status AsFailed 0 (Some (invalid_text [] [])) (tm_doc ex_times)) ex_submitted ex_refused"
    unfolding r by (rule only_doc_chain(3) [OF dict_coll_answers failure_doc(2) [OF dict_coll_answers]])
  then show "\<exists>d. t_find dict_coll ''t1'' (sv_docs ex_refused) = Some d"
    using ex_submitted_stores(2) by (auto simp: only_doc_def)
qed

theorem task_life_witness:
  "service_reachable dict_coll (ex_completed, [''t1'' \<mapsto> Ended (Inr [])])
   \<and> (\<exists>t. MemoryState.get_task ''t1'' (sv_memory ex_completed) = Some t \<and> tk_progress t = 100 \<and> tk_result_data t = Some [])
   \<and> dget (sv_trackers ex_completed) ''t1'' = None"
proof -
  obtain t where t: "MemoryState.get_task ''t1'' (sv_memory ex_completed) = Some t" "tk_status t = TsCompleted"
    using ex_completed_task by blast
  note life = task_life [OF ex_completed_reachable]
  have "\<exists>res. [''t1'' \<mapsto> Ended (Inr [])] ''t1'' = Some (Ended (Inr res)) \<and> tk_result_data t = Some res \<and> tk_progress t = 100"
    using conjunct2 [OF life] t by blast
  then have "tk_progress t = 100" "tk_result_data t = Some []" by auto
  moreover have "dget (sv_trackers ex_completed) ''t1'' = None" using conjunct1 [OF life] by (metis fun_upd_same job.distinct(5) option.inject)
  ultimately show ?thesis using t(1) ex_completed_reachable by blast
qed

theorem client_sees_end_witness:
  "poll_step ''600519'' 600 \<lparr>po_elapsed = 30,
      po_resp = poll_answer (FetchRaised []) (status_route dict_coll (\<lambda>_. True) (\<lambda>_. False) ''t1'' ex_refused),
      po_login = (\<lambda>_. LoginRaised)\<rparr> \<lparr>ps_401 = 0, ps_conn = 0, ps_token = []\<rparr>
     = Inr (failed_result ''600519'' 30 (EText txt_analysis_failed))"
proof -
  obtain t where t: "MemoryState.get_task ''t1'' (sv_memory ex_refused) = Some t" "tk_status t = TsForeign AsFailed"
    using ex_refused_stores(1) by blast
  show ?thesis
    using client_sees_end [OF ex_refused_reachable fun_upd_same t(1), of
      "\<lparr>po_elapsed = 30, po_resp = poll_answer (FetchRaised []) (status_route dict_coll (\<lambda>_. True) (\<lambda>_. False) ''t1'' ex_refused),
        po_login = (\<lambda>_. LoginRaised)\<rparr>" 600 "FetchRaised []" "\<lambda>_. True" "\<lambda>_. False" "''600519''" "\<lparr>ps_401 = 0, ps_conn = 0, ps_token = []\<rparr>"] t(2)
    by simp
qed

end
