(* ===== verification/AnalysisSteps.thy ===== *)
theory AnalysisSteps
  imports AnalysisFlowProofs
begin

text \<open>
  The life of an analysis task once more, with every access to a store as a step of its own: the
  handlers await between memory and MongoDB, so other requests and the runs of other tasks come in
  between. A handler is the list of its effects in the order of the code; \<open>performs\<close> relates it to
  the definition of \<open>AnalysisFlow\<close>. Memory and MongoDB agree on an ended run unless a mark as failed
  was in flight while the run was writing its end; \<open>late_mark\<close> shows what happens then.
\<close>

section \<open>Effects\<close>

datatype effect =
    ETracker "ptracker \<Rightarrow> ptracker"
  | ENew ptracker
  | EMemory task_update pydatetime
  | EDoc "task_doc \<Rightarrow> task_doc"
  | ENode ustr times
  | EDocThen "task_doc \<Rightarrow> task_doc" task_update pydatetime
  | EInsert string string ustr pydatetime
  | EForget
  | EDelete
  | EEnd

text \<open>An effect and the effects that it makes necessary: the callback of the graph goes on to the stores.\<close>

fun perform :: "'c task_coll \<Rightarrow> string \<Rightarrow> effect \<Rightarrow> 'c service \<Rightarrow> 'c service \<times> effect list" where
  "perform K tid (ETracker f) sv = (write_tracker tid f sv, [])"
| "perform K tid (ENew tr) sv = (sv\<lparr>sv_trackers := dset tid tr (sv_trackers sv)\<rparr>, [])"
| "perform K tid (EMemory u now) sv = (write_memory tid u now sv, [])"
| "perform K tid (EDoc g) sv = (write_doc K tid g sv, [])"
| "perform K tid (ENode m t) sv = (case dget (sv_trackers sv) tid of None \<Rightarrow> (sv, [])
     | Some tr \<Rightarrow> (write_tracker tid (graph_progress_callback (tm_clock t) m) sv,
         case node_rises m tr of None \<Rightarrow> []
         | Some p \<Rightarrow> [EDocThen (set_progress p m m (tm_doc t)) (running_update p m m) (tm_memory t)]))"
| "perform K tid (EDocThen g u now) sv = (case t_set K tid g (sv_docs sv) of (ok, docs) \<Rightarrow>
     (sv\<lparr>sv_docs := docs\<rparr>, if ok then [EMemory u now] else []))"
| "perform K tid (EInsert uid code name now) sv =
     (sv\<lparr>sv_docs := snd (t_insert K (new_doc tid uid code name now) (sv_docs sv))\<rparr>, [])"
| "perform K tid EForget sv = (sv\<lparr>sv_memory := snd (MemoryState.remove_task tid (sv_memory sv))\<rparr>, [])"
| "perform K tid EDelete sv = (sv\<lparr>sv_docs := snd (t_delete K tid (sv_docs sv))\<rparr>, [])"
| "perform K tid EEnd sv = (end_run tid sv, [])"

section \<open>The handlers\<close>

definition failure_effects :: "ustr \<Rightarrow> ustr \<Rightarrow> times \<Rightarrow> effect list" where
  "failure_effects msg err t = [ETracker (mark_failed (tm_clock t) err),
     EMemory (failed_update TsFailed (Some msg) (Some (ustr_of ''failed'')) err) (tm_memory t),
     EDoc (set_status AsFailed 0 (Some err) (tm_doc t))]"

definition reject_effects :: "ustr \<Rightarrow> times \<Rightarrow> effect list" where
  "reject_effects err t = [EMemory (failed_update (TsForeign AsFailed) None None err) (tm_memory t),
     EDoc (set_status AsFailed 0 (Some err) (tm_doc t))]"

definition done_update :: "(ustr, dval) dict \<Rightarrow> task_update" where
  "done_update res = \<lparr>up_status = TsCompleted, up_progress = Some 100, up_message = Some txt_done,
     up_step = Some (ustr_of ''completed''), up_result = Some res, up_error = None\<rparr>"

definition complete_effects :: "(ustr, dval) dict \<Rightarrow> times \<Rightarrow> effect list" where
  "complete_effects res t = [ETracker (mark_completed (tm_clock t)), EMemory (done_update res) (tm_memory t),
     EDoc (set_status AsCompleted 100 None (tm_doc t))]"

definition start_effects :: "analysis_params \<Rightarrow> times \<Rightarrow> effect list" where
  "start_effects p t = [ENew (tracker_of p (tm_clock t)),
     ETracker (update_progress (tm_clock t) (Dict (Some 10) [128640, 32, 24320, 22987, 32929, 31080, 20998, 26512])),
     EMemory (running_update 10 [20998, 26512, 24320, 22987, 46, 46, 46] (ustr_of ''initialization'')) (tm_memory t),
     EDoc (set_status AsProcessing 10 None (tm_doc t)),
     ETracker (update_progress (tm_clock t) (Dict (Some 20) [128295, 32, 26816, 26597, 29615, 22659, 37197, 32622])),
     EMemory (running_update 20 [20934, 22791, 20998, 26512, 25968, 25454, 46, 46, 46] (ustr_of ''data_preparation'')) (tm_memory t),
     EDoc (set_status AsProcessing 20 None (tm_doc t))]"

fun action_effects :: "times \<Rightarrow> thread_action \<Rightarrow> effect list" where
  "action_effects t (Sync p msg step) = [ETracker (update_progress (tm_clock t) (Dict (Some (of_int p)) msg)),
     EMemory (running_update p msg step) (tm_memory t), EDoc (set_progress p step msg (tm_doc t))]"
| "action_effects t (Simulated msg) = [ETracker (update_progress (tm_clock t) (Message msg))]"
| "action_effects t (Node m) = [ENode m t]"

definition txt_marked :: ustr where "txt_marked = [29992, 25143, 25163, 21160, 26631, 35760, 20026, 22833, 36133]"

definition mark_update :: task_update where
  "mark_update = \<lparr>up_status = TsFailed, up_progress = None, up_message = Some [25163, 21160, 26631, 35760, 20026, 22833, 36133],
     up_step = None, up_result = None, up_error = Some txt_marked\<rparr>"

definition mark_doc :: "times \<Rightarrow> task_doc \<Rightarrow> task_doc" where
  "mark_doc t d = d\<lparr>ad_status := ''failed'', ad_error := Some txt_marked, ad_completed := Some (tm_doc t), ad_updated := Some (tm_doc t)\<rparr>"

definition mark_effects :: "times \<Rightarrow> effect list" where
  "mark_effects t = [EMemory mark_update (tm_memory t), EDoc (mark_doc t)]"

definition delete_effects :: "effect list" where "delete_effects = [EForget, EDelete]"

text \<open>The effects one after the other are the handlers of \<open>AnalysisFlow\<close>.\<close>

inductive performs :: "'c task_coll \<Rightarrow> string \<Rightarrow> effect list \<Rightarrow> 'c service \<Rightarrow> 'c service \<Rightarrow> bool" for K tid where
  none: "performs K tid [] sv sv"
| one: "perform K tid e sv = (sv1, es1) \<Longrightarrow> performs K tid (es1 @ es) sv1 sv2 \<Longrightarrow> performs K tid (e # es) sv sv2"

inductive_simps performs_simps: "performs K tid [] sv sv2" "performs K tid (e # es) sv sv2"

lemma performs_handlers:
  "performs K tid (failure_effects msg err t) sv sv' \<longleftrightarrow> sv' = on_failure K tid msg err t sv"
  "performs K tid (reject_effects err t) sv sv' \<longleftrightarrow> sv' = reject_invalid K tid err t sv"
  "performs K tid (complete_effects res t) sv sv' \<longleftrightarrow> sv' = complete_run K tid res t sv"
  "performs K tid (start_effects p t) sv sv' \<longleftrightarrow> sv' = start_run K tid p t sv"
  "performs K tid (mark_effects t) sv sv' \<longleftrightarrow> sv' = mark_task_as_failed K tid t sv"
  "performs K tid delete_effects sv sv' \<longleftrightarrow> sv' = delete_analysis_task K tid sv"
  by (auto simp: performs_simps failure_effects_def on_failure_def reject_effects_def reject_invalid_def complete_effects_def
      complete_run_def done_update_def start_effects_def start_run_def Let_def mark_effects_def mark_task_as_failed_def
      mark_update_def mark_doc_def [abs_def] txt_marked_def delete_effects_def delete_analysis_task_def)

lemma performs_action: "performs K tid (action_effects t a) sv sv' \<longleftrightarrow> sv' = do_action K tid t a sv"
  by (cases a) (auto simp: performs_simps sync_action_def node_action_def Let_def split: option.splits prod.splits if_splits)

section \<open>Steps\<close>

text \<open>
  The runs, each with the effects that are left of the handler it is in and the phase that it goes to,
  and the requests in flight with their effects.
\<close>

record 'c flow =
  fl_service :: "'c service"
  fl_runs :: "string \<Rightarrow> (effect list \<times> job) option"
  fl_requests :: "(string \<times> effect list) list"

fun outcome_effects :: "analysis_request \<Rightarrow> validation \<Rightarrow> thread_action list \<Rightarrow> times \<Rightarrow> effect list \<times> job" where
  "outcome_effects q VdTimeout evs t = (failure_effects txt_timeout timeout_text t @ [EEnd], Ended (Inl timeout_text))"
| "outcome_effects q (VdRaised e) evs t =
     (failure_effects txt_failed (user_friendly_error e) t @ [EEnd], Ended (Inl (user_friendly_error e)))"
| "outcome_effects q (VdInvalid e h) evs t = (reject_effects (invalid_text e h) t @ [EEnd], Ended (Inl (invalid_text e h)))"
| "outcome_effects q VdValid evs t = (case aq_params q of
       None \<Rightarrow> (failure_effects txt_failed (user_friendly_error no_parameters) t @ [EEnd], Ended (Inl (user_friendly_error no_parameters)))
     | Some p \<Rightarrow> (start_effects p t, Working (thread_actions evs)))"

definition end_effects :: "(ustr, (ustr, dval) dict) result \<Rightarrow> times \<Rightarrow> effect list \<times> job" where
  "end_effects x t = (case x of
     Inl e \<Rightarrow> (failure_effects txt_failed (thread_error e) t @ [EEnd], Ended (Inl (thread_error e)))
   | Inr res \<Rightarrow> (complete_effects res t @ [EEnd], Ended (Inr res)))"

text \<open>The outcomes are those of \<open>run_validated\<close> and \<open>run_ended\<close>.\<close>

lemma performs_append: "performs K tid (es1 @ es2) sv sv' \<longleftrightarrow> (\<exists>sv1. performs K tid es1 sv sv1 \<and> performs K tid es2 sv1 sv')"
proof
  show "performs K tid (es1 @ es2) sv sv' \<Longrightarrow> \<exists>sv1. performs K tid es1 sv sv1 \<and> performs K tid es2 sv1 sv'"
  proof (induction "es1 @ es2" sv sv' arbitrary: es1 rule: performs.induct)
    case (none sv)
    then show ?case by (auto intro: performs.intros)
  next
    case (one e sv sv1 es0 es sv2)
    show ?case
    proof (cases es1)
      case Nil
      then show ?thesis using one.hyps by (auto intro: performs.intros)
    next
      case (Cons a rest)
      then have "es0 @ es = (es0 @ rest) @ es2" "a = e" using one.hyps(4) by simp_all
      with one.hyps(3) [OF this(1)] one.hyps(1) Cons show ?thesis by (auto intro: performs.intros)
    qed
  qed
  show "\<exists>sv1. performs K tid es1 sv sv1 \<and> performs K tid es2 sv1 sv' \<Longrightarrow> performs K tid (es1 @ es2) sv sv'"
  proof (elim exE conjE)
    fix sv1
    show "performs K tid es1 sv sv1 \<Longrightarrow> performs K tid es2 sv1 sv' \<Longrightarrow> performs K tid (es1 @ es2) sv sv'"
      by (induction rule: performs.induct) (auto intro: performs.intros)
  qed
qed

lemma performs_outcomes:
  "performs K tid (fst (outcome_effects q v evs t)) sv sv' \<and> snd (outcome_effects q v evs t) = j
    \<longleftrightarrow> run_validated K tid q v evs t sv = (sv', j)"
  "performs K tid (fst (end_effects x t)) sv sv' \<and> snd (end_effects x t) = j \<longleftrightarrow> run_ended K tid x t sv = (sv', j)"
proof -
  have e: "performs K tid [EEnd] sv1 sv' \<longleftrightarrow> sv' = end_run tid sv1" for sv1 by (simp add: performs_simps)
  show "performs K tid (fst (outcome_effects q v evs t)) sv sv' \<and> snd (outcome_effects q v evs t) = j
    \<longleftrightarrow> run_validated K tid q v evs t sv = (sv', j)"
    by (cases v) (auto simp: run_validated_def fail_run_def performs_append performs_handlers e split: option.splits)
  show "performs K tid (fst (end_effects x t)) sv sv' \<and> snd (end_effects x t) = j \<longleftrightarrow> run_ended K tid x t sv = (sv', j)"
    by (cases x) (auto simp: end_effects_def run_ended_def fail_run_def performs_append performs_handlers e)
qed

lemma performs_create:
  assumes "create_analysis_task K lookup tid uid q now later sv = (Inr i, sv')"
    "resolve_stock_name lookup (get_symbol q) (sv_names sv) = (name, names)"
  shows "performs K tid [EInsert uid (get_symbol q) name later] (sv'\<lparr>sv_docs := sv_docs sv\<rparr>) sv'"
  using assms by (auto simp: performs_simps create_analysis_task_def Let_def split: if_splits sum.splits prod.splits)

inductive flow_step :: "'c task_coll \<Rightarrow> 'c flow \<Rightarrow> 'c flow \<Rightarrow> bool" for K where
  create: "fl_runs s tid = None \<Longrightarrow> t_find K tid (sv_docs (fl_service s)) = None
    \<Longrightarrow> create_analysis_task K lookup tid uid q now later (fl_service s) = (Inr i, sv')
    \<Longrightarrow> resolve_stock_name lookup (get_symbol q) (sv_names (fl_service s)) = (name, names)
    \<Longrightarrow> flow_step K s (s\<lparr>fl_service := sv'\<lparr>sv_docs := sv_docs (fl_service s)\<rparr>,
         fl_runs := (fl_runs s)(tid \<mapsto> ([EInsert uid (get_symbol q) name later], Submitted q))\<rparr>)"
| create_fails: "create_analysis_task K lookup tid uid q now later (fl_service s) = (Inl e, sv')
    \<Longrightarrow> flow_step K s (s\<lparr>fl_service := sv'\<rparr>)"
| validated: "fl_runs s tid = Some ([], Submitted q) \<Longrightarrow> list_all from_events evs
    \<Longrightarrow> flow_step K s (s\<lparr>fl_runs := (fl_runs s)(tid \<mapsto> outcome_effects q v evs t)\<rparr>)"
| action: "fl_runs s tid = Some ([], Working (a # as))
    \<Longrightarrow> flow_step K s (s\<lparr>fl_runs := (fl_runs s)(tid \<mapsto> (action_effects t a, Working as))\<rparr>)"
| ended: "fl_runs s tid = Some ([], Working as) \<Longrightarrow> as = [] \<or> (\<exists>e. x = Inl e)
    \<Longrightarrow> flow_step K s (s\<lparr>fl_runs := (fl_runs s)(tid \<mapsto> end_effects x t)\<rparr>)"
| run_effect: "fl_runs s tid = Some (e # es, j) \<Longrightarrow> perform K tid e (fl_service s) = (sv', es1)
    \<Longrightarrow> flow_step K s (s\<lparr>fl_service := sv', fl_runs := (fl_runs s)(tid \<mapsto> (es1 @ es, j))\<rparr>)"
| mark_failed: "flow_step K s (s\<lparr>fl_requests := (tid, mark_effects t) # fl_requests s\<rparr>)"
| delete: "flow_step K s (s\<lparr>fl_requests := (tid, delete_effects) # fl_requests s\<rparr>)"
| request_effect: "fl_requests s = xs @ (tid, e # es) # ys \<Longrightarrow> perform K tid e (fl_service s) = (sv', es1)
    \<Longrightarrow> flow_step K s (s\<lparr>fl_service := sv', fl_requests := xs @ (tid, es1 @ es) # ys\<rparr>)"
| clean_old: "flow_step K s (s\<lparr>fl_service := (fl_service s)
    \<lparr>sv_memory := snd (cleanup_old_tasks utc now h (sv_memory (fl_service s)))\<rparr>\<rparr>)"
| clean_zombie: "flow_step K s (s\<lparr>fl_service := (fl_service s)
    \<lparr>sv_memory := snd (cleanup_zombie_tasks utc now ends h (sv_memory (fl_service s)))\<rparr>\<rparr>)"

text \<open>
  A mark as failed of the task is in flight while its run writes its end. \<open>calm_reachable\<close>: the
  states that are reached without that.
\<close>

definition marking :: "effect list \<Rightarrow> bool" where
  "marking es \<longleftrightarrow> (\<exists>t. es = mark_effects t \<or> es = [EDoc (mark_doc t)])"

definition racing :: "string \<Rightarrow> 'c flow \<Rightarrow> bool" where
  "racing tid s \<longleftrightarrow> (\<exists>e es x. fl_runs s tid = Some (e # es, Ended x)) \<and> (\<exists>es. (tid, es) \<in> set (fl_requests s) \<and> marking es)"

inductive calm_reachable :: "'c task_coll \<Rightarrow> string \<Rightarrow> 'c flow \<Rightarrow> bool" for K tid where
  start: "calm_reachable K tid \<lparr>fl_service = fresh_service c, fl_runs = Map.empty, fl_requests = []\<rparr>"
| step: "calm_reachable K tid s \<Longrightarrow> flow_step K s s' \<Longrightarrow> \<not> racing tid s' \<Longrightarrow> calm_reachable K tid s'"

section \<open>The end of a run, step by step\<close>

text \<open>What the last writes of a run say, and what memory and the document hold after both.\<close>

fun end_states :: "(ustr, (ustr, dval) dict) result \<Rightarrow> task_status set" where
  "end_states (Inl e) = {TsFailed, TsForeign AsFailed}"
| "end_states (Inr res) = {TsCompleted, TsFailed}"

definition last_writes :: "(ustr, (ustr, dval) dict) result \<Rightarrow> task_update \<Rightarrow> (task_doc \<Rightarrow> task_doc) \<Rightarrow> bool" where
  "last_writes x u g \<longleftrightarrow> up_status u \<in> end_states x \<and> (\<forall>d. ad_status (g d) = status_value (up_status u))
     \<and> (status_value (up_status u) = ''failed'' \<longrightarrow> up_error u \<noteq> None \<and> (\<forall>d. ad_error (g d) = up_error u))"

definition wrote :: "task_update \<Rightarrow> task_state option \<Rightarrow> bool" where
  "wrote u M \<longleftrightarrow> (\<forall>t. M = Some t \<longrightarrow> tk_status t = up_status u \<and> (up_error u \<noteq> None \<longrightarrow> tk_error_message t = up_error u))"

definition same_end :: "(ustr, (ustr, dval) dict) result \<Rightarrow> task_state \<Rightarrow> task_doc \<Rightarrow> bool" where
  "same_end x t d \<longleftrightarrow> tk_status t \<in> end_states x \<and> ad_status d = status_value (tk_status t)
     \<and> (ad_status d = ''failed'' \<longrightarrow> ad_error d = tk_error_message t)"

definition settled :: "(ustr, (ustr, dval) dict) result \<Rightarrow> task_state option \<Rightarrow> task_doc option \<Rightarrow> bool \<Rightarrow> bool" where
  "settled x M D waiting \<longleftrightarrow> (waiting \<longrightarrow> wrote mark_update M)
     \<and> (\<not> waiting \<longrightarrow> (\<forall>t d. M = Some t \<and> D = Some d \<longrightarrow> same_end x t d))"

text \<open>By the effects that the run has left; \<open>waiting\<close>: a mark as failed has still to write the document.\<close>

inductive end_ok :: "(ustr, (ustr, dval) dict) result \<Rightarrow> effect list \<Rightarrow> task_state option \<Rightarrow> task_doc option \<Rightarrow> bool \<Rightarrow> bool" where
  before_tracker: "last_writes x u g \<Longrightarrow> end_ok x [ETracker f, EMemory u n, EDoc g, EEnd] M D w"
| before_memory: "last_writes x u g \<Longrightarrow> end_ok x [EMemory u n, EDoc g, EEnd] M D w"
| before_doc: "last_writes x u g \<Longrightarrow> wrote u M \<Longrightarrow> end_ok x [EDoc g, EEnd] M D w"
| before_end: "settled x M D w \<Longrightarrow> end_ok x [EEnd] M D w"
| over: "settled x M D w \<Longrightarrow> end_ok x [] M D w"

inductive_cases end_ok_cases: "end_ok x (e # es) M D w" "end_ok x [] M D w"

lemma end_states_final: "st \<in> end_states x \<Longrightarrow> st \<notin> {TsRunning, TsPending}"
  by (cases x) auto

lemma failed_end [simp]: "TsFailed \<in> end_states x"
  by (cases x) auto

lemma marked_states: "up_status mark_update = TsFailed" "up_error mark_update = Some txt_marked"
  by (simp_all add: mark_update_def)

text \<open>What cleanups, deletions and marks do to it.\<close>

lemma wrote_cleaned:
  assumes "wrote u M" "up_status u \<notin> {TsRunning, TsPending}"
    "\<And>t. M2 = Some t \<Longrightarrow> M = Some t \<or> (\<exists>t0. M = Some t0 \<and> tk_status t0 \<in> {TsRunning, TsPending})"
  shows "wrote u M2"
  using assms by (fastforce simp: wrote_def)

lemma settled_cleaned:
  assumes "settled x M D w" "D2 = None \<or> D2 = D"
    "\<And>t. M2 = Some t \<Longrightarrow> M = Some t \<or> (\<exists>t0. M = Some t0 \<and> tk_status t0 \<in> {TsRunning, TsPending})"
  shows "settled x M2 D2 w"
proof -
  have "wrote mark_update M2" if w
    using assms(1) that wrote_cleaned [OF _ _ assms(3)] by (simp add: settled_def marked_states)
  moreover have "same_end x t d" if "\<not> w" "M2 = Some t" "D2 = Some d" for t d
    using assms that end_states_final by (fastforce simp: settled_def same_end_def)
  ultimately show ?thesis by (simp add: settled_def)
qed

lemma end_ok_cleaned:
  assumes "end_ok x es M D w" "D2 = None \<or> D2 = D"
    "\<And>t. M2 = Some t \<Longrightarrow> M = Some t \<or> (\<exists>t0. M = Some t0 \<and> tk_status t0 \<in> {TsRunning, TsPending})"
  shows "end_ok x es M2 D2 w"
  using assms(1)
proof cases
  case (before_doc u g)
  then show ?thesis using wrote_cleaned [OF _ _ assms(3)] end_states_final
    by (auto simp: last_writes_def intro!: end_ok.before_doc)
qed (use assms settled_cleaned [OF _ assms(2,3)] in \<open>auto intro: end_ok.intros\<close>)

lemma wrote_update: "wrote u (map_option (apply_update u n) M)"
  by (auto simp: wrote_def flow_simps)

lemma end_ok_mark_memory:
  "end_ok x [] M D w \<Longrightarrow> end_ok x [] (map_option (apply_update mark_update n) M) D True"
  by (auto intro!: end_ok.over simp: settled_def wrote_update)

lemma end_ok_mark_doc:
  assumes "end_ok x [] M D True"
  shows "end_ok x [] M (map_option (mark_doc t) D) w"
proof -
  have m: "wrote mark_update M" using assms by (auto elim!: end_ok_cases simp: settled_def)
  have "same_end x t0 (mark_doc t d0)" if "M = Some t0" for t0 d0
    using m that marked_states by (auto simp: same_end_def wrote_def mark_doc_def)
  then show ?thesis using m by (auto intro!: end_ok.over simp: settled_def)
qed

text \<open>The effects of the run itself, when no mark is in flight.\<close>

lemma end_ok_run:
  assumes "end_ok x (e # es) M D False"
  shows "(\<exists>f. e = ETracker f \<and> end_ok x es M D False)
    \<or> (\<exists>u n. e = EMemory u n \<and> end_ok x es (map_option (apply_update u n) M) D False)
    \<or> (\<exists>g. e = EDoc g \<and> end_ok x es M (map_option g D) False)
    \<or> (e = EEnd \<and> end_ok x es M D False)"
  using assms
proof cases
  case (before_doc u g)
  have "same_end x t (g d)" if "M = Some t" for t d
    using before_doc that by (auto simp: same_end_def last_writes_def wrote_def)
  then show ?thesis using before_doc by (auto intro!: end_ok.before_end simp: settled_def)
qed (auto intro: end_ok.intros wrote_update)

lemma end_effects_ok:
  "snd (end_effects y t) = Ended x \<Longrightarrow> end_ok x (fst (end_effects y t)) M D w"
  "snd (outcome_effects q v evs t) = Ended x \<Longrightarrow> end_ok x (fst (outcome_effects q v evs t)) M D w"
proof -
  have f: "end_ok (Inl e) (failure_effects msg e t @ [EEnd]) M D w" "end_ok (Inl e) (reject_effects e t @ [EEnd]) M D w" for msg e
    by (auto simp: failure_effects_def reject_effects_def last_writes_def failed_update_def status_doc intro!: end_ok.intros)
  have c: "end_ok (Inr res) (complete_effects res t @ [EEnd]) M D w" for res
    by (auto simp: complete_effects_def last_writes_def done_update_def status_doc intro!: end_ok.intros)
  show "snd (end_effects y t) = Ended x \<Longrightarrow> end_ok x (fst (end_effects y t)) M D w"
    using f(1) c by (auto simp: end_effects_def split: sum.splits)
  show "snd (outcome_effects q v evs t) = Ended x \<Longrightarrow> end_ok x (fst (outcome_effects q v evs t)) M D w"
    using f by (cases v) (auto split: option.splits)
qed

section \<open>Every step keeps it\<close>

definition mem_of :: "string \<Rightarrow> 'c flow \<Rightarrow> task_state option" where
  "mem_of tid s = MemoryState.get_task tid (sv_memory (fl_service s))"

definition doc_of :: "'c task_coll \<Rightarrow> string \<Rightarrow> 'c flow \<Rightarrow> task_doc option" where
  "doc_of K tid s = t_find K tid (sv_docs (fl_service s))"

definition waiting :: "string \<Rightarrow> (string \<times> effect list) list \<Rightarrow> bool" where
  "waiting tid reqs \<longleftrightarrow> (\<exists>t. (tid, [EDoc (mark_doc t)]) \<in> set reqs)"

definition request_form :: "effect list \<Rightarrow> bool" where
  "request_form es \<longleftrightarrow> es = [] \<or> marking es \<or> es = delete_effects \<or> es = [EDelete]"

definition flow_ok :: "'c task_coll \<Rightarrow> string \<Rightarrow> 'c flow \<Rightarrow> bool" where
  "flow_ok K tid s \<longleftrightarrow> tasks_ok (mm_tasks (sv_memory (fl_service s))) \<and> (\<forall>r \<in> set (fl_requests s). request_form (snd r))
     \<and> (\<forall>es x. fl_runs s tid = Some (es, Ended x) \<longrightarrow> end_ok x es (mem_of tid s) (doc_of K tid s) (waiting tid (fl_requests s)))"

lemma flow_okD:
  assumes "flow_ok K tid s"
  shows "tasks_ok (mm_tasks (sv_memory (fl_service s)))" "r \<in> set (fl_requests s) \<Longrightarrow> request_form (snd r)"
    "fl_runs s tid = Some (es, Ended x) \<Longrightarrow> end_ok x es (mem_of tid s) (doc_of K tid s) (waiting tid (fl_requests s))"
  using assms by (auto simp: flow_ok_def)

lemma perform_tasks_ok:
  assumes "perform K tid e sv = (sv', es1)" "tasks_ok (mm_tasks (sv_memory sv))"
  shows "tasks_ok (mm_tasks (sv_memory sv'))"
proof (cases e)
  case (EMemory u n)
  then show ?thesis using assms tasks_ok_write by auto
next
  case EForget
  then show ?thesis using assms tasks_ok_ddel by (auto simp: MemoryState.remove_task_def split: if_splits)
qed (use assms in \<open>auto simp: flow_fields split: option.splits prod.splits\<close>)

text \<open>An effect does nothing to another task.\<close>

lemma perform_other:
  assumes "perform K i e sv = (sv', es1)" "answering K" "k \<noteq> i"
  shows "MemoryState.get_task k (sv_memory sv') = MemoryState.get_task k (sv_memory sv)"
    "t_find K k (sv_docs sv') = t_find K k (sv_docs sv)"
proof -
  have d: "t_find K k (snd (t_set K i g c)) = t_find K k c" "t_find K k (snd (t_delete K i c)) = t_find K k c"
    "t_find K k (snd (t_insert K (new_doc i u code name n) c)) = t_find K k c" for g c u code name n
    using assms(2,3) by (simp_all add: answering_def new_doc_def)
  have "MemoryState.get_task k (sv_memory sv') = MemoryState.get_task k (sv_memory sv)
      \<and> t_find K k (sv_docs sv') = t_find K k (sv_docs sv)"
  proof (cases e)
    case EForget
    then show ?thesis using assms(1,3) by (auto simp: MemoryState.remove_task_def MemoryState.get_task_def dict_simps)
  next
    case (EDocThen g u n)
    then show ?thesis using assms(1,3) d(1) [of g "sv_docs sv"] by (auto split: prod.splits)
  qed (use assms(1,3) d in \<open>auto simp: flow_simps write_doc_def split: option.splits\<close>)
  then show "MemoryState.get_task k (sv_memory sv') = MemoryState.get_task k (sv_memory sv)"
    "t_find K k (sv_docs sv') = t_find K k (sv_docs sv)" by simp_all
qed

text \<open>The run of the task makes an effect; no mark waits while it has effects left.\<close>

lemma calm_waiting: "\<not> racing tid s \<Longrightarrow> fl_runs s tid = Some (e # es, Ended x) \<Longrightarrow> \<not> waiting tid (fl_requests s)"
  by (auto simp: racing_def waiting_def marking_def)

lemma run_effect_ok:
  assumes "flow_ok K tid s" "answering K" "\<not> racing tid s" "fl_runs s i = Some (e # es, j)"
    "perform K i e (fl_service s) = (sv', es1)"
  shows "flow_ok K tid (s\<lparr>fl_service := sv', fl_runs := (fl_runs s)(i \<mapsto> (es1 @ es, j))\<rparr>)"
proof -
  let ?s = "s\<lparr>fl_service := sv', fl_runs := (fl_runs s)(i \<mapsto> (es1 @ es, j))\<rparr>"
  have "end_ok x es2 (mem_of tid ?s) (doc_of K tid ?s) (waiting tid (fl_requests s))"
    if r: "fl_runs ?s tid = Some (es2, Ended x)" for es2 x
  proof (cases "i = tid")
    case True
    then have j: "j = Ended x" "es2 = es1 @ es" using r by simp_all
    have w: "\<not> waiting tid (fl_requests s)" using calm_waiting [OF assms(3)] assms(4) True j(1) by blast
    have "end_ok x (e # es) (mem_of tid s) (doc_of K tid s) False"
      using flow_okD(3) [OF assms(1)] assms(4) True j(1) w by auto
    from end_ok_run [OF this] show ?thesis using w assms(2,5) True j(2)
      by (auto simp: mem_of_def doc_of_def flow_simps write_doc_def answering_def)
  next
    case False
    then have "fl_runs s tid = Some (es2, Ended x)" using r by simp
    then show ?thesis using flow_okD(3) [OF assms(1)] perform_other [OF assms(5,2), of tid] False
      by (auto simp: mem_of_def doc_of_def)
  qed
  then show ?thesis using flow_okD(1,2) [OF assms(1)] perform_tasks_ok [OF assms(5)] by (auto simp: flow_ok_def)
qed

lemma waiting_simps: "waiting tid (xs @ (i, es) # ys) \<longleftrightarrow> waiting tid xs \<or> waiting tid ys \<or> (i = tid \<and> (\<exists>t. es = [EDoc (mark_doc t)]))"
  "waiting tid ((i, es) # ys) \<longleftrightarrow> waiting tid ys \<or> (i = tid \<and> (\<exists>t. es = [EDoc (mark_doc t)]))"
  by (auto simp: waiting_def)

text \<open>A request for the task makes an effect.\<close>

lemma request_forms:
  assumes "request_form (e # es)"
  obtains t where "e = EMemory mark_update (tm_memory t)" "es = [EDoc (mark_doc t)]"
  | t where "e = EDoc (mark_doc t)" "es = []"
  | "e = EForget" "es = [EDelete]"
  | "e = EDelete" "es = []"
  using assms by (auto simp: request_form_def marking_def mark_effects_def delete_effects_def)

lemma request_effect_ok:
  assumes "flow_ok K tid s" "answering K" "\<not> racing tid s" "fl_requests s = xs @ (i, e # es) # ys"
    "perform K i e (fl_service s) = (sv', es1)"
  shows "flow_ok K tid (s\<lparr>fl_service := sv', fl_requests := xs @ (i, es1 @ es) # ys\<rparr>)"
proof -
  let ?s = "s\<lparr>fl_service := sv', fl_requests := xs @ (i, es1 @ es) # ys\<rparr>"
  have f: "request_form (e # es)" using flow_okD(2) [OF assms(1), of "(i, e # es)"] assms(4) by simp
  have e: "es1 = [] \<and> request_form es"
    using f
  proof (cases rule: request_forms)
    case (1 t)
    then show ?thesis using assms(5) by (auto simp: request_form_def marking_def)
  qed (use assms(5) in \<open>auto simp: request_form_def\<close>)
  have "end_ok x es2 (mem_of tid ?s) (doc_of K tid ?s) (waiting tid (fl_requests ?s))"
    if r: "fl_runs s tid = Some (es2, Ended x)" for es2 x
  proof (cases "i = tid")
    case False
    have "waiting tid (fl_requests ?s) = waiting tid (fl_requests s)" using False assms(4) by (simp add: waiting_simps)
    then show ?thesis using flow_okD(3) [OF assms(1) r] perform_other [OF assms(5,2), of tid] False
      by (auto simp: mem_of_def doc_of_def)
  next
    case True
    note ok = flow_okD(3) [OF assms(1) r]
    have calm: "marking (e # es) \<Longrightarrow> es2 = []"
      using assms(3,4) r True by (cases es2) (auto simp: racing_def)
    show ?thesis using f
    proof (cases rule: request_forms)
      case (1 t)
      then have "marking (e # es)" unfolding marking_def mark_effects_def by blast
      then have "es2 = []" by (rule calm)
      moreover have w: "waiting tid (fl_requests ?s) = True" using 1 e True by (auto simp: waiting_simps)
      ultimately show ?thesis unfolding w using 1 ok True assms(5) end_ok_mark_memory
        by (auto simp: mem_of_def doc_of_def flow_simps)
    next
      case (2 t)
      then have "marking (e # es)" unfolding marking_def by blast
      then have "es2 = []" by (rule calm)
      moreover have "waiting tid (fl_requests s)" using 2 True assms(4) by (auto simp: waiting_simps)
      ultimately show ?thesis using 2 e ok True assms(2,5) end_ok_mark_doc
        by (auto simp: mem_of_def doc_of_def flow_simps write_doc_def answering_def)
    next
      case 3
      have w: "waiting tid (fl_requests ?s) = waiting tid (fl_requests s)" using 3 e assms(4) by (simp add: waiting_simps)
      have "mem_of tid ?s = None" "doc_of K tid ?s = doc_of K tid s" using 3 True assms(5)
        by (auto simp: mem_of_def doc_of_def MemoryState.remove_task_def MemoryState.get_task_def dict_simps)
      then show ?thesis unfolding w by (intro end_ok_cleaned [OF ok]) simp_all
    next
      case 4
      have w: "waiting tid (fl_requests ?s) = waiting tid (fl_requests s)" using 4 e assms(4) by (simp add: waiting_simps)
      have "mem_of tid ?s = mem_of tid s" "doc_of K tid ?s = None" using 4 True assms(2,5)
        by (auto simp: mem_of_def doc_of_def answering_def)
      then show ?thesis unfolding w by (intro end_ok_cleaned [OF ok]) simp_all
    qed
  qed
  then show ?thesis using flow_okD(1,2) [OF assms(1)] perform_tasks_ok [OF assms(5)] assms(4) e
    by (auto simp: flow_ok_def)
qed

text \<open>Steps of the service that change memory as a whole, and new runs.\<close>

lemma flow_ok_service:
  assumes "flow_ok K tid s" "tasks_ok (mm_tasks (sv_memory sv'))" "t_find K tid (sv_docs sv') = doc_of K tid s"
    "\<And>t. MemoryState.get_task tid (sv_memory sv') = Some t
      \<Longrightarrow> mem_of tid s = Some t \<or> (\<exists>t0. mem_of tid s = Some t0 \<and> tk_status t0 \<in> {TsRunning, TsPending})"
  shows "flow_ok K tid (s\<lparr>fl_service := sv'\<rparr>)"
  using assms(2) flow_okD(2) [OF assms(1)] end_ok_cleaned [OF flow_okD(3) [OF assms(1)] disjI2 [OF refl] assms(4)] assms(3)
  by (auto simp: flow_ok_def mem_of_def doc_of_def)

lemma flow_ok_runs:
  assumes "flow_ok K tid s" "\<And>x M D w. snd r = Ended x \<Longrightarrow> end_ok x (fst r) M D w"
  shows "flow_ok K tid (s\<lparr>fl_runs := (fl_runs s)(i \<mapsto> r)\<rparr>)"
proof -
  let ?s = "s\<lparr>fl_runs := (fl_runs s)(i \<mapsto> r)\<rparr>"
  have "mem_of tid ?s = mem_of tid s" "doc_of K tid ?s = doc_of K tid s" by (simp_all add: mem_of_def doc_of_def)
  then show ?thesis using assms(2) flow_okD [OF assms(1)] by (auto simp: flow_ok_def)
qed

lemma flow_ok_requests:
  assumes "flow_ok K tid s" "request_form es" "\<And>t. es \<noteq> [EDoc (mark_doc t)]"
  shows "flow_ok K tid (s\<lparr>fl_requests := (i, es) # fl_requests s\<rparr>)"
  using assms flow_okD [OF assms(1)] by (auto simp: flow_ok_def mem_of_def doc_of_def waiting_simps)

lemma create_memory:
  assumes "create_analysis_task K lookup i uid q now later sv = (Inr n, sv')" "tasks_ok (mm_tasks (sv_memory sv))"
  shows "tasks_ok (mm_tasks (sv_memory sv'))"
    "k \<noteq> i \<Longrightarrow> MemoryState.get_task k (sv_memory sv') = MemoryState.get_task k (sv_memory sv)"
proof -
  obtain name t m where c: "MemoryState.create_task i uid (get_symbol q)
      (Some (case aq_params q of Some p \<Rightarrow> params_dump p | None \<Rightarrow> [])) (Some name) now (sv_memory sv) = Inr (t, m)"
    "sv_memory sv' = m"
    using assms(1) by (auto simp: create_analysis_task_def Let_def split: if_splits prod.splits sum.splits)
  show "tasks_ok (mm_tasks (sv_memory sv'))" using tasks_ok_create [OF c(1) assms(2)] c(2) by simp
  have "mm_tasks m = dset i t (mm_tasks (sv_memory sv))"
    using c(1) by (auto simp: MemoryState.create_task_def Let_def split: sum.splits)
  then show "k \<noteq> i \<Longrightarrow> MemoryState.get_task k (sv_memory sv') = MemoryState.get_task k (sv_memory sv)"
    using c(2) by (simp add: MemoryState.get_task_def dict_simps)
qed

lemma flow_ok_step:
  assumes "flow_step K s s'" "flow_ok K tid s" "answering K" "\<not> racing tid s"
  shows "flow_ok K tid s'"
  using assms(1)
proof cases
  case (create i lookup uid q now later n sv' name names)
  note c = create_memory [OF create(4) flow_okD(1) [OF assms(2)]]
  have "fl_runs s' tid = Some (es, Ended x) \<Longrightarrow> end_ok x es (mem_of tid s') (doc_of K tid s') (waiting tid (fl_requests s'))" for es x
    using flow_okD(3) [OF assms(2), of es x] c(2) [of tid] create(1,2)
    by (auto simp: mem_of_def doc_of_def split: if_splits)
  then show ?thesis using c(1) create(1) flow_okD(2) [OF assms(2)] by (auto simp: flow_ok_def)
next
  case (create_fails lookup i uid q now later e sv')
  show ?thesis unfolding create_fails(1)
    using create_fails_same [OF create_fails(2)] flow_okD(1) [OF assms(2)]
    by (intro flow_ok_service [OF assms(2)]) (simp_all add: doc_of_def mem_of_def)
next
  case (clean_old utc now h)
  have d: "distinct (dkeys (mm_tasks (sv_memory (fl_service s))))" using flow_okD(1) [OF assms(2)] by (simp add: tasks_ok_def)
  show ?thesis unfolding clean_old(1)
    by (intro flow_ok_service [OF assms(2)])
       (auto simp: doc_of_def mem_of_def cleanup_old_get [OF d] split: option.splits if_splits,
        auto simp: cleanup_old_tasks_def Let_def intro: tasks_ok_ddels [OF flow_okD(1) [OF assms(2)]])
next
  case (clean_zombie utc now ends h)
  have d: "distinct (dkeys (mm_tasks (sv_memory (fl_service s))))" using flow_okD(1) [OF assms(2)] by (simp add: tasks_ok_def)
  show ?thesis unfolding clean_zombie(1)
    by (intro flow_ok_service [OF assms(2)])
       (auto simp: doc_of_def mem_of_def cleanup_zombie_get [OF d] split: option.splits if_splits,
        auto simp: cleanup_zombie_tasks_def Let_def intro: tasks_ok_kills [OF flow_okD(1) [OF assms(2)]])
next
  case (validated i q evs v t)
  show ?thesis unfolding validated(1) by (rule flow_ok_runs [OF assms(2)]) (rule end_effects_ok(2))
next
  case (action i a as t)
  show ?thesis unfolding action(1) by (rule flow_ok_runs [OF assms(2)]) simp
next
  case (ended i as x t)
  show ?thesis unfolding ended(1) by (rule flow_ok_runs [OF assms(2)]) (rule end_effects_ok(1))
next
  case (run_effect i e es j sv' es1)
  show ?thesis unfolding run_effect(1) by (rule run_effect_ok [OF assms(2-4) run_effect(2,3)])
next
  case (mark_failed i t)
  show ?thesis unfolding mark_failed(1)
    by (rule flow_ok_requests [OF assms(2)]) (auto simp: request_form_def marking_def mark_effects_def)
next
  case (delete i)
  show ?thesis unfolding delete(1)
    by (rule flow_ok_requests [OF assms(2)]) (auto simp: request_form_def delete_effects_def)
next
  case (request_effect xs i e es ys sv' es1)
  show ?thesis unfolding request_effect(1) by (rule request_effect_ok [OF assms(2-4) request_effect(2,3)])
qed

lemma calm_flow_ok: "calm_reachable K tid s \<Longrightarrow> answering K \<Longrightarrow> flow_ok K tid s \<and> \<not> racing tid s"
proof (induction rule: calm_reachable.induct)
  case (start c)
  then show ?case
    by (simp add: flow_ok_def fresh_service_def tasks_ok_def empty_manager_def set_websocket_manager_def racing_def)
qed (blast intro: flow_ok_step)

text \<open>
  C7: While MongoDB answers, memory and the document of a task agree on a run that has made its last
  write, in every interleaving of the single accesses to the stores by runs, requests and cleanups
  in which no mark as failed of the task was in flight while its run wrote its end: when no mark
  of the task waits to write the document, the document has the state of memory, one that fits the
  outcome of the run, and the same error if it failed.
\<close>

theorem stores_agree:
  assumes "calm_reachable K tid s" "answering K" "fl_runs s tid = Some ([], Ended x)"
    "\<forall>es. (tid, es) \<in> set (fl_requests s) \<longrightarrow> \<not> marking es"
    "MemoryState.get_task tid (sv_memory (fl_service s)) = Some t" "t_find K tid (sv_docs (fl_service s)) = Some d"
  shows "ad_status d = status_value (tk_status t) \<and> (ad_status d = ''failed'' \<longrightarrow> ad_error d = tk_error_message t)
    \<and> tk_status t \<in> (case x of Inl e \<Rightarrow> {TsFailed, TsForeign AsFailed} | Inr res \<Rightarrow> {TsCompleted, TsFailed})"
proof -
  have "end_ok x [] (mem_of tid s) (doc_of K tid s) (waiting tid (fl_requests s))"
    using calm_flow_ok [OF assms(1,2)] flow_okD(3) assms(3) by blast
  moreover have "\<not> waiting tid (fl_requests s)" using assms(4) by (auto simp: waiting_def marking_def)
  ultimately have "same_end x t d" using assms(5,6)
    by (auto elim!: end_ok_cases simp: settled_def mem_of_def doc_of_def)
  then show ?thesis by (cases x) (simp_all add: same_end_def)
qed

text \<open>
  A mark as failed between the two last writes of a run that completes: memory ends failed, the
  document completed.
\<close>

lemma late_mark:
  assumes "answering K" "MemoryState.get_task tid (sv_memory sv) = Some t0" "t_find K tid (sv_docs sv) = Some d0"
    "sv1 = write_memory tid (done_update res) n sv" "sv2 = mark_task_as_failed K tid t sv1"
    "sv3 = write_doc K tid (set_status AsCompleted 100 None m) sv2"
  shows "\<exists>t d. MemoryState.get_task tid (sv_memory sv3) = Some t \<and> tk_status t = TsFailed
    \<and> t_find K tid (sv_docs sv3) = Some d \<and> ad_status d = ''completed''"
proof -
  have "MemoryState.get_task tid (sv_memory sv3) = map_option (apply_update mark_update (tm_memory t))
      (map_option (apply_update (done_update res) n) (MemoryState.get_task tid (sv_memory sv)))"
    unfolding assms(4-6) mark_task_as_failed_def mark_update_def txt_marked_def flow_simps by simp
  moreover have "t_find K tid (sv_docs (write_doc K tid g sv0)) = map_option g (t_find K tid (sv_docs sv0))" for g sv0
    using assms(1) by (simp add: write_doc_def answering_def)
  then have "\<exists>d. t_find K tid (sv_docs sv3) = Some (set_status AsCompleted 100 None m d)"
    using assms(3) unfolding assms(4-6) mark_task_as_failed_def by (simp add: flow_simps) blast
  ultimately show ?thesis using assms(2) by (auto simp: flow_simps marked_states status_doc)
qed

section \<open>A refused stock\<close>

text \<open>A run goes on with its effects while there is no request.\<close>

lemma run_performs:
  assumes "performs K i es sv sv'"
    "calm_reachable K tid \<lparr>fl_service = sv, fl_runs = runs(i \<mapsto> (es @ rest, j)), fl_requests = []\<rparr>"
  shows "calm_reachable K tid \<lparr>fl_service = sv', fl_runs = runs(i \<mapsto> (rest, j)), fl_requests = []\<rparr>"
  using assms
proof (induction rule: performs.induct)
  case (one e sv sv1 es1 es sv2)
  let ?s = "\<lparr>fl_service = sv, fl_runs = runs(i \<mapsto> ((e # es) @ rest, j)), fl_requests = []\<rparr>"
  have "flow_step K ?s (?s\<lparr>fl_service := sv1, fl_runs := (fl_runs ?s)(i \<mapsto> (es1 @ (es @ rest), j))\<rparr>)"
    by (rule flow_step.run_effect) (use one.hyps(1) in simp_all)
  from calm_reachable.step [OF one.prems this]
  have "calm_reachable K tid \<lparr>fl_service = sv1, fl_runs = runs(i \<mapsto> ((es1 @ es) @ rest, j)), fl_requests = []\<rparr>"
    by (simp add: racing_def)
  from one.IH [OF this] show ?case .
qed simp

definition ex_flow :: "(string, task_doc) dict flow" where
  "ex_flow = \<lparr>fl_service = ex_refused, fl_runs = [''t1'' \<mapsto> ([], Ended (Inl (invalid_text [] [])))], fl_requests = []\<rparr>"

lemma ex_flow_reachable: "calm_reachable dict_coll ''t1'' ex_flow"
proof -
  let ?s0 = "\<lparr>fl_service = fresh_service [], fl_runs = Map.empty, fl_requests = []\<rparr> :: (string, task_doc) dict flow"
  obtain name names where n: "resolve_stock_name (\<lambda>_. None) (get_symbol ex_request) (sv_names (fresh_service [] :: (string, task_doc) dict service)) = (name, names)" by force
  let ?now = "tm_memory ex_times" and ?later = "tm_doc ex_times"
  let ?es = "[EInsert ''u1'' (get_symbol ex_request) name ?later]"
  have c: "create_analysis_task dict_coll (\<lambda>_. None) ''t1'' ''u1'' ex_request ?now ?later (fresh_service []) = (Inr ''t1'', ex_submitted)"
    using ex_create [of ?now ?later] by (auto simp: ex_submitted_def)
  let ?s1 = "?s0\<lparr>fl_service := ex_submitted\<lparr>sv_docs := sv_docs (fl_service ?s0)\<rparr>,
    fl_runs := (fl_runs ?s0)(''t1'' \<mapsto> (?es, Submitted ex_request))\<rparr>"
  have "flow_step dict_coll ?s0 ?s1"
    by (rule flow_step.create [where lookup = "\<lambda>_. None" and now = ?now and i = "''t1''" and names = names])
       (use c n in \<open>simp_all add: fresh_service_def dict_coll_def\<close>)
  from calm_reachable.step [OF calm_reachable.start this]
  have "calm_reachable dict_coll ''t1'' ?s1" by (simp add: racing_def)
  then have "calm_reachable dict_coll ''t1'' \<lparr>fl_service = ex_submitted\<lparr>sv_docs := sv_docs (fresh_service [])\<rparr>,
      fl_runs = Map.empty(''t1'' \<mapsto> (?es @ [], Submitted ex_request)), fl_requests = []\<rparr>" by simp
  from run_performs [OF performs_create [OF c n] this]
  have s2: "calm_reachable dict_coll ''t1'' \<lparr>fl_service = ex_submitted, fl_runs = Map.empty(''t1'' \<mapsto> ([], Submitted ex_request)), fl_requests = []\<rparr>" .
  let ?s2 = "\<lparr>fl_service = ex_submitted, fl_runs = Map.empty(''t1'' \<mapsto> ([], Submitted ex_request)), fl_requests = []\<rparr>"
  let ?r = "outcome_effects ex_request (VdInvalid [] []) [] ex_times"
  have "flow_step dict_coll ?s2 (?s2\<lparr>fl_runs := (fl_runs ?s2)(''t1'' \<mapsto> ?r)\<rparr>)"
    by (rule flow_step.validated [where q = ex_request]) simp_all
  from calm_reachable.step [OF s2 this]
  have "calm_reachable dict_coll ''t1'' \<lparr>fl_service = ex_submitted,
      fl_runs = Map.empty(''t1'' \<mapsto> (fst ?r @ [], snd ?r)), fl_requests = []\<rparr>" by (simp add: racing_def)
  moreover have "performs dict_coll ''t1'' (fst ?r) ex_submitted ex_refused"
    by (simp add: ex_refused_def run_validated_def performs_append performs_handlers performs_simps)
  ultimately show ?thesis using run_performs by (fastforce simp: ex_flow_def)
qed

theorem stores_agree_witness:
  "\<exists>t d. MemoryState.get_task ''t1'' (sv_memory (fl_service ex_flow)) = Some t \<and> tk_status t = TsForeign AsFailed
   \<and> t_find dict_coll ''t1'' (sv_docs (fl_service ex_flow)) = Some d \<and> ad_status d = ''failed'' \<and> ad_error d = tk_error_message t"
proof -
  obtain t where t: "MemoryState.get_task ''t1'' (sv_memory (fl_service ex_flow)) = Some t" "tk_status t = TsForeign AsFailed"
    using ex_refused_stores(1) by (auto simp: ex_flow_def)
  obtain d where d: "t_find dict_coll ''t1'' (sv_docs (fl_service ex_flow)) = Some d"
    using ex_refused_stores(2) by (auto simp: ex_flow_def)
  have r: "fl_runs ex_flow ''t1'' = Some ([], Ended (Inl (invalid_text [] [])))"
    "\<forall>es. (''t1'', es) \<in> set (fl_requests ex_flow) \<longrightarrow> \<not> marking es" by (simp_all add: ex_flow_def)
  from stores_agree [OF ex_flow_reachable dict_coll_answers r t(1) d] t d show ?thesis by auto
qed

end
