(* ===== verification/PyRegex.thy ===== *)
theory PyRegex
  imports PyStr
begin

text \<open>
  Regular expressions of the \<open>re\<close> module, as far as the parsers of reports use them: classes of
  code points with a number of repetitions (greedy or lazy), sequences, optional parts, groups and
  alternatives. A match gives all ways to match in the order in which the backtracking matcher of
  Python tries them, each with the rest of the text and the captured groups.
\<close>

section \<open>Expressions and their matches\<close>

datatype rx = RCls "int \<Rightarrow> bool" nat "nat option" | RSeq rx rx | ROpt rx | RCap nat rx
  | RAlt rx rx | RLazy "int \<Rightarrow> bool" nat

type_synonym groups = "(nat \<times> ustr) list"

fun rmatch :: "rx \<Rightarrow> ustr \<Rightarrow> groups \<Rightarrow> (ustr \<times> groups) list" where
  "rmatch (RCls P lo hi) s g = (let n = length (takeWhile P s);
     m = (case hi of None \<Rightarrow> n | Some h \<Rightarrow> min n h) in
     map (\<lambda>k. (drop k s, g)) (rev [lo..<Suc m]))"
| "rmatch (RSeq a b) s g = concat (map (\<lambda>(s1, g1). rmatch b s1 g1) (rmatch a s g))"
| "rmatch (ROpt a) s g = rmatch a s g @ [(s, g)]"
| "rmatch (RCap i a) s g = map (\<lambda>(s1, g1). (s1, (i, take (length s - length s1) s) # g1)) (rmatch a s g)"
| "rmatch (RAlt a b) s g = rmatch a s g @ rmatch b s g"
| "rmatch (RLazy P lo) s g = map (\<lambda>k. (drop k s, g)) [lo..<Suc (length (takeWhile P s))]"

text \<open>\<open>re.search\<close>: the first match at the leftmost place that has one.\<close>

fun rsearch :: "rx \<Rightarrow> ustr \<Rightarrow> groups option" where
  "rsearch r [] = (case rmatch r [] [] of (s, g) # _ \<Rightarrow> Some g | [] \<Rightarrow> None)"
| "rsearch r (c # cs) = (case rmatch r (c # cs) [] of (s, g) # _ \<Rightarrow> Some g | [] \<Rightarrow> rsearch r cs)"

text \<open>A group that did not take part is no entry; the callers ask for groups that took part.\<close>

definition group :: "groups \<Rightarrow> nat \<Rightarrow> ustr" where
  "group g i = or_default (map_of g i) []"

definition rchar :: "int \<Rightarrow> rx" where "rchar c = RCls (\<lambda>x. x = c) 1 (Some 1)"

fun rseq :: "rx list \<Rightarrow> rx" where
  "rseq [] = RCls (\<lambda>x. False) 0 None"
| "rseq (r # rs) = RSeq r (rseq rs)"

definition rtext :: "ustr \<Rightarrow> rx list" where "rtext s = map rchar s"

definition rspace :: rx where "rspace = RCls u_space 0 None"

section \<open>Digits\<close>

text \<open>The first code points of the decades of decimal digits of Unicode, and \<open>int\<close> of a text of digits.\<close>

definition digit_starts :: "int list" where
  "digit_starts = [
     48, 1632, 1776, 1984, 2406, 2534, 2662, 2790, 2918, 3046, 3174, 3302, 3430, 3558, 3664, 3792,
     3872, 4160, 4240, 6112, 6160, 6470, 6608, 6784, 6800, 6992, 7088, 7232, 7248, 42528, 43216,
     43264, 43472, 43504, 43600, 44016, 65296, 66720, 68912, 69734, 69872, 69942, 70096, 70384,
     70736, 70864, 71248, 71360, 71472, 71904, 72016, 72784, 73040, 73120, 92768, 92864, 93008,
     120782, 120792, 120802, 120812, 120822, 123200, 123632, 125264, 130032]"

definition u_digit :: "int \<Rightarrow> bool" where
  "u_digit c = list_ex (\<lambda>s. s \<le> c \<and> c \<le> s + 9) digit_starts"

definition u_digit_value :: "int \<Rightarrow> int" where
  "u_digit_value c = (case find (\<lambda>s. s \<le> c \<and> c \<le> s + 9) digit_starts of Some s \<Rightarrow> c - s | None \<Rightarrow> 0)"

definition u_int :: "ustr \<Rightarrow> int" where
  "u_int s = fold (\<lambda>c n. n * 10 + u_digit_value c) s 0"

definition rdigits :: "nat \<Rightarrow> nat \<Rightarrow> rx" where "rdigits lo hi = RCls u_digit lo (Some hi)"

section \<open>The first match\<close>

definition rfirst :: "rx \<Rightarrow> ustr \<Rightarrow> groups \<Rightarrow> (ustr \<times> groups) option" where
  "rfirst r s g = (case rmatch r s g of x # xs \<Rightarrow> Some x | [] \<Rightarrow> None)"

lemma rfirst_Some: "rfirst r s g = Some x \<longleftrightarrow> (\<exists>xs. rmatch r s g = x # xs)"
  by (simp add: rfirst_def split: list.split)

lemma rfirst_seq: "rfirst a s g = Some (s1, g1) \<Longrightarrow> rfirst b s1 g1 = Some x \<Longrightarrow> rfirst (RSeq a b) s g = Some x"
  by (auto simp: rfirst_Some)

lemma rfirst_cls:
  assumes "list_all P ds" "rest = [] \<or> \<not> P (hd rest)" "lo \<le> length ds" "hi = None \<or> (\<exists>h. hi = Some h \<and> length ds \<le> h)"
  shows "rfirst (RCls P lo hi) (ds @ rest) g = Some (rest, g)"
proof -
  have "takeWhile P (ds @ rest) = ds" using assms(1,2)
    by (cases rest) (simp_all add: takeWhile_append2 list_all_iff takeWhile_tail)
  then have "(case hi of None \<Rightarrow> length (takeWhile P (ds @ rest)) | Some h \<Rightarrow> min (length (takeWhile P (ds @ rest))) h) = length ds"
    using assms(4) by (auto simp: min_def)
  then show ?thesis using assms(3) by (auto simp: rfirst_Some Let_def)
qed

lemma rfirst_char [simp]: "rfirst (rchar c) (c # s) g = Some (s, g)"
  using rfirst_cls [of "\<lambda>x. x = c" "[c]"] by (auto simp: rchar_def rfirst_def eval_nat_numeral)

lemma rmatch_char: "rmatch (rchar c) s g = (case s of x # xs \<Rightarrow> if x = c then [(xs, g)] else [] | [] \<Rightarrow> [])"
  by (cases s) (auto simp: rchar_def Let_def min_def)

lemma rmatch_char_seq:
  "rmatch (RSeq (rchar c) b) s g = (case s of x # xs \<Rightarrow> if x = c then rmatch b xs g else [] | [] \<Rightarrow> [])"
  by (simp add: rmatch_char split: list.split)

lemma rfirst_cap: "rfirst a (ds @ rest) g = Some (rest, g1) \<Longrightarrow> rfirst (RCap i a) (ds @ rest) g = Some (rest, (i, ds) # g1)"
  by (auto simp: rfirst_Some)

lemma rfirst_opt: "rfirst a s g = Some x \<Longrightarrow> rfirst (ROpt a) s g = Some x"
  by (auto simp: rfirst_Some)

lemma rfirst_opt_none: "rmatch a s g = [] \<Longrightarrow> rfirst (ROpt a) s g = Some (s, g)"
  by (simp add: rfirst_def)

lemma rsearch_hit: "rfirst r s [] = Some (s1, g) \<Longrightarrow> rsearch r s = Some g"
  by (cases s) (auto simp: rfirst_Some)

lemma rmatch_rtext: "rmatch (rseq (rtext p @ rs)) s g = (if take (length p) s = p then rmatch (rseq rs) (drop (length p) s) g else [])"
proof (induction p arbitrary: s)
  case (Cons c p)
  show ?case
    by (cases s) (simp_all del: rmatch.simps(2) add: rmatch_char_seq rtext_def Cons [unfolded rtext_def])
qed (simp add: rtext_def)

lemma rfirst_rtext: "rfirst (rseq rs) s g = x \<Longrightarrow> rfirst (rseq (rtext p @ rs)) (p @ s) g = x"
  by (simp add: rfirst_def rmatch_rtext)

lemma rsearch_within: "rmatch r t [] \<noteq> [] \<Longrightarrow> rsearch r (p @ t) \<noteq> None"
  by (induction p) (auto split: list.splits, cases t, auto split: list.splits)

text \<open>An expression that starts with a character is not found before its first occurrence.\<close>

lemma rsearch_skip: "c \<notin> set p \<Longrightarrow> rsearch (RSeq (rchar c) b) (p @ s) = rsearch (RSeq (rchar c) b) s"
  by (induction p) (simp_all del: rmatch.simps(2) add: rmatch_char_seq)

lemma rsearch_miss: "rmatch r (x # s) [] = [] \<Longrightarrow> rsearch r (x # s) = rsearch r s"
  by simp

lemma rsearch_None: "c \<notin> set s \<Longrightarrow> rsearch (RSeq (rchar c) b) s = None"
  using rsearch_skip [of c s b "[]"] by (simp del: rmatch.simps(2) add: rmatch_char_seq)

text \<open>An expression that needs a code point of a kind is not found in a text without one.\<close>

definition needs :: "(int \<Rightarrow> bool) \<Rightarrow> rx \<Rightarrow> bool" where
  "needs P r \<longleftrightarrow> (\<forall>s g. \<not> list_ex P s \<longrightarrow> rmatch r s g = [])"

lemma rsearch_needs: "needs P r \<Longrightarrow> \<not> list_ex P s \<Longrightarrow> rsearch r s = None"
  by (induction s) (auto simp: needs_def)

lemma needs_class: "needs P (RCls P (Suc 0) hi)"
proof -
  have "takeWhile P s = []" if "\<not> list_ex P s" for s using that by (cases s) simp_all
  then show ?thesis by (auto simp: needs_def Let_def split: option.split)
qed

lemma needs_head: "needs P a \<Longrightarrow> needs P (RSeq a b)"
  by (simp add: needs_def)

section \<open>What a group can capture\<close>

text \<open>The groups of an expression, each around one class.\<close>

fun rx_groups :: "rx \<Rightarrow> (nat \<times> rx) set" where
  "rx_groups (RCls P lo hi) = {}"
| "rx_groups (RSeq a b) = rx_groups a \<union> rx_groups b"
| "rx_groups (ROpt a) = rx_groups a"
| "rx_groups (RCap i a) = insert (i, a) (rx_groups a)"
| "rx_groups (RAlt a b) = rx_groups a \<union> rx_groups b"
| "rx_groups (RLazy P lo) = {}"

definition captured :: "rx \<Rightarrow> ustr \<Rightarrow> bool" where
  "captured r t \<longleftrightarrow> (\<exists>s g s1 g1. s = t @ s1 \<and> (s1, g1) \<in> set (rmatch r s g))"

lemma rmatch_suffix: "(s1, g1) \<in> set (rmatch r s g) \<Longrightarrow> \<exists>t. s = t @ s1"
proof (induction r arbitrary: s s1 g g1)
  case (RCls P lo hi)
  then show ?case by (auto simp: Let_def intro: append_take_drop_id [symmetric])
next
  case (RSeq a b)
  then obtain s2 g2 where "(s2, g2) \<in> set (rmatch a s g)" "(s1, g1) \<in> set (rmatch b s2 g2)" by auto
  with RSeq.IH [of s2 g2 s g] RSeq.IH(2) [of s1 g1 s2 g2] show ?case by (metis append.assoc)
next
  case (RLazy P lo)
  then show ?case by (auto intro: append_take_drop_id [symmetric])
qed auto

lemma needs_tail: "needs P b \<Longrightarrow> needs P (RSeq a b)"
proof -
  assume b: "needs P b"
  have "rmatch b s1 g1 = []" if "\<not> list_ex P s" "(s1, g1) \<in> set (rmatch a s g)" for s g s1 g1
    using rmatch_suffix [OF that(2)] b that(1) by (auto simp: needs_def)
  then show ?thesis by (force simp: needs_def)
qed

lemma rmatch_groups:
  "(s1, g1) \<in> set (rmatch r s g) \<Longrightarrow> (i, t) \<in> set g1 \<Longrightarrow> (i, t) \<in> set g \<or> (\<exists>a. (i, a) \<in> rx_groups r \<and> captured a t)"
proof (induction r arbitrary: s s1 g g1)
  case (RSeq a b)
  then show ?case by fastforce
next
  case (RCap j a)
  then obtain g2 where m: "(s1, g2) \<in> set (rmatch a s g)" "g1 = (j, take (length s - length s1) s) # g2" by auto
  obtain u where u: "s = u @ s1" using rmatch_suffix [OF m(1)] by blast
  then have "captured a (take (length s - length s1) s)" using m(1) by (auto simp: captured_def)
  then show ?case using RCap.IH [OF m(1)] m(2) RCap.prems(2) by auto
next
  case (RAlt a b)
  then show ?case by (simp only: rmatch.simps rx_groups.simps set_append Un_iff) blast
qed (auto simp: Let_def)

lemma rmatch_cls: "(s1, g1) \<in> set (rmatch (RCls P lo (Some h)) u g) \<Longrightarrow> \<exists>k. s1 = drop k u \<and> k \<le> min (length (takeWhile P u)) h"
  by (auto simp: Let_def intro: less_imp_le)

lemma captured_cls: "captured (RCls P lo (Some h)) t \<Longrightarrow> list_all P t \<and> length t \<le> h"
proof -
  assume "captured (RCls P lo (Some h)) t"
  then obtain s1 g g1 where "(s1, g1) \<in> set (rmatch (RCls P lo (Some h)) (t @ s1) g)" by (auto simp: captured_def)
  from rmatch_cls [OF this] obtain k where k: "drop k (t @ s1) = s1" "k \<le> min (length (takeWhile P (t @ s1))) h" by metis
  have "k \<le> length (t @ s1)" using k(2) length_takeWhile_le [of P "t @ s1"] by linarith
  then have "k = length t" using arg_cong [OF k(1), of length] by (cases s1) auto
  then have "t = take k (takeWhile P (t @ s1))" using k(2)
    by (metis append_eq_conv_conj min.bounded_iff takeWhile_eq_take take_take min.absorb1)
  then show ?thesis using \<open>k = length t\<close> k(2) by (metis in_set_takeD list_all_iff min.bounded_iff set_takeWhileD)
qed

lemma rsearch_groups:
  assumes "rsearch r s = Some g" "(i, t) \<in> set g"
  shows "\<exists>a. (i, a) \<in> rx_groups r \<and> captured a t"
  using assms
proof (induction s)
  case Nil
  then show ?case using rmatch_groups [of _ g r "[]" "[]" i t] by (auto split: list.splits)
next
  case (Cons c s)
  then show ?case using rmatch_groups [of _ g r "c # s" "[]" i t] by (auto split: list.splits)
qed

lemma u_digit_value_range: "0 \<le> u_digit_value c" "u_digit_value c \<le> 9"
  by (auto simp: u_digit_value_def find_Some_iff split: option.split)

lemma u_int_bounds: "0 \<le> u_int s \<and> u_int s < 10 ^ length s"
proof -
  have "0 \<le> fold (\<lambda>c n. n * 10 + u_digit_value c) s n \<and> fold (\<lambda>c n. n * 10 + u_digit_value c) s n < (n + 1) * 10 ^ length s"
    if "0 \<le> n" for n using that
  proof (induction s arbitrary: n)
    case (Cons c s)
    have v: "0 \<le> n * 10 + u_digit_value c" "n * 10 + u_digit_value c + 1 \<le> (n + 1) * 10"
      using Cons.prems u_digit_value_range [of c] by simp_all
    have "(n * 10 + u_digit_value c + 1) * 10 ^ length s \<le> (n + 1) * 10 * 10 ^ length s"
      using v(2) by (intro mult_right_mono) simp_all
    moreover have "(n + 1) * 10 * 10 ^ length s = (n + 1) * 10 ^ length (c # s)" by simp
    ultimately have "(n * 10 + u_digit_value c + 1) * 10 ^ length s \<le> (n + 1) * 10 ^ length (c # s)" by simp
    with Cons.IH [OF v(1)] show ?case unfolding fold_simps comp_apply by (meson less_le_trans)
  qed simp
  from this [of 0] show ?thesis by (simp add: u_int_def)
qed

lemma ustr_digit: "d < 10 \<Longrightarrow> ustr_of [digit_of d] = [48 + int d]"
proof -
  assume "d < 10"
  then have "(of_char (digit_of d) :: nat) = 48 + d" by (simp add: digit_of_def)
  then have "(of_char (digit_of d) :: int) = int (48 + d)" by (metis of_nat_of_char)
  then show ?thesis by (simp add: ustr_of_def)
qed

lemma ascii_digit: "48 \<le> c \<Longrightarrow> c \<le> 57 \<Longrightarrow> u_digit c" "48 \<le> c \<Longrightarrow> c \<le> 57 \<Longrightarrow> u_digit_value c = c - 48"
  by (simp_all add: u_digit_def u_digit_value_def digit_starts_def)

text \<open>Reading back the decimal notation of a number.\<close>

definition u_dec :: "nat \<Rightarrow> ustr" where "u_dec n = ustr_of (dec_nat n)"

lemma u_dec_rec: "u_dec n = (if n < 10 then [48 + int n] else u_dec (n div 10) @ [48 + int (n mod 10)])"
  using ustr_digit [of n] ustr_digit [of "n mod 10"]
  by (simp add: u_dec_def dec_nat.simps [of n]) (simp add: ustr_of_def)

lemma u_dec_digits: "u_dec n \<noteq> [] \<and> (\<forall>c \<in> set (u_dec n). 48 \<le> c \<and> c \<le> 57)"
proof (induction n rule: less_induct)
  case (less n)
  show ?case
  proof (cases "n < 10")
    case True
    then show ?thesis by (subst (1 2) u_dec_rec) simp
  next
    case False
    then show ?thesis using less.IH [of "n div 10"] by (subst (1 2) u_dec_rec) auto
  qed
qed

lemma u_int_snoc: "u_int (s @ [c]) = u_int s * 10 + u_digit_value c"
  by (simp add: u_int_def)

lemma u_int_dec: "u_int (u_dec n) = int n"
proof (induction n rule: less_induct)
  case (less n)
  show ?case
  proof (cases "n < 10")
    case True
    then show ?thesis by (subst u_dec_rec) (simp add: u_int_def ascii_digit)
  next
    case False
    then have "u_int (u_dec n) = int (n div 10) * 10 + int (n mod 10)"
      using less.IH [of "n div 10"] by (subst u_dec_rec) (simp add: u_int_snoc ascii_digit)
    then show ?thesis by presburger
  qed
qed

lemma u_dec_length: "n < 10 ^ k \<Longrightarrow> 0 < k \<Longrightarrow> length (u_dec n) \<le> k"
proof (induction k arbitrary: n)
  case (Suc k)
  show ?case
  proof (cases "n < 10")
    case True
    then show ?thesis by (subst u_dec_rec) simp
  next
    case False
    then have "0 < k" using Suc.prems(1) by (cases k) simp_all
    moreover have "n div 10 < 10 ^ k" using Suc.prems(1) by (simp add: less_mult_imp_div_less mult.commute)
    ultimately show ?thesis using Suc.IH [of "n div 10"] False by (subst u_dec_rec) simp
  qed
qed simp

end
