(* ===== verification/ReportScores.thy ===== *)
theory ReportScores
  imports PyRegex "HOL-Library.List_Lexorder"
begin

text \<open>
  The scores of a report, \<open>pipeline/report_scores.py\<close>: the trend score and the winning chance are
  parsed from the Markdown text of the language models, and printed for the report. The file of
  a report may be absent or unreadable. \<open>feishu_notify.py\<close> takes the newest directory with a score.
\<close>

section \<open>The patterns\<close>

definition u_colon :: "int \<Rightarrow> bool" where "u_colon c \<longleftrightarrow> c = 65306 \<or> c = 58"

definition not_colon :: "int \<Rightarrow> bool" where "not_colon c \<longleftrightarrow> \<not> u_colon c \<and> c \<noteq> 10"

definition about :: "int \<Rightarrow> bool" where "about c \<longleftrightarrow> c = 42 \<or> c = 32422 \<or> c = 126 \<or> u_space c"

definition until_mark :: "int \<Rightarrow> bool" where "until_mark c \<longleftrightarrow> c = 45 \<or> c = 126 \<or> c = 33267 \<or> c = 21040"

definition one :: "(int \<Rightarrow> bool) \<Rightarrow> rx" where "one P = RCls P 1 (Some 1)"

definition txt_chan :: ustr where "txt_chan = [32508, 21512, 35780, 20998]"

definition txt_win :: ustr where "txt_win = [36194, 38754]"

definition chan_score_re :: rx where
  "chan_score_re = rseq (rtext txt_chan @ [RCls not_colon 0 (Some 4), one u_colon, rspace, RCap 1 (rdigits 1 2), rspace,
     ROpt (rseq [rchar 47, rspace, rchar 49, rchar 48]), rspace, ROpt (rchar 20998)])"

definition win_head :: "rx list" where
  "win_head = rtext txt_win @ [RCls not_colon 0 (Some 8), one u_colon, rspace, RCls about 0 None]"

definition winrate_range_re :: rx where
  "winrate_range_re = rseq (win_head @ [RCap 1 (rdigits 1 3), rspace, ROpt (rchar 37), rspace, one until_mark, rspace,
     RCap 2 (rdigits 1 3), rspace, ROpt (rchar 37)])"

definition winrate_single_re :: rx where
  "winrate_single_re = rseq (win_head @ [ROpt (RCap 1 (rchar 60)), rspace, RCap 2 (rdigits 1 3), rspace, rchar 37])"

definition winrate_lt_re :: rx where
  "winrate_lt_re = rseq (rtext txt_win @ [rspace, one (\<lambda>c. c = 60 \<or> c = 65308), rspace, RCap 1 (rdigits 1 3), rspace, rchar 37])"

definition winrate_free_re :: rx where
  "winrate_free_re = rseq (rtext txt_win @ [rspace, RCap 1 (rdigits 1 3), rspace, one until_mark, rspace,
     RCap 2 (rdigits 1 3), rspace, rchar 37])"

section \<open>Parsing and printing\<close>

definition parse_chan_score :: "ustr \<Rightarrow> int option" where
  "parse_chan_score md = (if md = [] then None else (case rsearch chan_score_re md of None \<Rightarrow> None
     | Some g \<Rightarrow> Some (max 1 (min 10 (u_int (group g 1))))))"

text \<open>An interval of percentages, low and high.\<close>

type_synonym winrate = "int \<times> int"

definition interval :: "groups \<Rightarrow> winrate" where
  "interval g = (min (u_int (group g 1)) (u_int (group g 2)), max (u_int (group g 1)) (u_int (group g 2)))"

definition below :: "int \<Rightarrow> winrate" where "below v = (0, max 0 (v - 1))"

definition parse_yangjia_winrate :: "ustr \<Rightarrow> winrate option" where
  "parse_yangjia_winrate md = (if md = [] then None else
     (case rsearch winrate_range_re md of Some g \<Rightarrow> Some (interval g) | None \<Rightarrow>
     (case rsearch winrate_single_re md of
        Some g \<Rightarrow> Some (if group g 1 \<noteq> [] then below (u_int (group g 2)) else (u_int (group g 2), u_int (group g 2)))
      | None \<Rightarrow>
     (case rsearch winrate_lt_re md of Some g \<Rightarrow> Some (below (u_int (group g 1))) | None \<Rightarrow>
     (case rsearch winrate_free_re md of Some g \<Rightarrow> Some (interval g) | None \<Rightarrow> None)))))"

definition u_int_str :: "int \<Rightarrow> ustr" where "u_int_str i = ustr_of (int_str i)"

definition format_winrate :: "winrate option \<Rightarrow> ustr" where
  "format_winrate w = (case w of None \<Rightarrow> [8212]
     | Some (low, high) \<Rightarrow> if low = 0 then [60] @ u_int_str (high + 1) @ [37]
         else if low = high then u_int_str low @ [37]
         else u_int_str low @ [45] @ u_int_str high @ [37])"

section \<open>The files\<close>

datatype text_file = NoText | Unreadable | Text ustr

record scores =
  sc_chan :: "int option"
  sc_win :: "winrate option"

definition load_scores :: "text_file \<Rightarrow> text_file \<Rightarrow> scores" where
  "load_scores czsc yangjia = \<lparr>sc_chan = (case czsc of Text t \<Rightarrow> parse_chan_score t | _ \<Rightarrow> None),
     sc_win = (case yangjia of Text t \<Rightarrow> parse_yangjia_winrate t | _ \<Rightarrow> None)\<rparr>"

text \<open>
  \<open>_load_stock_scores\<close>: the directories of the stock by their names; a date without a directory has
  no files. \<open>None\<close> is the empty dict.
\<close>

definition has_scores :: "scores \<Rightarrow> bool" where
  "has_scores s \<longleftrightarrow> sc_chan s \<noteq> None \<or> sc_win s \<noteq> None"

definition scores_of_day :: "(ustr, text_file \<times> text_file) dict \<Rightarrow> ustr \<Rightarrow> scores" where
  "scores_of_day dirs d = (case dget_default dirs d (NoText, NoText) of (c, y) \<Rightarrow> load_scores c y)"

definition load_stock_scores :: "(ustr, text_file \<times> text_file) dict \<Rightarrow> ustr \<Rightarrow> scores option" where
  "load_stock_scores dirs day = (if has_scores (scores_of_day dirs day) then Some (scores_of_day dirs day)
     else find has_scores (map (scores_of_day dirs) (rev (sort (dkeys dirs)))))"

section \<open>Bounds of what is parsed\<close>

lemma digit_group:
  assumes "rsearch r s = Some g" "\<forall>a. (i, a) \<in> rx_groups r \<longrightarrow> (\<exists>lo. a = rdigits lo k)"
  shows "0 \<le> u_int (group g i) \<and> u_int (group g i) < 10 ^ k"
proof (cases "map_of g i")
  case None
  then show ?thesis by (simp add: group_def u_int_def)
next
  case (Some t)
  then obtain a where "(i, a) \<in> rx_groups r" "captured a t" using rsearch_groups [OF assms(1) map_of_SomeD] by blast
  then have "length t \<le> k" using assms(2) captured_cls by (auto simp: rdigits_def)
  then have "(10::int) ^ length t \<le> 10 ^ k" by (simp add: power_increasing)
  then show ?thesis using Some u_int_bounds [of t] by (auto simp: group_def intro: less_le_trans)
qed

lemmas re_defs = chan_score_re_def winrate_range_re_def winrate_single_re_def winrate_lt_re_def winrate_free_re_def
  win_head_def rtext_def txt_win_def txt_chan_def rspace_def one_def rchar_def

text \<open>
  Whatever the language model writes, a parsed trend score is between 1 and 10, and a parsed
  winning chance is an interval of at least zero, in order, and of at most three digits.
\<close>

theorem parsed_scores_bounds:
  "(case parse_chan_score md of None \<Rightarrow> True | Some s \<Rightarrow> 1 \<le> s \<and> s \<le> 10)
   \<and> (case parse_yangjia_winrate md of None \<Rightarrow> True | Some (low, high) \<Rightarrow> 0 \<le> low \<and> low \<le> high \<and> high \<le> 999)"
proof -
  have r: "rsearch winrate_range_re md = Some g \<Longrightarrow> 0 \<le> u_int (group g 1) \<and> u_int (group g 1) < 10 ^ 3
      \<and> 0 \<le> u_int (group g 2) \<and> u_int (group g 2) < 10 ^ 3" for g
    using digit_group [of winrate_range_re md g 1 3] digit_group [of winrate_range_re md g 2 3] by (simp add: re_defs rdigits_def)
  have f: "rsearch winrate_free_re md = Some g \<Longrightarrow> 0 \<le> u_int (group g 1) \<and> u_int (group g 1) < 10 ^ 3
      \<and> 0 \<le> u_int (group g 2) \<and> u_int (group g 2) < 10 ^ 3" for g
    using digit_group [of winrate_free_re md g 1 3] digit_group [of winrate_free_re md g 2 3] by (simp add: re_defs rdigits_def)
  have s: "rsearch winrate_single_re md = Some g \<Longrightarrow> 0 \<le> u_int (group g 2) \<and> u_int (group g 2) < 10 ^ 3" for g
    using digit_group [of winrate_single_re md g 2 3] by (simp add: re_defs rdigits_def)
  have l: "rsearch winrate_lt_re md = Some g \<Longrightarrow> 0 \<le> u_int (group g 1) \<and> u_int (group g 1) < 10 ^ 3" for g
    using digit_group [of winrate_lt_re md g 1 3] by (simp add: re_defs rdigits_def)
  have "case parse_yangjia_winrate md of None \<Rightarrow> True | Some (low, high) \<Rightarrow> 0 \<le> low \<and> low \<le> high \<and> high \<le> 999"
    using r s l f by (auto simp: parse_yangjia_winrate_def interval_def below_def min_def max_def split: option.split)
  moreover have "case parse_chan_score md of None \<Rightarrow> True | Some s \<Rightarrow> 1 \<le> s \<and> s \<le> 10"
    by (simp add: parse_chan_score_def split: option.split)
  ultimately show ?thesis by blast
qed

section \<open>Reading back a printed chance\<close>

lemma u_int_str_dec: "0 \<le> i \<Longrightarrow> u_int_str i = u_dec (nat i)"
  by (simp add: u_int_str_def u_dec_def int_str_def)

text \<open>The digits of a percentage: what the classes of the patterns do at their first character.\<close>

definition digits :: "ustr \<Rightarrow> int \<Rightarrow> bool" where
  "digits ds v \<longleftrightarrow> ds \<noteq> [] \<and> length ds \<le> 3 \<and> (\<forall>c \<in> set ds. 48 \<le> c \<and> c \<le> 57) \<and> u_int ds = v"

lemma digits_dec: "0 \<le> v \<Longrightarrow> v \<le> 999 \<Longrightarrow> digits (u_dec (nat v)) v"
  using u_dec_digits [of "nat v"] u_dec_length [of "nat v" 3] u_int_dec [of "nat v"]
  by (simp add: digits_def)

lemma digits_cls:
  assumes "digits ds v" "rest = [] \<or> \<not> u_digit (hd rest)"
  shows "rfirst (RCap i (rdigits 1 3)) (ds @ rest) g = Some (rest, (i, ds) # g)"
  using assms by (intro rfirst_cap) (auto simp: rdigits_def digits_def list_all_iff ascii_digit Suc_le_eq intro!: rfirst_cls)

lemma not_taken: "lo = 0 \<Longrightarrow> s \<noteq> [] \<Longrightarrow> \<not> P (hd s) \<Longrightarrow> rfirst (RCls P lo hi) s g = Some (s, g)"
  using rfirst_cls [of P "[]" s lo hi g] by (cases hi) auto

lemma taken: "P c \<Longrightarrow> rfirst (one P) (c # s) g = Some (s, g)"
  by (auto simp: one_def rfirst_def eval_nat_numeral)

lemma digits_head: "digits ds v \<Longrightarrow> 48 \<le> hd (ds @ rest) \<and> hd (ds @ rest) \<le> 57"
  by (cases ds) (auto simp: digits_def)

lemma digit_kinds: "48 \<le> c \<Longrightarrow> c \<le> 57 \<Longrightarrow> \<not> u_space c \<and> \<not> about c \<and> \<not> until_mark c \<and> c \<noteq> 60 \<and> c \<noteq> 37"
  by (auto simp: about_def until_mark_def u_space_def)

lemma rseq_first: "rfirst r s g = Some (s1, g1) \<Longrightarrow> rfirst (rseq rs) s1 g1 = Some x \<Longrightarrow> rfirst (rseq (r # rs)) s g = Some x"
  by (simp only: rseq.simps) (rule rfirst_seq)

lemma rseq_nil: "rfirst (rseq []) s g = Some (s, g)"
  by (cases s) (simp_all add: rfirst_def Let_def)

lemma no_char: "s = [] \<or> hd s \<noteq> c \<Longrightarrow> rfirst (ROpt (rchar c)) s g = Some (s, g)"
  by (rule rfirst_opt_none) (cases s, simp_all add: rmatch_char)

lemma a_char: "rfirst (ROpt (rchar c)) (c # s) g = Some (s, g)"
  by (rule rfirst_opt) simp

lemma no_space: "s = [] \<or> \<not> u_space (hd s) \<Longrightarrow> rfirst rspace s g = Some (s, g)"
  using rfirst_cls [of u_space "[]" s 0 None g] by (simp add: rspace_def)

lemma win_head_first:
  assumes "s \<noteq> []" "\<not> u_space (hd s)" "\<not> about (hd s)" "rfirst (rseq rs) s g = Some x"
  shows "rfirst (rseq (win_head @ rs)) (txt_win @ [65306] @ s) g = Some x"
proof -
  have c: "\<not> not_colon 65306" "u_colon 65306" by (simp_all add: not_colon_def u_colon_def)
  show ?thesis unfolding win_head_def rtext_def txt_win_def list.map append.simps
    by (rule rseq_first, rule rfirst_char, rule rseq_first, rule rfirst_char, rule rseq_first, rule not_taken,
        simp, simp, simp add: c, rule rseq_first, rule taken, simp add: c, rule rseq_first, rule no_space, simp add: assms(2),
        rule rseq_first, rule not_taken, simp, simp add: assms(1), simp add: assms(3), rule assms(4))
qed

lemma win_range:
  assumes "digits a v" "digits b w"
  shows "rsearch winrate_range_re (txt_win @ [65306] @ a @ [45] @ b @ [37]) = Some [(2, b), (1, a)]"
proof (rule rsearch_hit)
  note k = digit_kinds [of "hd (a @ rest)" for rest] digits_head [OF assms(1)]
  have m: "until_mark 45" "\<not> u_space 45" "\<not> u_digit 45" "\<not> u_space 37" "\<not> u_digit 37"
    by (simp_all add: until_mark_def u_space_def u_digit_def digit_starts_def)
  have "rfirst (rseq [RCap 1 (rdigits 1 3), rspace, ROpt (rchar 37), rspace, one until_mark, rspace,
     RCap 2 (rdigits 1 3), rspace, ROpt (rchar 37)]) (a @ [45] @ b @ [37]) [] = Some ([], [(2, b), (1, a)])"
    by (rule rseq_first, rule digits_cls [OF assms(1)], simp add: m, rule rseq_first, rule no_space, simp add: m,
        rule rseq_first, rule no_char, simp, rule rseq_first, rule no_space, simp add: m,
        simp only: append.simps, rule rseq_first, rule taken, simp add: m, rule rseq_first, rule no_space,
        simp add: digit_kinds digits_head [OF assms(2)], rule rseq_first, rule digits_cls [OF assms(2)], simp add: m,
        rule rseq_first, rule no_space, simp add: m, rule rseq_first, rule a_char, rule rseq_nil)
  then show "rfirst winrate_range_re (txt_win @ [65306] @ a @ [45] @ b @ [37]) [] = Some ([], [(2, b), (1, a)])"
    unfolding winrate_range_re_def
    by (intro win_head_first) (use k in simp_all)
qed

lemma needs_mark: "needs until_mark winrate_range_re" "needs until_mark winrate_free_re"
  by (simp_all add: winrate_range_re_def winrate_free_re_def win_head_def rtext_def txt_win_def one_def)
    (intro needs_tail needs_head needs_class)+

lemma win_single:
  assumes "digits a v"
  shows "rsearch winrate_single_re (txt_win @ [65306] @ a @ [37]) = Some [(2, a)]"
    and "rsearch winrate_single_re (txt_win @ [65306] @ [60] @ a @ [37]) = Some [(2, a), (1, [60])]"
proof -
  have k: "\<not> u_space (hd (a @ rest))" "\<not> about (hd (a @ rest))" "hd (a @ rest) \<noteq> 60" for rest
    using digit_kinds [of "hd (a @ rest)"] digits_head [OF assms, of rest] by auto
  have m: "\<not> u_space 60" "\<not> about 60" "\<not> u_space 37" "\<not> u_digit 37"
    by (simp_all add: about_def u_space_def u_digit_def digit_starts_def)
  have r: "rfirst (rseq [rspace, RCap 2 (rdigits 1 3), rspace, rchar 37]) (a @ [37]) g = Some ([], (2, a) # g)" for g
    by (rule rseq_first, rule no_space, simp add: k, rule rseq_first, rule digits_cls [OF assms], simp add: m,
        rule rseq_first, rule no_space, simp add: m, rule rseq_first, rule rfirst_char, rule rseq_nil)
  have n: "rmatch (RCap 1 (rchar 60)) (a @ [37]) [] = []" using k(3) [of "[37]"]
    by (cases "a @ [37]") (simp_all add: rmatch_char)
  have "rfirst (RCap 1 (rchar 60)) ([60] @ a @ [37]) [] = Some (a @ [37], [(1, [60])])"
    by (rule rfirst_cap) simp
  then have "rfirst (rseq [ROpt (RCap 1 (rchar 60)), rspace, RCap 2 (rdigits 1 3), rspace, rchar 37]) ([60] @ a @ [37]) []
      = Some ([], [(2, a), (1, [60])])"
    by (intro rseq_first [OF rfirst_opt r])
  then show "rsearch winrate_single_re (txt_win @ [65306] @ [60] @ a @ [37]) = Some [(2, a), (1, [60])]"
    unfolding winrate_single_re_def by (intro rsearch_hit win_head_first) (simp_all add: m)
  have "rfirst (rseq [ROpt (RCap 1 (rchar 60)), rspace, RCap 2 (rdigits 1 3), rspace, rchar 37]) (a @ [37]) []
      = Some ([], [(2, a)])"
    by (rule rseq_first [OF rfirst_opt_none [OF n] r])
  then show "rsearch winrate_single_re (txt_win @ [65306] @ a @ [37]) = Some [(2, a)]"
    unfolding winrate_single_re_def by (intro rsearch_hit win_head_first) (use k in simp_all)
qed

lemma no_mark: "digits a v \<Longrightarrow> \<not> list_ex until_mark (txt_win @ [65306] @ p @ a @ [37]) \<longleftrightarrow> \<not> list_ex until_mark p"
  using digit_kinds by (auto simp: digits_def list_ex_iff txt_win_def until_mark_def)

text \<open>
  A winning chance as the report prints it is read back as it was: if a text repeats a printed
  chance after its keyword, the parser gives the same interval. It holds for every interval in order
  with figures up to 998, whichever of the three printed forms it takes.
\<close>

theorem winrate_roundtrip:
  assumes "0 \<le> low" "low \<le> high" "high \<le> 998"
  shows "parse_yangjia_winrate (txt_win @ [65306] @ format_winrate (Some (low, high))) = Some (low, high)"
proof -
  let ?l = "u_dec (nat low)" and ?h = "u_dec (nat high)" and ?s = "u_dec (nat (high + 1))"
  have d: "digits ?l low" "digits ?h high" "digits ?s (high + 1)" using assms by (simp_all add: digits_dec)
  have u: "u_int ?l = low" "u_int ?h = high" "u_int ?s = high + 1" using d by (simp_all add: digits_def)
  have n: "rsearch winrate_range_re (txt_win @ [65306] @ p @ a @ [37]) = None" if "digits a v" "p = [] \<or> p = [60]" for a v p
    using that no_mark [OF that(1), of p] by (intro rsearch_needs [OF needs_mark(1)]) (auto simp add: until_mark_def [of 60])
  consider "low = 0" | "0 < low" "low = high" | "0 < low" "low < high" using assms by linarith
  then show ?thesis
  proof cases
    case 1
    then show ?thesis using n [OF d(3), of "[60]"] win_single(2) [OF d(3)] assms u(3)
      by (simp add: parse_yangjia_winrate_def format_winrate_def u_int_str_dec group_def or_default_def below_def)
  next
    case 2
    then show ?thesis using n [OF d(1), of "[]"] win_single(1) [OF d(1)] assms u(1)
      by (simp add: parse_yangjia_winrate_def format_winrate_def u_int_str_dec group_def or_default_def)
  next
    case 3
    then show ?thesis using win_range [OF d(1,2)] assms u
      by (simp add: parse_yangjia_winrate_def format_winrate_def u_int_str_dec group_def or_default_def interval_def)
  qed
qed

lemma winrate_roundtrip_witness:
  "parse_yangjia_winrate (txt_win @ [65306] @ format_winrate (Some (0, 39))) = Some (0, 39)
   \<and> parse_yangjia_winrate (txt_win @ [65306] @ format_winrate (Some (30, 35))) = Some (30, 35)"
  using winrate_roundtrip [of 0 39] winrate_roundtrip [of 30 35] by simp

end
