(* ===== verification/StockUtils.thy ===== *)
theory StockUtils
  imports ReportScores
begin

text \<open>
  Stock codes and prices in texts, \<open>tradingagents/utils/stock_utils.py\<close>: the market of a code, its
  currency and data source, the normal form of the codes of Hong Kong, and the current price found
  in a report. The quotation of a data source is a parameter.
\<close>

section \<open>Markets\<close>

datatype stock_market = ChinaA | HongKong | UnitedStates | UnknownMarket

text \<open>\<open>str.upper\<close> as far as it gives ASCII letters: all else stays as it is.\<close>

definition ascii_upper_char :: "int \<Rightarrow> ustr" where
  "ascii_upper_char c = (if 97 \<le> c \<and> c \<le> 122 then [c - 32]
     else if c = 305 then [73] else if c = 383 then [83] else if c = 223 then [83, 83]
     else if c = 64256 then [70, 70] else if c = 64257 then [70, 73] else if c = 64258 then [70, 76]
     else if c = 64259 then [70, 70, 73] else if c = 64260 then [70, 70, 76] else if c = 64261 \<or> c = 64262 then [83, 84]
     else [c])"

definition ascii_upper :: "ustr \<Rightarrow> ustr" where "ascii_upper s = concat (map ascii_upper_char s)"

definition stripped_ticker :: "ustr \<Rightarrow> ustr" where "stripped_ticker t = ascii_upper (u_strip t)"

definition digits_only :: "nat \<Rightarrow> nat \<Rightarrow> ustr \<Rightarrow> bool" where
  "digits_only lo hi s \<longleftrightarrow> lo \<le> length s \<and> length s \<le> hi \<and> list_all u_digit s"

definition hk_suffix :: ustr where "hk_suffix = [46, 72, 75]"

definition hk_form :: "ustr \<Rightarrow> bool" where
  "hk_form s \<longleftrightarrow> endswith s hk_suffix \<and> digits_only 4 5 (take (length s - 3) s)"

definition identify_stock_market :: "ustr \<Rightarrow> stock_market" where
  "identify_stock_market ticker = (let t = stripped_ticker ticker in
     if ticker = [] then UnknownMarket
     else if digits_only 6 6 t then ChinaA
     else if hk_form t \<or> digits_only 4 5 t then HongKong
     else if 1 \<le> length t \<and> length t \<le> 5 \<and> list_all (\<lambda>c. 65 \<le> c \<and> c \<le> 90) t then UnitedStates
     else UnknownMarket)"

definition is_china_stock :: "ustr \<Rightarrow> bool" where "is_china_stock t \<longleftrightarrow> identify_stock_market t = ChinaA"
definition is_hk_stock :: "ustr \<Rightarrow> bool" where "is_hk_stock t \<longleftrightarrow> identify_stock_market t = HongKong"
definition is_us_stock :: "ustr \<Rightarrow> bool" where "is_us_stock t \<longleftrightarrow> identify_stock_market t = UnitedStates"

definition get_currency_info :: "ustr \<Rightarrow> ustr \<times> ustr" where
  "get_currency_info t = (case identify_stock_market t of
     ChinaA \<Rightarrow> ([20154, 27665, 24065], [165]) | HongKong \<Rightarrow> ([28207, 24065], [72, 75, 36]) | UnitedStates \<Rightarrow> ([32654, 20803], [36])
   | UnknownMarket \<Rightarrow> ([26410, 30693], [63]))"

definition get_data_source :: "ustr \<Rightarrow> string" where
  "get_data_source t = (case identify_stock_market t of
     ChinaA \<Rightarrow> ''china_unified'' | HongKong \<Rightarrow> ''yahoo_finance'' | UnitedStates \<Rightarrow> ''yahoo_finance'' | UnknownMarket \<Rightarrow> ''unknown'')"

definition normalize_hk_ticker :: "ustr \<Rightarrow> ustr" where
  "normalize_hk_ticker ticker = (if ticker = [] then ticker
     else let t = stripped_ticker ticker in if digits_only 4 5 t then t @ hk_suffix else t)"

definition market_value :: "stock_market \<Rightarrow> string" where
  "market_value m = (case m of ChinaA \<Rightarrow> ''china_a'' | HongKong \<Rightarrow> ''hong_kong'' | UnitedStates \<Rightarrow> ''us'' | UnknownMarket \<Rightarrow> ''unknown'')"

definition market_name :: "stock_market \<Rightarrow> ustr" where
  "market_name m = (case m of ChinaA \<Rightarrow> [20013, 22269, 65, 32929] | HongKong \<Rightarrow> [28207, 32929] | UnitedStates \<Rightarrow> [32654, 32929] | UnknownMarket \<Rightarrow> [26410, 30693, 24066, 22330])"

record market_info =
  mi_ticker :: ustr
  mi_market :: string
  mi_name :: ustr
  mi_currency :: "ustr \<times> ustr"
  mi_source :: string
  mi_china :: bool
  mi_hk :: bool
  mi_us :: bool

definition get_market_info :: "ustr \<Rightarrow> market_info" where
  "get_market_info t = (let m = identify_stock_market t in
     \<lparr>mi_ticker = t, mi_market = market_value m, mi_name = market_name m, mi_currency = get_currency_info t,
      mi_source = get_data_source t, mi_china = (m = ChinaA), mi_hk = (m = HongKong), mi_us = (m = UnitedStates)\<rparr>)"

section \<open>The current price in a report\<close>

definition yuan_sign :: "int \<Rightarrow> bool" where "yuan_sign c \<longleftrightarrow> c = 165 \<or> c = 65509"

definition price_chars :: rx where "price_chars = RCap 1 (RCls (\<lambda>c. u_digit c \<or> c = 46) 1 None)"

definition price_after :: "ustr \<Rightarrow> rx \<Rightarrow> rx" where
  "price_after word sign = rseq (rtext word @ [one u_colon, rspace, sign, price_chars])"

definition price_patterns :: "rx list" where
  "price_patterns = [
     price_after [24403, 21069, 20215, 26684] (ROpt (one yuan_sign)),
     price_after [42, 42, 24403, 21069, 20215, 26684, 42, 42] (ROpt (one yuan_sign)),
     price_after [26368, 26032, 20215, 26684] (ROpt (one yuan_sign)),
     rseq [rchar 128176, rspace, price_after [26368, 26032, 20215, 26684] (ROpt (one yuan_sign))],
     price_after [25910, 30424, 20215] (ROpt (one yuan_sign)),
     price_after [29616, 20215] (ROpt (one yuan_sign)),
     price_after [32929, 20215] (ROpt (one yuan_sign)),
     price_after [20215, 26684] (one yuan_sign)]"

fun first_group :: "rx list \<Rightarrow> ustr \<Rightarrow> ustr option" where
  "first_group [] s = None"
| "first_group (r # rs) s = (case rsearch r s of Some g \<Rightarrow> Some (group g 1) | None \<Rightarrow> first_group rs s)"

definition extract_price_from_report :: "ustr \<Rightarrow> ustr option" where
  "extract_price_from_report s = (if s = [] then None else first_group price_patterns s)"

text \<open>\<open>quote\<close> is what the data sources answer for the code, as a text.\<close>

definition extract_price_with_fallback :: "(ustr \<Rightarrow> ustr option) \<Rightarrow> ustr \<Rightarrow> ustr \<Rightarrow> ustr" where
  "extract_price_with_fallback quote ticker s = (case extract_price_from_report s of
     Some (c # cs) \<Rightarrow> c # cs
   | _ \<Rightarrow> (case quote ticker of Some (c # cs) \<Rightarrow> c # cs | _ \<Rightarrow> [26410, 30693]))"

section \<open>Properties\<close>

text \<open>Every code is in one market, the normal form of a code of Hong Kong is one and is its own normal form.\<close>

lemma no_digits: "58 \<le> c \<and> c \<le> 1631 \<Longrightarrow> \<not> u_digit c" "64256 \<le> c \<and> c \<le> 64262 \<Longrightarrow> \<not> u_digit c"
  by (auto simp: u_digit_def digit_starts_def)

lemma endswith_iff: "endswith s p \<longleftrightarrow> (\<exists>t. s = t @ p)"
proof -
  have "startswith x y \<longleftrightarrow> (\<exists>t. x = y @ t)" for x y :: "'a list"
    by (metis append_eq_conv_conj append_take_drop_id startswith_def)
  then have "endswith s p \<longleftrightarrow> (\<exists>t. rev s = rev p @ t)" by (simp add: endswith_def)
  also have "\<dots> \<longleftrightarrow> (\<exists>t. s = t @ p)" by (metis rev_append rev_rev_ident)
  finally show ?thesis .
qed

lemma ascii_upper_digits: "list_all u_digit s \<Longrightarrow> ascii_upper s = s"
proof (induction s)
  case (Cons c s)
  have "u_digit c" using Cons.prems by simp
  then have "ascii_upper_char c = [c]" using no_digits [of c] by (auto simp: ascii_upper_char_def)
  then show ?case using Cons by (simp add: ascii_upper_def)
qed (simp add: ascii_upper_def)

lemma digit_not_space: "u_digit c \<Longrightarrow> \<not> u_space c"
proof
  assume "u_digit c" "u_space c"
  then have "c \<in> set ([9, 10, 11, 12, 13] @ [28, 29, 30, 31, 32] @ [133, 160, 5760]
      @ [8192, 8193, 8194, 8195, 8196, 8197, 8198, 8199, 8200, 8201, 8202] @ [8232, 8233, 8239, 8287, 12288])"
    unfolding u_space_def by simp presburger
  moreover have "list_all (\<lambda>c. \<not> u_digit c) ([9, 10, 11, 12, 13] @ [28, 29, 30, 31, 32] @ [133, 160, 5760]
      @ [8192, 8193, 8194, 8195, 8196, 8197, 8198, 8199, 8200, 8201, 8202] @ [8232, 8233, 8239, 8287, 12288])"
    by code_simp
  ultimately show False using \<open>u_digit c\<close> unfolding list_all_iff by blast
qed

lemma u_strip_no_space: "list_all (\<lambda>c. \<not> u_space c) s \<Longrightarrow> u_strip s = s"
proof -
  assume "list_all (\<lambda>c. \<not> u_space c) s"
  then have "dropWhile u_space s = s" "dropWhile u_space (rev s) = rev s"
    by (auto simp: dropWhile_eq_self_iff list_all_iff hd_rev)
  then show ?thesis by (simp add: u_strip_def strip_by_def)
qed

lemma hk_normal:
  assumes "list_all u_digit s"
  shows "stripped_ticker (s @ hk_suffix) = s @ hk_suffix"
proof -
  have "list_all (\<lambda>c. \<not> u_space c) (s @ hk_suffix)"
    using assms digit_not_space by (auto simp: list_all_iff hk_suffix_def u_space_def)
  then have "u_strip (s @ hk_suffix) = s @ hk_suffix" by (rule u_strip_no_space)
  moreover have "ascii_upper hk_suffix = hk_suffix" by (simp add: ascii_upper_def hk_suffix_def ascii_upper_char_def)
  ultimately show ?thesis using ascii_upper_digits [OF assms] by (simp add: stripped_ticker_def ascii_upper_def)
qed

lemma normalize_hk_normal:
  assumes "identify_stock_market t = HongKong"
  shows "hk_form (normalize_hk_ticker t)" "normalize_hk_ticker (normalize_hk_ticker t) = normalize_hk_ticker t"
    "identify_stock_market (normalize_hk_ticker t) = HongKong"
proof -
  let ?u = "stripped_ticker t"
  have t: "t \<noteq> []" using assms by (auto simp: identify_stock_market_def)
  obtain d where d: "digits_only 4 5 d" "normalize_hk_ticker t = d @ hk_suffix"
  proof (cases "digits_only 4 5 ?u")
    case True
    then show ?thesis using that t by (simp add: normalize_hk_ticker_def Let_def)
  next
    case False
    then have "hk_form ?u" using assms by (auto simp: identify_stock_market_def Let_def split: if_splits)
    then have "digits_only 4 5 (take (length ?u - 3) ?u)" "?u = take (length ?u - 3) ?u @ hk_suffix"
      by (auto simp: hk_form_def endswith_iff hk_suffix_def)
    then show ?thesis using that False t by (simp add: normalize_hk_ticker_def Let_def)
  qed
  have l: "list_all u_digit d" using d(1) by (simp add: digits_only_def)
  note n = hk_normal [OF l]
  have "\<not> list_all u_digit (d @ hk_suffix)" by (simp add: hk_suffix_def u_digit_def digit_starts_def)
  then have no: "\<not> digits_only a b (d @ hk_suffix)" for a b by (simp add: digits_only_def)
  show f: "hk_form (normalize_hk_ticker t)" using d by (simp add: hk_form_def endswith_iff hk_suffix_def)
  show "normalize_hk_ticker (normalize_hk_ticker t) = normalize_hk_ticker t"
    unfolding d(2) using n no by (simp add: normalize_hk_ticker_def Let_def)
  show "identify_stock_market (normalize_hk_ticker t) = HongKong"
    using f no n unfolding d(2) by (simp add: identify_stock_market_def Let_def hk_suffix_def)
qed

end
