(* ===== verification/PyFormat.thy ===== *)
theory PyFormat
  imports PyNum PyRegex
begin

text \<open>
  How Python writes floats: \<open>repr\<close> (and \<open>str\<close>) with the fewest digits that read back as the same
  float, and the format \<open>.1%\<close>; and how \<open>float\<close> reads a text of digits and points. Infinities, NaN
  and the negative zero are outside the model of floats.
\<close>

section \<open>Writing\<close>

text \<open>The decimals with \<open>k\<close> places (to the left of the point for a negative \<open>k\<close>) that round to \<open>x\<close>.\<close>

definition decimals :: "pyfloat \<Rightarrow> int \<Rightarrow> int list" where
  "decimals x k = filter (\<lambda>m. fl (scale10 (of_int m) (- k)) = x) [\<lfloor>scale10 x k\<rfloor>, \<lfloor>scale10 x k\<rfloor> + 1]"

definition closest :: "rat \<Rightarrow> int list \<Rightarrow> int" where
  "closest y ms = (case ms of [m, n] \<Rightarrow>
       if y - of_int m < of_int n - y then m else if of_int n - y < y - of_int m then n else if even m then m else n
     | [m] \<Rightarrow> m | _ \<Rightarrow> 0)"

fun shortest :: "nat \<Rightarrow> int \<Rightarrow> pyfloat \<Rightarrow> int \<times> int" where
  "shortest 0 k x = (closest (scale10 x k) (decimals x k), k)"
| "shortest (Suc n) k x = (if decimals x k \<noteq> [] then (closest (scale10 x k) (decimals x k), k) else shortest n (k + 1) x)"

text \<open>The place of the leading digit of a number that is very large or very small.\<close>

fun leading_small :: "nat \<Rightarrow> rat \<Rightarrow> int" where
  "leading_small 0 x = 0"
| "leading_small (Suc n) x = (if 1 \<le> x then 0 else leading_small n (x * 10) - 1)"

definition leading_place :: "rat \<Rightarrow> int" where
  "leading_place x = (if 1 \<le> x then int (length (u_dec (nat \<lfloor>x\<rfloor>))) - 1 else leading_small 400 x)"

definition zeros :: "nat \<Rightarrow> ustr" where "zeros n = replicate n 48"

text \<open>The decimal notation from 1e-4 to 1e16 and the one with an exponent of at least two digits.\<close>

definition plain_text :: "int \<Rightarrow> nat \<Rightarrow> ustr" where
  "plain_text m k = (let d = u_dec (nat m mod 10 ^ k) in
     u_dec (nat m div 10 ^ k) @ [46] @ (if k = 0 then [48] else zeros (k - length d) @ d))"

definition exponent_text :: "int \<Rightarrow> int \<Rightarrow> ustr" where
  "exponent_text m k = (let d = u_dec (nat m); s = rev (dropWhile (\<lambda>c. c = 48) (rev d)); e = int (length d) - 1 - k in
     hd s # (if tl s = [] then [] else 46 # tl s) @ [101, if e < 0 then 45 else 43]
       @ (if \<bar>e\<bar> < 10 then [48] else []) @ u_dec (nat \<bar>e\<bar>))"

definition plain_range :: "rat \<Rightarrow> bool" where "plain_range x \<longleftrightarrow> 1 / 10 ^ 4 \<le> x \<and> x < 10 ^ 16"

definition positive_repr :: "pyfloat \<Rightarrow> ustr" where
  "positive_repr x = (if plain_range x then (case shortest 20 0 x of (m, k) \<Rightarrow> plain_text m (nat k))
     else (case shortest 16 (- leading_place x) x of (m, k) \<Rightarrow> exponent_text m k))"

definition repr_float :: "pyfloat \<Rightarrow> ustr" where
  "repr_float x = (if x = 0 then [48, 46, 48] else if x < 0 then 45 # positive_repr (- x) else positive_repr x)"

text \<open>The format \<open>.1%\<close>: the product with 100 is a float, its decimal text is rounded exactly.\<close>

definition tenths :: "pyfloat \<Rightarrow> int" where "tenths x = rhe (10 * fmul x 100)"

definition percent_text :: "pyfloat \<Rightarrow> ustr" where
  "percent_text x = (let t = nat \<bar>tenths x\<bar> in (if fmul x 100 < 0 then [45] else []) @ u_dec (t div 10) @ [46, 48 + int (t mod 10), 37])"

section \<open>Reading\<close>

text \<open>\<open>float\<close> of a text of digits of any script and points; \<open>None\<close> is a ValueError.\<close>

definition plain_digit :: "int \<Rightarrow> int" where
  "plain_digit c = (if u_digit c then 48 + u_digit_value c else c)"

definition u_float :: "ustr \<Rightarrow> pyfloat option" where
  "u_float s = map_option fl (float_literal (map plain_digit s))"

section \<open>Decimals close to a float round to it\<close>

lemma rhe_close: "\<bar>z - of_int m\<bar> < 1 / 2 \<Longrightarrow> rhe z = m"
  using rhe_error [of z] by linarith

lemma ulp_exp_normal: "2 powi (-1000) \<le> x \<Longrightarrow> ulp_exp x = flog2 x - 52"
proof -
  assume x: "2 powi (-1000) \<le> x"
  have "0 < (2::rat) powi (-1000)" by simp
  then have p: "0 < x" using x by linarith
  have "(2::rat) powi (-1000) < 2 powi (flog2 x + 1)" using x flog2_bounds(2) [OF p] by (rule le_less_trans)
  then have "-1000 < flog2 x + 1" by (simp only: powi2_less_iff)
  then show ?thesis using p by (simp add: ulp_exp_def)
qed

lemma powi_minus_52: "(2::rat) powi (a - 52) * 2 ^ 52 = 2 powi a"
proof -
  have "(2::rat) powi (a - 52 + 52) = 2 powi (a - 52) * 2 powi 52" by (rule power_int_add) simp
  then show ?thesis by (simp add: power_int_def)
qed

lemma fl_close:
  assumes x: "fl x = x" "2 powi (-900) \<le> x" and y: "\<bar>y - x\<bar> * (2 * 10 ^ 16) \<le> x"
  shows "fl y = x"
proof -
  define u where "u = (2::rat) powi ulp_exp x"
  have "0 < (2::rat) powi (-900)" by simp
  then have pos: "0 < x" using x(2) by linarith
  have up: "0 < u" by (simp add: u_def)
  define M where "M = rhe (x / u)"
  have xM: "x = of_int M * u" using x(1) pos by (simp add: fl_def u_def M_def)
  have big: "(2::rat) powi (-1000) \<le> 2 powi (-900)" by (simp only: powi2_le_iff)
  have e: "ulp_exp x = flog2 x - 52" using ulp_exp_normal [of x] x(2) big by linarith
  have uu: "u * 2 ^ 52 = 2 powi flog2 x" using powi_minus_52 by (simp add: u_def e)
  have b: "2 powi flog2 x \<le> x" "x < 2 powi (flog2 x + 1)" using flog2_bounds [OF pos] by simp_all
  have dbl: "(2::rat) powi (flog2 x + 1) = u * 2 ^ 53" using uu power_int_add [of "2::rat" "flog2 x" 1] by simp
  have "of_int M * u < u * 2 ^ 53" using b(2) xM dbl by simp
  then have m2: "of_int M < (2::rat) ^ 53" using up by (simp add: mult.commute)
  then have M2: "M < 2 ^ 53" by simp
  have "u * 2 ^ 52 \<le> of_int M * u" using b(1) xM uu by simp
  then have "(2::rat) ^ 52 \<le> of_int M" using up by (simp add: mult.commute)
  then have M1: "2 ^ 52 \<le> M" by simp
  have M3: "of_int M + 1 \<le> (2::rat) ^ 53"
  proof -
    have "of_int (M + 1) \<le> (of_int (2 ^ 53) :: rat)" using M2 by (simp only: of_int_le_iff)
    then show ?thesis by simp
  qed
  have d: "\<bar>y - x\<bar> * (2 * 10 ^ 16) < 2 ^ 53 * u" using y b(2) dbl by (simp add: mult.commute)
  then have "152587890625 * \<bar>y - x\<bar> < 68719476736 * u" by simp
  then have d2: "2 * \<bar>y - x\<bar> < u" using abs_ge_zero [of "y - x"] up by linarith
  then have "\<bar>y - x\<bar> < u" using up by simp
  have d3: "y < x + u" using \<open>\<bar>y - x\<bar> < u\<close> by (simp add: abs_less_iff)
  have d4: "x - u < y" using \<open>\<bar>y - x\<bar> < u\<close> by (simp add: abs_less_iff)
  have yp: "0 < y"
  proof (rule ccontr)
    assume "\<not> 0 < y"
    then have "x * (2 * 10 ^ 16) \<le> \<bar>y - x\<bar> * (2 * 10 ^ 16)" by (intro mult_right_mono) simp_all
    then show False using y pos by simp
  qed
  show ?thesis
  proof (cases "2 powi flog2 x \<le> y")
    case True
    have "y < u * 2 ^ 53"
    proof -
      have "y < of_int M * u + u" using d3 xM by simp
      also have "\<dots> = (of_int M + 1) * u" by (simp add: distrib_right)
      also have "\<dots> \<le> 2 ^ 53 * u" using M3 up by (intro mult_right_mono) simp_all
      finally show ?thesis by (simp add: mult.commute)
    qed
    then have f: "flog2 y = flog2 x" using True dbl by (intro flog2_unique) simp_all
    have "2 powi (-1000) \<le> y" using True b big x(2) powi2_le_iff [of "-1000" "flog2 x"] powi2_less_iff [of "-900" "flog2 x + 1"] by simp
    then have ey: "ulp_exp y = ulp_exp x" using ulp_exp_normal [of y] f e by simp
    have "\<bar>y / u - of_int M\<bar> = \<bar>y - x\<bar> / u" using up by (simp add: xM field_simps abs_divide)
    also have "\<dots> < 1 / 2" using d2 up by (simp add: field_simps)
    finally have "rhe (y / u) = M" by (rule rhe_close)
    moreover have "2 powi ulp_exp y = u" by (simp add: ey u_def)
    ultimately show ?thesis using yp by (simp add: fl_def flip: xM)
  next
    case False
    have "u * 2 ^ 52 - u < y" using d4 b(1) unfolding uu by linarith
    moreover have "M = 2 ^ 52"
    proof -
      have "x < 2 powi flog2 x + u" using False d4 by linarith
      then have "of_int M * u < u * 2 ^ 52 + u" unfolding uu by (simp flip: xM)
      then have "of_int M * u < (2 ^ 52 + 1) * u" by (simp add: algebra_simps)
      then have "of_int M < (of_int (2 ^ 52 + 1) :: rat)" using up by simp
      then have "M < 2 ^ 52 + 1" by (simp only: of_int_less_iff)
      then show ?thesis using M1 by simp
    qed
    ultimately have xe: "x = 2 powi flog2 x" and M52: "M = 2 ^ 52" using xM uu by (simp_all add: mult.commute)
    define v where "v = (2::rat) powi (flog2 x - 53)"
    have vu: "u = v * 2" using power_int_add [of "2::rat" "flog2 x - 53" 1] by (simp add: u_def e v_def)
    have half: "(2::rat) powi (flog2 x - 1) = v * 2 ^ 52" using powi_minus_52 [of "flog2 x - 1"] by (simp add: v_def)
    have "v * 2 ^ 52 \<le> y" using \<open>u * 2 ^ 52 - u < y\<close> vu up by simp
    then have f: "flog2 y = flog2 x - 1" using False half by (intro flog2_unique) simp_all
    have "2 powi (-1000) \<le> (2::rat) powi (flog2 x - 1)"
      using x(2) b(2) powi2_less_iff [of "-900" "flog2 x + 1"] by (simp only: powi2_le_iff) linarith
    then have ey: "ulp_exp y = flog2 x - 53" using ulp_exp_normal [of y] f \<open>v * 2 ^ 52 \<le> y\<close> half by simp
    have xv: "x = of_int (2 ^ 53) * v" using xM M52 vu by simp
    have vp: "0 < v" by (simp add: v_def)
    have "\<bar>y - x\<bar> * (2 * 10 ^ 16) \<le> 2 ^ 53 * v" using y xv by simp
    then have "152587890625 * \<bar>y - x\<bar> \<le> 68719476736 * v" by simp
    then have "2 * \<bar>y - x\<bar> < v" using abs_ge_zero [of "y - x"] vp by linarith
    then have "\<bar>y / v - of_int (2 ^ 53)\<bar> < 1 / 2" using vp by (simp add: xv field_simps abs_divide)
    then have "rhe (y / v) = 2 ^ 53" by (rule rhe_close)
    moreover have "2 powi ulp_exp y = v" by (simp add: ey v_def)
    ultimately show ?thesis using yp by (simp add: fl_def xv)
  qed
qed

section \<open>The shortest decimal\<close>

lemma scale10_simps: "scale10 x (- int k) = x / 10 ^ k" "scale10 x (int k) = x * 10 ^ k"
  by (simp_all add: scale10_def)

lemma set_decimals: "set (decimals x k) =
   {m. (m = \<lfloor>scale10 x k\<rfloor> \<or> m = \<lfloor>scale10 x k\<rfloor> + 1) \<and> fl (scale10 (of_int m) (- k)) = x}"
  by (auto simp: decimals_def simp del: filter.simps)

lemma closest_member: "decimals x k \<noteq> [] \<Longrightarrow> closest y (decimals x k) \<in> set (decimals x k)"
proof -
  assume a: "decimals x k \<noteq> []"
  have "length (decimals x k) \<le> 2" unfolding decimals_def by (rule order_trans [OF length_filter_le]) simp
  then have "\<exists>m n. decimals x k = [m] \<or> decimals x k = [m, n]" using a
    by (cases "decimals x k") (auto simp: le_Suc_eq length_Suc_conv)
  then show ?thesis by (auto simp: closest_def)
qed

text \<open>With twenty places there is one.\<close>

lemma decimals_20:
  assumes "fl x = x" "1 / 10 ^ 4 \<le> x" "20 \<le> k"
  shows "decimals x (int k) \<noteq> []"
proof -
  define p where "p = (10::rat) ^ k"
  have p: "10 ^ 20 \<le> p" unfolding p_def using assms(3) by (intro power_increasing) simp_all
  then have p0: "0 < p" by simp
  have lo: "of_int \<lfloor>x * p\<rfloor> \<le> x * p" "x * p < of_int \<lfloor>x * p\<rfloor> + 1" by linarith+
  obtain m where m: "m \<in> {\<lfloor>x * p\<rfloor>, \<lfloor>x * p\<rfloor> + 1}" "\<bar>of_int m - x * p\<bar> \<le> 1 / 2"
  proof (cases "x * p - of_int \<lfloor>x * p\<rfloor> \<le> 1 / 2")
    case True
    then show ?thesis using lo by (intro that [of "\<lfloor>x * p\<rfloor>"]) (simp_all add: abs_le_iff)
  next
    case False
    then show ?thesis using lo by (intro that [of "\<lfloor>x * p\<rfloor> + 1"]) (simp_all add: abs_le_iff)
  qed
  have "\<bar>of_int m / p - x\<bar> = \<bar>of_int m - x * p\<bar> / p" using p0 by (simp add: field_simps abs_divide)
  also have "\<dots> \<le> (1 / 2) / p" using m(2) p0 by (intro divide_right_mono) simp_all
  also have "\<dots> \<le> (1 / 2) / 10 ^ 20" using p by (intro divide_left_mono) simp_all
  finally have "\<bar>of_int m / p - x\<bar> * (2 * 10 ^ 16) \<le> 1 / 10 ^ 4" by simp
  then have y: "\<bar>of_int m / p - x\<bar> * (2 * 10 ^ 16) \<le> x" using assms(2) by linarith
  have "2 powi (-900) \<le> x"
  proof -
    have "(2::rat) powi (-900) \<le> 2 powi (-14)" by (simp only: powi2_le_iff)
    also have "\<dots> \<le> 1 / 10 ^ 4" by (simp add: power_int_def power_divide)
    finally show ?thesis using assms(2) by linarith
  qed
  from fl_close [OF assms(1) this y] have "fl (scale10 (of_int m) (- int k)) = x" by (simp add: scale10_simps p_def)
  then have "m \<in> set (decimals x (int k))" using m(1) by (auto simp: set_decimals scale10_simps p_def)
  then show ?thesis by auto
qed

lemma shortest_sound:
  assumes "fl x = x" "1 / 10 ^ 4 \<le> x" "20 \<le> n + k"
  shows "\<exists>m j. shortest n (int k) x = (m, int j) \<and> m \<in> set (decimals x (int j))"
  using assms(3)
proof (induction n arbitrary: k)
  case 0
  then show ?case using decimals_20 [OF assms(1,2), of k] closest_member by auto
next
  case (Suc n)
  show ?case
  proof (cases "decimals x (int k) = []")
    case True
    have "int k + 1 = int (Suc k)" by simp
    then show ?thesis using True Suc.IH [of "Suc k"] Suc.prems by (simp add: add.commute)
  next
    case False
    then show ?thesis using closest_member [OF False] by auto
  qed
qed

lemma decimals_nonneg: "0 \<le> x \<Longrightarrow> m \<in> set (decimals x (int k)) \<Longrightarrow> 0 \<le> m"
proof -
  assume "0 \<le> x" and m: "m \<in> set (decimals x (int k))"
  define l where "l = \<lfloor>scale10 x (int k)\<rfloor>"
  have "0 \<le> l" using \<open>0 \<le> x\<close> by (simp add: l_def scale10_simps)
  moreover have "m = l \<or> m = l + 1" using m by (simp add: set_decimals l_def)
  ultimately show "0 \<le> m" by linarith
qed

section \<open>What is written is read\<close>

lemma digits_value_append: "digits_value (s @ t) = digits_value s * 10 ^ length t + digits_value t"
proof -
  define f where "f = (\<lambda>d acc :: int. acc * 10 + (d - 48))"
  have "fold f t n = n * 10 ^ length t + fold f t 0" for n :: int
  proof (induction t arbitrary: n)
    case (Cons c t)
    have n: "fold f (c # t) n = (n * 10 + (c - 48)) * 10 ^ length t + fold f t 0"
      using Cons.IH [of "n * 10 + (c - 48)"] by (simp add: f_def)
    have "fold f (c # t) 0 = (c - 48) * 10 ^ length t + fold f t 0"
      using Cons.IH [of "c - 48"] by (simp add: f_def)
    then show ?case unfolding n by (simp add: distrib_right)
  qed simp
  from this [of "fold f s 0"] have "fold f (s @ t) 0 = fold f s 0 * 10 ^ length t + fold f t 0" by (simp only: fold_append comp_apply)
  then show ?thesis by (simp add: digits_value_def f_def)
qed

lemma digits_value_zeros: "digits_value (zeros n) = 0"
proof (induction n)
  case (Suc n)
  have "zeros (Suc n) = [48] @ zeros n" by (simp add: zeros_def)
  then show ?case using Suc by (simp only: digits_value_append) (simp add: digits_value_def)
qed (simp add: zeros_def digits_value_def)

lemma digits_value_dec: "digits_value (u_dec n) = int n"
proof (induction n rule: less_induct)
  case (less n)
  show ?case
  proof (cases "n < 10")
    case True
    then show ?thesis by (simp add: u_dec_rec [of n] digits_value_def)
  next
    case False
    then have "digits_value (u_dec n) = int (n div 10) * 10 + int (n mod 10)"
      using less.IH [of "n div 10"] by (simp add: u_dec_rec [of n] digits_value_append) (simp add: digits_value_def)
    also have "\<dots> = int (n div 10 * 10 + n mod 10)" by (simp only: of_nat_add of_nat_mult of_nat_numeral)
    also have "\<dots> = int n" by (simp only: div_mult_mod_eq)
    finally show ?thesis .
  qed
qed

definition written_digits :: "ustr \<Rightarrow> bool" where "written_digits s \<longleftrightarrow> list_all code_digit s"

lemma written_digits_simps [simp]:
  "written_digits (u_dec n)" "written_digits (zeros n)" "written_digits []"
  "written_digits (s @ t) \<longleftrightarrow> written_digits s \<and> written_digits t"
  "written_digits (c # s) \<longleftrightarrow> code_digit c \<and> written_digits s"
  using u_dec_digits [of n] by (auto simp: written_digits_def code_digit_def list_all_iff zeros_def)

lemma code_digit_plain: "code_digit c \<Longrightarrow> u_digit c \<and> plain_digit c = c"
  using ascii_digit [of c] by (auto simp: code_digit_def plain_digit_def)

lemma point_plain: "\<not> u_digit 46 \<and> plain_digit 46 = 46"
  by (simp add: plain_digit_def u_digit_def digit_starts_def)

lemma map_plain: "written_digits s \<Longrightarrow> map plain_digit s = s"
  using code_digit_plain by (induction s) simp_all

lemma point_not_digit [simp]: "\<not> code_digit 46" by (simp add: code_digit_def)

lemma float_literal_point:
  assumes "written_digits a" "a \<noteq> []" "written_digits b"
  shows "float_literal (a @ 46 # b) = Some (scale10 (of_int (digits_value (a @ b))) (- int (length b)))"
proof -
  have sign: "take_sign (a @ 46 # b) = (1, a @ 46 # b)"
    using assms(1,2) by (cases a) (auto simp: take_sign_def code_digit_def)
  have a: "takeWhile code_digit (a @ 46 # b) = a" "dropWhile code_digit (a @ 46 # b) = 46 # b"
    using assms(1) by (simp_all add: written_digits_def list_all_iff takeWhile_append2 dropWhile_append2)
  have b: "takeWhile code_digit b = b" "dropWhile code_digit b = []"
    using assms(3) by (simp_all add: written_digits_def list_all_iff)
  show ?thesis using assms(2) by (simp add: float_literal_def sign a b exponent_of_def Let_def)
qed

lemma u_float_point:
  assumes "written_digits a" "a \<noteq> []" "written_digits b"
  shows "u_float (a @ 46 # b) = Some (fl (of_int (digits_value (a @ b)) / 10 ^ length b))"
  using float_literal_point [OF assms] map_plain [OF assms(1)] map_plain [OF assms(3)] point_plain
  by (simp add: u_float_def scale10_simps)

text \<open>The parts of a decimal before and after the point.\<close>

definition point_parts :: "ustr \<Rightarrow> ustr \<Rightarrow> ustr \<Rightarrow> bool" where
  "point_parts s a b \<longleftrightarrow> s = a @ 46 # b \<and> written_digits a \<and> a \<noteq> [] \<and> written_digits b"

lemma plain_text_parts:
  assumes "0 \<le> m"
  obtains a b where "point_parts (plain_text m k) a b" "u_float (plain_text m k) = Some (fl (of_int m / 10 ^ k))"
proof (cases "k = 0")
  case True
  have p: "point_parts (plain_text m k) (u_dec (nat m)) [48]"
    using u_dec_digits [of "nat m"] True by (simp add: point_parts_def plain_text_def code_digit_def)
  then have "u_float (plain_text m k) = Some (fl (of_int (digits_value (u_dec (nat m) @ [48])) / 10 ^ 1))"
    using u_float_point [of "u_dec (nat m)" "[48]"] by (simp add: point_parts_def)
  then show ?thesis using that [OF p] True assms
    by (simp add: digits_value_append digits_value_dec) (simp add: digits_value_def)
next
  case False
  define d where "d = u_dec (nat m mod 10 ^ k)"
  define b where "b = zeros (k - length d) @ d"
  have l: "length b = k" using False u_dec_length [of "nat m mod 10 ^ k" k] by (simp add: b_def d_def zeros_def)
  have p: "point_parts (plain_text m k) (u_dec (nat m div 10 ^ k)) b"
    using u_dec_digits [of "nat m div 10 ^ k"] False by (simp add: point_parts_def plain_text_def b_def d_def Let_def)
  have "digits_value (u_dec (nat m div 10 ^ k) @ b) = int (nat m div 10 ^ k) * 10 ^ k + int (nat m mod 10 ^ k)"
    unfolding digits_value_append [of "u_dec (nat m div 10 ^ k)"] l by (simp add: b_def d_def digits_value_append digits_value_zeros digits_value_dec)
  also have "\<dots> = int (nat m div 10 ^ k * 10 ^ k + nat m mod 10 ^ k)" by simp
  also have "\<dots> = m" using assms by (simp only: div_mult_mod_eq int_nat_eq) simp
  finally show ?thesis using that [OF p] p u_float_point [of "u_dec (nat m div 10 ^ k)" b] l by (simp add: point_parts_def)
qed

lemma repr_reads_back:
  assumes "fl x = x" "plain_range x"
  obtains a b where "point_parts (repr_float x) a b" "u_float (repr_float x) = Some x"
proof -
  have x: "1 / 10 ^ 4 \<le> x" using assms(2) by (simp add: plain_range_def)
  have "(0::rat) < 1 / 10 ^ 4" by simp
  then have pos: "0 < x" using x by linarith
  obtain m j where s: "shortest 20 (int 0) x = (m, int j)" "m \<in> set (decimals x (int j))"
    using shortest_sound [OF assms(1) x, of 20 0] by auto
  then have r: "repr_float x = plain_text m j" using pos assms(2) by (simp add: repr_float_def positive_repr_def)
  have "0 \<le> m" using decimals_nonneg [OF _ s(2)] pos by simp
  moreover have "fl (of_int m / 10 ^ j) = x" using s(2) by (simp add: set_decimals scale10_simps)
  ultimately show ?thesis using plain_text_parts [of m j] that r by metis
qed

lemma percent_text_parts:
  assumes "0 \<le> x"
  obtains a b where "percent_text x = (a @ 46 # b) @ [37]" "written_digits a" "a \<noteq> []" "written_digits b"
    "u_float (a @ 46 # b) = Some (fl (of_int (tenths x) / 10))"
proof -
  have f: "0 \<le> fmul x 100" using assms by (simp add: fmul_def fl_nonneg)
  then have t: "0 \<le> tenths x" using int_le_rhe [of 0 "10 * fmul x 100"] by (simp add: tenths_def)
  define n where "n = nat (tenths x)"
  have p: "percent_text x = (u_dec (n div 10) @ 46 # [48 + int (n mod 10)]) @ [37]"
    by (simp add: percent_text_def Let_def n_def abs_of_nonneg [OF t] not_less f)
  have d: "code_digit (48 + int (n mod 10))" by (simp add: code_digit_def)
  have "digits_value (u_dec (n div 10) @ [48 + int (n mod 10)]) = int (n div 10) * 10 + int (n mod 10)"
    by (simp add: digits_value_append digits_value_dec) (simp add: digits_value_def)
  also have "\<dots> = int (n div 10 * 10 + n mod 10)" by (simp only: of_nat_add of_nat_mult of_nat_numeral)
  also have "\<dots> = tenths x" using t by (simp only: div_mult_mod_eq) (simp add: n_def)
  finally show ?thesis
    using that [OF p] u_float_point [of "u_dec (n div 10)" "[48 + int (n mod 10)]"] u_dec_digits [of "n div 10"] d by simp
qed

end
