(* ===== verification/PyJson.thy ===== *)
theory PyJson
  imports PyFormat
begin

text \<open>
  \<open>json.loads\<close> and \<open>float\<close> of a text, as far as the code reads the answers of a model. Texts are
  lists of code points. A float of Python is a finite one or one of the infinities and NaNs,
  which are not told apart. The limits on the depth of nesting are not modelled.
\<close>

section \<open>Floats that may not be finite\<close>

datatype fval = Fin pyfloat | NonFin

definition to_fval :: "rat \<Rightarrow> fval" where
  "to_fval x = (if \<bar>fl x\<bar> < 2 ^ 1024 then Fin (fl x) else NonFin)"

text \<open>\<open>float(s)\<close>: white space around, a sign, \<open>inf\<close> or \<open>nan\<close>, digits with single underscores between them.\<close>

definition f_space :: "int \<Rightarrow> bool" where "f_space c \<longleftrightarrow> u_space c \<and> \<not> (28 \<le> c \<and> c \<le> 31)"

fun grouped :: "ustr \<Rightarrow> bool" where
  "grouped (a # b # c # cs) = ((b = 95 \<longrightarrow> code_digit a \<and> code_digit c) \<and> grouped (b # c # cs))"
| "grouped [a, b] = (b \<noteq> 95)"
| "grouped s = True"

definition special_floats :: "ustr list" where
  "special_floats = [[105, 110, 102], [105, 110, 102, 105, 110, 105, 116, 121], [110, 97, 110]]"

definition float_of_text :: "ustr \<Rightarrow> fval option" where
  "float_of_text s = (let t = map plain_digit (strip_by f_space s) in
     if list_ex (\<lambda>c. 127 \<le> c) t then None
     else if u_lower (snd (take_sign t)) \<in> set special_floats then Some NonFin
     else if \<not> grouped t \<or> take 1 t = [95] then None
     else map_option to_fval (float_literal (filter (\<lambda>c. c \<noteq> 95) t)))"

section \<open>JSON values\<close>

datatype json = JNull | JBool bool | JInt int | JFloat fval | JStr ustr | JList "json list" | JObj "(ustr \<times> json) list"

definition j_space :: "int \<Rightarrow> bool" where "j_space c \<longleftrightarrow> c = 32 \<or> c = 9 \<or> c = 10 \<or> c = 13"

definition skip :: "ustr \<Rightarrow> ustr" where "skip s = dropWhile j_space s"

text \<open>Four hexadecimal digits; a high surrogate followed by a low one is one code point.\<close>

definition hex_digit :: "int \<Rightarrow> int option" where
  "hex_digit c = (if code_digit c then Some (c - 48) else if 97 \<le> c \<and> c \<le> 102 then Some (c - 87)
     else if 65 \<le> c \<and> c \<le> 70 then Some (c - 55) else None)"

fun hex4 :: "ustr \<Rightarrow> (int \<times> ustr) option" where
  "hex4 (a # b # c # d # r) = (case (hex_digit a, hex_digit b, hex_digit c, hex_digit d) of
     (Some a, Some b, Some c, Some d) \<Rightarrow> Some (((a * 16 + b) * 16 + c) * 16 + d, r) | _ \<Rightarrow> None)"
| "hex4 _ = None"

definition low_surrogate :: "ustr \<Rightarrow> (int \<times> ustr) option" where
  "low_surrogate s = (case s of a # b # r \<Rightarrow> if a = 92 \<and> b = 117 then
       (case hex4 r of Some (v, r2) \<Rightarrow> if 56320 \<le> v \<and> v \<le> 57343 then Some (v, r2) else None | None \<Rightarrow> None) else None
   | _ \<Rightarrow> None)"

definition unicode_escape :: "ustr \<Rightarrow> (int \<times> ustr) option" where
  "unicode_escape s = (case hex4 s of None \<Rightarrow> None
     | Some (v, r) \<Rightarrow> (case (if 55296 \<le> v \<and> v \<le> 56319 then low_surrogate r else None) of
         Some (w, r2) \<Rightarrow> Some (65536 + (v - 55296) * 1024 + (w - 56320), r2)
       | None \<Rightarrow> Some (v, r)))"

definition plain_escapes :: "(int \<times> int) list" where
  "plain_escapes = [(34, 34), (92, 92), (47, 47), (98, 8), (102, 12), (110, 10), (114, 13), (116, 9)]"

definition escape :: "int \<Rightarrow> ustr \<Rightarrow> (int \<times> ustr) option" where
  "escape c s = (if c = 117 then unicode_escape s else map_option (\<lambda>v. (v, s)) (map_of plain_escapes c))"

text \<open>The rest of a string after its opening quote; control characters are refused.\<close>

lemma hex4_shorter: "hex4 s = Some (v, r) \<Longrightarrow> length r < length s"
  by (induction s rule: hex4.induct) (auto split: option.splits)

lemma escape_shorter: "escape c s = Some (v, r) \<Longrightarrow> length r \<le> length s"
  by (auto simp: escape_def unicode_escape_def low_surrogate_def dest!: hex4_shorter split: if_splits option.splits list.splits)

function jstring :: "ustr \<Rightarrow> (ustr \<times> ustr) option" where
  "jstring [] = None"
| "jstring (c # cs) = (if c = 34 then Some ([], cs)
     else if c = 92 then (case cs of [] \<Rightarrow> None
       | e # r \<Rightarrow> (case escape e r of None \<Rightarrow> None
           | Some (v, r2) \<Rightarrow> map_option (\<lambda>(s, r3). (v # s, r3)) (jstring r2)))
     else if c < 32 then None
     else map_option (\<lambda>(s, r). (c # s, r)) (jstring cs))"
  by pat_completeness auto
termination
  by (relation "measure length") (auto dest: escape_shorter)

text \<open>
  Numbers: an integer part without leading zeros, a fraction and an exponent if they are complete.
  The integers of more than 4300 digits are refused.
\<close>

definition j_integer :: "ustr \<Rightarrow> ustr \<times> ustr" where
  "j_integer s = (case s of [] \<Rightarrow> ([], []) | c # cs \<Rightarrow> if c = 48 then ([c], cs) else (takeWhile code_digit s, dropWhile code_digit s))"

definition j_fraction :: "ustr \<Rightarrow> ustr \<times> ustr" where
  "j_fraction s = (case s of c # d # cs \<Rightarrow> if c = 46 \<and> code_digit d then (c # takeWhile code_digit (d # cs), dropWhile code_digit (d # cs)) else ([], s)
   | _ \<Rightarrow> ([], s))"

definition j_exponent :: "ustr \<Rightarrow> ustr \<times> ustr" where
  "j_exponent s = (case s of [] \<Rightarrow> ([], [])
     | c # cs \<Rightarrow> let sg = (case cs of x # _ \<Rightarrow> if x = 43 \<or> x = 45 then [x] else [] | [] \<Rightarrow> []); r = drop (length sg) cs in
         if (c = 101 \<or> c = 69) \<and> takeWhile code_digit r \<noteq> [] then (c # sg @ takeWhile code_digit r, dropWhile code_digit r) else ([], s))"

definition jnumber :: "ustr \<Rightarrow> (json \<times> ustr) option" where
  "jnumber s = (let (sg, s1) = (case s of c # cs \<Rightarrow> if c = 45 then ([c], cs) else ([], s) | [] \<Rightarrow> ([], [])); (i, s2) = j_integer s1 in
     if i = [] then None
     else let (f, s3) = j_fraction s2; (e, s4) = j_exponent s3 in
       if f = [] \<and> e = [] then (if 4300 < length i then None
         else Some (JInt (if sg = [] then digits_value i else - digits_value i), s4))
       else (case float_literal (sg @ i @ f @ e) of None \<Rightarrow> None | Some x \<Rightarrow> Some (JFloat (to_fval x), s4)))"

definition constants :: "(ustr \<times> json) list" where
  "constants = [(ustr_of ''null'', JNull), (ustr_of ''true'', JBool True), (ustr_of ''false'', JBool False),
     (ustr_of ''NaN'', JFloat NonFin), (ustr_of ''Infinity'', JFloat NonFin), (ustr_of ''-Infinity'', JFloat NonFin)]"

definition jconstant :: "ustr \<Rightarrow> (json \<times> ustr) option" where
  "jconstant s = map_option (\<lambda>(t, v). (v, drop (length t) s)) (find (\<lambda>(t, v). startswith s t) constants)"

section \<open>The parser\<close>

text \<open>The next character that is no white space; a key with its colon.\<close>

definition next_char :: "ustr \<Rightarrow> (int \<times> ustr) option" where
  "next_char s = (case skip s of [] \<Rightarrow> None | c # cs \<Rightarrow> Some (c, cs))"

definition jkey :: "ustr \<Rightarrow> (ustr \<times> ustr) option" where
  "jkey s = (case next_char s of None \<Rightarrow> None | Some (c, cs) \<Rightarrow> if c \<noteq> 34 then None else
     (case jstring cs of None \<Rightarrow> None | Some (k, r) \<Rightarrow>
     (case next_char r of None \<Rightarrow> None | Some (x, r2) \<Rightarrow> if x = 58 then Some (k, r2) else None)))"

definition jscalar :: "ustr \<Rightarrow> (json \<times> ustr) option" where
  "jscalar s = (case jconstant s of Some x \<Rightarrow> Some x | None \<Rightarrow> jnumber s)"

text \<open>Every call takes characters away, so twice the length of the text is enough fuel.\<close>

fun jvalue :: "nat \<Rightarrow> ustr \<Rightarrow> (json \<times> ustr) option"
  and jmembers :: "nat \<Rightarrow> ustr \<Rightarrow> (ustr, json) dict \<Rightarrow> (json \<times> ustr) option"
  and jitems :: "nat \<Rightarrow> ustr \<Rightarrow> json list \<Rightarrow> (json \<times> ustr) option" where
  "jvalue 0 s = None"
| "jvalue (Suc n) s = (case next_char s of None \<Rightarrow> None | Some (c, cs) \<Rightarrow>
       if c = 34 then map_option (\<lambda>(t, r). (JStr t, r)) (jstring cs)
       else if c = 123 then (case next_char cs of None \<Rightarrow> None
         | Some (x, r) \<Rightarrow> if x = 125 then Some (JObj [], r) else jmembers n cs [])
       else if c = 91 then (case next_char cs of None \<Rightarrow> None
         | Some (x, r) \<Rightarrow> if x = 93 then Some (JList [], r) else jitems n cs [])
       else jscalar (c # cs))"
| "jmembers 0 s acc = None"
| "jmembers (Suc n) s acc = (case jkey s of None \<Rightarrow> None | Some (k, r1) \<Rightarrow>
     (case jvalue n r1 of None \<Rightarrow> None | Some (v, r2) \<Rightarrow>
     (case next_char r2 of None \<Rightarrow> None | Some (y, r3) \<Rightarrow>
        if y = 125 then Some (JObj (dset k v acc), r3)
        else if y = 44 then jmembers n r3 (dset k v acc) else None)))"
| "jitems 0 s acc = None"
| "jitems (Suc n) s acc = (case jvalue n s of None \<Rightarrow> None | Some (v, r1) \<Rightarrow>
     (case next_char r1 of None \<Rightarrow> None | Some (y, r2) \<Rightarrow>
        if y = 93 then Some (JList (acc @ [v]), r2)
        else if y = 44 then jitems n r2 (acc @ [v]) else None))"

text \<open>\<open>json.loads\<close>: one value, with white space around it, and nothing else.\<close>

definition json_loads :: "ustr \<Rightarrow> json option" where
  "json_loads s = (case jvalue (2 * length s) s of None \<Rightarrow> None
     | Some (v, r) \<Rightarrow> if skip r = [] then Some v else None)"

section \<open>The fuel is enough\<close>

lemma next_char_shorter: "next_char s = Some (c, r) \<Longrightarrow> length r < length s"
  using length_dropWhile_le [of j_space s] by (auto simp: next_char_def skip_def split: list.splits)

lemma jstring_shorter: "jstring s = Some (t, r) \<Longrightarrow> length r < length s"
  by (induction s arbitrary: t r rule: jstring.induct)
    (fastforce dest: escape_shorter split: if_splits option.splits list.splits)+

lemma jkey_shorter: "jkey s = Some (k, r) \<Longrightarrow> length r < length s"
  by (auto simp: jkey_def dest!: next_char_shorter jstring_shorter split: option.splits if_splits)

lemma digits_left: "length (dropWhile code_digit t) \<le> length t"
  by (rule length_dropWhile_le)

lemma j_integer_shorter: "j_integer t = (i, u) \<Longrightarrow> i \<noteq> [] \<Longrightarrow> length u < length t"
proof -
  have "t = takeWhile code_digit t @ dropWhile code_digit t" by simp
  then have "takeWhile code_digit t \<noteq> [] \<Longrightarrow> length (dropWhile code_digit t) < length t"
    by (metis length_append length_greater_0_conv less_add_same_cancel2)
  then show "j_integer t = (i, u) \<Longrightarrow> i \<noteq> [] \<Longrightarrow> length u < length t"
    by (auto simp: j_integer_def split: list.splits if_splits)
qed

lemma j_fraction_shorter: "j_fraction t = (x, u) \<Longrightarrow> length u \<le> length t"
  using digits_left by (auto simp: j_fraction_def intro: le_SucI split: list.splits if_splits)

lemma j_exponent_shorter: "j_exponent t = (x, u) \<Longrightarrow> length u \<le> length t"
proof -
  assume "j_exponent t = (x, u)"
  moreover have "length (dropWhile code_digit (drop n r)) \<le> length r" for n r using digits_left [of "drop n r"] by simp
  ultimately show ?thesis
    using digits_left le_SucI [OF digits_left] le_SucI [OF le_SucI [OF digits_left]]
    by (auto simp: j_exponent_def Let_def split: list.splits if_splits)
qed

lemma jnumber_shorter: "jnumber s = Some (v, r) \<Longrightarrow> length r < length s"
proof -
  assume a: "jnumber s = Some (v, r)"
  obtain sg s1 where 1: "(case s of c # cs \<Rightarrow> if c = 45 then ([c], cs) else ([], s) | [] \<Rightarrow> ([], [])) = (sg, s1)" by force
  then have s1: "length s1 \<le> length s" by (auto split: list.splits if_splits)
  obtain x s2 where 2: "j_integer s1 = (x, s2)" by force
  obtain y s3 where 3: "j_fraction s2 = (y, s3)" by force
  obtain z s4 where 4: "j_exponent s3 = (z, s4)" by force
  have "x \<noteq> []" "r = s4"
    using a by (auto simp: jnumber_def 1 2 3 4 Let_def split: if_splits option.splits)
  then show ?thesis using s1 j_integer_shorter [OF 2] j_fraction_shorter [OF 3] j_exponent_shorter [OF 4] by auto
qed

lemma jconstant_shorter:
  assumes "jconstant s = Some (v, r)"
  shows "length r < length s"
proof -
  obtain t where t: "find (\<lambda>(t, v). startswith s t) constants = Some (t, v)" "r = drop (length t) s"
    using assms by (auto simp: jconstant_def)
  then have "(t, v) \<in> set constants" "startswith s t" by (auto simp: find_Some_iff dest: nth_mem)
  then have "t \<noteq> []" "length t \<le> length s"
    by (auto simp: constants_def ustr_of_def startswith_def dest!: arg_cong [where f = length])
  then show ?thesis by (cases t) (auto simp: t(2))
qed

lemma jscalar_shorter: "jscalar s = Some (v, r) \<Longrightarrow> length r < length s"
  by (auto simp: jscalar_def dest: jconstant_shorter jnumber_shorter split: option.splits)

lemma parsed_shorter:
  "jvalue n s = Some (v, r) \<Longrightarrow> length r < length s"
  "jmembers n s acc = Some (v, r) \<Longrightarrow> length r < length s"
  "jitems n s its = Some (v, r) \<Longrightarrow> length r < length s"
proof (induction n arbitrary: s v r acc its)
  case (Suc n)
  note IH = Suc.IH
  {
    case 1
    then obtain c cs where c: "next_char s = Some (c, cs)" by (auto split: option.splits)
    have "length r \<le> length cs"
      using 1 IH(2) [of cs "[]" v r] IH(3) [of cs "[]" v r]
      by (auto simp: c dest!: jstring_shorter next_char_shorter jscalar_shorter intro: less_imp_le split: if_splits option.splits)
    then show ?case using next_char_shorter [OF c] by simp
  next
    case 2
    then obtain k r1 w r2 y r3 where k: "jkey s = Some (k, r1)" "jvalue n r1 = Some (w, r2)" "next_char r2 = Some (y, r3)"
      by (auto split: option.splits)
    have "length r \<le> length r3" using 2 IH(2) by (fastforce simp: k intro: less_imp_le split: if_splits)
    then show ?case using jkey_shorter [OF k(1)] IH(1) [OF k(2)] next_char_shorter [OF k(3)] by simp
  next
    case 3
    then obtain w r2 y r3 where k: "jvalue n s = Some (w, r2)" "next_char r2 = Some (y, r3)"
      by (auto split: option.splits)
    have "length r \<le> length r3" using 3 IH(3) by (fastforce simp: k intro: less_imp_le split: if_splits)
    then show ?case using IH(1) [OF k(1)] next_char_shorter [OF k(2)] by simp
  }
qed simp_all

lemma fuel_enough:
  "2 * length s \<le> n \<Longrightarrow> 2 * length s \<le> m \<Longrightarrow> jvalue n s = jvalue m s"
  "2 * length s < n \<Longrightarrow> 2 * length s < m \<Longrightarrow> jmembers n s acc = jmembers m s acc"
  "2 * length s < n \<Longrightarrow> 2 * length s < m \<Longrightarrow> jitems n s its = jitems m s its"
proof (induction n arbitrary: s m acc its)
  case 0
  {
    case 1
    then show ?case by (cases m) (simp_all add: next_char_def skip_def)
  next
    case 2
    then show ?case by simp
  next
    case 3
    then show ?case by simp
  }
next
  case (Suc n)
  note IH = Suc.IH
  {
    case 1
    show ?case
    proof (cases "next_char s")
      case None
      then show ?thesis by (cases m) simp_all
    next
      case (Some x)
      obtain c cs where x: "x = (c, cs)" by force
      have l: "length cs < length s" using next_char_shorter Some x by blast
      then obtain k where m: "m = Suc k" using 1 by (cases m) auto
      have "2 * length cs < n" "2 * length cs < k" using l 1 m by simp_all
      from IH(2) [OF this, of "[]"] IH(3) [OF this, of "[]"] show ?thesis by (simp add: Some x m split: option.split)
    qed
  next
    case 2
    then obtain k where m: "m = Suc k" by (cases m) auto
    have v: "jvalue n r1 = jvalue k r1" if "jkey s = Some (c, r1)" for c r1
      using jkey_shorter [OF that] 2 m by (intro IH(1)) simp_all
    have i: "jmembers n r3 a = jmembers k r3 a"
      if "jkey s = Some (c, r1)" "jvalue k r1 = Some (w, r2)" "next_char r2 = Some (d, r3)" for c r1 w r2 d r3 a
      using jkey_shorter [OF that(1)] parsed_shorter(1) [OF that(2)] next_char_shorter [OF that(3)] 2 m by (intro IH(2)) simp_all
    show ?case unfolding m jmembers.simps
      by (intro option.case_cong refl) (clarsimp simp: v i split: option.splits)
  next
    case 3
    then obtain k where m: "m = Suc k" by (cases m) auto
    have v: "jvalue n s = jvalue k s" using 3 m by (intro IH(1)) simp_all
    have i: "jitems n r3 a = jitems k r3 a"
      if "jvalue k s = Some (w, r2)" "next_char r2 = Some (d, r3)" for w r2 d r3 a
      using parsed_shorter(1) [OF that(1)] next_char_shorter [OF that(2)] 3 m by (intro IH(3)) simp_all
    show ?case unfolding m jitems.simps v
      by (intro option.case_cong refl) (clarsimp simp: i split: option.splits)
  }
qed

end
