(* ===== verification/ReportReader.thy ===== *)
theory ReportReader
  imports PyFormat ReportScores
begin

text \<open>
  Reading the reports of an analysis, \<open>pipeline/report_reader.py\<close>: the directory of a stock and a
  day, the decision parsed from \<open>final_trade_decision.md\<close>, and the texts of the analysts. A missing
  directory is \<open>None\<close>; a directory is a dictionary from the names of its files to their contents.
\<close>

section \<open>Directories\<close>

type_synonym files = "(string, text_file) dict"
type_synonym results_dir = "string \<Rightarrow> string \<Rightarrow> files option"

definition report_file_map :: "(string \<times> ustr) list" where
  "report_file_map = [
     (''market_report.md'', [24066, 22330, 25216, 26415, 20998, 26512]),
     (''fundamentals_report.md'', [22522, 26412, 38754, 20998, 26512]),
     (''news_report.md'', [26032, 38395, 20998, 26512]),
     (''sentiment_report.md'', [31038, 23186, 24773, 32490, 20998, 26512]),
     (''czsc_report.md'', [32544, 35770, 32467, 26500, 20998, 26512]),
     (''yangjia_report.md'', [20859, 23478, 35270, 35282, 20998, 26512]),
     (''investment_plan.md'', [25237, 36164, 32452, 21512, 20915, 31574]),
     (''risk_management_decision.md'', [39118, 38505, 31649, 29702, 35009, 20915]),
     (''research_team_decision.md'', [30740, 31350, 22242, 38431, 36777, 35770]),
     (''trader_investment_plan.md'', [20132, 26131, 21592, 35745, 21010]),
     (''final_trade_decision.md'', [26368, 32456, 25237, 36164, 20915, 31574])]"

definition normalize_code :: "string \<Rightarrow> string" where
  "normalize_code c = before (CHR ''.'') c"

definition get_report_path :: "results_dir \<Rightarrow> string \<Rightarrow> string \<Rightarrow> files option" where
  "get_report_path R code day = R (normalize_code code) day"

definition file_of :: "files \<Rightarrow> string \<Rightarrow> text_file" where
  "file_of d n = dget_default d n NoText"

section \<open>The decision\<close>

record read_decision =
  rd_action :: ustr
  rd_confidence :: pyfloat
  rd_risk :: pyfloat
  rd_target :: pyfloat
  rd_summary :: ustr

definition txt_action :: ustr where "txt_action = [34892, 21160]"
definition txt_confidence :: ustr where "txt_confidence = [32622, 20449, 24230]"
definition txt_risk :: ustr where "txt_risk = [39118, 38505, 35780, 20998]"
definition txt_target :: ustr where "txt_target = [30446, 26631, 20215, 20301]"
definition txt_reasoning :: ustr where "txt_reasoning = [20998, 26512, 25512, 29702]"

definition label_re :: "ustr \<Rightarrow> rx \<Rightarrow> rx" where
  "label_re label value = rseq ([rchar 42, rchar 42] @ rtext label @ [rchar 42, rchar 42, one u_colon, rspace, RCap 1 value])"

definition rest_of_line :: rx where "rest_of_line = RCls (\<lambda>c. c \<noteq> 10) 1 None"

definition number_char :: "int \<Rightarrow> bool" where "number_char c \<longleftrightarrow> u_digit c \<or> c = 46"

definition number_re :: rx where "number_re = RCls number_char 1 None"

definition reasoning_re :: rx where
  "reasoning_re = rseq ([rchar 35, rchar 35, rspace] @ rtext txt_reasoning
     @ [rspace, RCls (\<lambda>c. c = 10) 1 None, RCap 1 (RCls (\<lambda>c. True) 0 None)])"

text \<open>A text of digits and points that is no number, such as \<open>1.2.3\<close>, raises a ValueError.\<close>

definition number_after :: "ustr \<Rightarrow> ustr \<Rightarrow> (string, pyfloat) result" where
  "number_after label content = (case rsearch (label_re label number_re) content of
     None \<Rightarrow> Inr 0
   | Some g \<Rightarrow> (case u_float (group g 1) of None \<Rightarrow> Inl ''ValueError'' | Some x \<Rightarrow> Inr x))"

definition text_after :: "rx \<Rightarrow> ustr \<Rightarrow> ustr" where
  "text_after r content = (case rsearch r content of None \<Rightarrow> [] | Some g \<Rightarrow> u_strip (group g 1))"

definition parse_final_decision :: "ustr \<Rightarrow> (string, read_decision) result" where
  "parse_final_decision content =
     (case number_after txt_confidence content of Inl e \<Rightarrow> Inl e | Inr c \<Rightarrow>
     (case number_after txt_risk content of Inl e \<Rightarrow> Inl e | Inr r \<Rightarrow>
     (case number_after txt_target content of Inl e \<Rightarrow> Inl e | Inr t \<Rightarrow>
        Inr \<lparr>rd_action = text_after (label_re txt_action rest_of_line) content, rd_confidence = c, rd_risk = r,
          rd_target = t, rd_summary = text_after reasoning_re content\<rparr>)))"

definition read_final_decision :: "results_dir \<Rightarrow> string \<Rightarrow> string \<Rightarrow> (string, read_decision option) result" where
  "read_final_decision R code day = (case get_report_path R code day of None \<Rightarrow> Inr None
     | Some d \<Rightarrow> (case file_of d ''final_trade_decision.md'' of
         NoText \<Rightarrow> Inr None
       | Unreadable \<Rightarrow> Inl ''UnicodeDecodeError''
       | Text s \<Rightarrow> (case parse_final_decision s of Inl e \<Rightarrow> Inl e | Inr x \<Rightarrow> Inr (Some x))))"

section \<open>The reports of the analysts\<close>

definition readable :: "files \<Rightarrow> string \<times> ustr \<Rightarrow> (ustr \<times> ustr) option" where
  "readable d fn = (case file_of d (fst fn) of Text s \<Rightarrow> if u_strip s = [] then None else Some (snd fn, s) | _ \<Rightarrow> None)"

definition read_analyst_reports :: "results_dir \<Rightarrow> string \<Rightarrow> string \<Rightarrow> (ustr, ustr) dict" where
  "read_analyst_reports R code day = (case get_report_path R code day of None \<Rightarrow> []
     | Some d \<Rightarrow> List.map_filter (readable d) report_file_map)"

end
