(* ===== verification/AnalysisResult.thy ===== *)
theory AnalysisResult
  imports ReportReader
begin

text \<open>
  What the analysis service makes of the outcome of the graph, \<open>_run_analysis_sync\<close> and
  \<open>_save_modular_reports_to_data_dir\<close> in \<open>simple_analysis_service.py\<close>: the reports taken from the
  state, the formatted decision, the summary and the recommendation, and the files it writes,
  which \<open>ReportReader\<close> reads.

  A value of the state or of the decision that is not a text enters by its truth and its \<open>str\<close>.
\<close>

section \<open>The state and the decision\<close>

datatype pyobj = PText ustr | PObj bool ustr

definition py_str :: "pyobj \<Rightarrow> ustr" where
  "py_str v = (case v of PText s \<Rightarrow> s | PObj b s \<Rightarrow> s)"

definition py_true :: "pyobj \<Rightarrow> bool" where
  "py_true v = (case v of PText s \<Rightarrow> s \<noteq> [] | PObj b s \<Rightarrow> b)"

text \<open>The state of a debate, a dictionary, and its \<open>str\<close>; the final state of the graph.\<close>

record debate =
  de_fields :: "(string, pyobj) dict"
  de_str :: ustr

record final_state =
  fs_fields :: "(string, pyobj) dict"
  fs_investment :: "debate option"
  fs_risk :: "debate option"

text \<open>The target price of a decision: missing, a number, a text, or something else.\<close>

datatype target_value = TgNone | TgNumber pyfloat | TgText ustr | TgOther

record signal_decision =
  sd_action :: ustr
  sd_target :: target_value
  sd_confidence :: pyfloat
  sd_risk :: pyfloat
  sd_reasoning :: pyobj
  sd_model :: ustr

section \<open>The reports\<close>

type_synonym reports = "(string, ustr) dict"

definition report_fields :: "string list" where
  "report_fields = [''market_report'', ''sentiment_report'', ''news_report'', ''fundamentals_report'', ''czsc_report'',
     ''yangjia_report'', ''investment_plan'', ''trader_investment_plan'', ''final_trade_decision'']"

definition long_enough :: "ustr \<Rightarrow> bool" where "long_enough s \<longleftrightarrow> 10 < length (u_strip s)"

definition field_report :: "final_state \<Rightarrow> string \<Rightarrow> reports \<Rightarrow> reports" where
  "field_report st f rs = (case dget (fs_fields st) f of
     Some (PText s) \<Rightarrow> if long_enough s then dset f (u_strip s) rs else rs
   | _ \<Rightarrow> rs)"

text \<open>
  A part of a debate: a value that is true but no text raises an AttributeError, and the
  reports taken so far remain. \<open>d\<close> is what stands for a missing part.
\<close>

definition debate_report :: "debate \<Rightarrow> ustr \<Rightarrow> string \<times> string \<Rightarrow> reports \<Rightarrow> (reports, reports) result" where
  "debate_report de d part rs = (case dget_default (de_fields de) (fst part) (PText d) of
     PText s \<Rightarrow> Inr (if s \<noteq> [] \<and> long_enough s then dset (snd part) (u_strip s) rs else rs)
   | PObj b s \<Rightarrow> if b then Inl rs else Inr rs)"

fun debate_parts :: "debate \<Rightarrow> (string \<times> string) list \<Rightarrow> reports \<Rightarrow> (reports, reports) result" where
  "debate_parts de [] rs = Inr rs"
| "debate_parts de (p # ps) rs = (case debate_report de (if fst p = ''judge_decision'' then de_str de else []) p rs of
     Inl e \<Rightarrow> Inl e | Inr rs1 \<Rightarrow> debate_parts de ps rs1)"

definition investment_parts :: "(string \<times> string) list" where
  "investment_parts = [(''bull_history'', ''bull_researcher''), (''bear_history'', ''bear_researcher''),
     (''judge_decision'', ''research_team_decision'')]"

definition risk_parts :: "(string \<times> string) list" where
  "risk_parts = [(''risky_history'', ''risky_analyst''), (''safe_history'', ''safe_analyst''),
     (''neutral_history'', ''neutral_analyst''), (''judge_decision'', ''risk_management_decision'')]"

text \<open>An empty debate is passed over.\<close>

definition take_debate :: "debate option \<Rightarrow> (string \<times> string) list \<Rightarrow> reports \<Rightarrow> (reports, reports) result" where
  "take_debate x ps rs = (case x of None \<Rightarrow> Inr rs | Some de \<Rightarrow> if de_fields de = [] then Inr rs else debate_parts de ps rs)"

text \<open>After an exception the texts of the decision with more than 50 characters are added.\<close>

definition decision_texts :: "signal_decision \<Rightarrow> (string \<times> ustr) list" where
  "decision_texts d = [(''action'', sd_action d)] @ (case sd_target d of TgText s \<Rightarrow> [(''target_price'', s)] | _ \<Rightarrow> [])
     @ (case sd_reasoning d of PText s \<Rightarrow> [(''reasoning'', s)] | _ \<Rightarrow> []) @ [(''model_info'', sd_model d)]"

definition fallback_reports :: "signal_decision \<Rightarrow> reports \<Rightarrow> reports" where
  "fallback_reports d rs = fold (\<lambda>(k, s) acc. if 50 < length s then dset k s acc else acc) (decision_texts d) rs"

definition extract_reports :: "final_state \<Rightarrow> signal_decision \<Rightarrow> reports" where
  "extract_reports st d = (case take_debate (fs_investment st) investment_parts (fold (field_report st) report_fields []) of
     Inl rs \<Rightarrow> fallback_reports d rs
   | Inr rs \<Rightarrow> (case take_debate (fs_risk st) risk_parts rs of Inl rs2 \<Rightarrow> fallback_reports d rs2 | Inr rs2 \<Rightarrow> rs2))"

section \<open>The formatted decision\<close>

record decision =
  dc_action :: ustr
  dc_confidence :: pyfloat
  dc_risk :: pyfloat
  dc_target :: "pyfloat option"
  dc_reasoning :: pyobj

definition txt_none :: ustr where "txt_none = [78, 111, 110, 101]"
definition txt_na :: ustr where "txt_na = [78, 47, 65]"

definition price_text :: "ustr \<Rightarrow> ustr" where
  "price_text s = u_strip (filter (\<lambda>c. c \<noteq> 36 \<and> c \<noteq> 165 \<and> c \<noteq> 65509) s)"

definition target_price :: "target_value \<Rightarrow> pyfloat option" where
  "target_price v = (case v of
     TgNumber x \<Rightarrow> Some x
   | TgText s \<Rightarrow> if s = txt_na \<or> price_text s = [] \<or> price_text s = txt_none then None else py_float (VStr (price_text s))
   | _ \<Rightarrow> None)"

definition txt_buy :: ustr where "txt_buy = [20080, 20837]"
definition txt_sell :: ustr where "txt_sell = [21334, 20986]"
definition txt_hold :: ustr where "txt_hold = [25345, 26377]"

definition action_translation :: "(ustr, ustr) dict" where
  "action_translation = [(ustr_of ''BUY'', txt_buy), (ustr_of ''SELL'', txt_sell), (ustr_of ''HOLD'', txt_hold),
     (ustr_of ''buy'', txt_buy), (ustr_of ''sell'', txt_sell), (ustr_of ''hold'', txt_hold)]"

definition format_decision :: "signal_decision \<Rightarrow> decision" where
  "format_decision d = \<lparr>dc_action = dget_default action_translation (sd_action d) (sd_action d),
     dc_confidence = sd_confidence d, dc_risk = sd_risk d, dc_target = target_price (sd_target d),
     dc_reasoning = sd_reasoning d\<rparr>"

section \<open>Summary and recommendation\<close>

definition excerpt :: "ustr \<Rightarrow> ustr" where
  "excerpt s = u_strip (filter (\<lambda>c. c \<noteq> 35 \<and> c \<noteq> 42) (take 200 s)) @ (if 200 < length s then [46, 46, 46] else [])"

definition long_excerpt :: "nat \<Rightarrow> ustr option \<Rightarrow> ustr" where
  "long_excerpt n x = (case x of None \<Rightarrow> [] | Some s \<Rightarrow> if n < length s then excerpt s else [])"

text \<open>From the final decision among the reports, else from the one in the state, else from the first long report.\<close>

definition summary_of :: "string \<Rightarrow> final_state \<Rightarrow> reports \<Rightarrow> ustr" where
  "summary_of code st rs = (let
     s1 = long_excerpt 50 (dget rs ''final_trade_decision'');
     s2 = (if s1 \<noteq> [] then s1 else
       (case dget (fs_fields st) ''final_trade_decision'' of Some (PText s) \<Rightarrow> long_excerpt 50 (Some s) | _ \<Rightarrow> []));
     s3 = (if s2 \<noteq> [] then s2 else long_excerpt 100 (find (\<lambda>s. 100 < length s) (map snd rs)))
     in if s3 \<noteq> [] then s3 else [23545] @ ustr_of code @ [30340, 20998, 26512, 24050, 23436, 25104, 65292, 35831, 26597, 30475, 35814, 32454, 25253, 21578, 12290])"

definition recommendation_of :: "decision \<Rightarrow> ustr" where
  "recommendation_of d = [25237, 36164, 24314, 35758, 65306] @ dc_action d @ [12290]
     @ (case dc_target d of Some x \<Rightarrow> if x = 0 then [] else [30446, 26631, 20215, 26684, 65306] @ repr_float x @ [20803, 12290] | None \<Rightarrow> [])
     @ (if py_true (dc_reasoning d) then [20915, 31574, 20381, 25454, 65306] @ py_str (dc_reasoning d) else [])"

record analysis_outcome =
  ao_symbol :: string
  ao_summary :: ustr
  ao_recommendation :: ustr
  ao_confidence :: pyfloat
  ao_state :: final_state
  ao_reports :: reports
  ao_decision :: decision

definition analysis_outcome_of :: "string \<Rightarrow> final_state \<Rightarrow> signal_decision \<Rightarrow> analysis_outcome" where
  "analysis_outcome_of code st d = (let rs = extract_reports st d; f = format_decision d in
     \<lparr>ao_symbol = code, ao_summary = summary_of code st rs, ao_recommendation = recommendation_of f,
      ao_confidence = dc_confidence f, ao_state = st, ao_reports = rs, ao_decision = f\<rparr>)"

section \<open>The files\<close>

definition report_modules :: "(string \<times> string) list" where
  "report_modules = [(''market_report'', ''market_report.md''), (''sentiment_report'', ''sentiment_report.md''),
     (''news_report'', ''news_report.md''), (''fundamentals_report'', ''fundamentals_report.md''),
     (''czsc_report'', ''czsc_report.md''), (''yangjia_report'', ''yangjia_report.md''),
     (''investment_plan'', ''investment_plan.md''), (''trader_investment_plan'', ''trader_investment_plan.md''),
     (''final_trade_decision'', ''final_trade_decision.md''),
     (''investment_debate_state'', ''research_team_decision.md''),
     (''risk_debate_state'', ''risk_management_decision.md'')]"

definition module_text :: "final_state \<Rightarrow> string \<Rightarrow> ustr option" where
  "module_text st k = (if k = ''investment_debate_state'' then map_option de_str (fs_investment st)
     else if k = ''risk_debate_state'' then map_option de_str (fs_risk st)
     else map_option py_str (dget (fs_fields st) k))"

definition decision_heading :: "string \<Rightarrow> ustr" where
  "decision_heading code = [35, 32] @ ustr_of code @ [32, 26368, 32456, 25237, 36164, 20915, 31574] @ [10, 10] @ [35, 35, 32, 25237, 36164, 24314, 35758] @ [10, 10]"

text \<open>A line with a label in bold, and an empty line.\<close>

definition labelled :: "ustr \<Rightarrow> ustr \<Rightarrow> ustr" where
  "labelled label v = [42, 42] @ label @ [42, 42, 58, 32] @ v @ [10, 10]"

definition target_text :: "pyfloat option \<Rightarrow> ustr" where
  "target_text t = (case t of None \<Rightarrow> txt_none | Some x \<Rightarrow> repr_float x)"

definition decision_content :: "string \<Rightarrow> decision \<Rightarrow> ustr" where
  "decision_content code d = decision_heading code @ labelled txt_action (dc_action d)
     @ labelled txt_confidence (percent_text (dc_confidence d)) @ labelled txt_risk (percent_text (dc_risk d))
     @ labelled txt_target (target_text (dc_target d))
     @ [35, 35, 32] @ txt_reasoning @ [10, 10] @ py_str (dc_reasoning d) @ [10, 10]"

text \<open>Opening a file may fail (\<open>fails\<close>) and is passed over; the decision comes last, over the module of that name.\<close>

definition decision_file :: string where "decision_file = ''final_trade_decision.md''"

definition save_module :: "(string \<Rightarrow> bool) \<Rightarrow> final_state \<Rightarrow> string \<times> string \<Rightarrow> files \<Rightarrow> files" where
  "save_module fails st m fs = (case module_text st (fst m) of None \<Rightarrow> fs
     | Some s \<Rightarrow> if fails (snd m) then fs else dset (snd m) (Text s) fs)"

definition save_modular_reports :: "(string \<Rightarrow> bool) \<Rightarrow> analysis_outcome \<Rightarrow> files \<Rightarrow> files" where
  "save_modular_reports fails r fs = (let fs1 = fold (save_module fails (ao_state r)) report_modules fs in
     if fails decision_file then fs1
     else dset decision_file (Text (decision_content (ao_symbol r) (ao_decision r))) fs1)"

end
