(* ===== verification/SignalProcessing.thy ===== *)
theory SignalProcessing
  imports StockUtils PyJson AnalysisResult
begin

text \<open>
  From the answer of the model to a decision, \<open>tradingagents/graph/signal_processing.py\<close>: the JSON
  object in the answer, the action mapped to buy, hold or sell, the target price of the object or
  else searched and estimated in the texts, and the simple extraction when anything fails.

  The answer is an argument, \<open>None\<close> when the call raises. The \<open>str\<close> of a value that is no text is
  the parameter \<open>show\<close>.
\<close>

section \<open>Numbers in texts\<close>

definition currency_sign :: "int \<Rightarrow> bool" where "currency_sign c \<longleftrightarrow> c = 165 \<or> c = 36"

definition number_cap :: rx where
  "number_cap = RCap 1 (rseq [RCls u_digit 1 None, ROpt (rseq [rchar 46, RCls u_digit 1 None])])"

definition member :: "ustr \<Rightarrow> rx" where "member cs = ROpt (one (\<lambda>c. c \<in> set cs))"

text \<open>A word, perhaps one more character and a colon, and a number perhaps with a sign of currency.\<close>

definition priced :: "rx list \<Rightarrow> rx" where
  "priced word = rseq (word @ [ROpt (one u_colon), rspace, ROpt (one currency_sign), number_cap])"

definition signal_patterns :: "rx list" where
  "signal_patterns = [
     priced (rtext [30446, 26631, 20215] @ [member [20301, 26684]]),
     priced (rtext [30446, 26631]),
     priced (rtext [20215, 26684]),
     priced (rtext [20215, 20301]),
     priced (rtext [21512, 29702] @ [member [20215, 20301, 26684]]),
     priced (rtext [20272, 20540]),
     rseq [one currency_sign, number_cap],
     rseq [number_cap, rchar 20803],
     rseq ([number_cap] @ rtext [32654, 20803]),
     priced (rtext [24314, 35758]),
     priced (rtext [39044, 26399]),
     rseq (rtext [30475] @ [one (\<lambda>c. c \<in> set [21040, 33267]), rspace, ROpt (one currency_sign), number_cap]),
     rseq (rtext [19978, 28072] @ [one (\<lambda>c. c \<in> set [21040, 33267]), rspace, ROpt (one currency_sign), number_cap]),
     rseq [number_cap, rspace, one currency_sign]]"

definition current_price_patterns :: "rx list" where
  "current_price_patterns = [
     priced (rtext [24403, 21069, 20215] @ [member [26684, 20301]]),
     priced (rtext [29616, 20215]),
     priced (rtext [32929, 20215]),
     priced (rtext [20215, 26684])]"

definition percent_after :: "ustr \<Rightarrow> rx" where
  "percent_after word = rseq (rtext word @ [rspace, number_cap, rchar 37])"

definition percentage_patterns :: "rx list" where
  "percentage_patterns = [percent_after [19978, 28072], percent_after [28072, 24133], percent_after [22686, 38271],
     rseq ([number_cap, rchar 37, rspace, ROpt (rchar 30340)] @ rtext [19978, 28072])]"

fun first_number :: "rx list \<Rightarrow> ustr \<Rightarrow> fval option" where
  "first_number [] s = None"
| "first_number (r # rs) s = (case rsearch r s of None \<Rightarrow> first_number rs s
     | Some g \<Rightarrow> (case float_of_text (group g 1) of Some v \<Rightarrow> Some v | None \<Rightarrow> first_number rs s))"

section \<open>The estimated price\<close>

text \<open>Operations on floats: what is not finite stays so.\<close>

definition fval_op :: "(rat \<Rightarrow> rat \<Rightarrow> rat) \<Rightarrow> fval \<Rightarrow> fval \<Rightarrow> fval" where
  "fval_op f x y = (case (x, y) of (Fin a, Fin b) \<Rightarrow> to_fval (f a b) | _ \<Rightarrow> NonFin)"

definition round2 :: "fval \<Rightarrow> fval" where
  "round2 v = (case v of Fin x \<Rightarrow> Fin (py_round 2 x) | NonFin \<Rightarrow> NonFin)"

definition default_multiplier :: "bool \<Rightarrow> bool \<Rightarrow> fval" where
  "default_multiplier buy china = to_fval (if buy then (if china then 115 / 100 else 112 / 100)
     else (if china then 95 / 100 else 92 / 100))"

definition smart_price_estimation :: "ustr \<Rightarrow> ustr \<Rightarrow> bool \<Rightarrow> fval option" where
  "smart_price_estimation text action china = (
     let price = first_number current_price_patterns text;
         change = map_option (\<lambda>v. fval_op (/) v (Fin 100)) (first_number percentage_patterns text) in
     (case price of None \<Rightarrow> None | Some p \<Rightarrow>
        if p = Fin 0 then None
        else if action \<noteq> txt_buy \<and> action \<noteq> txt_sell then Some p
        else (case change of
          Some c \<Rightarrow> if c \<noteq> Fin 0 then
              Some (round2 (fval_op (*) p (fval_op (if action = txt_buy then (+) else (-)) (Fin 1) c)))
            else Some (round2 (fval_op (*) p (default_multiplier (action = txt_buy) china)))
        | None \<Rightarrow> Some (round2 (fval_op (*) p (default_multiplier (action = txt_buy) china))))))"

section \<open>Decisions\<close>

datatype signal_target = NoTarget | Target fval | OtherTarget json

record signal_result =
  sg_action :: ustr
  sg_target :: signal_target
  sg_confidence :: fval
  sg_risk :: fval
  sg_reasoning :: json

definition txt_default_reason :: ustr where "txt_default_reason = [22522, 20110, 32508, 21512, 20998, 26512, 30340, 25237, 36164, 24314, 35758]"
definition txt_invalid :: ustr where "txt_invalid = [36755, 20837, 20449, 21495, 26080, 25928, 65292, 40664, 35748, 25345, 26377, 24314, 35758]"

definition seven_tenths :: fval where "seven_tenths = to_fval (7 / 10)"
definition half :: fval where "half = to_fval (1 / 2)"

definition invalid_signal :: signal_result where
  "invalid_signal = \<lparr>sg_action = txt_hold, sg_target = NoTarget, sg_confidence = half, sg_risk = half, sg_reasoning = JStr txt_invalid\<rparr>"

text \<open>The simple extraction; \<open>re.IGNORECASE\<close> also takes the long s for an S.\<close>

definition caseless :: "ustr \<Rightarrow> rx list" where
  "caseless w = map (\<lambda>c. one (\<lambda>x. x = c \<or> x = c + 32 \<or> c = 83 \<and> x = 383)) w"

definition mentions :: "ustr \<Rightarrow> ustr \<Rightarrow> ustr \<Rightarrow> bool" where
  "mentions chinese english text \<longleftrightarrow> rsearch (RAlt (rseq (rtext chinese)) (rseq (caseless english))) text \<noteq> None"

definition simple_patterns :: "rx list" where
  "simple_patterns = [
     priced (rtext [30446, 26631, 20215] @ [member [20301, 26684]]),
     priced (rtext [42, 42, 30446, 26631, 20215] @ [member [20301, 26684]] @ rtext [42, 42]),
     priced (rtext [30446, 26631]),
     priced (rtext [20215, 26684]),
     rseq [one currency_sign, number_cap],
     rseq [number_cap, rchar 20803]]"

definition simple_action :: "ustr \<Rightarrow> ustr" where
  "simple_action text = (if mentions txt_buy [66, 85, 89] text then txt_buy
     else if mentions txt_sell [83, 69, 76, 76] text then txt_sell else txt_hold)"

definition target_of :: "fval option \<Rightarrow> signal_target" where
  "target_of x = (case x of None \<Rightarrow> NoTarget | Some v \<Rightarrow> Target v)"

definition extract_simple_decision :: "ustr \<Rightarrow> signal_result" where
  "extract_simple_decision text = (let action = simple_action text in
     \<lparr>sg_action = action,
      sg_target = target_of (case first_number simple_patterns text of Some v \<Rightarrow> Some v
        | None \<Rightarrow> smart_price_estimation text action True),
      sg_confidence = seven_tenths, sg_risk = half, sg_reasoning = JStr txt_default_reason\<rparr>)"

section \<open>The JSON object\<close>

text \<open>\<open>float\<close> of a value; \<open>None\<close> when it raises.\<close>

definition float_of_json :: "json \<Rightarrow> fval option" where
  "float_of_json v = (case v of
     JFloat x \<Rightarrow> Some x
   | JInt i \<Rightarrow> (case to_fval (of_int i) of Fin x \<Rightarrow> Some (Fin x) | NonFin \<Rightarrow> None)
   | JBool b \<Rightarrow> Some (Fin (if b then 1 else 0))
   | JStr s \<Rightarrow> float_of_text s
   | _ \<Rightarrow> None)"

definition json_object_re :: rx where
  "json_object_re = RCap 0 (rseq [rchar 123, RCls (\<lambda>c. True) 0 None, rchar 125])"

definition action_map :: "(ustr, ustr) dict" where
  "action_map = [([98, 117, 121], txt_buy), ([104, 111, 108, 100], txt_hold), ([115, 101, 108, 108], txt_sell),
     ([66, 85, 89], txt_buy), ([72, 79, 76, 68], txt_hold), ([83, 69, 76, 76], txt_sell),
     ([36141, 20080], txt_buy), ([20445, 25345], txt_hold), ([20986, 21806], txt_sell),
     ([112, 117, 114, 99, 104, 97, 115, 101], txt_buy), ([107, 101, 101, 112], txt_hold), ([100, 105, 115, 112, 111, 115, 101], txt_sell)]"

definition action_of :: "json \<Rightarrow> ustr option" where
  "action_of v = (case v of
     JStr s \<Rightarrow> Some (if s \<in> {txt_buy, txt_hold, txt_sell} then s else dget_default action_map s txt_hold)
   | JList _ \<Rightarrow> None | JObj _ \<Rightarrow> None | _ \<Rightarrow> Some txt_hold)"

definition json_text :: "(json \<Rightarrow> ustr) \<Rightarrow> json \<Rightarrow> ustr" where
  "json_text show v = (case v of JStr s \<Rightarrow> s | _ \<Rightarrow> show v)"

definition clean_price :: "ustr \<Rightarrow> ustr" where
  "clean_price s = u_strip (filter (\<lambda>c. c \<noteq> 36 \<and> c \<noteq> 165 \<and> c \<noteq> 65509 \<and> c \<noteq> 20803) s)"

definition without_price :: "json \<Rightarrow> bool" where
  "without_price v \<longleftrightarrow> v = JNull \<or> v = JStr [110, 117, 108, 108] \<or> v = JStr []"

definition searched_target :: "ustr \<Rightarrow> ustr \<Rightarrow> bool \<Rightarrow> signal_target" where
  "searched_target text action china = (case first_number signal_patterns text of
     Some v \<Rightarrow> Target v
   | None \<Rightarrow> (case smart_price_estimation text action china of
       Some v \<Rightarrow> if v = Fin 0 then NoTarget else Target v
     | None \<Rightarrow> NoTarget))"

text \<open>
  The price of the object: the conversion of an int that is too large raises an OverflowError, which
  is not caught here. The text for the second currency is removed after its last character was, so
  a price with it is no number.
\<close>

definition given_target :: "json \<Rightarrow> signal_target option" where
  "given_target v = (case v of
     JStr s \<Rightarrow> Some (if clean_price s = [] \<or> u_lower (clean_price s) \<in> {[110, 111, 110, 101], [110, 117, 108, 108]} then NoTarget
       else target_of (float_of_text (clean_price s)))
   | JInt i \<Rightarrow> map_option Target (float_of_json v)
   | JFloat x \<Rightarrow> Some (Target x)
   | JBool b \<Rightarrow> map_option Target (float_of_json v)
   | _ \<Rightarrow> Some (OtherTarget v))"

definition read_object :: "(json \<Rightarrow> ustr) \<Rightarrow> ustr \<Rightarrow> bool \<Rightarrow> (ustr, json) dict \<Rightarrow> signal_result option" where
  "read_object show full_signal china d = (let
     price = dget_default d [116, 97, 114, 103, 101, 116, 95, 112, 114, 105, 99, 101] JNull;
     text = json_text show (dget_default d [114, 101, 97, 115, 111, 110, 105, 110, 103] (JStr [])) @ [32] @ full_signal in
     (case action_of (dget_default d [97, 99, 116, 105, 111, 110] (JStr txt_hold)) of None \<Rightarrow> None | Some action \<Rightarrow>
     (case (if without_price price then Some (searched_target text action china) else given_target price) of None \<Rightarrow> None | Some target \<Rightarrow>
     (case float_of_json (dget_default d [99, 111, 110, 102, 105, 100, 101, 110, 99, 101] (JFloat seven_tenths)) of None \<Rightarrow> None | Some conf \<Rightarrow>
     (case float_of_json (dget_default d [114, 105, 115, 107, 95, 115, 99, 111, 114, 101] (JFloat half)) of None \<Rightarrow> None | Some risk \<Rightarrow>
        Some \<lparr>sg_action = action, sg_target = target, sg_confidence = conf, sg_risk = risk,
          sg_reasoning = dget_default d [114, 101, 97, 115, 111, 110, 105, 110, 103] (JStr txt_default_reason)\<rparr>)))))"

definition read_answer :: "(json \<Rightarrow> ustr) \<Rightarrow> ustr \<Rightarrow> bool \<Rightarrow> ustr \<Rightarrow> signal_result option" where
  "read_answer show full_signal china answer = (case rsearch json_object_re answer of
     None \<Rightarrow> Some (extract_simple_decision answer)
   | Some g \<Rightarrow> (case json_loads (group g 0) of
       Some (JObj d) \<Rightarrow> read_object show full_signal china d
     | _ \<Rightarrow> None))"

definition process_signal :: "(json \<Rightarrow> ustr) \<Rightarrow> ustr \<Rightarrow> ustr \<Rightarrow> ustr option \<Rightarrow> signal_result" where
  "process_signal show full_signal symbol answer = (let s = u_strip full_signal in
     if s = [] then invalid_signal
     else (case answer of None \<Rightarrow> extract_simple_decision s
       | Some a \<Rightarrow> (case read_answer show s (is_china_stock symbol) a of
           Some r \<Rightarrow> r | None \<Rightarrow> extract_simple_decision s)))"

text \<open>The decision handed to the analysis service, if its numbers are finite.\<close>

definition fval_num :: "fval \<Rightarrow> pyfloat option" where
  "fval_num v = (case v of Fin x \<Rightarrow> Some x | NonFin \<Rightarrow> None)"

definition truthy :: "json \<Rightarrow> bool" where
  "truthy v = (case v of JNull \<Rightarrow> False | JBool b \<Rightarrow> b | JInt i \<Rightarrow> i \<noteq> 0 | JFloat x \<Rightarrow> x \<noteq> Fin 0 | JStr s \<Rightarrow> s \<noteq> []
   | JList l \<Rightarrow> l \<noteq> [] | JObj d \<Rightarrow> d \<noteq> [])"

definition target_value_of :: "signal_target \<Rightarrow> target_value option" where
  "target_value_of t = (case t of NoTarget \<Rightarrow> Some TgNone | OtherTarget v \<Rightarrow> Some TgOther
   | Target v \<Rightarrow> map_option TgNumber (fval_num v))"

definition reasoning_of :: "(json \<Rightarrow> ustr) \<Rightarrow> json \<Rightarrow> pyobj" where
  "reasoning_of show v = (case v of JStr s \<Rightarrow> PText s | _ \<Rightarrow> PObj (truthy v) (show v))"

definition handed_on :: "(json \<Rightarrow> ustr) \<Rightarrow> ustr \<Rightarrow> signal_result \<Rightarrow> signal_decision option" where
  "handed_on show model g = (case (fval_num (sg_confidence g), fval_num (sg_risk g), target_value_of (sg_target g)) of
     (Some c, Some r, Some t) \<Rightarrow> Some \<lparr>sd_action = sg_action g, sd_target = t, sd_confidence = c, sd_risk = r,
        sd_reasoning = reasoning_of show (sg_reasoning g), sd_model = model\<rparr>
   | _ \<Rightarrow> None)"

section \<open>Properties\<close>

lemma action_of_known: "action_of v = Some a \<Longrightarrow> a \<in> {txt_buy, txt_hold, txt_sell}"
  by (auto simp: action_of_def action_map_def dget_default_def dict_simps split: json.splits if_splits)

lemma simple_known: "sg_action (extract_simple_decision text) \<in> {txt_buy, txt_hold, txt_sell}"
  by (simp add: extract_simple_decision_def Let_def simple_action_def)

lemma read_object_known: "read_object show s china d = Some r \<Longrightarrow> sg_action r \<in> {txt_buy, txt_hold, txt_sell}"
  by (auto simp: read_object_def Let_def simp del: insert_iff dest: action_of_known split: option.splits)

lemma signal_known: "sg_action (process_signal show full_signal symbol answer) \<in> {txt_buy, txt_hold, txt_sell}"
proof -
  have "sg_action r \<in> {txt_buy, txt_hold, txt_sell}" if "read_answer show s china a = Some r" for s china a r
    using that simple_known [of a]
    by (auto simp: read_answer_def simp del: insert_iff dest: read_object_known split: option.splits json.splits)
  moreover have "sg_action invalid_signal \<in> {txt_buy, txt_hold, txt_sell}" by (simp add: invalid_signal_def)
  ultimately show ?thesis
    by (auto simp: process_signal_def Let_def simple_known simp del: insert_iff split: option.splits)
qed

text \<open>
  Whatever the model answers, and also when it does not answer, the action of the decision is
  buy, hold or sell.
\<close>

theorem signal_action: "sg_action (process_signal show full_signal symbol answer) \<in> {txt_buy, txt_hold, txt_sell}"
  by (rule signal_known)

text \<open>The JSON object is found between any text without an opening and any without a closing brace.\<close>

lemma rsearch_cap_skip: "c \<notin> set p \<Longrightarrow> rsearch (RCap i (RSeq (rchar c) b)) (p @ s) = rsearch (RCap i (RSeq (rchar c) b)) s"
  by (induction p) (simp_all del: rmatch.simps(2) add: rmatch_char_seq)

text \<open>A greedy sequence of any characters before one character ends at its last occurrence.\<close>

lemma rfirst_greedy:
  assumes "c \<notin> set q" "rfirst x q g = Some y"
  shows "rfirst (RSeq (RCls (\<lambda>c. True) 0 None) (RSeq (rchar c) x)) (m @ c # q) g = Some y"
proof -
  let ?s = "m @ c # q" and ?f = "\<lambda>k. rmatch (RSeq (rchar c) x) (drop k (m @ c # q)) g"
  let ?a = "length m" and ?n = "length (m @ c # q)"
  have late: "?f k = []" if "Suc ?a \<le> k" for k
  proof -
    have "set (drop k ?s) \<subseteq> set (drop (Suc ?a) ?s)" using that by (rule set_drop_subset_set_drop)
    then have "c \<notin> set (drop k ?s)" using assms(1) by auto
    then show ?thesis
      by (simp add: rmatch_char_seq del: rmatch.simps(2) drop_append split: list.split) (metis list.set_intros(1))
  qed
  have all: "takeWhile (\<lambda>c. True) s = s" for s :: ustr by (induction s) simp_all
  have "rmatch (RSeq (RCls (\<lambda>c. True) 0 None) (RSeq (rchar c) x)) ?s g = concat (map ?f (rev [0..<Suc ?n]))"
    by (simp add: rmatch.simps(2) [of "RCls (\<lambda>c. True) 0 None"] Let_def comp_def map_concat all del: rmatch.simps(2) upt_Suc)
  also have "rev [0..<Suc ?n] = rev [Suc ?a..<Suc ?n] @ ?a # rev [0..<?a]"
  proof -
    have "[0..<Suc ?n] = [0..<Suc ?a] @ [Suc ?a..<Suc ?n]" using upt_add_eq_append [of 0 "Suc ?a" "Suc (length q)"] by simp
    then show ?thesis by simp
  qed
  also have "concat (map ?f (rev [Suc ?a..<Suc ?n] @ ?a # rev [0..<?a])) = ?f ?a @ concat (map ?f (rev [0..<?a]))"
  proof -
    have "\<forall>k \<in> set (rev [Suc ?a..<Suc ?n]). ?f k = []" unfolding set_rev set_upt using late atLeastLessThan_iff by blast
    then have "concat (map ?f (rev [Suc ?a..<Suc ?n])) = []" by (simp only: concat_eq_Nil_conv set_map) blast
    then show ?thesis unfolding map_append concat_append list.map concat.simps by (simp only: append_Nil)
  qed
  also have "?f ?a = rmatch x q g" by (simp add: rmatch_char_seq del: rmatch.simps(2))
  finally show ?thesis using assms(2) by (auto simp: rfirst_Some)
qed

lemma json_object_found:
  assumes "123 \<notin> set p" "125 \<notin> set q"
  shows "rsearch json_object_re (p @ (123 # m @ [125]) @ q) = Some [(0, 123 # m @ [125])]"
proof -
  let ?r = "RSeq (rchar 123) (RSeq (RCls (\<lambda>c. True) 0 None) (RSeq (rchar 125) (rseq [])))"
  have "rfirst (rseq []) q [] = Some (q, [])" by (rule rseq_nil)
  from rfirst_greedy [OF assms(2) this, of m]
  have "rfirst ?r (123 # m @ 125 # q) [] = Some (q, [])" by (rule rfirst_seq [OF rfirst_char])
  then have "rfirst (RCap 0 ?r) ((123 # m @ [125]) @ q) [] = Some (q, [(0, 123 # m @ [125])])"
    by (intro rfirst_cap) simp
  then show ?thesis using rsearch_hit unfolding json_object_re_def rseq.simps rsearch_cap_skip [OF assms(1)] by blast
qed

lemma answer_decides:
  assumes "u_strip full_signal \<noteq> []" "123 \<notin> set p" "125 \<notin> set q" "json_loads (123 # m @ [125]) = Some (JObj d)"
    "action_of (dget_default d [97, 99, 116, 105, 111, 110] (JStr txt_hold)) = Some action"
    "\<not> without_price (dget_default d [116, 97, 114, 103, 101, 116, 95, 112, 114, 105, 99, 101] JNull)" "given_target (dget_default d [116, 97, 114, 103, 101, 116, 95, 112, 114, 105, 99, 101] JNull) = Some target"
    "float_of_json (dget_default d [99, 111, 110, 102, 105, 100, 101, 110, 99, 101] (JFloat seven_tenths)) = Some conf"
    "float_of_json (dget_default d [114, 105, 115, 107, 95, 115, 99, 111, 114, 101] (JFloat half)) = Some risk"
  shows "process_signal show full_signal symbol (Some (p @ (123 # m @ [125]) @ q)) = \<lparr>sg_action = action, sg_target = target,
     sg_confidence = conf, sg_risk = risk, sg_reasoning = dget_default d [114, 101, 97, 115, 111, 110, 105, 110, 103] (JStr txt_default_reason)\<rparr>"
  using assms json_object_found [OF assms(2,3), of m]
  by (simp add: process_signal_def Let_def read_answer_def read_object_def group_def)

text \<open>
  A decision that the model gives as one JSON object, in any text without other braces around it,
  is read from the object: the action mapped, the numbers converted, the target price that it
  names. Only when the object has no price, or a value that does not convert, the texts decide.
\<close>

theorem answer_read:
  assumes "u_strip full_signal \<noteq> []" "123 \<notin> set p" "125 \<notin> set q" "json_loads (123 # m @ [125]) = Some (JObj d)"
    "action_of (dget_default d [97, 99, 116, 105, 111, 110] (JStr txt_hold)) = Some action"
    "\<not> without_price (dget_default d [116, 97, 114, 103, 101, 116, 95, 112, 114, 105, 99, 101] JNull)" "given_target (dget_default d [116, 97, 114, 103, 101, 116, 95, 112, 114, 105, 99, 101] JNull) = Some target"
    "float_of_json (dget_default d [99, 111, 110, 102, 105, 100, 101, 110, 99, 101] (JFloat seven_tenths)) = Some conf"
    "float_of_json (dget_default d [114, 105, 115, 107, 95, 115, 99, 111, 114, 101] (JFloat half)) = Some risk"
  shows "process_signal show full_signal symbol (Some (p @ (123 # m @ [125]) @ q)) = \<lparr>sg_action = action, sg_target = target,
     sg_confidence = conf, sg_risk = risk, sg_reasoning = dget_default d [114, 101, 97, 115, 111, 110, 105, 110, 103] (JStr txt_default_reason)\<rparr>"
  by (rule answer_decides [OF assms])

definition ex_reply :: ustr where
  "ex_reply = [123, 34, 97, 99, 116, 105, 111, 110, 34, 58, 32, 34, 98, 117, 121, 34, 44, 32, 34, 116, 97, 114, 103, 101, 116, 95, 112, 114, 105, 99, 101, 34, 58, 32, 49, 50, 44, 32, 34, 99, 111, 110, 102, 105, 100, 101, 110, 99, 101, 34, 58, 32, 49, 44, 32, 34, 114, 105, 115, 107, 95, 115, 99, 111, 114, 101, 34, 58, 32, 48, 125]"

lemma ex_object: "json_loads ex_reply = Some (JObj [([97, 99, 116, 105, 111, 110], JStr [98, 117, 121]), ([116, 97, 114, 103, 101, 116, 95, 112, 114, 105, 99, 101], JInt 12),
   ([99, 111, 110, 102, 105, 100, 101, 110, 99, 101], JInt 1), ([114, 105, 115, 107, 95, 115, 99, 111, 114, 101], JInt 0)])"
  unfolding ex_reply_def by code_simp

definition ex_json :: "(ustr, json) dict" where
  "ex_json = [([97, 99, 116, 105, 111, 110], JStr [98, 117, 121]), ([116, 97, 114, 103, 101, 116, 95, 112, 114, 105, 99, 101], JInt 12), ([99, 111, 110, 102, 105, 100, 101, 110, 99, 101], JInt 1), ([114, 105, 115, 107, 95, 115, 99, 111, 114, 101], JInt 0)]"

lemma to_fval_int: "0 \<le> n \<Longrightarrow> n \<le> 2 ^ 53 \<Longrightarrow> to_fval (of_int n) = Fin (of_int n)"
proof -
  assume n: "0 \<le> n" "n \<le> 2 ^ 53"
  have "(of_int n :: rat) \<le> of_int (2 ^ 53)" using n(2) by (simp only: of_int_le_iff)
  also have "\<dots> < 2 ^ 1024" by simp
  finally show ?thesis using n by (simp add: to_fval_def)
qed

lemma ex_read:
  "u_strip [120] \<noteq> []" "(123 :: int) \<notin> set [111, 107, 32]" "(125 :: int) \<notin> set [46]"
  "json_loads (123 # butlast (tl ex_reply) @ [125]) = Some (JObj ex_json)"
  "action_of (dget_default ex_json [97, 99, 116, 105, 111, 110] (JStr txt_hold)) = Some txt_buy"
  "\<not> without_price (dget_default ex_json [116, 97, 114, 103, 101, 116, 95, 112, 114, 105, 99, 101] JNull)"
  "given_target (dget_default ex_json [116, 97, 114, 103, 101, 116, 95, 112, 114, 105, 99, 101] JNull) = Some (Target (Fin 12))"
  "float_of_json (dget_default ex_json [99, 111, 110, 102, 105, 100, 101, 110, 99, 101] (JFloat seven_tenths)) = Some (Fin 1)"
  "float_of_json (dget_default ex_json [114, 105, 115, 107, 95, 115, 99, 111, 114, 101] (JFloat half)) = Some (Fin 0)"
proof -
  have e: "ex_reply = 123 # butlast (tl ex_reply) @ [125]" by (simp add: ex_reply_def)
  show "json_loads (123 # butlast (tl ex_reply) @ [125]) = Some (JObj ex_json)"
    using ex_object by (simp add: ex_json_def flip: e)
  have v: "to_fval 12 = Fin 12" "to_fval 1 = Fin 1" "to_fval 0 = Fin 0"
    using to_fval_int [of 12] to_fval_int [of 1] to_fval_int [of 0] by simp_all
  show "u_strip [120] \<noteq> []" "(123 :: int) \<notin> set [111, 107, 32]" "(125 :: int) \<notin> set [46]"
    "action_of (dget_default ex_json [97, 99, 116, 105, 111, 110] (JStr txt_hold)) = Some txt_buy"
    "\<not> without_price (dget_default ex_json [116, 97, 114, 103, 101, 116, 95, 112, 114, 105, 99, 101] JNull)"
    "given_target (dget_default ex_json [116, 97, 114, 103, 101, 116, 95, 112, 114, 105, 99, 101] JNull) = Some (Target (Fin 12))"
    "float_of_json (dget_default ex_json [99, 111, 110, 102, 105, 100, 101, 110, 99, 101] (JFloat seven_tenths)) = Some (Fin 1)"
    "float_of_json (dget_default ex_json [114, 105, 115, 107, 95, 115, 99, 111, 114, 101] (JFloat half)) = Some (Fin 0)"
    by (simp_all add: ex_json_def dget_default_def action_of_def action_map_def without_price_def given_target_def float_of_json_def v
      txt_buy_def txt_hold_def txt_sell_def u_strip_def strip_by_def u_space_def)
qed

theorem answer_read_witness:
  "process_signal (\<lambda>v. []) [120] [] (Some ([111, 107, 32] @ (123 # butlast (tl ex_reply) @ [125]) @ [46])) = \<lparr>sg_action = txt_buy,
     sg_target = Target (Fin 12), sg_confidence = Fin 1, sg_risk = Fin 0,
     sg_reasoning = dget_default ex_json [114, 101, 97, 115, 111, 110, 105, 110, 103] (JStr txt_default_reason)\<rparr>"
  by (rule answer_read [OF ex_read])

text \<open>A text that mentions a purchase is a purchase for the simple extraction, whatever it says of it.\<close>

lemma contains_split: "contains p s \<Longrightarrow> \<exists>a b. s = a @ p @ b"
proof (induction s)
  case (Cons x xs)
  show ?case
  proof (cases "startswith (x # xs) p")
    case True
    then have "x # xs = [] @ p @ drop (length p) (x # xs)" by (metis append_Nil append_take_drop_id startswith_def)
    then show ?thesis by blast
  next
    case False
    then obtain a b where "xs = a @ p @ b" using Cons by auto
    then have "x # xs = (x # a) @ p @ b" by simp
    then show ?thesis by blast
  qed
qed simp

lemma mentions_chinese: "contains (c # w) text \<Longrightarrow> mentions (c # w) english text"
proof -
  assume "contains (c # w) text"
  then obtain a b where t: "text = a @ (c # w) @ b" using contains_split by blast
  have "rmatch (RAlt (rseq (rtext (c # w))) (rseq (caseless english))) ((c # w) @ b) [] \<noteq> []"
    using rmatch_rtext [of "c # w" "[]" "(c # w) @ b" "[]"] by (simp add: Let_def)
  from rsearch_within [OF this, of a] show ?thesis by (simp add: mentions_def t)
qed

lemma simple_buy_wins: "contains txt_buy text \<Longrightarrow> sg_action (extract_simple_decision text) = txt_buy"
  using mentions_chinese [of 20080 "[20837]" "text"] by (simp add: extract_simple_decision_def Let_def simple_action_def txt_buy_def)

end
