(* ===== verification/ReportGenerator.thy ===== *)
theory ReportGenerator
  imports ReportReader "HOL-Library.Product_Lexorder" "HOL-Library.Char_ord"
begin

text \<open>
  The report of a day, \<open>pipeline/report_generator.py\<close>: the texts of the analysts are prepared for
  markdown, every stock of the filter gets an entry with its analysis, completed from the files of
  the analysis service, and the entries are sorted. The packages \<open>markdown\<close> and \<open>jinja2\<close> are
  outside: the first is the parameter \<open>md\<close>, the entries are what the template is given.
  \<open>ast.literal_eval\<close> is the parameter \<open>lit\<close>.
\<close>

section \<open>Texts\<close>

text \<open>\<open>s.replace(p, r)\<close>, \<open>s.split(c)\<close> and \<open>sep.join(parts)\<close>.\<close>

function u_replace :: "ustr \<Rightarrow> ustr \<Rightarrow> ustr \<Rightarrow> ustr" where
  "u_replace p r [] = []"
| "u_replace p r (c # cs) = (if p \<noteq> [] \<and> startswith (c # cs) p then r @ u_replace p r (drop (length p) (c # cs))
     else c # u_replace p r cs)"
  by pat_completeness auto
termination
  by (relation "measure (\<lambda>(p, r, s). length s)") auto

fun u_split :: "int \<Rightarrow> ustr \<Rightarrow> ustr list" where
  "u_split c [] = [[]]"
| "u_split c (x # xs) = (if x = c then [] # u_split c xs
     else (case u_split c xs of l # ls \<Rightarrow> (x # l) # ls | [] \<Rightarrow> [[x]]))"

fun u_join :: "ustr \<Rightarrow> ustr list \<Rightarrow> ustr" where
  "u_join sep [] = []"
| "u_join sep [s] = s"
| "u_join sep (s # t # ss) = s @ sep @ u_join sep (t # ss)"

text \<open>The two characters backslash and n become a line break.\<close>

definition breaks :: "ustr \<Rightarrow> ustr" where "breaks s = u_replace [92, 110] [10] s"

section \<open>Markdown\<close>

text \<open>An empty line is put before and after each block of table lines.\<close>

definition table_line :: "ustr \<Rightarrow> bool" where
  "table_line l \<longleftrightarrow> startswith (u_strip l) [124] \<and> endswith (u_strip l) [124]"

definition blank :: "ustr \<Rightarrow> bool" where "blank l \<longleftrightarrow> u_strip l = []"

definition add_line :: "ustr \<Rightarrow> ustr list \<times> bool \<Rightarrow> ustr list \<times> bool" where
  "add_line l = (\<lambda>(ls, in_table).
     if table_line l \<and> \<not> in_table then ((if ls \<noteq> [] \<and> \<not> blank (last ls) then ls @ [[]] else ls) @ [l], True)
     else if \<not> table_line l \<and> in_table then ((if \<not> blank l then ls @ [[]] else ls) @ [l], False)
     else (ls @ [l], in_table))"

definition table_lines :: "ustr list \<Rightarrow> ustr list" where
  "table_lines ls = fst (fold add_line ls ([], False))"

definition md_to_html :: "(ustr \<Rightarrow> ustr) \<Rightarrow> ustr \<Rightarrow> ustr" where
  "md_to_html md s = md (u_join [10] (table_lines (u_split 10 s)))"

section \<open>Reports saved as the text of a dictionary\<close>

text \<open>
  A value of a part: a text, or a number, a bool or None by its truth. A literal is no literal, not
  a dictionary, or a dictionary with its \<open>str\<close>; other exceptions of the evaluation are raised.
\<close>

datatype part = TextPart ustr | PlainPart bool

datatype literal = LitError | LitValue | LitDict "(ustr, part) dict" ustr | LitRaises string

definition part_of :: "(ustr, part) dict \<Rightarrow> string \<Rightarrow> part" where
  "part_of d k = dget_default d (ustr_of k) (TextPart [])"

definition speaker_map :: "(string \<times> ustr) list" where
  "speaker_map = [(''risky_history'', [128293, 32, 28608, 36827, 27966]), (''safe_history'', [128737, 65039, 32, 20445, 23432, 27966]), (''neutral_history'', [9878, 65039, 32, 20013, 24615, 27966])]"

definition without_speakers :: "ustr \<Rightarrow> ustr" where
  "without_speakers s = u_replace [78, 101, 117, 116, 114, 97, 108, 32, 65, 110, 97, 108, 121, 115, 116, 58] [] (u_replace [83, 97, 102, 101, 32, 65, 110, 97, 108, 121, 115, 116, 58] [] (u_replace [82, 105, 115, 107, 121, 32, 65, 110, 97, 108, 121, 115, 116, 58] [] s))"

definition speaker_part :: "(ustr, part) dict \<Rightarrow> string \<times> ustr \<Rightarrow> (string, ustr list) result" where
  "speaker_part d kl = (case part_of d (fst kl) of
     TextPart s \<Rightarrow> Inr (if 10 < length (u_strip s)
       then [[35, 35, 35, 32] @ snd kl @ [10, 10] @ u_strip (without_speakers (breaks s))] else [])
   | PlainPart b \<Rightarrow> if b then Inl ''AttributeError'' else Inr [])"

fun collect :: "('a \<Rightarrow> (string, 'b list) result) \<Rightarrow> 'a list \<Rightarrow> (string, 'b list) result" where
  "collect f [] = Inr []"
| "collect f (x # xs) = (case f x of Inl e \<Rightarrow> Inl e | Inr ys \<Rightarrow>
     (case collect f xs of Inl e \<Rightarrow> Inl e | Inr zs \<Rightarrow> Inr (ys @ zs)))"

definition txt_rule :: ustr where "txt_rule = [10, 10, 45, 45, 45, 10, 10]"
definition txt_risk_record :: ustr where "txt_risk_record = [35, 32, 39118, 25511, 36777, 35770, 35760, 24405]"

definition heading_part :: "ustr \<Rightarrow> part \<Rightarrow> (string, ustr list) result" where
  "heading_part h p = (case p of TextPart s \<Rightarrow> Inr (if s = [] then [] else [h @ [10, 10] @ breaks s])
   | PlainPart b \<Rightarrow> if b then Inl ''TypeError'' else Inr [])"

definition joined_or :: "ustr \<Rightarrow> ustr list \<Rightarrow> ustr \<Rightarrow> ustr" where
  "joined_or sep parts s = (if parts \<noteq> [] then u_join sep parts else take 2000 s)"

definition format_risk_decision :: "(ustr, part) dict \<Rightarrow> ustr \<Rightarrow> (string, ustr) result" where
  "format_risk_decision d s =
     (case heading_part [35, 32, 39118, 38505, 31649, 29702, 22996, 21592, 20250, 35009, 20915] (part_of d ''judge_decision'') of Inl e \<Rightarrow> Inl e | Inr judge \<Rightarrow>
     (case collect (speaker_part d) speaker_map of Inl e \<Rightarrow> Inl e | Inr debate \<Rightarrow>
     (case (if judge = [] then heading_part txt_risk_record (part_of d ''history'') else Inr []) of Inl e \<Rightarrow> Inl e | Inr history \<Rightarrow>
        Inr (joined_or [10, 10] (judge
          @ (if debate \<noteq> [] then [[45, 45, 45, 10, 10] @ txt_risk_record @ [10, 10] @ u_join txt_rule debate] else []) @ history) s))))"

text \<open>The debate of the researchers, cut where a speaker starts.\<close>

definition txt_bull :: ustr where "txt_bull = [66, 117, 108, 108, 32, 65, 110, 97, 108, 121, 115, 116, 58]"
definition txt_bear :: ustr where "txt_bear = [66, 101, 97, 114, 32, 65, 110, 97, 108, 121, 115, 116, 58]"

definition speech :: "ustr \<Rightarrow> ustr list \<Rightarrow> ustr list" where
  "speech speaker content = (if speaker \<noteq> [] \<and> content \<noteq> [] then [[35, 35, 35, 32] @ speaker @ [10, 10] @ u_join [10] content] else [])"

fun speeches :: "ustr \<Rightarrow> ustr list \<Rightarrow> ustr list \<Rightarrow> ustr list" where
  "speeches speaker content [] = speech speaker content"
| "speeches speaker content (l # ls) =
     (if startswith l txt_bull then speech speaker content
        @ speeches [128002, 32, 30475, 28072, 30740, 31350, 21592] [u_strip (u_replace txt_bull [] l)] ls
      else if startswith l txt_bear then speech speaker content
        @ speeches [128059, 32, 30475, 36300, 30740, 31350, 21592] [u_strip (u_replace txt_bear [] l)] ls
      else speeches speaker (content @ [l]) ls)"

definition txt_debate_record :: ustr where "txt_debate_record = [35, 32, 30740, 31350, 22242, 38431, 36777, 35770, 35760, 24405]"

definition format_research_debate :: "(ustr, part) dict \<Rightarrow> ustr \<Rightarrow> (string, ustr) result" where
  "format_research_debate d s = (case part_of d ''history'' of
     PlainPart b \<Rightarrow> Inl ''TypeError''
   | TextPart h \<Rightarrow> (let history = breaks h; parts = speeches [] [] (u_split 10 history) in
       Inr (if parts \<noteq> [] then txt_debate_record @ [10, 10] @ u_join txt_rule parts
         else if history \<noteq> [] then txt_debate_record @ [10, 10] @ history else take 2000 s)))"

definition generic_part :: "ustr \<times> part \<Rightarrow> ustr list" where
  "generic_part kv = (case snd kv of TextPart s \<Rightarrow> if 20 < length (u_strip s) then [[35, 35, 32] @ fst kv @ [10, 10] @ breaks s] else []
   | PlainPart b \<Rightarrow> [])"

definition format_generic_dict :: "(ustr, part) dict \<Rightarrow> ustr \<Rightarrow> ustr" where
  "format_generic_dict d s = joined_or txt_rule (concat (map generic_part d)) s"

text \<open>What can be read of a text that is no literal.\<close>

definition raw_re :: "ustr \<Rightarrow> rx \<Rightarrow> rx" where
  "raw_re key after = rseq (rtext ([39] @ key @ [39, 58]) @ [rspace, rchar 39, RCap 1 (RLazy (\<lambda>c. True) 0), rchar 39, after])"

definition raw_judge_re :: rx where
  "raw_judge_re = raw_re [106, 117, 100, 103, 101, 95, 100, 101, 99, 105, 115, 105, 111, 110] (RAlt (rchar 44) (RSeq rspace (rchar 125)))"

definition raw_history_re :: rx where
  "raw_history_re = raw_re [104, 105, 115, 116, 111, 114, 121] (RAlt (rchar 44) (rseq [rspace, rchar 39, one (\<lambda>c. 97 \<le> c \<and> c \<le> 122)]))"

definition found_part :: "ustr \<Rightarrow> groups option \<Rightarrow> ustr list" where
  "found_part h g = (case g of None \<Rightarrow> [] | Some g \<Rightarrow> [h @ [10, 10] @ breaks (group g 1)])"

definition extract_readable :: "ustr \<Rightarrow> ustr" where
  "extract_readable s = (let parts = found_part [35, 32, 35009, 20915] (rsearch raw_judge_re s) @ found_part [35, 32, 36777, 35770, 35760, 24405] (rsearch raw_history_re s) in
     if parts \<noteq> [] then u_join txt_rule parts
     else take 5000 (u_replace [39, 125] [] (u_replace [123, 39] [] (breaks s))))"

definition preprocess_report :: "(ustr \<Rightarrow> literal) \<Rightarrow> ustr \<Rightarrow> ustr \<Rightarrow> (string, ustr) result" where
  "preprocess_report lit name content = (let s = u_strip content in
     if \<not> (startswith s [123] \<and> endswith s [125]) then Inr content
     else (case lit s of
       LitRaises e \<Rightarrow> Inl e
     | LitError \<Rightarrow> Inr (if extract_readable content = [] then content else extract_readable content)
     | LitValue \<Rightarrow> Inr content
     | LitDict d t \<Rightarrow>
         if contains [35009, 20915] name \<or> contains [114, 105, 115, 107] (u_lower name) then format_risk_decision d t
         else if contains [36777, 35770] name \<or> contains [114, 101, 115, 101, 97, 114, 99, 104] (u_lower name) then format_research_debate d t
         else Inr (format_generic_dict d t)))"

section \<open>The entries\<close>

text \<open>
  An entry refers to the object of the client for its code, or has an object of its own: the
  objects of the client are changed in place, also for the entries that have them already.
\<close>

datatype shown = NoAnalysis | Shared | Own stock_analysis_result

record report_entry =
  pe_stock :: stock_filter_data
  pe_shown :: shown
  pe_reports :: "(ustr, ustr) dict"
  pe_url :: string
  pe_scores :: scores
  pe_winrate :: ustr

type_synonym analyses = "(string, stock_analysis_result) dict"

record report_env =
  rn_md :: "ustr \<Rightarrow> ustr"
  rn_lit :: "ustr \<Rightarrow> literal"
  rn_results :: results_dir

definition txt_gave_up :: ustr where "txt_gave_up = [20462, 27491, 22343, 22833, 36133]"

fun gave_up :: "err_text \<Rightarrow> bool" where
  "gave_up (EText s) = contains txt_gave_up s"
| "gave_up (EWorkerDead e) = gave_up e"
| "gave_up _ = False"

definition validation_failed :: "stock_analysis_result option \<Rightarrow> bool" where
  "validation_failed a = (case a of None \<Rightarrow> False | Some a \<Rightarrow> (case ar_error_message a of None \<Rightarrow> False | Some e \<Rightarrow> gave_up e))"

definition txt_rejected :: ustr where
  "txt_rejected = [9888, 65039, 32, 65, 73, 32, 20998, 26512, 25968, 25454, 26657, 39564, 26410, 36890, 36807, 65288, 27169, 22411, 22810, 27425, 29983, 25104, 38169, 35823, 30340, 20844, 21496, 21517, 31216, 25110, 20215, 26684, 65289, 65292, 24050, 25918, 24323, 12290, 20165, 23637, 31034, 32, 66, 49, 32, 31574, 30053, 31579, 36873, 25968, 25454, 12290]"

definition rejected_result :: "string \<Rightarrow> err_text option \<Rightarrow> stock_analysis_result" where
  "rejected_result code e = (new_analysis_result code)\<lparr>ar_status := ArFailed, ar_summary := txt_rejected, ar_error_message := e\<rparr>"

definition fill_result :: "read_decision \<Rightarrow> stock_analysis_result \<Rightarrow> stock_analysis_result" where
  "fill_result d a = a\<lparr>
     ar_recommendation := (if ar_recommendation a = [] then rd_action d else ar_recommendation a),
     ar_confidence_score := (if ar_confidence_score a = 0 then rd_confidence d else ar_confidence_score a),
     ar_risk_score := (if ar_risk_score a = 0 then rd_risk d else ar_risk_score a),
     ar_target_price := (if ar_target_price a = 0 then rd_target d else ar_target_price a),
     ar_summary := (if ar_summary a = [] then rd_summary d else ar_summary a)\<rparr>"

definition file_result :: "string \<Rightarrow> read_decision \<Rightarrow> stock_analysis_result" where
  "file_result code d = (new_analysis_result code)\<lparr>ar_status := ArCompleted, ar_recommendation := rd_action d,
     ar_confidence_score := rd_confidence d, ar_risk_score := rd_risk d, ar_target_price := rd_target d,
     ar_summary := rd_summary d\<rparr>"

definition html_summary :: "(ustr \<Rightarrow> ustr) \<Rightarrow> stock_analysis_result \<Rightarrow> stock_analysis_result" where
  "html_summary md a = (if ar_summary a = [] then a else a\<lparr>ar_summary := md_to_html md (ar_summary a)\<rparr>)"

definition update_shared :: "string \<Rightarrow> (stock_analysis_result \<Rightarrow> stock_analysis_result) \<Rightarrow> analyses \<Rightarrow> analyses" where
  "update_shared code f ans = (case dget ans code of None \<Rightarrow> ans | Some a \<Rightarrow> dset code (f a) ans)"

text \<open>The analysis of an entry: rejected, completed, or not completed and perhaps saved by the service.\<close>

definition entry_analysis :: "report_env \<Rightarrow> string \<Rightarrow> string \<Rightarrow> analyses \<Rightarrow> (string, shown \<times> analyses) result" where
  "entry_analysis env day code ans = (let a = dget ans code; md = rn_md env in
     if validation_failed a then
       Inr (Own (html_summary md (rejected_result code (case a of None \<Rightarrow> None | Some a \<Rightarrow> ar_error_message a))), ans)
     else (case a of
       Some a \<Rightarrow>
         if ar_status a = ArCompleted then
           if ar_recommendation a = [] \<or> ar_summary a = [] then
             (case read_final_decision (rn_results env) code day of Inl e \<Rightarrow> Inl e
              | Inr None \<Rightarrow> Inr (Shared, update_shared code (html_summary md) ans)
              | Inr (Some d) \<Rightarrow> Inr (Shared, update_shared code (html_summary md \<circ> fill_result d) ans))
           else Inr (Shared, update_shared code (html_summary md) ans)
         else
           (case read_final_decision (rn_results env) code day of Inl e \<Rightarrow> Inl e
            | Inr (Some d) \<Rightarrow> if rd_action d \<noteq> [] then Inr (Own (html_summary md (file_result code d)), ans)
                else Inr (Shared, update_shared code (html_summary md) ans)
            | Inr None \<Rightarrow> Inr (Shared, update_shared code (html_summary md) ans))
     | None \<Rightarrow>
         (case read_final_decision (rn_results env) code day of Inl e \<Rightarrow> Inl e
          | Inr (Some d) \<Rightarrow> if rd_action d \<noteq> [] then Inr (Own (html_summary md (file_result code d)), ans)
              else Inr (NoAnalysis, ans)
          | Inr None \<Rightarrow> Inr (NoAnalysis, ans))))"

definition html_reports :: "report_env \<Rightarrow> string \<Rightarrow> string \<Rightarrow> (string, (ustr, ustr) dict) result" where
  "html_reports env day code = collect (\<lambda>(name, content). case preprocess_report (rn_lit env) name content of
     Inl e \<Rightarrow> Inl e | Inr s \<Rightarrow> Inr [(name, md_to_html (rn_md env) s)]) (read_analyst_reports (rn_results env) code day)"

definition stock_url :: "string \<Rightarrow> string" where
  "stock_url code = ''https://stockpage.10jqka.com.cn/'' @ normalize_code code @ ''/''"

definition stock_scores :: "report_env \<Rightarrow> string \<Rightarrow> string \<Rightarrow> scores" where
  "stock_scores env day code = (case rn_results env (normalize_code code) day of
     None \<Rightarrow> load_scores NoText NoText
   | Some d \<Rightarrow> load_scores (file_of d ''czsc_report.md'') (file_of d ''yangjia_report.md''))"

definition report_entry_of :: "report_env \<Rightarrow> string \<Rightarrow> stock_filter_data \<Rightarrow> analyses \<Rightarrow> (string, report_entry \<times> analyses) result" where
  "report_entry_of env day x ans = (let code = sf_code x in
     (case (if validation_failed (dget ans code) then Inr [] else html_reports env day code) of Inl e \<Rightarrow> Inl e | Inr reps \<Rightarrow>
     (case entry_analysis env day code ans of Inl e \<Rightarrow> Inl e | Inr (sh, ans2) \<Rightarrow>
        let sc = stock_scores env day code in
        Inr (\<lparr>pe_stock = x, pe_shown = sh, pe_reports = reps, pe_url = stock_url code, pe_scores = sc,
          pe_winrate = format_winrate (sc_win sc)\<rparr>, ans2))))"

fun report_entries :: "report_env \<Rightarrow> string \<Rightarrow> stock_filter_data list \<Rightarrow> analyses \<Rightarrow> (string, report_entry list \<times> analyses) result" where
  "report_entries env day [] ans = Inr ([], ans)"
| "report_entries env day (x # xs) ans = (case report_entry_of env day x ans of Inl e \<Rightarrow> Inl e | Inr (r, ans2) \<Rightarrow>
     (case report_entries env day xs ans2 of Inl e \<Rightarrow> Inl e | Inr (rs, ans3) \<Rightarrow> Inr (r # rs, ans3)))"

section \<open>The order\<close>

definition report_priority :: "tag list \<Rightarrow> int" where
  "report_priority tags = (let strict = TagB2Strict \<in> set tags; loose = TagB2Loose \<in> set tags in
     if strict \<and> \<not> loose then 400 else if strict \<and> loose then 300 else if loose then 200
     else if TagCzscHigh \<in> set tags then 100 else 0)"

definition entry_score :: "report_entry \<Rightarrow> rat option" where
  "entry_score r = dval_num (total_score (pe_stock r))"

definition entry_key :: "report_entry \<Rightarrow> int \<times> rat" where
  "entry_key r = (- report_priority (sf_tags (pe_stock r)), - or_default (entry_score r) 0)"

text \<open>A score without a number raises a TypeError.\<close>

definition generate_entries :: "report_env \<Rightarrow> string \<Rightarrow> stock_filter_data list \<Rightarrow> analyses
    \<Rightarrow> (string, report_entry list \<times> analyses) result" where
  "generate_entries env day stocks ans = (case report_entries env day stocks ans of Inl e \<Rightarrow> Inl e
     | Inr (rs, ans2) \<Rightarrow> if list_ex (\<lambda>r. entry_score r = None) rs then Inl ''TypeError'' else Inr (sort_key entry_key rs, ans2))"

text \<open>What the template shows for an entry.\<close>

definition shown_analysis :: "analyses \<Rightarrow> report_entry \<Rightarrow> stock_analysis_result option" where
  "shown_analysis ans r = (case pe_shown r of NoAnalysis \<Rightarrow> None | Own a \<Rightarrow> Some a | Shared \<Rightarrow> dget ans (sf_code (pe_stock r)))"

section \<open>The index\<close>

text \<open>
  The reports in the output directory, by name in descending order; the count is read from the page.
\<close>

definition count_re :: rx where
  "count_re = rseq (rtext [36890, 36807, 58] @ [rspace, RCap 1 (RCls u_digit 1 None)])"

definition count_of :: "text_file \<Rightarrow> int" where
  "count_of f = (case f of Text s \<Rightarrow> (case rsearch count_re s of Some g \<Rightarrow> u_int (group g 1) | None \<Rightarrow> 0) | _ \<Rightarrow> 0)"

definition html_stem :: "string \<Rightarrow> string" where "html_stem n = take (length n - 5) n"

definition index_entries :: "files \<Rightarrow> (string \<times> int) list" where
  "index_entries dir = map (\<lambda>n. (html_stem n, count_of (file_of dir n)))
     (filter (\<lambda>n. n \<noteq> ''index.html'') (rev (sort (filter (\<lambda>n. endswith n ''.html'') (dkeys dir)))))"

end
