(* ===== verification/DecisionFile.thy ===== *)
theory DecisionFile
  imports AnalysisResult
begin

text \<open>
  The decision that the analysis service writes is the decision that the pipeline reads: the
  searches of \<open>parse_final_decision\<close> on the text of \<open>decision_content\<close>.
\<close>

section \<open>Searching for a label\<close>

lemma label_re_chars: "label_re (l # ls) v = RSeq (rchar 42) (RSeq (rchar 42) (RSeq (rchar l)
   (rseq (rtext ls @ [rchar 42, rchar 42, one u_colon, rspace, RCap 1 v]))))"
  by (simp add: label_re_def rtext_def)

text \<open>No label is found in a part without a star, nor in the line of another label.\<close>

lemma label_skip: "42 \<notin> set p \<Longrightarrow> rsearch (label_re label v) (p @ q) = rsearch (label_re label v) q"
  unfolding label_re_def append_Cons rseq.simps by (rule rsearch_skip)

lemma label_miss:
  assumes "label = l # ls" "take 3 s \<noteq> [42, 42, l]"
  shows "rsearch (label_re label v) s = (case s of [] \<Rightarrow> None | c # cs \<Rightarrow> rsearch (label_re label v) cs)"
proof -
  have "rmatch (label_re label v) s [] = []" using assms(2)
    by (auto simp del: rmatch.simps(2) simp: assms(1) label_re_chars rmatch_char_seq eval_nat_numeral split: list.split)
  then show ?thesis by (cases s) simp_all
qed

lemma label_tail:
  assumes "label = l # ls" "l \<noteq> 58" "l \<noteq> 42" "other = c # cs" "42 \<notin> set other" "42 \<notin> set w"
  shows "rsearch (label_re label v) (tl (labelled other w) @ q) = rsearch (label_re label v) q"
proof -
  note miss = label_miss [OF assms(1)]
  have "tl (labelled other w) @ q = 42 # other @ 42 # 42 # (58 # 32 # w @ [10, 10]) @ q" by (simp add: labelled_def)
  also have "rsearch (label_re label v) \<dots> = rsearch (label_re label v) (other @ 42 # 42 # (58 # 32 # w @ [10, 10]) @ q)"
    using miss [of "42 # other @ 42 # 42 # (58 # 32 # w @ [10, 10]) @ q"] assms(3-5) by (simp add: eval_nat_numeral)
  also have "\<dots> = rsearch (label_re label v) (42 # 42 # (58 # 32 # w @ [10, 10]) @ q)" by (rule label_skip [OF assms(5)])
  also have "\<dots> = rsearch (label_re label v) ((58 # 32 # w @ [10, 10]) @ q)"
    using miss [of "42 # 42 # (58 # 32 # w @ [10, 10]) @ q"] miss [of "42 # (58 # 32 # w @ [10, 10]) @ q"] assms(2)
    by (simp add: eval_nat_numeral)
  also have "\<dots> = rsearch (label_re label v) q" by (rule label_skip) (use assms(6) in simp)
  finally show ?thesis .
qed

lemma label_skip_labelled:
  assumes "label = l # ls" "l \<noteq> 58" "l \<noteq> 42" "other = c # cs" "c \<noteq> l" "42 \<notin> set other" "42 \<notin> set w"
  shows "rsearch (label_re label v) (labelled other w @ q) = rsearch (label_re label v) q"
proof -
  have "labelled other w @ q = 42 # tl (labelled other w) @ q" by (simp add: labelled_def)
  then have "rsearch (label_re label v) (labelled other w @ q) = rsearch (label_re label v) (tl (labelled other w) @ q)"
    using label_miss [OF assms(1), of "labelled other w @ q" v] assms(4,5) by (simp add: labelled_def eval_nat_numeral)
  then show ?thesis using label_tail [OF assms(1-4,6,7)] by simp
qed

text \<open>The line of the label itself gives the value.\<close>

lemma label_hit:
  assumes "rfirst v (w @ rest) [] = Some (rest, [])" "w \<noteq> []" "\<not> u_space (hd w)" "u @ 10 # 10 # q = w @ rest"
  shows "rsearch (label_re label v) (labelled label u @ q) = Some [(1, w)]"
proof -
  have one: "rfirst (one u_colon) (58 # s) g = Some (s, g)" for s g
    using rfirst_cls [of u_colon "[58]"] by (cases s) (auto simp: one_def u_colon_def rfirst_def Let_def eval_nat_numeral)
  have space: "rfirst rspace (32 # w @ rest) [] = Some (w @ rest, [])"
    using rfirst_cls [of u_space "[32]" "w @ rest" 0 None] assms(2,3) by (cases w) (simp_all add: rspace_def u_space_def)
  have "rfirst (RSeq (RCap 1 v) (rseq [])) (w @ rest) [] = Some (rest, [(1, w)])"
    by (rule rfirst_seq [OF rfirst_cap [OF assms(1)]]) (cases rest; simp add: rfirst_def)
  then have "rfirst (rseq [one u_colon, rspace, RCap 1 v]) (58 # 32 # w @ rest) [] = Some (rest, [(1, w)])"
    using rfirst_seq [OF one rfirst_seq [OF space]] by simp
  then have "rfirst (rseq (rtext ([42, 42] @ label @ [42, 42]) @ [one u_colon, rspace, RCap 1 v]))
      (([42, 42] @ label @ [42, 42]) @ 58 # 32 # w @ rest) [] = Some (rest, [(1, w)])" by (rule rfirst_rtext)
  then have "rfirst (label_re label v) (labelled label u @ q) [] = Some (rest, [(1, w)])"
    using assms(4) by (simp add: label_re_def labelled_def rtext_def)
  then show ?thesis by (rule rsearch_hit)
qed

section \<open>The reasoning\<close>

text \<open>The space before the reasoning is given back up to its last line break.\<close>

lemma give_back:
  assumes "s = a @ 10 # b @ rest" "list_all u_space a" "list_all u_space b" "10 \<notin> set b" "rest = [] \<or> \<not> u_space (hd rest)"
    "rfirst x (b @ rest) g = Some y"
  shows "rfirst (RSeq rspace (RSeq (RCls (\<lambda>c. c = 10) 1 None) x)) s g = Some y"
proof -
  let ?f = "\<lambda>k. rmatch (RSeq (RCls (\<lambda>c. c = 10) 1 None) x) (drop k s) g"
  let ?a = "length a" and ?n = "length a + 1 + length b"
  have "takeWhile u_space s = a @ 10 # b"
    using assms(2,3,5) unfolding assms(1)
    by (cases rest) (auto simp: takeWhile_append2 takeWhile_tail list_all_iff u_space_def)
  then have m: "rmatch (RSeq rspace (RSeq (RCls (\<lambda>c. c = 10) 1 None) x)) s g = concat (map ?f (rev [0..<Suc ?n]))"
    by (simp add: rspace_def comp_def map_concat Let_def del: upt_Suc)
  have "[0..<Suc ?n] = [0..<Suc ?a] @ [Suc ?a..<Suc ?n]" using upt_add_eq_append [of 0 "Suc ?a" "Suc (length b)"] by simp
  then have r: "rev [0..<Suc ?n] = rev [Suc ?a..<Suc ?n] @ ?a # rev [0..<?a]" by simp
  have late: "?f k = []" if "k \<in> set (rev [Suc ?a..<Suc ?n])" for k
  proof -
    have "Suc ?a \<le> k" "k < Suc ?n" using that by auto
    then obtain i where k: "k = Suc ?a + i" using le_Suc_ex by blast
    have d: "drop k s = drop i (b @ rest)" by (simp add: assms(1) k)
    have "takeWhile (\<lambda>c. c = 10) (drop i (b @ rest)) = []"
    proof (cases "drop i (b @ rest)")
      case (Cons c cs)
      have "c \<noteq> 10"
      proof (cases "i < length b")
        case True
        then have "c = b ! i" using Cons by (metis append_eq_conv_conj drop_append hd_drop_conv_nth length_append list.sel(1) nth_append trans_less_add1)
        then show ?thesis using True assms(4) nth_mem by metis
      next
        case False
        then have "i = length b" using \<open>k < Suc ?n\<close> k by simp
        then have "rest = c # cs" using Cons by simp
        then show ?thesis using assms(5) by (auto simp: u_space_def)
      qed
      then show ?thesis using Cons by simp
    qed simp
    then show ?thesis by (simp add: d Let_def)
  qed
  have "takeWhile (\<lambda>c. c = 10) (drop ?a s) = [10]"
  proof (cases "b @ rest")
    case (Cons c cs)
    then have "c \<noteq> 10" using assms(4,5) by (cases b) (auto simp: u_space_def)
    then show ?thesis using Cons by (simp add: assms(1))
  qed (simp add: assms(1))
  then have a: "?f ?a = rmatch x (b @ rest) g" by (simp add: assms(1) Let_def)
  obtain xs where x: "rmatch x (b @ rest) g = y # xs" using assms(6) by (auto simp: rfirst_Some)
  have "concat (map ?f (rev [Suc ?a..<Suc ?n])) = []" using late by (simp only: concat_eq_Nil_conv set_map) blast
  then have "concat (map ?f (rev [0..<Suc ?n])) = ?f ?a @ concat (map ?f (rev [0..<?a]))"
    unfolding r map_append concat_append list.map concat.simps by (simp only: append_Nil)
  then show ?thesis unfolding rfirst_Some m a x by simp
qed

section \<open>The texts of the decision file\<close>

lemmas label_texts = txt_action_def txt_confidence_def txt_risk_def txt_target_def

lemma number_chars: "written_digits a \<Longrightarrow> written_digits b \<Longrightarrow> list_all number_char (a @ 46 # b)"
  using code_digit_plain by (auto simp: number_char_def written_digits_def list_all_iff)

lemma not_number_char: "\<not> number_char 37" "\<not> number_char 10" "\<not> number_char 78" "\<not> number_char 32"
  by (simp_all add: number_char_def u_digit_def digit_starts_def)

lemma written_not: "written_digits s \<Longrightarrow> c < 48 \<Longrightarrow> c \<notin> set s"
  by (auto simp: written_digits_def list_all_iff code_digit_def)

lemma digit_no_space: "code_digit c \<Longrightarrow> \<not> u_space c"
  by (auto simp: code_digit_def u_space_def)

text \<open>The value of a line whose text starts with a number.\<close>

lemma number_hit:
  assumes "written_digits a" "a \<noteq> []" "written_digits b" "u_float (a @ 46 # b) = Some x" "t = [] \<or> \<not> number_char (hd t)"
  shows "number_after label (labelled label ((a @ 46 # b) @ t) @ q) = Inr x"
proof -
  let ?w = "a @ 46 # b" and ?rest = "t @ 10 # 10 # q"
  have "rfirst number_re (?w @ ?rest) [] = Some (?rest, [])"
    unfolding number_re_def
    by (rule rfirst_cls [OF number_chars [OF assms(1,3)]]) (use assms(5) not_number_char in \<open>cases t; simp\<close>)+
  moreover have "\<not> u_space (hd ?w)" using assms(1,2) digit_no_space by (cases a) (auto simp: written_digits_def)
  ultimately have "rsearch (label_re label number_re) (labelled label (?w @ t) @ q) = Some [(1, ?w)]"
    by (intro label_hit [of _ _ ?rest]) simp_all
  then show ?thesis using assms(4) by (simp add: number_after_def group_def)
qed

lemma percent_hit:
  assumes "0 \<le> x"
  shows "number_after label (labelled label (percent_text x) @ q) = Inr (fl (of_int (tenths x) / 10))"
    and "42 \<notin> set (percent_text x)" and "35 \<notin> set (percent_text x)"
proof -
  obtain a b where p: "percent_text x = (a @ 46 # b) @ [37]" "written_digits a" "a \<noteq> []" "written_digits b"
    "u_float (a @ 46 # b) = Some (fl (of_int (tenths x) / 10))" using percent_text_parts [OF assms] .
  show "number_after label (labelled label (percent_text x) @ q) = Inr (fl (of_int (tenths x) / 10))"
    unfolding p(1) by (rule number_hit [OF p(2-5)]) (simp add: not_number_char)
  show "42 \<notin> set (percent_text x)" "35 \<notin> set (percent_text x)" unfolding p(1) using written_not p(2,4) by auto
qed

lemma repr_hit:
  assumes "fl x = x" "plain_range x"
  shows "number_after label (labelled label (repr_float x) @ q) = Inr x"
    and "42 \<notin> set (repr_float x)" and "35 \<notin> set (repr_float x)"
proof -
  obtain a b where p: "point_parts (repr_float x) a b" "u_float (repr_float x) = Some x" using repr_reads_back [OF assms] .
  then have r: "repr_float x = (a @ 46 # b) @ []" "written_digits a" "a \<noteq> []" "written_digits b" by (simp_all add: point_parts_def)
  show "number_after label (labelled label (repr_float x) @ q) = Inr x"
    using number_hit [OF r(2-4), of x "[]"] p(2) unfolding r(1) by simp
  show "42 \<notin> set (repr_float x)" "35 \<notin> set (repr_float x)" unfolding r(1) using written_not r(2,4) by auto
qed

text \<open>No number is read where none was written.\<close>

lemma none_missed:
  assumes "42 \<notin> set q"
  shows "number_after txt_target (labelled txt_target txt_none @ q) = Inr 0"
proof -
  let ?r = "label_re txt_target number_re"
  have "rmatch (rseq [one u_colon, rspace, RCap 1 number_re]) (58 # 32 # txt_none @ 10 # 10 # q) [] = []"
    using not_number_char
    by (simp add: one_def rspace_def number_re_def u_colon_def u_space_def txt_none_def Let_def eval_nat_numeral)
  then have "rmatch (rseq (rtext ([42, 42] @ txt_target @ [42, 42]) @ [one u_colon, rspace, RCap 1 number_re]))
      (labelled txt_target txt_none @ q) [] = []"
    by (subst rmatch_rtext) (simp add: labelled_def txt_target_def)
  then have "rmatch ?r (labelled txt_target txt_none @ q) [] = []" by (simp add: label_re_def rtext_def)
  then have "rsearch ?r (labelled txt_target txt_none @ q) = rsearch ?r (tl (labelled txt_target txt_none) @ q)"
    by (simp add: labelled_def)
  also have "\<dots> = rsearch ?r q" by (rule label_tail [OF txt_target_def _ _ txt_target_def]) (simp_all add: txt_target_def txt_none_def)
  also have "\<dots> = None" unfolding label_re_def append_Cons rseq.simps by (rule rsearch_None [OF assms])
  finally show ?thesis by (simp add: number_after_def)
qed

text \<open>The reasoning of the file, stripped.\<close>

lemma hash_skip: "35 \<notin> set p \<Longrightarrow> rsearch reasoning_re (p @ q) = rsearch reasoning_re q"
  unfolding reasoning_re_def append_Cons rseq.simps by (rule rsearch_skip)

lemma hash_miss:
  "rmatch (rseq (rchar 35 # rspace # rtext txt_reasoning @ [rspace, RCls (\<lambda>c. c = 10) 1 None, RCap 1 (RCls (\<lambda>c. True) 0 None)])) s [] = []
    \<Longrightarrow> rsearch reasoning_re (35 # s) = rsearch reasoning_re s"
  by (simp add: reasoning_re_def rmatch_char_seq del: rmatch.simps(2))

lemma strip_by_pad: "list_all P a \<Longrightarrow> list_all P t \<Longrightarrow> strip_by P (a @ s @ t) = strip_by P s"
proof -
  assume a: "list_all P a" and t: "list_all P t"
  have "dropWhile P (a @ s @ t) = dropWhile P (s @ t)" using a by (simp add: dropWhile_append2 list_all_iff)
  moreover have "dropWhile P (rev (dropWhile P (s @ t))) = dropWhile P (rev (dropWhile P s))"
  proof (cases "\<exists>x \<in> set s. \<not> P x")
    case True
    then have "dropWhile P (s @ t) = dropWhile P s @ t" by auto
    then show ?thesis using t dropWhile_append2 [of "rev t" P "rev (dropWhile P s)"] by (auto simp: list_all_iff)
  next
    case False
    then have e: "dropWhile P (s @ t) = []" "dropWhile P s = []" using t by (auto simp: list_all_iff)
    show ?thesis unfolding e by simp
  qed
  ultimately show ?thesis by (simp add: strip_by_def)
qed

lemma u_strip_pad: "list_all u_space a \<Longrightarrow> list_all u_space t \<Longrightarrow> u_strip (a @ s @ t) = u_strip s"
  by (simp add: u_strip_def strip_by_pad)

lemma rfirst_all: "rfirst (RSeq (RCap 1 (RCls (\<lambda>c. True) 0 None)) (rseq [])) s [] = Some ([], [(1, s)])"
proof -
  have "rfirst (RCls (\<lambda>c. True) 0 None) (s @ []) [] = Some ([], [])"
    by (rule rfirst_cls) (simp_all add: list_all_iff)
  from rfirst_cap [OF this, of 1] have "rfirst (RCap 1 (RCls (\<lambda>c. True) 0 None)) s [] = Some ([], [(1, s)])" by simp
  then show ?thesis by (rule rfirst_seq) (simp add: rfirst_def)
qed

lemma reasoning_hit: "text_after reasoning_re ([35, 35, 32] @ txt_reasoning @ [10, 10] @ r @ [10, 10]) = u_strip r"
proof -
  define s where "s = [10, 10] @ r @ [10, 10]"
  define w where "w = takeWhile u_space s"
  define rest where "rest = dropWhile u_space s"
  have "10 \<in> set w" by (simp add: w_def s_def u_space_def)
  then obtain a b where ab: "w = a @ 10 # b" "10 \<notin> set b" by (meson split_list_last)
  have sp: "list_all u_space w" by (auto simp: w_def list_all_iff dest: set_takeWhileD)
  have s: "s = a @ 10 # b @ rest"
  proof -
    have "s = w @ rest" by (simp add: w_def rest_def)
    then show ?thesis by (simp add: ab(1))
  qed
  have rest0: "rest = [] \<or> \<not> u_space (hd rest)" using hd_dropWhile [of u_space s] by (auto simp: rest_def)
  let ?x = "RSeq (RCap 1 (RCls (\<lambda>c. True) 0 None)) (rseq [])"
  have "rfirst (RSeq rspace (RSeq (RCls (\<lambda>c. c = 10) 1 None) ?x)) s [] = Some ([], [(1, b @ rest)])"
    by (rule give_back [OF s _ _ ab(2) rest0 rfirst_all]) (use sp ab(1) in simp_all)
  then have "rfirst (rseq (rtext txt_reasoning @ [rspace, RCls (\<lambda>c. c = 10) 1 None, RCap 1 (RCls (\<lambda>c. True) 0 None)]))
      (txt_reasoning @ s) [] = Some ([], [(1, b @ rest)])"
    by (intro rfirst_rtext) simp
  moreover have "rfirst rspace (32 # txt_reasoning @ s) [] = Some (txt_reasoning @ s, [])"
    using rfirst_cls [of u_space "[32]" "txt_reasoning @ s" 0 None] by (simp add: rspace_def u_space_def txt_reasoning_def)
  ultimately have "rfirst reasoning_re (35 # 35 # 32 # txt_reasoning @ s) [] = Some ([], [(1, b @ rest)])"
    unfolding reasoning_re_def append_Cons append_Nil rseq.simps(2)
    by (intro rfirst_seq [OF rfirst_char rfirst_seq [OF rfirst_char rfirst_seq]])
  from rsearch_hit [OF this]
  have "text_after reasoning_re ([35, 35, 32] @ txt_reasoning @ s) = u_strip (b @ rest)" by (simp add: text_after_def group_def)
  also have "\<dots> = u_strip s" using u_strip_pad [of "a @ [10]" "[]" "b @ rest"] sp ab(1) s by (simp add: u_space_def)
  also have "\<dots> = u_strip r" unfolding s_def by (rule u_strip_pad) (simp_all add: u_space_def)
  finally show ?thesis by (simp add: s_def)
qed

section \<open>The file as a whole\<close>

lemma hash_passed:
  assumes "35 \<notin> set (ustr_of code)" "35 \<notin> set a" "35 \<notin> set c" "35 \<notin> set k" "35 \<notin> set t"
  shows "rsearch reasoning_re (decision_heading code @ labelled txt_action a @ labelled txt_confidence c @ labelled txt_risk k
     @ labelled txt_target t @ q) = rsearch reasoning_re q"
proof -
  let ?m = "[10, 10] @ labelled txt_action a @ labelled txt_confidence c @ labelled txt_risk k @ labelled txt_target t"
  let ?h = "32 # ustr_of code @ [32, 26368, 32456, 25237, 36164, 20915, 31574, 10, 10]"
  let ?adv = "[32, 25237, 36164, 24314, 35758]"
  have e: "decision_heading code @ labelled txt_action a @ labelled txt_confidence c @ labelled txt_risk k
     @ labelled txt_target t @ q = 35 # ?h @ 35 # 35 # (?adv @ ?m) @ q" by (simp add: decision_heading_def)
  note r = rmatch_char_seq rspace_def rtext_def txt_reasoning_def u_space_def Let_def
  have "rsearch reasoning_re (35 # ?h @ 35 # 35 # (?adv @ ?m) @ q) = rsearch reasoning_re (?h @ 35 # 35 # (?adv @ ?m) @ q)"
    by (rule hash_miss) (simp add: r del: rmatch.simps(2))
  also have "\<dots> = rsearch reasoning_re (35 # 35 # (?adv @ ?m) @ q)" by (rule hash_skip) (use assms(1) in simp)
  also have "\<dots> = rsearch reasoning_re (35 # (?adv @ ?m) @ q)"
    by (rule hash_miss) (simp add: rmatch_char rspace_def rtext_def txt_reasoning_def u_space_def Let_def eval_nat_numeral)
  also have "\<dots> = rsearch reasoning_re ((?adv @ ?m) @ q)"
    by (rule hash_miss) (simp add: r del: rmatch.simps(2))
  also have "\<dots> = rsearch reasoning_re q"
    by (rule hash_skip) (use assms in \<open>simp add: labelled_def label_texts\<close>)
  finally show ?thesis unfolding e .
qed

definition written_decision :: "decision \<Rightarrow> bool" where
  "written_decision d \<longleftrightarrow> dc_action d \<in> {txt_buy, txt_sell, txt_hold} \<and> 0 \<le> dc_confidence d \<and> 0 \<le> dc_risk d
     \<and> (case dc_target d of Some p \<Rightarrow> fl p = p \<and> plain_range p | None \<Rightarrow> 42 \<notin> set (py_str (dc_reasoning d)))"

lemma written_action: "a \<in> {txt_buy, txt_sell, txt_hold} \<Longrightarrow>
   42 \<notin> set a \<and> 35 \<notin> set a \<and> 10 \<notin> set a \<and> a \<noteq> [] \<and> \<not> u_space (hd a) \<and> u_strip a = a"
  by (auto simp: txt_buy_def txt_sell_def txt_hold_def u_space_def u_strip_def strip_by_def)

lemma action_hit:
  assumes "a \<in> {txt_buy, txt_sell, txt_hold}"
  shows "text_after (label_re txt_action rest_of_line) (labelled txt_action a @ q) = a"
proof -
  have a: "10 \<notin> set a" "a \<noteq> []" "\<not> u_space (hd a)" "u_strip a = a" using written_action [OF assms] by simp_all
  have "rfirst rest_of_line (a @ 10 # 10 # q) [] = Some (10 # 10 # q, [])"
    unfolding rest_of_line_def by (rule rfirst_cls) (use a in \<open>auto simp: list_all_iff Suc_le_eq\<close>)
  then have "rsearch (label_re txt_action rest_of_line) (labelled txt_action a @ q) = Some [(1, a)]"
    by (rule label_hit) (use a in simp_all)
  then show ?thesis using a(4) by (simp add: text_after_def group_def)
qed

text \<open>Each search passes over the lines before its own.\<close>

lemma skip_lines:
  assumes "42 \<notin> set w"
  shows "rsearch (label_re txt_confidence v) (labelled txt_action w @ q) = rsearch (label_re txt_confidence v) q"
    "rsearch (label_re txt_risk v) (labelled txt_action w @ q) = rsearch (label_re txt_risk v) q"
    "rsearch (label_re txt_risk v) (labelled txt_confidence w @ q) = rsearch (label_re txt_risk v) q"
    "rsearch (label_re txt_target v) (labelled txt_action w @ q) = rsearch (label_re txt_target v) q"
    "rsearch (label_re txt_target v) (labelled txt_confidence w @ q) = rsearch (label_re txt_target v) q"
    "rsearch (label_re txt_target v) (labelled txt_risk w @ q) = rsearch (label_re txt_target v) q"
proof -
  show "rsearch (label_re txt_confidence v) (labelled txt_action w @ q) = rsearch (label_re txt_confidence v) q"
    by (rule label_skip_labelled [OF txt_confidence_def _ _ txt_action_def]) (use assms in \<open>simp_all add: txt_action_def\<close>)
  show "rsearch (label_re txt_risk v) (labelled txt_action w @ q) = rsearch (label_re txt_risk v) q"
    by (rule label_skip_labelled [OF txt_risk_def _ _ txt_action_def]) (use assms in \<open>simp_all add: txt_action_def\<close>)
  show "rsearch (label_re txt_risk v) (labelled txt_confidence w @ q) = rsearch (label_re txt_risk v) q"
    by (rule label_skip_labelled [OF txt_risk_def _ _ txt_confidence_def]) (use assms in \<open>simp_all add: txt_confidence_def\<close>)
  show "rsearch (label_re txt_target v) (labelled txt_action w @ q) = rsearch (label_re txt_target v) q"
    by (rule label_skip_labelled [OF txt_target_def _ _ txt_action_def]) (use assms in \<open>simp_all add: txt_action_def\<close>)
  show "rsearch (label_re txt_target v) (labelled txt_confidence w @ q) = rsearch (label_re txt_target v) q"
    by (rule label_skip_labelled [OF txt_target_def _ _ txt_confidence_def]) (use assms in \<open>simp_all add: txt_confidence_def\<close>)
  show "rsearch (label_re txt_target v) (labelled txt_risk w @ q) = rsearch (label_re txt_target v) q"
    by (rule label_skip_labelled [OF txt_target_def _ _ txt_risk_def]) (use assms in \<open>simp_all add: txt_risk_def\<close>)
qed

lemma parse_decision_content:
  assumes d: "written_decision d" and code: "35 \<notin> set (ustr_of code)" "42 \<notin> set (ustr_of code)"
  shows "parse_final_decision (decision_content code d) = Inr \<lparr>rd_action = dc_action d,
     rd_confidence = fl (of_int (tenths (dc_confidence d)) / 10), rd_risk = fl (of_int (tenths (dc_risk d)) / 10),
     rd_target = or_default (dc_target d) 0, rd_summary = u_strip (py_str (dc_reasoning d))\<rparr>"
proof -
  let ?a = "dc_action d" and ?c = "percent_text (dc_confidence d)" and ?k = "percent_text (dc_risk d)"
    and ?t = "target_text (dc_target d)" and ?r = "py_str (dc_reasoning d)"
  define end_part where "end_part = [35, 35, 32] @ txt_reasoning @ [10, 10] @ ?r @ [10, 10]"
  have content: "decision_content code d = decision_heading code @ labelled txt_action ?a @ labelled txt_confidence ?c
      @ labelled txt_risk ?k @ labelled txt_target ?t @ end_part"
    by (simp add: decision_content_def end_part_def)
  have a: "?a \<in> {txt_buy, txt_sell, txt_hold}" and c: "0 \<le> dc_confidence d" and k: "0 \<le> dc_risk d"
    using d by (simp_all add: written_decision_def)
  note marks = written_action [OF a] percent_hit(2,3) [OF c] percent_hit(2,3) [OF k]
  have t: "number_after txt_target (labelled txt_target ?t @ end_part) = Inr (or_default (dc_target d) 0)"
    "35 \<notin> set ?t"
  proof (atomize (full), cases "dc_target d")
    case None
    then have "42 \<notin> set end_part" using d by (simp add: written_decision_def end_part_def txt_reasoning_def)
    then show "number_after txt_target (labelled txt_target ?t @ end_part) = Inr (or_default (dc_target d) 0) \<and> 35 \<notin> set ?t"
      using none_missed [of end_part] None by (simp add: target_text_def) (simp add: txt_none_def)
  next
    case (Some p)
    then have p: "fl p = p" "plain_range p" using d by (simp_all add: written_decision_def)
    then show "number_after txt_target (labelled txt_target ?t @ end_part) = Inr (or_default (dc_target d) 0) \<and> 35 \<notin> set ?t"
      using repr_hit [OF p] Some by (simp add: target_text_def)
  qed
  have h: "42 \<notin> set (decision_heading code)" using code(2) by (simp add: decision_heading_def)
  have "number_after txt_confidence (decision_content code d) = Inr (fl (of_int (tenths (dc_confidence d)) / 10))"
    using percent_hit(1) [OF c, of txt_confidence] marks
    by (simp add: number_after_def content label_skip [OF h] skip_lines)
  moreover have "number_after txt_risk (decision_content code d) = Inr (fl (of_int (tenths (dc_risk d)) / 10))"
    using percent_hit(1) [OF k, of txt_risk] marks
    by (simp add: number_after_def content label_skip [OF h] skip_lines)
  moreover have "number_after txt_target (decision_content code d) = Inr (or_default (dc_target d) 0)"
    using t(1) marks
    by (simp add: number_after_def content label_skip [OF h] skip_lines)
  moreover have "text_after (label_re txt_action rest_of_line) (decision_content code d) = ?a"
    using action_hit [OF a] by (simp add: text_after_def content label_skip [OF h])
  moreover have "text_after reasoning_re (decision_content code d) = u_strip ?r"
    using reasoning_hit [of ?r] hash_passed [OF code(1), of ?a ?c ?k ?t end_part] marks t(2)
    by (simp add: text_after_def content end_part_def)
  ultimately show ?thesis by (simp add: parse_final_decision_def)
qed

lemma percent_read_close:
  assumes "0 \<le> x" "x \<le> 1"
  shows "\<bar>fl (of_int (tenths x) / 10) - 100 * x\<bar> \<le> 6 / 100"
proof -
  have e: "(2::rat) powi (7 - 54) \<le> 1 / 1000" by (simp add: power_int_def power_divide)
  have "\<bar>x * 100\<bar> < 2 powi 7" using assms by (simp add: power_int_def)
  from fl_error_bound [OF this] have a: "\<bar>fmul x 100 - 100 * x\<bar> \<le> 1 / 1000" using e by (simp add: fmul_def mult.commute)
  have b: "\<bar>of_int (tenths x) - 10 * fmul x 100\<bar> \<le> 1 / 2" using rhe_error [of "10 * fmul x 100"] by (simp add: tenths_def)
  note ab = abs_le_D1 [OF a] abs_le_D2 [OF a] abs_le_D1 [OF b] abs_le_D2 [OF b]
  have c: "of_int (tenths x) / 10 - 100 * x \<le> 51 / 1000" "- (of_int (tenths x) / 10 - 100 * x) \<le> 51 / 1000"
    using ab by simp_all
  have "\<bar>of_int (tenths x) / 10\<bar> < (2::rat) powi 7"
    using c assms by (simp add: power_int_def abs_less_iff)
  from fl_error_bound [OF this] have d: "\<bar>fl (of_int (tenths x) / 10) - of_int (tenths x) / 10\<bar> \<le> 1 / 1000" using e by simp
  show ?thesis using c abs_le_D1 [OF d] abs_le_D2 [OF d] by (intro abs_leI) simp_all
qed

lemma saved_decision:
  "\<not> fails decision_file \<Longrightarrow> file_of (save_modular_reports fails r fs) decision_file
     = Text (decision_content (ao_symbol r) (ao_decision r))"
  by (simp add: file_of_def save_modular_reports_def dict_simps Let_def)

text \<open>
  C12: The decision that the analysis service saves for a stock is the decision that the report of the
  pipeline reads for it: the action, the target price and the reasoning without change, the two
  scores as percentages, which for scores up to one are within 0.06 of the written ones.
\<close>

theorem decision_roundtrip:
  assumes "written_decision (ao_decision r)" "35 \<notin> set (ustr_of (ao_symbol r))" "42 \<notin> set (ustr_of (ao_symbol r))"
    "\<not> fails decision_file" "R (normalize_code code) day = Some (save_modular_reports fails r fs)"
  shows "\<exists>x. read_final_decision R code day = Inr (Some x) \<and> rd_action x = dc_action (ao_decision r)
    \<and> rd_target x = or_default (dc_target (ao_decision r)) 0 \<and> rd_summary x = u_strip (py_str (dc_reasoning (ao_decision r)))
    \<and> (dc_confidence (ao_decision r) \<le> 1 \<longrightarrow> \<bar>rd_confidence x - 100 * dc_confidence (ao_decision r)\<bar> \<le> 6 / 100)
    \<and> (dc_risk (ao_decision r) \<le> 1 \<longrightarrow> \<bar>rd_risk x - 100 * dc_risk (ao_decision r)\<bar> \<le> 6 / 100)"
  using parse_decision_content [OF assms(1-3)] saved_decision [of fails r fs] assms(1,4,5) percent_read_close
  by (simp add: read_final_decision_def get_report_path_def decision_file_def written_decision_def)

definition ex_outcome :: analysis_outcome where
  "ex_outcome = analysis_outcome_of ''600519'' \<lparr>fs_fields = [], fs_investment = None, fs_risk = None\<rparr>
     \<lparr>sd_action = txt_buy, sd_target = TgNumber (227 / 2), sd_confidence = 3 / 4, sd_risk = 1 / 2,
      sd_reasoning = PText [32, 22909], sd_model = []\<rparr>"

lemma ex_decision: "ao_symbol ex_outcome = ''600519''"
  "ao_decision ex_outcome = \<lparr>dc_action = txt_buy, dc_confidence = 3 / 4, dc_risk = 1 / 2, dc_target = Some (227 / 2),
     dc_reasoning = PText [32, 22909]\<rparr>"
  by (simp_all add: ex_outcome_def analysis_outcome_of_def Let_def format_decision_def target_price_def action_translation_def
      txt_buy_def ustr_of_def dget_default_def)

theorem decision_roundtrip_witness:
  "\<exists>x. read_final_decision (\<lambda>_ _. Some (save_modular_reports (\<lambda>_. False) ex_outcome [])) ''600519.SH'' ''2025-01-06'' = Inr (Some x)
     \<and> rd_action x = txt_buy \<and> rd_target x = 227 / 2 \<and> rd_summary x = [22909] \<and> \<bar>rd_confidence x - 75\<bar> \<le> 6 / 100"
proof -
  have "is_double (227 / 2)"
    unfolding is_double_def by (intro exI [of _ 227] exI [of _ "-1"]) (simp add: power_int_def)
  then have "fl (227 / 2) = 227 / 2" by (rule fl_is_double_id)
  then have w: "written_decision (ao_decision ex_outcome)" by (simp add: ex_decision written_decision_def plain_range_def)
  have s: "35 \<notin> set (ustr_of (ao_symbol ex_outcome))" "42 \<notin> set (ustr_of (ao_symbol ex_outcome))"
    by (simp_all add: ex_decision ustr_of_def)
  have "u_strip [32, 22909] = [22909]" by (simp add: u_strip_def strip_by_def u_space_def)
  then show ?thesis
    using decision_roundtrip [OF w s, of "\<lambda>_. False" "\<lambda>_ _. Some (save_modular_reports (\<lambda>_. False) ex_outcome [])"
      "''600519.SH''" "''2025-01-06''" "[]"] by (auto simp: ex_decision py_str_def)
qed

end
