(* ===== verification/ReportProofs.thy ===== *)
theory ReportProofs
  imports AnalysisClient ReportGenerator DecisionFile
begin

text \<open>
  The report of a day: which entries it has and in which order, what it shows of a stock whose
  analysis the client did not see complete, and the tables of the texts.
\<close>

section \<open>The entries of a report\<close>

text \<open>What an entry never changes of the client's objects.\<close>

definition outcome_of :: "analyses \<Rightarrow> string \<Rightarrow> (ar_status_t \<times> err_text option) option" where
  "outcome_of ans c = map_option (\<lambda>a. (ar_status a, ar_error_message a)) (dget ans c)"

lemma kept_fields [simp]:
  "ar_status (html_summary md a) = ar_status a" "ar_error_message (html_summary md a) = ar_error_message a"
  "ar_status (fill_result d a) = ar_status a" "ar_error_message (fill_result d a) = ar_error_message a"
  by (simp_all add: html_summary_def fill_result_def)

lemma outcome_update:
  "(\<And>a. ar_status (f a) = ar_status a \<and> ar_error_message (f a) = ar_error_message a) \<Longrightarrow> outcome_of (update_shared code f ans) c = outcome_of ans c"
  by (auto simp: outcome_of_def update_shared_def dict_simps split: option.split)

lemma entry_outcome:
  assumes "report_entry_of env day x ans = Inr (r, ans2)"
  shows "pe_stock r = x" "outcome_of ans2 c = outcome_of ans c"
    "entry_analysis env day (sf_code x) ans = Inr (pe_shown r, ans2)"
proof -
  show "pe_stock r = x" "entry_analysis env day (sf_code x) ans = Inr (pe_shown r, ans2)"
    using assms by (auto simp: report_entry_of_def Let_def split: sum.splits if_splits)
  then show "outcome_of ans2 c = outcome_of ans c"
    by (auto simp: entry_analysis_def Let_def outcome_update split: if_splits option.splits sum.splits)
qed

lemma report_entries_stocks: "report_entries env day xs ans = Inr (rs, ans2) \<Longrightarrow> map pe_stock rs = xs"
proof (induction xs arbitrary: ans rs)
  case (Cons x xs)
  obtain r1 a1 rs1 where e: "report_entry_of env day x ans = Inr (r1, a1)" "report_entries env day xs a1 = Inr (rs1, ans2)" "rs = r1 # rs1"
    using Cons.prems by (auto split: sum.splits)
  show ?case using entry_outcome(1) [OF e(1)] Cons.IH [OF e(2)] e(3) by simp
qed simp

lemma report_entries_member:
  "report_entries env day xs ans = Inr (rs, ans2) \<Longrightarrow> r \<in> set rs \<Longrightarrow>
   \<exists>ans1 ans3. report_entry_of env day (pe_stock r) ans1 = Inr (r, ans3) \<and> (\<forall>c. outcome_of ans1 c = outcome_of ans c)"
proof (induction xs arbitrary: ans rs)
  case (Cons x xs)
  obtain r1 a1 rs1 where e: "report_entry_of env day x ans = Inr (r1, a1)" "report_entries env day xs a1 = Inr (rs1, ans2)" "rs = r1 # rs1"
    using Cons.prems(1) by (auto split: sum.splits)
  show ?case
  proof (cases "r = r1")
    case True
    then show ?thesis using e(1) entry_outcome(1) [OF e(1)] by blast
  next
    case False
    then show ?thesis using Cons.IH [OF e(2)] Cons.prems(2) e(3) entry_outcome(2) [OF e(1)] by auto
  qed
qed simp

lemma entry_key_le:
  assumes "entry_key r1 \<le> entry_key r2" "entry_score r1 = Some s1" "entry_score r2 = Some s2"
  shows "report_priority (sf_tags (pe_stock r2)) < report_priority (sf_tags (pe_stock r1))
    \<or> report_priority (sf_tags (pe_stock r2)) = report_priority (sf_tags (pe_stock r1))
      \<and> (\<exists>s1 s2. entry_score r1 = Some s1 \<and> entry_score r2 = Some s2 \<and> s2 \<le> s1)"
  using assms by (auto simp: entry_key_def less_eq_prod_def or_default_simps)

lemma generate_stocks: "generate_entries env day stocks ans = Inr (rs, ans2) \<Longrightarrow> mset (map pe_stock rs) = mset stocks"
  by (auto simp: generate_entries_def dest!: report_entries_stocks split: sum.splits if_splits)

text \<open>
  C24: The report has one entry for every stock of the filter and no other, in the order of the
  code: the pure strict picks of the B2 filter, then those that are strict and loose, the loose
  ones, the ones of the CZSC scan and the others, and within a group by falling score; entries
  with the same key keep the order of the filter.
\<close>

theorem report_order:
  assumes "generate_entries env day stocks ans = Inr (rs, ans2)"
  shows "mset (map pe_stock rs) = mset stocks \<and> sorted_wrt (\<lambda>r1 r2.
       report_priority (sf_tags (pe_stock r2)) < report_priority (sf_tags (pe_stock r1))
       \<or> report_priority (sf_tags (pe_stock r2)) = report_priority (sf_tags (pe_stock r1))
         \<and> (\<exists>s1 s2. entry_score r1 = Some s1 \<and> entry_score r2 = Some s2 \<and> s2 \<le> s1)) rs
    \<and> (\<forall>k. map pe_stock (filter (\<lambda>r. entry_key r = k) rs)
         = filter (\<lambda>x. (- report_priority (sf_tags x), - or_default (dval_num (total_score x)) 0) = k) stocks)"
proof -
  obtain es where es: "report_entries env day stocks ans = Inr (es, ans2)" "rs = sort_key entry_key es"
    "\<forall>r \<in> set es. entry_score r \<noteq> None"
    using assms by (auto simp: generate_entries_def list_ex_iff split: sum.splits if_splits)
  have st: "map pe_stock es = stocks" by (rule report_entries_stocks [OF es(1)])
  have "mset (map pe_stock rs) = mset stocks" by (simp add: es(2) flip: st)
  moreover have "sorted_wrt (\<lambda>r1 r2.
       report_priority (sf_tags (pe_stock r2)) < report_priority (sf_tags (pe_stock r1))
       \<or> report_priority (sf_tags (pe_stock r2)) = report_priority (sf_tags (pe_stock r1))
         \<and> (\<exists>s1 s2. entry_score r1 = Some s1 \<and> entry_score r2 = Some s2 \<and> s2 \<le> s1)) rs"
  proof -
    have "sorted_wrt (\<lambda>r1 r2. entry_key r1 \<le> entry_key r2) rs"
      using sorted_sort_key [of entry_key es] by (simp add: es(2) sorted_wrt_map)
    then show ?thesis
      by (rule sorted_wrt_mono_rel [rotated]) (use es(2,3) in \<open>metis entry_key_le not_None_eq set_sort\<close>)
  qed
  moreover have "map pe_stock (filter (\<lambda>r. entry_key r = k) rs)
      = filter (\<lambda>x. (- report_priority (sf_tags x), - or_default (dval_num (total_score x)) 0) = k) stocks" for k
  proof -
    have "map pe_stock (filter (\<lambda>r. entry_key r = k) rs) = map pe_stock (filter (\<lambda>r. entry_key r = k) es)"
      by (simp add: es(2) sort_key_stable)
    also have "\<dots> = filter (\<lambda>x. (- report_priority (sf_tags x), - or_default (dval_num (total_score x)) 0) = k) (map pe_stock es)"
      by (simp add: filter_map comp_def entry_key_def entry_score_def)
    finally show ?thesis by (simp add: st)
  qed
  ultimately show ?thesis by blast
qed

definition ex_entry_stock :: "string \<Rightarrow> tag list \<Rightarrow> int \<Rightarrow> stock_filter_data" where
  "ex_entry_stock c ts v = \<lparr>sf_code = c, sf_name = [], sf_exchange = ''SH'', sf_result = True, sf_tags = ts,
     sf_details = [(k_total_score, VInt v)]\<rparr>"

definition ex_report_env :: report_env where
  "ex_report_env = \<lparr>rn_md = (\<lambda>s. s), rn_lit = (\<lambda>s. LitError), rn_results = (\<lambda>_ _. None)\<rparr>"

theorem report_order_witness:
  "\<exists>rs ans. generate_entries ex_report_env ''2025-01-06'' [ex_entry_stock ''600000'' [TagB1] 9, ex_entry_stock ''600519'' [TagB2Loose] 5] [] = Inr (rs, ans)
     \<and> mset (map pe_stock rs) = {#ex_entry_stock ''600000'' [TagB1] 9, ex_entry_stock ''600519'' [TagB2Loose] 5#}
     \<and> sorted_wrt (\<lambda>r1 r2. report_priority (sf_tags (pe_stock r2)) \<le> report_priority (sf_tags (pe_stock r1))) rs"
proof -
  let ?xs = "[ex_entry_stock ''600000'' [TagB1] 9, ex_entry_stock ''600519'' [TagB2Loose] 5]"
  have "\<exists>rs ans. generate_entries ex_report_env ''2025-01-06'' ?xs [] = Inr (rs, ans)"
    by (simp add: generate_entries_def report_entry_of_def entry_analysis_def html_reports_def read_final_decision_def
        read_analyst_reports_def get_report_path_def ex_report_env_def validation_failed_def entry_score_def Let_def
        ex_entry_stock_def total_score_def dget_default_def)
  then obtain rs ans where g: "generate_entries ex_report_env ''2025-01-06'' ?xs [] = Inr (rs, ans)" by blast
  have "sorted_wrt (\<lambda>r1 r2. report_priority (sf_tags (pe_stock r2)) \<le> report_priority (sf_tags (pe_stock r1))) rs"
    using report_order [OF g] by (auto elim: sorted_wrt_mono_rel [rotated])
  then show ?thesis using g report_order [OF g] by auto
qed

section \<open>A stock whose analysis came too late\<close>

lemma written_action_shown: "written_decision d \<Longrightarrow> dc_action d \<noteq> []"
  by (auto simp: written_decision_def txt_buy_def txt_sell_def txt_hold_def)

lemma late_shown:
  assumes "generate_entries env day stocks ans = Inr (rs, ans2)" "r \<in> set rs" "code = sf_code (pe_stock r)"
    "\<not> validation_failed (dget ans code)" "\<forall>a. dget ans code = Some a \<longrightarrow> ar_status a \<noteq> ArCompleted"
    "rn_results env (normalize_code code) day = Some (save_modular_reports fails q fs)" "\<not> fails decision_file"
    "written_decision (ao_decision q)" "35 \<notin> set (ustr_of (ao_symbol q))" "42 \<notin> set (ustr_of (ao_symbol q))"
  shows "\<exists>a. shown_analysis ans2 r = Some a \<and> ar_status a = ArCompleted \<and> ar_recommendation a = dc_action (ao_decision q)
    \<and> ar_target_price a = or_default (dc_target (ao_decision q)) 0
    \<and> (let s = u_strip (py_str (dc_reasoning (ao_decision q))) in ar_summary a = (if s = [] then [] else md_to_html (rn_md env) s))"
proof -
  obtain es where "report_entries env day stocks ans = Inr (es, ans2)" "set rs = set es"
    using assms(1) by (auto simp: generate_entries_def split: sum.splits if_splits)
  then obtain ans1 ans3 where e: "report_entry_of env day (pe_stock r) ans1 = Inr (r, ans3)" "outcome_of ans1 code = outcome_of ans code"
    using report_entries_member assms(2) by blast
  have v: "validation_failed (dget ans1 code) = validation_failed (dget ans code)"
    using e(2) by (auto simp: outcome_of_def validation_failed_def split: option.splits)
  have n: "ar_status a \<noteq> ArCompleted" if "dget ans1 code = Some a" for a
    using e(2) assms(5) that by (cases "dget ans code") (auto simp: outcome_of_def)
  have "read_final_decision (rn_results env) code day = Inr (Some \<lparr>rd_action = dc_action (ao_decision q),
     rd_confidence = fl (of_int (tenths (dc_confidence (ao_decision q))) / 10),
     rd_risk = fl (of_int (tenths (dc_risk (ao_decision q))) / 10),
     rd_target = or_default (dc_target (ao_decision q)) 0, rd_summary = u_strip (py_str (dc_reasoning (ao_decision q)))\<rparr>)"
    using parse_decision_content [OF assms(8-10)] saved_decision [of fails q fs] assms(7) assms(6)
    by (simp add: read_final_decision_def get_report_path_def decision_file_def)
  then have "pe_shown r = Own (html_summary (rn_md env) (file_result code \<lparr>rd_action = dc_action (ao_decision q),
     rd_confidence = fl (of_int (tenths (dc_confidence (ao_decision q))) / 10),
     rd_risk = fl (of_int (tenths (dc_risk (ao_decision q))) / 10),
     rd_target = or_default (dc_target (ao_decision q)) 0, rd_summary = u_strip (py_str (dc_reasoning (ao_decision q)))\<rparr>))"
    using entry_outcome(3) [OF e(1)] v n written_action_shown [OF assms(8)] assms(4)
    by (simp add: entry_analysis_def Let_def flip: assms(3) split: option.splits)
  then show ?thesis by (simp add: shown_analysis_def html_summary_def file_result_def Let_def)
qed

text \<open>
  C11: A stock whose analysis the client did not see completed, because it gave up waiting, was told
  of an error or never asked, but whose decision the service had saved when the report is made, is
  shown as completed, with the action, the target price and the reasoning of that decision.
\<close>

theorem late_result_shown:
  assumes "generate_entries env day stocks ans = Inr (rs, ans2)" "r \<in> set rs" "code = sf_code (pe_stock r)"
    "\<not> validation_failed (dget ans code)" "\<forall>a. dget ans code = Some a \<longrightarrow> ar_status a \<noteq> ArCompleted"
    "rn_results env (normalize_code code) day = Some (save_modular_reports fails q fs)" "\<not> fails decision_file"
    "written_decision (ao_decision q)" "35 \<notin> set (ustr_of (ao_symbol q))" "42 \<notin> set (ustr_of (ao_symbol q))"
  shows "\<exists>a. shown_analysis ans2 r = Some a \<and> ar_status a = ArCompleted \<and> ar_recommendation a = dc_action (ao_decision q)
    \<and> ar_target_price a = or_default (dc_target (ao_decision q)) 0
    \<and> (let s = u_strip (py_str (dc_reasoning (ao_decision q))) in ar_summary a = (if s = [] then [] else md_to_html (rn_md env) s))"
  by (rule late_shown [OF assms])

definition ex_late_env :: "analysis_outcome \<Rightarrow> report_env" where
  "ex_late_env q = ex_report_env\<lparr>rn_lit := (\<lambda>s. LitValue), rn_results := (\<lambda>_ _. Some (save_modular_reports (\<lambda>_. False) q []))\<rparr>"

lemma collect_total: "(\<And>x. x \<in> set xs \<Longrightarrow> \<exists>y. f x = Inr y) \<Longrightarrow> \<exists>ys. collect f xs = Inr ys"
  by (induction xs) fastforce+

lemma html_reports_value: "rn_lit env = (\<lambda>s. LitValue) \<Longrightarrow> \<exists>ys. html_reports env day code = Inr ys"
  unfolding html_reports_def by (rule collect_total) (auto simp: preprocess_report_def Let_def)

lemma ex_written: "written_decision (ao_decision ex_outcome)"
proof -
  have "is_double (227 / 2)"
    unfolding is_double_def by (intro exI [of _ 227] exI [of _ "-1"]) (simp add: power_int_def)
  then have "fl (227 / 2) = 227 / 2" by (rule fl_is_double_id)
  then show ?thesis by (simp add: ex_decision written_decision_def plain_range_def)
qed

lemma ex_symbol: "35 \<notin> set (ustr_of (ao_symbol ex_outcome))" "42 \<notin> set (ustr_of (ao_symbol ex_outcome))"
  by (simp_all add: ex_decision ustr_of_def)

definition ex_late_stock :: stock_filter_data where "ex_late_stock = ex_entry_stock ''600519.SH'' [TagB1] 9"

definition ex_late_answers :: analyses where
  "ex_late_answers = [(''600519.SH'', timeout_result ''600519.SH'' 600 601)]"

lemma ex_late:
  assumes "written_decision (ao_decision q)" "35 \<notin> set (ustr_of (ao_symbol q))" "42 \<notin> set (ustr_of (ao_symbol q))"
  obtains rs ans r where "generate_entries (ex_late_env q) ''2025-01-06'' [ex_late_stock] ex_late_answers = Inr (rs, ans)" "r \<in> set rs"
    "''600519.SH'' = sf_code (pe_stock r)" "\<not> validation_failed (dget ex_late_answers ''600519.SH'')"
    "\<forall>a. dget ex_late_answers ''600519.SH'' = Some a \<longrightarrow> ar_status a \<noteq> ArCompleted"
    "rn_results (ex_late_env q) (normalize_code ''600519.SH'') ''2025-01-06'' = Some (save_modular_reports (\<lambda>_. False) q [])"
proof -
  let ?c = "''600519.SH''" and ?day = "''2025-01-06''"
  have v: "\<not> validation_failed (dget ex_late_answers ?c)" "\<forall>a. dget ex_late_answers ?c = Some a \<longrightarrow> ar_status a \<noteq> ArCompleted"
    by (simp_all add: ex_late_answers_def validation_failed_def timeout_result_def new_analysis_result_def)
  have f: "rn_results (ex_late_env q) (normalize_code ?c) ?day = Some (save_modular_reports (\<lambda>_. False) q [])"
    by (simp add: ex_late_env_def)
  obtain hs where h: "html_reports (ex_late_env q) ?day ?c = Inr hs"
    using html_reports_value [of "ex_late_env q" ?day ?c] by (auto simp: ex_late_env_def)
  obtain d where d: "read_final_decision (rn_results (ex_late_env q)) ?c ?day = Inr (Some d)"
    using parse_decision_content [OF assms] saved_decision [of "\<lambda>_. False" q "[]"] f
    by (simp add: read_final_decision_def get_report_path_def decision_file_def)
  have "\<exists>rs ans. generate_entries (ex_late_env q) ?day [ex_late_stock] ex_late_answers = Inr (rs, ans)"
    using v h d
    by (simp add: generate_entries_def report_entry_of_def entry_analysis_def entry_score_def Let_def
      ex_late_stock_def ex_entry_stock_def total_score_def dget_default_def split: option.split)
  then obtain rs ans where g: "generate_entries (ex_late_env q) ?day [ex_late_stock] ex_late_answers = Inr (rs, ans)" by blast
  have "mset (map pe_stock rs) = mset [ex_late_stock]" using generate_stocks [OF g] .
  then have "ex_late_stock \<in> set (map pe_stock rs)" by (simp flip: set_mset_mset)
  then obtain r where r: "r \<in> set rs" "pe_stock r = ex_late_stock" by auto
  then have "?c = sf_code (pe_stock r)" by (simp add: ex_late_stock_def ex_entry_stock_def)
  from that [OF g r(1) this v f] show ?thesis .
qed

theorem late_result_shown_witness:
  "\<exists>rs ans r a. generate_entries (ex_late_env ex_outcome) ''2025-01-06'' [ex_late_stock] ex_late_answers = Inr (rs, ans) \<and> r \<in> set rs
     \<and> shown_analysis ans r = Some a \<and> ar_status a = ArCompleted \<and> ar_recommendation a = txt_buy \<and> ar_target_price a = 227 / 2"
proof -
  obtain rs ans r where e: "generate_entries (ex_late_env ex_outcome) ''2025-01-06'' [ex_late_stock] ex_late_answers = Inr (rs, ans)" "r \<in> set rs"
    "''600519.SH'' = sf_code (pe_stock r)" "\<not> validation_failed (dget ex_late_answers ''600519.SH'')"
    "\<forall>a. dget ex_late_answers ''600519.SH'' = Some a \<longrightarrow> ar_status a \<noteq> ArCompleted"
    "rn_results (ex_late_env ex_outcome) (normalize_code ''600519.SH'') ''2025-01-06'' = Some (save_modular_reports (\<lambda>_. False) ex_outcome [])"
    using ex_late [OF ex_written ex_symbol] .
  from late_result_shown [OF e _ ex_written ex_symbol] show ?thesis using e(1,2) by (auto simp: ex_decision)
qed

section \<open>Tables\<close>

definition apart :: "ustr \<Rightarrow> ustr \<Rightarrow> bool" where
  "apart x y \<longleftrightarrow> table_line x = table_line y \<or> blank x \<or> blank y"

definition at_table :: "ustr list \<Rightarrow> bool" where "at_table ls \<longleftrightarrow> ls \<noteq> [] \<and> table_line (last ls)"

lemma empty_line [simp]: "\<not> table_line []" "blank []"
  by (simp_all add: table_line_def blank_def u_strip_def strip_by_def startswith_def)

lemma table_not_blank: "table_line l \<Longrightarrow> \<not> blank l"
  by (auto simp: table_line_def blank_def startswith_def)

lemma add_line_step:
  assumes "successively apart ls"
  shows "successively apart (fst (add_line l (ls, at_table ls)))"
    "add_line l (ls, at_table ls) = (ls2, b) \<Longrightarrow> b = at_table ls2"
    "filter (\<lambda>l. \<not> blank l) (fst (add_line l (ls, at_table ls))) = filter (\<lambda>l. \<not> blank l) (ls @ [l])"
    "successively apart (ls @ [l]) \<Longrightarrow> add_line l (ls, at_table ls) = (ls @ [l], at_table (ls @ [l]))"
  using assms table_not_blank by (auto simp: add_line_def at_table_def successively_append_iff apart_def split: if_splits)

lemma add_lines:
  assumes "successively apart out"
  shows "successively apart (fst (fold add_line ls (out, at_table out)))"
    "filter (\<lambda>l. \<not> blank l) (fst (fold add_line ls (out, at_table out))) = filter (\<lambda>l. \<not> blank l) (out @ ls)"
    "successively apart (out @ ls) \<Longrightarrow> fst (fold add_line ls (out, at_table out)) = out @ ls"
proof (atomize (full), insert assms, induction ls arbitrary: out)
  case (Cons l ls)
  obtain out2 b where a: "add_line l (out, at_table out) = (out2, b)" by force
  note step = add_line_step [OF Cons.prems, of l, unfolded a fst_conv]
  have b: "b = at_table out2" by (rule step(2)) simp
  have "successively apart (out @ [l])" if "successively apart (out @ l # ls)"
    using that successively_append_iff [of apart "out @ [l]" ls] by simp
  then show ?case using Cons.IH [OF step(1)] step(3,4) a b by auto
qed simp

text \<open>
  The lines given to the markdown converter keep every line with text, in order, a table line
  and a line of text that follow each other have an empty line between them, and lines that are
  already so are not changed.
\<close>

theorem table_blocks_separated:
  "filter (\<lambda>l. \<not> blank l) (table_lines ls) = filter (\<lambda>l. \<not> blank l) ls
   \<and> successively (\<lambda>x y. table_line x = table_line y \<or> blank x \<or> blank y) (table_lines ls)
   \<and> table_lines (table_lines ls) = table_lines ls"
  using add_lines [of "[]" ls] add_lines(3) [of "[]" "table_lines ls"]
  by (simp add: table_lines_def at_table_def apart_def [abs_def])

end
