(* ===== verification/SignalProofs.thy ===== *)
theory SignalProofs
  imports SignalProcessing ReportProofs
begin

text \<open>
  The decision made of a model's answer: every number of it is a double, a named price is found, the
  estimated price lies in the direction of the action, and the report shows the action of the answer.
\<close>

section \<open>The numbers are doubles\<close>

definition double_fval :: "fval \<Rightarrow> bool" where
  "double_fval v \<longleftrightarrow> (case v of Fin x \<Rightarrow> fl x = x | NonFin \<Rightarrow> True)"

definition double_json :: "json \<Rightarrow> bool" where
  "double_json v \<longleftrightarrow> (case v of JFloat x \<Rightarrow> double_fval x | _ \<Rightarrow> True)"

lemma double_to_fval [simp]: "double_fval (to_fval x)"
  by (simp add: double_fval_def to_fval_def)

lemma double_parsed: "float_of_text s = Some v \<Longrightarrow> double_fval v"
  by (auto simp: float_of_text_def Let_def double_fval_def [of NonFin] split: if_splits)

lemma double_found: "first_number rs s = Some v \<Longrightarrow> double_fval v"
  by (induction rs) (auto dest: double_parsed split: option.splits)

lemma double_round2: "double_fval v \<Longrightarrow> double_fval (round2 v)"
  by (auto simp: double_fval_def round2_def py_round_def split: fval.splits)

lemma double_op: "double_fval (fval_op f x y)"
  by (auto simp: fval_op_def double_fval_def [of NonFin] split: fval.splits)

lemma double_estimate: "smart_price_estimation text action china = Some v \<Longrightarrow> double_fval v"
  by (auto simp: smart_price_estimation_def Let_def double_op double_round2 dest: double_found split: option.splits if_splits)

lemma double_number: "jnumber s = Some (v, r) \<Longrightarrow> double_json v"
  by (auto simp: jnumber_def Let_def double_json_def split: if_splits option.splits prod.splits list.splits)

lemma double_scalar: "jscalar s = Some (v, r) \<Longrightarrow> double_json v"
  by (auto simp: jscalar_def jconstant_def find_Some_iff dest!: nth_mem double_number split: option.splits)
    (auto simp: constants_def double_json_def double_fval_def)

lemma parsed_kinds:
  "jmembers n s acc = Some (v, r) \<Longrightarrow> \<exists>d. v = JObj d" "jitems n s its = Some (v, r) \<Longrightarrow> \<exists>l. v = JList l"
  by (induction n arbitrary: s acc its) (fastforce split: option.splits if_splits)+

lemma scalar_kind: "jscalar s \<noteq> Some (JObj d, r)"
proof
  assume a: "jscalar s = Some (JObj d, r)"
  have "jnumber s \<noteq> Some (JObj d, r)" by (auto simp: jnumber_def Let_def split: option.splits if_splits prod.splits)
  then obtain x where "find (\<lambda>(t, v). startswith s t) constants = Some (x, JObj d)"
    using a by (auto simp: jscalar_def jconstant_def split: option.splits)
  then have "(x, JObj d) \<in> set constants" by (auto simp: find_Some_iff dest: nth_mem)
  then show False by (auto simp: constants_def)
qed

lemma value_cases:
  assumes "jvalue n s = Some (v, r)"
  obtains (str) t where "v = JStr t" | (object) "v = JObj []" | (members) k cs where "jmembers k cs [] = Some (v, r)"
  | (items) l where "v = JList l" | (scalar) t where "jscalar t = Some (v, r)"
proof -
  obtain k where n: "n = Suc k" using assms by (cases n) auto
  obtain c cs where c: "next_char s = Some (c, cs)" using assms n by (auto split: option.splits)
  consider "\<exists>t. v = JStr t" | "v = JObj []" | "jmembers k cs [] = Some (v, r)" | "\<exists>l. v = JList l" | "jscalar (c # cs) = Some (v, r)"
    using assms parsed_kinds(2) [of k cs "[]" v r] by (auto simp: n c split: option.splits if_splits)
  then show ?thesis using that by cases blast+
qed

lemma double_value: "jvalue n s = Some (v, r) \<Longrightarrow> double_json v"
  by (erule value_cases) (auto simp: double_json_def dest: parsed_kinds(1) double_scalar [unfolded double_json_def])

lemma double_members:
  "jmembers n s acc = Some (JObj d, r) \<Longrightarrow> (\<And>k x. dget acc k = Some x \<Longrightarrow> double_json x) \<Longrightarrow> dget d k = Some x \<Longrightarrow> double_json x"
proof (induction n arbitrary: s acc)
  case (Suc n)
  obtain l r1 w r2 y r3 where k: "jkey s = Some (l, r1)" "jvalue n r1 = Some (w, r2)" "next_char r2 = Some (y, r3)"
    using Suc.prems(1) by (auto split: option.splits)
  have "double_json z" if "dget (dset l w acc) j = Some z" for j z
    using that Suc.prems(2) double_value [OF k(2)] by (auto simp: dict_simps split: if_splits)
  then show ?case using Suc by (auto simp: k split: if_splits)
qed simp

lemma double_loaded: "json_loads s = Some (JObj d) \<Longrightarrow> dget d k = Some x \<Longrightarrow> double_json x"
proof -
  assume l: "json_loads s = Some (JObj d)" "dget d k = Some x"
  obtain n t r where "jvalue n t = Some (JObj d, r)" using l(1) by (auto simp: json_loads_def split: option.splits if_splits)
  then show "double_json x"
  proof (cases rule: value_cases)
    case (members k cs)
    then show ?thesis by (rule double_members [OF _ _ l(2)]) simp
  qed (use l(2) scalar_kind in simp_all)
qed

lemma double_given: "given_target v = Some (Target x) \<Longrightarrow> double_json v \<Longrightarrow> double_fval x"
  by (auto simp: given_target_def float_of_json_def target_of_def double_json_def double_fval_def [of "Fin _"] to_fval_def
      dest: double_parsed split: json.splits if_splits option.splits fval.splits)

lemma double_searched: "searched_target text action china = Target x \<Longrightarrow> double_fval x"
  by (auto simp: searched_target_def dest: double_found double_estimate split: option.splits if_splits)

lemma double_simple: "sg_target (extract_simple_decision text) = Target x \<Longrightarrow> double_fval x"
  by (auto simp: extract_simple_decision_def Let_def target_of_def dest: double_found double_estimate split: option.splits)

lemma double_target: "sg_target (process_signal show full_signal symbol answer) = Target x \<Longrightarrow> double_fval x"
proof -
  have o: "double_fval x" if "read_object show s china d = Some r" "sg_target r = Target x" "json_loads t = Some (JObj d)" for s china d r x t
  proof -
    let ?v = "dget_default d [116, 97, 114, 103, 101, 116, 95, 112, 114, 105, 99, 101] JNull"
    have "double_json ?v" using double_loaded [OF that(3)] by (auto simp: dget_default_def double_json_def [of JNull] split: option.splits)
    then show ?thesis using that(1,2)
      by (auto simp: read_object_def Let_def dest: double_given double_searched split: option.splits if_splits)
  qed
  assume "sg_target (process_signal show full_signal symbol answer) = Target x"
  then show ?thesis
    by (auto simp: process_signal_def Let_def invalid_signal_def read_answer_def dest: o double_simple
        split: if_splits option.splits json.splits)
qed

section \<open>A price that is named\<close>




lemma float_of_point:
  assumes "written_digits a" "a \<noteq> []" "written_digits b"
  shows "float_of_text (a @ 46 # b) = Some (to_fval (of_int (digits_value (a @ b)) / 10 ^ length b))"
proof -
  let ?t = "a @ 46 # b"
  have m: "map plain_digit ?t = ?t" using map_plain [OF assms(1)] map_plain [OF assms(3)] point_plain by simp
  have ch: "\<forall>c \<in> set ?t. 46 \<le> c \<and> c \<le> 57"
    using assms(1,3) by (auto simp: written_digits_def list_all_iff code_digit_def)
  have sp: "\<not> f_space c" if "46 \<le> c" "c \<le> 57" for c using that by (auto simp: f_space_def u_space_def)
  have "hd ?t \<in> set ?t" "last ?t \<in> set ?t" by (rule hd_in_set, simp, rule last_in_set, simp)
  then have "\<not> f_space (hd ?t)" "\<not> f_space (hd (rev ?t))" unfolding hd_rev using ch sp by blast+
  then have "dropWhile f_space ?t = ?t" "dropWhile f_space (rev ?t) = rev ?t"
    unfolding dropWhile_eq_self_iff by blast+
  then have s: "strip_by f_space ?t = ?t" by (simp add: strip_by_def)
  have g: "grouped u" if "\<forall>c \<in> set u. 46 \<le> c \<and> c \<le> (57 :: int)" for u
    using that by (induction u rule: grouped.induct) auto
  have h: "code_digit (hd ?t)" using assms(1,2) by (cases a) (auto simp: written_digits_def)
  have sn: "snd (take_sign ?t) = ?t" using h by (cases a) (auto simp: take_sign_def code_digit_def)
  have lo: "u_lower ?t \<notin> set special_floats"
    using h by (cases a) (auto simp: u_lower_def u_lower_char_def special_floats_def code_digit_def)
  have f: "filter (\<lambda>c. c \<noteq> 95) ?t = ?t" "take 1 ?t \<noteq> [95]" "\<not> list_ex (\<lambda>c. 127 \<le> c) ?t"
  proof -
    have "c \<noteq> 95 \<and> \<not> 127 \<le> c" if "c \<in> set ?t" for c using ch that by fastforce
    then show "filter (\<lambda>c. c \<noteq> 95) ?t = ?t" "\<not> list_ex (\<lambda>c. 127 \<le> c) ?t"
      unfolding filter_id_conv list_ex_iff by blast+
    show "take 1 ?t \<noteq> [95]" using h by (cases a) (auto simp: code_digit_def)
  qed
  show ?thesis unfolding float_of_text_def s m Let_def sn if_not_P [OF f(3)] if_not_P [OF lo] f(1)
    using float_literal_point [OF assms] g [OF ch] f(2) by (simp add: scale10_simps)
qed





section \<open>The estimated price\<close>

lemma fl_relative:
  assumes "1 / 100 \<le> x"
  shows "\<bar>fl x - x\<bar> \<le> x / 10 ^ 6"
proof -
  have "(2::rat) powi (-1000) \<le> 1 / 100" by (simp add: power_int_def power_divide)
  then have u: "ulp_exp x = flog2 x - 52" using assms by (intro ulp_exp_normal) linarith
  have p: "0 < x" using assms by linarith
  have "\<bar>fl x - x\<bar> \<le> 2 powi (flog2 x - 53)" using fl_error [of x] by (simp add: u)
  also have "\<dots> = 2 powi flog2 x * (1 / 2 ^ 53)" by (simp add: power_int_diff)
  also have "\<dots> \<le> x * (1 / 2 ^ 53)" using flog2_bounds(1) [OF p] by (intro mult_right_mono) simp_all
  also have "\<dots> \<le> x * (1 / 10 ^ 6)" using p by (intro mult_left_mono) simp_all
  finally show ?thesis by simp
qed

lemma fl_relative_bounds: "1 / 100 \<le> x \<Longrightarrow> x - x / 1000000 \<le> fl x" "1 / 100 \<le> x \<Longrightarrow> fl x \<le> x + x / 1000000"
proof -
  assume "1 / 100 \<le> x"
  note n = abs_le_D1 [OF fl_relative [OF this]] abs_le_D2 [OF fl_relative [OF this]]
  show "x - x / 1000000 \<le> fl x" "fl x \<le> x + x / 1000000" using n by simp_all
qed

lemma multiplier_bounds:
  "default_multiplier buy china = Fin m \<Longrightarrow> (buy \<longrightarrow> 11 / 10 \<le> m) \<and> (\<not> buy \<longrightarrow> 9 / 10 \<le> m \<and> m \<le> 951 / 1000)"
proof -
  have b: "11 / 10 \<le> fl (115 / 100)" "11 / 10 \<le> fl (112 / 100)" "fl (95 / 100) \<le> 951 / 1000" "fl (92 / 100) \<le> 951 / 1000"
    "9 / 10 \<le> fl (95 / 100)" "9 / 10 \<le> fl (92 / 100)"
    using fl_relative_bounds [of "115 / 100"] fl_relative_bounds [of "112 / 100"] fl_relative_bounds [of "95 / 100"] fl_relative_bounds [of "92 / 100"]
    by simp_all
  then show "default_multiplier buy china = Fin m \<Longrightarrow> ?thesis"
    by (auto simp: default_multiplier_def to_fval_def split: if_splits)
qed

lemma rounded_above: "fl p = p \<Longrightarrow> p + 1 / 200 \<le> y \<Longrightarrow> p \<le> py_round 2 y"
proof -
  assume p: "fl p = p" "p + 1 / 200 \<le> y"
  have "100 * p \<le> of_int (rhe (y * 100))" using p(2) abs_le_D2 [OF rhe_error [of "y * 100"]] by simp
  then have "p \<le> of_int (rhe (y * 100)) / 100" by simp
  then have "fl p \<le> fl (of_int (rhe (y * 100)) / 100)" by (rule fl_mono)
  then show ?thesis using p(1) by (simp add: py_round_def)
qed

lemma rounded_below: "fl p = p \<Longrightarrow> y \<le> p - 1 / 200 \<Longrightarrow> py_round 2 y \<le> p"
proof -
  assume p: "fl p = p" "y \<le> p - 1 / 200"
  have "of_int (rhe (y * 100)) \<le> 100 * p" using p(2) abs_le_D1 [OF rhe_error [of "y * 100"]] by simp
  then have "of_int (rhe (y * 100)) / 100 \<le> p" by simp
  then have "fl (of_int (rhe (y * 100)) / 100) \<le> fl p" by (rule fl_mono)
  then show ?thesis using p(1) by (simp add: py_round_def)
qed

text \<open>The numbers that the patterns find have no sign.\<close>

definition matches_only :: "(int \<Rightarrow> bool) \<Rightarrow> rx \<Rightarrow> bool" where
  "matches_only Q r \<longleftrightarrow> (\<forall>s g s1 g1. (s1, g1) \<in> set (rmatch r s g) \<longrightarrow> (\<exists>t. s = t @ s1 \<and> list_all Q t))"

lemma matches_only_cls: "(\<And>c. P c \<Longrightarrow> Q c) \<Longrightarrow> matches_only Q (RCls P lo hi)"
proof -
  assume q: "\<And>c. P c \<Longrightarrow> Q c"
  have "\<exists>t. s = t @ s1 \<and> list_all Q t" if m: "(s1, g1) \<in> set (rmatch (RCls P lo hi) s g)" for s g s1 g1
  proof -
    obtain k where k: "s1 = drop k s" "k \<le> length (takeWhile P s)"
      using m by (auto simp: Let_def split: option.splits)
    then have "take k s = take k (takeWhile P s)" by (metis min.absorb1 take_take takeWhile_eq_take)
    then have "list_all Q (take k s)" using q by (auto simp: list_all_iff dest!: in_set_takeD set_takeWhileD)
    then show ?thesis using k(1) by (intro exI [of _ "take k s"]) simp
  qed
  then show ?thesis unfolding matches_only_def by blast
qed

lemma matches_only_seq: "matches_only Q a \<Longrightarrow> matches_only Q b \<Longrightarrow> matches_only Q (RSeq a b)"
  by (fastforce simp: matches_only_def)

lemma matches_only_opt: "matches_only Q a \<Longrightarrow> matches_only Q (ROpt a)"
  by (auto simp: matches_only_def)

definition number_body :: rx where
  "number_body = rseq [RCls u_digit 1 None, ROpt (rseq [rchar 46, RCls u_digit 1 None])]"

lemma number_captured: "captured number_body t \<Longrightarrow> 45 \<notin> set t"
proof -
  have m: "u_digit c \<Longrightarrow> c \<noteq> 45" for c by (auto simp: u_digit_def digit_starts_def)
  have "matches_only (\<lambda>c. c \<noteq> 45) number_body"
    unfolding number_body_def rchar_def rseq.simps
    by (intro matches_only_seq matches_only_opt matches_only_cls) (auto dest: m)
  then show "captured number_body t \<Longrightarrow> 45 \<notin> set t" by (force simp: matches_only_def captured_def list_all_iff)
qed

lemma digits_value_nonneg: "list_all code_digit ds \<Longrightarrow> 0 \<le> digits_value ds"
proof -
  have "list_all code_digit ds \<Longrightarrow> 0 \<le> n \<Longrightarrow> 0 \<le> fold (\<lambda>d acc. acc * 10 + (d - 48)) ds n" for n :: int
    by (induction ds arbitrary: n) (simp_all add: code_digit_def)
  then show "list_all code_digit ds \<Longrightarrow> ?thesis" by (simp add: digits_value_def)
qed

lemma literal_nonneg: "45 \<notin> set s \<Longrightarrow> float_literal s = Some x \<Longrightarrow> 0 \<le> x"
proof -
  assume m: "45 \<notin> set s" and x: "float_literal s = Some x"
  obtain sg r where sr: "take_sign s = (sg, r)" by force
  have sg: "sg = 1" using sr m by (auto simp: take_sign_def split: list.splits if_splits)
  define fp where "fp = (case dropWhile code_digit r of c # cs \<Rightarrow> if c = 46 then takeWhile code_digit cs else [] | [] \<Rightarrow> [])"
  define ds where "ds = takeWhile code_digit r @ fp"
  have "list_all code_digit fp" by (auto simp: fp_def list_all_iff split: list.splits dest: set_takeWhileD)
  then have d: "list_all code_digit ds" by (auto simp: ds_def list_all_iff dest: set_takeWhileD)
  have "\<exists>e. x = scale10 (of_int (digits_value ds)) e"
  proof (cases "dropWhile code_digit r")
    case Nil
    then show ?thesis using x unfolding float_literal_def ds_def fp_def Nil sr sg
      by (auto simp: Let_def Nil simp del: dropWhile_eq_Nil_conv split: if_splits option.splits)
  next
    case (Cons c cs)
    then show ?thesis using x unfolding float_literal_def ds_def fp_def Cons sr sg
      by (cases "c = 46") (auto simp: Let_def Cons split: if_splits option.splits)
  qed
  then obtain e where v: "x = scale10 (of_int (digits_value ds)) e" "list_all code_digit ds" using d by blast
  then have "0 \<le> digits_value ds" by (intro digits_value_nonneg)
  then show "0 \<le> x" by (simp add: v(1) scale10_def)
qed

lemma text_nonneg: "45 \<notin> set t \<Longrightarrow> float_of_text t = Some (Fin x) \<Longrightarrow> 0 \<le> x"
proof -
  assume t: "45 \<notin> set t" and x: "float_of_text t = Some (Fin x)"
  let ?u = "map plain_digit (strip_by f_space t)"
  have "set (strip_by f_space t) \<subseteq> set t" by (auto simp: strip_by_def dest!: set_dropWhileD)
  moreover have "plain_digit c = 45 \<Longrightarrow> c = 45" for c
    using u_digit_value_range(1) [of c] by (auto simp: plain_digit_def split: if_splits)
  ultimately have "45 \<notin> set (filter (\<lambda>c. c \<noteq> 95) ?u)" using t by (auto dest!: sym [of 45])
  moreover obtain y where "float_literal (filter (\<lambda>c. c \<noteq> 95) ?u) = Some y" "to_fval y = Fin x"
    using x by (auto simp: float_of_text_def Let_def split: if_splits)
  ultimately have "0 \<le> y" "x = fl y" by (blast intro: literal_nonneg, auto simp: to_fval_def split: if_splits)
  then show "0 \<le> x" using fl_nonneg by simp
qed

lemma first_number_from: "first_number rs s = Some v
  \<Longrightarrow> \<exists>r \<in> set rs. \<exists>g. rsearch r s = Some g \<and> float_of_text (group g 1) = Some v"
  by (induction rs) (auto split: option.splits)

lemma first_number_nonneg:
  assumes "first_number rs s = Some (Fin x)" "\<forall>r \<in> set rs. rx_groups r \<subseteq> {(1, number_body)}"
  shows "0 \<le> x"
proof -
  obtain r g where r: "r \<in> set rs" "rsearch r s = Some g" "float_of_text (group g 1) = Some (Fin x)"
    using first_number_from [OF assms(1)] by blast
  have "45 \<notin> set (group g 1)"
  proof (cases "map_of g 1")
    case (Some t)
    then obtain a where "(1, a) \<in> rx_groups r" "captured a t" using rsearch_groups [OF r(2)] map_of_SomeD by metis
    then have "captured number_body t" using assms(2) r(1) by auto
    then show ?thesis using number_captured Some by (simp add: group_def)
  qed (simp add: group_def)
  then show ?thesis using text_nonneg r(3) by blast
qed

lemma rx_groups_rseq: "rx_groups (rseq rs) = (\<Union>r \<in> set rs. rx_groups r)"
  by (induction rs) simp_all

lemma rx_groups_parts: "rx_groups (rchar c) = {}" "rx_groups rspace = {}" "rx_groups (one P) = {}"
  "(\<Union>r \<in> set (rtext s). rx_groups r) = {}" "rx_groups number_cap = {(1, number_body)}" "rx_groups (member cs) = {}"
  by (auto simp: rchar_def rspace_def one_def rtext_def number_cap_def number_body_def member_def)

lemma price_patterns_number: "\<forall>r \<in> set current_price_patterns. rx_groups r \<subseteq> {(1, number_body)}"
  "\<forall>r \<in> set percentage_patterns. rx_groups r \<subseteq> {(1, number_body)}"
  by (auto simp: current_price_patterns_def percentage_patterns_def priced_def percent_after_def rx_groups_rseq rx_groups_parts)

lemma py_round_mono: "x \<le> y \<Longrightarrow> py_round 2 x \<le> py_round 2 y"
  unfolding py_round_def by (intro fl_mono divide_right_mono) (simp_all add: rhe_mono)

text \<open>The factor of the estimated price: at least one for a purchase, at most one for a sale.\<close>

definition right_factor :: "bool \<Rightarrow> rat \<Rightarrow> bool" where
  "right_factor buy m \<longleftrightarrow> (if buy then 1 \<le> m else m \<le> 1)"

lemma percentage_factor:
  assumes "first_number percentage_patterns text = Some v" "fval_op (/) v (Fin 100) = c"
    "fval_op (if buy then (+) else (-)) (Fin 1) c = Fin m"
  shows "right_factor buy m"
proof -
  obtain x y where xy: "v = Fin x" "c = Fin y" using assms(2,3) by (auto simp: fval_op_def split: fval.splits)
  have "0 \<le> x" using first_number_nonneg [OF _ price_patterns_number(2)] assms(1) xy(1) by blast
  then have "0 \<le> y" using assms(2) xy fl_nonneg [of "x / 100"] by (auto simp: fval_op_def to_fval_def split: if_splits)
  then have "1 \<le> fl (1 + y)" "fl (1 - y) \<le> 1" using fl_mono [of 1 "1 + y"] fl_mono [of "1 - y" 1] by simp_all
  then show ?thesis using assms(3) xy(2) by (auto simp: fval_op_def to_fval_def right_factor_def split: if_splits)
qed

lemma estimate_factor:
  assumes "first_number current_price_patterns text = Some (Fin p)" "action = txt_buy \<or> action = txt_sell"
    "smart_price_estimation text action china = Some (Fin t)"
  shows "\<exists>m. right_factor (action = txt_buy) m \<and> t = py_round 2 (fl (p * m))"
proof -
  have nz: "p \<noteq> 0" using assms by (auto simp: smart_price_estimation_def)
  have r: "t = py_round 2 (fl (p * m))" if "round2 (fval_op (*) (Fin p) (Fin m)) = Fin t" for m
    using that by (auto simp: round2_def fval_op_def to_fval_def split: if_splits)
  have d: "right_factor (action = txt_buy) m" if "default_multiplier (action = txt_buy) china = Fin m" for m
    using multiplier_bounds [OF that] by (auto simp: right_factor_def)
  obtain w where w: "round2 (fval_op (*) (Fin p) w) = Fin t"
    "w = default_multiplier (action = txt_buy) china \<or> (\<exists>v c. first_number percentage_patterns text = Some v
      \<and> fval_op (/) v (Fin 100) = c \<and> w = fval_op (if action = txt_buy then (+) else (-)) (Fin 1) c)"
    using assms nz by (auto simp: smart_price_estimation_def Let_def split: option.splits if_splits)
  obtain m where m: "w = Fin m" using w(1) by (auto simp: round2_def fval_op_def split: fval.splits)
  then have "right_factor (action = txt_buy) m" using w(2) d percentage_factor by metis
  then show ?thesis using r w(1) m by blast
qed

lemma estimate_default:
  assumes "first_number current_price_patterns text = Some (Fin p)" "1 / 5 \<le> p" "first_number percentage_patterns text = None"
    "smart_price_estimation text action china = Some (Fin t)"
  shows "if action = txt_buy then p \<le> t else if action = txt_sell then t \<le> p else t = p"
proof -
  have d: "fl p = p" using double_found [OF assms(1)] by (simp add: double_fval_def)
  have nz: "p \<noteq> 0" using assms(2) by auto
  have t: "t = py_round 2 (fl (p * m))" if "action = txt_buy \<or> action = txt_sell" "default_multiplier (action = txt_buy) china = Fin m" for m
    using assms that nz by (auto simp: smart_price_estimation_def Let_def fval_op_def round2_def to_fval_def split: if_splits fval.splits)
  have f: "\<exists>m. default_multiplier (action = txt_buy) china = Fin m" if "action = txt_buy \<or> action = txt_sell"
    using assms that nz by (cases "default_multiplier (action = txt_buy) china")
      (auto simp: smart_price_estimation_def Let_def fval_op_def round2_def split: if_splits)
  have ne: "txt_buy \<noteq> txt_sell" by (simp add: txt_buy_def txt_sell_def)
  consider (buy) "action = txt_buy" | (sell) "action = txt_sell" | (hold) "action \<noteq> txt_buy" "action \<noteq> txt_sell" by blast
  then show ?thesis
  proof cases
    case buy
    then obtain m where m: "default_multiplier (action = txt_buy) china = Fin m" using f by blast
    have "11 / 10 \<le> m" using multiplier_bounds [OF m] buy by simp
    then have "p * (11 / 10) \<le> p * m" using assms(2) by (intro mult_left_mono) simp_all
    moreover from this have "1 / 100 \<le> p * m" using assms(2) by linarith
    from fl_relative_bounds(1) [OF this] have "p * m - p * m / 1000000 \<le> fl (p * m)" .
    ultimately have "p + 1 / 200 \<le> fl (p * m)" using assms(2) by linarith
    then show ?thesis using t [OF disjI1 [OF buy] m] rounded_above [OF d] buy by simp
  next
    case sell
    then obtain m where m: "default_multiplier (action = txt_buy) china = Fin m" using f by blast
    have "9 / 10 \<le> m" "m \<le> 951 / 1000" using multiplier_bounds [OF m] sell ne by simp_all
    then have "p * (9 / 10) \<le> p * m" "p * m \<le> p * (951 / 1000)" using assms(2) by (intro mult_left_mono; linarith)+
    moreover from this have "1 / 100 \<le> p * m" using assms(2) by linarith
    from fl_relative_bounds(2) [OF this] have "fl (p * m) \<le> p * m + p * m / 1000000" .
    ultimately have "fl (p * m) \<le> p - 1 / 200" using assms(2) by linarith
    then show ?thesis using t [OF disjI2 [OF sell] m] rounded_below [OF d] sell ne by simp
  next
    case hold
    then show ?thesis using assms nz by (auto simp: smart_price_estimation_def Let_def)
  qed
qed

text \<open>
  C36: The estimated price is on the right side of the current price, whatever the text says: for a
  purchase not below and for a sale not above the current price rounded to cents, and for holding
  it is the current price. When the text has no percentage and the price is 0.2 or more, this holds
  for the current price itself. (Rounding is why: at 0.004 a purchase is estimated at 0.)
\<close>

theorem estimated_direction:
  assumes "first_number current_price_patterns text = Some (Fin p)"
    "smart_price_estimation text action china = Some (Fin t)"
  shows "(if action = txt_buy then py_round 2 p \<le> t else if action = txt_sell then t \<le> py_round 2 p else t = p)
    \<and> (1 / 5 \<le> p \<and> first_number percentage_patterns text = None \<longrightarrow>
        (if action = txt_buy then p \<le> t else if action = txt_sell then t \<le> p else t = p))"
proof (intro conjI impI)
  have p: "0 \<le> p" "fl p = p"
    using first_number_nonneg [OF assms(1) price_patterns_number(1)] double_found [OF assms(1)]
    by (simp_all add: double_fval_def)
  have ne: "txt_buy \<noteq> txt_sell" by (simp add: txt_buy_def txt_sell_def)
  show "if action = txt_buy then py_round 2 p \<le> t else if action = txt_sell then t \<le> py_round 2 p else t = p"
  proof (cases "action = txt_buy \<or> action = txt_sell")
    case True
    then obtain m where m: "right_factor (action = txt_buy) m" "t = py_round 2 (fl (p * m))"
      using estimate_factor [OF assms(1) _ assms(2)] by blast
    have "p \<le> fl (p * m)" if "1 \<le> m" using mult_left_mono [OF that p(1)] fl_mono [of p "p * m"] p(2) by simp
    moreover have "fl (p * m) \<le> p" if "m \<le> 1" using mult_left_mono [OF that p(1)] fl_mono [of "p * m" p] p(2) by simp
    ultimately show ?thesis using m True ne py_round_mono by (auto simp: right_factor_def)
  next
    case False
    then show ?thesis using assms by (auto simp: smart_price_estimation_def Let_def split: if_splits)
  qed
qed (use estimate_default assms in blast)

lemma ex_ten: "float_of_text (group [(1, [49, 48, 46, 48, 48])] 1) = Some (Fin 10)"
proof -
  have "float_of_text ([49, 48] @ 46 # [48, 48]) = Some (to_fval (of_int (digits_value ([49, 48] @ [48, 48])) / 10 ^ length [48, 48 :: int]))"
    by (rule float_of_point) (simp_all add: written_digits_def code_digit_def)
  moreover have "to_fval 10 = Fin 10" using to_fval_int [of 10] by simp
  ultimately have "float_of_text [49, 48, 46, 48, 48] = Some (Fin 10)" by (simp add: digits_value_def)
  then show ?thesis by (simp add: group_def)
qed

lemma none_found: "list_all (\<lambda>r. rsearch r s = None) rs \<Longrightarrow> first_number rs s = None"
  by (induction rs) simp_all

lemma ex_price: "first_number current_price_patterns [29616, 20215, 49, 48, 46, 48, 48] = Some (Fin 10)" "first_number percentage_patterns [29616, 20215, 49, 48, 46, 48, 48] = None"
proof -
  have r: "rsearch (current_price_patterns ! 0) [29616, 20215, 49, 48, 46, 48, 48] = None" "rsearch (current_price_patterns ! 1) [29616, 20215, 49, 48, 46, 48, 48] = Some [(1, [49, 48, 46, 48, 48])]"
    by code_simp+
  have p: "current_price_patterns = current_price_patterns ! 0 # current_price_patterns ! 1 # drop 2 current_price_patterns"
    by (simp add: current_price_patterns_def)
  show "first_number current_price_patterns [29616, 20215, 49, 48, 46, 48, 48] = Some (Fin 10)"
    by (subst p) (simp only: first_number.simps(2) r ex_ten option.case)
  have "list_all (\<lambda>r. rsearch r [29616, 20215, 49, 48, 46, 48, 48] = None) percentage_patterns" by code_simp
  then show "first_number percentage_patterns [29616, 20215, 49, 48, 46, 48, 48] = None" by (rule none_found)
qed

theorem estimated_direction_witness:
  "\<exists>t. smart_price_estimation [29616, 20215, 49, 48, 46, 48, 48] txt_buy True = Some (Fin t) \<and> 10 \<le> t"
proof -
  have m: "fl (115 / 100) \<le> 2" using fl_relative_bounds(2) [of "115 / 100"] by simp
  have m0: "1 \<le> fl (115 / 100)" using fl_relative_bounds(1) [of "115 / 100"] by simp
  have "fl (10 * fl (115 / 100)) \<le> 100" "0 \<le> fl (10 * fl (115 / 100))"
    using fl_relative_bounds [of "10 * fl (115 / 100)"] m m0 by simp_all
  moreover have "(100::rat) < 2 ^ 1024" by simp
  ultimately have "to_fval (10 * fl (115 / 100)) = Fin (fl (10 * fl (115 / 100)))" by (simp add: to_fval_def)
  moreover have "to_fval (115 / 100) = Fin (fl (115 / 100))" using m m0 by (simp add: to_fval_def)
  ultimately have "\<exists>t. smart_price_estimation [29616, 20215, 49, 48, 46, 48, 48] txt_buy True = Some (Fin t)"
    using ex_price by (simp add: smart_price_estimation_def Let_def fval_op_def round2_def default_multiplier_def)
  then obtain t where "smart_price_estimation [29616, 20215, 49, 48, 46, 48, 48] txt_buy True = Some (Fin t)" by blast
  with estimated_direction [OF ex_price(1) this] ex_price(2) show ?thesis by auto
qed

section \<open>From the answer of the model to the report\<close>

lemma signal_written:
  assumes "handed_on show model (process_signal show full_signal symbol answer) = Some sd" "0 \<le> sd_confidence sd" "0 \<le> sd_risk sd"
    "case sg_target (process_signal show full_signal symbol answer) of Target (Fin x) \<Rightarrow> plain_range x | _ \<Rightarrow> 42 \<notin> set (py_str (sd_reasoning sd))"
  shows "written_decision (format_decision sd)" "dc_action (format_decision sd) = sg_action (process_signal show full_signal symbol answer)"
    "or_default (dc_target (format_decision sd)) 0 = (case sg_target (process_signal show full_signal symbol answer) of Target (Fin x) \<Rightarrow> x | _ \<Rightarrow> 0)"
proof -
  let ?g = "process_signal show full_signal symbol answer"
  have a: "sg_action ?g \<in> {txt_buy, txt_hold, txt_sell}" by (rule signal_known)
  have sd: "sd_action sd = sg_action ?g" "target_value_of (sg_target ?g) = Some (sd_target sd)"
    using assms(1) by (auto simp: handed_on_def split: option.splits)
  have k: "dget action_translation x = None" if "x \<in> {txt_buy, txt_hold, txt_sell}" for x
    using that by (auto simp: action_translation_def txt_buy_def txt_hold_def txt_sell_def ustr_of_def)
  show act: "dc_action (format_decision sd) = sg_action ?g"
    using k [OF a] by (simp add: format_decision_def sd dget_default_def)
  show tg: "or_default (dc_target (format_decision sd)) 0 = (case sg_target ?g of Target (Fin x) \<Rightarrow> x | _ \<Rightarrow> 0)"
    using sd(2)
    by (auto simp: format_decision_def target_value_of_def target_price_def fval_num_def dest!: sym [of _ "sd_target sd"]
        split: signal_target.splits fval.splits)
  show "written_decision (format_decision sd)"
  proof (cases "sg_target ?g")
    case (Target v)
    then obtain x where v: "v = Fin x" using sd(2) by (cases v) (auto simp: target_value_of_def fval_num_def)
    have "fl x = x" using double_target [OF Target] v by (simp add: double_fval_def)
    then show ?thesis using a act assms(2-4) sd(2) Target v
      by (auto simp: written_decision_def format_decision_def target_value_of_def target_price_def fval_num_def
          dest!: sym [of _ "sd_target sd"])
  qed (use a act assms(2-4) sd(2) in
    \<open>auto simp: written_decision_def format_decision_def target_value_of_def target_price_def dest!: sym [of _ "sd_target sd"]\<close>)
qed

text \<open>
  C10: From the answer of the model to the report: the report of a stock whose client did not see the
  end of the analysis shows the action, one of buy, hold and sell, and the target price that were
  read from the answer, if the scores are not negative and the price is one that is printed
  without an exponent.
\<close>

theorem answer_shown:
  assumes "generate_entries env day stocks ans = Inr (rs, ans2)" "r \<in> set rs" "code = sf_code (pe_stock r)"
    "\<not> validation_failed (dget ans code)" "\<forall>a. dget ans code = Some a \<longrightarrow> ar_status a \<noteq> ArCompleted"
    "rn_results env (ReportReader.normalize_code code) day = Some (save_modular_reports fails (analysis_outcome_of symbol st sd) fs)"
    "\<not> fails decision_file" "35 \<notin> set (ustr_of symbol)" "42 \<notin> set (ustr_of symbol)"
    "handed_on show model (process_signal show full_signal (ustr_of symbol) answer) = Some sd" "0 \<le> sd_confidence sd" "0 \<le> sd_risk sd"
    "case sg_target (process_signal show full_signal (ustr_of symbol) answer) of Target (Fin x) \<Rightarrow> plain_range x
       | _ \<Rightarrow> 42 \<notin> set (py_str (sd_reasoning sd))"
  shows "\<exists>a. shown_analysis ans2 r = Some a \<and> ar_status a = ArCompleted
    \<and> ar_recommendation a = sg_action (process_signal show full_signal (ustr_of symbol) answer)
    \<and> ar_recommendation a \<in> {txt_buy, txt_hold, txt_sell}
    \<and> ar_target_price a = (case sg_target (process_signal show full_signal (ustr_of symbol) answer) of Target (Fin x) \<Rightarrow> x | _ \<Rightarrow> 0)"
proof -
  let ?q = "analysis_outcome_of symbol st sd"
  have q: "ao_decision ?q = format_decision sd" "ao_symbol ?q = symbol" by (simp_all add: analysis_outcome_of_def Let_def)
  note w = signal_written [OF assms(10-13)]
  have "\<exists>a. shown_analysis ans2 r = Some a \<and> ar_status a = ArCompleted \<and> ar_recommendation a = dc_action (ao_decision ?q)
    \<and> ar_target_price a = or_default (dc_target (ao_decision ?q)) 0"
    using late_shown [OF assms(1-7), unfolded q, OF w(1) assms(8,9)] unfolding q by blast
  then obtain a where a: "shown_analysis ans2 r = Some a" "ar_status a = ArCompleted" "ar_recommendation a = dc_action (ao_decision ?q)"
    "ar_target_price a = or_default (dc_target (ao_decision ?q)) 0" by blast
  show ?thesis using a w(2,3) signal_known [of "show" full_signal "ustr_of symbol" answer]
    by (intro exI [of _ a]) (simp add: q del: insert_iff)
qed

lemma ex_signal: "process_signal (\<lambda>v. []) [120] (ustr_of ''600519'') (Some ([111, 107, 32] @ (123 # butlast (tl ex_reply) @ [125]) @ [46]))
   = \<lparr>sg_action = txt_buy, sg_target = Target (Fin 12), sg_confidence = Fin 1, sg_risk = Fin 0,
     sg_reasoning = JStr txt_default_reason\<rparr>"
  using answer_decides [OF ex_read] by (simp add: ex_json_def dget_default_def)

definition ex_handed :: signal_decision where
  "ex_handed = \<lparr>sd_action = txt_buy, sd_target = TgNumber 12, sd_confidence = 1, sd_risk = 0,
     sd_reasoning = PText txt_default_reason, sd_model = []\<rparr>"

definition ex_final :: final_state where "ex_final = \<lparr>fs_fields = [], fs_investment = None, fs_risk = None\<rparr>"

theorem answer_shown_witness:
  "\<exists>rs ans r a. generate_entries (ex_late_env (analysis_outcome_of ''600519'' ex_final ex_handed)) ''2025-01-06'' [ex_late_stock]
       ex_late_answers = Inr (rs, ans) \<and> r \<in> set rs
     \<and> shown_analysis ans r = Some a \<and> ar_status a = ArCompleted \<and> ar_recommendation a = txt_buy \<and> ar_target_price a = 12"
proof -
  let ?q = "analysis_outcome_of ''600519'' ex_final ex_handed"
  let ?g = "process_signal (\<lambda>v. []) [120] (ustr_of ''600519'') (Some ([111, 107, 32] @ (123 # butlast (tl ex_reply) @ [125]) @ [46]))"
  have h: "handed_on (\<lambda>v. []) [] ?g = Some ex_handed" "0 \<le> sd_confidence ex_handed" "0 \<le> sd_risk ex_handed"
    "case sg_target ?g of Target (Fin x) \<Rightarrow> plain_range x | _ \<Rightarrow> 42 \<notin> set (py_str (sd_reasoning ex_handed))"
    unfolding ex_signal by (simp_all add: handed_on_def fval_num_def target_value_of_def reasoning_of_def ex_handed_def plain_range_def)
  have s: "35 \<notin> set (ustr_of ''600519'')" "42 \<notin> set (ustr_of ''600519'')" by (simp_all add: ustr_of_def)
  have q: "ao_decision ?q = format_decision ex_handed" "ao_symbol ?q = ''600519''" by (simp_all add: analysis_outcome_of_def Let_def)
  obtain rs ans r where e: "generate_entries (ex_late_env ?q) ''2025-01-06'' [ex_late_stock] ex_late_answers = Inr (rs, ans)" "r \<in> set rs"
    "''600519.SH'' = sf_code (pe_stock r)" "\<not> validation_failed (dget ex_late_answers ''600519.SH'')"
    "\<forall>a. dget ex_late_answers ''600519.SH'' = Some a \<longrightarrow> ar_status a \<noteq> ArCompleted"
    "rn_results (ex_late_env ?q) (ReportReader.normalize_code ''600519.SH'') ''2025-01-06'' = Some (save_modular_reports (\<lambda>_. False) ?q [])"
    using ex_late [of ?q] signal_written(1) [OF h] s unfolding q by blast
  from answer_shown [OF e _ s h] show ?thesis using e(1,2) ex_signal by auto
qed

text \<open>A current price is taken for the target price: the estimate for a purchase would be above it.\<close>

lemma current_price_as_target: "searched_target [20215, 26684, 65306, 49, 48, 46, 48, 48, 65292, 20080, 20837] txt_buy True = Target (Fin 10)"
proof -
  have r: "rsearch (signal_patterns ! 0) [20215, 26684, 65306, 49, 48, 46, 48, 48, 65292, 20080, 20837] = None" "rsearch (signal_patterns ! 1) [20215, 26684, 65306, 49, 48, 46, 48, 48, 65292, 20080, 20837] = None"
    "rsearch (signal_patterns ! 2) [20215, 26684, 65306, 49, 48, 46, 48, 48, 65292, 20080, 20837] = Some [(1, [49, 48, 46, 48, 48])]"
    by code_simp+
  have p: "signal_patterns = signal_patterns ! 0 # signal_patterns ! 1 # signal_patterns ! 2 # drop 3 signal_patterns"
    by (simp add: signal_patterns_def)
  have "first_number signal_patterns [20215, 26684, 65306, 49, 48, 46, 48, 48, 65292, 20080, 20837] = Some (Fin 10)"
    by (subst p) (simp only: first_number.simps(2) r ex_ten option.case)
  then show ?thesis by (simp only: searched_target_def option.case)
qed

end
