(* ===== verification/ReportValidator.thy ===== *)
theory ReportValidator
  imports SignalProofs
begin

text \<open>
  The check of the reports against the data of the tools, \<open>tradingagents/graph/report_validator.py\<close>, and
  its use at the end of \<open>propagate\<close> in \<open>trading_graph.py\<close>. A report with a wrong name or a target price
  far from the current one is given back to the model, at most three times. The model is the
  parameter \<open>llm\<close>: its answer to the prompt of an attempt, \<open>None\<close> when it raises. Stock codes consist
  of letters, digits and points; the code is a part of the search patterns, where a point is any
  character.
\<close>

section \<open>All matches\<close>

text \<open>\<open>re.findall\<close> of an expression with one group that matches no empty text.\<close>

function findall :: "rx \<Rightarrow> ustr \<Rightarrow> ustr list" where
  "findall r [] = []"
| "findall r (c # cs) = (case rmatch r (c # cs) [] of [] \<Rightarrow> findall r cs
     | (rest, g) # _ \<Rightarrow> group g 1 # (if length rest \<le> length cs then findall r rest else findall r cs))"
  by pat_completeness auto
termination
  by (relation "measure (\<lambda>(r, s). length s)") auto

section \<open>The true data\<close>

record ground_truth =
  gt_code :: ustr
  gt_name :: ustr
  gt_price :: fval

definition no_newline :: "int \<Rightarrow> bool" where "no_newline c \<longleftrightarrow> c \<noteq> 10"

definition title_re :: rx where
  "title_re = rseq [rchar 42, rchar 42, RCap 1 (RLazy no_newline 1), rchar 65288, rdigits 6 6, rchar 65289]"

definition current_price_re :: rx where
  "current_price_re = rseq (rtext [24403, 21069, 20215, 26684] @ [one u_colon, rspace, ROpt (rchar 165), price_chars])"

text \<open>A price such as \<open>1.2.3\<close> raises a ValueError.\<close>

definition extract_ground_truth :: "ustr \<Rightarrow> ustr \<Rightarrow> (string, ground_truth) result" where
  "extract_ground_truth market_report code = (let
     name = (case rsearch title_re market_report of Some g \<Rightarrow> group g 1 | None \<Rightarrow> [32929, 31080] @ code);
     truth = (\<lambda>n p. \<lparr>gt_code = code, gt_name = n, gt_price = p\<rparr>) in
     if market_report = [] then Inr (truth ([32929, 31080] @ code) (Fin 0))
     else (case rsearch current_price_re market_report of None \<Rightarrow> Inr (truth name (Fin 0))
       | Some g \<Rightarrow> (case float_of_text (group g 1) of None \<Rightarrow> Inl ''ValueError'' | Some p \<Rightarrow> Inr (truth name p))))"

section \<open>Errors of a report\<close>

datatype report_error = WrongName ustr ustr | WrongPrice fval fval fval

definition code_re :: "ustr \<Rightarrow> rx list" where
  "code_re code = map (\<lambda>c. if c = 46 then one no_newline else rchar c) code"

definition tick :: rx where "tick = ROpt (rchar 96)"
definition close_paren :: rx where "close_paren = one (\<lambda>c. c = 65289 \<or> c = 41)"
definition open_paren :: rx where "open_paren = one (\<lambda>c. c = 65288 \<or> c = 40)"

definition name_patterns :: "ustr \<Rightarrow> rx list" where
  "name_patterns code = [
     rseq ([tick] @ code_re code @ [tick, close_paren, rspace, ROpt open_paren, RCap 1 (RLazy no_newline 1), close_paren]),
     rseq ([tick] @ code_re code @ [tick, rspace, open_paren, RCap 1 (RLazy no_newline 1), close_paren]),
     rseq (rtext [26631, 30340] @ [rspace, tick] @ code_re code @ [tick, rspace, open_paren, RCap 1 (RLazy no_newline 1), close_paren])]"

definition target_patterns :: "rx list" where
  "target_patterns = [
     rseq (rtext [30446, 26631, 20215] @ [member [20301, 26684], one u_colon, rspace, ROpt (one yuan_sign), price_chars]),
     rseq (rtext [30446, 26631] @ [one u_colon, rspace, ROpt (one yuan_sign), price_chars])]"

definition name_error :: "ustr \<Rightarrow> ustr \<Rightarrow> report_error list" where
  "name_error correct found = (if found \<noteq> [] \<and> found \<noteq> correct \<and> length found < 10 then [WrongName found correct] else [])"

text \<open>
  \<open>abs(target - price) / price\<close>; a price that is not finite gives a NaN, which is above no bound.
\<close>

definition deviation :: "fval \<Rightarrow> fval \<Rightarrow> fval" where
  "deviation target price = fval_op (/) (fval_op (\<lambda>x y. \<bar>x - y\<bar>) target price) price"

definition far_off :: "fval \<Rightarrow> fval \<Rightarrow> bool" where
  "far_off target price \<longleftrightarrow> price \<noteq> NonFin \<and> (case deviation target price of Fin d \<Rightarrow> fl (1 / 2) < d | NonFin \<Rightarrow> True)"

definition price_error :: "fval \<Rightarrow> ustr \<Rightarrow> report_error list" where
  "price_error price found = (case float_of_text found of None \<Rightarrow> []
     | Some t \<Rightarrow> if far_off t price then [WrongPrice t price (deviation t price)] else [])"

definition positive :: "fval \<Rightarrow> bool" where
  "positive v \<longleftrightarrow> (case v of Fin x \<Rightarrow> 0 < x | NonFin \<Rightarrow> True)"

definition detect_errors :: "ustr \<Rightarrow> ground_truth \<Rightarrow> report_error list" where
  "detect_errors content gt = (if u_strip content = [] then []
     else concat (map (\<lambda>r. concat (map (name_error (gt_name gt)) (findall r content))) (name_patterns (gt_code gt)))
       @ (if positive (gt_price gt)
          then concat (map (\<lambda>r. concat (map (price_error (gt_price gt)) (findall r content))) target_patterns) else []))"

section \<open>The prompt\<close>

definition repr_fval :: "fval \<Rightarrow> ustr" where
  "repr_fval v = (case v of Fin x \<Rightarrow> repr_float x | NonFin \<Rightarrow> [105, 110, 102])"

definition whole_percent :: "fval \<Rightarrow> ustr" where
  "whole_percent d = (case fval_op (*) d (Fin 100) of Fin x \<Rightarrow> ustr_of (int_str (rhe x)) | NonFin \<Rightarrow> [105, 110, 102]) @ [37]"

definition error_line :: "report_error \<Rightarrow> ustr" where
  "error_line e = (case e of
     WrongName w c \<Rightarrow> [45, 32, 20320, 20351, 29992, 20102, 38169, 35823, 30340, 20844, 21496, 21517, 31216, 12300] @ w @ [12301, 65292, 27491, 30830, 21517, 31216, 26159, 12300] @ c @ [12301]
   | WrongPrice w c d \<Rightarrow> [45, 32, 20320, 20351, 29992, 20102, 38169, 35823, 30340, 20215, 26684, 32, 165] @ repr_fval w @ [65292, 23454, 38469, 24403, 21069, 20215, 26684, 26159, 32, 165] @ repr_fval c @ [65288, 20559, 24046, 32] @ whole_percent d @ [65289])"

fun joined_lines :: "ustr list \<Rightarrow> ustr" where
  "joined_lines [] = []"
| "joined_lines [l] = l"
| "joined_lines (l # ls) = l @ [10] @ joined_lines ls"

definition correction_prompt :: "ustr \<Rightarrow> report_error list \<Rightarrow> ground_truth \<Rightarrow> ustr" where
  "correction_prompt original errs gt = joined_lines [
     [20320, 20043, 21069, 30340, 20998, 26512, 23384, 22312, 20197, 19979, 20107, 23454, 24615, 38169, 35823, 65292, 35831, 20462, 27491, 21518, 37325, 26032, 36755, 20986, 23436, 25972, 20998, 26512, 65306], [],
     [10060, 32, 26816, 27979, 21040, 30340, 38169, 35823, 65306], joined_lines (map error_line errs), [],
     [128204, 32, 27491, 30830, 30340, 22522, 30784, 25968, 25454, 65288, 26469, 33258, 23454, 26102, 34892, 24773, 24037, 20855, 39564, 35777, 65289, 65306],
     [45, 32, 32929, 31080, 20195, 30721, 65306] @ gt_code gt,
     [45, 32, 20844, 21496, 21517, 31216, 65306] @ gt_name gt,
     [45, 32, 24403, 21069, 20215, 26684, 65306, 165] @ repr_fval (gt_price gt), [],
     [35831, 22522, 20110, 20197, 19978, 27491, 30830, 25968, 25454, 65292, 37325, 26032, 29983, 25104, 20320, 30340, 23436, 25972, 20998, 26512, 12290, 20445, 25345, 21407, 26377, 30340, 20998, 26512, 26694, 26550, 21644, 26684, 24335, 65292, 20294, 30830, 20445, 65306],
     [49, 46, 32, 20351, 29992, 27491, 30830, 30340, 20844, 21496, 21517, 31216, 12300] @ gt_name gt @ [12301],
     [50, 46, 32, 25152, 26377, 20215, 26684, 20998, 26512, 22522, 20110, 24403, 21069, 20215, 26684, 32, 165] @ repr_fval (gt_price gt),
     [51, 46, 32, 30446, 26631, 20215, 26684, 24212, 35813, 22312, 24403, 21069, 20215, 26684, 30340, 21512, 29702, 33539, 22260, 20869, 65288, 177, 51, 48, 37, 20197, 20869, 65289], [],
     [20197, 19979, 26159, 20320, 20043, 21069, 30340, 20998, 26512, 65288, 38656, 35201, 20462, 27491, 65289, 65306], original, [],
     [35831, 36755, 20986, 20462, 27491, 21518, 30340, 23436, 25972, 20998, 26512, 65306]]"

section \<open>The check\<close>

text \<open>The texts of the final state, and the mark of a failed check with its reason.\<close>

record checked_state =
  cs_texts :: "(string, ustr) dict"
  cs_failed :: "(string \<times> report_error list \<times> ground_truth) option"

definition validation_retries :: nat where "validation_retries = 3"

text \<open>The attempts that are left, from the given number on: the corrected text, or the last errors.\<close>

function retry :: "(nat \<Rightarrow> ustr \<Rightarrow> ustr option) \<Rightarrow> ground_truth \<Rightarrow> nat \<Rightarrow> ustr \<Rightarrow> report_error list \<Rightarrow> (report_error list, ustr) result" where
  "retry llm gt attempt content errs = (if validation_retries < attempt then Inl errs
     else (case llm attempt (correction_prompt content errs gt) of
       None \<Rightarrow> retry llm gt (attempt + 1) content errs
     | Some corrected \<Rightarrow> (let new_errs = detect_errors corrected gt in
         if new_errs = [] then Inr corrected else retry llm gt (attempt + 1) corrected new_errs)))"
  by pat_completeness auto
termination
  by (relation "measure (\<lambda>(llm, gt, attempt, content, errs). Suc validation_retries - attempt)") auto

declare retry.simps [simp del]

definition validate_and_retry :: "(nat \<Rightarrow> ustr \<Rightarrow> ustr option) \<Rightarrow> string \<Rightarrow> checked_state \<Rightarrow> (string, checked_state) result" where
  "validate_and_retry llm key st = (let content = dget_default (cs_texts st) key [] in
     if u_strip content = [] then Inr st
     else (case extract_ground_truth (dget_default (cs_texts st) ''market_report'' []) (dget_default (cs_texts st) ''company_of_interest'' []) of
       Inl e \<Rightarrow> Inl e
     | Inr gt \<Rightarrow> if gt_price gt = Fin 0 then Inr st
         else (let errs = detect_errors content gt in
           if errs = [] then Inr st
           else (case retry llm gt 1 content errs of
             Inr corrected \<Rightarrow> Inr (st\<lparr>cs_texts := dset key corrected (cs_texts st)\<rparr>)
           | Inl last_errs \<Rightarrow> Inr (st\<lparr>cs_failed := Some (key, last_errs, gt)\<rparr>)))))"

text \<open>
  The end of \<open>propagate\<close>: both plans are checked, an exception ends the check, and the state goes on as
  it is then. \<open>llm\<close> is given the plan that is checked.
\<close>

definition validate_reports :: "(string \<Rightarrow> nat \<Rightarrow> ustr \<Rightarrow> ustr option) \<Rightarrow> checked_state \<Rightarrow> checked_state" where
  "validate_reports llm st = (case validate_and_retry (llm ''investment_plan'') ''investment_plan'' st of
     Inl e \<Rightarrow> st
   | Inr st1 \<Rightarrow> if cs_failed st1 \<noteq> None then st1
       else (case validate_and_retry (llm ''trader_investment_plan'') ''trader_investment_plan'' st1 of Inl e \<Rightarrow> st1 | Inr st2 \<Rightarrow> st2))"

section \<open>Properties\<close>

lemma retry_outcome:
  assumes "retry llm gt attempt content errs = res" "errs \<noteq> []"
  shows "case res of Inl es \<Rightarrow> es \<noteq> [] | Inr t \<Rightarrow> detect_errors t gt = [] \<and> (\<exists>n p. attempt \<le> n \<and> n \<le> validation_retries \<and> llm n p = Some t)"
  using assms
proof (induction llm gt attempt content errs arbitrary: res rule: retry.induct)
  case (1 llm gt attempt content errs)
  show ?case
  proof (cases "validation_retries < attempt")
    case True
    then show ?thesis using "1.prems" by (subst (asm) retry.simps) auto
  next
    case False
    show ?thesis
    proof (cases "llm attempt (correction_prompt content errs gt)")
      case None
      then have "retry llm gt (attempt + 1) content errs = res" using "1.prems"(1) False by (subst (asm) retry.simps) simp
      from "1.IH"(1) [OF False None this "1.prems"(2)] show ?thesis by (auto split: sum.splits intro: Suc_leD)
    next
      case (Some t)
      show ?thesis
      proof (cases "detect_errors t gt = []")
        case True
        then have "res = Inr t" using "1.prems"(1) False Some by (subst (asm) retry.simps) simp
        then show ?thesis using True Some False by (auto simp: not_less)
      next
        case errs2: False
        then have "retry llm gt (attempt + 1) t (detect_errors t gt) = res"
          using "1.prems"(1) False Some by (subst (asm) retry.simps) simp
        from "1.IH"(2) [OF False Some refl errs2 this errs2] show ?thesis by (auto split: sum.splits intro: Suc_leD)
      qed
    qed
  qed
qed

lemma retry_calls:
  "(\<And>n p. n \<le> validation_retries \<Longrightarrow> llm n p = llm2 n p) \<Longrightarrow> retry llm gt attempt content errs = retry llm2 gt attempt content errs"
proof (induction llm gt attempt content errs rule: retry.induct)
  case (1 llm gt attempt content errs)
  show ?case
  proof (cases "validation_retries < attempt")
    case True
    then show ?thesis by (simp add: retry.simps [of _ _ attempt])
  next
    case False
    then have "llm attempt p = llm2 attempt p" for p using "1.prems" by simp
    then show ?thesis using 1 False by (simp add: retry.simps [of _ _ attempt] Let_def split: option.split)
  qed
qed

text \<open>
  C15: After the check a plan has no error that the check finds, or it is the plan as it was and the
  check is marked as failed with its last errors, or nothing could be checked because the plan is
  blank or no price is known. The model is asked at most three times, and no other text changes.
\<close>

theorem report_checked:
  assumes "validate_and_retry llm key st = Inr st2" "cs_failed st = None" "u_strip (dget_default (cs_texts st) key []) \<noteq> []"
    "extract_ground_truth (dget_default (cs_texts st) ''market_report'' []) (dget_default (cs_texts st) ''company_of_interest'' []) = Inr gt"
    "gt_price gt \<noteq> Fin 0" "\<And>n p. n \<le> 3 \<Longrightarrow> llm n p = llm2 n p"
  shows "validate_and_retry llm2 key st = Inr st2
    \<and> (\<forall>k. k \<noteq> key \<longrightarrow> dget (cs_texts st2) k = dget (cs_texts st) k)
    \<and> (case cs_failed st2 of
        None \<Rightarrow> detect_errors (dget_default (cs_texts st2) key []) gt = []
      | Some (k, errs, gt2) \<Rightarrow> k = key \<and> errs \<noteq> [] \<and> gt2 = gt \<and> cs_texts st2 = cs_texts st)"
proof -
  let ?t = "dget_default (cs_texts st) key []"
  have c: "retry llm gt 1 ?t (detect_errors ?t gt) = retry llm2 gt 1 ?t (detect_errors ?t gt)"
    by (rule retry_calls) (use assms(6) in \<open>simp add: validation_retries_def\<close>)
  show ?thesis
  proof (cases "detect_errors ?t gt = []")
    case True
    then show ?thesis using assms(1-5) by (auto simp: validate_and_retry_def Let_def)
  next
    case False
    have r: "validate_and_retry llm key st = (case retry llm gt 1 ?t (detect_errors ?t gt) of
         Inr corrected \<Rightarrow> Inr (st\<lparr>cs_texts := dset key corrected (cs_texts st)\<rparr>) | Inl es \<Rightarrow> Inr (st\<lparr>cs_failed := Some (key, es, gt)\<rparr>))"
      "validate_and_retry llm2 key st = validate_and_retry llm key st"
      using assms(3-5) False c by (simp_all add: validate_and_retry_def Let_def)
    show ?thesis
    proof (cases "retry llm gt 1 ?t (detect_errors ?t gt)")
      case (Inl es)
      then have "st2 = st\<lparr>cs_failed := Some (key, es, gt)\<rparr>" "es \<noteq> []"
        using assms(1) r(1) retry_outcome [OF Inl False] by auto
      then show ?thesis using r(2) assms(1) by simp
    next
      case (Inr t)
      then have "st2 = st\<lparr>cs_texts := dset key t (cs_texts st)\<rparr>" "detect_errors t gt = []"
        using assms(1) r(1) retry_outcome [OF Inr False] by auto
      then show ?thesis using r(2) assms(1,2) by (simp add: dict_simps)
    qed
  qed
qed

text \<open>A blank answer of the model counts as a corrected report.\<close>

lemma blank_accepted: "llm 1 (correction_prompt content errs gt) = Some t \<Longrightarrow> u_strip t = [] \<Longrightarrow> retry llm gt 1 content errs = Inr t"
  by (simp add: retry.simps validation_retries_def detect_errors_def Let_def)

definition ex_checked :: checked_state where
  "ex_checked = \<lparr>cs_texts = [(''company_of_interest'', ustr_of ''600519''), (''market_report'', [24403, 21069, 20215, 26684, 65306, 49, 48, 46, 48, 48]),
     (''investment_plan'', [30446, 26631, 20215, 65306, 52, 53, 46, 53, 48])], cs_failed = None\<rparr>"

definition ex_truth :: ground_truth where
  "ex_truth = \<lparr>gt_code = ustr_of ''600519'', gt_name = [32929, 31080] @ ustr_of ''600519'', gt_price = Fin 10\<rparr>"

lemma ex_extract: "extract_ground_truth [24403, 21069, 20215, 26684, 65306, 49, 48, 46, 48, 48] (ustr_of ''600519'') = Inr ex_truth"
proof -
  have "rsearch title_re [24403, 21069, 20215, 26684, 65306, 49, 48, 46, 48, 48] = None" "rsearch current_price_re [24403, 21069, 20215, 26684, 65306, 49, 48, 46, 48, 48] = Some [(1, [49, 48, 46, 48, 48])]"
    by code_simp+
  then show ?thesis by (simp only: extract_ground_truth_def Let_def option.case ex_ten ex_truth_def) simp
qed

lemma ex_fine: "detect_errors [22909] ex_truth = []"
proof -
  have "list_all (\<lambda>r. findall r [22909] = []) (name_patterns (ustr_of ''600519''))" "list_all (\<lambda>r. findall r [22909] = []) target_patterns"
    by code_simp+
  then show ?thesis by (simp add: detect_errors_def ex_truth_def list_all_iff)
qed

lemma fl_half: "\<bar>m\<bar> \<le> 2 ^ 53 \<Longrightarrow> fl (of_int m / 2) = of_int m / 2"
  by (rule fl_is_double_id, unfold is_double_def, intro exI [of _ m] exI [of _ "-1"]) (simp add: power_int_def)

lemma ex_far: "detect_errors [30446, 26631, 20215, 65306, 52, 53, 46, 53, 48] ex_truth \<noteq> []"
proof -
  have f: "findall (target_patterns ! 0) [30446, 26631, 20215, 65306, 52, 53, 46, 53, 48] = [[52, 53] @ 46 # [53, 48]]" by code_simp
  have "float_of_text ([52, 53] @ 46 # [53, 48]) = Some (to_fval (of_int (digits_value ([52, 53] @ [53, 48])) / 10 ^ length [53, 48 :: int]))"
    by (rule float_of_point) (simp_all add: written_digits_def code_digit_def)
  then have "float_of_text ([52, 53] @ 46 # [53, 48]) = Some (to_fval (91 / 2))" by (simp add: digits_value_def)
  moreover have d: "far_off (to_fval (91 / 2)) (Fin 10)"
  proof -
    have v: "fl (91 / 2) = 91 / 2" "fl (71 / 2) = 71 / 2" "fl (1 / 2) = 1 / 2"
      using fl_half [of 91] fl_half [of 71] fl_half [of 1] by simp_all
    have "71 / 20 - 71 / 20 / 1000000 \<le> fl (71 / 20)" by (rule fl_relative_bounds) simp
    then have "1 / 2 < fl (71 / 20)" by simp
    then show ?thesis by (simp add: far_off_def deviation_def fval_op_def to_fval_def v)
  qed
  ultimately have "price_error (Fin 10) ([52, 53] @ 46 # [53, 48]) \<noteq> []" by (simp add: price_error_def del: append.simps)
  moreover have "target_patterns ! 0 \<in> set target_patterns" by (simp add: target_patterns_def)
  ultimately have "concat (map (\<lambda>r. concat (map (price_error (Fin 10)) (findall r [30446, 26631, 20215, 65306, 52, 53, 46, 53, 48]))) target_patterns) \<noteq> []"
    using f by (auto simp only: concat_eq_Nil_conv set_map ball_simps image_iff) force
  moreover have "u_strip [30446, 26631, 20215, 65306, 52, 53, 46, 53, 48] \<noteq> []" by code_simp
  ultimately show ?thesis by (simp add: detect_errors_def ex_truth_def positive_def)
qed

theorem report_checked_witness:
  "\<exists>st2. validate_and_retry (\<lambda>n p. if n = 1 then Some [22909] else None) ''investment_plan'' ex_checked = Inr st2
     \<and> dget (cs_texts st2) ''investment_plan'' = Some [22909]
     \<and> dget (cs_texts st2) ''market_report'' = Some [24403, 21069, 20215, 26684, 65306, 49, 48, 46, 48, 48]
     \<and> detect_errors (dget_default (cs_texts st2) ''investment_plan'' []) ex_truth = []"
proof -
  let ?llm = "\<lambda>n p. if n = (1 :: nat) then Some [22909] else None :: ustr option" and ?k = "''investment_plan''"
  have t: "dget_default (cs_texts ex_checked) ?k [] = [30446, 26631, 20215, 65306, 52, 53, 46, 53, 48]" "cs_failed ex_checked = None"
    "dget_default (cs_texts ex_checked) ''market_report'' [] = [24403, 21069, 20215, 26684, 65306, 49, 48, 46, 48, 48]"
    "dget_default (cs_texts ex_checked) ''company_of_interest'' [] = ustr_of ''600519''"
    by (simp_all add: ex_checked_def dget_default_def)
  have u: "u_strip [30446, 26631, 20215, 65306, 52, 53, 46, 53, 48] \<noteq> []" by code_simp
  have r: "retry ?llm ex_truth 1 c es = Inr [22909]" for c es
    by (simp add: retry.simps [of _ _ 1, simplified] validation_retries_def ex_fine Let_def)
  have v: "validate_and_retry ?llm ?k ex_checked = Inr (ex_checked\<lparr>cs_texts := dset ?k [22909] (cs_texts ex_checked)\<rparr>)"
    using u ex_far by (simp only: validate_and_retry_def Let_def t ex_extract sum.case r if_False) (simp add: ex_truth_def)
  have p: "gt_price ex_truth \<noteq> Fin 0" by (simp add: ex_truth_def)
  have c: "validate_and_retry (\<lambda>n p. ?llm n p) ?k ex_checked = Inr (ex_checked\<lparr>cs_texts := dset ?k [22909] (cs_texts ex_checked)\<rparr>)" by (rule v)
  have u2: "u_strip (dget_default (cs_texts ex_checked) ?k []) \<noteq> []" unfolding t by (rule u)
  have e2: "extract_ground_truth (dget_default (cs_texts ex_checked) ''market_report'' [])
      (dget_default (cs_texts ex_checked) ''company_of_interest'' []) = Inr ex_truth" unfolding t by (rule ex_extract)
  have "detect_errors (dget_default (dset ?k [22909] (cs_texts ex_checked)) ?k []) ex_truth = []"
    using report_checked [OF c t(2) u2 e2 p, of ?llm] by (simp add: t(2))
  moreover have "dget (dset ?k [22909] (cs_texts ex_checked)) ''market_report'' = Some [24403, 21069, 20215, 26684, 65306, 49, 48, 46, 48, 48]"
    by (simp add: ex_checked_def)
  ultimately show ?thesis by (intro exI [of _ "ex_checked\<lparr>cs_texts := dset ?k [22909] (cs_texts ex_checked)\<rparr>"]) (simp add: v [simplified] dict_simps)
qed

end
