(* ===== verification/Conditions.thy ===== *)
theory Conditions
  imports SignalProcessing "HOL-Library.Product_Lexorder"
begin

text \<open>
  Screening by conditions. The conditions of a request and the fields (\<open>app/models/screening.py\<close>), the
  old form of the request (\<open>app/routers/screening.py\<close>), the choice between the database and the
  frames of the data sources (\<open>app/services/enhanced_screening_service.py\<close> and its utilities), the
  query for MongoDB (\<open>app/services/database_screening_service.py\<close>) and the evaluation on frames
  (\<open>app/services/screening_service.py\<close>, \<open>app/services/screening/eval_utils.py\<close>).

  The values of a request are JSON values; its numbers are finite.
\<close>

section \<open>Fields and conditions\<close>

datatype field_type = Basic | Technical | Fundamental

datatype data_type = StringData | NumberData

record field_info =
  fi_type :: field_type
  fi_data :: data_type
  fi_ops :: "ustr list"

definition op_texts :: "string list \<Rightarrow> ustr list" where "op_texts = map ustr_of"

definition number_ops :: "ustr list" where
  "number_ops = op_texts [''>'', ''<'', ''>='', ''<='', ''between'']"

definition number_field :: "string \<Rightarrow> field_type \<Rightarrow> ustr \<times> field_info" where
  "number_field n t = (ustr_of n, \<lparr>fi_type = t, fi_data = NumberData, fi_ops = number_ops\<rparr>)"

definition text_field :: "string \<Rightarrow> string list \<Rightarrow> ustr \<times> field_info" where
  "text_field n ops = (ustr_of n, \<lparr>fi_type = Basic, fi_data = StringData, fi_ops = op_texts ops\<rparr>)"

definition info_fields :: "(ustr, field_info) dict" where
  "info_fields = [
     text_field ''symbol'' [''=='', ''!='', ''in'', ''not_in'', ''contains''],
     text_field ''code'' [''=='', ''!='', ''in'', ''not_in'', ''contains''],
     text_field ''name'' [''contains'', ''=='', ''!=''],
     text_field ''industry'' [''=='', ''!='', ''in'', ''not_in'', ''contains''],
     text_field ''area'' [''=='', ''!='', ''in'', ''not_in''],
     text_field ''market'' [''=='', ''!='', ''in'', ''not_in'']]"

definition value_fields :: "(ustr, field_info) dict" where
  "value_fields = [
     number_field ''total_mv'' Fundamental, number_field ''circ_mv'' Fundamental,
     number_field ''pe'' Fundamental, number_field ''pb'' Fundamental,
     number_field ''pe_ttm'' Fundamental, number_field ''pb_mrq'' Fundamental, number_field ''roe'' Fundamental]"

definition trading_fields :: "(ustr, field_info) dict" where
  "trading_fields = [
     number_field ''turnover_rate'' Technical, number_field ''volume_ratio'' Technical,
     number_field ''close'' Fundamental, number_field ''pct_chg'' Fundamental,
     number_field ''amount'' Fundamental, number_field ''volume'' Fundamental]"

definition technical_fields :: "(ustr, field_info) dict" where
  "technical_fields = [
     number_field ''ma20'' Technical, number_field ''rsi14'' Technical,
     number_field ''kdj_k'' Technical, number_field ''kdj_d'' Technical, number_field ''kdj_j'' Technical,
     number_field ''dif'' Technical, number_field ''dea'' Technical, number_field ''macd_hist'' Technical]"

definition basic_fields_info :: "(ustr, field_info) dict" where
  "basic_fields_info = info_fields @ value_fields @ trading_fields @ technical_fields"

definition operator_types :: "ustr list" where
  "operator_types = op_texts [''>'', ''<'', ''>='', ''<='', ''=='', ''!='', ''between'', ''in'', ''not_in'', ''contains'',
     ''cross_up'', ''cross_down'']"

record condition =
  sc_field :: ustr
  sc_op :: ustr
  sc_value :: json

text \<open>What the model of a condition accepts: numbers (a bool is one), texts, and lists of these.\<close>

definition scalar_value :: "json \<Rightarrow> json option" where
  "scalar_value v = (case v of JBool b \<Rightarrow> Some (JFloat (Fin (if b then 1 else 0))) | JInt i \<Rightarrow> Some v | JFloat x \<Rightarrow> Some v
     | JStr s \<Rightarrow> Some v | _ \<Rightarrow> None)"

definition condition_value :: "json \<Rightarrow> json option" where
  "condition_value v = (case v of JList l \<Rightarrow> map_option JList (those (map scalar_value l)) | _ \<Rightarrow> scalar_value v)"

definition make_condition :: "json \<Rightarrow> json \<Rightarrow> json \<Rightarrow> (string, condition) result" where
  "make_condition f op v = (case (f, op, condition_value v) of
     (JStr f, JStr op, Some v) \<Rightarrow> if op \<in> set operator_types then Inr \<lparr>sc_field = f, sc_op = op, sc_value = v\<rparr> else Inl ''ValidationError''
   | _ \<Rightarrow> Inl ''ValidationError'')"

section \<open>Validation\<close>

datatype condition_error = UnknownField | UnknownOperator | NotTwoValues | NotNumbers | NotNumber

definition is_number :: "json \<Rightarrow> bool" where
  "is_number v = (case v of JInt i \<Rightarrow> True | JFloat x \<Rightarrow> True | JBool b \<Rightarrow> True | _ \<Rightarrow> False)"

definition op_between :: ustr where "op_between = ustr_of ''between''"

definition value_errors :: "condition \<Rightarrow> condition_error list" where
  "value_errors c = (if sc_op c = op_between then
       (case sc_value c of JList l \<Rightarrow> if length l \<noteq> 2 then [NotTwoValues] else if \<not> list_all is_number l then [NotNumbers] else []
        | _ \<Rightarrow> [NotTwoValues])
     else if is_number (sc_value c) then [] else [NotNumber])"

definition condition_errors :: "condition \<Rightarrow> condition_error list" where
  "condition_errors c = (case dget basic_fields_info (sc_field c) of None \<Rightarrow> [UnknownField]
     | Some fi \<Rightarrow> (if sc_op c \<in> set (fi_ops fi) then [] else [UnknownOperator])
         @ (if fi_data fi = NumberData then value_errors c else []))"

text \<open>The errors with the number of their condition; valid when there is none.\<close>

definition validate_conditions :: "condition list \<Rightarrow> bool \<times> (nat \<times> condition_error) list" where
  "validate_conditions cs = (let errs = concat (map (\<lambda>(i, c). map (\<lambda>e. (i + 1, e)) (condition_errors c)) (enumerate 0 cs)) in
     (errs = [], errs))"

section \<open>The old form of a request\<close>

definition field_mapping :: "(ustr, ustr) dict" where
  "field_mapping = map (\<lambda>(a, b). (ustr_of a, ustr_of b)) [(''market_cap'', ''total_mv''), (''pe_ratio'', ''pe''), (''pb_ratio'', ''pb''),
     (''turnover'', ''turnover_rate''), (''change_percent'', ''pct_chg''), (''price'', ''close'')]"

definition operator_mapping :: "(ustr, ustr) dict" where
  "operator_mapping = map (\<lambda>(a, b). (ustr_of a, ustr_of b)) [(''between'', ''between''), (''gt'', ''>''), (''lt'', ''<''), (''gte'', ''>=''),
     (''lte'', ''<=''), (''eq'', ''==''), (''ne'', ''!=''), (''in'', ''in''), (''contains'', ''contains'')]"

definition mapped :: "(ustr, ustr) dict \<Rightarrow> json \<Rightarrow> (string, json) result" where
  "mapped d v = (case v of JStr s \<Rightarrow> Inr (JStr (dget_default d s s)) | JList l \<Rightarrow> Inl ''TypeError'' | JObj o' \<Rightarrow> Inl ''TypeError'' | _ \<Rightarrow> Inr v)"

text \<open>\<open>v / 10000\<close> of a number; an int whose quotient is too large raises an OverflowError.\<close>

definition per_10000 :: "json \<Rightarrow> (string, json) result" where
  "per_10000 v = (case v of
     JInt i \<Rightarrow> (case to_fval (of_int i / 10000) of Fin x \<Rightarrow> Inr (JFloat (Fin x)) | NonFin \<Rightarrow> Inl ''OverflowError'')
   | JFloat (Fin x) \<Rightarrow> Inr (JFloat (Fin (fdiv x 10000)))
   | JBool b \<Rightarrow> Inr (JFloat (Fin (fdiv (if b then 1 else 0) 10000)))
   | _ \<Rightarrow> Inr v)"

fun collect_values :: "(json \<Rightarrow> (string, json) result) \<Rightarrow> json list \<Rightarrow> (string, json list) result" where
  "collect_values f [] = Inr []"
| "collect_values f (v # vs) = (case f v of Inl e \<Rightarrow> Inl e | Inr x \<Rightarrow> (case collect_values f vs of Inl e \<Rightarrow> Inl e | Inr xs \<Rightarrow> Inr (x # xs)))"

definition converted_value :: "json \<Rightarrow> json \<Rightarrow> (string, json) result" where
  "converted_value f v = (if f \<noteq> JStr (ustr_of ''total_mv'') then Inr v
     else (case v of JList l \<Rightarrow> (case collect_values per_10000 (filter is_number l) of Inl e \<Rightarrow> Inl e | Inr xs \<Rightarrow> Inr (JList xs))
       | _ \<Rightarrow> if is_number v then per_10000 v else Inr v))"

definition child_condition :: "(ustr, json) dict \<Rightarrow> (string, condition option) result" where
  "child_condition d = (let f = dget_default d (ustr_of ''field'') JNull; op = dget_default d (ustr_of ''op'') JNull;
       v = dget_default d (ustr_of ''value'') JNull in
     if \<not> truthy f \<or> \<not> truthy op \<or> v = JNull then Inr None
     else (case mapped field_mapping f of Inl e \<Rightarrow> Inl e | Inr f2 \<Rightarrow>
       (case mapped operator_mapping op of Inl e \<Rightarrow> Inl e | Inr op2 \<Rightarrow>
       (case converted_value f2 v of Inl e \<Rightarrow> Inl e | Inr v2 \<Rightarrow>
       (case make_condition f2 op2 v2 of Inl e \<Rightarrow> Inl e | Inr c \<Rightarrow> Inr (Some c))))))"

fun children_conditions :: "json list \<Rightarrow> (string, condition list) result" where
  "children_conditions [] = Inr []"
| "children_conditions (JObj d # vs) = (case child_condition d of Inl e \<Rightarrow> Inl e | Inr x \<Rightarrow>
     (case children_conditions vs of Inl e \<Rightarrow> Inl e | Inr cs \<Rightarrow> Inr ((case x of Some c \<Rightarrow> [c] | None \<Rightarrow> []) @ cs)))"
| "children_conditions (v # vs) = children_conditions vs"

text \<open>What the iteration over a value yields; the members of a text and a dictionary are texts.\<close>

definition items_of :: "json \<Rightarrow> (string, json list) result" where
  "items_of v = (case v of JList l \<Rightarrow> Inr l | JStr s \<Rightarrow> Inr (map (\<lambda>c. JStr [c]) s) | JObj d \<Rightarrow> Inr (map (\<lambda>kv. JStr (fst kv)) d)
     | _ \<Rightarrow> Inl ''TypeError'')"

definition convert_legacy :: "(ustr, json) dict \<Rightarrow> (string, condition list) result" where
  "convert_legacy d = (case items_of (dget_default d (ustr_of ''children'') (JList [])) of Inl e \<Rightarrow> Inl e | Inr vs \<Rightarrow> children_conditions vs)"

section \<open>The choice of the method\<close>

record analysis =
  an_total :: nat
  an_supported :: nat
  an_technical :: nat
  an_fundamental :: nat
  an_basic :: nat
  an_database :: bool
  an_needs_technical :: bool
  an_unsupported :: "ustr list"
  an_types :: "field_type list"

definition analyze_step :: "condition \<Rightarrow> analysis \<Rightarrow> analysis" where
  "analyze_step c a = (case dget basic_fields_info (sc_field c) of
     Some fi \<Rightarrow> a\<lparr>an_basic := an_basic a + (if fi_type fi = Basic then 1 else 0),
       an_fundamental := an_fundamental a + (if fi_type fi = Fundamental then 1 else 0),
       an_technical := an_technical a + (if fi_type fi = Technical then 1 else 0),
       an_types := an_types a @ [fi_type fi], an_supported := an_supported a + 1\<rparr>
   | None \<Rightarrow> a\<lparr>an_database := False, an_needs_technical := True, an_unsupported := an_unsupported a @ [sc_field c]\<rparr>)"

definition analyze_conditions :: "condition list \<Rightarrow> analysis" where
  "analyze_conditions cs = (let a = fold analyze_step cs \<lparr>an_total = length cs, an_supported = 0, an_technical = 0, an_fundamental = 0,
       an_basic = 0, an_database = True, an_needs_technical = False, an_unsupported = [], an_types = []\<rparr> in
     a\<lparr>an_needs_technical := 0 < an_technical a \<or> an_needs_technical a\<rparr>)"

definition by_database :: "bool \<Rightarrow> condition list \<Rightarrow> bool" where
  "by_database optimize cs = (let a = analyze_conditions cs in optimize \<and> an_database a \<and> \<not> an_needs_technical a)"

section \<open>The query\<close>

definition db_fields :: "(ustr, ustr) dict" where
  "db_fields = map (\<lambda>(a, b). (ustr_of a, ustr_of b)) [(''code'', ''code''), (''name'', ''name''), (''industry'', ''industry''), (''area'', ''area''),
     (''market'', ''market''), (''list_date'', ''list_date''), (''total_mv'', ''total_mv''), (''circ_mv'', ''circ_mv''),
     (''market_cap'', ''total_mv''), (''pe'', ''pe''), (''pb'', ''pb''), (''pe_ttm'', ''pe_ttm''), (''pb_mrq'', ''pb_mrq''), (''roe'', ''roe''),
     (''turnover_rate'', ''turnover_rate''), (''volume_ratio'', ''volume_ratio''), (''pct_chg'', ''pct_chg''), (''amount'', ''amount''),
     (''close'', ''close''), (''volume'', ''volume'')]"

definition mongo_ops :: "(ustr, string) dict" where
  "mongo_ops = map (\<lambda>(a, b). (ustr_of a, b)) [(''>'', ''$gt''), (''<'', ''$lt''), (''>='', ''$gte''), (''<='', ''$lte''), (''=='', ''$eq''), (''!='', ''$ne''),
     (''between'', ''$between''), (''in'', ''$in''), (''not_in'', ''$nin''), (''contains'', ''$regex'')]"

definition can_handle_conditions :: "condition list \<Rightarrow> bool" where
  "can_handle_conditions cs = list_all (\<lambda>c. dget db_fields (sc_field c) \<noteq> None \<and> dget mongo_ops (sc_op c) \<noteq> None) cs"

text \<open>The operators of one field; they hold together. \<open>show\<close> is the \<open>str\<close> of a value that is no text.\<close>

type_synonym field_query = "(string \<times> json) list"

definition op_contains :: ustr where "op_contains = ustr_of ''contains''"

definition field_query_of :: "(json \<Rightarrow> ustr) \<Rightarrow> condition \<Rightarrow> field_query option" where
  "field_query_of show c = (if sc_op c = op_between then
       (case sc_value c of JList [lo, hi] \<Rightarrow> Some [(''$gte'', lo), (''$lte'', hi)] | _ \<Rightarrow> None)
     else if sc_op c = op_contains then Some [(''$regex'', JStr (json_text show (sc_value c))), (''$options'', JStr [105])]
     else map_option (\<lambda>m. [(m, sc_value c)]) (dget mongo_ops (sc_op c)))"

definition query_part :: "(json \<Rightarrow> ustr) \<Rightarrow> condition \<Rightarrow> (ustr \<times> field_query) option" where
  "query_part show c = (case (dget db_fields (sc_field c), field_query_of show c) of (Some f, Some q) \<Rightarrow> Some (f, q) | _ \<Rightarrow> None)"

definition build_query :: "(json \<Rightarrow> ustr) \<Rightarrow> condition list \<Rightarrow> (ustr, field_query) dict" where
  "build_query show cs = fold (\<lambda>c q. case query_part show c of Some (f, fq) \<Rightarrow> dset f fq q | None \<Rightarrow> q) cs []"

record order =
  or_field :: ustr
  or_direction :: ustr

definition sort_direction :: "ustr \<Rightarrow> int" where "sort_direction d = (if u_lower d = ustr_of ''desc'' then -1 else 1)"

definition build_sort_conditions :: "order list \<Rightarrow> (ustr \<times> int) list" where
  "build_sort_conditions os = (if os = [] then [(ustr_of ''total_mv'', -1)]
     else List.map_filter (\<lambda>o'. map_option (\<lambda>f. (f, sort_direction (or_direction o'))) (dget db_fields (or_field o'))) os)"

text \<open>
  MongoDB: \<open>holds\<close> is the meaning of an operator with its argument for the value of a document, if it
  has the field, and \<open>sorted\<close> its sorting. The field \<open>source\<close> of a document is its data source.
\<close>

type_synonym document = "(ustr, json) dict"

record database =
  db_holds :: "string \<Rightarrow> json \<Rightarrow> json option \<Rightarrow> bool"
  db_sorted :: "(ustr \<times> int) list \<Rightarrow> document list \<Rightarrow> document list"
  db_view :: "document list"
  db_roe :: "ustr \<Rightarrow> ustr \<Rightarrow> json option"

definition field_matches :: "database \<Rightarrow> field_query \<Rightarrow> json option \<Rightarrow> bool" where
  "field_matches db fq v = list_all (\<lambda>(op, x). db_holds db op x v) fq"

definition matches :: "database \<Rightarrow> (ustr, field_query) dict \<Rightarrow> document \<Rightarrow> bool" where
  "matches db q doc = list_all (\<lambda>(f, fq). field_matches db fq (dget doc f)) q"

text \<open>The first enabled source of the three, in the order of the configuration.\<close>

definition local_sources :: "ustr list" where "local_sources = map ustr_of [''tushare'', ''akshare'', ''baostock'']"

definition preferred_source :: "(ustr \<times> bool) list \<Rightarrow> ustr" where
  "preferred_source cfg = (case filter (\<lambda>s. s \<in> set local_sources) (map (\<lambda>c. u_lower (fst c)) (filter snd cfg)) of
     s # _ \<Rightarrow> s | [] \<Rightarrow> ustr_of ''tushare'')"

definition result_fields :: "(string \<times> string) list" where
  "result_fields = [(''code'', ''code''), (''name'', ''name''), (''industry'', ''industry''), (''area'', ''area''), (''board'', ''market''),
     (''exchange'', ''sse''), (''list_date'', ''list_date''), (''total_mv'', ''total_mv''), (''circ_mv'', ''circ_mv''), (''pe'', ''pe''), (''pb'', ''pb''),
     (''pe_ttm'', ''pe_ttm''), (''pb_mrq'', ''pb_mrq''), (''roe'', ''roe''), (''turnover_rate'', ''turnover_rate''), (''volume_ratio'', ''volume_ratio''),
     (''close'', ''close''), (''pct_chg'', ''pct_chg''), (''amount'', ''amount''), (''volume'', ''volume''), (''open'', ''open''), (''high'', ''high''),
     (''low'', ''low''), (''updated_at'', ''updated_at'')]"

text \<open>The market of a result is always the same; \<open>None\<close> values are left out. The order of the keys is not kept.\<close>

definition present :: "document \<Rightarrow> ustr \<Rightarrow> json option" where
  "present doc f = (case dget doc f of Some JNull \<Rightarrow> None | x \<Rightarrow> x)"

definition format_result :: "document \<Rightarrow> document" where
  "format_result doc = List.map_filter (\<lambda>(k, f). map_option (Pair (ustr_of k)) (present doc (ustr_of f))) result_fields
     @ [(ustr_of ''market'', JStr [65, 32929])]
     @ (case dget doc (ustr_of ''source'') of None \<Rightarrow> [(ustr_of ''source'', JStr (ustr_of ''database''))] | Some JNull \<Rightarrow> []
        | Some s \<Rightarrow> [(ustr_of ''source'', s)])"

text \<open>The return on equity of the latest report, where the view has none.\<close>

definition enrich_roe :: "database \<Rightarrow> ustr \<Rightarrow> document \<Rightarrow> document" where
  "enrich_roe db source r = (case (dget r (ustr_of ''roe''), dget r (ustr_of ''code'')) of
     (None, Some (JStr c)) \<Rightarrow> (case db_roe db source c of Some v \<Rightarrow> dset (ustr_of ''roe'') v r | None \<Rightarrow> r)
   | _ \<Rightarrow> r)"

definition found_documents :: "database \<Rightarrow> (json \<Rightarrow> ustr) \<Rightarrow> ustr \<Rightarrow> condition list \<Rightarrow> document list" where
  "found_documents db show source cs = filter (matches db (dset (ustr_of ''source'') [(''$eq'', JStr source)] (build_query show cs))) (db_view db)"

text \<open>\<open>skip\<close> and \<open>limit\<close> of a cursor; a limit of 0 is none.\<close>

definition page :: "nat \<Rightarrow> nat \<Rightarrow> 'a list \<Rightarrow> 'a list" where
  "page limit offset xs = (if limit = 0 then drop offset xs else take limit (drop offset xs))"

definition screen_database :: "database \<Rightarrow> (json \<Rightarrow> ustr) \<Rightarrow> (ustr \<times> bool) list \<Rightarrow> condition list \<Rightarrow> nat \<Rightarrow> nat \<Rightarrow> order list
    \<Rightarrow> document list \<times> nat" where
  "screen_database db show cfg cs limit offset os = (let source = preferred_source cfg;
     found = found_documents db show source cs; sorts = build_sort_conditions os in
     (map (enrich_roe db source \<circ> format_result) (page limit offset (if sorts = [] then found else db_sorted db sorts found)), length found))"

end
