(* ===== verification/ConditionRun.thy ===== *)
theory ConditionRun
  imports Conditions
begin

text \<open>
  The evaluation of conditions on the frames of the data sources, and what the enhanced service hands
  to it. A frame is its rows, a row its cells by column name. A cell is missing with its column, not
  a number, or a finite number. The frames with and without indicators, the snapshots of the
  fundamental data and the list of stocks are parameters.
\<close>

section \<open>Conditions as a tree\<close>

definition key :: "string \<Rightarrow> ustr" where "key = ustr_of"

definition allowed_fields :: "ustr list" where
  "allowed_fields = map ustr_of [''open'', ''high'', ''low'', ''close'', ''vol'', ''amount'', ''pct_chg'', ''ma5'', ''ma10'', ''ma20'', ''ma60'',
     ''ema12'', ''ema26'', ''dif'', ''dea'', ''macd_hist'', ''rsi14'', ''boll_mid'', ''boll_upper'', ''boll_lower'', ''atr14'',
     ''kdj_k'', ''kdj_d'', ''kdj_j'', ''pe'', ''pb'', ''roe'', ''market_cap'']"

definition base_fields :: "ustr list" where
  "base_fields = map ustr_of [''open'', ''high'', ''low'', ''close'', ''vol'', ''amount'', ''pct_chg'']"

definition tech_fields :: "ustr list" where
  "tech_fields = map ustr_of [''ma5'', ''ma10'', ''ma20'', ''ma60'', ''ema12'', ''ema26'', ''dif'', ''dea'', ''macd_hist'', ''rsi14'',
     ''boll_mid'', ''boll_upper'', ''boll_lower'', ''atr14'', ''kdj_k'', ''kdj_d'', ''kdj_j'']"

definition fund_fields :: "ustr list" where
  "fund_fields = map ustr_of [''pe'', ''pb'', ''roe'', ''market_cap'']"

definition allowed_ops :: "ustr list" where
  "allowed_ops = op_texts [''>'', ''<'', ''>='', ''<='', ''=='', ''!='', ''between'', ''cross_up'', ''cross_down'']"

definition is_group :: "(ustr, json) dict \<Rightarrow> bool" where
  "is_group d \<longleftrightarrow> dget d (key ''op'') = Some (JStr (key ''group'')) \<or> dget d (key ''children'') \<noteq> None"

definition children_of :: "(ustr, json) dict \<Rightarrow> (string, json list) result" where
  "children_of d = items_of (dget_default d (key ''children'') (JList []))"

text \<open>\<open>logic\<close>: the upper case of a text, AND when it is empty; \<open>upper\<close> matters only for ASCII letters.\<close>

definition logic_of :: "(ustr, json) dict \<Rightarrow> (string, ustr) result" where
  "logic_of d = (let v = dget_default d (key ''logic'') JNull in
     if \<not> truthy v then Inr (key ''AND'') else (case v of JStr s \<Rightarrow> Inr (ascii_upper s) | _ \<Rightarrow> Inl ''AttributeError''))"

text \<open>The nesting of a request is bounded by its size, so that is fuel enough.\<close>

fun json_depth :: "json \<Rightarrow> nat" where
  "json_depth (JList l) = Suc (fold max (map json_depth l) 0)"
| "json_depth (JObj d) = Suc (fold max (map (json_depth \<circ> snd) d) 0)"
| "json_depth _ = 0"

fun remove_dups :: "'a list \<Rightarrow> 'a list" where
  "remove_dups [] = []"
| "remove_dups (x # xs) = x # filter (\<lambda>y. y \<noteq> x) (remove_dups xs)"

fun collect_fields :: "nat \<Rightarrow> json \<Rightarrow> (string, ustr list) result" where
  "collect_fields n v = (if \<not> truthy v then Inr [] else (case v of
     JObj d \<Rightarrow>
       if is_group d then (case n of 0 \<Rightarrow> Inr [] | Suc m \<Rightarrow>
         (case children_of d of Inl e \<Rightarrow> Inl e | Inr cs \<Rightarrow>
           (case fold (\<lambda>c acc. case acc of Inl e \<Rightarrow> Inl e | Inr fs \<Rightarrow> (case collect_fields m c of Inl e \<Rightarrow> Inl e | Inr gs \<Rightarrow> Inr (fs @ gs))) cs (Inr []) of
             Inl e \<Rightarrow> Inl e | Inr fs \<Rightarrow> Inr (remove_dups fs))))
       else Inr (List.map_filter (\<lambda>k. case dget d k of Some (JStr f) \<Rightarrow> if f \<in> set allowed_fields then Some f else None | _ \<Rightarrow> None)
         [key ''field'', key ''right_field''])
   | _ \<Rightarrow> Inl ''AttributeError''))"

section \<open>Comparisons\<close>

datatype cell = NoColumn | NaN | Num pyfloat

type_synonym data_row = "ustr \<Rightarrow> cell"

definition cell_num :: "cell \<Rightarrow> pyfloat option" where
  "cell_num c = (case c of Num x \<Rightarrow> Some x | _ \<Rightarrow> None)"

text \<open>
  The right side: a cell of the row, or a value of the condition. A missing column raises a TypeError,
  which is caught; with a NaN only the inequality holds.
\<close>

datatype right_side = RightCell cell | RightValue json

definition right_num :: "right_side \<Rightarrow> cell" where
  "right_num r = (case r of RightCell c \<Rightarrow> c
     | RightValue v \<Rightarrow> (case float_of_json v of Some (Fin x) \<Rightarrow> Num x | _ \<Rightarrow> NoColumn))"

definition compare_op :: "ustr \<Rightarrow> pyfloat \<Rightarrow> pyfloat \<Rightarrow> bool" where
  "compare_op op x y = (if op = ustr_of ''>'' then y < x else if op = ustr_of ''<'' then x < y
     else if op = ustr_of ''>='' then y \<le> x else if op = ustr_of ''<='' then x \<le> y
     else if op = ustr_of ''=='' then x = y else op = ustr_of ''!='' \<and> x \<noteq> y)"

definition between_values :: "right_side \<Rightarrow> (pyfloat \<times> pyfloat) option" where
  "between_values r = (case r of RightValue (JList [lo, hi]) \<Rightarrow>
       (case (float_of_json lo, float_of_json hi) of (Some (Fin x), Some (Fin y)) \<Rightarrow> Some (x, y) | _ \<Rightarrow> None)
   | _ \<Rightarrow> None)"

definition compare :: "ustr \<Rightarrow> pyfloat \<Rightarrow> right_side \<Rightarrow> bool" where
  "compare op left r = (if op = op_between then (case between_values r of Some (lo, hi) \<Rightarrow> lo \<le> left \<and> left \<le> hi | None \<Rightarrow> False)
     else (case right_num r of Num y \<Rightarrow> compare_op op left y | NaN \<Rightarrow> op = ustr_of ''!='' | NoColumn \<Rightarrow> False))"

section \<open>Evaluation on a frame\<close>

definition member_of :: "ustr list \<Rightarrow> json \<Rightarrow> (string, ustr option) result" where
  "member_of fs v = (case v of JStr s \<Rightarrow> Inr (if s \<in> set fs then Some s else None)
     | JList l \<Rightarrow> Inl ''TypeError'' | JObj d \<Rightarrow> Inl ''TypeError'' | _ \<Rightarrow> Inr None)"

definition crossing :: "bool \<Rightarrow> data_row \<Rightarrow> data_row \<Rightarrow> ustr \<Rightarrow> ustr \<Rightarrow> bool" where
  "crossing up t0 t1 f rf = (case (cell_num (t0 f), cell_num (t1 f), cell_num (t0 rf), cell_num (t1 rf)) of
     (Some a0, Some a1, Some b0, Some b1) \<Rightarrow> if up then a1 \<le> b1 \<and> b0 < a0 else b1 \<le> a1 \<and> a0 < b0
   | _ \<Rightarrow> False)"

text \<open>The rows, the latest first. \<open>right_field\<close> counts when it is true.\<close>

definition eval_leaf :: "data_row list \<Rightarrow> (ustr, json) dict \<Rightarrow> (string, bool) result" where
  "eval_leaf rows d = (case member_of allowed_fields (dget_default d (key ''field'') JNull) of Inl e \<Rightarrow> Inl e | Inr None \<Rightarrow> Inr False | Inr (Some f) \<Rightarrow>
     (case member_of allowed_ops (dget_default d (key ''op'') JNull) of Inl e \<Rightarrow> Inl e | Inr None \<Rightarrow> Inr False | Inr (Some op) \<Rightarrow>
     (let rv = dget_default d (key ''right_field'') JNull in
       if op = ustr_of ''cross_up'' \<or> op = ustr_of ''cross_down'' then
         (case member_of allowed_fields rv of Inl e \<Rightarrow> Inl e | Inr None \<Rightarrow> Inr False | Inr (Some rf) \<Rightarrow>
           (case rows of t0 # t1 # _ \<Rightarrow> Inr (crossing (op = ustr_of ''cross_up'') t0 t1 f rf) | _ \<Rightarrow> Inr False))
       else (case rows of [] \<Rightarrow> Inl ''IndexError'' | t0 # _ \<Rightarrow>
         (case cell_num (t0 f) of None \<Rightarrow> Inr False | Some left \<Rightarrow>
           if truthy rv then (case member_of allowed_fields rv of Inl e \<Rightarrow> Inl e | Inr None \<Rightarrow> Inr False
               | Inr (Some rf) \<Rightarrow> Inr (compare op left (RightCell (t0 rf))))
           else Inr (compare op left (RightValue (dget_default d (key ''value'') JNull))))))))"

fun all_results :: "('a \<Rightarrow> (string, bool) result) \<Rightarrow> 'a list \<Rightarrow> (string, bool list) result" where
  "all_results f [] = Inr []"
| "all_results f (x # xs) = (case f x of Inl e \<Rightarrow> Inl e | Inr b \<Rightarrow> (case all_results f xs of Inl e \<Rightarrow> Inl e | Inr bs \<Rightarrow> Inr (b # bs)))"

definition combine :: "ustr \<Rightarrow> bool list \<Rightarrow> bool" where
  "combine logic bs = (if logic = key ''OR'' then list_ex (\<lambda>b. b) bs else list_all (\<lambda>b. b) bs)"

fun evaluate_conditions :: "nat \<Rightarrow> data_row list \<Rightarrow> json \<Rightarrow> (string, bool) result" where
  "evaluate_conditions n rows v = (if \<not> truthy v then Inr True else (case v of
     JObj d \<Rightarrow>
       if is_group d then (case n of 0 \<Rightarrow> Inr False | Suc m \<Rightarrow>
         (case logic_of d of Inl e \<Rightarrow> Inl e | Inr logic \<Rightarrow>
         (case children_of d of Inl e \<Rightarrow> Inl e | Inr cs \<Rightarrow>
         (case all_results (evaluate_conditions m rows) cs of Inl e \<Rightarrow> Inl e | Inr bs \<Rightarrow> Inr (combine logic bs)))))
       else eval_leaf rows d
   | _ \<Rightarrow> Inl ''AttributeError''))"

declare collect_fields.simps [simp del] evaluate_conditions.simps [simp del]

section \<open>Evaluation on fundamental data\<close>

type_synonym snapshot = "ustr \<Rightarrow> pyfloat option"

definition snap_cell :: "snapshot \<Rightarrow> ustr \<Rightarrow> cell" where
  "snap_cell snap f = (case snap f of Some x \<Rightarrow> Num x | None \<Rightarrow> NoColumn)"

definition eval_fund_leaf :: "snapshot \<Rightarrow> (ustr, json) dict \<Rightarrow> (string, bool) result" where
  "eval_fund_leaf snap d = (case member_of fund_fields (dget_default d (key ''field'') JNull) of Inl e \<Rightarrow> Inl e | Inr None \<Rightarrow> Inr True | Inr (Some f) \<Rightarrow>
     (case snap f of None \<Rightarrow> Inr False | Some left \<Rightarrow>
       (let rv = dget_default d (key ''right_field'') JNull;
            right = (if \<not> truthy rv then Inr (RightValue (dget_default d (key ''value'') JNull))
              else (case rv of JStr rf \<Rightarrow> Inr (RightCell (snap_cell snap rf)) | JList l \<Rightarrow> Inl ''TypeError'' | JObj o' \<Rightarrow> Inl ''TypeError''
                | _ \<Rightarrow> Inr (RightCell NoColumn))) in
         (case right of Inl e \<Rightarrow> Inl e | Inr r \<Rightarrow>
           (case dget_default d (key ''op'') JNull of JStr op \<Rightarrow> Inr (compare op left r) | _ \<Rightarrow> Inr False)))))"

definition fund_combine :: "ustr \<Rightarrow> bool list \<Rightarrow> bool" where
  "fund_combine logic bs = (if logic = key ''AND'' then list_all (\<lambda>b. b) bs else list_ex (\<lambda>b. b) bs)"

fun evaluate_fund_conditions :: "nat \<Rightarrow> snapshot \<Rightarrow> json \<Rightarrow> (string, bool) result" where
  "evaluate_fund_conditions n snap v = (if \<not> truthy v then Inr True else (case v of
     JObj d \<Rightarrow>
       if is_group d then (case n of 0 \<Rightarrow> Inr False | Suc m \<Rightarrow>
         (case logic_of d of Inl e \<Rightarrow> Inl e | Inr logic \<Rightarrow>
         (case children_of d of Inl e \<Rightarrow> Inl e | Inr cs \<Rightarrow>
         (case all_results (evaluate_fund_conditions m snap) cs of Inl e \<Rightarrow> Inl e | Inr bs \<Rightarrow> Inr (fund_combine logic bs)))))
       else eval_fund_leaf snap d
   | _ \<Rightarrow> Inl ''AttributeError''))"

declare evaluate_fund_conditions.simps [simp del]

section \<open>The run\<close>

text \<open>A frame with the indicators or without; fetching it may raise. Rows are the latest first.\<close>

datatype daily_frame = DailyRaises | NoDaily | Daily "data_row list"

record market =
  mk_universe :: "ustr list"
  mk_frame :: "bool \<Rightarrow> ustr \<Rightarrow> daily_frame"
  mk_snapshot :: "ustr \<Rightarrow> snapshot option"

definition item_columns :: "string list" where
  "item_columns = [''ma20'', ''rsi14'', ''kdj_k'', ''kdj_d'', ''kdj_j'', ''dif'', ''dea'', ''macd_hist'']"

type_synonym item = "(ustr, pyfloat option) dict"

definition screened_item :: "bool \<Rightarrow> data_row option \<Rightarrow> item" where
  "screened_item tech last_row = (case last_row of None \<Rightarrow> []
     | Some r \<Rightarrow> map (\<lambda>c. (ustr_of c, cell_num (r (ustr_of c)))) [''close'', ''pct_chg'', ''amount'']
         @ map (\<lambda>c. (ustr_of c, if tech then cell_num (r (ustr_of c)) else None)) item_columns)"

text \<open>One stock: left out when anything raises, when there is no frame, or when the conditions fail.\<close>

definition run_stock :: "market \<Rightarrow> bool \<Rightarrow> bool \<Rightarrow> bool \<Rightarrow> json \<Rightarrow> ustr \<Rightarrow> (ustr \<times> item) option" where
  "run_stock mk base tech fund node code = (
     if base then (case mk_frame mk tech code of
         Daily (r # rs) \<Rightarrow> (case evaluate_conditions (json_depth node) (r # rs) node of
             Inr True \<Rightarrow> Some (code, screened_item tech (Some r)) | _ \<Rightarrow> None)
       | _ \<Rightarrow> None)
     else if fund then (case mk_snapshot mk code of None \<Rightarrow> None
       | Some s \<Rightarrow> (case evaluate_fund_conditions (json_depth node) s node of Inr True \<Rightarrow> Some (code, screened_item tech None) | _ \<Rightarrow> None))
     else Some (code, screened_item tech None))"

text \<open>Sorting by a field: the stocks without it last, or first when descending; equal ones keep their order.\<close>

definition item_sort_key :: "ustr \<Rightarrow> ustr \<times> item \<Rightarrow> bool \<times> rat" where
  "item_sort_key f x = (case dget (snd x) f of Some (Some v) \<Rightarrow> (False, v) | _ \<Rightarrow> (True, 0))"

definition sort_by_order :: "order \<Rightarrow> (ustr \<times> item) list \<Rightarrow> (ustr \<times> item) list" where
  "sort_by_order o' xs = (if or_field o' \<notin> set allowed_fields then xs
     else if u_lower (or_direction o') = ustr_of ''desc'' then rev (sort_key (item_sort_key (or_field o')) (rev xs))
     else sort_key (item_sort_key (or_field o')) xs)"

definition sample_size :: nat where "sample_size = 120"

definition screening_run :: "market \<Rightarrow> json \<Rightarrow> nat \<Rightarrow> nat \<Rightarrow> order list \<Rightarrow> (string, (ustr \<times> item) list \<times> nat) result" where
  "screening_run mk node limit offset os = (case collect_fields (json_depth node) node of Inl e \<Rightarrow> Inl e | Inr fs \<Rightarrow>
     (let needed = fs @ filter (\<lambda>f. f \<noteq> []) (map or_field os);
        tech = list_ex (\<lambda>f. f \<in> set tech_fields) needed;
        base = (list_ex (\<lambda>f. f \<in> set base_fields) needed \<or> tech);
        fund = list_ex (\<lambda>f. f \<in> set fund_fields) needed;
        results = List.map_filter (run_stock mk base tech fund node) (take sample_size (mk_universe mk));
        sorted = fold sort_by_order (rev os) results in
      Inr (take (if limit = 0 then 50 else limit) (drop offset sorted), length results)))"

section \<open>What the enhanced service hands on\<close>

definition traditional_value :: "condition \<Rightarrow> json" where
  "traditional_value c = (case (sc_op c = op_between, sc_value c) of
     (True, JList [lo, hi]) \<Rightarrow> JObj [(key ''min'', lo), (key ''max'', hi)]
   | _ \<Rightarrow> if sc_op c = ustr_of ''=='' then sc_value c else JObj [(sc_op c, sc_value c)])"

definition convert_conditions :: "condition list \<Rightarrow> json" where
  "convert_conditions cs = JObj (fold (\<lambda>c d. dset (sc_field c) (traditional_value c) d) cs [])"

definition screen_traditional :: "market \<Rightarrow> condition list \<Rightarrow> nat \<Rightarrow> nat \<Rightarrow> order list \<Rightarrow> (string, (ustr \<times> item) list \<times> nat) result" where
  "screen_traditional mk cs limit offset os = screening_run mk (convert_conditions cs) limit offset os"

end
