(* ===== verification/ConditionProofs.thy ===== *)
theory ConditionProofs
  imports ConditionRun
begin

text \<open>
  What screening by conditions does: which documents the query of the database finds, and what becomes
  of validated conditions on the way to the evaluation on frames.
\<close>

section \<open>The query\<close>

lemma map_filter_Cons: "List.map_filter g (x # xs) = (case g x of Some y \<Rightarrow> y # List.map_filter g xs | None \<Rightarrow> List.map_filter g xs)"
  by (simp add: List.map_filter_def split: option.split)

lemma map_filter_Nil: "List.map_filter g [] = []"
  by (simp add: List.map_filter_def)

lemma build_query_parts: "build_query sh cs = fold (\<lambda>(f, fq). dset f fq) (List.map_filter (query_part sh) cs) []"
proof -
  have "fold (\<lambda>c q. case query_part sh c of Some (f, fq) \<Rightarrow> dset f fq q | None \<Rightarrow> q) cs d
      = fold (\<lambda>(f, fq). dset f fq) (List.map_filter (query_part sh) cs) d" for d
  proof (induction cs arbitrary: d)
    case Nil
    then show ?case by (simp add: map_filter_Nil)
  next
    case (Cons c cs)
    then show ?case by (cases "query_part sh c") (auto simp: map_filter_Cons split_beta)
  qed
  then show ?thesis by (simp add: build_query_def)
qed

text \<open>The part of the last condition on a field.\<close>

definition last_part :: "(json \<Rightarrow> ustr) \<Rightarrow> condition list \<Rightarrow> ustr \<Rightarrow> field_query option" where
  "last_part sh cs = map_of (rev (List.map_filter (query_part sh) cs))"

lemma build_query_last: "dget (build_query sh cs) f = last_part sh cs f"
  using dget_fold_dset [of "List.map_filter (query_part sh) cs" "[]"]
  by (simp add: build_query_parts last_part_def case_prod_unfold)

lemma fold_dset_distinct: "distinct (dkeys d) \<Longrightarrow> distinct (dkeys (fold (\<lambda>(f, v). dset f v) ps d))"
  by (induction ps arbitrary: d) (auto simp: dict_simps)

lemma matches_dget: "distinct (dkeys q) \<Longrightarrow> matches db q doc \<longleftrightarrow> (\<forall>f fq. dget q f = Some fq \<longrightarrow> field_matches db fq (dget doc f))"
  by (auto simp: matches_def list_all_iff)

text \<open>
  What a document must fulfil: it is one of the source, and for every field of the database that a
  condition names it fulfils the last of the conditions on the field.
\<close>

definition wanted :: "database \<Rightarrow> (json \<Rightarrow> ustr) \<Rightarrow> ustr \<Rightarrow> condition list \<Rightarrow> document \<Rightarrow> bool" where
  "wanted db sh source cs doc \<longleftrightarrow> db_holds db ''$eq'' (JStr source) (dget doc (ustr_of ''source''))
     \<and> (\<forall>f fq. last_part sh cs f = Some fq \<longrightarrow> field_matches db fq (dget doc f))"

lemma part_fields: "query_part sh c = Some (f, fq) \<Longrightarrow> f \<in> set (map snd db_fields)"
  by (auto simp: query_part_def split: option.splits dest!: map_of_SomeD intro: rev_image_eqI)

lemma source_no_field: "ustr_of ''source'' \<notin> set (map snd db_fields)"
  by code_simp

lemma last_part_fields:
  assumes "last_part sh cs f = Some fq"
  shows "f \<in> set (map snd db_fields)"
proof -
  have "(f, fq) \<in> set (List.map_filter (query_part sh) cs)" using assms unfolding last_part_def by (auto dest: map_of_SomeD)
  then obtain c where "query_part sh c = Some (f, fq)" by (auto simp: List.map_filter_def)
  then show ?thesis by (rule part_fields)
qed

lemma query_wanted:
  "matches db (dset (ustr_of ''source'') [(''$eq'', JStr source)] (build_query sh cs)) doc \<longleftrightarrow> wanted db sh source cs doc"
proof -
  have "distinct (dkeys (dset (ustr_of ''source'') [(''$eq'', JStr source)] (build_query sh cs)))"
    by (intro distinct_dkeys_dset) (simp add: build_query_parts fold_dset_distinct)
  moreover have "last_part sh cs (ustr_of ''source'') = None"
    using last_part_fields source_no_field by (metis option.exhaust)
  ultimately show ?thesis
    by (subst matches_dget) (auto simp: wanted_def dget_dset build_query_last field_matches_def)
qed

lemma found_wanted: "found_documents db sh source cs = filter (wanted db sh source cs) (db_view db)"
  by (simp add: found_documents_def query_wanted cong: filter_cong)

lemma page_subset: "set (page limit offset xs) \<subseteq> set xs"
  by (auto simp: page_def dest: in_set_takeD in_set_dropD)

lemma page_length: "limit \<noteq> 0 \<Longrightarrow> length (page limit offset xs) = min limit (length xs - offset)"
  by (simp add: page_def)

text \<open>
  C13: Screening in the database counts exactly the documents of the preferred source that fulfil, for
  every field, the last condition given on it, and returns a page of them: as many as the limit
  allows, each the shown form of one of these documents.
\<close>

theorem database_screened:
  assumes "\<And>s ds. mset (db_sorted db s ds) = mset ds" "limit \<noteq> 0"
    "screen_database db sh cfg cs limit offset os = (docs, n)"
  shows "n = length (filter (wanted db sh (preferred_source cfg) cs) (db_view db)) \<and> length docs = min limit (n - offset)
    \<and> (\<forall>r \<in> set docs. \<exists>doc \<in> set (db_view db). wanted db sh (preferred_source cfg) cs doc
        \<and> r = enrich_roe db (preferred_source cfg) (format_result doc))"
proof -
  let ?found = "filter (wanted db sh (preferred_source cfg) cs) (db_view db)" and ?s = "build_sort_conditions os"
  let ?all = "if ?s = [] then ?found else db_sorted db ?s ?found"
  have d: "docs = map (enrich_roe db (preferred_source cfg) \<circ> format_result) (page limit offset ?all)" "n = length ?found"
    using assms(3) by (simp_all add: screen_database_def Let_def found_wanted)
  have m: "mset ?all = mset ?found" using assms(1) by simp
  have a: "set ?all = set ?found" "length ?all = length ?found"
    by (rule mset_eq_setD [OF m], rule mset_eq_length [OF m])
  have l: "length docs = min limit (n - offset)" unfolding d length_map page_length [OF assms(2)] a(2) ..
  have e: "\<exists>doc \<in> set (db_view db). wanted db sh (preferred_source cfg) cs doc \<and> r = enrich_roe db (preferred_source cfg) (format_result doc)"
    if r: "r \<in> set docs" for r
  proof -
    obtain doc where p: "doc \<in> set (page limit offset ?all)" "r = enrich_roe db (preferred_source cfg) (format_result doc)"
      using r unfolding d(1) set_map by (auto simp only: image_iff o_def)
    have "doc \<in> set ?found" using p(1) page_subset [of limit offset ?all] unfolding a(1) by (rule rev_subsetD)
    then show ?thesis using p(2) unfolding set_filter by blast
  qed
  show ?thesis using l e d(2) by blast
qed

text \<open>So an earlier condition on the same field has no effect.\<close>

lemma condition_overwritten:
  assumes "query_part sh c = Some (f, fq)" "query_part sh c2 = Some (f, fq2)"
  shows "wanted db sh source (cs @ c # ds @ c2 # es) doc \<longleftrightarrow> wanted db sh source (cs @ ds @ c2 # es) doc"
proof -
  have "last_part sh (cs @ c # ds @ c2 # es) = last_part sh (cs @ ds @ c2 # es)"
    using assms by (intro ext) (auto simp: last_part_def List.map_filter_def map_add_def split: option.split)
  then show ?thesis by (simp add: wanted_def)
qed

text \<open>A condition on the stock's symbol is valid, and the database is used for it, but it is not part of the query.\<close>

lemma symbol_dropped:
  assumes "sc_field c = ustr_of ''symbol''"
  shows "by_database True [c]" "query_part sh c = None"
proof -
  obtain fi where fi: "dget basic_fields_info (ustr_of ''symbol'') = Some fi" "fi_type fi = Basic"
    by (simp add: basic_fields_info_def info_fields_def text_field_def ustr_of_def)
  show "by_database True [c]" by (simp add: by_database_def analyze_conditions_def analyze_step_def assms fi Let_def)
  have "dget db_fields (ustr_of ''symbol'') = None" by code_simp
  then show "query_part sh c = None" by (simp add: query_part_def assms)
qed

text \<open>The old form of a request is always a conjunction: its \<open>logic\<close> is not read.\<close>

lemma logic_unread: "convert_legacy (dset (ustr_of ''logic'') v d) = convert_legacy d"
proof -
  have "ustr_of ''logic'' \<noteq> ustr_of ''children''" by code_simp
  then show ?thesis by (simp add: convert_legacy_def dget_default_dset)
qed

section \<open>Conditions on frames\<close>

text \<open>The depth of a request is fuel enough for its evaluation.\<close>

lemma fold_max_member: "x \<in> set xs \<or> (x :: nat) \<le> m \<Longrightarrow> x \<le> fold max xs m"
proof (induction xs arbitrary: m)
  case (Cons y ys)
  have "x \<in> set ys \<or> x \<le> max y m" using Cons.prems unfolding le_max_iff_disj by auto
  then show ?case using Cons.IH [of "max y m"] by simp
qed simp

lemma child_depth:
  assumes "children_of d = Inr cs" "c \<in> set cs"
  shows "json_depth c < json_depth (JObj d)"
proof (cases "dget d (key ''children'')")
  case None
  then show ?thesis using assms by (simp add: children_of_def dget_default_def items_of_def)
next
  case (Some v)
  then have "v \<in> snd ` set d" by (auto dest: map_of_SomeD intro: rev_image_eqI)
  then have "json_depth v \<le> fold max (map (json_depth \<circ> snd) d) 0" by (intro fold_max_member) auto
  moreover have "json_depth c \<le> json_depth v"
  proof -
    have i: "items_of v = Inr cs" using assms(1) Some by (simp add: children_of_def dget_default_def)
    have "(\<exists>l. v = JList l \<and> c \<in> set l) \<or> (\<exists>s. c = JStr s)"
      using i assms(2) by (cases v) (auto simp: items_of_def)
    then show ?thesis
    proof
      assume "\<exists>l. v = JList l \<and> c \<in> set l"
      then obtain l where l: "v = JList l" "c \<in> set l" by blast
      have "json_depth c \<le> fold max (map json_depth l) 0" using l(2) by (intro fold_max_member) simp
      then show ?thesis unfolding l(1) by simp
    qed auto
  qed
  ultimately show ?thesis by simp
qed

lemma all_results_cong: "(\<And>x. x \<in> set xs \<Longrightarrow> f x = g x) \<Longrightarrow> all_results f xs = all_results g xs"
  by (induction xs) (auto split: sum.split)

lemma evaluate_any_fuel: "json_depth v \<le> n \<Longrightarrow> json_depth v \<le> m \<Longrightarrow> evaluate_conditions n rows v = evaluate_conditions m rows v"
proof (induction n arbitrary: v m)
  case 0
  show ?case by (cases v; use 0 in \<open>subst (1 2) evaluate_conditions.simps\<close>) simp_all
next
  case (Suc n)
  show ?case
  proof (cases "\<exists>d. v = JObj d")
    case True
    then obtain d k where d: "v = JObj d" "m = Suc k" using Suc.prems(2) by (cases m) auto
    have "all_results (evaluate_conditions n rows) cs = all_results (evaluate_conditions k rows) cs" if "children_of d = Inr cs" for cs
    proof (rule all_results_cong)
      fix c assume "c \<in> set cs"
      from child_depth [OF that this] have "json_depth c \<le> n" "json_depth c \<le> k" using Suc.prems d by simp_all
      then show "evaluate_conditions n rows c = evaluate_conditions k rows c" by (rule Suc.IH)
    qed
    then show ?thesis unfolding d by (subst (1 2) evaluate_conditions.simps) (auto split: sum.split)
  next
    case False
    then show ?thesis by (cases v; subst (1 2) evaluate_conditions.simps) simp_all
  qed
qed

lemma validated_fields: "fst (validate_conditions cs) \<Longrightarrow> c \<in> set cs \<Longrightarrow> sc_field c \<in> set (dkeys basic_fields_info)"
proof -
  assume v: "fst (validate_conditions cs)" and c: "c \<in> set cs"
  obtain i where i: "i < length cs" "cs ! i = c" using c by (auto simp: in_set_conv_nth)
  then have "(i, c) \<in> set (enumerate 0 cs)" by (force simp: enumerate_eq_zip set_zip)
  then have "condition_errors c = []" using v by (fastforce simp: validate_conditions_def Let_def)
  then have "dget basic_fields_info (sc_field c) \<noteq> None" by (cases "dget basic_fields_info (sc_field c)") (auto simp: condition_errors_def)
  then show ?thesis unfolding dget_None_iff by simp
qed

lemma no_field_words: "key ''op'' \<notin> set (dkeys basic_fields_info)" "key ''children'' \<notin> set (dkeys basic_fields_info)"
  "key ''field'' \<notin> set (dkeys basic_fields_info)" "key ''right_field'' \<notin> set (dkeys basic_fields_info)"
  by code_simp+

lemma dkeys_fold_dset: "set (dkeys (fold (\<lambda>c d. dset (g c) (h c) d) cs d)) = set (dkeys d) \<union> g ` set cs"
proof (induction cs arbitrary: d)
  case Nil
  then show ?case by simp
next
  case (Cons c cs)
  then show ?case by (simp add: dkeys_dset_set del: set_map)
qed

lemma converted:
  assumes "fst (validate_conditions cs)" "cs \<noteq> []"
  obtains d where "convert_conditions cs = JObj d" "d \<noteq> []" "dget d (key ''op'') = None" "dget d (key ''children'') = None"
    "dget d (key ''field'') = None" "dget d (key ''right_field'') = None"
proof -
  let ?d = "fold (\<lambda>c d. dset (sc_field c) (traditional_value c) d) cs []"
  have k: "set (dkeys ?d) = sc_field ` set cs" by (subst dkeys_fold_dset) simp
  have n: "?d \<noteq> []"
  proof
    assume "?d = []"
    then have "sc_field ` set cs = {}" using k by simp
    then show False using assms(2) by simp
  qed
  have s: "set (dkeys ?d) \<subseteq> set (dkeys basic_fields_info)"
    unfolding k using validated_fields [OF assms(1)] by (rule image_subsetI)
  have o: "dget ?d x = None" if "x \<notin> set (dkeys basic_fields_info)" for x
    using s that unfolding dget_None_iff by (rule contra_subsetD)
  show ?thesis
    by (rule that [of ?d]) (simp_all add: convert_conditions_def n o no_field_words del: set_map)
qed

lemma converted_unread:
  assumes "fst (validate_conditions cs)" "cs \<noteq> []"
  shows "collect_fields n (convert_conditions cs) = Inr []" "evaluate_conditions n rows (convert_conditions cs) = Inr False"
    "evaluate_fund_conditions n snap (convert_conditions cs) = Inr True"
proof -
  obtain d where d: "convert_conditions cs = JObj d" "d \<noteq> []" "dget d (key ''op'') = None" "dget d (key ''children'') = None"
      "dget d (key ''field'') = None" "dget d (key ''right_field'') = None"
    using converted [OF assms] by blast
  have g: "truthy (JObj d)" "\<not> is_group d" using d by (simp_all add: is_group_def truthy_def)
  show "collect_fields n (convert_conditions cs) = Inr []"
    unfolding d(1) by (subst collect_fields.simps) (simp add: g d map_filter_Cons map_filter_Nil)
  show "evaluate_conditions n rows (convert_conditions cs) = Inr False"
    unfolding d(1) by (subst evaluate_conditions.simps) (simp add: g d eval_leaf_def dget_default_def member_of_def)
  show "evaluate_fund_conditions n snap (convert_conditions cs) = Inr True"
    unfolding d(1) by (subst evaluate_fund_conditions.simps) (simp add: g d eval_fund_leaf_def dget_default_def member_of_def)
qed

text \<open>
  C14: On frames validated conditions decide nothing: with no order every one of the first stocks is
  found, with the fundamental fields of an order every one that has fundamental data, and with a field
  of the frames in the order none.
\<close>

theorem conditions_decide_nothing:
  assumes "fst (validate_conditions cs)" "cs \<noteq> []"
  shows "screen_traditional mk cs limit offset os =
    (let stocks = take sample_size (mk_universe mk); fs = filter (\<lambda>f. f \<noteq> []) (map or_field os);
       results = (if list_ex (\<lambda>f. f \<in> set base_fields \<or> f \<in> set tech_fields) fs then []
         else map (\<lambda>code. (code, [])) (if list_ex (\<lambda>f. f \<in> set fund_fields) fs then filter (\<lambda>code. mk_snapshot mk code \<noteq> None) stocks else stocks)) in
     Inr (take (if limit = 0 then 50 else limit) (drop offset (fold sort_by_order (rev os) results)), length results))"
proof -
  let ?fs = "filter (\<lambda>f. f \<noteq> []) (map or_field os)" and ?node = "convert_conditions cs"
  let ?tech = "list_ex (\<lambda>f. f \<in> set tech_fields) ?fs" and ?fund = "list_ex (\<lambda>f. f \<in> set fund_fields) ?fs"
  have r: "run_stock mk True tech fund ?node code = None" for tech fund code
    by (simp add: run_stock_def converted_unread [OF assms] split: daily_frame.split list.split)
  have s: "run_stock mk False tech True ?node code = (if mk_snapshot mk code = None then None else Some (code, []))" for tech code
    by (simp add: run_stock_def converted_unread [OF assms] screened_item_def split: option.split)
  have u: "run_stock mk False tech False ?node code = Some (code, [])" for tech code
    by (simp add: run_stock_def screened_item_def)
  have m: "List.map_filter (run_stock mk True tech fund ?node) xs = []"
    "List.map_filter (run_stock mk False tech True ?node) xs = map (\<lambda>code. (code, [])) (filter (\<lambda>code. mk_snapshot mk code \<noteq> None) xs)"
    "List.map_filter (run_stock mk False tech False ?node) xs = map (\<lambda>code. (code, [])) xs" for tech fund xs
    by (induction xs) (simp_all add: map_filter_Nil map_filter_Cons r s u)
  have l: "list_ex (\<lambda>f. f \<in> set base_fields \<or> f \<in> set tech_fields) ?fs \<longleftrightarrow> list_ex (\<lambda>f. f \<in> set base_fields) ?fs \<or> ?tech"
    by (auto simp: list_ex_iff)
  show ?thesis
    unfolding screen_traditional_def screening_run_def converted_unread(1) [OF assms] Let_def sum.case append_Nil l
    by (cases "list_ex (\<lambda>f. f \<in> set base_fields) ?fs \<or> ?tech"; cases ?fund) (simp_all only: m if_True if_False)
qed

definition ex_conditions :: "condition list" where
  "ex_conditions = [\<lparr>sc_field = ustr_of ''pe'', sc_op = ustr_of ''>'', sc_value = JInt 5\<rparr>,
     \<lparr>sc_field = ustr_of ''pe'', sc_op = ustr_of ''<'', sc_value = JInt 20\<rparr>]"

definition ex_market :: market where
  "ex_market = \<lparr>mk_universe = map ustr_of [''000001'', ''600519''], mk_frame = (\<lambda>tech code. NoDaily), mk_snapshot = (\<lambda>code. None)\<rparr>"

lemma ex_valid: "fst (validate_conditions ex_conditions)"
  by code_simp

theorem conditions_decide_nothing_witness:
  "screen_traditional ex_market ex_conditions 10 0 [] = Inr ([(ustr_of ''000001'', []), (ustr_of ''600519'', [])], 2)"
proof -
  have "ex_conditions \<noteq> []" by (simp add: ex_conditions_def)
  from conditions_decide_nothing [OF ex_valid this, of ex_market 10 0 "[]"] show ?thesis
    by (simp add: ex_market_def sample_size_def)
qed

text \<open>A view with a stock whose ratio the first of two conditions excludes: it is found.\<close>

definition ex_doc :: "string \<Rightarrow> int \<Rightarrow> document" where
  "ex_doc code pe = [(ustr_of ''code'', JStr (ustr_of code)), (ustr_of ''source'', JStr (ustr_of ''tushare'')), (ustr_of ''pe'', JInt pe),
     (ustr_of ''roe'', JInt 1)]"

definition ex_holds :: "string \<Rightarrow> json \<Rightarrow> json option \<Rightarrow> bool" where
  "ex_holds op x v = (case (x, v) of (JInt b, Some (JInt a)) \<Rightarrow> if op = ''$gt'' then b < a else op = ''$lt'' \<and> a < b
     | (_, Some y) \<Rightarrow> op = ''$eq'' \<and> x = y | _ \<Rightarrow> False)"

definition ex_database :: database where
  "ex_database = \<lparr>db_holds = ex_holds, db_sorted = (\<lambda>s ds. ds), db_view = [ex_doc ''000001'' 3, ex_doc ''600519'' 30],
     db_roe = (\<lambda>s c. None)\<rparr>"

lemma ex_query_screened:
  "screen_database ex_database (\<lambda>v. []) [] ex_conditions 10 0 [] = ([format_result (ex_doc ''000001'' 3)], 1)"
  by code_simp

theorem database_screened_witness:
  "wanted ex_database (\<lambda>v. []) (preferred_source []) ex_conditions (ex_doc ''000001'' 3)
    \<and> length (filter (wanted ex_database (\<lambda>v. []) (preferred_source []) ex_conditions) (db_view ex_database)) = 1"
proof -
  have m: "mset (db_sorted ex_database s ds) = mset ds" for s ds by (simp add: ex_database_def)
  have t: "1 = length (filter (wanted ex_database (\<lambda>v. []) (preferred_source []) ex_conditions) (db_view ex_database))"
    "\<forall>r \<in> set [format_result (ex_doc ''000001'' 3)]. \<exists>doc \<in> set (db_view ex_database). wanted ex_database (\<lambda>v. []) (preferred_source []) ex_conditions doc
      \<and> r = enrich_roe ex_database (preferred_source []) (format_result doc)"
    using database_screened [OF m _ ex_query_screened] by simp_all
  have d: "format_result (ex_doc ''000001'' 3) \<noteq> enrich_roe ex_database (preferred_source []) (format_result (ex_doc ''600519'' 30))" by code_simp
  have "wanted ex_database (\<lambda>v. []) (preferred_source []) ex_conditions (ex_doc ''000001'' 3)"
    using t(2) d by (auto simp: ex_database_def)
  then show ?thesis using t(1) by simp
qed

end
