(* ===== verification/EnhancedScreening.thy ===== *)
theory EnhancedScreening
  imports ConditionProofs
begin

text \<open>
  The two requests for screening, \<open>run_screening\<close> and \<open>enhanced_screening\<close> of \<open>app/routers/screening.py\<close>, over
  \<open>screen_stocks\<close> of \<open>app/services/enhanced_screening_service.py\<close>: the database or the frames, the
  quotes that replace those of the view, and what becomes of an exception.
\<close>

section \<open>The service\<close>

text \<open>
  \<open>None\<close> for the database or for the quotes: reading them raises. A quote is the document of
  \<open>market_quotes\<close> with the given code of six digits. Codes have no sign.
\<close>

record screening_env =
  se_database :: "database option"
  se_sources :: "(ustr \<times> bool) list"
  se_show :: "json \<Rightarrow> ustr"
  se_market :: market
  se_quotes :: "(ustr \<Rightarrow> document option) option"

definition item_document :: "ustr \<times> item \<Rightarrow> document" where
  "item_document x = (key ''code'', JStr (fst x)) # map (\<lambda>(k, v). (k, case v of Some r \<Rightarrow> JFloat (Fin r) | None \<Rightarrow> JNull)) (snd x)"

definition quote_fields :: "ustr list" where
  "quote_fields = map ustr_of [''close'', ''pct_chg'', ''amount'']"

definition padded_code :: "(json \<Rightarrow> ustr) \<Rightarrow> document \<Rightarrow> ustr option" where
  "padded_code sh it = (case dget it (key ''code'') of None \<Rightarrow> None
     | Some v \<Rightarrow> if truthy v then Some (let s = json_text sh v in replicate (6 - length s) 48 @ s) else None)"

definition with_quote :: "document \<Rightarrow> document \<Rightarrow> document" where
  "with_quote q it = fold (\<lambda>f d. case present q f of Some v \<Rightarrow> dset f v d | None \<Rightarrow> d) quote_fields it"

definition enrich_item :: "(json \<Rightarrow> ustr) \<Rightarrow> (ustr \<Rightarrow> document option) \<Rightarrow> document \<Rightarrow> document" where
  "enrich_item sh quotes it = (case padded_code sh it of None \<Rightarrow> it
     | Some c \<Rightarrow> (case quotes c of Some q \<Rightarrow> if q = [] then it else with_quote q it | None \<Rightarrow> it))"

datatype screening_method = ByDatabase | Traditional | NoMethod

record screening_reply =
  sd_total :: nat
  sd_items :: "document list"
  sd_method :: screening_method
  sd_error :: "string option"

definition screening_failed :: "string \<Rightarrow> screening_reply" where
  "screening_failed e = \<lparr>sd_total = 0, sd_items = [], sd_method = NoMethod, sd_error = Some e\<rparr>"

definition screen_stocks :: "screening_env \<Rightarrow> bool \<Rightarrow> condition list \<Rightarrow> nat \<Rightarrow> nat \<Rightarrow> order list \<Rightarrow> screening_reply" where
  "screen_stocks env optimize cs limit offset os = (
     if by_database optimize cs then (case se_database env of
         None \<Rightarrow> screening_failed ''Exception''
       | Some db \<Rightarrow> (let (items, n) = screen_database db (se_show env) (se_sources env) cs limit offset os in
           \<lparr>sd_total = n, sd_items = (case se_quotes env of Some quotes \<Rightarrow> map (enrich_item (se_show env) quotes) items | None \<Rightarrow> items),
             sd_method = ByDatabase, sd_error = None\<rparr>))
     else (case screen_traditional (se_market env) cs limit offset os of
         Inl e \<Rightarrow> screening_failed e
       | Inr (items, n) \<Rightarrow> \<lparr>sd_total = n, sd_items = map item_document items, sd_method = Traditional, sd_error = None\<rparr>))"

section \<open>The requests\<close>

text \<open>The old request. What raises is an answer 500; an error of the service is no exception any more.\<close>

definition run_screening :: "screening_env \<Rightarrow> (ustr, json) dict \<Rightarrow> nat \<Rightarrow> nat \<Rightarrow> order list \<Rightarrow> (nat, nat \<times> document list) result" where
  "run_screening env d limit offset os = (case convert_legacy d of Inl e \<Rightarrow> Inl 500
     | Inr cs \<Rightarrow> (let r = screen_stocks env True cs limit offset os in Inr (sd_total r, sd_items r)))"

definition enhanced_screening :: "screening_env \<Rightarrow> bool \<Rightarrow> condition list \<Rightarrow> nat \<Rightarrow> nat \<Rightarrow> order list \<Rightarrow> nat \<times> document list \<times> screening_method" where
  "enhanced_screening env optimize cs limit offset os = (let r = screen_stocks env optimize cs limit offset os in
     (sd_total r, sd_items r, sd_method r))"

section \<open>Properties\<close>

text \<open>A database that cannot be read is answered as if no stock had been found.\<close>

lemma error_looks_empty:
  assumes "se_database env = None" "convert_legacy d = Inr cs" "by_database True cs"
  shows "run_screening env d limit offset os = Inr (0, [])"
  using assms by (simp add: run_screening_def screen_stocks_def screening_failed_def Let_def)

text \<open>A condition on the turnover or on the volume ratio makes the whole request go to the frames.\<close>

lemma technical_step: "analyze_conditions cs = a \<Longrightarrow> c \<in> set cs \<Longrightarrow> dget basic_fields_info (sc_field c) = Some fi
    \<Longrightarrow> fi_type fi = Technical \<Longrightarrow> an_needs_technical a"
proof -
  assume a: "analyze_conditions cs = a" "c \<in> set cs" "dget basic_fields_info (sc_field c) = Some fi" "fi_type fi = Technical"
  have mono: "an_technical b \<le> an_technical (fold analyze_step ds b)" for ds b
  proof (induction ds arbitrary: b)
    case (Cons e ds)
    have "an_technical b \<le> an_technical (analyze_step e b)" by (simp add: analyze_step_def split: option.split)
    then show ?case using Cons [of "analyze_step e b"] by simp
  qed simp
  obtain xs ys where cs: "cs = xs @ c # ys" using a(2) by (auto dest: split_list)
  have "0 < an_technical (fold analyze_step cs b)" for b
  proof -
    have "0 < an_technical (analyze_step c (fold analyze_step xs b))" using a(3,4) by (simp add: analyze_step_def)
    then show ?thesis unfolding cs using mono [of "analyze_step c (fold analyze_step xs b)" ys] by simp
  qed
  then show ?thesis using a(1) by (auto simp: analyze_conditions_def Let_def)
qed

lemma turnover_by_frames:
  assumes "c \<in> set cs" "sc_field c \<in> {ustr_of ''turnover_rate'', ustr_of ''volume_ratio''}"
  shows "\<not> by_database optimize cs"
proof -
  have "list_all (\<lambda>f. case dget basic_fields_info (ustr_of f) of Some fi \<Rightarrow> fi_type fi = Technical | None \<Rightarrow> False) [''turnover_rate'', ''volume_ratio'']"
    by code_simp
  then obtain fi where "dget basic_fields_info (sc_field c) = Some fi" "fi_type fi = Technical"
    using assms(2) by (auto split: option.splits)
  then show ?thesis using technical_step [OF refl assms(1)] by (simp add: by_database_def Let_def)
qed

text \<open>The quotes change nothing but the three fields, so a result stays the stock it is.\<close>

lemma with_quote_other: "f \<notin> set quote_fields \<Longrightarrow> dget (with_quote q it) f = dget it f"
proof -
  assume f: "f \<notin> set quote_fields"
  have "f \<notin> set fs \<Longrightarrow> dget (fold (\<lambda>f d. case present q f of Some v \<Rightarrow> dset f v d | None \<Rightarrow> d) fs it) f = dget it f" for fs
    by (induction fs arbitrary: it) (auto simp: dget_dset split: option.split)
  from this [OF f] show ?thesis by (simp add: with_quote_def)
qed

lemma enrich_item_other: "f \<notin> set quote_fields \<Longrightarrow> dget (enrich_item sh quotes it) f = dget it f"
  by (simp add: enrich_item_def with_quote_other split: option.split)

lemma enrich_item_code: "dget (enrich_item sh quotes it) (key ''code'') = dget it (key ''code'')"
proof -
  have "key ''code'' \<notin> set quote_fields" by code_simp
  then show ?thesis by (rule enrich_item_other)
qed

end
