(* ===== verification/FeishuCard.thy ===== *)
theory FeishuCard
  imports SignalProcessing ReportScores
begin

text \<open>
  The cards of \<open>feishu_notify.py\<close>: the columns of a stock, the card of a batch, its JSON text, the
  batches by the size of that text, and the sequence of messages. The chat service is a parameter.
  The values of a result are JSON values; infinities and NaNs are not told apart, and \<open>shown\<close> is the
  \<open>str\<close> of a value that is neither a text nor an int, a finite float, a bool or \<open>None\<close>.
\<close>

section \<open>The text of a JSON value\<close>

text \<open>\<open>json.dumps(v, ensure_ascii=False)\<close>.\<close>

definition hex_char :: "int \<Rightarrow> int" where "hex_char d = (if d < 10 then 48 + d else 87 + d)"

definition short_escapes :: "(int \<times> int) list" where
  "short_escapes = [(34, 34), (92, 92), (10, 110), (13, 114), (9, 116), (12, 102), (8, 98)]"

definition dumped_char :: "int \<Rightarrow> ustr" where
  "dumped_char c = (case map_of short_escapes c of Some e \<Rightarrow> [92, e]
     | None \<Rightarrow> if c < 32 then [92, 117, 48, 48, hex_char (c div 16), hex_char (c mod 16)] else [c])"

definition dumped_text :: "ustr \<Rightarrow> ustr" where
  "dumped_text s = 34 # concat (map dumped_char s) @ [34]"

fun comma_joined :: "ustr list \<Rightarrow> ustr" where
  "comma_joined [] = []"
| "comma_joined [s] = s"
| "comma_joined (s # ss) = s @ [44, 32] @ comma_joined ss"

fun json_dumps :: "json \<Rightarrow> ustr" where
  "json_dumps JNull = ustr_of ''null''"
| "json_dumps (JBool b) = ustr_of (if b then ''true'' else ''false'')"
| "json_dumps (JInt i) = u_int_str i"
| "json_dumps (JFloat x) = (case x of Fin r \<Rightarrow> repr_float r | NonFin \<Rightarrow> ustr_of ''NaN'')"
| "json_dumps (JStr s) = dumped_text s"
| "json_dumps (JList l) = 91 # comma_joined (map json_dumps l) @ [93]"
| "json_dumps (JObj d) = 123 # comma_joined (map (\<lambda>kv. dumped_text (fst kv) @ [58, 32] @ json_dumps (snd kv)) d) @ [125]"

text \<open>Bytes in UTF-8.\<close>

definition utf8_length :: "int \<Rightarrow> nat" where
  "utf8_length c = (if c < 128 then 1 else if c < 2048 then 2 else if c < 65536 then 3 else 4)"

definition byte_length :: "ustr \<Rightarrow> nat" where "byte_length s = sum_list (map utf8_length s)"

section \<open>Numbers and marks\<close>

definition fixed_text :: "nat \<Rightarrow> pyfloat \<Rightarrow> ustr" where
  "fixed_text k x = (let m = nat \<bar>rhe (x * 10 ^ k)\<bar>; d = u_dec (m mod 10 ^ k) in
     (if x < 0 then [45] else []) @ u_dec (m div 10 ^ k) @ (if k = 0 then [] else 46 # zeros (k - length d) @ d))"

definition text_of :: "(json \<Rightarrow> ustr) \<Rightarrow> json \<Rightarrow> ustr" where
  "text_of shown v = (case v of JStr s \<Rightarrow> s | JInt i \<Rightarrow> u_int_str i | JFloat (Fin x) \<Rightarrow> repr_float x
     | JBool b \<Rightarrow> ustr_of (if b then ''True'' else ''False'') | JNull \<Rightarrow> ustr_of ''None'' | _ \<Rightarrow> shown v)"

definition dash :: ustr where "dash = [8212]"

definition fmt :: "(json \<Rightarrow> ustr) \<Rightarrow> nat \<Rightarrow> ustr \<Rightarrow> json \<Rightarrow> ustr" where
  "fmt shown k suf v = (if v = JNull \<or> v = JStr [] then dash
     else (case float_of_json v of Some (Fin x) \<Rightarrow> fixed_text k x @ suf | Some NonFin \<Rightarrow> shown (JFloat NonFin) @ suf
       | None \<Rightarrow> text_of shown v))"

text \<open>The key of a mark: 1 and 1.0 are equal to \<open>True\<close>; a list or a dict is no key.\<close>

definition bool_icon :: "json \<Rightarrow> (string, ustr) result" where
  "bool_icon v = (case v of JList l \<Rightarrow> Inl ''TypeError'' | JObj d \<Rightarrow> Inl ''TypeError''
     | _ \<Rightarrow> Inr (if v \<in> {JBool True, JInt 1, JFloat (Fin 1), JStr (ustr_of ''True'')} then [9989]
         else if v \<in> {JBool False, JInt 0, JFloat (Fin 0), JStr (ustr_of ''False'')} then [10060] else dash))"

definition score_color :: "bool \<Rightarrow> int option \<Rightarrow> ustr" where
  "score_color chan score = (case score of None \<Rightarrow> ustr_of ''grey''
     | Some s \<Rightarrow> if chan then (if 8 \<le> s then ustr_of ''green'' else if 5 \<le> s then ustr_of ''orange'' else ustr_of ''red'')
         else if 70 < s then ustr_of ''green'' else if 60 \<le> s then ustr_of ''orange'' else ustr_of ''red'')"

definition equals_int :: "json \<Rightarrow> int \<Rightarrow> bool" where
  "equals_int v i \<longleftrightarrow> (case v of JInt j \<Rightarrow> j = i | JFloat x \<Rightarrow> x = Fin (of_int i) | JBool b \<Rightarrow> (if b then 1 else 0) = i | _ \<Rightarrow> False)"

section \<open>Elements\<close>

definition j_text :: "string \<Rightarrow> json" where "j_text s = JStr (ustr_of s)"

definition md :: "ustr \<Rightarrow> string \<Rightarrow> json" where
  "md content align = JObj [(ustr_of ''tag'', j_text ''markdown''), (ustr_of ''content'', JStr content), (ustr_of ''text_align'', j_text align)]"

definition column :: "json list \<Rightarrow> int \<Rightarrow> json" where
  "column elements weight = JObj [(ustr_of ''tag'', j_text ''column''), (ustr_of ''width'', j_text ''weighted''), (ustr_of ''weight'', JInt weight),
     (ustr_of ''vertical_align'', j_text ''top''), (ustr_of ''vertical_spacing'', j_text ''8px''), (ustr_of ''elements'', JList elements)]"

definition col_set :: "json list \<Rightarrow> string \<Rightarrow> json" where
  "col_set columns bg = JObj [(ustr_of ''tag'', j_text ''column_set''), (ustr_of ''background_style'', j_text bg),
     (ustr_of ''horizontal_spacing'', j_text ''8px''), (ustr_of ''horizontal_align'', j_text ''left''), (ustr_of ''columns'', JList columns)]"

definition divider :: json where "divider = JObj [(ustr_of ''tag'', j_text ''hr'')]"

definition header_row :: "ustr list \<Rightarrow> json" where
  "header_row titles = col_set (map (\<lambda>t. column [md ([42, 42] @ t @ [42, 42]) ''center''] 1) titles) ''grey''"

definition data_columns :: "ustr list \<Rightarrow> json" where
  "data_columns contents = col_set (map (\<lambda>t. column [md t ''left''] 1) contents) ''default''"

section \<open>A stock\<close>

record picked =
  pk_code :: ustr
  pk_name :: ustr
  pk_exchange :: ustr
  pk_details :: "(ustr, json) dict"
  pk_scores :: "scores option"

definition detail :: "picked \<Rightarrow> ustr \<Rightarrow> json" where "detail p k = dget_default (pk_details p) k JNull"

definition either_value :: "json \<Rightarrow> json \<Rightarrow> json" where "either_value v w = (if truthy v then v else w)"

text \<open>\<open>float(v or 0) / 1e8\<close>, in units of 1e8.\<close>

definition cap_text :: "(json \<Rightarrow> ustr) \<Rightarrow> json \<Rightarrow> (string, ustr) result" where
  "cap_text shown v = (case float_of_json (either_value v (JInt 0)) of None \<Rightarrow> Inl ''ValueError''
     | Some (Fin x) \<Rightarrow> Inr (fixed_text 1 (fdiv x (10 ^ 8)) @ [20159]) | Some NonFin \<Rightarrow> Inr (shown (JFloat NonFin) @ [20159]))"

text \<open>The pieces of a text: fixed ones, numbers and marks of the details.\<close>

datatype piece = T ustr | V nat ustr | B ustr

fun pieces :: "(json \<Rightarrow> ustr) \<Rightarrow> picked \<Rightarrow> piece list \<Rightarrow> (string, ustr) result" where
  "pieces shown p [] = Inr []"
| "pieces shown p (x # xs) = (case (case x of T t \<Rightarrow> Inr t | V k key \<Rightarrow> Inr (fmt shown k [] (detail p key)) | B key \<Rightarrow> bool_icon (detail p key)) of
     Inl e \<Rightarrow> Inl e | Inr t \<Rightarrow> (case pieces shown p xs of Inl e \<Rightarrow> Inl e | Inr r \<Rightarrow> Inr (t @ r)))"

definition title_row :: "(json \<Rightarrow> ustr) \<Rightarrow> picked \<Rightarrow> json" where
  "title_row shown p = (let code = takeWhile (\<lambda>c. c \<noteq> 46) (pk_code p);
     url = [104, 116, 116, 112, 115, 58, 47, 47, 115, 116, 111, 99, 107, 112, 97, 103, 101, 46, 49, 48, 106, 113, 107, 97, 46, 99, 111, 109, 46, 99, 110, 47] @ code @ [47];
     score = dget_default (pk_details p) [26032, 22686, 26465, 20214, 24635, 20998] (JStr dash);
     color = (if equals_int score 4 then [103, 114, 101, 101, 110] else if equals_int score 3 then [111, 114, 97, 110, 103, 101] else [114, 101, 100]) in
   col_set [column [md ([42, 42, 91] @ pk_code p @ [32] @ pk_name p @ [93, 40] @ url @ [41, 42, 42]) ''left''] 3,
     column [md (pk_exchange p) ''center''] 1,
     column [md ([60, 102, 111, 110, 116, 32, 99, 111, 108, 111, 114, 61, 39] @ color @ [39, 62, 42, 42, 24471, 20998, 32] @ text_of shown score @ [47, 52, 42, 42, 60, 47, 102, 111, 110, 116, 62]) ''center''] 1] ''default'')"

definition scores_row :: "picked \<Rightarrow> json" where
  "scores_row p = (let chan = (case pk_scores p of Some s \<Rightarrow> sc_chan s | None \<Rightarrow> None); win = (case pk_scores p of Some s \<Rightarrow> sc_win s | None \<Rightarrow> None) in
   data_columns [
     [129504, 32, 32544, 35770, 65306, 60, 102, 111, 110, 116, 32, 99, 111, 108, 111, 114, 61, 39] @ score_color True chan @ [39, 62] @ (case chan of Some c \<Rightarrow> [42, 42] @ u_int_str c @ [47, 49, 48, 42, 42] | None \<Rightarrow> dash) @ [60, 47, 102, 111, 110, 116, 62],
     [127919, 32, 36194, 38754, 65306, 60, 102, 111, 110, 116, 32, 99, 111, 108, 111, 114, 61, 39] @ score_color False (map_option snd win) @ [39, 62]
       @ (case win of Some w \<Rightarrow> [42, 42] @ format_winrate (Some w) @ [42, 42] | None \<Rightarrow> dash) @ [60, 47, 102, 111, 110, 116, 62]])"

definition price_pieces :: "(json \<Rightarrow> ustr) \<Rightarrow> picked \<Rightarrow> piece list" where
  "price_pieces shown p = [T [25910, 30424, 65306, 42, 42], V 2 [25910, 30424, 20215], T [42, 42, 10, 24320, 30424, 65306], T (fmt shown 2 [] (either_value (detail p [24320, 30424, 20215]) (detail p [111, 112, 101, 110]))),
     T [32, 32, 26368, 39640, 65306], T (fmt shown 2 [] (either_value (detail p [26368, 39640, 20215]) (detail p [104, 105, 103, 104]))), T [10, 26368, 20302, 65306], T (fmt shown 2 [] (either_value (detail p [26368, 20302, 20215]) (detail p [108, 111, 119]))), T [10, 28072, 24133, 65306, 42, 42], V 2 [28072, 24133], T [37, 42, 42, 32, 32, 25391, 24133, 65306], V 2 [25391, 24133], T [37]]"

definition cap_pieces :: "(json \<Rightarrow> ustr) \<Rightarrow> picked \<Rightarrow> ustr \<Rightarrow> ustr \<Rightarrow> piece list" where
  "cap_pieces shown p total_cap circ_cap = [T [24635, 24066, 20540, 65306], T total_cap, T [10, 27969, 36890, 65306], T circ_cap, T [10, 25104, 20132, 37327, 65306], T (fmt shown 0 [] (either_value (detail p [118, 111, 108, 117, 109, 101]) (detail p [25104, 20132, 37327])))]"

definition kdj_pieces :: "piece list" where
  "kdj_pieces = [T [74, 65306, 42, 42], V 2 [74], T [42, 42, 32, 32, 75, 65306], V 2 [75], T [32, 32, 68, 65306], V 2 [68], T [10, 77, 65, 54, 48, 65306], V 2 [77, 65, 54, 48], T [10, 30333, 32447, 65306], V 2 [30333, 32447], T [32, 32, 40644, 32447, 65306], V 2 [40644, 32447], T [10, 21069, 26085, 25910, 65306], V 2 [110, 45, 49, 26085, 25910, 30424, 20215], T [32, 32, 40644, 36317, 65306], V 2 [21040, 40644, 32447, 36317, 31163], T [10, 21069, 21608, 25910, 65306], V 2 [110, 45, 49, 21608, 25910, 30424, 20215], T [32, 32, 21608, 30333, 65306], V 2 [21608, 75, 30333, 32447]]"

definition b1_pieces :: "piece list" where
  "b1_pieces = [T [74, 60, 49, 51, 65306], B [74, 60, 49, 51], T [32, 32, 62, 77, 65, 54, 48, 65306], B [25910, 30424, 20215, 62, 77, 65, 54, 48], T [32, 32, 62, 90, 88, 68, 75, 88, 65306], B [25910, 30424, 20215, 62, 90, 88, 68, 75, 88], T [10, 81, 62, 75, 88, 65306], B [90, 88, 68, 81, 62, 90, 88, 68, 75, 88], T [32, 32, 25391, 60, 55, 65306], B [25391, 24133, 60, 55], T [10, 28072, 62, 61, 45, 50, 65306], B [28072, 24133, 62, 61, 45, 50], T [32, 32, 28072, 60, 50, 65306], B [28072, 24133, 60, 50], T [10, 20493, 37327, 65306], B [20493, 37327, 26609, 26465, 20214], T [32, 32, 24066, 20540, 65306], B [24066, 20540, 26465, 20214], T [10, 40644, 30333, 38388, 65306], B [110, 45, 49, 26085, 75, 22312, 40644, 30333, 20540, 20043, 38388], T [32, 32, 21608, 62, 30333, 65306], B [110, 45, 49, 21608, 75, 39640, 20110, 30333, 32447]]"

definition score_pieces :: "piece list" where
  "score_pieces = [T [51, 48, 26085, 20493, 37327, 65306], B [26032, 22686, 26465, 20214, 49, 95, 51, 48, 26085, 20869, 20493, 37327], T [65288], V 0 [51, 48, 26085, 20493, 37327, 27425, 25968], T [27425, 65289, 10, 26080, 22823, 21334, 65306], B [26032, 22686, 26465, 20214, 50, 95, 49, 50, 48, 26085, 20869, 26080, 22823, 37327, 21334, 20986], T [65288, 36829], V 0 [49, 50, 48, 26085, 22823, 37327, 21334, 20986, 27425, 25968], T [27425, 65289, 10, 28072, 24133, 25511, 65306], B [26032, 22686, 26465, 20214, 51, 95, 51, 48, 26085, 20869, 28072, 24133, 25511, 21046], T [10, 25442, 25163, 25511, 65306], B [26032, 22686, 26465, 20214, 52, 95, 51, 48, 26085, 20869, 25442, 25163, 29575, 25511, 21046]]"

definition slope_pieces :: "piece list" where
  "slope_pieces = [T [53, 22825, 22238, 27979, 65306, 42, 42], V 2 [53, 22825, 22238, 27979, 25910, 30410, 29575], T [37, 42, 42, 65288, 21069, 20215, 65306], V 2 [53, 22825, 21069, 20215, 26684], T [65289, 10, 51, 22825, 26012, 29575, 65306], V 2 [26085, 75, 51, 22825, 26012, 29575], T [32, 32, 60, 48, 46, 50, 65306], B [26085, 75, 51, 22825, 26012, 29575, 60, 48, 46, 50], T [10, 103, 97, 112, 37, 65306], V 2 [40644, 30333, 103, 97, 112, 21344, 32929, 20215, 37], T [32, 32, 62, 53, 37, 65306], B [40644, 30333, 103, 97, 112, 62, 53, 37], T [10, 51, 48, 26085, 26012, 65306], V 2 [51, 48, 26085, 75, 26012, 29575], T [32, 32, 49, 50, 48, 21608, 26012, 65306], V 2 [49, 50, 48, 21608, 75, 26012, 29575]]"

definition shape_pieces :: "piece list" where
  "shape_pieces = [T [51, 48, 22825, 28072, 24133, 65306], V 2 [51, 48, 22825, 28072, 24133], T [37, 65288, 38480], V 0 [51, 48, 22825, 28072, 24133, 38480, 21046], T [65289, 36798, 26631, 65306], B [51, 48, 22825, 28072, 24133, 36798, 26631], T [10, 26080, 36830, 28072, 20572, 65306], B [51, 48, 22825, 26080, 36830, 32493, 28072, 20572], T [32, 32, 26080, 38271, 19978, 24433, 65306], B [26080, 38271, 19978, 24433], T [10, 26080, 39118, 36710, 65306], B [26080, 39030, 37096, 22823, 39118, 36710], T [32, 32, 26080, 24322, 37327, 65306], B [26080, 38750, 27491, 24120, 25918, 37327], T [10, 26080, 36339, 31354, 65306], B [26080, 36339, 31354]]"

fun all_texts :: "(json \<Rightarrow> ustr) \<Rightarrow> picked \<Rightarrow> piece list list \<Rightarrow> (string, ustr list) result" where
  "all_texts shown p [] = Inr []"
| "all_texts shown p (x # xs) = (case pieces shown p x of Inl e \<Rightarrow> Inl e
     | Inr t \<Rightarrow> (case all_texts shown p xs of Inl e \<Rightarrow> Inl e | Inr ts \<Rightarrow> Inr (t # ts)))"

definition stock_elements :: "(json \<Rightarrow> ustr) \<Rightarrow> picked \<Rightarrow> (string, json list) result" where
  "stock_elements shown p = (case cap_text shown (detail p [24635, 24066, 20540]) of Inl e \<Rightarrow> Inl e | Inr total_cap \<Rightarrow>
     (case cap_text shown (detail p [27969, 36890, 24066, 20540]) of Inl e \<Rightarrow> Inl e | Inr circ_cap \<Rightarrow>
     (case all_texts shown p [price_pieces shown p, cap_pieces shown p total_cap circ_cap, kdj_pieces, b1_pieces, score_pieces, slope_pieces, shape_pieces] of
       Inr [price, cap, kdj, b1, score, slope, shape] \<Rightarrow> Inr [title_row shown p, scores_row p,
         header_row [[34892, 24773], [24066, 20540, 47, 37327], [75, 68, 74, 47, 22343, 32447]], data_columns [price, cap, kdj],
         header_row [[66, 49, 21407, 22987, 26465, 20214], [35780, 20998, 26465, 20214]], data_columns [b1, score],
         header_row [[22238, 27979, 32, 47, 32, 26012, 29575], [24418, 24577, 32479, 35745]], data_columns [slope, shape], divider]
     | Inl e \<Rightarrow> Inl e | _ \<Rightarrow> Inr [])))"

fun all_elements :: "(json \<Rightarrow> ustr) \<Rightarrow> picked list \<Rightarrow> (string, json list list) result" where
  "all_elements shown [] = Inr []"
| "all_elements shown (p # ps) = (case stock_elements shown p of Inl e \<Rightarrow> Inl e
     | Inr x \<Rightarrow> (case all_elements shown ps of Inl e \<Rightarrow> Inl e | Inr xs \<Rightarrow> Inr (x # xs)))"

section \<open>Cards and batches\<close>

definition card_title :: "ustr \<Rightarrow> nat \<Rightarrow> nat \<Rightarrow> nat \<Rightarrow> ustr" where
  "card_title date stocks num batches = [128202, 32, 66, 49, 31579, 36873, 32467, 26524, 32, 183, 32] @ date @ [32, 32, 20849] @ u_dec stocks @ [21482]
     @ (if 1 < batches then [65288, 31532] @ u_dec num @ [47] @ u_dec batches @ [25209, 65289] else [])"

text \<open>The card of the stocks whose elements are given.\<close>

definition build_card :: "json list list \<Rightarrow> ustr \<Rightarrow> nat \<Rightarrow> nat \<Rightarrow> nat \<Rightarrow> (ustr, json) dict" where
  "build_card batch date stocks num batches = [(ustr_of ''msg_type'', j_text ''interactive''),
     (ustr_of ''card'', JObj [(ustr_of ''config'', JObj [(ustr_of ''update_multi'', JBool True)]),
       (ustr_of ''i18n_elements'', JObj [(ustr_of ''zh_cn'', JList (md ([42, 42] @ card_title date stocks num batches @ [42, 42]) ''left'' # concat batch))]),
       (ustr_of ''i18n_header'', JObj [])])]"

definition card_size :: "json list list \<Rightarrow> ustr \<Rightarrow> nat \<Rightarrow> nat \<Rightarrow> nat \<Rightarrow> nat" where
  "card_size batch date stocks num batches = byte_length (json_dumps (JObj (build_card batch date stocks num batches)))"

definition max_bytes :: nat where "max_bytes = 19 * 1024"

text \<open>
  The search for the largest batch: between \<open>lo\<close> and \<open>hi\<close>, with the best size so far. It begins with
  \<open>lo = 1\<close>, so the middle is never 0.
\<close>

function best_size :: "(nat \<Rightarrow> bool) \<Rightarrow> nat \<Rightarrow> nat \<Rightarrow> nat \<Rightarrow> nat" where
  "best_size fits lo hi best = (if hi < lo then best
     else (let mid = (lo + hi) div 2 in
       if fits mid then best_size fits (mid + 1) hi mid
       else if mid = 0 then best else best_size fits lo (mid - 1) best))"
  by pat_completeness auto
termination
  by (relation "measure (\<lambda>(fits, lo, hi, best). Suc hi - lo)") auto

declare best_size.simps [simp del]

definition batch_size :: "ustr \<Rightarrow> nat \<Rightarrow> nat \<Rightarrow> json list list \<Rightarrow> nat" where
  "batch_size date stocks done_batches rest =
     best_size (\<lambda>mid. card_size (take mid rest) date stocks (done_batches + 1) 1 \<le> max_bytes) 1 (min 30 (length rest)) 1"

lemma best_size_pos: "0 < best \<Longrightarrow> 0 < lo \<Longrightarrow> 0 < best_size fits lo hi best"
  by (induction fits lo hi best rule: best_size.induct) (subst best_size.simps, simp add: Let_def)

lemma batch_size_pos [simp]: "0 < batch_size date stocks k rest"
  by (simp add: batch_size_def best_size_pos)

function split_from :: "ustr \<Rightarrow> nat \<Rightarrow> nat \<Rightarrow> json list list \<Rightarrow> json list list list" where
  "split_from date stocks k rest = (if rest = [] then []
     else (let n = batch_size date stocks k rest in take n rest # split_from date stocks (k + 1) (drop n rest)))"
  by pat_completeness auto
termination
  by (relation "measure (\<lambda>(date, stocks, k, rest). length rest)") (auto simp: Let_def)

declare split_from.simps [simp del]

definition split_into_batches :: "ustr \<Rightarrow> json list list \<Rightarrow> json list list list" where
  "split_into_batches date xs = split_from date (length xs) 0 xs"

section \<open>Sending\<close>

text \<open>
  The messages in their order; the service is told the time and the signature of each. What it
  answers is only printed, and a failed message does not stop the next ones. An exception of an
  element is raised while the batches are formed, before anything is sent.
\<close>

definition text_payload :: "ustr \<Rightarrow> (ustr, json) dict" where
  "text_payload t = [(ustr_of ''msg_type'', j_text ''text''), (ustr_of ''content'', JObj [(ustr_of ''text'', JStr t)])]"

definition signed_payload :: "nat \<Rightarrow> ustr \<Rightarrow> (ustr, json) dict \<Rightarrow> (ustr, json) dict" where
  "signed_payload now sign payload = dset (ustr_of ''sign'') (JStr sign) (dset (ustr_of ''timestamp'') (JStr (u_dec now)) payload)"

definition separator_text :: "ustr \<Rightarrow> nat \<Rightarrow> ustr" where
  "separator_text date stocks = replicate 12 9473 @ [32, 128276, 32, 66, 49, 31579, 36873, 32] @ date @ [32, 20849] @ u_dec stocks @ [21482, 32] @ replicate 12 9473"

definition with_scores :: "(ustr \<Rightarrow> scores option) \<Rightarrow> picked \<Rightarrow> picked" where
  "with_scores scores_of p = p\<lparr>pk_scores := scores_of (pk_code p)\<rparr>"

definition send_b1_results :: "(json \<Rightarrow> ustr) \<Rightarrow> (ustr \<Rightarrow> scores option) \<Rightarrow> ustr \<Rightarrow> picked list \<Rightarrow> (string, (ustr, json) dict list) result" where
  "send_b1_results shown scores_of date ps = (if ps = [] then Inr [text_payload [12304, 66, 49, 31579, 36873, 23436, 25104, 12305, 20170, 26085, 26080, 31526, 21512, 26465, 20214, 30340, 32929, 31080, 12290]]
     else (case all_elements shown (map (with_scores scores_of) ps) of Inl e \<Rightarrow> Inl e
       | Inr xs \<Rightarrow> (let batches = split_into_batches date xs; n = length batches in
           Inr (replicate 5 (text_payload (separator_text date (length ps)))
             @ map (\<lambda>(i, b). build_card b date (length ps) (i + 1) n) (enumerate 0 batches)))))"

end
