(* ===== verification/FeishuProofs.thy ===== *)
theory FeishuProofs
  imports FeishuCard
begin

text \<open>The batches of the cards and the size of what is sent.\<close>

section \<open>Sizes\<close>

lemma byte_length_append [simp]: "byte_length (s @ t) = byte_length s + byte_length t"
  and byte_length_Cons [simp]: "byte_length (c # s) = utf8_length c + byte_length s"
  and byte_length_Nil [simp]: "byte_length [] = 0"
  by (simp_all add: byte_length_def)

lemma comma_joined_Cons: "ss \<noteq> [] \<Longrightarrow> comma_joined (s # ss) = s @ [44, 32] @ comma_joined ss"
  by (cases ss) simp_all

lemma comma_joined_size: "ss \<noteq> [] \<Longrightarrow> byte_length (comma_joined ss) = sum_list (map byte_length ss) + 2 * (length ss - 1)"
proof (induction ss)
  case (Cons s ss)
  show ?case
  proof (cases "ss = []")
    case False
    then have "0 < length ss" by simp
    then show ?thesis using Cons.IH [OF False] by (cases "length ss") (simp_all add: comma_joined_Cons [OF False] utf8_length_def)
  qed simp
qed simp

lemma comma_joined_grows: "byte_length (comma_joined ss) \<le> byte_length (comma_joined (ss @ ts))"
proof (cases "ss = []")
  case False
  then show ?thesis by (simp add: comma_joined_size)
qed simp

lemma card_size_parts: "card_size b date n num k = byte_length (json_dumps (JObj (build_card [] date n num k)))
    - byte_length (comma_joined [json_dumps (md ([42, 42] @ card_title date n num k @ [42, 42]) ''left'')])
    + byte_length (comma_joined (map json_dumps (md ([42, 42] @ card_title date n num k @ [42, 42]) ''left'' # concat b)))"
  by (simp add: card_size_def build_card_def j_text_def)

lemma card_size_grows: "card_size b date n num k \<le> card_size (b @ c) date n num k"
  unfolding card_size_parts [of b] card_size_parts [of "b @ c"]
  using comma_joined_grows [of "map json_dumps (md ([42, 42] @ card_title date n num k @ [42, 42]) ''left'' # concat b)" "map json_dumps (concat c)"]
  by (simp del: comma_joined.simps)

lemma card_size_take: "i \<le> j \<Longrightarrow> card_size (take i xs) date n num k \<le> card_size (take j xs) date n num k"
proof -
  assume "i \<le> j"
  then have "take j xs = take i xs @ take (j - i) (drop i xs)" by (simp add: take_add [symmetric])
  then show ?thesis using card_size_grows by metis
qed

section \<open>The search\<close>

lemma best_size_steps:
  "hi < lo \<Longrightarrow> best_size fits lo hi best = best"
  "\<not> hi < lo \<Longrightarrow> fits ((lo + hi) div 2) \<Longrightarrow> best_size fits lo hi best = best_size fits ((lo + hi) div 2 + 1) hi ((lo + hi) div 2)"
  "\<not> hi < lo \<Longrightarrow> 0 < lo \<Longrightarrow> \<not> fits ((lo + hi) div 2) \<Longrightarrow> best_size fits lo hi best = best_size fits lo ((lo + hi) div 2 - 1) best"
proof -
  assume a: "\<not> hi < lo" "0 < lo" "\<not> fits ((lo + hi) div 2)"
  have "(lo + hi) div 2 \<noteq> 0" using a by linarith
  then show "best_size fits lo hi best = best_size fits lo ((lo + hi) div 2 - 1) best"
    unfolding best_size.simps [of fits lo hi best] Let_def using a by argo
qed (simp_all add: best_size.simps [of fits lo hi best] Let_def)

lemma best_size_bounds:
  "0 < lo \<Longrightarrow> best_size fits lo hi best = best
    \<or> (lo \<le> best_size fits lo hi best \<and> best_size fits lo hi best \<le> hi \<and> fits (best_size fits lo hi best))"
proof (induction "Suc hi - lo" arbitrary: lo hi best rule: less_induct)
  case less
  define mid where "mid = (lo + hi) div 2"
  consider "hi < lo" | "\<not> hi < lo" "fits mid" | "\<not> hi < lo" "\<not> fits mid" by blast
  then show ?case
  proof cases
    case 1
    then show ?thesis by (simp add: best_size_steps)
  next
    case 2
    then have m: "lo \<le> mid" "mid \<le> hi" by (auto simp: mid_def)
    have "best_size fits (mid + 1) hi mid = mid \<or> (mid + 1 \<le> best_size fits (mid + 1) hi mid \<and> best_size fits (mid + 1) hi mid \<le> hi
        \<and> fits (best_size fits (mid + 1) hi mid))"
      using m less.prems by (intro less.hyps) auto
    moreover have "best_size fits lo hi best = best_size fits (mid + 1) hi mid"
      using 2 by (simp add: best_size_steps mid_def)
    ultimately show ?thesis using 2 m by auto
  next
    case 3
    then have m: "lo \<le> mid" "mid \<le> hi" by (auto simp: mid_def)
    have "best_size fits lo (mid - 1) best = best \<or> (lo \<le> best_size fits lo (mid - 1) best \<and> best_size fits lo (mid - 1) best \<le> mid - 1
        \<and> fits (best_size fits lo (mid - 1) best))"
      using m less.prems by (intro less.hyps) auto
    moreover have "best_size fits lo hi best = best_size fits lo (mid - 1) best"
      using 3 less.prems by (simp add: best_size_steps mid_def)
    ultimately show ?thesis using m by auto
  qed
qed

lemma best_size_largest:
  assumes mono: "\<And>i j. i \<le> j \<Longrightarrow> fits j \<Longrightarrow> fits i"
  shows "0 < lo \<Longrightarrow> best_size fits lo hi best < k \<Longrightarrow> lo \<le> k \<Longrightarrow> k \<le> hi \<Longrightarrow> \<not> fits k"
proof (induction "Suc hi - lo" arbitrary: lo hi best rule: less_induct)
  case less
  define mid where "mid = (lo + hi) div 2"
  have h: "\<not> hi < lo" using less.prems by simp
  then have m: "lo \<le> mid" "mid \<le> hi" by (auto simp: mid_def)
  show ?case
  proof (cases "fits mid")
    case True
    have e: "best_size fits lo hi best = best_size fits (mid + 1) hi mid"
      using h True by (simp add: best_size_steps mid_def)
    have "mid \<le> best_size fits (mid + 1) hi mid" using best_size_bounds [of "mid + 1" fits hi mid] by auto
    then have "mid + 1 \<le> k" using less.prems(2) e by simp
    then show ?thesis using m less.prems e by (intro less.hyps [of hi "mid + 1" mid]) auto
  next
    case False
    have e: "best_size fits lo hi best = best_size fits lo (mid - 1) best"
      using h False less.prems by (simp add: best_size_steps mid_def)
    show ?thesis
    proof (cases "k < mid")
      case True
      then show ?thesis using m less.prems e by (intro less.hyps [of "mid - 1" lo best]) auto
    next
      case ge: False
      then show ?thesis using mono [of mid k] False by auto
    qed
  qed
qed

lemma batch_size_spec:
  fixes date :: ustr and stocks k :: nat
  assumes "rest \<noteq> []"
  defines "n \<equiv> batch_size date stocks k rest"
  shows "n \<le> 30" "n \<le> length rest" "1 < n \<Longrightarrow> card_size (take n rest) date stocks (k + 1) 1 \<le> max_bytes"
    "n < i \<Longrightarrow> i \<le> 30 \<Longrightarrow> i \<le> length rest \<Longrightarrow> max_bytes < card_size (take i rest) date stocks (k + 1) 1"
proof -
  define fits where "fits = (\<lambda>m. card_size (take m rest) date stocks (k + 1) 1 \<le> max_bytes)"
  have n: "n = best_size fits 1 (min 30 (length rest)) 1" by (simp add: n_def batch_size_def fits_def)
  have l: "Suc 0 \<le> length rest" using assms(1) by (cases rest) simp_all
  have b: "n = 1 \<or> (1 \<le> n \<and> n \<le> min 30 (length rest) \<and> fits n)" using best_size_bounds [of 1 fits "min 30 (length rest)" 1] by (simp add: n)
  then show "n \<le> 30" "n \<le> length rest" "1 < n \<Longrightarrow> card_size (take n rest) date stocks (k + 1) 1 \<le> max_bytes"
    using l by (auto simp: fits_def)
  have mono: "fits j \<Longrightarrow> fits i" if "i \<le> j" for i j
    using card_size_take [OF that, of rest date stocks "k + 1" 1] by (auto simp: fits_def)
  show "max_bytes < card_size (take i rest) date stocks (k + 1) 1" if "n < i" "i \<le> 30" "i \<le> length rest"
    using best_size_largest [of fits 1 "min 30 (length rest)" 1 i] mono that b by (auto simp: n fits_def)
qed

section \<open>The batches\<close>

lemma split_from_step: "rest \<noteq> [] \<Longrightarrow> split_from date stocks k rest
    = take (batch_size date stocks k rest) rest # split_from date stocks (k + 1) (drop (batch_size date stocks k rest) rest)"
  by (simp add: split_from.simps [of date stocks k rest] Let_def)

lemma split_from_Nil [simp]: "split_from date stocks k [] = []"
  by (simp add: split_from.simps)

text \<open>A batch and the stocks after it.\<close>

definition greedy :: "ustr \<Rightarrow> nat \<Rightarrow> nat \<Rightarrow> json list list \<Rightarrow> json list list \<Rightarrow> bool" where
  "greedy date stocks num b later \<longleftrightarrow> b \<noteq> [] \<and> length b \<le> 30 \<and> (length b = 1 \<or> card_size b date stocks num 1 \<le> max_bytes)
     \<and> (later = [] \<or> length b = 30 \<or> max_bytes < card_size (b @ [hd later]) date stocks num 1)"

lemma first_batch_greedy:
  fixes date :: ustr and stocks k :: nat
  assumes "rest \<noteq> []"
  defines "n \<equiv> batch_size date stocks k rest"
  shows "greedy date stocks (k + 1) (take n rest) (drop n rest)"
proof -
  have p: "0 < n" by (simp add: n_def)
  have s: "n \<le> 30" "n \<le> length rest" "1 < n \<Longrightarrow> card_size (take n rest) date stocks (k + 1) 1 \<le> max_bytes"
    "\<And>i. n < i \<Longrightarrow> i \<le> 30 \<Longrightarrow> i \<le> length rest \<Longrightarrow> max_bytes < card_size (take i rest) date stocks (k + 1) 1"
    unfolding n_def by (rule batch_size_spec [OF assms(1)]; assumption)+
  have "drop n rest = [] \<or> n = 30 \<or> max_bytes < card_size (take n rest @ [hd (drop n rest)]) date stocks (k + 1) 1"
  proof (cases "drop n rest = [] \<or> n = 30")
    case False
    then have "n < length rest" "n < 30" using s(1) by auto
    then have "max_bytes < card_size (take (Suc n) rest) date stocks (k + 1) 1" by (intro s(4)) auto
    then show ?thesis using \<open>n < length rest\<close> by (simp add: take_Suc_conv_app_nth hd_drop_conv_nth)
  qed blast
  moreover have "length (take n rest) = n" using s(2) by simp
  moreover have "n = 1 \<or> card_size (take n rest) date stocks (k + 1) 1 \<le> max_bytes"
  proof (cases "n = 1")
    case False
    then have "1 < n" using p by simp
    then show ?thesis using s(3) by blast
  qed simp
  ultimately show ?thesis using p s(1) unfolding greedy_def by auto
qed

lemma split_from_greedy:
  "concat (split_from date stocks k rest) = rest
    \<and> (\<forall>i < length (split_from date stocks k rest). greedy date stocks (k + i + 1) (split_from date stocks k rest ! i)
        (concat (drop (Suc i) (split_from date stocks k rest))))"
proof (induction "length rest" arbitrary: k rest rule: less_induct)
  case less
  show ?case
  proof (cases "rest = []")
    case False
    define n where "n = batch_size date stocks k rest"
    have d: "length (drop n rest) < length rest" using False by (simp add: n_def)
    have s: "split_from date stocks k rest = take n rest # split_from date stocks (k + 1) (drop n rest)"
      using split_from_step [OF False] by (simp add: n_def)
    have ih: "concat (split_from date stocks (k + 1) (drop n rest)) = drop n rest"
      "\<And>i. i < length (split_from date stocks (k + 1) (drop n rest)) \<Longrightarrow> greedy date stocks (k + 1 + i + 1) (split_from date stocks (k + 1) (drop n rest) ! i)
        (concat (drop (Suc i) (split_from date stocks (k + 1) (drop n rest))))"
      using less.hyps [OF d, of "k + 1"] by blast+
    have "greedy date stocks (k + i + 1) ((take n rest # split_from date stocks (k + 1) (drop n rest)) ! i)
        (concat (drop (Suc i) (take n rest # split_from date stocks (k + 1) (drop n rest))))"
      if "i < Suc (length (split_from date stocks (k + 1) (drop n rest)))" for i
    proof (cases i)
      case 0
      then show ?thesis using first_batch_greedy [OF False, of date stocks k] ih(1) by (simp add: n_def)
    next
      case (Suc j)
      then show ?thesis using ih(2) [of j] that by simp
    qed
    then show ?thesis unfolding s using ih(1) by simp
  qed simp
qed

text \<open>
  C21: The batches are the stocks in their order, and every batch is the longest that the limits
  allow: at most 30 stocks, at most 19 KB unless it is a single stock, and with one stock more it
  would be above one of the limits.
\<close>

theorem batches_greedy:
  "concat (split_into_batches date xs) = xs \<and>
   (\<forall>i < length (split_into_batches date xs). greedy date (length xs) (i + 1) (split_into_batches date xs ! i)
      (concat (drop (Suc i) (split_into_batches date xs))))"
  using split_from_greedy [of date "length xs" 0 xs] by (simp add: split_into_batches_def)

section \<open>What is sent\<close>

lemma dumped_text_append: "byte_length (dumped_text (a @ b)) = byte_length (dumped_text a) + byte_length (concat (map dumped_char b))"
  by (simp add: dumped_text_def)

lemma dec_size: "byte_length (concat (map dumped_char (u_dec n))) = length (u_dec n)"
proof -
  have "list_all (\<lambda>c. 48 \<le> c \<and> c \<le> 57) s \<Longrightarrow> byte_length (concat (map dumped_char s)) = length s" for s
    by (induction s) (simp_all add: dumped_char_def short_escapes_def utf8_length_def)
  then show ?thesis using u_dec_digits [of n] by (simp add: code_digit_def list_all_iff)
qed

text \<open>The number of the batch in the title is not in the card that was measured.\<close>

lemma title_size:
  assumes "1 < n"
  shows "card_size b date stocks i n = card_size b date stocks j 1 + 13 + length (u_dec i) + length (u_dec n)"
proof -
  define t where "t = [42, 42] @ card_title date stocks j 1"
  have 1: "[42, 42] @ card_title date stocks j 1 @ [42, 42] = t @ [42, 42]" by (simp add: t_def)
  have 2: "[42, 42] @ card_title date stocks i n @ [42, 42] = t @ [65288, 31532] @ u_dec i @ [47] @ u_dec n @ [25209, 65289] @ [42, 42]"
    using assms by (simp add: t_def card_title_def)
  have c: "byte_length (concat (map dumped_char [65288, 31532])) = 6" "byte_length (concat (map dumped_char [47])) = 1"
    "byte_length (concat (map dumped_char [25209, 65289])) = 6" by code_simp+
  have "byte_length (dumped_text (t @ [65288, 31532] @ u_dec i @ [47] @ u_dec n @ [25209, 65289] @ [42, 42]))
      = byte_length (dumped_text (t @ [42, 42])) + 13 + length (u_dec i) + length (u_dec n)"
    unfolding dumped_text_append map_append concat_append byte_length_append c dec_size by simp
  then have m: "byte_length (json_dumps (md ([42, 42] @ card_title date stocks i n @ [42, 42]) ''left''))
      = byte_length (json_dumps (md ([42, 42] @ card_title date stocks j 1 @ [42, 42]) ''left'')) + 13 + length (u_dec i) + length (u_dec n)"
    unfolding 1 2 by (simp add: md_def j_text_def)
  show ?thesis
    unfolding card_size_def build_card_def j_text_def
    by (simp add: comma_joined_size m del: comma_joined.simps(3) append.simps)
qed

lemma plain_text_size:
  assumes "list_all (\<lambda>c. 32 \<le> c \<and> c < 127 \<and> c \<noteq> 34 \<and> c \<noteq> 92) s"
  shows "byte_length (dumped_text s) = length s + 2"
proof -
  have "byte_length (concat (map dumped_char s)) = length s" using assms
    by (induction s) (simp_all add: dumped_char_def short_escapes_def utf8_length_def)
  then show ?thesis by (simp add: dumped_text_def utf8_length_def)
qed

lemma signed_payload_size:
  assumes "now < 10 ^ 10" "length sign = 44" "list_all (\<lambda>c. 32 \<le> c \<and> c < 127 \<and> c \<noteq> 34 \<and> c \<noteq> 92) sign"
  shows "byte_length (json_dumps (JObj (signed_payload now sign (build_card b date stocks i n)))) \<le> card_size b date stocks i n + 83"
proof -
  let ?c = "build_card b date stocks i n"
  have s: "signed_payload now sign ?c = ?c @ [(ustr_of ''timestamp'', JStr (u_dec now)), (ustr_of ''sign'', JStr sign)]"
    by (simp add: signed_payload_def build_card_def ustr_of_def)
  have u: "length (u_dec now) \<le> 10" using u_dec_length [of now 10] assms(1) by simp
  have d: "byte_length (dumped_text (u_dec now)) = length (u_dec now) + 2" by (simp add: dumped_text_def dec_size utf8_length_def)
  have k: "byte_length (dumped_text (ustr_of ''timestamp'') @ [58, 32]) = 13" "byte_length (dumped_text (ustr_of ''sign'') @ [58, 32]) = 8"
    by code_simp+
  show ?thesis using u k assms(2) plain_text_size [OF assms(3)]
    unfolding s by (simp add: build_card_def card_size_def comma_joined_size d del: comma_joined.simps(3))
qed

text \<open>
  C22: A message with more than one stock, with its number in the title, its time and its signature, has
  at most 20 KB of JSON text in UTF-8.
\<close>

theorem message_fits:
  assumes "i < length (split_into_batches date xs)" "1 < length (split_into_batches date xs ! i)"
    "length (split_into_batches date xs) < 10 ^ 6" "now < 10 ^ 10"
    "length sign = 44" "list_all (\<lambda>c. 32 \<le> c \<and> c < 127 \<and> c \<noteq> 34 \<and> c \<noteq> 92) sign"
  shows "byte_length (json_dumps (JObj (signed_payload now sign
    (build_card (split_into_batches date xs ! i) date (length xs) (i + 1) (length (split_into_batches date xs)))))) \<le> 20 * 1024"
proof -
  let ?bs = "split_into_batches date xs"
  have "greedy date (length xs) (i + 1) (?bs ! i) (concat (drop (Suc i) ?bs))"
    using split_from_greedy [of date "length xs" 0 xs] assms(1) by (simp add: split_into_batches_def)
  then have c: "card_size (?bs ! i) date (length xs) (i + 1) 1 \<le> max_bytes" using assms(2) by (auto simp: greedy_def)
  have l: "length (u_dec (i + 1)) \<le> 6" "length (u_dec (length ?bs)) \<le> 6" using u_dec_length [of "i + 1" 6] u_dec_length [of "length ?bs" 6] assms(1,3) by simp_all
  have "card_size (?bs ! i) date (length xs) (i + 1) (length ?bs) \<le> max_bytes + 25"
  proof (cases "1 < length ?bs")
    case True
    then show ?thesis using title_size [OF True, of "?bs ! i" date "length xs" "i + 1" "i + 1"] c l by simp
  next
    case False
    then have "length ?bs = 1" using assms(1) by simp
    then show ?thesis using c by simp
  qed
  then show ?thesis using signed_payload_size [OF assms(4-6), of "?bs ! i" date "length xs" "i + 1" "length ?bs"] by (simp add: max_bytes_def)
qed

text \<open>But the body that is posted escapes what is not ASCII: a Chinese character has twice the bytes that were counted.\<close>

definition posted_char :: "int \<Rightarrow> ustr" where
  "posted_char c = (if c < 127 then dumped_char c else [92, 117, hex_char (c div 4096), hex_char (c div 256 mod 16), hex_char (c div 16 mod 16), hex_char (c mod 16)])"

lemma posted_twice:
  assumes "2048 \<le> c" "c < 65536"
  shows "byte_length (posted_char c) = 2 * byte_length (dumped_char c)"
proof -
  have h: "utf8_length (hex_char d) = 1" if "0 \<le> d" "d < 16" for d
    using that by (auto simp: hex_char_def utf8_length_def)
  have "utf8_length (hex_char (c div 4096)) = 1" "utf8_length (hex_char (c div 256 mod 16)) = 1"
    "utf8_length (hex_char (c div 16 mod 16)) = 1" "utf8_length (hex_char (c mod 16)) = 1"
    using assms by (simp_all add: h)
  then show ?thesis using assms by (simp add: posted_char_def dumped_char_def short_escapes_def utf8_length_def)
qed

definition ex_stocks :: "json list list" where "ex_stocks = [[divider], [divider, divider]]"

lemma ex_batches: "split_into_batches [] ex_stocks = [ex_stocks]"
  by code_simp

lemma ex_stocks_length: "length ex_stocks = 2"
  by (simp add: ex_stocks_def)

theorem batches_greedy_witness:
  "greedy [] 2 1 ex_stocks [] \<and> concat (split_into_batches [] ex_stocks) = ex_stocks"
  using batches_greedy [of "[]" ex_stocks] by (simp add: ex_batches ex_stocks_length)

theorem message_fits_witness:
  "byte_length (json_dumps (JObj (signed_payload 1700000000 (replicate 44 65) (build_card ex_stocks [] 2 1 1)))) \<le> 20 * 1024"
proof -
  have "list_all (\<lambda>c :: int. 32 \<le> c \<and> c < 127 \<and> c \<noteq> 34 \<and> c \<noteq> 92) (replicate 44 65)" by (simp add: list_all_iff)
  from message_fits [of 0 "[]" ex_stocks 1700000000, OF _ _ _ _ _ this] show ?thesis
    by (simp add: ex_batches ex_stocks_length del: json_dumps.simps replicate.simps)
qed

end
