(* ===== verification/DailyQuotes.thy ===== *)
theory DailyQuotes
  imports SignalProcessing StockUtils "HOL-Library.List_Lexorder"
begin

text \<open>
  The collection of daily quotes in MongoDB, its two writers and its readers: the service that saves
  the frames of the data sources (\<open>app/services/historical_data_service.py\<close>), the preheater of the
  daily run (\<open>src/pipeline/data_preheater.py\<close>), and the cache that the analysis reads
  (\<open>tradingagents/dataflows/cache/mongodb_cache_adapter.py\<close>). A collection is the list of its
  documents. The values are JSON values, a NaN is a float that is not finite; dates and timestamps
  of a frame are texts of the form YYYY-MM-DD. \<open>shown\<close> is the \<open>str\<close> of a value that is no text.
\<close>

section \<open>The collection\<close>

type_synonym stored = "(ustr, json) dict"

definition fulfils :: "stored \<Rightarrow> stored \<Rightarrow> bool" where
  "fulfils query d \<longleftrightarrow> list_all (\<lambda>(k, v). dget d k = Some v) query"

fun change_first :: "('a \<Rightarrow> bool) \<Rightarrow> ('a \<Rightarrow> 'a) \<Rightarrow> 'a list \<Rightarrow> 'a list" where
  "change_first P f [] = []"
| "change_first P f (d # ds) = (if P d then f d # ds else d # change_first P f ds)"

text \<open>\<open>UpdateOne(query, $set)\<close> and \<open>ReplaceOne(query, doc)\<close>, both with \<open>upsert\<close>.\<close>

definition upsert_set :: "stored \<times> stored \<Rightarrow> stored list \<Rightarrow> stored list" where
  "upsert_set op coll = (let (query, fields) = op in
     if list_ex (fulfils query) coll then change_first (fulfils query) (\<lambda>d. dupdate d fields) coll else coll @ [dupdate query fields])"

definition upsert_replace :: "stored \<times> stored \<Rightarrow> stored list \<Rightarrow> stored list" where
  "upsert_replace op coll = (let (query, doc) = op in
     if list_ex (fulfils query) coll then change_first (fulfils query) (\<lambda>d. doc) coll else coll @ [doc])"

section \<open>The records of a data source\<close>

definition safe_float :: "json \<Rightarrow> json" where
  "safe_float v = (case v of JNull \<Rightarrow> JNull | JStr [] \<Rightarrow> JNull | JFloat NonFin \<Rightarrow> JNull
     | _ \<Rightarrow> (case float_of_json v of Some x \<Rightarrow> JFloat x | None \<Rightarrow> JNull))"

definition format_date :: "(json \<Rightarrow> ustr) \<Rightarrow> ustr \<Rightarrow> json \<Rightarrow> ustr" where
  "format_date shown today v = (case v of JNull \<Rightarrow> today
     | JStr s \<Rightarrow> if length s = 8 then take 4 s @ [45] @ take 2 (drop 4 s) @ [45] @ take 2 (drop 6 s) else s
     | _ \<Rightarrow> shown v)"

definition full_symbol :: "ustr \<Rightarrow> ustr \<Rightarrow> ustr" where
  "full_symbol symbol market = (if market = [67, 78] then symbol @ (if take 1 symbol = [54] then [46, 83, 72] else [46, 83, 90])
     else if market = [72, 75] then symbol @ [46, 72, 75] else symbol)"

text \<open>\<open>row.get(a) or row.get(b)\<close>.\<close>

definition cell_or :: "stored \<Rightarrow> ustr \<Rightarrow> ustr \<Rightarrow> json" where
  "cell_or row a b = (let v = dget_default row a JNull in if truthy v then v else dget_default row b JNull)"

text \<open>The date of a row: from a column, from the index when it holds dates, or today.\<close>

definition row_date :: "(json \<Rightarrow> ustr) \<Rightarrow> ustr \<Rightarrow> ustr option \<Rightarrow> stored \<Rightarrow> ustr" where
  "row_date shown today index row = (let v = cell_or row [100, 97, 116, 101] [116, 114, 97, 100, 101, 95, 100, 97, 116, 101] in
     if v \<noteq> JNull then format_date shown today v else (case index of Some s \<Rightarrow> s | None \<Rightarrow> today))"

definition round4 :: "fval \<Rightarrow> fval" where
  "round4 x = (case x of Fin r \<Rightarrow> Fin (py_round 4 r) | NonFin \<Rightarrow> NonFin)"

definition changes :: "stored \<Rightarrow> json \<Rightarrow> json \<Rightarrow> json \<times> json" where
  "changes row close pre_close = (case (close, pre_close) of
     (JFloat c, JFloat p) \<Rightarrow> if c \<noteq> Fin 0 \<and> p \<noteq> Fin 0 then
         (let ch = round4 (fval_op (-) c p) in (JFloat ch, JFloat (round4 (fval_op (*) (fval_op (/) ch p) (Fin 100)))))
       else (safe_float (dget_default row [99, 104, 97, 110, 103, 101] JNull), safe_float (cell_or row [112, 99, 116, 95, 99, 104, 103] [99, 104, 97, 110, 103, 101, 95, 112, 101, 114, 99, 101, 110, 116]))
   | _ \<Rightarrow> (safe_float (dget_default row [99, 104, 97, 110, 103, 101] JNull), safe_float (cell_or row [112, 99, 116, 95, 99, 104, 103] [99, 104, 97, 110, 103, 101, 95, 112, 101, 114, 99, 101, 110, 116])))"

definition optional_fields :: "stored \<Rightarrow> stored" where
  "optional_fields row = map (\<lambda>(k, v). (k, safe_float v)) (filter (\<lambda>(k, v). v \<noteq> JNull)
     [([116, 117, 114, 110, 111, 118, 101, 114, 95, 114, 97, 116, 101], cell_or row [116, 117, 114, 110, 111, 118, 101, 114, 95, 114, 97, 116, 101] [116, 117, 114, 110]), ([118, 111, 108, 117, 109, 101, 95, 114, 97, 116, 105, 111], dget_default row [118, 111, 108, 117, 109, 101, 95, 114, 97, 116, 105, 111] JNull),
      ([112, 101], dget_default row [112, 101] JNull), ([112, 98], dget_default row [112, 98] JNull), ([112, 115], dget_default row [112, 115] JNull),
      ([97, 100, 106, 117, 115, 116, 102, 108, 97, 103], cell_or row [97, 100, 106, 117, 115, 116, 102, 108, 97, 103] [97, 100, 106, 95, 102, 97, 99, 116, 111, 114]), ([116, 114, 97, 100, 101, 115, 116, 97, 116, 117, 115], dget_default row [116, 114, 97, 100, 101, 115, 116, 97, 116, 117, 115] JNull),
      ([105, 115, 83, 84], dget_default row [105, 115, 83, 84] JNull)])"

text \<open>Who writes: the stock, the source, the market, the period, and the time.\<close>

record saving =
  sv_symbol :: ustr
  sv_source :: ustr
  sv_market_name :: ustr
  sv_period :: ustr
  sv_today :: ustr
  sv_now :: ustr

definition record_key :: "saving \<Rightarrow> ustr \<Rightarrow> stored" where
  "record_key sv day = [([115, 121, 109, 98, 111, 108], JStr (sv_symbol sv)), ([116, 114, 97, 100, 101, 95, 100, 97, 116, 101], JStr day), ([100, 97, 116, 97, 95, 115, 111, 117, 114, 99, 101], JStr (sv_source sv)),
     ([112, 101, 114, 105, 111, 100], JStr (sv_period sv))]"

definition standardize_record :: "(json \<Rightarrow> ustr) \<Rightarrow> saving \<Rightarrow> ustr option \<times> stored \<Rightarrow> stored" where
  "standardize_record shown sv ir = (let (index, row) = ir; day = row_date shown (sv_today sv) index row;
     close = safe_float (dget_default row [99, 108, 111, 115, 101] JNull); pre_close = safe_float (cell_or row [112, 114, 101, 95, 99, 108, 111, 115, 101] [112, 114, 101, 99, 108, 111, 115, 101]);
     (change, pct) = changes row close pre_close in
   record_key sv day
     @ [([99, 111, 100, 101], JStr (sv_symbol sv)), ([102, 117, 108, 108, 95, 115, 121, 109, 98, 111, 108], JStr (full_symbol (sv_symbol sv) (sv_market_name sv))), ([109, 97, 114, 107, 101, 116], JStr (sv_market_name sv)),
        ([99, 114, 101, 97, 116, 101, 100, 95, 97, 116], JStr (sv_now sv)), ([117, 112, 100, 97, 116, 101, 100, 95, 97, 116], JStr (sv_now sv)), ([118, 101, 114, 115, 105, 111, 110], JInt 1),
        ([111, 112, 101, 110], safe_float (dget_default row [111, 112, 101, 110] JNull)), ([104, 105, 103, 104], safe_float (dget_default row [104, 105, 103, 104] JNull)),
        ([108, 111, 119], safe_float (dget_default row [108, 111, 119] JNull)), ([99, 108, 111, 115, 101], close), ([112, 114, 101, 95, 99, 108, 111, 115, 101], pre_close),
        ([118, 111, 108, 117, 109, 101], safe_float (cell_or row [118, 111, 108, 117, 109, 101] [118, 111, 108])), ([97, 109, 111, 117, 110, 116], safe_float (cell_or row [97, 109, 111, 117, 110, 116] [116, 117, 114, 110, 111, 118, 101, 114])),
        ([99, 104, 97, 110, 103, 101], change), ([112, 99, 116, 95, 99, 104, 103], pct)]
     @ optional_fields row)"

section \<open>Saving\<close>

text \<open>Units of Tushare: thousands and lots; the first of the two columns that the frame has.\<close>

definition scaled :: "int \<Rightarrow> json \<Rightarrow> json" where
  "scaled k v = (case v of JInt i \<Rightarrow> JInt (i * k) | JFloat x \<Rightarrow> JFloat (fval_op (*) x (Fin (of_int k))) | _ \<Rightarrow> v)"

definition scale_column :: "int \<Rightarrow> ustr \<Rightarrow> ustr \<Rightarrow> stored \<Rightarrow> stored" where
  "scale_column k a b row = (case dget row a of Some v \<Rightarrow> dset a (scaled k v) row
     | None \<Rightarrow> (case dget row b of Some v \<Rightarrow> dset b (scaled k v) row | None \<Rightarrow> row))"

definition in_units :: "saving \<Rightarrow> stored \<Rightarrow> stored" where
  "in_units sv row = (if sv_source sv = [116, 117, 115, 104, 97, 114, 101] then scale_column 100 [118, 111, 108, 117, 109, 101] [118, 111, 108] (scale_column 1000 [97, 109, 111, 117, 110, 116] [116, 117, 114, 110, 111, 118, 101, 114] row) else row)"

text \<open>\<open>shift(1)\<close>: the close of the row before it, a NaN in the first row.\<close>

fun with_pre_close :: "json \<Rightarrow> (ustr option \<times> stored) list \<Rightarrow> (ustr option \<times> stored) list" where
  "with_pre_close previous [] = []"
| "with_pre_close previous ((i, row) # rows) = (i, if dget row [112, 114, 101, 95, 99, 108, 111, 115, 101] = None \<and> dget row [99, 108, 111, 115, 101] \<noteq> None then dset [112, 114, 101, 95, 99, 108, 111, 115, 101] previous row else row)
     # with_pre_close (dget_default row [99, 108, 111, 115, 101] JNull) rows"

definition prepared_rows :: "saving \<Rightarrow> (ustr option \<times> stored) list \<Rightarrow> (ustr option \<times> stored) list" where
  "prepared_rows sv rows = (let units = map (\<lambda>(i, r). (i, in_units sv r)) rows in
     if sv_market_name sv \<in> {[72, 75], [85, 83]} then with_pre_close (JFloat NonFin) units else units)"

definition save_op :: "(json \<Rightarrow> ustr) \<Rightarrow> saving \<Rightarrow> ustr option \<times> stored \<Rightarrow> stored \<times> stored" where
  "save_op shown sv ir = (let doc = standardize_record shown sv ir in
     (filter (\<lambda>(k, v). k \<in> {[115, 121, 109, 98, 111, 108], [116, 114, 97, 100, 101, 95, 100, 97, 116, 101], [100, 97, 116, 97, 95, 115, 111, 117, 114, 99, 101], [112, 101, 114, 105, 111, 100]}) doc, doc))"

text \<open>
  A bulk write: how many documents MongoDB reports as new or changed, or an error, after the chosen
  operations were carried out. The write is not ordered, so MongoDB may carry the operations out in
  any order: every outcome gives each operation a rank. After a timeout it is tried again, five
  times at most.
\<close>

datatype bulk_result =
    Saved nat "nat \<Rightarrow> nat"
  | TimedOut "nat \<Rightarrow> bool" "nat \<Rightarrow> nat"
  | BulkFailed "nat \<Rightarrow> bool" "nat \<Rightarrow> nat"

definition chosen :: "(nat \<Rightarrow> bool) \<Rightarrow> (nat \<Rightarrow> nat) \<Rightarrow> 'a list \<Rightarrow> 'a list" where
  "chosen sel rank xs = map snd (sort_key (rank \<circ> fst) (filter (\<lambda>(i, x). sel i) (enumerate 0 xs)))"

definition apply_ops :: "(nat \<Rightarrow> bool) \<Rightarrow> (nat \<Rightarrow> nat) \<Rightarrow> (stored \<times> stored) list \<Rightarrow> stored list \<Rightarrow> stored list" where
  "apply_ops sel rank ops coll = fold upsert_replace (chosen sel rank ops) coll"

fun bulk_write_with_retry :: "nat \<Rightarrow> (nat \<Rightarrow> bulk_result) \<Rightarrow> (stored \<times> stored) list \<Rightarrow> stored list \<Rightarrow> stored list \<times> nat" where
  "bulk_write_with_retry 0 outcome ops coll = (coll, 0)"
| "bulk_write_with_retry (Suc n) outcome ops coll = (case outcome n of
       Saved k rank \<Rightarrow> (apply_ops (\<lambda>i. True) rank ops coll, k)
     | TimedOut sel rank \<Rightarrow> bulk_write_with_retry n outcome ops (apply_ops sel rank ops coll)
     | BulkFailed sel rank \<Rightarrow> (apply_ops sel rank ops coll, 0))"

definition write_attempts :: nat where "write_attempts = 5"

definition write_batch :: nat where "write_batch = 200"

text \<open>The batches, with the number of the batch for its outcomes.\<close>

function save_batches :: "(nat \<Rightarrow> nat \<Rightarrow> bulk_result) \<Rightarrow> nat \<Rightarrow> (stored \<times> stored) list \<Rightarrow> stored list \<times> nat \<Rightarrow> stored list \<times> nat" where
  "save_batches outcome k ops st = (if ops = [] then st
     else (let (coll, n) = bulk_write_with_retry write_attempts (outcome k) (take write_batch ops) (fst st) in
       save_batches outcome (k + 1) (drop write_batch ops) (coll, snd st + n)))"
  by pat_completeness auto
termination
  by (relation "measure (\<lambda>(outcome, k, ops, st). length ops)") (auto simp: write_batch_def)

declare save_batches.simps [simp del]

definition save_historical_data :: "(json \<Rightarrow> ustr) \<Rightarrow> (nat \<Rightarrow> nat \<Rightarrow> bulk_result) \<Rightarrow> saving \<Rightarrow> (ustr option \<times> stored) list \<Rightarrow> stored list \<Rightarrow> stored list \<times> nat" where
  "save_historical_data shown outcome sv rows coll = save_batches outcome 0 (map (save_op shown sv) (prepared_rows sv rows)) (coll, 0)"

section \<open>Preheating\<close>

datatype day_file = NoFile | BadFile | FileValue json

definition kline_rows :: "json \<Rightarrow> json list option" where
  "kline_rows v = (case v of JObj d \<Rightarrow> (case dget d [100, 97, 116, 97] of Some (JList l) \<Rightarrow> if length l < 10 then None else Some l | _ \<Rightarrow> None) | _ \<Rightarrow> None)"

definition compact_date :: "(json \<Rightarrow> ustr) \<Rightarrow> json \<Rightarrow> ustr" where
  "compact_date shown v = filter (\<lambda>c. c \<noteq> 45) (take 10 (json_text shown v))"

definition preheat_key :: "ustr \<Rightarrow> ustr \<Rightarrow> stored" where
  "preheat_key code6 day = [([115, 121, 109, 98, 111, 108], JStr code6), ([116, 114, 97, 100, 101, 95, 100, 97, 116, 101], JStr day), ([112, 101, 114, 105, 111, 100], JStr [100, 97, 105, 108, 121])]"

definition preheat_op :: "ustr \<Rightarrow> ustr \<Rightarrow> stored \<Rightarrow> stored \<times> stored" where
  "preheat_op code6 day row = (preheat_key code6 day, preheat_key code6 day
     @ map (\<lambda>(k, f). (k, dget_default row f JNull)) [([111, 112, 101, 110], [111]), ([104, 105, 103, 104], [104]), ([108, 111, 119], [108]), ([99, 108, 111, 115, 101], [99]), ([118, 111, 108, 117, 109, 101], [118]),
         ([97, 109, 111, 117, 110, 116], [97]), ([112, 114, 101, 95, 99, 108, 111, 115, 101], [112, 99])]
     @ [([100, 97, 116, 97, 95, 115, 111, 117, 114, 99, 101], JStr [122, 104, 105, 116, 117])])"

text \<open>The operations of a stock; \<open>None\<close> when a row is no dict, which raises.\<close>

fun preheat_ops :: "(json \<Rightarrow> ustr) \<Rightarrow> ustr \<Rightarrow> json list \<Rightarrow> (stored \<times> stored) list option" where
  "preheat_ops shown code6 [] = Some []"
| "preheat_ops shown code6 (JObj row # rows) = (let day = compact_date shown (dget_default row [116] (JStr [])) in
     map_option (\<lambda>ops. (if length day = 8 then [preheat_op code6 day row] else []) @ ops) (preheat_ops shown code6 rows))"
| "preheat_ops shown code6 (v # rows) = None"

definition code_part :: "ustr \<Rightarrow> ustr" where "code_part code = takeWhile (\<lambda>c. c \<noteq> 46) code"

definition preheat_stock :: "(json \<Rightarrow> ustr) \<Rightarrow> (ustr \<Rightarrow> day_file) \<Rightarrow> (ustr \<Rightarrow> bool) \<Rightarrow> ustr \<Rightarrow> stored list \<times> nat \<Rightarrow> stored list \<times> nat" where
  "preheat_stock shown files writes code st = (case files (code @ [95, 100, 46, 106, 115, 111, 110]) of
     FileValue v \<Rightarrow> (case kline_rows v of Some rows \<Rightarrow> (case preheat_ops shown (code_part code) rows of
         Some (op # ops) \<Rightarrow> if writes code then (fold upsert_set (op # ops) (fst st), snd st + 1) else st
       | _ \<Rightarrow> st) | None \<Rightarrow> st)
   | _ \<Rightarrow> st)"

text \<open>All stocks; nothing without the database.\<close>

definition preheat :: "(json \<Rightarrow> ustr) \<Rightarrow> (ustr \<Rightarrow> day_file) \<Rightarrow> (ustr \<Rightarrow> bool) \<Rightarrow> bool \<Rightarrow> ustr list \<Rightarrow> stored list \<Rightarrow> stored list \<times> nat" where
  "preheat shown files writes db_up codes coll = (if db_up then fold (preheat_stock shown files writes) codes (coll, 0) else (coll, 0))"

section \<open>Preheating the indicators\<close>

definition indicator_key :: "ustr \<Rightarrow> ustr \<Rightarrow> ustr \<Rightarrow> stored" where
  "indicator_key code6 day kind = [([115, 121, 109, 98, 111, 108], JStr code6), ([116, 114, 97, 100, 101, 95, 100, 97, 116, 101], JStr day), ([105, 110, 100, 105, 99, 97, 116, 111, 114], JStr kind)]"

definition indicator_op :: "(json \<Rightarrow> ustr) \<Rightarrow> ustr \<Rightarrow> ustr \<Rightarrow> stored \<Rightarrow> (stored \<times> stored) list" where
  "indicator_op shown code6 kind row = (let day = compact_date shown (dget_default row [116, 105, 109, 101] (JStr [])) in
     if length day \<noteq> 8 then [] else [(indicator_key code6 day kind,
       dupdate (indicator_key code6 day kind @ [([100, 97, 116, 97, 95, 115, 111, 117, 114, 99, 101], JStr [122, 104, 105, 116, 117])]) (filter (\<lambda>(k, v). k \<noteq> [116, 105, 109, 101]) row))])"

text \<open>The tables of MACD, KDJ and BOLL; \<open>None\<close> when one of the calls raises.\<close>

definition preheat_indicators :: "(json \<Rightarrow> ustr) \<Rightarrow> (ustr \<Rightarrow> (stored list \<times> stored list \<times> stored list) option) \<Rightarrow> (ustr \<Rightarrow> bool) \<Rightarrow> bool \<Rightarrow> ustr list
    \<Rightarrow> stored list \<Rightarrow> stored list \<times> nat" where
  "preheat_indicators shown tables writes available codes coll = (if available then fold (\<lambda>code st.
     (case tables (code_part code) of None \<Rightarrow> st
      | Some (macd, kdj, boll) \<Rightarrow> (let ops = concat (map (indicator_op shown (code_part code) [109, 97, 99, 100]) macd)
            @ concat (map (indicator_op shown (code_part code) [107, 100, 106]) kdj) @ concat (map (indicator_op shown (code_part code) [98, 111, 108, 108]) boll) in
          if ops \<noteq> [] \<and> writes code then (fold upsert_set ops (fst st), snd st + 1) else st))) codes (coll, 0) else (coll, 0))"

section \<open>Reading\<close>

text \<open>A range of dates compares texts; a bound that is empty or missing is none.\<close>

definition day_text :: "stored \<Rightarrow> ustr" where
  "day_text d = (case dget d [116, 114, 97, 100, 101, 95, 100, 97, 116, 101] of Some (JStr s) \<Rightarrow> s | _ \<Rightarrow> [])"

definition in_range :: "ustr \<Rightarrow> ustr \<Rightarrow> stored \<Rightarrow> bool" where
  "in_range start until d \<longleftrightarrow> (start = [] \<and> until = []) \<or> (case dget d [116, 114, 97, 100, 101, 95, 100, 97, 116, 101] of
     Some (JStr s) \<Rightarrow> (start = [] \<or> start \<le> s) \<and> (until = [] \<or> s \<le> until) | _ \<Rightarrow> False)"

definition find_days :: "stored \<Rightarrow> ustr \<Rightarrow> ustr \<Rightarrow> stored list \<Rightarrow> stored list" where
  "find_days query start until coll = sort_key day_text (filter (\<lambda>d. fulfils query d \<and> in_range start until d) coll)"

text \<open>\<open>get_historical_data\<close> of the service: the latest first, with a limit.\<close>

definition service_query :: "ustr \<Rightarrow> ustr \<Rightarrow> ustr \<Rightarrow> stored" where
  "service_query symbol source period = ([115, 121, 109, 98, 111, 108], JStr symbol) # (if source = [] then [] else [([100, 97, 116, 97, 95, 115, 111, 117, 114, 99, 101], JStr source)])
     @ (if period = [] then [] else [([112, 101, 114, 105, 111, 100], JStr period)])"

definition get_historical_data :: "ustr \<Rightarrow> ustr \<Rightarrow> ustr \<Rightarrow> ustr \<Rightarrow> ustr \<Rightarrow> nat \<Rightarrow> stored list \<Rightarrow> stored list" where
  "get_historical_data symbol start until source period limit coll = (let ds = rev (find_days (service_query symbol source period) start until coll) in
     if limit = 0 then ds else take limit ds)"

definition get_latest_date :: "ustr \<Rightarrow> ustr \<Rightarrow> stored list \<Rightarrow> ustr option" where
  "get_latest_date symbol source coll = (case rev (find_days (service_query symbol source []) [] [] coll) of [] \<Rightarrow> None | d # ds \<Rightarrow> Some (day_text d))"

text \<open>The sources of the active configuration: their type, whether enabled, priority and markets.\<close>

record source_config =
  so_type :: ustr
  so_enabled :: bool
  so_priority :: int
  so_markets :: "ustr list"

definition market_category :: "ustr \<Rightarrow> ustr option" where
  "market_category symbol = (case identify_stock_market symbol of ChinaA \<Rightarrow> Some [97, 95, 115, 104, 97, 114, 101, 115] | UnitedStates \<Rightarrow> Some [117, 115, 95, 115, 116, 111, 99, 107, 115]
     | HongKong \<Rightarrow> Some [104, 107, 95, 115, 116, 111, 99, 107, 115] | _ \<Rightarrow> None)"

definition default_priority :: "ustr list" where
  "default_priority = [[97, 107, 115, 104, 97, 114, 101], [98, 97, 111, 115, 116, 111, 99, 107], [116, 117, 115, 104, 97, 114, 101], [122, 104, 105, 116, 117]]"

definition usable_source :: "ustr option \<Rightarrow> source_config \<Rightarrow> bool" where
  "usable_source category c \<longleftrightarrow> so_enabled c \<and> (so_markets c = [] \<or> (case category of None \<Rightarrow> True | Some m \<Rightarrow> m \<in> set (so_markets c)))"

definition data_source_priority :: "source_config list option \<Rightarrow> ustr \<Rightarrow> ustr list" where
  "data_source_priority cfg symbol = (case cfg of None \<Rightarrow> default_priority
     | Some cs \<Rightarrow> (let usable = rev (sort_key so_priority (rev (filter (usable_source (market_category symbol)) cs)));
           names = map u_lower (filter (\<lambda>t. t \<noteq> []) (map so_type usable)) in
         if names = [] then default_priority else names))"

text \<open>\<open>get_historical_data\<close> of the cache: the first source with documents, the earliest first.\<close>

definition cached_days :: "source_config list option \<Rightarrow> ustr \<Rightarrow> ustr \<Rightarrow> ustr \<Rightarrow> ustr \<Rightarrow> stored list \<Rightarrow> stored list option" where
  "cached_days cfg symbol start until period coll = (let code6 = replicate (6 - length symbol) 48 @ symbol in
     find (\<lambda>ds. ds \<noteq> []) (map (\<lambda>source. find_days [([115, 121, 109, 98, 111, 108], JStr code6), ([112, 101, 114, 105, 111, 100], JStr period), ([100, 97, 116, 97, 95, 115, 111, 117, 114, 99, 101], JStr source)] start until coll)
       (data_source_priority cfg symbol)))"

end
