(* ===== verification/DailyQuotesProofs.thy ===== *)
theory DailyQuotesProofs
  imports DailyQuotes
begin

text \<open>
  The collection of daily quotes: one document for each stock, day, source and period, what is found
  after saving, and what a reader finds of the days that were preheated.
\<close>

section \<open>One document per key\<close>

definition doc_key :: "stored \<Rightarrow> json option list" where
  "doc_key d = map (dget d) [[115, 121, 109, 98, 111, 108], [116, 114, 97, 100, 101, 95, 100, 97, 116, 101], [100, 97, 116, 97, 95, 115, 111, 117, 114, 99, 101], [112, 101, 114, 105, 111, 100]]"

definition day_key :: "saving \<Rightarrow> ustr \<Rightarrow> json option list" where
  "day_key sv day = map (\<lambda>v. Some (JStr v)) [sv_symbol sv, day, sv_source sv, sv_period sv]"

lemma fulfils_record_key: "fulfils (record_key sv day) d \<longleftrightarrow> doc_key d = day_key sv day"
  by (auto simp: fulfils_def record_key_def doc_key_def day_key_def)

lemma standardize_parts:
  obtains rest where "standardize_record shown sv (i, row) = record_key sv (row_date shown (sv_today sv) i row) @ rest"
    "\<forall>k \<in> set (dkeys rest). k \<notin> set [[115, 121, 109, 98, 111, 108], [116, 114, 97, 100, 101, 95, 100, 97, 116, 101], [100, 97, 116, 97, 95, 115, 111, 117, 114, 99, 101], [112, 101, 114, 105, 111, 100]]"
proof -
  have "dkeys (map (\<lambda>(k, v). (k, f v)) xs) = dkeys xs" for f :: "json \<Rightarrow> json" and xs :: stored
    by (simp add: comp_def split_beta)
  moreover have "set (dkeys (filter P xs)) \<subseteq> set (dkeys xs)" for P and xs :: stored by auto
  ultimately have o: "set (dkeys (optional_fields row)) \<subseteq> set [[116, 117, 114, 110, 111, 118, 101, 114, 95, 114, 97, 116, 101], [118, 111, 108, 117, 109, 101, 95, 114, 97, 116, 105, 111], [112, 101], [112, 98], [112, 115], [97, 100, 106, 117, 115, 116, 102, 108, 97, 103], [116, 114, 97, 100, 101, 115, 116, 97, 116, 117, 115], [105, 115, 83, 84]]"
    unfolding optional_fields_def by (rule ord_eq_le_trans [OF arg_cong [where f = set] order_trans]) simp
  define fixed :: "ustr list" where "fixed = [[99, 111, 100, 101], [102, 117, 108, 108, 95, 115, 121, 109, 98, 111, 108], [109, 97, 114, 107, 101, 116], [99, 114, 101, 97, 116, 101, 100, 95, 97, 116], [117, 112, 100, 97, 116, 101, 100, 95, 97, 116], [118, 101, 114, 115, 105, 111, 110],
    [111, 112, 101, 110], [104, 105, 103, 104], [108, 111, 119], [99, 108, 111, 115, 101], [112, 114, 101, 95, 99, 108, 111, 115, 101], [118, 111, 108, 117, 109, 101], [97, 109, 111, 117, 110, 116], [99, 104, 97, 110, 103, 101], [112, 99, 116, 95, 99, 104, 103]]"
  define options :: "ustr list" where "options = [[116, 117, 114, 110, 111, 118, 101, 114, 95, 114, 97, 116, 101], [118, 111, 108, 117, 109, 101, 95, 114, 97, 116, 105, 111], [112, 101], [112, 98], [112, 115], [97, 100, 106, 117, 115, 116, 102, 108, 97, 103], [116, 114, 97, 100, 101, 115, 116, 97, 116, 117, 115], [105, 115, 83, 84]]"
  have n: "list_all (\<lambda>k. k \<notin> set [[115, 121, 109, 98, 111, 108], [116, 114, 97, 100, 101, 95, 100, 97, 116, 101], [100, 97, 116, 97, 95, 115, 111, 117, 114, 99, 101], [112, 101, 114, 105, 111, 100]]) (fixed @ options)"
    unfolding fixed_def options_def by code_simp
  show ?thesis
  proof (rule that)
    show "standardize_record shown sv (i, row) = record_key sv (row_date shown (sv_today sv) i row)
      @ drop 4 (standardize_record shown sv (i, row))"
      by (simp add: standardize_record_def record_key_def Let_def split_beta)
    have "dkeys (drop 4 (standardize_record shown sv (i, row))) = fixed @ dkeys (optional_fields row)"
      by (simp add: standardize_record_def record_key_def fixed_def Let_def split_beta)
    then have "set (dkeys (drop 4 (standardize_record shown sv (i, row)))) \<subseteq> set (fixed @ options)"
      using o unfolding options_def [symmetric] by (simp only: set_append Un_mono order_refl)
    then show "\<forall>k \<in> set (dkeys (drop 4 (standardize_record shown sv (i, row)))). k \<notin> set [[115, 121, 109, 98, 111, 108], [116, 114, 97, 100, 101, 95, 100, 97, 116, 101], [100, 97, 116, 97, 95, 115, 111, 117, 114, 99, 101], [112, 101, 114, 105, 111, 100]]"
      using n unfolding list_all_iff by blast
  qed
qed

lemma standardize_key: "doc_key (standardize_record shown sv (i, row)) = day_key sv (row_date shown (sv_today sv) i row)"
proof -
  obtain rest where "standardize_record shown sv (i, row) = record_key sv (row_date shown (sv_today sv) i row) @ rest"
    by (rule standardize_parts)
  then show ?thesis by (simp add: doc_key_def day_key_def record_key_def map_add_def)
qed

text \<open>The operation of a row replaces the document with the key of the row.\<close>

definition op_for :: "saving \<Rightarrow> stored \<times> stored \<Rightarrow> bool" where
  "op_for sv op \<longleftrightarrow> (\<exists>day. fst op = record_key sv day \<and> doc_key (snd op) = day_key sv day)"

lemma save_op_key: "op_for sv (save_op shown sv ir)"
proof (cases ir)
  case (Pair i row)
  obtain rest where r: "standardize_record shown sv (i, row) = record_key sv (row_date shown (sv_today sv) i row) @ rest"
    "\<forall>k \<in> set (dkeys rest). k \<notin> set [[115, 121, 109, 98, 111, 108], [116, 114, 97, 100, 101, 95, 100, 97, 116, 101], [100, 97, 116, 97, 95, 115, 111, 117, 114, 99, 101], [112, 101, 114, 105, 111, 100]]"
    by (rule standardize_parts)
  let ?P = "\<lambda>(k, v). k \<in> {[115, 121, 109, 98, 111, 108], [116, 114, 97, 100, 101, 95, 100, 97, 116, 101], [100, 97, 116, 97, 95, 115, 111, 117, 114, 99, 101], [112, 101, 114, 105, 111, 100]}"
  have "filter ?P rest = []" using r(2) by (force simp: filter_empty_conv)
  moreover have "filter ?P (record_key sv day) = record_key sv day" for day by (simp add: record_key_def)
  ultimately have "fst (save_op shown sv ir) = record_key sv (row_date shown (sv_today sv) i row)"
    unfolding Pair save_op_def Let_def r(1) by (simp only: fst_conv filter_append append_Nil2)
  then show ?thesis using standardize_key [of shown sv i row] by (auto simp: op_for_def Pair save_op_def Let_def)
qed

lemma change_first_keys:
  assumes "\<And>d. P d \<Longrightarrow> h (f d) = h d"
  shows "map h (change_first P f ds) = map h ds"
  using assms by (induction ds) simp_all

lemma replace_keys:
  assumes "op_for sv op"
  shows "map doc_key (upsert_replace op coll) = (if doc_key (snd op) \<in> set (map doc_key coll) then map doc_key coll else map doc_key coll @ [doc_key (snd op)])"
proof -
  obtain day where k: "fst op = record_key sv day" "doc_key (snd op) = day_key sv day" using assms by (auto simp: op_for_def)
  have f: "fulfils (fst op) = (\<lambda>d. doc_key d = doc_key (snd op))" by (simp add: k fulfils_record_key fun_eq_iff)
  have "map doc_key (change_first (\<lambda>d. doc_key d = doc_key (snd op)) (\<lambda>d. snd op) coll) = map doc_key coll"
    by (rule change_first_keys) simp
  moreover have "list_ex (\<lambda>d. doc_key d = doc_key (snd op)) coll \<longleftrightarrow> doc_key (snd op) \<in> set (map doc_key coll)"
    by (auto simp: list_ex_iff intro: rev_image_eqI)
  ultimately show ?thesis by (simp add: upsert_replace_def split_beta f)
qed

lemma replace_distinct: "op_for sv op \<Longrightarrow> distinct (map doc_key coll) \<Longrightarrow> distinct (map doc_key (upsert_replace op coll))"
  by (simp add: replace_keys)

text \<open>An operation that keeps a property of the collection keeps it in every run of the writer.\<close>

lemma enumerate_snd: "image_mset snd (mset (enumerate n xs)) = mset xs"
  by (metis map_snd_enumerate mset_map)

lemma chosen_mset: "mset (chosen sel rank xs) = image_mset snd (filter_mset (\<lambda>(i, x). sel i) (mset (enumerate 0 xs)))"
  by (simp add: chosen_def)

lemma chosen_subset: "set (chosen sel rank xs) \<subseteq> set xs"
  using enumerate_snd [of 0 xs, THEN arg_cong [where f = set_mset]] by (auto simp: chosen_def)

lemma chosen_all: "mset (chosen (\<lambda>i. True) rank xs) = mset xs"
  by (simp add: chosen_mset enumerate_snd split_def)

lemma apply_ops_keep:
  assumes "\<And>op coll. op \<in> set ops \<Longrightarrow> Q coll \<Longrightarrow> Q (upsert_replace op coll)"
  shows "Q coll \<Longrightarrow> Q (apply_ops sel rank ops coll)"
proof -
  have k: "set xs \<subseteq> set ops \<Longrightarrow> Q coll \<Longrightarrow> Q (fold upsert_replace xs coll)" for xs
    using assms by (induction xs arbitrary: coll) simp_all
  show "Q coll \<Longrightarrow> Q (apply_ops sel rank ops coll)" unfolding apply_ops_def by (rule k [OF chosen_subset])
qed

lemma bulk_keep:
  assumes "\<And>op coll. op \<in> set ops \<Longrightarrow> Q coll \<Longrightarrow> Q (upsert_replace op coll)"
  shows "Q coll \<Longrightarrow> Q (fst (bulk_write_with_retry n outcome ops coll))"
proof (induction n arbitrary: coll)
  case (Suc n)
  have "Q (apply_ops sel rank ops coll)" for sel rank
    by (rule apply_ops_keep [where Q = Q, OF assms Suc.prems])
  then show ?case using Suc.IH by (simp split: bulk_result.split)
qed simp

lemma save_batches_keep:
  assumes "\<And>op coll. op \<in> set ops \<Longrightarrow> Q coll \<Longrightarrow> Q (upsert_replace op coll)" "Q (fst st)"
  shows "Q (fst (save_batches outcome k ops st))"
  using assms
proof (induction outcome k ops st rule: save_batches.induct)
  case (1 outcome k ops st)
  show ?case
  proof (cases "ops = []")
    case True
    then show ?thesis using "1.prems"(2) by (simp add: save_batches.simps)
  next
    case False
    obtain coll n where b: "bulk_write_with_retry write_attempts (outcome k) (take write_batch ops) (fst st) = (coll, n)" by force
    have s: "save_batches outcome k ops st = save_batches outcome (k + 1) (drop write_batch ops) (coll, snd st + n)"
      using False by (simp add: save_batches.simps [of outcome k ops] b)
    have "Q (fst (bulk_write_with_retry write_attempts (outcome k) (take write_batch ops) (fst st)))"
      by (rule bulk_keep [where Q = Q, OF _ "1.prems"(2)]) (rule "1.prems"(1), erule in_set_takeD)
    then have "Q (fst (coll, snd st + n))" using b by simp
    moreover have "\<And>op coll. op \<in> set (drop write_batch ops) \<Longrightarrow> Q coll \<Longrightarrow> Q (upsert_replace op coll)"
      by (rule "1.prems"(1), erule in_set_dropD)
    ultimately show ?thesis unfolding s by (intro "1.IH" [OF False b [symmetric] refl]) simp_all
  qed
qed

text \<open>
  C20: Whatever MongoDB answers, also after timeouts and failures half way, saving keeps at most one
  document for a stock, a day, a source and a period.
\<close>

theorem saved_unique:
  assumes "distinct (map doc_key coll)"
  shows "distinct (map doc_key (fst (save_historical_data shown outcome sv rows coll)))"
  unfolding save_historical_data_def
proof (rule save_batches_keep)
  fix op coll assume "op \<in> set (map (save_op shown sv) (prepared_rows sv rows))" "distinct (map doc_key coll)"
  then show "distinct (map doc_key (upsert_replace op coll))" using save_op_key replace_distinct by (metis (no_types) in_set_conv_nth length_map nth_map)
qed (use assms in simp)

section \<open>What is found after saving\<close>

lemma find_change_first: "find P (change_first P (\<lambda>d. d2) ds) = (if list_ex P ds then if P d2 then Some d2 else find P (tl (dropWhile (\<lambda>d. \<not> P d) ds)) else None)"
  by (induction ds) simp_all

lemma find_change_other:
  assumes "\<And>d. P d \<Longrightarrow> \<not> Q d" "\<not> Q d2"
  shows "find Q (change_first P (\<lambda>d. d2) ds) = find Q ds"
  using assms by (induction ds) auto

lemma find_none: "\<not> list_ex P ds \<Longrightarrow> find P ds = None"
  by (simp add: find_None_iff list_ex_iff)

lemma find_append_case: "find P (xs @ ys) = (case find P xs of Some x \<Rightarrow> Some x | None \<Rightarrow> find P ys)"
  by (induction xs) simp_all

lemma find_replace:
  assumes "op_for sv op"
  shows "find (\<lambda>d. doc_key d = key) (upsert_replace op coll) = (if doc_key (snd op) = key then Some (snd op) else find (\<lambda>d. doc_key d = key) coll)"
proof -
  have f: "fulfils (fst op) = (\<lambda>d. doc_key d = doc_key (snd op))" using assms by (auto simp: op_for_def fulfils_record_key fun_eq_iff)
  show ?thesis
  proof (cases "doc_key (snd op) = key")
    case True
    then show ?thesis
      by (cases "list_ex (\<lambda>d. doc_key d = key) coll") (simp_all add: upsert_replace_def split_beta f find_change_first find_append_case find_none)
  next
    case False
    have "find (\<lambda>d. doc_key d = key) (change_first (\<lambda>d. doc_key d = doc_key (snd op)) (\<lambda>d. snd op) coll) = find (\<lambda>d. doc_key d = key) coll"
      using False by (intro find_change_other) auto
    then show ?thesis using False by (simp add: upsert_replace_def split_beta f find_append_case split: option.split)
  qed
qed

text \<open>After operations in any order the document with a key is that of one of them.\<close>

definition same_key :: "json option list \<Rightarrow> stored \<times> stored \<Rightarrow> bool" where
  "same_key key op \<longleftrightarrow> doc_key (snd op) = key"

lemma find_fold:
  assumes "\<forall>op \<in> set ops. op_for sv op"
  shows "find (\<lambda>d. doc_key d = key) (fold upsert_replace ops coll) = (case find (same_key key) (rev ops) of
     Some op \<Rightarrow> Some (snd op) | None \<Rightarrow> find (\<lambda>d. doc_key d = key) coll)"
  using assms
proof (induction ops rule: rev_induct)
  case (snoc op ops)
  then have "op_for sv op" by simp
  have a: "find (\<lambda>d. doc_key d = key) (fold upsert_replace (ops @ [op]) coll) = find (\<lambda>d. doc_key d = key) (upsert_replace op (fold upsert_replace ops coll))"
    by simp
  have b: "find (same_key key) (rev (ops @ [op])) = (if doc_key (snd op) = key then Some op else find (same_key key) (rev ops))"
    by (simp add: same_key_def)
  show ?case unfolding a b find_replace [OF \<open>op_for sv op\<close>] using snoc by simp
qed simp

lemma find_apply_all:
  assumes "\<forall>op \<in> set ops. op_for sv op" "op \<in> set ops" "same_key key op"
  shows "\<exists>i < length ops. same_key key (ops ! i)
    \<and> find (\<lambda>d. doc_key d = key) (apply_ops (\<lambda>i. True) rank ops coll) = Some (snd (ops ! i))"
proof -
  let ?xs = "chosen (\<lambda>i. True) rank ops"
  have set_xs: "set ?xs = set ops" by (rule mset_eq_setD [OF chosen_all])
  have "find (same_key key) (rev ?xs) \<noteq> None"
    using assms(2,3) unfolding find_None_iff set_rev set_xs by blast
  then obtain op2 where f: "find (same_key key) (rev ?xs) = Some op2" by blast
  then have "op2 \<in> set (rev ?xs)" "same_key key op2" unfolding find_Some_iff by (metis nth_mem)+
  then have o: "op2 \<in> set ops" "same_key key op2" by (simp_all add: set_xs)
  have "\<forall>op \<in> set ?xs. op_for sv op" using assms(1) set_xs by simp
  from find_fold [OF this, of key coll]
  have "find (\<lambda>d. doc_key d = key) (apply_ops (\<lambda>i. True) rank ops coll) = Some (snd op2)"
    unfolding apply_ops_def f option.case .
  moreover obtain i where "i < length ops" "ops ! i = op2" using o(1) unfolding in_set_conv_nth by blast
  ultimately show ?thesis using o(2) by blast
qed

lemma find_apply_none:
  assumes "\<forall>op \<in> set ops. op_for sv op \<and> \<not> same_key key op"
  shows "find (\<lambda>d. doc_key d = key) (apply_ops sel rank ops coll) = find (\<lambda>d. doc_key d = key) coll"
proof -
  have "\<forall>op \<in> set (chosen sel rank ops). op_for sv op \<and> \<not> same_key key op"
    using assms by (intro ballI) (drule subsetD [OF chosen_subset], rule bspec)
  moreover from this have "find (same_key key) (rev (chosen sel rank ops)) = None" by (simp add: find_None_iff)
  ultimately show ?thesis using find_fold [of "chosen sel rank ops" sv key coll] by (simp add: apply_ops_def)
qed

text \<open>The attempts at a batch end with a success, perhaps after timeouts.\<close>

definition batch_saved :: "(nat \<Rightarrow> bulk_result) \<Rightarrow> bool" where
  "batch_saved out \<longleftrightarrow> (\<exists>n m rank. n < write_attempts \<and> out n = Saved m rank
     \<and> (\<forall>i. n < i \<and> i < write_attempts \<longrightarrow> (\<exists>sel rank. out i = TimedOut sel rank)))"

lemma bulk_saved:
  assumes "n < k" "out n = Saved m rank" "\<forall>i. n < i \<and> i < k \<longrightarrow> (\<exists>sel rank. out i = TimedOut sel rank)"
  shows "\<exists>coll2. fst (bulk_write_with_retry k out ops coll) = apply_ops (\<lambda>i. True) rank ops coll2"
  using assms
proof (induction k arbitrary: coll)
  case (Suc k)
  show ?case
  proof (cases "n = k")
    case True
    then show ?thesis using Suc.prems(2) by auto
  next
    case False
    then have "n < k" using Suc.prems(1) by simp
    moreover from this obtain sel rank2 where "out k = TimedOut sel rank2" using Suc.prems(3) by blast
    ultimately show ?thesis using Suc.IH Suc.prems(2,3) by simp
  qed
qed simp

text \<open>The place of an operation with a key in the last batch that has one.\<close>

definition latest :: "json option list \<Rightarrow> (stored \<times> stored) list \<Rightarrow> nat \<Rightarrow> bool" where
  "latest key ops i \<longleftrightarrow> i < length ops \<and> same_key key (ops ! i)
     \<and> (\<forall>j < length ops. same_key key (ops ! j) \<longrightarrow> j div write_batch \<le> i div write_batch)"

lemma latest_first:
  assumes "i < length (take write_batch ops)" "same_key key (take write_batch ops ! i)"
    "\<forall>op \<in> set (drop write_batch ops). \<not> same_key key op"
  shows "latest key ops i"
proof -
  have "j < write_batch" if "j < length ops" "same_key key (ops ! j)" for j
  proof (rule ccontr)
    assume "\<not> j < write_batch"
    then have "ops ! j = drop write_batch ops ! (j - write_batch)" "j - write_batch < length (drop write_batch ops)"
      using that(1) by simp_all
    then show False using assms(3) that(2) nth_mem by metis
  qed
  then show ?thesis using assms(1,2) by (simp add: latest_def)
qed

lemma latest_later:
  assumes "latest key (drop write_batch ops) i"
  shows "latest key ops (i + write_batch)"
proof -
  have w: "0 < write_batch" by (simp add: write_batch_def)
  have "j div write_batch \<le> (i + write_batch) div write_batch" if "j < length ops" "same_key key (ops ! j)" for j
  proof (cases "j < write_batch")
    case False
    then have "(j - write_batch) div write_batch \<le> i div write_batch"
      using assms that by (auto simp: latest_def)
    then show ?thesis using False w by (simp add: le_div_geq)
  qed simp
  moreover have i: "i < length ops - write_batch" "same_key key (drop write_batch ops ! i)"
    using assms unfolding latest_def by simp_all
  moreover have "i + write_batch < length ops" "drop write_batch ops ! i = ops ! (i + write_batch)"
    using i(1) by (simp_all add: add.commute)
  ultimately show ?thesis unfolding latest_def by simp
qed

lemma save_batches_none:
  assumes "\<forall>op \<in> set ops. op_for sv op \<and> \<not> same_key key op"
  shows "find (\<lambda>d. doc_key d = key) (fst (save_batches outcome k ops st)) = find (\<lambda>d. doc_key d = key) (fst st)"
proof (rule save_batches_keep [where Q = "\<lambda>c. find (\<lambda>d. doc_key d = key) c = find (\<lambda>d. doc_key d = key) (fst st)"])
  fix op coll
  assume "op \<in> set ops" "find (\<lambda>d. doc_key d = key) coll = find (\<lambda>d. doc_key d = key) (fst st)"
  then show "find (\<lambda>d. doc_key d = key) (upsert_replace op coll) = find (\<lambda>d. doc_key d = key) (fst st)"
    using assms find_replace [of sv op key coll] by (simp add: same_key_def)
qed simp

lemma save_batches_found:
  assumes "\<forall>k. batch_saved (outcome k)" "\<forall>op \<in> set ops. op_for sv op" "\<exists>op \<in> set ops. same_key key op"
  shows "\<exists>i :: nat. latest key ops i \<and> find (\<lambda>d. doc_key d = key) (fst (save_batches outcome k ops st)) = Some (snd (ops ! i))"
  using assms
proof (induction outcome k ops st rule: save_batches.induct)
  case (1 outcome k ops st)
  let ?batch = "take write_batch ops" and ?rest = "drop write_batch ops"
  have ne: "ops \<noteq> []" using "1.prems"(3) by auto
  obtain coll n where b: "bulk_write_with_retry write_attempts (outcome k) ?batch (fst st) = (coll, n)" by force
  have s: "save_batches outcome k ops st = save_batches outcome (k + 1) ?rest (coll, snd st + n)"
    using ne by (simp add: save_batches.simps [of outcome k ops] b)
  have keys: "\<forall>op \<in> set ?batch. op_for sv op" "\<forall>op \<in> set ?rest. op_for sv op"
    using "1.prems"(2) by (meson in_set_takeD in_set_dropD)+
  show ?case
  proof (cases "\<exists>op \<in> set ?rest. same_key key op")
    case True
    from "1.IH" [OF ne b [symmetric] refl "1.prems"(1) keys(2) True] obtain i where
      "latest key ?rest i" "find (\<lambda>d. doc_key d = key) (fst (save_batches outcome k ops st)) = Some (snd (?rest ! i))"
      unfolding s by blast
    moreover from this have "?rest ! i = ops ! (i + write_batch)" unfolding latest_def by (subst nth_drop) (auto simp: add.commute)
    ultimately show ?thesis using latest_later by metis
  next
    case False
    moreover have "set ops = set ?batch \<union> set ?rest" by (metis append_take_drop_id set_append)
    ultimately obtain op where op: "op \<in> set ?batch" "same_key key op" using "1.prems"(3) by blast
    obtain m j rank where "j < write_attempts" "outcome k j = Saved m rank"
      "\<forall>i. j < i \<and> i < write_attempts \<longrightarrow> (\<exists>sel rank. outcome k i = TimedOut sel rank)"
      using "1.prems"(1) [rule_format, of k] unfolding batch_saved_def by blast
    from bulk_saved [OF this, of ?batch "fst st"] obtain coll2 where
      "coll = apply_ops (\<lambda>i. True) rank ?batch coll2" using b by auto
    with find_apply_all [OF keys(1) op] obtain i where i: "i < length ?batch" "same_key key (?batch ! i)"
      "find (\<lambda>d. doc_key d = key) coll = Some (snd (?batch ! i))" by blast
    have "find (\<lambda>d. doc_key d = key) (fst (save_batches outcome k ops st)) = find (\<lambda>d. doc_key d = key) coll"
      unfolding s using save_batches_none [of ?rest sv key] keys(2) False by simp
    then show ?thesis using i latest_first [of i ops key] False by auto
  qed
qed

text \<open>
  C19: When every batch is written in one of its five attempts, perhaps after timeouts that carried
  out any part of it, then after saving a document whose key no row has is the one that was there,
  and a document whose key some row has is the record of one of these rows, of one in the last batch
  of 200 that has such a row. Which one of that batch is up to MongoDB, because the write is not
  ordered; with one row of a key it is that row.
\<close>

theorem saved_found:
  assumes "\<forall>k. batch_saved (outcome k)" "docs = map (standardize_record shown sv) (prepared_rows sv rows)"
    "after = find (\<lambda>d. doc_key d = key) (fst (save_historical_data shown outcome sv rows coll))"
  shows "if \<exists>d \<in> set docs. doc_key d = key
    then \<exists>i < length docs. doc_key (docs ! i) = key \<and> after = Some (docs ! i)
      \<and> (\<forall>j < length docs. doc_key (docs ! j) = key \<longrightarrow> j div 200 \<le> i div 200)
    else after = find (\<lambda>d. doc_key d = key) coll"
proof -
  let ?ops = "map (save_op shown sv) (prepared_rows sv rows)"
  have docs: "docs = map snd ?ops" unfolding assms(2) by (simp add: save_op_def Let_def)
  have k: "\<forall>op \<in> set ?ops. op_for sv op" using save_op_key by auto
  show ?thesis
  proof (cases "\<exists>d \<in> set docs. doc_key d = key")
    case True
    then have "\<exists>op \<in> set ?ops. same_key key op" unfolding docs by (simp add: same_key_def)
    from save_batches_found [OF assms(1) k this, where k = 0 and st = "(coll, 0)"] obtain i where
      i: "latest key ?ops i" and "find (\<lambda>d. doc_key d = key) (fst (save_batches outcome 0 ?ops (coll, 0))) = Some (snd (?ops ! i))"
      by (elim exE conjE)
    then have a: "after = Some (snd (?ops ! i))" unfolding assms(3) save_historical_data_def by (simp only:)
    have "i < length docs \<and> doc_key (docs ! i) = key \<and> after = Some (docs ! i)
      \<and> (\<forall>j < length docs. doc_key (docs ! j) = key \<longrightarrow> j div 200 \<le> i div 200)"
      using i a unfolding docs latest_def same_key_def write_batch_def by (auto simp del: map_map)
    then show ?thesis unfolding if_P [OF True] by blast
  next
    case False
    then have "\<forall>op \<in> set ?ops. op_for sv op \<and> \<not> same_key key op" using k unfolding docs by (auto simp: same_key_def)
    from save_batches_none [OF this] show ?thesis
      unfolding if_not_P [OF False] assms(3) save_historical_data_def by (simp only: fst_conv)
  qed
qed

section \<open>The days that were preheated\<close>

text \<open>A document of the preheater has a date of eight characters without a hyphen.\<close>

definition compact_day :: "stored \<Rightarrow> bool" where
  "compact_day d \<longleftrightarrow> (\<exists>s. dget d [116, 114, 97, 100, 101, 95, 100, 97, 116, 101] = Some (JStr s) \<and> length s = 8 \<and> 45 \<notin> set s)"

definition preheat_shape :: "stored \<times> stored \<Rightarrow> bool" where
  "preheat_shape op \<longleftrightarrow> (\<exists>code6 day row. op = preheat_op code6 day row \<and> length day = 8 \<and> 45 \<notin> set day)"

lemma preheat_ops_shape: "preheat_ops shown code6 rows = Some ops \<Longrightarrow> op \<in> set ops \<Longrightarrow> preheat_shape op"
proof (induction shown code6 rows arbitrary: ops rule: preheat_ops.induct)
  case (2 shown code6 row rows)
  define day where "day = compact_date shown (dget_default row [116] (JStr []))"
  obtain ops1 where o: "preheat_ops shown code6 rows = Some ops1" "ops = (if length day = 8 then [preheat_op code6 day row] else []) @ ops1"
    using "2.prems"(1) by (auto simp: Let_def day_def)
  have "45 \<notin> set day" by (simp add: day_def compact_date_def)
  then have "length day = 8 \<Longrightarrow> preheat_shape (preheat_op code6 day row)" unfolding preheat_shape_def by blast
  moreover have "op \<in> set ops1 \<Longrightarrow> preheat_shape op" using "2.IH" [OF refl o(1)] .
  ultimately show ?case using "2.prems"(2) o(2) by (auto split: if_splits)
qed simp_all

lemma preheat_op_fields: "distinct (dkeys (snd (preheat_op code6 day row)))" "dget (snd (preheat_op code6 day row)) [116, 114, 97, 100, 101, 95, 100, 97, 116, 101] = Some (JStr day)"
  by (simp_all add: preheat_op_def preheat_key_def)

lemma compact_update:
  assumes "preheat_shape op"
  shows "compact_day (dupdate d (snd op))"
proof -
  obtain code6 day row where op: "op = preheat_op code6 day row" "length day = 8" "45 \<notin> set day" using assms by (auto simp: preheat_shape_def)
  have "dget (dupdate d (snd op)) [116, 114, 97, 100, 101, 95, 100, 97, 116, 101] = Some (JStr day)"
    unfolding op(1) dget_dupdate [OF preheat_op_fields(1)] using preheat_op_fields(2) by (rule map_add_find_right)
  then show ?thesis using op(2,3) by (simp add: compact_day_def)
qed

lemma change_first_member: "d \<in> set (change_first P f ds) \<Longrightarrow> d \<in> set ds \<or> (\<exists>d0. d = f d0)"
  by (induction ds) (auto split: if_splits)

lemma upsert_set_new:
  assumes "preheat_shape op" "d \<in> set (upsert_set op coll)"
  shows "d \<in> set coll \<or> compact_day d"
proof (cases "list_ex (fulfils (fst op)) coll")
  case True
  then have "d \<in> set (change_first (fulfils (fst op)) (\<lambda>d. dupdate d (snd op)) coll)" using assms(2) by (simp add: upsert_set_def split_beta)
  from change_first_member [OF this] show ?thesis using compact_update [OF assms(1)] by auto
next
  case False
  then show ?thesis using assms(2) compact_update [OF assms(1)] by (auto simp: upsert_set_def split_beta)
qed

lemma upserts_new: "\<forall>op \<in> set ops. preheat_shape op \<Longrightarrow> d \<in> set (fold upsert_set ops coll) \<Longrightarrow> d \<in> set coll \<or> compact_day d"
proof (induction ops arbitrary: coll)
  case (Cons op ops)
  then have "d \<in> set (upsert_set op coll) \<or> compact_day d" by simp
  moreover have "preheat_shape op" using Cons.prems(1) by simp
  ultimately show ?case using upsert_set_new by blast
qed simp

lemma preheat_stock_new:
  assumes "d \<in> set (fst (preheat_stock shown files writes code st))"
  shows "d \<in> set (fst st) \<or> compact_day d"
proof -
  let ?file = "code @ [95, 100, 46, 106, 115, 111, 110]"
  show ?thesis
  proof (cases "\<exists>v rows op ops. files ?file = FileValue v \<and> kline_rows v = Some rows \<and> preheat_ops shown (code_part code) rows = Some (op # ops) \<and> writes code")
    case True
    then obtain v rows op ops where f: "files ?file = FileValue v" "kline_rows v = Some rows" "preheat_ops shown (code_part code) rows = Some (op # ops)" "writes code"
      by blast
    then have "\<forall>op \<in> set (op # ops). preheat_shape op" using preheat_ops_shape by blast
    moreover have "fst (preheat_stock shown files writes code st) = fold upsert_set (op # ops) (fst st)" using f by (simp add: preheat_stock_def)
    ultimately show ?thesis using upserts_new assms by metis
  next
    case False
    then have "preheat_stock shown files writes code st = st"
      by (force simp: preheat_stock_def split: day_file.split option.split list.split)
    then show ?thesis using assms by simp
  qed
qed

lemma preheat_new: "d \<in> set (fst (preheat shown files writes up codes coll)) \<Longrightarrow> d \<in> set coll \<or> compact_day d"
proof -
  have "d \<in> set (fst (fold (preheat_stock shown files writes) codes st)) \<Longrightarrow> d \<in> set (fst st) \<or> compact_day d" for st
  proof (induction codes arbitrary: st)
    case (Cons code codes)
    then have "d \<in> set (fst (preheat_stock shown files writes code st)) \<or> compact_day d" by simp
    then show ?case using preheat_stock_new by blast
  qed simp
  from this [of "(coll, 0)"] show "d \<in> set (fst (preheat shown files writes up codes coll)) \<Longrightarrow> ?thesis"
    by (auto simp: preheat_def split: if_splits)
qed

lemma find_days_member: "d \<in> set (find_days query start until coll) \<Longrightarrow> d \<in> set coll \<and> in_range start until d"
  by (simp add: find_days_def)

lemma cached_member:
  assumes "cached_days cfg symbol start until period coll = Some ds" "d \<in> set ds"
  shows "d \<in> set coll \<and> in_range start until d"
proof -
  obtain query where "ds = find_days query start until coll"
    using assms(1) unfolding cached_days_def Let_def find_Some_iff by (force dest: nth_mem)
  then show ?thesis using find_days_member assms(2) by blast
qed

lemma hyphen_later:
  assumes "length (s :: ustr) = 8" "list_all code_digit s" "s \<le> y @ 45 # rest" "length y = 4"
  shows "take 4 s < y"
proof -
  obtain a b where s: "s = a @ b" "length a = 4" "length b = 4" using assms(1) by (intro that [of "take 4 s" "drop 4 s"]) simp_all
  obtain c cs where b: "b = c # cs" using s(3) by (cases b) auto
  have c: "45 < c" using assms(2) by (simp add: s b code_digit_def)
  have "a @ c # cs \<le> y @ 45 # rest \<Longrightarrow> length a = length y \<Longrightarrow> a < y"
  proof (induction a arbitrary: y)
    case Nil
    then show ?case using c by simp
  next
    case (Cons x a)
    then show ?case by (cases y) auto
  qed
  then show ?thesis using assms(3,4) s b by simp
qed

text \<open>
  C18: Of the days that the preheater has written, a reader that asks up to a date with hyphens finds
  none of the year of that date: only days of earlier years.
\<close>

theorem preheated_year_missing:
  assumes "preheat shown files writes up codes coll = (coll2, n)"
    "cached_days cfg symbol start (y @ 45 # rest) period coll2 = Some ds" "length y = 4"
    "d \<in> set ds" "d \<notin> set coll" "list_all code_digit (day_text d)"
  shows "length (day_text d) = 8 \<and> take 4 (day_text d) < y"
proof -
  have d: "d \<in> set coll2" "in_range start (y @ 45 # rest) d" using cached_member [OF assms(2,4)] by simp_all
  have "d \<in> set (fst (preheat shown files writes up codes coll))" using d(1) assms(1) by simp
  then have "compact_day d" using preheat_new assms(5) by blast
  then obtain s where s: "dget d [116, 114, 97, 100, 101, 95, 100, 97, 116, 101] = Some (JStr s)" "length s = 8" by (auto simp: compact_day_def)
  then have t: "day_text d = s" by (simp add: day_text_def)
  have "s \<le> y @ 45 # rest" using d(2) s(1) by (auto simp: in_range_def)
  then show ?thesis using hyphen_later [OF s(2) _ _ assms(3)] assms(6) s(2) unfolding t by blast
qed

section \<open>Examples\<close>

definition ex_row :: "ustr \<Rightarrow> stored" where "ex_row day = [([116], JStr day), ([99], JInt 10)]"

definition ex_file :: json where
  "ex_file = JObj [([100, 97, 116, 97], JList (map (JObj \<circ> ex_row) [[50, 48, 50, 51, 45, 49, 50, 45, 49, 56], [50, 48, 50, 51, 45, 49, 50, 45, 49, 57], [50, 48, 50, 51, 45, 49, 50, 45, 50, 48], [50, 48, 50, 51, 45, 49, 50, 45, 50, 49], [50, 48, 50, 51, 45, 49, 50, 45, 50, 50], [50, 48, 50, 51, 45, 49, 50, 45, 50, 53],
     [50, 48, 50, 51, 45, 49, 50, 45, 50, 54], [50, 48, 50, 51, 45, 49, 50, 45, 50, 55], [50, 48, 50, 51, 45, 49, 50, 45, 50, 56], [50, 48, 50, 52, 45, 48, 49, 45, 48, 50]]))]"

definition ex_heated :: "stored list \<times> nat" where
  "ex_heated = preheat (\<lambda>v. []) (\<lambda>name. FileValue ex_file) (\<lambda>code. True) True [[54, 48, 48, 53, 49, 57, 46, 83, 72]] []"

definition ex_read :: "stored list" where
  "ex_read = the (cached_days None [54, 48, 48, 53, 49, 57] [] [50, 48, 50, 52, 45, 48, 49, 45, 51, 49] [100, 97, 105, 108, 121] (fst ex_heated))"

lemma ex_read_days: "cached_days None [54, 48, 48, 53, 49, 57] [] ([50, 48, 50, 52] @ 45 # [48, 49, 45, 51, 49]) [100, 97, 105, 108, 121] (fst ex_heated) = Some ex_read"
  "map day_text ex_read = [[50, 48, 50, 51, 49, 50, 49, 56], [50, 48, 50, 51, 49, 50, 49, 57], [50, 48, 50, 51, 49, 50, 50, 48], [50, 48, 50, 51, 49, 50, 50, 49], [50, 48, 50, 51, 49, 50, 50, 50], [50, 48, 50, 51, 49, 50, 50, 53], [50, 48, 50, 51, 49, 50, 50, 54], [50, 48, 50, 51, 49, 50, 50, 55], [50, 48, 50, 51, 49, 50, 50, 56]]"
  "list_all (\<lambda>d. list_all code_digit (day_text d)) ex_read" "map day_text (drop 9 (fst ex_heated)) = [[50, 48, 50, 52, 48, 49, 48, 50]]"
  by code_simp+

theorem preheated_year_missing_witness:
  "ex_read \<noteq> [] \<and> list_all (\<lambda>d. take 4 (day_text d) < [50, 48, 50, 52]) ex_read"
proof -
  have h: "preheat (\<lambda>v. []) (\<lambda>name. FileValue ex_file) (\<lambda>code. True) True [[54, 48, 48, 53, 49, 57, 46, 83, 72]] [] = (fst ex_heated, snd ex_heated)"
    by (simp add: ex_heated_def)
  have l: "length [50, 48, 50, 52] = 4" by simp
  have "take 4 (day_text d) < [50, 48, 50, 52]" if "d \<in> set ex_read" for d
  proof -
    have "list_all code_digit (day_text d)" using ex_read_days(3) that unfolding list_all_iff by blast
    then show ?thesis using preheated_year_missing [OF h ex_read_days(1) l that] by simp
  qed
  moreover have "ex_read \<noteq> []" using ex_read_days(2) by (intro notI) simp
  ultimately show ?thesis unfolding list_all_iff by blast
qed

definition ex_saving :: saving where
  "ex_saving = \<lparr>sv_symbol = [54, 48, 48, 53, 49, 57], sv_source = [97, 107, 115, 104, 97, 114, 101], sv_market_name = [67, 78], sv_period = [100, 97, 105, 108, 121], sv_today = [50, 48, 50, 52, 45, 48, 49, 45, 48, 51], sv_now = []\<rparr>"

definition ex_rows_saved :: "(ustr option \<times> stored) list" where
  "ex_rows_saved = [(None, [([100, 97, 116, 101], JStr [50, 48, 50, 52, 45, 48, 49, 45, 48, 50]), ([105, 115, 83, 84], JInt 1)]), (None, [([100, 97, 116, 101], JStr [50, 48, 50, 52, 48, 49, 48, 50]), ([105, 115, 83, 84], JInt 2)])]"

theorem saved_unique_witness:
  "distinct (map doc_key (fst (save_historical_data (\<lambda>v. []) (\<lambda>k n. TimedOut (\<lambda>i. True) (\<lambda>i. i)) ex_saving ex_rows_saved [])))"
  by (rule saved_unique) simp

text \<open>Two rows of one day: the rank that MongoDB gives to the operations decides which one is found.\<close>

definition ex_found :: "(nat \<Rightarrow> nat) \<Rightarrow> stored option" where
  "ex_found rank = find (\<lambda>d. doc_key d = day_key ex_saving [50, 48, 50, 52, 45, 48, 49, 45, 48, 50])
     (fst (save_historical_data (\<lambda>v. []) (\<lambda>k n. Saved 1 rank) ex_saving ex_rows_saved []))"

lemma ex_prepared: "prepared_rows ex_saving ex_rows_saved = ex_rows_saved"
  by (simp add: prepared_rows_def in_units_def ex_saving_def ex_rows_saved_def)

lemma ex_keys: "ir \<in> set ex_rows_saved
  \<Longrightarrow> doc_key (standardize_record (\<lambda>v. []) ex_saving ir) = day_key ex_saving [50, 48, 50, 52, 45, 48, 49, 45, 48, 50]"
proof -
  have "list_all (\<lambda>ir. fst ir = None \<and> row_date (\<lambda>v. []) (sv_today ex_saving) None (snd ir)
      = [50, 48, 50, 52, 45, 48, 49, 45, 48, 50]) ex_rows_saved" by code_simp
  then show "ir \<in> set ex_rows_saved \<Longrightarrow> ?thesis"
    using standardize_key [of "\<lambda>v. []" ex_saving None "snd ir"] unfolding list_all_iff by (metis prod.collapse)
qed

lemma unordered_write: "ex_found (\<lambda>i. i) = Some (standardize_record (\<lambda>v. []) ex_saving (ex_rows_saved ! 1))"
  "ex_found (\<lambda>i. 9 - i) = Some (standardize_record (\<lambda>v. []) ex_saving (ex_rows_saved ! 0))"
proof -
  obtain a b where ab: "ex_rows_saved = [a, b]" by (simp add: ex_rows_saved_def)
  let ?op = "save_op (\<lambda>v. []) ex_saving"
  let ?key = "day_key ex_saving [50, 48, 50, 52, 45, 48, 49, 45, 48, 50]"
  have found: "ex_found rank = find (\<lambda>d. doc_key d = ?key) (fold upsert_replace (chosen (\<lambda>i. True) rank [?op a, ?op b]) [])" for rank
  proof -
    have "bulk_write_with_retry write_attempts (\<lambda>n. Saved 1 rank) ops [] = (apply_ops (\<lambda>i. True) rank ops [], 1)" for ops
      using bulk_write_with_retry.simps(2) [of 4] by (simp add: write_attempts_def)
    then have "fst (save_batches (\<lambda>k n. Saved 1 rank) 0 [?op a, ?op b] ([], 0)) = apply_ops (\<lambda>i. True) rank [?op a, ?op b] []"
      by (subst save_batches.simps) (simp add: write_batch_def save_batches.simps)
    then show ?thesis unfolding ex_found_def save_historical_data_def ex_prepared by (simp add: ab apply_ops_def)
  qed
  have keys: "same_key ?key (?op a)" "same_key ?key (?op b)" "snd (?op a) = standardize_record (\<lambda>v. []) ex_saving a"
    "snd (?op b) = standardize_record (\<lambda>v. []) ex_saving b"
    using ex_keys [of a] ex_keys [of b] by (simp_all add: ab same_key_def save_op_def Let_def)
  have c: "chosen (\<lambda>i. True) (\<lambda>i. i) [?op a, ?op b] = [?op a, ?op b]"
    "chosen (\<lambda>i. True) (\<lambda>i. 9 - i) [?op a, ?op b] = [?op b, ?op a]"
    by (simp_all add: chosen_def)
  have o: "\<forall>op \<in> set [?op a, ?op b]. op_for ex_saving op" "\<forall>op \<in> set [?op b, ?op a]. op_for ex_saving op"
    by (simp_all add: save_op_key)
  show "ex_found (\<lambda>i. i) = Some (standardize_record (\<lambda>v. []) ex_saving (ex_rows_saved ! 1))"
    unfolding found c find_fold [OF o(1)] by (simp add: keys ab)
  show "ex_found (\<lambda>i. 9 - i) = Some (standardize_record (\<lambda>v. []) ex_saving (ex_rows_saved ! 0))"
    unfolding found c find_fold [OF o(2)] by (simp add: keys ab)
qed

theorem saved_found_witness:
  "\<exists>i < 2. ex_found (\<lambda>i. 9 - i) = Some (standardize_record (\<lambda>v. []) ex_saving (ex_rows_saved ! i))"
proof -
  let ?docs = "map (standardize_record (\<lambda>v. []) ex_saving) (prepared_rows ex_saving ex_rows_saved)"
  let ?key = "day_key ex_saving [50, 48, 50, 52, 45, 48, 49, 45, 48, 50]"
  have b: "batch_saved (\<lambda>n. Saved 1 (\<lambda>i. 9 - i))"
    unfolding batch_saved_def by (rule exI [of _ 4]) (auto simp: write_attempts_def)
  have "standardize_record (\<lambda>v. []) ex_saving (ex_rows_saved ! 0) \<in> set ?docs" "ex_rows_saved ! 0 \<in> set ex_rows_saved"
    unfolding ex_prepared by (simp_all add: ex_rows_saved_def)
  then have "\<exists>d \<in> set ?docs. doc_key d = ?key" using ex_keys by blast
  moreover note saved_found [OF allI [OF b] refl ex_found_def [of "\<lambda>i. 9 - i"]]
  ultimately obtain i where "i < length ?docs" "ex_found (\<lambda>i. 9 - i) = Some (?docs ! i)" by (metis (no_types))
  moreover have "length ex_rows_saved = 2" by (simp add: ex_rows_saved_def)
  ultimately show ?thesis unfolding ex_prepared by (intro exI [of _ i]) simp
qed

end
