(* ===== verification/Spec2Isabelle.thy ===== *)
theory Spec2Isabelle
imports DispatchLive FilterProofs OrchestratorProofs MemoryProofs AnalysisClient QueueProofs AgentGraph PaperProofs
  ScreeningTypes MarketApi Tracker QuotesIngestion Progress ErrorReports AnalysisSteps ReportValidator EnhancedScreening FeishuProofs DailyQuotesProofs
begin

text \<open>
  A verification library for TA_daily: a daily run that screens the Chinese stock market with
  technical filters, merges the picks, has every pick analysed by a system of language model
  agents (TradingAgents-CN), and reports. This theory imports the whole development.

  Parts of the program, and their theories.

  \<^item> The screening. \<open>Indicators\<close> holds the indicators of \<open>filter.py\<close> and \<open>stock_filter_b2.py\<close>
    (RSV, both KDJ variants, EMA, MA, SMA), \<open>B1Filter\<close> and \<open>UltraShort\<close> the two filters of
    \<open>filter.py\<close>, \<open>B2Filter\<close> the module \<open>stock_filter_b2.py\<close>, and \<open>StockFilter\<close> the run of
    \<open>stock_filter.py\<close>: the pool, the quick exclusion, the handling of one stock, the batches, the
    order of the results. \<open>FilterKeys\<close> has the keys of their dicts, \<open>LocalStores\<close> the list of
    failed stocks (\<open>retry_manager.py\<close>) and the cache files (\<open>data_storage.py\<close>). Prices and
    averages are doubles: \<open>PyFloat\<close> defines rounding to IEEE double precision on the rationals,
    and every arithmetic operation of the code is one rounded operation of the model.
  \<^item> The daily run. \<open>FilterRunner\<close> is \<open>pipeline/filter_runner.py\<close> (merge of B1 and B2, the CSV
    tables, the watch list), \<open>Czsc\<close> is \<open>pipeline/czsc_scanner.py\<close>, \<open>Dispatch\<close> is
    \<open>pipeline/stock_dispatch.py\<close> (the threads of the dispatch queue as a step relation, with an
    executable scheduler), \<open>AnalysisClient\<close> is \<open>pipeline/analysis_client.py\<close>, and \<open>Orchestrator\<close>
    is \<open>pipeline/orchestrator.py\<close>, which calls them. \<open>Models\<close> has the records of
    \<open>pipeline/models.py\<close> that they exchange.
  \<^item> The analysis service, under \<open>TradingAgents-CN/\<close>. \<open>MemoryState\<close> is
    \<open>app/services/memory_state_manager.py\<close>, \<open>QueueService\<close> is \<open>app/services/queue_service.py\<close> with
    its helpers, over a Redis interface given as operations with laws and interpreted by an
    in-memory store, \<open>AgentGraph\<close> is the routing of \<open>tradingagents/graph\<close> with the counters of the
    debates, \<open>ProviderKeys\<close> is \<open>tradingagents/llm_clients/provider_keys.py\<close>, and \<open>Paper\<close> is the
    simulated trading of \<open>app/routers/paper.py\<close>.
  \<^item> Shared. \<open>Prelude\<close> has results (\<open>Inl\<close> an error, \<open>Inr\<close> a value), ordered dicts as
    association lists, sums over threads and facts on sorting; \<open>PyStr\<close>, \<open>PyNum\<close> and \<open>PyTime\<close> have
    the strings, numbers and times of the interpreter that the code uses.

  What the lemmas show.

  \<^item> \<open>DispatchProofs\<close>: for every interleaving no stock is lost or duplicated between the queue,
    the workers and the two callbacks, a run that is not drained ends with every stock reported,
    attempts are bounded, and one schedule in which the drain loses a stock. \<open>DispatchLive\<close>: from
    every reachable state the dispatcher can finish.
  \<^item> \<open>FilterProofs\<close>, \<open>OrchestratorProofs\<close>, \<open>Czsc\<close>: the merge gives one stock per passing code
    with exactly the tags it earned, the watch list and the CZSC channel join it, the counts of a
    run add up, and when a run raises. \<open>code_merge\<close> in \<open>Models\<close> is the contract that the watch
    list and the CZSC channel share.
  \<^item> \<open>Indicators\<close>: the KDJ values stay in their range under all roundings, through the locale
    \<open>smoothing\<close> that both variants interpret. \<open>StockFilterProofs\<close>, \<open>ScreeningTypes\<close>: every stock
    gets one result, what the quick exclusion may drop, what a reported tag means in terms of the
    history, and that the merge never raises on the results. \<open>ScreeningExample\<close> runs the whole
    screening on one concrete history. \<open>B1Filter\<close>, \<open>B2Filter\<close>, \<open>UltraShort\<close> and \<open>LocalStores\<close> end
    with the properties of their definitions.
  \<^item> \<open>MemoryProofs\<close>, \<open>QueueProofs\<close>, \<open>AnalysisClient\<close>, \<open>AgentGraph\<close>: the invariants of the task
    store, the effect of every queue operation with its failures, the termination of polling and
    of the agent graph with the number of debate rounds. \<open>PaperProofs\<close>: the book of positions and
    trades, and the effect of a filled order.

  Bounds. The agent graph and the polling loop have their own measures, so their fuel is shown to
  suffice. Volumes and prices are doubles, where an integer below two to the 53 is exact.

  The environment. What is not under the source directory is a parameter: the market data service,
  the language models, Redis and MongoDB, the file system, the clock, and the order in which
  threads complete. Threads interleave at every access to shared state in \<open>Dispatch\<close>; the
  screening threads share only the failure list.

  Not modelled. User interfaces (\<open>cli\<close>, \<open>web\<close>, \<open>frontend\<close>), the adapters of data sources and
  language models, configuration and synchronisation services, report templates, notifications,
  and the scripts around them: they call packages, services and databases and carry little logic
  of their own. The rotation of access tokens in \<open>api.py\<close> and the tracker across days of the
  strategy researcher are left for a later extension.
\<close>

end
